(* ===== verification/Prelude.thy ===== *)
theory Prelude
  imports Main "HOL-Library.Word" "HOL-Library.List_Lexorder" "HOL-Library.Char_ord"
begin

text \<open>
  Shared vocabulary of the development: Rust's \<open>Result\<close> as a sum type with the early-return
  operator as \<open>and_then\<close>, checked machine arithmetic, and the \<open>BTreeMap\<close> of the standard
  library as a strictly sorted association list behind the interface \<open>ordered_map\<close>.
\<close>

section \<open>Collections of rules\<close>

named_theorems verdant_defs \<open>defining equations of small helpers, unfolded on demand\<close>
named_theorems length_less \<open>parsers consume input\<close>

section \<open>Results\<close>

type_synonym ('e, 'a) result = "'e + 'a"

text \<open>\<open>and_then r k\<close> is \<open>let x = r?; k(x)\<close>: an error returns at once.\<close>

definition and_then :: "'e + 'a \<Rightarrow> ('a \<Rightarrow> 'e + 'b) \<Rightarrow> 'e + 'b" where
  "and_then r k = (case r of Inl e \<Rightarrow> Inl e | Inr x \<Rightarrow> k x)"

definition map_ok :: "('a \<Rightarrow> 'b) \<Rightarrow> 'e + 'a \<Rightarrow> 'e + 'b" where
  "map_ok f r = (case r of Inl e \<Rightarrow> Inl e | Inr x \<Rightarrow> Inr (f x))"

definition map_err :: "('e \<Rightarrow> 'f) \<Rightarrow> 'e + 'a \<Rightarrow> 'f + 'a" where
  "map_err f r = (case r of Inl e \<Rightarrow> Inl (f e) | Inr x \<Rightarrow> Inr x)"

definition ok_or :: "'e \<Rightarrow> 'a option \<Rightarrow> 'e + 'a" where
  "ok_or e r = (case r of None \<Rightarrow> Inl e | Some x \<Rightarrow> Inr x)"

definition is_ok :: "'e + 'a \<Rightarrow> bool" where
  "is_ok r = (case r of Inl _ \<Rightarrow> False | Inr _ \<Rightarrow> True)"

lemma and_then_simps [simp]:
  "and_then (Inl e) k = Inl e"
  "and_then (Inr x) k = k x"
  by (simp_all add: and_then_def)

lemma map_ok_simps [simp]:
  "map_ok f (Inl e) = Inl e"
  "map_ok f (Inr x) = Inr (f x)"
  by (simp_all add: map_ok_def)

lemma map_err_simps [simp]:
  "map_err f (Inl e) = Inl (f e)"
  "map_err f (Inr x) = Inr x"
  by (simp_all add: map_err_def)

lemma ok_or_simps [simp]:
  "ok_or e None = Inl e"
  "ok_or e (Some x) = Inr x"
  by (simp_all add: ok_or_def)

lemma is_ok_simps [simp]:
  "is_ok (Inl e) = False"
  "is_ok (Inr x) = True"
  by (simp_all add: is_ok_def)

lemma is_ok_iff: "is_ok r \<longleftrightarrow> (\<exists>x. r = Inr x)"
  by (cases r) simp_all

lemma and_then_eq_Inr [simp]:
  "and_then r k = Inr y \<longleftrightarrow> (\<exists>x. r = Inr x \<and> k x = Inr y)"
  by (cases r) simp_all

lemma map_ok_eq_Inr [simp]: "map_ok f r = Inr y \<longleftrightarrow> (\<exists>x. r = Inr x \<and> y = f x)"
  by (cases r) auto

lemma map_err_eq_Inr [simp]: "map_err f r = Inr y \<longleftrightarrow> r = Inr y"
  by (cases r) simp_all

lemma ok_or_eq_Inr [simp]: "ok_or e r = Inr y \<longleftrightarrow> r = Some y"
  by (cases r) simp_all

lemma and_then_eq_Inl:
  "and_then r k = Inl e \<longleftrightarrow> r = Inl e \<or> (\<exists>x. r = Inr x \<and> k x = Inl e)"
  by (cases r) simp_all

lemma if_Inl_eq_Inr [simp]:
  "(if b then Inl e else r) = Inr y \<longleftrightarrow> \<not> b \<and> r = Inr y"
  by simp

section \<open>Checked machine arithmetic\<close>

type_synonym u8 = "8 word"
type_synonym u16 = "16 word"
type_synonym u32 = "32 word"
type_synonym u64 = "64 word"

definition checked_add :: "'a::len word \<Rightarrow> 'a word \<Rightarrow> 'a word option" where
  "checked_add x y = (if unat x + unat y < 2 ^ LENGTH('a) then Some (x + y) else None)"

definition checked_sub :: "'a::len word \<Rightarrow> 'a word \<Rightarrow> 'a word option" where
  "checked_sub x y = (if y \<le> x then Some (x - y) else None)"

lemma checked_add_Some:
  "checked_add x y = Some z \<Longrightarrow> unat z = unat x + unat y"
  for x y :: "'a::len word"
  by (auto simp: checked_add_def unat_word_ariths split: if_splits)

lemma checked_add_None:
  "checked_add x y = None \<longleftrightarrow> 2 ^ LENGTH('a) \<le> unat x + unat y"
  for x y :: "'a::len word"
  by (auto simp: checked_add_def)

lemma checked_sub_Some:
  "checked_sub x y = Some z \<Longrightarrow> unat z = unat x - unat y \<and> unat y \<le> unat x"
  for x y :: "'a::len word"
  by (auto simp: checked_sub_def unat_sub word_le_nat_alt split: if_splits)

lemma checked_sub_None:
  "checked_sub x y = None \<longleftrightarrow> unat x < unat y"
  for x y :: "'a::len word"
  by (auto simp: checked_sub_def word_le_nat_alt)

text \<open>
  \<open>i64\<close> and \<open>i128\<close> values are integers with their range; the code's checked operations on them
  refuse a result outside it.
\<close>

definition in_i64 :: "int \<Rightarrow> bool" where
  "in_i64 i \<longleftrightarrow> - (2 ^ 63) \<le> i \<and> i < 2 ^ 63"

definition in_i128 :: "int \<Rightarrow> bool" where
  "in_i128 i \<longleftrightarrow> - (2 ^ 127) \<le> i \<and> i < 2 ^ 127"

definition checked_sub_i64 :: "int \<Rightarrow> int \<Rightarrow> int option" where
  "checked_sub_i64 a b = (if in_i64 (a - b) then Some (a - b) else None)"

definition checked_add_i64 :: "int \<Rightarrow> int \<Rightarrow> int option" where
  "checked_add_i64 a b = (if in_i64 (a + b) then Some (a + b) else None)"

section \<open>Ordered maps\<close>

text \<open>
  \<open>BTreeMap\<close> iterates in key order and holds each key once: an association list whose keys are
  strictly increasing. Text keys compare by bytes, which is the order of \<open>List_Lexorder\<close>.
\<close>

fun bt_insert :: "'k::linorder \<Rightarrow> 'v \<Rightarrow> ('k \<times> 'v) list \<Rightarrow> ('k \<times> 'v) list" where
  "bt_insert k v [] = [(k, v)]"
| "bt_insert k v ((k', v') # m) =
     (if k < k' then (k, v) # (k', v') # m
      else if k = k' then (k, v) # m
      else (k', v') # bt_insert k v m)"

fun bt_remove :: "'k::linorder \<Rightarrow> ('k \<times> 'v) list \<Rightarrow> ('k \<times> 'v) list" where
  "bt_remove k [] = []"
| "bt_remove k ((k', v') # m) = (if k = k' then m else (k', v') # bt_remove k m)"

definition bt_get :: "('k \<times> 'v) list \<Rightarrow> 'k \<Rightarrow> 'v option" where
  "bt_get m k = map_of m k"

definition bt_keys :: "('k \<times> 'v) list \<Rightarrow> 'k list" where
  "bt_keys m = map fst m"

definition bt_ok :: "('k::linorder \<times> 'v) list \<Rightarrow> bool" where
  "bt_ok m \<longleftrightarrow> sorted_wrt (<) (map fst m)"

text \<open>The keys held, as a set, with its own rules so that pairs are not taken apart.\<close>

definition bt_dom :: "('k \<times> 'v) list \<Rightarrow> 'k set" where
  "bt_dom m = fst ` set m"

lemma bt_dom_simps [simp]:
  "bt_dom [] = {}"
  "bt_dom (p # m) = insert (fst p) (bt_dom m)"
  "bt_dom (m @ n) = bt_dom m \<union> bt_dom n"
  by (auto simp: bt_dom_def)

lemma bt_ok_Nil [simp]: "bt_ok []"
  by (simp add: bt_ok_def)

lemma bt_ok_Cons [simp]: "bt_ok (p # m) \<longleftrightarrow> (\<forall>k \<in> bt_dom m. fst p < k) \<and> bt_ok m"
  by (simp add: bt_ok_def bt_dom_def)

lemma bt_ok_append: "bt_ok (m @ n) \<longleftrightarrow> bt_ok m \<and> bt_ok n \<and> (\<forall>k \<in> bt_dom m. \<forall>k' \<in> bt_dom n. k < k')"
  by (auto simp: bt_ok_def bt_dom_def sorted_wrt_append)

lemma bt_dom_insert [simp]: "bt_dom (bt_insert k v m) = insert k (bt_dom m)"
  by (induction k v m rule: bt_insert.induct) (simp_all add: insert_commute)

lemma bt_ok_insert [simp, intro]: "bt_ok m \<Longrightarrow> bt_ok (bt_insert k v m)"
proof (induction k v m rule: bt_insert.induct)
  case (2 k v k' v' m)
  consider "k < k'" | "k = k'" | "k' < k" by (rule linorder_cases)
  then show ?case
  proof cases
    case 1
    with "2.prems" show ?thesis by (simp, blast intro: less_trans)
  qed (use 2 in auto)
qed simp

lemma bt_dom_remove: "bt_dom (bt_remove k m) \<subseteq> bt_dom m"
  by (induction m) (auto split: if_splits)

lemma bt_ok_remove [simp, intro]: "bt_ok m \<Longrightarrow> bt_ok (bt_remove k m)"
  by (induction k m rule: bt_remove.induct) (use bt_dom_remove in fastforce)+

lemma bt_get_Nil [simp]: "bt_get [] k = None"
  by (simp add: bt_get_def)

lemma bt_get_Cons [simp]: "bt_get ((k', v) # m) k = (if k = k' then Some v else bt_get m k)"
  by (simp add: bt_get_def)

lemma bt_get_None_iff: "bt_get m k = None \<longleftrightarrow> k \<notin> bt_dom m"
  by (simp add: bt_get_def bt_dom_def map_of_eq_None_iff)

lemma bt_get_insert [simp]: "bt_get (bt_insert k v m) k' = (if k' = k then Some v else bt_get m k')"
  by (induction m) auto

lemma bt_get_remove: "bt_ok m \<Longrightarrow> bt_get (bt_remove k m) k' = (if k' = k then None else bt_get m k')"
  by (induction k m rule: bt_remove.induct) (auto simp: bt_get_None_iff)

lemma bt_insert_last: "\<forall>k' \<in> bt_dom m. k' < k \<Longrightarrow> bt_insert k v m = m @ [(k, v)]"
  by (induction m) auto

lemma set_bt_insert_subset: "set (bt_insert k v m) \<subseteq> insert (k, v) (set m)"
  by (induction m) (auto split: if_splits)

lemma ball_bt_insert: "\<forall>p \<in> set m. P p \<Longrightarrow> P (k, v) \<Longrightarrow> \<forall>p \<in> set (bt_insert k v m). P p"
  using set_bt_insert_subset [of k v m] by blast

text \<open>
  The interface the clients rely on: what a lookup returns after an insertion or a removal, and
  that every operation keeps the order of the keys.
\<close>

locale ordered_map =
  fixes empty :: "'m" and get :: "'m \<Rightarrow> 'k::linorder \<Rightarrow> 'v option"
    and insert_key :: "'k \<Rightarrow> 'v \<Rightarrow> 'm \<Rightarrow> 'm" and remove_key :: "'k \<Rightarrow> 'm \<Rightarrow> 'm"
    and ok :: "'m \<Rightarrow> bool"
  assumes ok_empty: "ok empty"
    and ok_insert: "ok m \<Longrightarrow> ok (insert_key k v m)"
    and ok_remove: "ok m \<Longrightarrow> ok (remove_key k m)"
    and get_empty: "get empty k = None"
    and get_insert: "ok m \<Longrightarrow> get (insert_key k v m) k' = (if k' = k then Some v else get m k')"
    and get_remove: "ok m \<Longrightarrow> get (remove_key k m) k' = (if k' = k then None else get m k')"
begin

fun insert_all :: "('k \<times> 'v) list \<Rightarrow> 'm \<Rightarrow> 'm" where
  "insert_all [] m = m"
| "insert_all ((k, v) # kvs) m = insert_all kvs (insert_key k v m)"

lemma ok_insert_all: "ok m \<Longrightarrow> ok (insert_all kvs m)"
  by (induction kvs m rule: insert_all.induct) (auto intro: ok_insert)

lemma get_insert_all:
  "ok m \<Longrightarrow> distinct (map fst kvs) \<Longrightarrow>
     get (insert_all kvs m) k = (case map_of kvs k of Some v \<Rightarrow> Some v | None \<Rightarrow> get m k)"
proof (induction kvs m rule: insert_all.induct)
  case (2 k' v kvs m)
  then have "map_of kvs k' = None" by (simp add: map_of_eq_None_iff)
  with 2 show ?case by (auto simp: ok_insert get_insert split: option.splits)
qed simp

lemma get_remove_insert: "ok m \<Longrightarrow> get m k = None \<Longrightarrow> get (remove_key k (insert_key k v m)) = get m"
  by (rule ext) (simp add: get_remove get_insert ok_insert)

end

interpretation bt: ordered_map "[]" bt_get bt_insert bt_remove bt_ok
  by unfold_locales (auto simp: bt_get_remove)

section \<open>Collecting results\<close>

text \<open>The results of a function along a list: all of them, or the first error.\<close>

fun collect_res :: "('a \<Rightarrow> 'e + 'b) \<Rightarrow> 'a list \<Rightarrow> 'e + 'b list" where
  "collect_res f [] = Inr []"
| "collect_res f (x # xs) = and_then (f x) (\<lambda>y. map_ok (\<lambda>ys. y # ys) (collect_res f xs))"

lemma collect_res_map: "\<forall>x \<in> set xs. f (g x) = Inr x \<Longrightarrow> collect_res f (map g xs) = Inr xs"
  by (induction xs) auto

lemma collect_res_sound: "collect_res f xs = Inr ys \<Longrightarrow> list_all2 (\<lambda>x y. f x = Inr y) xs ys"
  by (induction xs arbitrary: ys) auto

lemma collect_res_inverse:
  "collect_res f xs = Inr ys \<Longrightarrow> (\<And>x y. f x = Inr y \<Longrightarrow> x = g y) \<Longrightarrow> xs = map g ys"
  by (induction xs arbitrary: ys) auto

end
