(* ===== verification/Text.thy ===== *)
theory Text
  imports Prelude
begin

text \<open>
  Text as the code stores it. A Rust \<open>String\<close> is its UTF-8 bytes: here a \<open>string\<close>, whose
  characters are bytes, so \<open>length\<close> is \<open>len()\<close> and the order is the byte order.
  This theory holds the parts of the standard library the program relies on for text: ASCII
  classes, \<open>to_string\<close>/\<open>parse\<close> on integers, and the validation done by \<open>str::from_utf8\<close>.
\<close>

section \<open>Bytes\<close>

abbreviation byte :: "char \<Rightarrow> nat" where
  "byte c \<equiv> of_char c"

definition dquote :: char where [verdant_defs]: "dquote = CHR 0x22"
definition squote :: char where [verdant_defs]: "squote = CHR 0x27"
definition backslash :: char where [verdant_defs]: "backslash = CHR 0x5C"

lemma byte_less_256 [simp]: "byte c < 256"
  using nat_of_char_less_256 by simp

lemma byte_eq_iff: "byte c = byte d \<longleftrightarrow> c = d"
  by simp

definition is_ascii_digit :: "char \<Rightarrow> bool" where
  "is_ascii_digit c \<longleftrightarrow> 48 \<le> byte c \<and> byte c \<le> 57"

definition is_ascii_alphanumeric :: "char \<Rightarrow> bool" where
  "is_ascii_alphanumeric c \<longleftrightarrow>
     is_ascii_digit c \<or> 65 \<le> byte c \<and> byte c \<le> 90 \<or> 97 \<le> byte c \<and> byte c \<le> 122"

section \<open>Decimal integers\<close>

definition digit_char :: "nat \<Rightarrow> char" where
  "digit_char d = char_of (48 + d)"

definition digit_value :: "char \<Rightarrow> nat" where
  "digit_value c = byte c - 48"

fun show_nat :: "nat \<Rightarrow> string" where
  "show_nat n = (if n < 10 then [digit_char n] else show_nat (n div 10) @ [digit_char (n mod 10)])"

declare show_nat.simps [simp del]

definition show_int :: "int \<Rightarrow> string" where
  "show_int i = (if i < 0 then CHR ''-'' # show_nat (nat (- i)) else show_nat (nat i))"

fun read_digits :: "nat \<Rightarrow> string \<Rightarrow> nat option" where
  "read_digits acc [] = Some acc"
| "read_digits acc (c # cs) =
     (if is_ascii_digit c then read_digits (acc * 10 + digit_value c) cs else None)"

text \<open>
  \<open>str::parse\<close> for an unsigned type below \<open>bound\<close>: empty text and a lone sign are refused, one
  leading plus sign is accepted, then digits only, and overflow is refused.
\<close>

definition parse_unsigned :: "nat \<Rightarrow> string \<Rightarrow> nat option" where
  "parse_unsigned bound s =
     (let body = (case s of [] \<Rightarrow> [] | c # cs \<Rightarrow> if c = CHR ''+'' then cs else s)
      in if body = [] then None
         else case read_digits 0 body of
                None \<Rightarrow> None
              | Some n \<Rightarrow> if n < bound then Some n else None)"

text \<open>\<open>str::parse\<close> for a signed type with values from \<open>- bound\<close> to \<open>bound - 1\<close>.\<close>

definition parse_signed :: "int \<Rightarrow> string \<Rightarrow> int option" where
  "parse_signed bound s =
     (let (neg, body) = (case s of [] \<Rightarrow> (False, [])
                         | c # cs \<Rightarrow> if c = CHR ''-'' then (True, cs)
                                     else if c = CHR ''+'' then (False, cs) else (False, s))
      in if body = [] then None
         else case read_digits 0 body of
                None \<Rightarrow> None
              | Some n \<Rightarrow>
                  (let i = (if neg then - int n else int n)
                   in if - bound \<le> i \<and> i < bound then Some i else None))"

definition parse_u64 :: "string \<Rightarrow> u64 option" where
  "parse_u64 s = map_option of_nat (parse_unsigned (2 ^ 64) s)"

definition parse_u32 :: "string \<Rightarrow> u32 option" where
  "parse_u32 s = map_option of_nat (parse_unsigned (2 ^ 32) s)"

definition parse_u8 :: "string \<Rightarrow> u8 option" where
  "parse_u8 s = map_option of_nat (parse_unsigned (2 ^ 8) s)"

definition parse_i64 :: "string \<Rightarrow> int option" where
  "parse_i64 s = parse_signed (2 ^ 63) s"

definition parse_i128 :: "string \<Rightarrow> int option" where
  "parse_i128 s = parse_signed (2 ^ 127) s"

definition show_word :: "'a::len word \<Rightarrow> string" where
  "show_word w = show_nat (unat w)"

subsection \<open>Printing and parsing agree\<close>

lemma byte_digit_char: "d < 10 \<Longrightarrow> byte (digit_char d) = 48 + d"
  by (simp add: digit_char_def)

lemma is_ascii_digit_digit_char: "d < 10 \<Longrightarrow> is_ascii_digit (digit_char d)"
  by (simp add: is_ascii_digit_def byte_digit_char)

lemma digit_value_digit_char: "d < 10 \<Longrightarrow> digit_value (digit_char d) = d"
  by (simp add: digit_value_def byte_digit_char)

lemma read_digits_append:
  "read_digits acc (xs @ ys) =
     (case read_digits acc xs of None \<Rightarrow> None | Some n \<Rightarrow> read_digits n ys)"
  by (induction xs arbitrary: acc) auto

lemma read_digits_show_nat: "read_digits 0 (show_nat n) = Some n"
proof (induction n rule: show_nat.induct)
  case (1 n)
  show ?case
  proof (cases "n < 10")
    case True
    then show ?thesis
      by (simp add: show_nat.simps [of n] is_ascii_digit_digit_char digit_value_digit_char)
  next
    case False
    with 1 show ?thesis
      by (simp add: show_nat.simps [of n] read_digits_append is_ascii_digit_digit_char
          digit_value_digit_char)
  qed
qed

lemma show_nat_digits: "\<forall>c \<in> set (show_nat n). is_ascii_digit c"
proof (induction n rule: show_nat.induct)
  case (1 n)
  then show ?case
    by (cases "n < 10") (auto simp: show_nat.simps [of n] is_ascii_digit_digit_char)
qed

lemma show_nat_not_Nil [simp]: "show_nat n \<noteq> []"
  by (simp add: show_nat.simps [of n])

lemma show_nat_Cons: obtains c cs where "show_nat n = c # cs" "is_ascii_digit c"
  using show_nat_digits [of n] by (cases "show_nat n") auto

lemma sign_not_digit [simp]:
  "\<not> is_ascii_digit CHR ''+''" "\<not> is_ascii_digit CHR ''-''"
  by (simp_all add: is_ascii_digit_def)

lemma parse_unsigned_show: "n < bound \<Longrightarrow> parse_unsigned bound (show_nat n) = Some n"
proof -
  assume "n < bound"
  moreover obtain c cs where "show_nat n = c # cs" "is_ascii_digit c" by (rule show_nat_Cons)
  moreover from this have "c \<noteq> CHR ''+''" by auto
  ultimately show ?thesis
    using read_digits_show_nat [of n] by (simp add: parse_unsigned_def)
qed

lemma parse_signed_show:
  assumes "- bound \<le> i" "i < bound"
  shows "parse_signed bound (show_int i) = Some i"
proof -
  obtain c cs where s: "show_nat (nat i) = c # cs" "is_ascii_digit c" by (rule show_nat_Cons)
  from s(2) have "c \<noteq> CHR ''+''" "c \<noteq> CHR ''-''" by auto
  with s(1) assms show ?thesis
    using read_digits_show_nat [of "nat i"] read_digits_show_nat [of "nat (- i)"]
    by (auto simp: parse_signed_def show_int_def)
qed

lemma parse_u64_show [simp]: "parse_u64 (show_word w) = Some w"
  by (simp add: parse_u64_def show_word_def parse_unsigned_show unsigned_less [of w, simplified])

lemma parse_u32_show [simp]: "parse_u32 (show_word w) = Some w"
  by (simp add: parse_u32_def show_word_def parse_unsigned_show unsigned_less [of w, simplified])

lemma parse_u8_show [simp]: "parse_u8 (show_word w) = Some w"
  by (simp add: parse_u8_def show_word_def parse_unsigned_show unsigned_less [of w, simplified])

lemma parse_i64_show [simp]: "in_i64 i \<Longrightarrow> parse_i64 (show_int i) = Some i"
  by (simp add: parse_i64_def parse_signed_show in_i64_def)

lemma parse_i128_show [simp]: "in_i128 i \<Longrightarrow> parse_i128 (show_int i) = Some i"
  by (simp add: parse_i128_def parse_signed_show in_i128_def)

lemma parse_i64_range: "parse_i64 s = Some i \<Longrightarrow> in_i64 i"
  by (auto simp: parse_i64_def parse_signed_def in_i64_def Let_def split: prod.splits if_splits option.splits)

lemma parse_i128_range: "parse_i128 s = Some i \<Longrightarrow> in_i128 i"
  by (auto simp: parse_i128_def parse_signed_def in_i128_def Let_def split: prod.splits if_splits option.splits)

lemma show_nat_inj [simp]: "show_nat m = show_nat n \<longleftrightarrow> m = n"
  using read_digits_show_nat by (metis option.inject)

subsection \<open>Evaluation on large numbers\<close>

text \<open>
  Natural numbers evaluate in unary, so the equations used for evaluation go through integers.
\<close>

fun read_digits_int :: "int \<Rightarrow> string \<Rightarrow> int option" where
  "read_digits_int acc [] = Some acc"
| "read_digits_int acc (c # cs) =
     (if is_ascii_digit c then read_digits_int (acc * 10 + int (digit_value c)) cs else None)"

lemma read_digits_int: "read_digits_int (int n) s = map_option int (read_digits n s)"
proof (induction s arbitrary: n)
  case (Cons c s)
  from Cons [of "n * 10 + digit_value c"] show ?case by simp
qed simp

definition parse_unsigned_int :: "int \<Rightarrow> string \<Rightarrow> int option" where
  "parse_unsigned_int bound s =
     (let body = (case s of [] \<Rightarrow> [] | c # cs \<Rightarrow> if c = CHR ''+'' then cs else s)
      in if body = [] then None
         else case read_digits_int 0 body of
                None \<Rightarrow> None
              | Some n \<Rightarrow> if n < bound then Some n else None)"

lemma parse_unsigned_int: "parse_unsigned_int (int b) s = map_option int (parse_unsigned b s)"
  using read_digits_int [of 0]
  by (simp add: parse_unsigned_int_def parse_unsigned_def Let_def split: option.splits)

lemma parse_word_code:
  "map_option (word_of_nat :: nat \<Rightarrow> 'a::len word) (parse_unsigned b s) = map_option word_of_int (parse_unsigned_int (int b) s)"
  by (simp add: parse_unsigned_int option.map_comp comp_def)

lemma parse_code [code]:
  "parse_u64 s = map_option word_of_int (parse_unsigned_int (2 ^ 64) s)"
  "parse_u32 s = map_option word_of_int (parse_unsigned_int (2 ^ 32) s)"
  "parse_u8 s = map_option word_of_int (parse_unsigned_int (2 ^ 8) s)"
  unfolding parse_u64_def parse_u32_def parse_u8_def parse_word_code by simp_all

lemma parse_signed_code [code]:
  "parse_signed bound s =
     (let (neg, body) = (case s of [] \<Rightarrow> (False, [])
                         | c # cs \<Rightarrow> if c = CHR ''-'' then (True, cs)
                                     else if c = CHR ''+'' then (False, cs) else (False, s))
      in if body = [] then None
         else case read_digits_int 0 body of
                None \<Rightarrow> None
              | Some n \<Rightarrow>
                  (let i = (if neg then - n else n)
                   in if - bound \<le> i \<and> i < bound then Some i else None))"
  using read_digits_int [of 0]
  by (simp add: parse_signed_def split: prod.splits option.splits)

function show_posint :: "int \<Rightarrow> string" where
  "show_posint i = (if i < 10 then [digit_char (nat i)] else show_posint (i div 10) @ [digit_char (nat (i mod 10))])"
  by pat_completeness auto
termination by (relation "measure nat") auto

declare show_posint.simps [simp del]

lemma show_posint: "show_posint (int n) = show_nat n"
proof (induction n rule: show_nat.induct)
  case (1 n)
  show ?case
  proof (cases "n < 10")
    case True
    then show ?thesis by (simp add: show_posint.simps [of "int n"] show_nat.simps [of n])
  next
    case False
    have "nat (int n mod 10) = n mod 10" "int n div 10 = int (n div 10)" by (simp_all add: zdiv_int nat_mod_as_int)
    with False 1 show ?thesis
      by (simp add: show_posint.simps [of "int n"] show_nat.simps [of n])
  qed
qed

lemma show_word_code [code]: "show_word w = show_posint (uint w)"
  by (simp add: show_word_def flip: show_posint)

lemma show_int_code [code]: "show_int i = (if i < 0 then CHR ''-'' # show_posint (- i) else show_posint i)"
  using show_posint [of "nat i"] show_posint [of "nat (- i)"] by (auto simp: show_int_def split: if_splits)

lemma checked_add_code [code]:
  "checked_add x y = (if uint x + uint y < 2 ^ LENGTH('a) then Some (x + y) else None)"
  for x y :: "'a::len word"
proof -
  have "int (unat x + unat y) < int (2 ^ LENGTH('a)) \<longleftrightarrow> uint x + uint y < 2 ^ LENGTH('a)" by simp
  then show ?thesis unfolding checked_add_def by (simp only: of_nat_less_iff)
qed

end
