(* ===== verification/Utf8.thy ===== *)
theory Utf8
  imports Text
begin

text \<open>
  UTF-8 as \<open>str::from_utf8\<close> checks it and as \<open>char::from_u32\<close>, \<open>String::push\<close> write it.
  \<open>utf8_next\<close> takes the first encoded character off a byte string; a byte string is valid when it
  is a sequence of encoded characters (the well-formed table: no overlong forms, no surrogates,
  nothing above 0x10FFFF).
\<close>

section \<open>Decoding\<close>

definition in_range :: "nat \<Rightarrow> nat \<Rightarrow> char \<Rightarrow> bool" where
  "in_range lo hi c \<longleftrightarrow> lo \<le> byte c \<and> byte c \<le> hi"

definition is_cont :: "char \<Rightarrow> bool" where
  "is_cont c = in_range 0x80 0xBF c"

definition utf8_second_ok :: "char \<Rightarrow> char \<Rightarrow> bool" where
  "utf8_second_ok b0 b1 =
     (if byte b0 = 0xE0 then in_range 0xA0 0xBF b1
      else if byte b0 = 0xED then in_range 0x80 0x9F b1
      else if byte b0 = 0xF0 then in_range 0x90 0xBF b1
      else if byte b0 = 0xF4 then in_range 0x80 0x8F b1
      else is_cont b1)"

fun utf8_next :: "string \<Rightarrow> (string \<times> string) option" where
  "utf8_next [] = None"
| "utf8_next (b0 # s) =
     (if byte b0 < 0x80 then Some ([b0], s)
      else if in_range 0xC2 0xDF b0 then
        (case s of
           b1 # r \<Rightarrow> if is_cont b1 then Some ([b0, b1], r) else None
         | _ \<Rightarrow> None)
      else if in_range 0xE0 0xEF b0 then
        (case s of
           b1 # b2 # r \<Rightarrow>
             if utf8_second_ok b0 b1 \<and> is_cont b2 then Some ([b0, b1, b2], r) else None
         | _ \<Rightarrow> None)
      else if in_range 0xF0 0xF4 b0 then
        (case s of
           b1 # b2 # b3 # r \<Rightarrow>
             if utf8_second_ok b0 b1 \<and> is_cont b2 \<and> is_cont b3
             then Some ([b0, b1, b2, b3], r) else None
         | _ \<Rightarrow> None)
      else None)"

lemma utf8_next_append:
  "utf8_next s = Some (ch, r) \<Longrightarrow> s = ch @ r \<and> ch \<noteq> []"
  by (cases s) (auto split: if_splits list.splits)

lemma utf8_next_length [length_less]: "utf8_next s = Some (ch, r) \<Longrightarrow> length r < length s"
  by (drule utf8_next_append) (auto simp: neq_Nil_conv)

lemma utf8_next_extend:
  "utf8_next s = Some (ch, r) \<Longrightarrow> utf8_next (s @ t) = Some (ch, r @ t)"
  by (cases s) (auto split: if_splits list.splits)

lemma utf8_next_head: "utf8_next s = Some (ch, r) \<Longrightarrow> utf8_next (ch @ t) = Some (ch, t)"
  by (cases s) (auto split: if_splits list.splits)

lemma utf8_next_ascii [simp]: "byte b < 0x80 \<Longrightarrow> utf8_next (b # s) = Some ([b], s)"
  by simp

lemma utf8_next_high:
  "utf8_next (b # s) = Some (ch, r) \<Longrightarrow> \<not> byte b < 0x80 \<Longrightarrow> \<forall>c \<in> set ch. 0x80 \<le> byte c"
  by (auto simp: is_cont_def in_range_def utf8_second_ok_def split: if_splits list.splits)

section \<open>Validity\<close>

function utf8_valid :: "string \<Rightarrow> bool" where
  "utf8_valid s =
     (if s = [] then True
      else case utf8_next s of None \<Rightarrow> False | Some (ch, r) \<Rightarrow> utf8_valid r)"
  by pat_completeness auto
termination
  by (relation "measure length") (auto dest: utf8_next_length)

declare utf8_valid.simps [simp del]

lemma utf8_valid_Nil [simp]: "utf8_valid []"
  by (simp add: utf8_valid.simps)

lemma utf8_valid_step: "utf8_next s = Some (ch, r) \<Longrightarrow> utf8_valid s \<longleftrightarrow> utf8_valid r"
  by (subst utf8_valid.simps) (auto dest: utf8_next_append)

lemma utf8_valid_ascii [simp]: "byte b < 0x80 \<Longrightarrow> utf8_valid (b # s) \<longleftrightarrow> utf8_valid s"
  by (rule utf8_valid_step) simp

lemma utf8_valid_next: "utf8_valid s \<Longrightarrow> s \<noteq> [] \<Longrightarrow> \<exists>ch r. utf8_next s = Some (ch, r) \<and> utf8_valid r"
  by (subst (asm) utf8_valid.simps) (auto split: option.splits)

text \<open>Induction over the encoded characters of a valid string.\<close>

lemma utf8_induct [consumes 1, case_names Nil Char]:
  assumes "utf8_valid s"
    and "P []"
    and "\<And>s ch r. utf8_next s = Some (ch, r) \<Longrightarrow> s = ch @ r \<Longrightarrow> utf8_valid r \<Longrightarrow> P r \<Longrightarrow> P s"
  shows "P s"
  using assms(1)
proof (induction s rule: length_induct)
  case (1 s)
  show ?case
  proof (cases "s = []")
    case False
    with 1 obtain ch r where n: "utf8_next s = Some (ch, r)" "utf8_valid r"
      using utf8_valid_next by blast
    moreover from n(1) have "length r < length s" by (rule utf8_next_length)
    ultimately show ?thesis using 1 assms(3) utf8_next_append by blast
  qed (simp add: assms(2))
qed

lemma utf8_valid_append [simp]: "utf8_valid s \<Longrightarrow> utf8_valid (s @ t) \<longleftrightarrow> utf8_valid t"
proof (induction s rule: utf8_induct)
  case (Char s ch r)
  from utf8_next_extend [OF Char(1), of t] have "utf8_valid (s @ t) \<longleftrightarrow> utf8_valid (r @ t)"
    by (rule utf8_valid_step)
  with Char(4) show ?case by simp
qed simp

lemma utf8_valid_char: "utf8_next s = Some (ch, r) \<Longrightarrow> utf8_valid ch"
  using utf8_next_head [of s ch r "[]"] utf8_valid_step [of ch ch "[]"] by simp

lemma utf8_valid_all_ascii: "\<forall>c \<in> set s. byte c < 0x80 \<Longrightarrow> utf8_valid s"
  by (induction s) auto

lemma show_nat_utf8 [simp]: "utf8_valid (show_nat n)"
  using show_nat_digits [of n] by (intro utf8_valid_all_ascii) (auto simp: is_ascii_digit_def)

lemma show_int_utf8 [simp]: "utf8_valid (show_int i)"
  by (simp add: show_int_def)

lemma show_word_utf8 [simp]: "utf8_valid (show_word w)"
  by (simp add: show_word_def)

section \<open>Encoding\<close>

text \<open>\<open>char::from_u32\<close> followed by \<open>String::push\<close>: no surrogate and nothing above 0x10FFFF.\<close>

definition char_from_u32 :: "nat \<Rightarrow> string option" where
  "char_from_u32 code =
     (if 0xD800 \<le> code \<and> code < 0xE000 \<or> 0x10FFFF < code then None
      else if code < 0x80 then Some [char_of code]
      else if code < 0x800 then
        Some [char_of (0xC0 + code div 64), char_of (0x80 + code mod 64)]
      else if code < 0x10000 then
        Some [char_of (0xE0 + code div 4096), char_of (0x80 + code div 64 mod 64),
              char_of (0x80 + code mod 64)]
      else
        Some [char_of (0xF0 + code div 262144), char_of (0x80 + code div 4096 mod 64),
              char_of (0x80 + code div 64 mod 64), char_of (0x80 + code mod 64)])"

text \<open>\<open>b as char\<close> for a byte \<open>b\<close>, written to a \<open>String\<close>: the Latin-1 character.\<close>

definition u8_as_char :: "char \<Rightarrow> string" where
  "u8_as_char c = (case char_from_u32 (byte c) of None \<Rightarrow> [] | Some s \<Rightarrow> s)"

lemma byte_char_of: "n < 256 \<Longrightarrow> byte (char_of n) = n"
  by simp

lemma in_range_char_of: "n < 256 \<Longrightarrow> in_range lo hi (char_of n) \<longleftrightarrow> lo \<le> n \<and> n \<le> hi"
  by (simp add: in_range_def)

lemma is_cont_char_of [simp]: "n < 64 \<Longrightarrow> is_cont (char_of (0x80 + n))" for n :: nat
  by (simp add: is_cont_def in_range_char_of)

lemma utf8_valid_two:
  "2 \<le> a \<Longrightarrow> a < 32 \<Longrightarrow> b < 64 \<Longrightarrow> utf8_valid [char_of (0xC0 + a), char_of (0x80 + b)]"
  for a b :: nat
  by (subst utf8_valid_step [where ch = "[char_of (0xC0 + a), char_of (0x80 + b)]" and r = "[]"])
    (simp_all add: in_range_char_of)

lemma utf8_valid_three:
  fixes a b c :: nat
  assumes "a < 16" "b < 64" "c < 64" "a = 0 \<longrightarrow> 32 \<le> b" "a = 13 \<longrightarrow> b < 32"
  shows "utf8_valid [char_of (0xE0 + a), char_of (0x80 + b), char_of (0x80 + c)]"
proof -
  have "utf8_second_ok (char_of (0xE0 + a)) (char_of (0x80 + b))"
    using assms by (auto simp: utf8_second_ok_def in_range_char_of)
  with assms have "utf8_next [char_of (0xE0 + a), char_of (0x80 + b), char_of (0x80 + c)] =
      Some ([char_of (0xE0 + a), char_of (0x80 + b), char_of (0x80 + c)], [])"
    by (simp add: in_range_char_of)
  then show ?thesis by (simp only: utf8_valid_step utf8_valid_Nil)
qed

lemma utf8_valid_four:
  fixes a b c d :: nat
  assumes "a < 5" "b < 64" "c < 64" "d < 64" "a = 0 \<longrightarrow> 16 \<le> b" "a = 4 \<longrightarrow> b < 16"
  shows "utf8_valid [char_of (0xF0 + a), char_of (0x80 + b), char_of (0x80 + c), char_of (0x80 + d)]"
proof -
  have "utf8_second_ok (char_of (0xF0 + a)) (char_of (0x80 + b))"
    using assms by (auto simp: utf8_second_ok_def in_range_char_of)
  with assms have
    "utf8_next [char_of (0xF0 + a), char_of (0x80 + b), char_of (0x80 + c), char_of (0x80 + d)] =
      Some ([char_of (0xF0 + a), char_of (0x80 + b), char_of (0x80 + c), char_of (0x80 + d)], [])"
    by (simp add: in_range_char_of)
  then show ?thesis by (simp only: utf8_valid_step utf8_valid_Nil)
qed

lemma char_from_u32_valid:
  assumes "char_from_u32 code = Some s"
  shows "utf8_valid s"
proof -
  define a where "a = code div 262144"
  define b where "b = code div 4096 mod 64"
  define c where "c = code div 64 mod 64"
  define d where "d = code mod 64"
  have code: "code = 262144 * a + 4096 * b + 64 * c + d" and "b < 64" "c < 64" "d < 64"
  proof -
    have "code div 4096 div 64 = a" "code div 64 div 64 = code div 4096"
      by (simp_all add: a_def flip: div_mult2_eq)
    then show "code = 262144 * a + 4096 * b + 64 * c + d"
      unfolding b_def c_def d_def
      using div_mult_mod_eq [of code 64] div_mult_mod_eq [of "code div 64" 64]
        div_mult_mod_eq [of "code div 4096" 64] by linarith
  qed (simp_all add: b_def c_def d_def)
  have range: "\<not> (0xD800 \<le> code \<and> code < 0xE000)" "code \<le> 0x10FFFF"
    using assms by (auto simp: char_from_u32_def split: if_splits)
  have div64: "code div 64 = 4096 * a + 64 * b + c" and div4096: "code div 4096 = 64 * a + b"
    using code \<open>b < 64\<close> \<open>c < 64\<close> \<open>d < 64\<close> by simp_all
  consider "code < 0x80" | "0x80 \<le> code" "code < 0x800" | "0x800 \<le> code" "code < 0x10000"
    | "0x10000 \<le> code" by linarith
  then show ?thesis
  proof cases
    case 1
    with assms range show ?thesis by (auto simp: char_from_u32_def)
  next
    case 2
    then have "a = 0" "b = 0" using code by simp_all
    with 2 have "2 \<le> c" "c < 32" using code \<open>d < 64\<close> by simp_all
    moreover have "code div 64 = c" using div64 \<open>a = 0\<close> \<open>b = 0\<close> by simp
    ultimately show ?thesis using 2 assms range \<open>d < 64\<close>
      by (auto simp: char_from_u32_def d_def [symmetric] intro!: utf8_valid_two)
  next
    case 3
    then have "a = 0" using code by simp
    with 3 have "b < 16" "b = 0 \<longrightarrow> 32 \<le> c" "b = 13 \<longrightarrow> c < 32"
      using code range \<open>c < 64\<close> \<open>d < 64\<close> by auto
    moreover have "code div 4096 = b" using div4096 \<open>a = 0\<close> by simp
    ultimately show ?thesis using 3 assms range \<open>c < 64\<close> \<open>d < 64\<close>
      by (auto simp: char_from_u32_def d_def [symmetric] c_def [symmetric]
          intro!: utf8_valid_three)
  next
    case 4
    then have "a < 5" "a = 0 \<longrightarrow> 16 \<le> b" "a = 4 \<longrightarrow> b < 16"
      using code range \<open>c < 64\<close> \<open>d < 64\<close> by auto
    with 4 assms range \<open>b < 64\<close> \<open>c < 64\<close> \<open>d < 64\<close> show ?thesis
      by (auto simp: char_from_u32_def d_def [symmetric] c_def [symmetric] b_def [symmetric]
          a_def [symmetric] intro!: utf8_valid_four)
  qed
qed

lemma u8_as_char_valid [simp]: "utf8_valid (u8_as_char c)"
  by (auto simp: u8_as_char_def char_from_u32_valid split: option.splits)

declare utf8_next.simps(2) [simp del]

end
