(* ===== verification/Domain.thy ===== *)
theory Domain
  imports Utf8
begin

text \<open>
  The domain error of \<open>src/src/domain/mod.rs\<close>: every refusal of the shared domain is a value of
  this type, with a stable code and a rendering.
\<close>

datatype error =
    Empty string
  | TooLong string nat nat
  | BadChars string string
  | InvalidValue string string
  | MissingField string
  | UnexpectedField string
  | UnexpectedType string string
  | ImpossibleOrder string
  | ImpossibleElapsed string
  | BootMismatch string string
  | Json string

fun error_code :: "error \<Rightarrow> string" where
  "error_code (Empty _) = ''empty''"
| "error_code (TooLong _ _ _) = ''too-long''"
| "error_code (BadChars _ _) = ''bad-chars''"
| "error_code (InvalidValue _ _) = ''invalid-value''"
| "error_code (MissingField _) = ''missing-field''"
| "error_code (UnexpectedField _) = ''unexpected-field''"
| "error_code (UnexpectedType _ _) = ''unexpected-type''"
| "error_code (ImpossibleOrder _) = ''impossible-order''"
| "error_code (ImpossibleElapsed _) = ''impossible-elapsed''"
| "error_code (BootMismatch _ _) = ''boot-mismatch''"
| "error_code (Json _) = ''json''"

definition quoted :: "string \<Rightarrow> string" where
  "quoted s = squote # s @ [squote]"

fun error_display :: "error \<Rightarrow> string" where
  "error_display (Empty what) = what @ '' must not be empty''"
| "error_display (TooLong what len mx) =
     what @ '' is '' @ show_nat len @ '' chars; maximum is '' @ show_nat mx"
| "error_display (BadChars what value) = what @ '' has unsupported characters: '' @ quoted value"
| "error_display (InvalidValue what value) = what @ '' is invalid: '' @ quoted value"
| "error_display (MissingField field) = ''missing required field '' @ quoted field"
| "error_display (UnexpectedField field) = ''unexpected field '' @ quoted field"
| "error_display (UnexpectedType expected got) = ''expected '' @ expected @ '', got '' @ quoted got"
| "error_display (ImpossibleOrder detail) = ''impossible clock order: '' @ detail"
| "error_display (ImpossibleElapsed detail) = ''impossible elapsed time: '' @ detail"
| "error_display (BootMismatch expected got) =
     ''monotonic marks span different boots: expected '' @ quoted expected @ '', got '' @ quoted got"
| "error_display (Json message) = ''invalid JSON: '' @ message"

end
