(* ===== verification/Json.thy ===== *)
theory Json
  imports Domain
begin

text \<open>
  The JSON substrate of \<open>src/src/domain/json.rs\<close>. The parser's state is the unread suffix
  \<open>bytes[pos..]\<close>: each function takes it and returns what it read with the new suffix. The two
  loops over members and items carry fuel; \<open>OutOfFuel\<close> is shown never to be the result.
\<close>

section \<open>Values\<close>

datatype json =
    JNull
  | JBool bool
  | JNumber string
  | JStr string
  | JArray "json list"
  | JObject "(string \<times> json) list"

type_synonym fields = "(string \<times> json) list"

section \<open>Writing\<close>

definition hex_digit :: "nat \<Rightarrow> char" where
  "hex_digit d = (if d < 10 then char_of (48 + d) else char_of (87 + d))"

definition quote_char :: "char \<Rightarrow> string" where
  "quote_char c =
     (if c = dquote then [backslash, dquote]
      else if c = backslash then [backslash, backslash]
      else if c = CHR 0x0A then [backslash, CHR ''n'']
      else if c = CHR 0x0D then [backslash, CHR ''r'']
      else if c = CHR 0x09 then [backslash, CHR ''t'']
      else if byte c < 0x20 then
        [backslash, CHR ''u'', CHR ''0'', CHR ''0'', hex_digit (byte c div 16), hex_digit (byte c mod 16)]
      else [c])"

definition quote :: "string \<Rightarrow> string" where
  "quote raw = dquote # concat (map quote_char raw) @ [dquote]"

fun comma_join :: "string list \<Rightarrow> string" where
  "comma_join [] = []"
| "comma_join [x] = x"
| "comma_join (x # y # ys) = x @ CHR '','' # comma_join (y # ys)"

fun stringify :: "json \<Rightarrow> string" where
  "stringify JNull = ''null''"
| "stringify (JBool True) = ''true''"
| "stringify (JBool False) = ''false''"
| "stringify (JNumber raw) = raw"
| "stringify (JStr s) = quote s"
| "stringify (JArray items) = CHR ''['' # comma_join (map stringify items) @ '']''"
| "stringify (JObject fields) =
     CHR ''{'' # comma_join (map (\<lambda>(k, v). quote k @ CHR '':'' # stringify v) fields) @ ''}''"

section \<open>The parser\<close>

datatype parse_error = Msg string | OutOfFuel

type_synonym 'a parser = "string \<Rightarrow> parse_error + ('a \<times> string)"

definition is_ws :: "char \<Rightarrow> bool" where
  "is_ws c \<longleftrightarrow> c = CHR '' '' \<or> c = CHR 0x09 \<or> c = CHR 0x0A \<or> c = CHR 0x0D"

definition skip_ws :: "string \<Rightarrow> string" where
  "skip_ws s = dropWhile is_ws s"

definition expect_byte :: "char \<Rightarrow> string \<Rightarrow> string \<Rightarrow> parse_error + string" where
  "expect_byte want what s =
     (case s of
        got # r \<Rightarrow> if got = want then Inr r
          else Inl (Msg (''expected '' @ what @ '', got '' @ quoted (u8_as_char got)))
      | [] \<Rightarrow> Inl (Msg (''expected '' @ what @ '', got end of input'')))"

definition parse_literal :: "string \<Rightarrow> json \<Rightarrow> json parser" where
  "parse_literal word v s =
     (if length word \<le> length s \<and> take (length word) s = word
      then Inr (v, drop (length word) s)
      else Inl (Msg (''expected '' @ quoted word)))"

definition split_digits :: "string \<Rightarrow> string \<times> string" where
  "split_digits s = (takeWhile is_ascii_digit s, dropWhile is_ascii_digit s)"

definition number_sign :: "string \<Rightarrow> string \<times> string" where
  "number_sign s = (case s of c # r \<Rightarrow> if c = CHR ''-'' then ([c], r) else ([], s) | [] \<Rightarrow> ([], s))"

definition number_fraction :: "string parser" where
  "number_fraction s =
     (case s of
        c # r \<Rightarrow>
          if c = CHR ''.'' then
            (let (ds, r') = split_digits r
             in if ds = [] then Inl (Msg (''invalid JSON number: expected digits after '' @ quoted ''.''))
                else Inr (c # ds, r'))
          else Inr ([], s)
      | [] \<Rightarrow> Inr ([], s))"

definition exponent_sign :: "string \<Rightarrow> string \<times> string" where
  "exponent_sign s =
     (case s of
        c # r \<Rightarrow> if c = CHR ''+'' \<or> c = CHR ''-'' then ([c], r) else ([], s)
      | [] \<Rightarrow> ([], s))"

definition number_exponent :: "string parser" where
  "number_exponent s =
     (case s of
        c # r \<Rightarrow>
          if c = CHR ''e'' \<or> c = CHR ''E'' then
            (let (sg, r1) = exponent_sign r;
                 (ds, r2) = split_digits r1
             in if ds = [] then Inl (Msg ''invalid JSON number: expected digits in exponent'')
                else Inr (c # sg @ ds, r2))
          else Inr ([], s)
      | [] \<Rightarrow> Inr ([], s))"

definition parse_number :: "string parser" where
  "parse_number s =
     (let (sg, s1) = number_sign s;
          (ds, s2) = split_digits s1
      in if ds = [] then Inl (Msg ''invalid JSON number: expected digits'')
         else and_then (number_fraction s2) (\<lambda>(fr, s3).
              and_then (number_exponent s3) (\<lambda>(ex, s4). Inr (sg @ ds @ fr @ ex, s4))))"

definition hex_value :: "char \<Rightarrow> nat option" where
  "hex_value c =
     (if is_ascii_digit c then Some (byte c - 48)
      else if 97 \<le> byte c \<and> byte c \<le> 102 then Some (byte c - 97 + 10)
      else if 65 \<le> byte c \<and> byte c \<le> 70 then Some (byte c - 65 + 10)
      else None)"

fun hex_fold :: "nat \<Rightarrow> string \<Rightarrow> nat option" where
  "hex_fold acc [] = Some acc"
| "hex_fold acc (c # cs) =
     (case hex_value c of None \<Rightarrow> None | Some d \<Rightarrow> hex_fold (acc * 16 + d) cs)"

definition parse_hex4 :: "nat parser" where
  "parse_hex4 s =
     (if length s < 4 then Inl (Msg (''truncated '' @ backslash # ''u escape''))
      else case hex_fold 0 (take 4 s) of
             None \<Rightarrow> Inl (Msg (''invalid hex digit in '' @ backslash # ''u escape''))
           | Some v \<Rightarrow> Inr (v, drop 4 s))"

definition simple_escape :: "char \<Rightarrow> char option" where
  "simple_escape c =
     (if c = dquote then Some dquote
      else if c = backslash then Some backslash
      else if c = CHR ''/'' then Some (CHR ''/'')
      else if c = CHR ''b'' then Some (CHR 0x08)
      else if c = CHR ''f'' then Some (CHR 0x0C)
      else if c = CHR ''n'' then Some (CHR 0x0A)
      else if c = CHR ''r'' then Some (CHR 0x0D)
      else if c = CHR ''t'' then Some (CHR 0x09)
      else None)"

lemma parse_hex4_length [length_less]: "parse_hex4 s = Inr (v, r) \<Longrightarrow> length r < length s"
  by (auto simp: parse_hex4_def split: if_splits option.splits)

text \<open>The loop of \<open>parse_string\<close>: \<open>out\<close> is the string built so far.\<close>

function string_body :: "string \<Rightarrow> string parser" where
  "string_body out s =
     (case s of
        [] \<Rightarrow> Inl (Msg ''unterminated JSON string'')
      | b # r \<Rightarrow>
          if b = dquote then Inr (out, r)
          else if b = backslash then
            (case r of
               [] \<Rightarrow> Inl (Msg ''unterminated escape'')
             | esc # r1 \<Rightarrow>
                 (case simple_escape esc of
                    Some c \<Rightarrow> string_body (out @ [c]) r1
                  | None \<Rightarrow>
                      if esc = CHR ''u'' then
                        (case parse_hex4 r1 of
                           Inl e \<Rightarrow> Inl e
                         | Inr (code, r2) \<Rightarrow>
                             if 0xD800 \<le> code \<and> code < 0xE000
                             then Inl (Msg (''unsupported '' @ backslash # ''u surrogate half''))
                             else (case char_from_u32 code of
                                     None \<Rightarrow> Inl (Msg (''invalid '' @ backslash # ''u escape''))
                                   | Some ch \<Rightarrow> string_body (out @ ch) r2))
                      else Inl (Msg (''invalid escape '' @ quoted (backslash # u8_as_char esc)))))
          else if byte b < 0x20 then Inl (Msg ''unescaped control character in string'')
          else if \<not> utf8_valid s then Inl (Msg ''invalid UTF-8 in string'')
          else (case utf8_next s of
                  None \<Rightarrow> Inl (Msg ''unterminated JSON string'')
                | Some (ch, r1) \<Rightarrow> string_body (out @ ch) r1))"
  by pat_completeness auto
termination
  by (relation "measure (\<lambda>(out, s). length s)") (auto dest: parse_hex4_length utf8_next_length)

declare string_body.simps [simp del]

definition parse_string :: "string parser" where
  "parse_string s =
     and_then (expect_byte dquote [squote, dquote, squote] s) (\<lambda>r. string_body [] r)"

text \<open>
  The loop of \<open>parse_object_inner\<close>, with the parser for values as a parameter. The map of the
  members read so far is a \<open>BTreeMap\<close>; a key that is already there is a duplicate.
\<close>

fun object_loop :: "json parser \<Rightarrow> nat \<Rightarrow> fields \<Rightarrow> fields parser" where
  "object_loop pv 0 m s = Inl OutOfFuel"
| "object_loop pv (Suc n) m s =
     (let s1 = skip_ws s
      in case s1 of
           [] \<Rightarrow> Inl (Msg ''expected string key in object'')
         | c # _ \<Rightarrow>
             if c \<noteq> dquote then Inl (Msg ''expected string key in object'')
             else and_then (parse_string s1) (\<lambda>(key, s2).
                  and_then (expect_byte (CHR '':'') (quoted '':'') (skip_ws s2)) (\<lambda>s3.
                  and_then (pv s3) (\<lambda>(v, s4).
                    if bt_get m key \<noteq> None then Inl (Msg (''duplicate key '' @ quoted key))
                    else
                      (let m' = bt_insert key v m
                       in case skip_ws s4 of
                            [] \<Rightarrow> Inl (Msg ''unterminated object'')
                          | d # s5 \<Rightarrow>
                              if d = CHR '','' then object_loop pv n m' s5
                              else if d = CHR ''}'' then Inr (m', s5)
                              else Inl (Msg (''expected ',' or '}', got '' @ quoted (u8_as_char d))))))))"

definition parse_object_inner :: "json parser \<Rightarrow> fields parser" where
  "parse_object_inner pv s =
     and_then (expect_byte (CHR ''{'') (quoted ''{'') s) (\<lambda>s1.
       case skip_ws s1 of
         c # s2 \<Rightarrow> if c = CHR ''}'' then Inr ([], s2)
                  else object_loop pv (Suc (length s1)) [] (skip_ws s1)
       | [] \<Rightarrow> object_loop pv (Suc (length s1)) [] (skip_ws s1))"

fun array_loop :: "json parser \<Rightarrow> nat \<Rightarrow> json list \<Rightarrow> json list parser" where
  "array_loop pv 0 items s = Inl OutOfFuel"
| "array_loop pv (Suc n) items s =
     and_then (pv s) (\<lambda>(v, s1).
       (let items' = items @ [v]
        in case skip_ws s1 of
             [] \<Rightarrow> Inl (Msg ''unterminated array'')
           | d # s2 \<Rightarrow>
               if d = CHR '','' then array_loop pv n items' s2
               else if d = CHR '']'' then Inr (items', s2)
               else Inl (Msg (''expected ',' or ']', got '' @ quoted (u8_as_char d)))))"

definition parse_array_inner :: "json parser \<Rightarrow> json list parser" where
  "parse_array_inner pv s =
     and_then (expect_byte (CHR ''['') (quoted ''['') s) (\<lambda>s1.
       case skip_ws s1 of
         c # s2 \<Rightarrow> if c = CHR '']'' then Inr ([], s2)
                  else array_loop pv (Suc (length s1)) [] (skip_ws s1)
       | [] \<Rightarrow> array_loop pv (Suc (length s1)) [] (skip_ws s1))"

text \<open>
  \<open>parse_value levels\<close> is the code's \<open>parse_value(depth)\<close> with \<open>levels = 17 - depth\<close>: no level is
  left exactly when \<open>depth > 16\<close>.
\<close>

definition max_depth :: nat where
  "max_depth = 16"

primrec parse_value :: "nat \<Rightarrow> json parser" where
  "parse_value 0 = (\<lambda>s. Inl (Msg ''JSON nesting exceeds PR02 bound (16)''))"
| "parse_value (Suc n) = (\<lambda>s.
     let s1 = skip_ws s
     in case s1 of
          [] \<Rightarrow> Inl (Msg ''unexpected end of input'')
        | c # _ \<Rightarrow>
            if c = CHR ''{'' then map_ok (\<lambda>(m, r). (JObject m, r)) (parse_object_inner (parse_value n) s1)
            else if c = CHR ''['' then map_ok (\<lambda>(xs, r). (JArray xs, r)) (parse_array_inner (parse_value n) s1)
            else if c = dquote then map_ok (\<lambda>(t, r). (JStr t, r)) (parse_string s1)
            else if c = CHR ''t'' then parse_literal ''true'' (JBool True) s1
            else if c = CHR ''f'' then parse_literal ''false'' (JBool False) s1
            else if c = CHR ''n'' then parse_literal ''null'' JNull s1
            else if c = CHR ''-'' \<or> is_ascii_digit c
            then map_ok (\<lambda>(t, r). (JNumber t, r)) (parse_number s1)
            else Inl (Msg (''unexpected character '' @ quoted (u8_as_char c))))"

fun json_error :: "parse_error \<Rightarrow> error" where
  "json_error (Msg m) = Json m"
| "json_error OutOfFuel = Json ''''"

definition parse_string_literal :: "string \<Rightarrow> error + string" where
  "parse_string_literal text =
     and_then (map_err json_error (parse_string (skip_ws text))) (\<lambda>(v, r).
       if skip_ws r \<noteq> [] then Inl (Json ''trailing characters after JSON string'') else Inr v)"

definition parse :: "string \<Rightarrow> error + json" where
  "parse text =
     and_then (map_err json_error (parse_value (Suc max_depth) (skip_ws text))) (\<lambda>(v, r).
       if skip_ws r \<noteq> [] then Inl (Json ''trailing characters after JSON value'') else Inr v)"

definition parse_object :: "string \<Rightarrow> error + fields" where
  "parse_object text =
     and_then (parse text) (\<lambda>v. case v of JObject m \<Rightarrow> Inr m
                                        | _ \<Rightarrow> Inl (Json ''expected a JSON object''))"

section \<open>Reading fields\<close>

fun kind_of :: "json \<Rightarrow> string" where
  "kind_of JNull = ''null''"
| "kind_of (JBool _) = ''boolean''"
| "kind_of (JNumber _) = ''number''"
| "kind_of (JStr _) = ''string''"
| "kind_of (JArray _) = ''array''"
| "kind_of (JObject _) = ''object''"

definition get_string :: "fields \<Rightarrow> string \<Rightarrow> error + string" where
  "get_string m name =
     (case bt_get m name of
        None \<Rightarrow> Inl (MissingField name)
      | Some (JStr s) \<Rightarrow> Inr s
      | Some other \<Rightarrow>
          Inl (Json (''field '' @ quoted name @ '' must be a JSON string, got '' @ kind_of other)))"

definition get_bool :: "fields \<Rightarrow> string \<Rightarrow> error + bool" where
  "get_bool m name =
     (case bt_get m name of
        None \<Rightarrow> Inl (MissingField name)
      | Some (JBool b) \<Rightarrow> Inr b
      | Some other \<Rightarrow>
          Inl (Json (''field '' @ quoted name @ '' must be true/false, got '' @ kind_of other)))"

fun reject_unknown_keys :: "string list \<Rightarrow> string list \<Rightarrow> error + unit" where
  "reject_unknown_keys [] allowed = Inr ()"
| "reject_unknown_keys (k # ks) allowed =
     (if k \<in> set allowed then reject_unknown_keys ks allowed else Inl (UnexpectedField k))"

definition reject_unknown :: "fields \<Rightarrow> string list \<Rightarrow> error + unit" where
  "reject_unknown m allowed = reject_unknown_keys (bt_keys m) allowed"

end
