(* ===== verification/Json_Facts.thy ===== *)
theory Json_Facts
  imports Json
begin

text \<open>
  What the JSON substrate guarantees: every parser consumes input, the fuel of the two loops is
  never used up, quoting and printing are inverted by parsing, and what parsing accepts is again
  printable.
\<close>

section \<open>Parsers consume input\<close>

lemma skip_ws_length: "length (skip_ws s) \<le> length s"
  by (simp add: skip_ws_def length_dropWhile_le)

lemma expect_byte_Inr [simp]: "expect_byte want what s = Inr r \<longleftrightarrow> s = want # r"
  by (auto simp: expect_byte_def split: list.splits if_splits)

lemma expect_byte_Cons [simp]: "expect_byte c what (c # s) = Inr s"
  by simp

lemma simple_escape_ascii: "simple_escape e = Some c \<Longrightarrow> byte e < 0x80 \<and> byte c < 0x80"
  by (auto simp: simple_escape_def verdant_defs split: if_splits)

lemma hex_fold_ascii: "hex_fold acc s = Some v \<Longrightarrow> \<forall>c \<in> set s. byte c < 0x80"
  by (induction acc s rule: hex_fold.induct)
    (auto simp: hex_value_def is_ascii_digit_def split: option.splits if_splits)

lemma parse_hex4_valid: "parse_hex4 s = Inr (v, r) \<Longrightarrow> utf8_valid s \<longleftrightarrow> utf8_valid r"
proof -
  assume "parse_hex4 s = Inr (v, r)"
  then have "hex_fold 0 (take 4 s) = Some v" and r: "r = drop 4 s"
    by (auto simp: parse_hex4_def split: if_splits option.splits)
  then have "utf8_valid (take 4 s)" by (intro utf8_valid_all_ascii) (rule hex_fold_ascii)
  with r show ?thesis using utf8_valid_append [of "take 4 s" "drop 4 s"] by simp
qed

text \<open>The string loop, one equation per kind of first byte.\<close>

lemma string_body_close: "string_body out (dquote # r) = Inr (out, r)"
  by (subst string_body.simps) simp

lemma string_body_escape:
  "simple_escape e = Some c \<Longrightarrow> string_body out (backslash # e # r) = string_body (out @ [c]) r"
  by (subst string_body.simps) (simp add: verdant_defs)

lemma string_body_u:
  "string_body out (backslash # CHR ''u'' # s) =
     (case parse_hex4 s of
        Inl e \<Rightarrow> Inl e
      | Inr (code, r) \<Rightarrow>
          if 0xD800 \<le> code \<and> code < 0xE000
          then Inl (Msg (''unsupported '' @ backslash # ''u surrogate half''))
          else (case char_from_u32 code of
                  None \<Rightarrow> Inl (Msg (''invalid '' @ backslash # ''u escape''))
                | Some ch \<Rightarrow> string_body (out @ ch) r))"
  by (subst string_body.simps) (simp add: verdant_defs simple_escape_def)

lemma string_body_unicode:
  "parse_hex4 r = Inr (code, r1) \<Longrightarrow> char_from_u32 code = Some ch \<Longrightarrow>
     string_body out (backslash # CHR ''u'' # r) = string_body (out @ ch) r1"
  by (auto simp: string_body_u char_from_u32_def)

lemma string_body_char:
  assumes "b \<noteq> dquote" "b \<noteq> backslash" "0x20 \<le> byte b" "utf8_valid (b # r)"
    and "utf8_next (b # r) = Some (ch, r1)"
  shows "string_body out (b # r) = string_body (out @ ch) r1"
  by (subst string_body.simps) (use assms in simp)

text \<open>
  One turn of the string loop: it returns at the closing quote, or pushes one character and goes
  on with a shorter suffix, which is valid UTF-8 when the suffix before it was.
\<close>

lemma string_body_step:
  assumes "string_body out s = Inr (t, r)"
  obtains (close) "s = dquote # r" "t = out"
  | (push) ch s' where "string_body (out @ ch) s' = Inr (t, r)" "length s' < length s"
      "utf8_valid s \<Longrightarrow> utf8_valid s'" "utf8_valid ch"
proof (cases s)
  case Nil
  with assms show thesis by (simp add: string_body.simps [of out "[]"])
next
  case (Cons b s1)
  have bs: "byte backslash < 0x80" "backslash \<noteq> dquote" by (simp_all add: verdant_defs)
  consider "b = dquote" | "b = backslash" | "b \<noteq> dquote" "b \<noteq> backslash" by blast
  then show thesis
  proof cases
    case 1
    with assms Cons show thesis by (intro close) (simp_all add: string_body_close)
  next
    case 2
    then obtain e s2 where s1: "s1 = e # s2"
      using assms Cons bs by (cases s1) (simp_all add: string_body.simps [of out "[backslash]"])
    note unfold = string_body.simps [of out "backslash # e # s2"]
    show thesis
    proof (cases "simple_escape e")
      case (Some c)
      with 2 assms Cons s1 have "string_body (out @ [c]) s2 = Inr (t, r)"
        by (simp add: string_body_escape)
      then show thesis
      proof (rule push)
        show "length s2 < length s" using Cons s1 by simp
        show "utf8_valid s \<Longrightarrow> utf8_valid s2"
          using Cons s1 2 bs simple_escape_ascii [OF Some] by simp
        show "utf8_valid [c]" using simple_escape_ascii [OF Some] by simp
      qed
    next
      case None
      with 2 assms Cons s1 bs have e: "e = CHR ''u''" by (simp add: unfold split: if_splits)
      from None e 2 assms Cons s1 bs obtain code s3 ch where
        *: "parse_hex4 s2 = Inr (code, s3)" "char_from_u32 code = Some ch"
        "string_body (out @ ch) s3 = Inr (t, r)"
        by (auto simp: string_body_u split: sum.splits if_splits option.splits)
      show thesis
      proof (rule push [OF *(3)])
        show "length s3 < length s" using Cons s1 parse_hex4_length [OF *(1)] by simp
        show "utf8_valid s \<Longrightarrow> utf8_valid s3"
          using Cons s1 2 bs e parse_hex4_valid [OF *(1)] by simp
        show "utf8_valid ch" by (rule char_from_u32_valid [OF *(2)])
      qed
    qed
  next
    case 3
    with assms Cons obtain ch s2 where *:
      "utf8_next (b # s1) = Some (ch, s2)" "string_body (out @ ch) s2 = Inr (t, r)"
      by (auto simp: string_body.simps [of out "b # s1"] split: if_splits option.splits)
    show thesis using Cons utf8_next_length [OF *(1)] utf8_valid_step [OF *(1)]
        utf8_valid_char [OF *(1)]
      by (intro push [OF *(2)]) simp_all
  qed
qed

lemma string_body_length: "string_body out s = Inr (t, r) \<Longrightarrow> length r < length s"
proof (induction s arbitrary: out rule: length_induct)
  case (1 s)
  from 1(2) show ?case by (cases rule: string_body_step) (use 1(1) in fastforce)+
qed

lemma parse_string_length: "parse_string s = Inr (t, r) \<Longrightarrow> length r < length s"
  by (auto simp: parse_string_def dest: string_body_length)

lemma split_digits_append: "split_digits s = (ds, r) \<Longrightarrow> s = ds @ r"
  by (auto simp: split_digits_def)

lemma number_sign_append: "number_sign s = (sg, r) \<Longrightarrow> s = sg @ r"
  by (auto simp: number_sign_def split: list.splits if_splits)

lemma number_fraction_append: "number_fraction s = Inr (fr, r) \<Longrightarrow> s = fr @ r"
  by (auto simp: number_fraction_def Let_def split: list.splits if_splits prod.splits
      dest!: split_digits_append)

lemma exponent_sign_append: "exponent_sign s = (sg, r) \<Longrightarrow> s = sg @ r"
  by (auto simp: exponent_sign_def split: list.splits if_splits)

lemma number_exponent_append: "number_exponent s = Inr (ex, r) \<Longrightarrow> s = ex @ r"
  by (auto simp: number_exponent_def Let_def split: list.splits if_splits prod.splits
      dest!: split_digits_append exponent_sign_append)

lemma parse_number_append: "parse_number s = Inr (t, r) \<Longrightarrow> s = t @ r \<and> t \<noteq> []"
  by (auto simp: parse_number_def Let_def split: prod.splits if_splits
      dest!: split_digits_append number_sign_append number_fraction_append number_exponent_append)

lemma parse_literal_length: "parse_literal w v s = Inr (x, r) \<Longrightarrow> w \<noteq> [] \<Longrightarrow> length r < length s"
  by (auto simp: parse_literal_def neq_Nil_conv split: if_splits)

definition consumes :: "'a parser \<Rightarrow> bool" where
  "consumes p \<longleftrightarrow> (\<forall>s v r. p s = Inr (v, r) \<longrightarrow> length r < length s)"

lemma consumesD: "consumes p \<Longrightarrow> p s = Inr (v, r) \<Longrightarrow> length r < length s"
  by (simp add: consumes_def)

lemma skip_ws_Cons: "skip_ws s = c # r \<Longrightarrow> length r < length s"
  using skip_ws_length [of s] by simp

text \<open>Inversion of one turn of each loop.\<close>

lemma object_loop_step:
  assumes "object_loop pv (Suc n) m s = Inr (m', r)"
  obtains key s2 s3 v s4 d s5 where
    "parse_string (skip_ws s) = Inr (key, s2)" "skip_ws s2 = CHR '':'' # s3"
    "pv s3 = Inr (v, s4)" "bt_get m key = None" "skip_ws s4 = d # s5"
    "d = CHR '','' \<and> object_loop pv n (bt_insert key v m) s5 = Inr (m', r) \<or>
     d = CHR ''}'' \<and> m' = bt_insert key v m \<and> r = s5"
proof -
  obtain c s1 where s1: "skip_ws s = c # s1"
    using assms by (cases "skip_ws s") simp_all
  with assms have "c = dquote" by (simp split: if_splits)
  with assms s1 obtain key s2 s3 v s4 where *:
    "parse_string (c # s1) = Inr (key, s2)" "skip_ws s2 = CHR '':'' # s3"
    "pv s3 = Inr (v, s4)" and k: "bt_get m key = None" and
    rest: "(case skip_ws s4 of [] \<Rightarrow> Inl (Msg ''unterminated object'')
      | d # s5 \<Rightarrow>
          if d = CHR '','' then object_loop pv n (bt_insert key v m) s5
          else if d = CHR ''}'' then Inr (bt_insert key v m, s5)
          else Inl (Msg (''expected ',' or '}', got '' @ quoted (u8_as_char d)))) = Inr (m', r)"
    by (auto simp: Let_def split: if_splits)
  obtain d s5 where d: "skip_ws s4 = d # s5" using rest by (cases "skip_ws s4") simp_all
  with rest have "d = CHR '','' \<and> object_loop pv n (bt_insert key v m) s5 = Inr (m', r) \<or>
     d = CHR ''}'' \<and> m' = bt_insert key v m \<and> r = s5" by (auto split: if_splits)
  with * k d s1 show thesis by (intro that) simp_all
qed

lemma array_loop_step:
  assumes "array_loop pv (Suc n) xs s = Inr (xs', r)"
  obtains v s1 d s2 where
    "pv s = Inr (v, s1)" "skip_ws s1 = d # s2"
    "d = CHR '','' \<and> array_loop pv n (xs @ [v]) s2 = Inr (xs', r) \<or>
     d = CHR '']'' \<and> xs' = xs @ [v] \<and> r = s2"
proof -
  obtain v s1 where v: "pv s = Inr (v, s1)" using assms by auto
  obtain d s2 where d: "skip_ws s1 = d # s2" using assms v by (cases "skip_ws s1") simp_all
  from assms v d have "d = CHR '','' \<and> array_loop pv n (xs @ [v]) s2 = Inr (xs', r) \<or>
     d = CHR '']'' \<and> xs' = xs @ [v] \<and> r = s2" by (auto simp: Let_def split: if_splits)
  with v d show thesis by (rule that)
qed

lemma object_loop_length:
  "consumes pv \<Longrightarrow> object_loop pv n m s = Inr (m', r) \<Longrightarrow> length r < length s"
proof (induction n arbitrary: m s)
  case (Suc n)
  from Suc.prems(2) show ?case
  proof (cases rule: object_loop_step)
    case (1 key s2 s3 v s4 d s5)
    have "length s5 < length s"
      using 1 skip_ws_length [of s] parse_string_length [OF 1(1)] skip_ws_Cons [OF 1(2)]
        consumesD [OF Suc.prems(1) 1(3)] skip_ws_Cons [OF 1(5)] by linarith
    then show ?thesis using 1(6) Suc.IH [OF Suc.prems(1)] by (auto dest: less_trans)
  qed
qed simp

lemma array_loop_length:
  "consumes pv \<Longrightarrow> array_loop pv n xs s = Inr (xs', r) \<Longrightarrow> length r < length s"
proof (induction n arbitrary: xs s)
  case (Suc n)
  from Suc.prems(2) show ?case
  proof (cases rule: array_loop_step)
    case (1 v s1 d s2)
    have "length s2 < length s"
      using consumesD [OF Suc.prems(1) 1(1)] skip_ws_Cons [OF 1(2)] by linarith
    then show ?thesis using 1(3) Suc.IH [OF Suc.prems(1)] by (auto dest: less_trans)
  qed
qed simp

lemma parse_object_inner_step:
  assumes "parse_object_inner pv s = Inr (m, r)"
  obtains (empty) s1 where "s = CHR ''{'' # s1" "skip_ws s1 = CHR ''}'' # r" "m = []"
  | (members) s1 where "s = CHR ''{'' # s1"
      "object_loop pv (Suc (length s1)) [] (skip_ws s1) = Inr (m, r)"
proof -
  obtain s1 where s: "s = CHR ''{'' # s1" using assms by (auto simp: parse_object_inner_def)
  note step = assms [unfolded s parse_object_inner_def expect_byte_Cons and_then_simps]
  show thesis
  proof (cases "\<exists>s2. skip_ws s1 = CHR ''}'' # s2")
    case True
    with step s show thesis by (intro empty) auto
  next
    case False
    with step have "object_loop pv (Suc (length s1)) [] (skip_ws s1) = Inr (m, r)"
      by (simp split: list.splits if_splits del: object_loop.simps)
    with s show thesis by (rule members)
  qed
qed

lemma parse_array_inner_step:
  assumes "parse_array_inner pv s = Inr (xs, r)"
  obtains (empty) s1 where "s = CHR ''['' # s1" "skip_ws s1 = CHR '']'' # r" "xs = []"
  | (items) s1 where "s = CHR ''['' # s1"
      "array_loop pv (Suc (length s1)) [] (skip_ws s1) = Inr (xs, r)"
proof -
  obtain s1 where s: "s = CHR ''['' # s1" using assms by (auto simp: parse_array_inner_def)
  note step = assms [unfolded s parse_array_inner_def expect_byte_Cons and_then_simps]
  show thesis
  proof (cases "\<exists>s2. skip_ws s1 = CHR '']'' # s2")
    case True
    with step s show thesis by (intro empty) auto
  next
    case False
    with step have "array_loop pv (Suc (length s1)) [] (skip_ws s1) = Inr (xs, r)"
      by (simp split: list.splits if_splits del: array_loop.simps)
    with s show thesis by (rule items)
  qed
qed

lemma parse_object_inner_length:
  assumes "consumes pv" "parse_object_inner pv s = Inr (m, r)"
  shows "length r < length s"
  using assms(2)
proof (cases rule: parse_object_inner_step)
  case (empty s1)
  then show ?thesis using skip_ws_Cons [OF empty(2)] by simp
next
  case (members s1)
  then show ?thesis using object_loop_length [OF assms(1) members(2)] skip_ws_length [of s1] by simp
qed

lemma parse_array_inner_length:
  assumes "consumes pv" "parse_array_inner pv s = Inr (xs, r)"
  shows "length r < length s"
  using assms(2)
proof (cases rule: parse_array_inner_step)
  case (empty s1)
  then show ?thesis using skip_ws_Cons [OF empty(2)] by simp
next
  case (items s1)
  then show ?thesis using array_loop_length [OF assms(1) items(2)] skip_ws_length [of s1] by simp
qed

text \<open>Inversion of \<open>parse_value\<close>: one case per kind of value.\<close>

lemma parse_value_cases:
  assumes "parse_value n s = Inr (v, r)"
  obtains (object) k m where "n = Suc k" "v = JObject m"
      "parse_object_inner (parse_value k) (skip_ws s) = Inr (m, r)"
  | (array) k xs where "n = Suc k" "v = JArray xs"
      "parse_array_inner (parse_value k) (skip_ws s) = Inr (xs, r)"
  | (string) t where "0 < n" "v = JStr t" "parse_string (skip_ws s) = Inr (t, r)"
  | (literal) w where "0 < n" "w \<in> {''true'', ''false'', ''null''}" "v \<in> {JBool True, JBool False, JNull}"
      "parse_literal w v (skip_ws s) = Inr (v, r)"
  | (number) t where "0 < n" "v = JNumber t" "parse_number (skip_ws s) = Inr (t, r)"
proof (cases n)
  case 0
  with assms show thesis by simp
next
  case (Suc k)
  obtain c s1 where s1: "skip_ws s = c # s1"
    using assms Suc by (cases "skip_ws s") (simp_all add: Let_def)
  have lit: "parse_literal w x z = Inr (v, r) \<Longrightarrow> v = x" for w x z
    by (simp add: parse_literal_def split: if_splits)
  note step = assms [unfolded Suc parse_value.simps, simplified Let_def s1 list.case]
  have pos: "0 < n" using Suc by simp
  consider "c = CHR ''{''" | "c = CHR ''[''" | "c = dquote" | "c = CHR ''t''" | "c = CHR ''f''"
    | "c = CHR ''n''" | "c \<notin> {CHR ''{'', CHR ''['', dquote, CHR ''t'', CHR ''f'', CHR ''n''}" by blast
  then show thesis
  proof cases
    case 1
    with step s1 show thesis using object [OF Suc] by auto
  next
    case 2
    with step s1 show thesis using array [OF Suc] by auto
  next
    case 3
    with step s1 show thesis using string [OF pos] by (auto simp: dquote_def)
  next
    case 7
    with step have "map_ok (\<lambda>(t, r). (JNumber t, r)) (parse_number (c # s1)) = Inr (v, r)"
      by (simp split: if_splits)
    then obtain t where "v = JNumber t" "parse_number (c # s1) = Inr (t, r)" by auto
    with s1 show thesis by (intro number [OF pos]) auto
  next
    case 4
    with step have "parse_literal ''true'' (JBool True) (skip_ws s) = Inr (v, r)"
      by (simp add: s1 dquote_def)
    with lit [OF this] show thesis by (intro literal [OF pos, of "''true''"]) simp_all
  next
    case 5
    with step have "parse_literal ''false'' (JBool False) (skip_ws s) = Inr (v, r)"
      by (simp add: s1 dquote_def)
    with lit [OF this] show thesis by (intro literal [OF pos, of "''false''"]) simp_all
  next
    case 6
    with step have "parse_literal ''null'' JNull (skip_ws s) = Inr (v, r)"
      by (simp add: s1 dquote_def)
    with lit [OF this] show thesis by (intro literal [OF pos, of "''null''"]) simp_all
  qed
qed

lemma parse_value_length: "parse_value n s = Inr (v, r) \<Longrightarrow> length r < length s"
proof (induction n arbitrary: s v r)
  case (Suc n)
  then have pv: "consumes (parse_value n)" by (simp add: consumes_def)
  from Suc.prems have "length r < length (skip_ws s)"
  proof (cases rule: parse_value_cases)
    case (number t)
    then show ?thesis using parse_number_append [OF number(3)] by (auto simp: neq_Nil_conv)
  qed (use pv in \<open>auto dest: parse_object_inner_length parse_array_inner_length
        parse_string_length parse_literal_length\<close>)
  then show ?case using skip_ws_length [of s] by linarith
qed simp

lemma consumes_parse_value [simp]: "consumes (parse_value n)"
  by (simp add: consumes_def parse_value_length)

section \<open>The fuel is never used up\<close>

definition fuelled :: "'a parser \<Rightarrow> bool" where
  "fuelled p \<longleftrightarrow> (\<forall>s. p s \<noteq> Inl OutOfFuel)"

lemma expect_byte_fuel [simp]: "expect_byte c what s \<noteq> Inl OutOfFuel"
  by (auto simp: expect_byte_def split: list.splits)

lemma parse_hex4_fuel: "parse_hex4 s = Inl e \<Longrightarrow> e \<noteq> OutOfFuel"
  by (auto simp: parse_hex4_def split: if_splits option.splits)

lemma string_body_fuel_step:
  assumes "string_body out s = Inl OutOfFuel"
  shows "\<exists>out' s'. string_body out' s' = Inl OutOfFuel \<and> length s' < length s"
proof (cases s)
  case Nil
  with assms show ?thesis by (simp add: string_body.simps [of out "[]"])
next
  case (Cons b s1)
  have bs: "backslash \<noteq> dquote" by (simp add: verdant_defs)
  consider "b = dquote" | "b = backslash" | "b \<noteq> dquote" "b \<noteq> backslash" by blast
  then show ?thesis
  proof cases
    case 1
    with assms Cons show ?thesis by (simp add: string_body_close)
  next
    case 2
    then obtain e s2 where s1: "s1 = e # s2"
      using assms Cons bs by (cases s1) (simp_all add: string_body.simps [of out "[backslash]"])
    note unfold = string_body.simps [of out "backslash # e # s2"]
    consider c where "simple_escape e = Some c" | "simple_escape e = None" "e = CHR ''u''"
      | "simple_escape e = None" "e \<noteq> CHR ''u''" by (cases "simple_escape e") blast+
    then show ?thesis
    proof cases
      case (1 c)
      with assms Cons s1 \<open>b = backslash\<close> have "string_body (out @ [c]) s2 = Inl OutOfFuel"
        by (simp add: string_body_escape)
      moreover have "length s2 < length s" using Cons s1 by simp
      ultimately show ?thesis by blast
    next
      case 2
      with assms Cons s1 \<open>b = backslash\<close> obtain code s3 ch where
        "parse_hex4 s2 = Inr (code, s3)" "string_body (out @ ch) s3 = Inl OutOfFuel"
        by (auto simp: string_body_u split: sum.splits if_splits option.splits dest: parse_hex4_fuel)
      moreover from this(1) have "length s3 < length s"
        using Cons s1 parse_hex4_length by fastforce
      ultimately show ?thesis by blast
    next
      case 3
      with assms Cons s1 \<open>b = backslash\<close> bs show ?thesis by (simp add: unfold)
    qed
  next
    case 3
    with assms Cons show ?thesis
      by (auto simp: string_body.simps [of out "b # s1"] split: if_splits option.splits
          dest!: utf8_next_length) force
  qed
qed

lemma string_body_fuel: "string_body out s \<noteq> Inl OutOfFuel"
  by (induction s arbitrary: out rule: length_induct) (use string_body_fuel_step in blast)

lemma parse_string_fuel: "parse_string s \<noteq> Inl OutOfFuel"
  by (auto simp: parse_string_def and_then_eq_Inl string_body_fuel)

lemma parse_number_fuel: "parse_number s \<noteq> Inl OutOfFuel"
  by (auto simp: parse_number_def number_fraction_def number_exponent_def Let_def and_then_eq_Inl
      split: prod.splits if_splits list.splits)

lemma object_loop_fuel:
  assumes "consumes pv" "fuelled pv"
  shows "length s < n \<Longrightarrow> object_loop pv n m s \<noteq> Inl OutOfFuel"
proof (induction n arbitrary: m s)
  case (Suc n)
  show ?case
  proof
    assume *: "object_loop pv (Suc n) m s = Inl OutOfFuel"
    then obtain c s1 where s1: "skip_ws s = c # s1" by (cases "skip_ws s") simp_all
    with * have "c = dquote" by (simp split: if_splits)
    with * s1 obtain key s2 s3 v s4 where r:
      "parse_string (c # s1) = Inr (key, s2)" "skip_ws s2 = CHR '':'' # s3"
      "pv s3 = Inr (v, s4)" and
      rest: "(case skip_ws s4 of [] \<Rightarrow> Inl (Msg ''unterminated object'')
        | d # s5 \<Rightarrow>
            if d = CHR '','' then object_loop pv n (bt_insert key v m) s5
            else if d = CHR ''}'' then Inr (bt_insert key v m, s5)
            else Inl (Msg (''expected ',' or '}', got '' @ quoted (u8_as_char d)))) = Inl OutOfFuel"
      using assms(2)
      by (auto simp: Let_def and_then_eq_Inl parse_string_fuel fuelled_def split: if_splits)
    then obtain s5 where s5: "skip_ws s4 = CHR '','' # s5"
      and loop: "object_loop pv n (bt_insert key v m) s5 = Inl OutOfFuel"
      by (auto split: list.splits if_splits)
    have "length s5 < length s"
      using s1 s5 r(2) skip_ws_length [of s] parse_string_length [OF r(1)] skip_ws_Cons [OF r(2)]
        consumesD [OF assms(1) r(3)] skip_ws_Cons [OF s5] by simp
    with Suc loop show False by simp
  qed
qed simp

lemma array_loop_fuel:
  assumes "consumes pv" "fuelled pv"
  shows "length s < n \<Longrightarrow> array_loop pv n xs s \<noteq> Inl OutOfFuel"
proof (induction n arbitrary: xs s)
  case (Suc n)
  show ?case
  proof
    assume *: "array_loop pv (Suc n) xs s = Inl OutOfFuel"
    then obtain v s1 where v: "pv s = Inr (v, s1)"
      using assms(2) by (auto simp: and_then_eq_Inl fuelled_def)
    with * obtain s2 where s2: "skip_ws s1 = CHR '','' # s2"
      and loop: "array_loop pv n (xs @ [v]) s2 = Inl OutOfFuel"
      by (auto simp: Let_def split: list.splits if_splits)
    have "length s2 < length s"
      using consumesD [OF assms(1) v] skip_ws_Cons [OF s2] by simp
    with Suc loop show False by simp
  qed
qed simp

lemma parse_object_inner_fuel:
  assumes "consumes pv" "fuelled pv"
  shows "parse_object_inner pv s \<noteq> Inl OutOfFuel"
proof -
  have loop: "object_loop pv (Suc (length x)) [] (skip_ws x) \<noteq> Inl OutOfFuel" for x
    by (rule object_loop_fuel [OF assms]) (simp add: less_Suc_eq_le skip_ws_length)
  show ?thesis
    by (auto simp: parse_object_inner_def and_then_eq_Inl simp del: object_loop.simps
        split: list.splits if_splits) (metis loop)+
qed

lemma parse_array_inner_fuel:
  assumes "consumes pv" "fuelled pv"
  shows "parse_array_inner pv s \<noteq> Inl OutOfFuel"
proof -
  have loop: "array_loop pv (Suc (length x)) [] (skip_ws x) \<noteq> Inl OutOfFuel" for x
    by (rule array_loop_fuel [OF assms]) (simp add: less_Suc_eq_le skip_ws_length)
  show ?thesis
    by (auto simp: parse_array_inner_def and_then_eq_Inl simp del: array_loop.simps
        split: list.splits if_splits) (metis loop)+
qed

lemma fuelled_parse_value [simp]: "fuelled (parse_value n)"
proof (induction n)
  case (Suc n)
  have ok: "map_ok f x = Inl e \<longleftrightarrow> x = Inl e" for f and x :: "parse_error + 'x" and e
    by (cases x) auto
  show ?case unfolding fuelled_def
  proof
    fix s
    show "parse_value (Suc n) s \<noteq> Inl OutOfFuel"
      using Suc
      by (cases "skip_ws s") (auto simp: Let_def ok parse_object_inner_fuel parse_array_inner_fuel
          parse_string_fuel parse_number_fuel parse_literal_def)
  qed
qed (simp add: fuelled_def)

section \<open>Well-formed values\<close>

text \<open>
  The values the parser can produce: number texts are exactly what the number scanner takes,
  strings and keys are UTF-8, the members of an object are in key order.
\<close>

fun wf_json :: "json \<Rightarrow> bool" where
  "wf_json JNull = True"
| "wf_json (JBool _) = True"
| "wf_json (JNumber raw) = (parse_number raw = Inr (raw, []))"
| "wf_json (JStr s) = utf8_valid s"
| "wf_json (JArray xs) = (\<forall>x \<in> set xs. wf_json x)"
| "wf_json (JObject m) = (bt_ok m \<and> (\<forall>p \<in> set m. utf8_valid (fst p) \<and> wf_json (snd p)))"

fun json_depth :: "json \<Rightarrow> nat" where
  "json_depth (JArray xs) = foldr (\<lambda>x d. max (Suc (json_depth x)) d) xs 0"
| "json_depth (JObject m) = foldr (\<lambda>p d. max (Suc (json_depth (snd p))) d) m 0"
| "json_depth _ = 0"

lemma foldr_max_le: "foldr (\<lambda>x d. max (f x) d) xs 0 \<le> n \<longleftrightarrow> (\<forall>x \<in> set xs. f x \<le> n)" for f :: "'a \<Rightarrow> nat"
  by (induction xs) auto

lemma json_depth_array: "json_depth (JArray xs) \<le> n \<longleftrightarrow> (\<forall>x \<in> set xs. Suc (json_depth x) \<le> n)"
  by (simp only: json_depth.simps foldr_max_le)

lemma json_depth_object: "json_depth (JObject m) \<le> n \<longleftrightarrow> (\<forall>p \<in> set m. Suc (json_depth (snd p)) \<le> n)"
  by (simp only: json_depth.simps foldr_max_le)

declare json_depth.simps(1,2) [simp del]

section \<open>What is parsed is well formed\<close>

lemma skip_ws_valid: "utf8_valid s \<Longrightarrow> utf8_valid (skip_ws s)"
proof (induction s)
  case (Cons c s)
  then show ?case by (cases "is_ws c") (auto simp: skip_ws_def is_ws_def)
qed (simp add: skip_ws_def)

lemma skip_ws_valid_tail: "utf8_valid s \<Longrightarrow> skip_ws s = c # r \<Longrightarrow> byte c < 0x80 \<Longrightarrow> utf8_valid r"
  using skip_ws_valid [of s] by simp

lemma string_body_valid:
  "string_body out s = Inr (t, r) \<Longrightarrow> utf8_valid s \<Longrightarrow> utf8_valid out \<Longrightarrow> utf8_valid t \<and> utf8_valid r"
proof (induction s arbitrary: out rule: length_induct)
  case (1 s)
  from 1(2) show ?case
  proof (cases rule: string_body_step)
    case close
    with 1 show ?thesis by (simp add: verdant_defs)
  next
    case (push ch s')
    with 1 show ?thesis by auto
  qed
qed

lemma parse_string_valid:
  "parse_string s = Inr (t, r) \<Longrightarrow> utf8_valid s \<Longrightarrow> utf8_valid t \<and> utf8_valid r"
  by (auto simp: parse_string_def verdant_defs dest: string_body_valid)

definition number_stop :: "string \<Rightarrow> bool" where
  "number_stop s \<longleftrightarrow>
     (case s of [] \<Rightarrow> True | c # _ \<Rightarrow> \<not> is_ascii_digit c \<and> c \<notin> {CHR ''.'', CHR ''e'', CHR ''E''})"

lemma dot_not_digit [simp]:
  "\<not> is_ascii_digit CHR ''.''" "\<not> is_ascii_digit CHR ''e''" "\<not> is_ascii_digit CHR ''E''"
  by (simp_all add: is_ascii_digit_def)

lemma split_digits_self:
  "split_digits s = (ds, r) \<Longrightarrow> (\<forall>c \<in> set ds. is_ascii_digit c)"
  by (auto simp: split_digits_def dest: set_takeWhileD)

lemma split_digits_intro:
  "\<forall>c \<in> set ds. is_ascii_digit c \<Longrightarrow> (case r of [] \<Rightarrow> True | c # _ \<Rightarrow> \<not> is_ascii_digit c) \<Longrightarrow>
     split_digits (ds @ r) = (ds, r)"
  by (cases r) (simp_all add: split_digits_def takeWhile_append2 dropWhile_append2)

lemma number_sign_app:
  "number_sign s = (sg, r) \<Longrightarrow> s \<noteq> [] \<Longrightarrow> number_sign (s @ t) = (sg, r @ t)"
  by (auto simp: number_sign_def split: list.splits if_splits)

lemma split_digits_app:
  "split_digits s = (ds, r) \<Longrightarrow> number_stop t \<Longrightarrow> split_digits (s @ t) = (ds, r @ t)"
proof -
  assume *: "split_digits s = (ds, r)" "number_stop t"
  then have s: "s = ds @ r" and d: "\<forall>c \<in> set ds. is_ascii_digit c"
    by (auto dest: split_digits_append split_digits_self)
  have "case r @ t of [] \<Rightarrow> True | c # _ \<Rightarrow> \<not> is_ascii_digit c"
    using * by (cases r) (auto simp: split_digits_def number_stop_def dropWhile_eq_Cons_conv
        split: list.splits)
  from split_digits_intro [OF d this] s show ?thesis by simp
qed

lemma number_fraction_app:
  "number_fraction s = Inr (fr, r) \<Longrightarrow> number_stop t \<Longrightarrow> number_fraction (s @ t) = Inr (fr, r @ t)"
  by (cases s) (auto simp: number_fraction_def number_stop_def Let_def
      split: prod.splits if_splits list.splits dest: split_digits_app [of _ _ _ t])

lemma exponent_sign_app:
  "exponent_sign s = (sg, r) \<Longrightarrow> s \<noteq> [] \<Longrightarrow> exponent_sign (s @ t) = (sg, r @ t)"
  by (auto simp: exponent_sign_def split: list.splits if_splits)

lemma number_exponent_app:
  assumes "number_exponent s = Inr (ex, r)" "number_stop t"
  shows "number_exponent (s @ t) = Inr (ex, r @ t)"
proof (cases "\<exists>c s1. s = c # s1 \<and> (c = CHR ''e'' \<or> c = CHR ''E'')")
  case False
  with assms show ?thesis
    by (cases s) (auto simp: number_exponent_def number_stop_def split: list.splits)
next
  case True
  then obtain c s1 where s: "s = c # s1" "c = CHR ''e'' \<or> c = CHR ''E''" by blast
  obtain sg s2 where 1: "exponent_sign s1 = (sg, s2)" by fastforce
  obtain ds s3 where 2: "split_digits s2 = (ds, s3)" by fastforce
  from assms(1) s 1 2 have d: "ds \<noteq> []" "ex = c # sg @ ds" "r = s3"
    by (auto simp: number_exponent_def split: if_splits)
  then have "s1 \<noteq> []" using 1 2 by (auto simp: exponent_sign_def split_digits_def)
  with s d show ?thesis
    using exponent_sign_app [OF 1] split_digits_app [OF 2 assms(2)]
    by (auto simp: number_exponent_def)
qed

lemma parse_number_app:
  assumes "parse_number s = Inr (v, r)" "number_stop t"
  shows "parse_number (s @ t) = Inr (v, r @ t)"
proof -
  obtain sg s1 where 1: "number_sign s = (sg, s1)" by fastforce
  obtain ds s2 where 2: "split_digits s1 = (ds, s2)" by fastforce
  from assms(1) 1 2 obtain fr s3 ex where d: "ds \<noteq> []" and 3: "number_fraction s2 = Inr (fr, s3)"
    and 4: "number_exponent s3 = Inr (ex, r)" and v: "v = sg @ ds @ fr @ ex"
    by (auto simp: parse_number_def split: if_splits)
  have "s \<noteq> []" using 1 2 d by (auto simp: number_sign_def split_digits_def)
  with 1 2 3 4 d v show ?thesis
    using number_sign_app [OF 1] split_digits_app [OF 2 assms(2)]
      number_fraction_app [OF 3 assms(2)] number_exponent_app [OF 4 assms(2)]
    by (simp add: parse_number_def)
qed

definition exponent_shape :: "string \<Rightarrow> bool" where
  "exponent_shape u \<longleftrightarrow> u = [] \<or> hd u = CHR ''e'' \<or> hd u = CHR ''E''"

lemma number_exponent_self:
  assumes "number_exponent s = Inr (ex, r)"
  shows "number_exponent ex = Inr (ex, []) \<and> exponent_shape ex"
proof (cases "ex = []")
  case False
  with assms obtain c s1 sg s2 ds where *: "c = CHR ''e'' \<or> c = CHR ''E''"
    "exponent_sign s1 = (sg, s2)" "split_digits s2 = (ds, r)" "ds \<noteq> []" "ex = c # sg @ ds"
    by (auto simp: number_exponent_def split: list.splits if_splits prod.splits)
  have dg: "\<forall>d \<in> set ds. is_ascii_digit d" using *(3) by (rule split_digits_self)
  have "exponent_sign (sg @ ds) = (sg, ds)"
    using *(2,4) dg by (cases ds) (auto simp: exponent_sign_def split: list.splits if_splits)
  moreover have "split_digits ds = (ds, [])" using split_digits_intro [OF dg, of "[]"] by simp
  ultimately show ?thesis using * by (auto simp: number_exponent_def exponent_shape_def)
qed (simp add: number_exponent_def exponent_shape_def)

lemma number_fraction_self:
  assumes "number_fraction s = Inr (fr, r)" "exponent_shape u"
  shows "number_fraction (fr @ u) = Inr (fr, u) \<and> (fr = [] \<or> hd fr = CHR ''.'')"
proof (cases "fr = []")
  case True
  with assms(2) show ?thesis by (cases u) (auto simp: number_fraction_def exponent_shape_def)
next
  case False
  with assms(1) obtain ds s1 where *: "split_digits s1 = (ds, r)" "ds \<noteq> []" "fr = CHR ''.'' # ds"
    by (auto simp: number_fraction_def split: list.splits if_splits prod.splits)
  have "\<forall>d \<in> set ds. is_ascii_digit d" using *(1) by (rule split_digits_self)
  then have "split_digits (ds @ u) = (ds, u)"
    by (rule split_digits_intro) (use assms(2) in \<open>auto simp: exponent_shape_def split: list.splits\<close>)
  with * show ?thesis by (simp add: number_fraction_def)
qed

lemma parse_number_self:
  assumes "parse_number s = Inr (v, r)"
  shows "parse_number v = Inr (v, [])"
proof -
  obtain sg s1 where 1: "number_sign s = (sg, s1)" by fastforce
  obtain ds s2 where 2: "split_digits s1 = (ds, s2)" by fastforce
  from assms 1 2 obtain fr s3 ex where d: "ds \<noteq> []" and 3: "number_fraction s2 = Inr (fr, s3)"
    and 4: "number_exponent s3 = Inr (ex, r)" and v: "v = sg @ ds @ fr @ ex"
    by (auto simp: parse_number_def split: if_splits)
  have dg: "\<forall>c \<in> set ds. is_ascii_digit c" using 2 by (rule split_digits_self)
  have ex: "number_exponent ex = Inr (ex, [])" "exponent_shape ex"
    using number_exponent_self [OF 4] by simp_all
  have fr: "number_fraction (fr @ ex) = Inr (fr, ex)" "fr = [] \<or> hd fr = CHR ''.''"
    using number_fraction_self [OF 3 ex(2)] by simp_all
  have "number_sign (sg @ ds @ fr @ ex) = (sg, ds @ fr @ ex)"
    using 1 d dg by (cases ds) (auto simp: number_sign_def split: list.splits if_splits)
  moreover have "split_digits (ds @ fr @ ex) = (ds, fr @ ex)"
  proof (rule split_digits_intro [OF dg])
    show "case fr @ ex of [] \<Rightarrow> True | c # _ \<Rightarrow> \<not> is_ascii_digit c"
      using fr(2) ex(2) by (cases fr; cases ex) (auto simp: exponent_shape_def)
  qed
  ultimately show ?thesis using d v ex fr by (simp add: parse_number_def)
qed

lemma parse_number_ascii: "parse_number s = Inr (v, r) \<Longrightarrow> utf8_valid s \<longleftrightarrow> utf8_valid r"
proof -
  assume *: "parse_number s = Inr (v, r)"
  have asc: "\<forall>c \<in> set ds. byte c < 0x80" if "split_digits u = (ds, w)" for u ds w
    using split_digits_self [OF that] by (auto simp: is_ascii_digit_def)
  from * have "\<forall>c \<in> set v. byte c < 0x80"
    by (auto simp: parse_number_def number_sign_def number_fraction_def number_exponent_def
        exponent_sign_def Let_def split: prod.splits if_splits list.splits dest!: asc)
  then have "utf8_valid v" by (rule utf8_valid_all_ascii)
  with parse_number_append [OF *] show ?thesis by simp
qed

text \<open>The values a parser for values hands out, when it reads valid text.\<close>

definition sound_at :: "nat \<Rightarrow> json parser \<Rightarrow> bool" where
  "sound_at n p \<longleftrightarrow> (\<forall>s v r. p s = Inr (v, r) \<longrightarrow> utf8_valid s \<longrightarrow>
     wf_json v \<and> Suc (json_depth v) \<le> n \<and> utf8_valid r)"

lemma sound_atD:
  "sound_at n p \<Longrightarrow> p s = Inr (v, r) \<Longrightarrow> utf8_valid s \<Longrightarrow>
     wf_json v \<and> Suc (json_depth v) \<le> n \<and> utf8_valid r"
  by (simp add: sound_at_def)

lemma object_loop_sound:
  assumes "sound_at k pv"
  shows "object_loop pv n m s = Inr (m', r) \<Longrightarrow> utf8_valid s \<Longrightarrow> wf_json (JObject m) \<Longrightarrow>
    json_depth (JObject m) \<le> k \<Longrightarrow> wf_json (JObject m') \<and> json_depth (JObject m') \<le> k \<and> utf8_valid r"
proof (induction n arbitrary: m s)
  case (Suc n)
  from Suc.prems(1) show ?case
  proof (cases rule: object_loop_step)
    case (1 key s2 s3 v s4 d s5)
    have key: "utf8_valid key" "utf8_valid s2"
      using parse_string_valid [OF 1(1)] skip_ws_valid [OF Suc.prems(2)] by simp_all
    have "utf8_valid s3" using skip_ws_valid_tail [OF key(2) 1(2)] by simp
    then have v: "wf_json v" "Suc (json_depth v) \<le> k" "utf8_valid s4"
      using sound_atD [OF assms 1(3)] by simp_all
    have s5: "utf8_valid s5" using skip_ws_valid_tail [OF v(3) 1(5)] 1(6) by auto
    have "\<forall>p \<in> set (bt_insert key v m). utf8_valid (fst p) \<and> wf_json (snd p)"
      using Suc.prems(3) v(1) key(1) by (intro ball_bt_insert) simp_all
    moreover have "\<forall>p \<in> set (bt_insert key v m). Suc (json_depth (snd p)) \<le> k"
      using Suc.prems(4) v(2) by (intro ball_bt_insert) (simp_all add: json_depth_object)
    ultimately have m: "wf_json (JObject (bt_insert key v m))"
      "json_depth (JObject (bt_insert key v m)) \<le> k"
      using Suc.prems(3) by (simp_all add: json_depth_object)
    from 1(6) show ?thesis using Suc.IH [OF _ s5 m] s5 m by blast
  qed
qed simp

lemma array_loop_sound:
  assumes "sound_at k pv"
  shows "array_loop pv n xs s = Inr (xs', r) \<Longrightarrow> utf8_valid s \<Longrightarrow> wf_json (JArray xs) \<Longrightarrow>
    json_depth (JArray xs) \<le> k \<Longrightarrow> wf_json (JArray xs') \<and> json_depth (JArray xs') \<le> k \<and> utf8_valid r"
proof (induction n arbitrary: xs s)
  case (Suc n)
  from Suc.prems(1) show ?case
  proof (cases rule: array_loop_step)
    case (1 v s1 d s2)
    have v: "wf_json v" "Suc (json_depth v) \<le> k" "utf8_valid s1"
      using sound_atD [OF assms 1(1) Suc.prems(2)] by simp_all
    have s2: "utf8_valid s2" using skip_ws_valid_tail [OF v(3) 1(2)] 1(3) by auto
    have xs: "wf_json (JArray (xs @ [v]))" "json_depth (JArray (xs @ [v])) \<le> k"
      using Suc.prems(3,4) v by (auto simp: json_depth_array)
    from 1(3) show ?thesis using Suc.IH [OF _ s2 xs] s2 xs by blast
  qed
qed simp

lemma parse_object_inner_sound:
  assumes "sound_at k pv" "parse_object_inner pv s = Inr (m, r)" "utf8_valid s"
  shows "wf_json (JObject m) \<and> json_depth (JObject m) \<le> k \<and> utf8_valid r"
  using assms(2)
proof (cases rule: parse_object_inner_step)
  case (empty s1)
  with assms(3) skip_ws_valid_tail [of s1 "CHR ''}''" r] show ?thesis
    by (simp add: json_depth.simps)
next
  case (members s1)
  with assms(3) skip_ws_valid [of s1] show ?thesis
    by (intro object_loop_sound [OF assms(1) members(2)]) (simp_all add: json_depth.simps)
qed

lemma parse_array_inner_sound:
  assumes "sound_at k pv" "parse_array_inner pv s = Inr (xs, r)" "utf8_valid s"
  shows "wf_json (JArray xs) \<and> json_depth (JArray xs) \<le> k \<and> utf8_valid r"
  using assms(2)
proof (cases rule: parse_array_inner_step)
  case (empty s1)
  with assms(3) skip_ws_valid_tail [of s1 "CHR '']''" r] show ?thesis
    by (simp add: json_depth.simps)
next
  case (items s1)
  with assms(3) skip_ws_valid [of s1] show ?thesis
    by (intro array_loop_sound [OF assms(1) items(2)]) (simp_all add: json_depth.simps)
qed

lemma parse_literal_valid:
  "parse_literal w v s = Inr (x, r) \<Longrightarrow> utf8_valid w \<Longrightarrow> utf8_valid s \<Longrightarrow> utf8_valid r"
  using utf8_valid_append [of w "drop (length w) s"]
  by (metis append_take_drop_id if_Inl_eq_Inr old.sum.distinct(2) parse_literal_def prod.inject sum.inject(2))

lemma parse_value_sound: "sound_at n (parse_value n)"
proof (induction n)
  case (Suc n)
  show ?case unfolding sound_at_def
  proof (intro allI impI)
    fix s v r
    assume *: "parse_value (Suc n) s = Inr (v, r)" and "utf8_valid s"
    then have s: "utf8_valid (skip_ws s)" by (simp add: skip_ws_valid)
    from *(1) show "wf_json v \<and> Suc (json_depth v) \<le> Suc n \<and> utf8_valid r"
    proof (cases rule: parse_value_cases)
      case (object k m)
      with Suc parse_object_inner_sound [OF _ object(3) s, of n] show ?thesis by auto
    next
      case (array k xs)
      with Suc parse_array_inner_sound [OF _ array(3) s, of n] show ?thesis by auto
    next
      case (string t)
      with s parse_string_valid [OF string(3)] show ?thesis by simp
    next
      case (literal w)
      with s parse_literal_valid [OF literal(4)] show ?thesis by auto
    next
      case (number t)
      with s parse_number_ascii [OF number(3)] parse_number_self [OF number(3)] show ?thesis by simp
    qed
  qed
qed (simp add: sound_at_def)

section \<open>Printing is inverted by parsing\<close>

lemma quote_char_high: "\<not> byte c < 0x80 \<Longrightarrow> quote_char c = [c]"
  by (auto simp: quote_char_def verdant_defs)

lemma quote_chars_high: "\<forall>c \<in> set s. 0x80 \<le> byte c \<Longrightarrow> concat (map quote_char s) = s"
  by (induction s) (auto simp: quote_char_high not_less)

lemma hex_digit_ascii: "d < 16 \<Longrightarrow> byte (hex_digit d) < 0x80"
  by (simp add: hex_digit_def)

lemma hex_value_hex_digit: "d < 16 \<Longrightarrow> hex_value (hex_digit d) = Some d"
  by (auto simp: hex_value_def hex_digit_def is_ascii_digit_def)

lemma quote_char_valid: "byte c < 0x80 \<Longrightarrow> utf8_valid (quote_char c)"
proof -
  assume "byte c < 0x80"
  then have "byte (hex_digit (byte c div 16)) < 0x80" "byte (hex_digit (byte c mod 16)) < 0x80"
    by (auto intro!: hex_digit_ascii)
  with \<open>byte c < 0x80\<close> show ?thesis by (simp add: quote_char_def verdant_defs)
qed

lemma quote_chars_valid: "utf8_valid s \<Longrightarrow> utf8_valid (concat (map quote_char s))"
proof (induction s rule: utf8_induct)
  case (Char s ch r)
  have "utf8_valid (concat (map quote_char ch))"
  proof (cases "byte (hd s) < 0x80")
    case True
    then have "ch = [hd s]" using Char(1) by (cases s) auto
    with True show ?thesis by (simp add: quote_char_valid)
  next
    case False
    then have "concat (map quote_char ch) = ch"
      using Char(1) utf8_next_high [of "hd s" "tl s" ch r] by (cases s) (auto intro: quote_chars_high)
    then show ?thesis using utf8_valid_char [OF Char(1)] by simp
  qed
  with Char show ?case by simp
qed simp

lemma quote_valid: "utf8_valid s \<Longrightarrow> utf8_valid (quote s)"
  by (simp add: quote_def quote_chars_valid verdant_defs)

text \<open>The string loop reads back one quoted ASCII character.\<close>

lemma string_body_quote_ascii:
  assumes "byte c < 0x80" "utf8_valid rest"
  shows "string_body out (quote_char c @ rest) = string_body (out @ [c]) rest"
proof -
  consider (simple) e where "quote_char c = [backslash, e]" "simple_escape e = Some c"
    | (hex) "quote_char c = [backslash, CHR ''u'', CHR ''0'', CHR ''0'', hex_digit (byte c div 16),
        hex_digit (byte c mod 16)]" "byte c < 0x20"
    | (plain) "quote_char c = [c]" "c \<noteq> dquote" "c \<noteq> backslash" "0x20 \<le> byte c"
  proof -
    consider "c = dquote" | "c = backslash" | "c = CHR 0x0A" | "c = CHR 0x0D" | "c = CHR 0x09"
      | "c \<notin> {dquote, backslash, CHR 0x0A, CHR 0x0D, CHR 0x09}" by blast
    then show thesis
    proof cases
      case 6
      then show thesis using hex plain by (cases "byte c < 0x20") (auto simp: quote_char_def)
    qed (rule simple, simp add: quote_char_def verdant_defs, simp add: simple_escape_def verdant_defs)+
  qed
  then show ?thesis
  proof cases
    case (simple e)
    then show ?thesis by (simp add: string_body_escape)
  next
    case hex
    have zero: "hex_value CHR ''0'' = Some 0" by (simp add: hex_value_def is_ascii_digit_def)
    have "byte c div 16 < 16" "byte c mod 16 < 16" using hex(2) by simp_all
    then have "hex_fold 0 [CHR ''0'', CHR ''0'', hex_digit (byte c div 16), hex_digit (byte c mod 16)] =
        Some (byte c div 16 * 16 + byte c mod 16)"
      by (simp only: hex_fold.simps zero hex_value_hex_digit option.case) simp
    then have "parse_hex4 (CHR ''0'' # CHR ''0'' # hex_digit (byte c div 16) #
        hex_digit (byte c mod 16) # rest) = Inr (byte c, rest)"
      by (simp only: parse_hex4_def take_Cons_numeral drop_Cons_numeral) (simp del: hex_fold.simps)
    moreover have "char_from_u32 (byte c) = Some [c]" using assms(1) by (simp add: char_from_u32_def)
    ultimately show ?thesis using hex(1) by (simp add: string_body_unicode)
  next
    case plain
    with assms show ?thesis by (simp add: string_body_char)
  qed
qed

lemma string_body_quote:
  "utf8_valid s \<Longrightarrow> utf8_valid rest \<Longrightarrow>
     string_body out (concat (map quote_char s) @ dquote # rest) = Inr (out @ s, rest)"
proof (induction s arbitrary: out rule: utf8_induct)
  case Nil
  then show ?case by (simp add: string_body_close)
next
  case (Char s ch r)
  let ?q = "concat (map quote_char r) @ dquote # rest"
  have q: "utf8_valid ?q" using Char(3,5) quote_chars_valid [of r] by (simp add: verdant_defs)
  have "string_body out (concat (map quote_char ch) @ ?q) = string_body (out @ ch) ?q"
  proof (cases "byte (hd s) < 0x80")
    case True
    then have "ch = [hd s]" using Char(1) by (cases s) auto
    with True q show ?thesis by (simp add: string_body_quote_ascii)
  next
    case False
    then obtain b s1 where s: "s = b # s1" using Char(1) by (cases s) auto
    then have high: "\<forall>c \<in> set ch. 0x80 \<le> byte c" using Char(1) False utf8_next_high by simp
    obtain ch1 where ch: "ch = b # ch1" using Char(1,2) s utf8_next_append [OF Char(1)]
      by (cases ch) auto
    have n: "utf8_next (ch @ ?q) = Some (ch, ?q)" using Char(1) by (rule utf8_next_head)
    have "0x80 \<le> byte b" using high ch by simp
    moreover have "utf8_valid (ch @ ?q)" using utf8_valid_step [OF n] q by simp
    ultimately have "string_body out (ch @ ?q) = string_body (out @ ch) ?q"
      using n ch by (simp, intro string_body_char) (auto simp: verdant_defs)
    with high show ?thesis by (simp add: quote_chars_high)
  qed
  with Char.IH [of "out @ ch"] Char(2,5) show ?case by simp
qed

lemma parse_string_quote:
  "utf8_valid s \<Longrightarrow> utf8_valid rest \<Longrightarrow> parse_string (quote s @ rest) = Inr (s, rest)"
  by (simp add: parse_string_def quote_def string_body_quote)

lemma skip_ws_nonws [simp]: "\<not> is_ws c \<Longrightarrow> skip_ws (c # s) = c # s"
  by (simp add: skip_ws_def)

lemma skip_ws_idem [simp]: "skip_ws (skip_ws s) = skip_ws s"
  by (induction s) (simp_all add: skip_ws_def)

lemma parse_value_skip_ws [simp]: "parse_value n (skip_ws s) = parse_value n s"
  by (cases n) simp_all

lemma not_ws [simp]:
  "\<not> is_ws dquote" "\<not> is_ws CHR '':''" "\<not> is_ws CHR '',''" "\<not> is_ws CHR ''{''" "\<not> is_ws CHR ''}''"
  "\<not> is_ws CHR ''[''" "\<not> is_ws CHR '']''" "\<not> is_ws CHR ''t''" "\<not> is_ws CHR ''f''" "\<not> is_ws CHR ''n''"
  "\<not> is_ws CHR ''-''"
  by (simp_all add: is_ws_def verdant_defs)

lemma digit_not_ws: "is_ascii_digit c \<Longrightarrow> \<not> is_ws c"
  by (auto simp: is_ws_def is_ascii_digit_def)

definition field_text :: "string \<times> json \<Rightarrow> string" where
  "field_text p = quote (fst p) @ CHR '':'' # stringify (snd p)"

lemma stringify_object:
  "stringify (JObject m) = CHR ''{'' # comma_join (map field_text m) @ ''}''"
proof -
  have "(\<lambda>(k, v). quote k @ CHR '':'' # stringify v) = field_text"
    by (auto simp: field_text_def)
  then show ?thesis by simp
qed

lemma comma_join_valid: "\<forall>x \<in> set xs. utf8_valid x \<Longrightarrow> utf8_valid (comma_join xs)"
  by (induction xs rule: comma_join.induct) simp_all

lemma stringify_valid: "wf_json v \<Longrightarrow> utf8_valid (stringify v)"
proof (induction v)
  case (JBool b)
  then show ?case by (cases b) (auto intro!: utf8_valid_all_ascii)
next
  case (JNumber raw)
  then show ?case using parse_number_ascii [of raw raw "[]"] by simp
next
  case (JStr s)
  then show ?case by (simp add: quote_valid)
next
  case (JArray xs)
  have "utf8_valid (comma_join (map stringify xs))"
    by (rule comma_join_valid) (use JArray in auto)
  then show ?case by simp
next
  case (JObject m)
  have "utf8_valid (comma_join (map field_text m))"
  proof (rule comma_join_valid, safe)
    fix x assume "x \<in> set (map field_text m)"
    then obtain p where "p \<in> set m" "x = field_text p" by auto
    with JObject show "utf8_valid x"
      by (cases p) (force simp: field_text_def quote_valid)
  qed
  then show ?case by (simp add: stringify_object del: stringify.simps)
qed simp

text \<open>A value parser reads \<open>v\<close> when it takes exactly its text off any text that may follow it.\<close>

definition reads :: "json parser \<Rightarrow> json \<Rightarrow> bool" where
  "reads pv v \<longleftrightarrow> (\<forall>rest. utf8_valid rest \<longrightarrow> number_stop rest \<longrightarrow>
     pv (stringify v @ rest) = Inr (v, rest))"

lemma readsD: "reads pv v \<Longrightarrow> utf8_valid rest \<Longrightarrow> number_stop rest \<Longrightarrow> pv (stringify v @ rest) = Inr (v, rest)"
  by (simp add: reads_def)

lemma number_stop_sep [simp]:
  "number_stop (CHR '','' # s)" "number_stop (CHR ''}'' # s)" "number_stop (CHR '']'' # s)" "number_stop []"
  by (simp_all add: number_stop_def is_ascii_digit_def)

lemma quote_Cons: "quote k @ s = dquote # concat (map quote_char k) @ dquote # s"
  by (simp add: quote_def)

lemma object_loop_field:
  assumes "utf8_valid k" "wf_json v" "reads pv v" "bt_get m k = None" "utf8_valid rest" "number_stop rest"
    and "skip_ws rest = d # r"
  shows "object_loop pv (Suc n) m (field_text (k, v) @ rest) =
    (if d = CHR '','' then object_loop pv n (bt_insert k v m) r
     else if d = CHR ''}'' then Inr (bt_insert k v m, r)
     else Inl (Msg (''expected ',' or '}', got '' @ quoted (u8_as_char d))))"
proof -
  let ?s = "CHR '':'' # stringify v @ rest"
  have "utf8_valid ?s" using assms stringify_valid by simp
  then have "parse_string (quote k @ ?s) = Inr (k, ?s)" using assms(1) by (simp add: parse_string_quote)
  moreover have "skip_ws (quote k @ ?s) = quote k @ ?s" by (simp add: quote_Cons)
  moreover have "pv (stringify v @ rest) = Inr (v, rest)" using assms readsD by blast
  ultimately show ?thesis
    using assms(4,7) by (simp add: field_text_def Let_def) (simp add: quote_Cons)
qed

lemma object_loop_render:
  "kvs \<noteq> [] \<Longrightarrow> length kvs \<le> n \<Longrightarrow> utf8_valid rest \<Longrightarrow>
   \<forall>p \<in> set kvs. utf8_valid (fst p) \<and> wf_json (snd p) \<and> reads pv (snd p) \<Longrightarrow>
   distinct (map fst kvs) \<Longrightarrow> \<forall>p \<in> set kvs. fst p \<notin> bt_dom m \<Longrightarrow>
   object_loop pv n m (comma_join (map field_text kvs) @ CHR ''}'' # rest) =
     Inr (bt.insert_all kvs m, rest)"
proof (induction kvs arbitrary: n m)
  case (Cons p kvs)
  obtain k v where p: "p = (k, v)" by (cases p)
  obtain n' where n: "n = Suc n'" using Cons.prems(2) by (cases n) auto
  have k: "bt_get m k = None" using Cons.prems(6) p by (simp add: bt_get_None_iff)
  have pk: "utf8_valid k" "wf_json v" "reads pv v" using Cons.prems(4) p by simp_all
  show ?case
  proof (cases "kvs = []")
    case True
    with object_loop_field [OF pk k, of "CHR ''}'' # rest"] Cons.prems(3) p n show ?thesis by simp
  next
    case False
    let ?more = "comma_join (map field_text kvs) @ CHR ''}'' # rest"
    have valid: "utf8_valid (comma_join (map field_text kvs))"
      using Cons.prems(4) by (intro comma_join_valid) (auto simp: field_text_def quote_valid stringify_valid)
    from False have "comma_join (map field_text (p # kvs)) @ CHR ''}'' # rest =
        field_text (k, v) @ CHR '','' # ?more"
      by (cases kvs) (simp_all add: p)
    moreover have "utf8_valid (CHR '','' # ?more)" using valid Cons.prems(3) by simp
    ultimately have "object_loop pv n m (comma_join (map field_text (p # kvs)) @ CHR ''}'' # rest) =
        object_loop pv n' (bt_insert k v m) ?more"
      using object_loop_field [OF pk k, of "CHR '','' # ?more"] n by simp
    also have "\<dots> = Inr (bt.insert_all kvs (bt_insert k v m), rest)"
      using Cons.prems p n by (intro Cons.IH [OF False]) force+
    finally show ?thesis by (simp add: p)
  qed
qed simp

lemma array_loop_render:
  "vs \<noteq> [] \<Longrightarrow> length vs \<le> n \<Longrightarrow> utf8_valid rest \<Longrightarrow> \<forall>v \<in> set vs. wf_json v \<and> reads pv v \<Longrightarrow>
   array_loop pv n xs (comma_join (map stringify vs) @ CHR '']'' # rest) = Inr (xs @ vs, rest)"
proof (induction vs arbitrary: n xs)
  case (Cons v vs)
  obtain n' where n: "n = Suc n'" using Cons.prems(2) by (cases n) auto
  have pv: "utf8_valid r \<Longrightarrow> number_stop r \<Longrightarrow> pv (stringify v @ r) = Inr (v, r)" for r
    using Cons.prems(4) readsD by simp
  show ?case
  proof (cases "vs = []")
    case True
    with pv [of "CHR '']'' # rest"] Cons.prems(3) n show ?thesis by simp
  next
    case False
    let ?more = "comma_join (map stringify vs) @ CHR '']'' # rest"
    have "utf8_valid (comma_join (map stringify vs))"
      using Cons.prems(4) by (intro comma_join_valid) (auto simp: stringify_valid)
    then have "utf8_valid (CHR '','' # ?more)" using Cons.prems(3) by simp
    from pv [OF this] False n have
      "array_loop pv n xs (comma_join (map stringify (v # vs)) @ CHR '']'' # rest) =
        array_loop pv n' (xs @ [v]) ?more"
      by (cases vs) (simp_all add: Let_def)
    also have "\<dots> = Inr ((xs @ [v]) @ vs, rest)"
      using Cons.prems n by (intro Cons.IH [OF False]) auto
    finally show ?thesis by simp
  qed
qed simp

lemma comma_join_length: "\<forall>x \<in> set xs. x \<noteq> [] \<Longrightarrow> length xs \<le> length (comma_join xs)"
  by (induction xs rule: comma_join.induct) (auto simp: neq_Nil_conv Suc_le_eq)

lemma field_text_Cons: "field_text p = dquote # tl (field_text p)"
  by (simp add: field_text_def quote_Cons)

lemma parse_object_inner_render:
  assumes "utf8_valid rest" "\<forall>p \<in> set kvs. utf8_valid (fst p) \<and> wf_json (snd p) \<and> reads pv (snd p)"
    and "distinct (map fst kvs)"
  shows "parse_object_inner pv (CHR ''{'' # comma_join (map field_text kvs) @ CHR ''}'' # rest) =
    Inr (bt.insert_all kvs [], rest)"
proof (cases kvs)
  case Nil
  then show ?thesis by (simp add: parse_object_inner_def)
next
  case (Cons p ps)
  let ?s = "comma_join (map field_text kvs) @ CHR ''}'' # rest"
  obtain s where s: "?s = dquote # s"
    using Cons by (cases ps) (simp_all add: field_text_def quote_Cons)
  have ws: "skip_ws (dquote # s) = dquote # s" "dquote \<noteq> CHR ''}''" by (simp_all add: verdant_defs skip_ws_def is_ws_def)
  have "length kvs \<le> length (comma_join (map field_text kvs))"
    using comma_join_length [of "map field_text kvs"] by (auto simp: field_text_def)
  then have "object_loop pv (Suc (length ?s)) [] ?s = Inr (bt.insert_all kvs [], rest)"
    using assms Cons by (intro object_loop_render) auto
  then show ?thesis
    unfolding parse_object_inner_def s using ws by (simp add: expect_byte_def del: object_loop.simps)
qed

lemma parse_array_inner_render:
  assumes "utf8_valid rest" "\<forall>v \<in> set vs. wf_json v \<and> reads pv v"
    and "\<forall>v \<in> set vs. \<exists>c s. stringify v = c # s \<and> \<not> is_ws c \<and> c \<noteq> CHR '']''"
  shows "parse_array_inner pv (CHR ''['' # comma_join (map stringify vs) @ CHR '']'' # rest) =
    Inr (vs, rest)"
proof (cases vs)
  case Nil
  then show ?thesis by (simp add: parse_array_inner_def)
next
  case (Cons v ws)
  let ?s = "comma_join (map stringify vs) @ CHR '']'' # rest"
  obtain c s' where sv: "stringify v = c # s'" and c: "\<not> is_ws c" "c \<noteq> CHR '']''"
    using assms(3) Cons by auto
  obtain s where s: "?s = c # s" using Cons sv by (cases ws) simp_all
  have "\<forall>x \<in> set (map stringify vs). x \<noteq> []" using assms(3) by fastforce
  then have "length vs \<le> length (comma_join (map stringify vs))"
    using comma_join_length [of "map stringify vs"] by simp
  then have "array_loop pv (Suc (length ?s)) [] ?s = Inr ([] @ vs, rest)"
    using assms(1,2) Cons by (intro array_loop_render) simp_all
  moreover have "skip_ws (c # s) = c # s" using c by (simp add: skip_ws_def)
  ultimately show ?thesis
    unfolding parse_array_inner_def s using c by (simp add: expect_byte_def del: array_loop.simps)
qed

lemma insert_all_sorted: "bt_ok (m @ kvs) \<Longrightarrow> bt.insert_all kvs m = m @ kvs"
proof (induction kvs m rule: bt.insert_all.induct)
  case (2 k v kvs m)
  then have "bt_insert k v m = m @ [(k, v)]" by (intro bt_insert_last) (auto simp: bt_ok_append)
  with 2 show ?case by simp
qed simp

lemma bt_ok_distinct: "bt_ok m \<Longrightarrow> distinct (map fst m)"
  by (simp add: bt_ok_def strict_sorted_iff)

text \<open>The first character of a printed value is not white space and closes nothing.\<close>

lemma number_head:
  "parse_number raw = Inr (raw, []) \<Longrightarrow> \<exists>c s. raw = c # s \<and> (c = CHR ''-'' \<or> is_ascii_digit c)"
proof -
  assume *: "parse_number raw = Inr (raw, [])"
  then obtain c s where raw: "raw = c # s" using parse_number_append by (cases raw) auto
  show ?thesis
  proof (cases "c = CHR ''-'' \<or> is_ascii_digit c")
    case False
    with raw * show ?thesis by (simp add: parse_number_def number_sign_def split_digits_def)
  qed (use raw in simp)
qed

lemma stringify_head:
  "wf_json v \<Longrightarrow> \<exists>c s. stringify v = c # s \<and> \<not> is_ws c \<and> c \<noteq> CHR '']''"
proof (cases v)
  case (JBool b)
  then show ?thesis by (cases b) simp_all
next
  case (JNumber raw)
  moreover assume "wf_json v"
  ultimately have "parse_number raw = Inr (raw, [])" by simp
  from number_head [OF this] obtain c s where c: "raw = c # s" "c = CHR ''-'' \<or> is_ascii_digit c" by blast
  then have "\<not> is_ws c" using digit_not_ws by auto
  moreover have "c \<noteq> CHR '']''" using c(2) by (auto simp: is_ascii_digit_def)
  ultimately show ?thesis using JNumber c(1) by simp
qed (simp_all add: quote_def verdant_defs is_ws_def)

lemma parse_literal_self [simp]: "w \<noteq> [] \<Longrightarrow> parse_literal w v (w @ s) = Inr (v, s)"
  by (simp add: parse_literal_def)

lemma reads_stringify:
  "wf_json v \<Longrightarrow> json_depth v \<le> n \<Longrightarrow> reads (parse_value (Suc n)) v"
proof (induction n arbitrary: v rule: less_induct)
  case (less n)
  have sub: "reads (parse_value n) w" if "wf_json w" "Suc (json_depth w) \<le> n" for w
    using less.IH [of "n - 1" w] that by (cases n) auto
  show ?case unfolding reads_def
  proof (intro allI impI)
    fix rest assume rest: "utf8_valid rest" "number_stop rest"
    show "parse_value (Suc n) (stringify v @ rest) = Inr (v, rest)"
    proof (cases v)
      case JNull
      then show ?thesis using parse_literal_self [of "''null''" JNull rest] by (simp add: verdant_defs)
    next
      case (JBool b)
      then show ?thesis
        using parse_literal_self [of "''true''" _ rest] parse_literal_self [of "''false''" _ rest]
        by (cases b) (simp_all add: verdant_defs)
    next
      case (JNumber raw)
      then have raw: "parse_number raw = Inr (raw, [])" using less.prems by simp
      obtain c s where c: "raw = c # s" "c = CHR ''-'' \<or> is_ascii_digit c" using number_head [OF raw] by blast
      have "c \<notin> {CHR ''{'', CHR ''['', dquote, CHR ''t'', CHR ''f'', CHR ''n''}" "\<not> is_ws c"
        using c(2) by (auto simp: verdant_defs is_ascii_digit_def is_ws_def)
      with c JNumber parse_number_app [OF raw rest(2)] show ?thesis by (simp add: Let_def)
    next
      case (JStr s)
      then have "parse_string (quote s @ rest) = Inr (s, rest)"
        using less.prems rest by (simp add: parse_string_quote)
      then show ?thesis by (simp add: JStr quote_Cons) (simp add: verdant_defs)
    next
      case (JArray xs)
      then have "\<forall>x \<in> set xs. wf_json x \<and> Suc (json_depth x) \<le> n"
        using less.prems by (simp add: json_depth_array)
      then have "parse_array_inner (parse_value n) (CHR ''['' # comma_join (map stringify xs) @ CHR '']'' # rest) =
          Inr (xs, rest)"
        using sub stringify_head by (intro parse_array_inner_render rest(1)) blast+
      then show ?thesis by (simp add: JArray)
    next
      case (JObject m)
      then have m: "\<forall>p \<in> set m. utf8_valid (fst p) \<and> wf_json (snd p) \<and> Suc (json_depth (snd p)) \<le> n" "bt_ok m"
        using less.prems by (auto simp: json_depth_object)
      then have "parse_object_inner (parse_value n) (CHR ''{'' # comma_join (map field_text m) @ CHR ''}'' # rest) =
          Inr (bt.insert_all m [], rest)"
        using sub by (intro parse_object_inner_render rest(1) bt_ok_distinct) auto
      moreover have "bt.insert_all m [] = m" using insert_all_sorted [of "[]" m] m(2) by simp
      ultimately show ?thesis by (simp add: JObject stringify_object del: stringify.simps)
    qed
  qed
qed

section \<open>The entry points\<close>

lemma parse_stringify_gen: "wf_json v \<Longrightarrow> json_depth v \<le> max_depth \<Longrightarrow> parse (stringify v) = Inr v"
  using reads_stringify [of v max_depth] readsD [of "parse_value (Suc max_depth)" v "[]"]
  by (simp add: parse_def skip_ws_def [of "[]"] del: parse_value.simps)

lemma parse_wf: "parse s = Inr v \<Longrightarrow> utf8_valid s \<Longrightarrow> wf_json v \<and> json_depth v \<le> max_depth"
  using parse_value_sound [of "Suc max_depth"]
  by (auto simp: parse_def sound_at_def simp del: parse_value.simps)

text \<open>An object text with its members in any order: the shape every \<open>to_json\<close> writes.\<close>

definition object_text :: "(string \<times> json) list \<Rightarrow> string" where
  "object_text kvs = CHR ''{'' # comma_join (map field_text kvs) @ ''}''"

lemma parse_object_text:
  assumes "\<forall>p \<in> set kvs. utf8_valid (fst p) \<and> wf_json (snd p) \<and> json_depth (snd p) < max_depth"
    and "distinct (map fst kvs)"
  shows "parse_object (object_text kvs) = Inr (bt.insert_all kvs [])"
proof -
  have "reads (parse_value max_depth) (snd p)" if "p \<in> set kvs" for p
  proof -
    from assms(1) that have "wf_json (snd p)" "json_depth (snd p) < max_depth" by blast+
    then show ?thesis
      using reads_stringify [of "snd p" "max_depth - 1"]
      by (simp add: max_depth_def eval_nat_numeral del: parse_value.simps)
  qed
  then have "parse_object_inner (parse_value max_depth) (object_text kvs) = Inr (bt.insert_all kvs [], [])"
    using parse_object_inner_render [of "[]" kvs "parse_value max_depth"] assms
    by (simp add: object_text_def)
  then show ?thesis
    by (simp add: parse_object_def parse_def object_text_def skip_ws_def [of "[]"])
qed

lemma parse_string_literal_quote: "utf8_valid s \<Longrightarrow> parse_string_literal (quote s) = Inr s"
  using parse_string_quote [of s "[]"]
  by (simp add: parse_string_literal_def skip_ws_def [of "[]"] quote_def)

text \<open>Keys without a character to escape are written as they are.\<close>

definition plain :: "string \<Rightarrow> bool" where
  "plain s \<longleftrightarrow> list_all (\<lambda>c. c \<noteq> dquote \<and> c \<noteq> backslash \<and> 0x20 \<le> byte c \<and> byte c < 0x80) s"

lemma concat_quote_char_plain: "plain s \<Longrightarrow> concat (map quote_char s) = s"
  by (induction s) (auto simp: plain_def quote_char_def)

lemma field_text_plain: "plain k \<Longrightarrow> field_text (k, v) = dquote # k @ dquote # CHR '':'' # stringify v"
  by (simp add: field_text_def quote_def concat_quote_char_plain)

lemma quote_plain: "plain s \<Longrightarrow> quote s = dquote # s @ [dquote]"
  by (simp add: quote_def concat_quote_char_plain)

lemma plain_utf8: "plain s \<Longrightarrow> utf8_valid s"
  by (intro utf8_valid_all_ascii) (auto simp: plain_def list_all_iff)

lemmas object_text_plain = object_text_def field_text_plain quote_plain plain_def verdant_defs

lemma get_string_simps [simp]:
  "bt_get m k = None \<Longrightarrow> get_string m k = Inl (MissingField k)"
  "bt_get m k = Some (JStr s) \<Longrightarrow> get_string m k = Inr s"
  by (simp_all add: get_string_def)

lemma get_bool_simps [simp]:
  "bt_get m k = None \<Longrightarrow> get_bool m k = Inl (MissingField k)"
  "bt_get m k = Some (JBool b) \<Longrightarrow> get_bool m k = Inr b"
  by (simp_all add: get_bool_def)

lemma reject_unknown_keys_ok: "reject_unknown_keys ks allowed = Inr () \<longleftrightarrow> set ks \<subseteq> set allowed"
  by (induction ks) auto

lemma reject_unknown_ok [simp]: "bt_dom m \<subseteq> set allowed \<Longrightarrow> reject_unknown m allowed = Inr ()"
  by (simp add: reject_unknown_def reject_unknown_keys_ok bt_keys_def bt_dom_def)

lemma reject_unknown_eq_Inr: "reject_unknown m allowed = Inr u \<longleftrightarrow> bt_dom m \<subseteq> set allowed"
  by (cases u) (simp add: reject_unknown_def reject_unknown_keys_ok bt_keys_def bt_dom_def)

lemma get_string_eq_Inr: "get_string m k = Inr s \<longleftrightarrow> bt_get m k = Some (JStr s)"
  by (auto simp: get_string_def split: option.splits json.splits)

lemma parse_object_bind [simp]:
  assumes "\<forall>p \<in> set kvs. utf8_valid (fst p) \<and> wf_json (snd p) \<and> json_depth (snd p) < max_depth"
    and "distinct (map fst kvs)"
  shows "and_then (parse_object (object_text kvs)) k = k (bt.insert_all kvs [])"
  using parse_object_text [OF assms] by simp

end
