(* ===== verification/Ids.thy ===== *)
theory Ids
  imports Json_Facts
begin

text \<open>
  Identities and scopes: \<open>src/src/domain/ids.rs\<close> and \<open>src/src/domain/scope.rs\<close>. The newtypes that
  \<open>define_id!\<close> generates differ in the kind their errors name; each holds its validated text.
\<close>

section \<open>Identities\<close>

definition max_id_len :: nat where
  "max_id_len = 128"

definition id_char :: "char \<Rightarrow> bool" where
  "id_char c \<longleftrightarrow> is_ascii_alphanumeric c \<or> c \<in> {CHR ''-'', CHR ''_'', CHR ''.'', CHR '':'', CHR ''/''}"

definition validate :: "string \<Rightarrow> string \<Rightarrow> error + unit" where
  "validate kind raw =
     (if raw = [] then Inl (Empty kind)
      else if length raw > max_id_len then Inl (TooLong kind (length raw) max_id_len)
      else if \<not> list_all id_char raw then Inl (BadChars kind raw)
      else Inr ())"

definition from_json_string :: "string \<Rightarrow> string \<Rightarrow> (string \<Rightarrow> error + unit) \<Rightarrow> error + string" where
  "from_json_string kind text prs =
     and_then (map_err (\<lambda>e. Json (kind @ '' id: '' @ error_display e)) (parse_string_literal text))
       (\<lambda>raw. and_then (prs raw) (\<lambda>_. Inr raw))"

definition id_parse :: "string \<Rightarrow> string \<Rightarrow> error + string" where
  "id_parse kind raw = and_then (validate kind raw) (\<lambda>_. Inr raw)"

definition id_to_json :: "string \<Rightarrow> string" where
  "id_to_json raw = quote raw"

definition id_from_json :: "string \<Rightarrow> string \<Rightarrow> error + string" where
  "id_from_json kind text = from_json_string kind text (validate kind)"

type_synonym installed_id = string
type_synonym operation_id = string
type_synonym source_generation_id = string
type_synonym acquisition_stream_id = string
type_synonym scope_id = string

definition installed_id_kind :: string where "installed_id_kind = ''installed-id''"
definition operation_id_kind :: string where "operation_id_kind = ''operation-id''"
definition source_generation_id_kind :: string where "source_generation_id_kind = ''source-generation-id''"
definition acquisition_stream_id_kind :: string where "acquisition_stream_id_kind = ''acquisition-stream-id''"
definition rule_activation_id_kind :: string where "rule_activation_id_kind = ''rule-activation-id''"
definition scope_id_kind :: string where "scope_id_kind = ''scope-id''"

text \<open>What validation admits.\<close>

definition id_ok :: "string \<Rightarrow> bool" where
  "id_ok raw \<longleftrightarrow> raw \<noteq> [] \<and> length raw \<le> max_id_len \<and> list_all id_char raw"

lemma validate_ok: "validate kind raw = Inr u \<longleftrightarrow> id_ok raw"
  by (auto simp: validate_def id_ok_def)

lemma id_parse_eq_Inr [simp]: "id_parse kind raw = Inr s \<longleftrightarrow> s = raw \<and> id_ok raw"
  by (auto simp: id_parse_def validate_ok)

lemma id_parse_id_ok [simp]: "id_ok raw \<Longrightarrow> id_parse kind raw = Inr raw"
  by simp

lemma id_char_ascii: "id_char c \<Longrightarrow> byte c < 0x80"
  by (auto simp: id_char_def is_ascii_alphanumeric_def is_ascii_digit_def)

lemma id_ok_utf8 [simp]: "id_ok s \<Longrightarrow> utf8_valid s"
  by (intro utf8_valid_all_ascii) (auto simp: id_ok_def list_all_iff id_char_ascii)

section \<open>Binding revisions\<close>

type_synonym binding_revision = u32

definition binding_revision_to_json :: "binding_revision \<Rightarrow> string" where
  "binding_revision_to_json r = quote (show_word r)"

definition binding_revision_from_json :: "string \<Rightarrow> error + binding_revision" where
  "binding_revision_from_json text =
     and_then (map_err (\<lambda>e. Json (''binding-revision: '' @ error_display e)) (parse_string_literal text))
       (\<lambda>raw. ok_or (InvalidValue ''binding-revision'' raw) (parse_u32 raw))"

section \<open>Scopes and ceilings\<close>

record trusted_scope =
  scope_text :: scope_id

definition trusted_scope_parse :: "string \<Rightarrow> error + trusted_scope" where
  "trusted_scope_parse raw = map_ok (\<lambda>s. \<lparr>scope_text = s\<rparr>) (id_parse scope_id_kind raw)"

definition trusted_scope_to_json :: "trusted_scope \<Rightarrow> string" where
  \<open>trusted_scope_to_json s = ''{"scope":'' @ quote (scope_text s) @ ''}''\<close>

definition trusted_scope_from_json :: "string \<Rightarrow> error + trusted_scope" where
  "trusted_scope_from_json text =
     and_then (parse_object text) (\<lambda>fields.
     and_then (reject_unknown fields [''scope'']) (\<lambda>_.
     and_then (get_string fields ''scope'') (\<lambda>raw. trusted_scope_parse raw)))"

definition max_ceiling_level :: u8 where
  "max_ceiling_level = 3"

record credential_ceiling =
  ceiling_scope :: trusted_scope
  ceiling_level :: u8

definition credential_ceiling_new :: "trusted_scope \<Rightarrow> u8 \<Rightarrow> error + credential_ceiling" where
  "credential_ceiling_new scope level =
     (if level > max_ceiling_level then Inl (InvalidValue ''credential-ceiling'' (show_word level))
      else Inr \<lparr>ceiling_scope = scope, ceiling_level = level\<rparr>)"

definition credential_ceiling_to_json :: "credential_ceiling \<Rightarrow> string" where
  \<open>credential_ceiling_to_json c =
     ''{"scope":'' @ quote (scope_text (ceiling_scope c)) @
     '',"ceiling":'' @ quote (show_word (ceiling_level c)) @ ''}''\<close>

definition credential_ceiling_from_json :: "string \<Rightarrow> error + credential_ceiling" where
  "credential_ceiling_from_json text =
     and_then (parse_object text) (\<lambda>fields.
     and_then (reject_unknown fields [''scope'', ''ceiling'']) (\<lambda>_.
     and_then (get_string fields ''scope'') (\<lambda>scope_raw.
     and_then (get_string fields ''ceiling'') (\<lambda>level_raw.
     and_then (trusted_scope_parse scope_raw) (\<lambda>scope.
     and_then (ok_or (InvalidValue ''credential-ceiling'' level_raw) (parse_u8 level_raw)) (\<lambda>level.
       credential_ceiling_new scope level))))))"

definition trusted_scope_ok :: "trusted_scope \<Rightarrow> bool" where
  "trusted_scope_ok s \<longleftrightarrow> id_ok (scope_text s)"

definition credential_ceiling_ok :: "credential_ceiling \<Rightarrow> bool" where
  "credential_ceiling_ok c \<longleftrightarrow> trusted_scope_ok (ceiling_scope c) \<and> ceiling_level c \<le> max_ceiling_level"

lemma trusted_scope_parse_ok: "trusted_scope_parse raw = Inr s \<longleftrightarrow> s = \<lparr>scope_text = raw\<rparr> \<and> id_ok raw"
  by (auto simp: trusted_scope_parse_def)

lemma credential_ceiling_new_ok:
  "trusted_scope_ok s \<Longrightarrow> credential_ceiling_new s l = Inr c \<Longrightarrow> credential_ceiling_ok c"
  by (auto simp: credential_ceiling_new_def credential_ceiling_ok_def split: if_splits)

lemma id_round_trip_gen: "id_ok s \<Longrightarrow> id_from_json kind (id_to_json s) = Inr s"
  by (simp add: id_from_json_def id_to_json_def from_json_string_def parse_string_literal_quote validate_ok)

lemma id_from_json_ok: "id_from_json kind text = Inr s \<Longrightarrow> id_ok s"
  by (auto simp: id_from_json_def from_json_string_def validate_ok)

lemma binding_revision_round_trip: "binding_revision_from_json (binding_revision_to_json r) = Inr r"
  by (simp add: binding_revision_from_json_def binding_revision_to_json_def parse_string_literal_quote)

lemma trusted_scope_text:
  "trusted_scope_to_json s = object_text [(''scope'', JStr (scope_text s))]"
  by (simp add: trusted_scope_to_json_def object_text_plain)

lemma trusted_scope_round_trip:
  "trusted_scope_ok s \<Longrightarrow> trusted_scope_from_json (trusted_scope_to_json s) = Inr s"
  by (simp add: trusted_scope_from_json_def trusted_scope_text trusted_scope_ok_def max_depth_def
      trusted_scope_parse_ok plain_utf8 plain_def verdant_defs)

lemma credential_ceiling_text:
  "credential_ceiling_to_json c = object_text
     [(''scope'', JStr (scope_text (ceiling_scope c))), (''ceiling'', JStr (show_word (ceiling_level c)))]"
  by (simp add: credential_ceiling_to_json_def object_text_plain)

lemma credential_ceiling_round_trip:
  assumes "credential_ceiling_ok c"
  shows "credential_ceiling_from_json (credential_ceiling_to_json c) = Inr c"
proof -
  have "trusted_scope_parse (scope_text (ceiling_scope c)) = Inr (ceiling_scope c)"
    using assms by (simp add: trusted_scope_parse_ok credential_ceiling_ok_def trusted_scope_ok_def)
  with assms show ?thesis
    by (simp add: credential_ceiling_from_json_def credential_ceiling_text max_depth_def plain_utf8 plain_def
      verdant_defs credential_ceiling_new_def credential_ceiling_ok_def trusted_scope_ok_def leD)
qed

lemma credential_ceiling_from_json_ok:
  "credential_ceiling_from_json text = Inr c \<Longrightarrow> credential_ceiling_ok c"
  by (auto simp: credential_ceiling_from_json_def trusted_scope_parse_ok trusted_scope_ok_def
      dest!: credential_ceiling_new_ok [rotated])

end
