(* ===== verification/Values.thy ===== *)
theory Values
  imports Ids
begin

text \<open>
  Semantic values: \<open>src/src/domain/values.rs\<close>. Decimals keep their text, units and modes keep a
  vocabulary the code does not know as it came, and an absent or impossible reading is a value of
  its own, never a number.
\<close>

section \<open>Decimals\<close>

definition max_decimal_len :: nat where
  "max_decimal_len = 64"

definition strip_minus :: "string \<Rightarrow> string" where
  "strip_minus raw = (case raw of c # r \<Rightarrow> if c = CHR ''-'' then r else raw | [] \<Rightarrow> raw)"

text \<open>\<open>find\<close> with \<open>split_at\<close>: the part before the first dot and, if there is one, the part after it.\<close>

definition split_dot :: "string \<Rightarrow> string \<times> string option" where
  "split_dot body =
     (let whole = takeWhile (\<lambda>c. c \<noteq> CHR ''.'') body; rest = dropWhile (\<lambda>c. c \<noteq> CHR ''.'') body
      in case rest of [] \<Rightarrow> (body, None) | _ # frac \<Rightarrow> (whole, Some frac))"

definition is_decimal_lexical :: "string \<Rightarrow> bool" where
  "is_decimal_lexical raw =
     (let body = strip_minus raw
      in if body = [] then False
         else (case split_dot body of (whole, frac) \<Rightarrow>
           if frac = Some [] then False
           else if whole = [] then False
           else if \<not> list_all is_ascii_digit whole then False
           else if length whole > 1 \<and> hd whole = CHR ''0'' then False
           else (case frac of
                   Some f \<Rightarrow> if f = [] \<or> \<not> list_all is_ascii_digit f then False else True
                 | None \<Rightarrow> True)))"

type_synonym decimal = string

definition decimal_parse :: "string \<Rightarrow> error + decimal" where
  "decimal_parse raw =
     (if raw = [] then Inl (Empty ''decimal'')
      else if length raw > max_decimal_len then Inl (TooLong ''decimal'' (length raw) max_decimal_len)
      else if \<not> is_decimal_lexical raw then Inl (InvalidValue ''decimal'' raw)
      else Inr raw)"

section \<open>Diagnostics\<close>

datatype diagnostic = PositiveInfinity | NegativeInfinity | NotANumber | Invalid string

fun diagnostic_kind :: "diagnostic \<Rightarrow> string" where
  "diagnostic_kind PositiveInfinity = ''+inf''"
| "diagnostic_kind NegativeInfinity = ''-inf''"
| "diagnostic_kind NotANumber = ''nan''"
| "diagnostic_kind (Invalid _) = ''invalid''"

fun diagnostic_detail :: "diagnostic \<Rightarrow> string" where
  "diagnostic_detail (Invalid detail) = detail"
| "diagnostic_detail _ = []"

definition diagnostic_from_parts :: "string \<Rightarrow> string option \<Rightarrow> error + diagnostic" where
  "diagnostic_from_parts kind detail =
     (if kind = ''+inf'' then Inr PositiveInfinity
      else if kind = ''-inf'' then Inr NegativeInfinity
      else if kind = ''nan'' then Inr NotANumber
      else if kind = ''invalid'' then Inr (Invalid (case detail of None \<Rightarrow> [] | Some d \<Rightarrow> d))
      else Inl (UnexpectedType ''+inf/-inf/nan/invalid'' kind))"

section \<open>Units\<close>

datatype known_unit = DegC | Percent | Pascal | LitresPerSecond

definition known_unit_parse :: "string \<Rightarrow> known_unit option" where
  "known_unit_parse raw =
     (if raw = ''degC'' then Some DegC
      else if raw = ''percent'' then Some Percent
      else if raw = ''Pa'' then Some Pascal
      else if raw = ''L/s'' then Some LitresPerSecond
      else None)"

datatype unit_of_measure = Known known_unit | UnknownUnit string

definition unit_parse :: "string \<Rightarrow> error + unit_of_measure" where
  "unit_parse raw =
     (if raw = [] then Inl (Empty ''unit'')
      else if length raw > 128 then Inl (TooLong ''unit'' (length raw) 128)
      else (case known_unit_parse raw of
              Some known \<Rightarrow> Inr (Known known)
            | None \<Rightarrow> Inr (UnknownUnit raw)))"

fun unit_as_str :: "unit_of_measure \<Rightarrow> string" where
  "unit_as_str (Known DegC) = ''degC''"
| "unit_as_str (Known Percent) = ''percent''"
| "unit_as_str (Known Pascal) = ''Pa''"
| "unit_as_str (Known LitresPerSecond) = ''L/s''"
| "unit_as_str (UnknownUnit raw) = raw"

definition unit_to_json :: "unit_of_measure \<Rightarrow> string" where
  "unit_to_json u = quote (unit_as_str u)"

definition unit_from_json :: "string \<Rightarrow> error + unit_of_measure" where
  "unit_from_json text =
     and_then (map_err (\<lambda>e. Json (''unit: '' @ error_display e)) (parse_string_literal text)) unit_parse"

section \<open>Operating modes\<close>

datatype op_mode = Occupied | Unoccupied | Standby | UnknownMode string

definition op_mode_parse :: "string \<Rightarrow> error + op_mode" where
  "op_mode_parse raw =
     (if raw = [] then Inl (Empty ''mode'')
      else if length raw > 128 then Inl (TooLong ''mode'' (length raw) 128)
      else if raw = ''occupied'' then Inr Occupied
      else if raw = ''unoccupied'' then Inr Unoccupied
      else if raw = ''standby'' then Inr Standby
      else Inr (UnknownMode raw))"

fun op_mode_as_str :: "op_mode \<Rightarrow> string" where
  "op_mode_as_str Occupied = ''occupied''"
| "op_mode_as_str Unoccupied = ''unoccupied''"
| "op_mode_as_str Standby = ''standby''"
| "op_mode_as_str (UnknownMode raw) = raw"

definition op_mode_to_json :: "op_mode \<Rightarrow> string" where
  "op_mode_to_json m = quote (op_mode_as_str m)"

definition op_mode_from_json :: "string \<Rightarrow> error + op_mode" where
  "op_mode_from_json text =
     and_then (map_err (\<lambda>e. Json (''mode: '' @ error_display e)) (parse_string_literal text)) op_mode_parse"

section \<open>Values\<close>

datatype val =
    Missing
  | VBool bool
  | Integer int
  | VDecimal decimal
  | VText string
  | Mode op_mode
  | Diag diagnostic

definition value_to_json :: "val \<Rightarrow> string" where
  \<open>value_to_json v =
     (case v of
        Missing \<Rightarrow> ''{"type":"missing"}''
      | VBool b \<Rightarrow> ''{"type":"bool","value":'' @ (if b then ''true'' else ''false'') @ ''}''
      | Integer n \<Rightarrow> ''{"type":"integer","value":'' @ quote (show_int n) @ ''}''
      | VDecimal d \<Rightarrow> ''{"type":"decimal","value":'' @ quote d @ ''}''
      | VText s \<Rightarrow> ''{"type":"text","value":'' @ quote s @ ''}''
      | Mode m \<Rightarrow> ''{"type":"mode","value":'' @ quote (op_mode_as_str m) @ ''}''
      | Diag d \<Rightarrow>
          (case d of
             Invalid detail \<Rightarrow> ''{"type":"diagnostic","kind":"invalid","detail":'' @ quote detail @ ''}''
           | _ \<Rightarrow> ''{"type":"diagnostic","kind":'' @ quote (diagnostic_kind d) @ ''}''))\<close>

definition value_from_json :: "string \<Rightarrow> error + val" where
  "value_from_json text =
     and_then (parse_object text) (\<lambda>fields.
     and_then (get_string fields ''type'') (\<lambda>kind.
       if kind = ''missing'' then
         and_then (reject_unknown fields [''type'']) (\<lambda>_. Inr Missing)
       else if kind = ''bool'' then
         and_then (reject_unknown fields [''type'', ''value'']) (\<lambda>_.
         and_then (get_bool fields ''value'') (\<lambda>b. Inr (VBool b)))
       else if kind = ''integer'' then
         and_then (reject_unknown fields [''type'', ''value'']) (\<lambda>_.
         and_then (get_string fields ''value'') (\<lambda>raw.
           map_ok Integer (ok_or (InvalidValue ''integer'' raw) (parse_i128 raw))))
       else if kind = ''decimal'' then
         and_then (reject_unknown fields [''type'', ''value'']) (\<lambda>_.
         and_then (get_string fields ''value'') (\<lambda>raw. map_ok VDecimal (decimal_parse raw)))
       else if kind = ''text'' then
         and_then (reject_unknown fields [''type'', ''value'']) (\<lambda>_.
         and_then (get_string fields ''value'') (\<lambda>raw. Inr (VText raw)))
       else if kind = ''mode'' then
         and_then (reject_unknown fields [''type'', ''value'']) (\<lambda>_.
         and_then (get_string fields ''value'') (\<lambda>raw. map_ok Mode (op_mode_parse raw)))
       else if kind = ''diagnostic'' then
         and_then (get_string fields ''kind'') (\<lambda>dk.
           if dk = ''invalid'' then
             and_then (reject_unknown fields [''type'', ''kind'', ''detail'']) (\<lambda>_.
             and_then (get_string fields ''detail'') (\<lambda>detail. Inr (Diag (Invalid detail))))
           else if dk \<in> {''+inf'', ''-inf'', ''nan''} then
             and_then (reject_unknown fields [''type'', ''kind'']) (\<lambda>_.
               map_ok Diag (diagnostic_from_parts dk None))
           else Inl (UnexpectedType ''+inf/-inf/nan/invalid'' dk))
       else Inl (UnexpectedType ''missing/bool/integer/decimal/text/mode/diagnostic'' kind)))"

section \<open>Well-formed values and the round trips\<close>

definition decimal_ok :: "decimal \<Rightarrow> bool" where
  "decimal_ok d \<longleftrightarrow> d \<noteq> [] \<and> length d \<le> max_decimal_len \<and> is_decimal_lexical d"

fun unit_ok :: "unit_of_measure \<Rightarrow> bool" where
  "unit_ok (Known _) = True"
| "unit_ok (UnknownUnit raw) \<longleftrightarrow> raw \<noteq> [] \<and> length raw \<le> 128 \<and> known_unit_parse raw = None \<and> utf8_valid raw"

fun op_mode_ok :: "op_mode \<Rightarrow> bool" where
  "op_mode_ok (UnknownMode raw) \<longleftrightarrow> raw \<noteq> [] \<and> length raw \<le> 128 \<and> utf8_valid raw \<and>
     raw \<notin> {''occupied'', ''unoccupied'', ''standby''}"
| "op_mode_ok _ = True"

fun value_ok :: "val \<Rightarrow> bool" where
  "value_ok (Integer n) = in_i128 n"
| "value_ok (VDecimal d) = decimal_ok d"
| "value_ok (VText s) = utf8_valid s"
| "value_ok (Mode m) = op_mode_ok m"
| "value_ok (Diag (Invalid d)) = utf8_valid d"
| "value_ok _ = True"

lemma decimal_parse_ok: "decimal_parse raw = Inr d \<longleftrightarrow> d = raw \<and> decimal_ok raw"
  by (auto simp: decimal_parse_def decimal_ok_def)

lemma unit_parse_ok: "utf8_valid raw \<Longrightarrow> unit_parse raw = Inr u \<Longrightarrow> unit_ok u \<and> unit_as_str u = raw"
  by (auto simp: unit_parse_def known_unit_parse_def split: if_splits)

lemma unit_parse_as_str: "unit_ok u \<Longrightarrow> unit_parse (unit_as_str u) = Inr u"
proof (cases u)
  case (Known k)
  then show ?thesis by (cases k) (simp_all add: unit_parse_def known_unit_parse_def)
qed (auto simp: unit_parse_def)

lemma unit_ok_utf8: "unit_ok u \<Longrightarrow> utf8_valid (unit_as_str u)"
proof (cases u)
  case (Known k)
  then show ?thesis by (cases k) (simp_all add: plain_utf8 plain_def verdant_defs)
qed auto

lemma op_mode_parse_ok: "utf8_valid raw \<Longrightarrow> op_mode_parse raw = Inr m \<Longrightarrow> op_mode_ok m \<and> op_mode_as_str m = raw"
  by (auto simp: op_mode_parse_def split: if_splits)

lemma op_mode_parse_as_str: "op_mode_ok m \<Longrightarrow> op_mode_parse (op_mode_as_str m) = Inr m"
  by (cases m) (auto simp: op_mode_parse_def)

lemma op_mode_ok_utf8: "op_mode_ok m \<Longrightarrow> utf8_valid (op_mode_as_str m)"
  by (cases m) (auto simp: plain_utf8 plain_def verdant_defs)

lemma split_dot_None: "split_dot b = (w, None) \<Longrightarrow> b = w"
  by (simp add: split_dot_def Let_def split: list.splits)

lemma split_dot_Some:
  assumes "split_dot b = (w, Some f)" shows "b = w @ CHR ''.'' # f"
proof (cases "dropWhile (\<lambda>c. c \<noteq> CHR ''.'') b")
  case Nil
  with assms show ?thesis by (simp add: split_dot_def)
next
  case (Cons c cs)
  then have "c = CHR ''.''" using hd_dropWhile [of "\<lambda>c. c \<noteq> CHR ''.''" b] by simp
  with Cons assms show ?thesis
    using takeWhile_dropWhile_id [of "\<lambda>c. c \<noteq> CHR ''.''" b] by (simp add: split_dot_def)
qed

lemma strip_minus_cases: "d = strip_minus d \<or> d = CHR ''-'' # strip_minus d"
  by (cases d) (simp_all add: strip_minus_def)

text \<open>The grammar in one line: an optional minus, digits without a spare zero, an optional fraction.\<close>

lemma is_decimal_lexical_iff:
  "is_decimal_lexical d \<longleftrightarrow>
     (\<exists>w f. split_dot (strip_minus d) = (w, f) \<and> w \<noteq> [] \<and> list_all is_ascii_digit w \<and>
        (length w > 1 \<longrightarrow> hd w \<noteq> CHR ''0'') \<and>
        (case f of None \<Rightarrow> True | Some ds \<Rightarrow> ds \<noteq> [] \<and> list_all is_ascii_digit ds))"
proof (cases "split_dot (strip_minus d)")
  case (Pair w f)
  have "w = []" if "strip_minus d = []" using that Pair by (simp add: split_dot_def)
  with Pair show ?thesis
    by (cases f) (auto simp: is_decimal_lexical_def Let_def)
qed

lemma is_decimal_lexical_ascii:
  assumes "is_decimal_lexical d" shows "utf8_valid d"
proof -
  obtain w f where d: "split_dot (strip_minus d) = (w, f)" "list_all is_ascii_digit w"
      "case f of None \<Rightarrow> True | Some ds \<Rightarrow> list_all is_ascii_digit ds"
    using assms unfolding is_decimal_lexical_iff by (force split: option.splits)
  have "utf8_valid ds" if "list_all is_ascii_digit ds" for ds
    using that by (intro utf8_valid_all_ascii) (auto simp: list_all_iff is_ascii_digit_def)
  with d have "utf8_valid (strip_minus d)"
    by (cases f) (auto dest!: split_dot_None split_dot_Some)
  moreover from this have "utf8_valid (CHR ''-'' # strip_minus d)" by simp
  ultimately show ?thesis using strip_minus_cases [of d] by metis
qed

lemma value_text:
  "value_to_json Missing = object_text [(''type'', JStr ''missing'')]"
  "value_to_json (VBool b) = object_text [(''type'', JStr ''bool''), (''value'', JBool b)]"
  "value_to_json (Integer n) = object_text [(''type'', JStr ''integer''), (''value'', JStr (show_int n))]"
  "value_to_json (VDecimal d) = object_text [(''type'', JStr ''decimal''), (''value'', JStr d)]"
  "value_to_json (VText s) = object_text [(''type'', JStr ''text''), (''value'', JStr s)]"
  "value_to_json (Mode m) = object_text [(''type'', JStr ''mode''), (''value'', JStr (op_mode_as_str m))]"
  "value_to_json (Diag (Invalid s)) =
     object_text [(''type'', JStr ''diagnostic''), (''kind'', JStr ''invalid''), (''detail'', JStr s)]"
  "dg \<in> {PositiveInfinity, NegativeInfinity, NotANumber} \<Longrightarrow>
     value_to_json (Diag dg) = object_text [(''type'', JStr ''diagnostic''), (''kind'', JStr (diagnostic_kind dg))]"
  by (auto simp: value_to_json_def object_text_plain)

lemma value_round_trip_gen: "value_ok v \<Longrightarrow> value_from_json (value_to_json v) = Inr v"
proof (induction v rule: value_ok.induct)
  case (2 d)
  then show ?case by (simp add: value_from_json_def value_text max_depth_def plain_utf8 plain_def verdant_defs
      decimal_parse_def decimal_ok_def is_decimal_lexical_ascii)
next
  case (4 m)
  then show ?case by (simp add: value_from_json_def value_text max_depth_def plain_utf8 plain_def verdant_defs
      op_mode_parse_as_str op_mode_ok_utf8)
qed (simp_all add: value_from_json_def value_text max_depth_def plain_utf8 plain_def verdant_defs
      diagnostic_from_parts_def)

end
