(* ===== verification/Clock.thy ===== *)
theory Clock
  imports Values
begin

text \<open>
  Clock values: \<open>src/src/domain/clock.rs\<close>. Monotonic marks are comparable only within one boot;
  source, receipt and ingestion times must not run backwards.
\<close>

text \<open>\<open>UnixMillis\<close> wraps an \<open>i64\<close>, \<open>BootId\<close> a validated text.\<close>

type_synonym unix_millis = int
type_synonym boot_id = string

definition boot_id_parse :: "string \<Rightarrow> error + boot_id" where
  "boot_id_parse raw =
     (if raw = [] then Inl (Empty ''boot-id'')
      else if length raw > max_id_len then Inl (TooLong ''boot-id'' (length raw) max_id_len)
      else if \<not> list_all id_char raw then Inl (BadChars ''boot-id'' raw)
      else Inr raw)"

record monotonic_mark =
  mark_boot :: boot_id
  mark_nanos :: u64

text \<open>\<open>Duration::from_nanos\<close> is exact: a duration is its nanoseconds.\<close>

definition elapsed_since :: "monotonic_mark \<Rightarrow> monotonic_mark \<Rightarrow> error + u64" where
  "elapsed_since self earlier =
     (if mark_boot self \<noteq> mark_boot earlier
      then Inl (BootMismatch (mark_boot earlier) (mark_boot self))
      else ok_or (ImpossibleElapsed (''end '' @ show_word (mark_nanos self) @ '' is before start '' @
               show_word (mark_nanos earlier) @ '' on boot '' @ quoted (mark_boot self)))
             (checked_sub (mark_nanos self) (mark_nanos earlier)))"

definition mark_to_json :: "monotonic_mark \<Rightarrow> string" where
  \<open>mark_to_json m =
     ''{"boot":'' @ quote (mark_boot m) @ '',"nanos_since_boot":'' @ quote (show_word (mark_nanos m)) @ ''}''\<close>

definition mark_from_json :: "string \<Rightarrow> error + monotonic_mark" where
  "mark_from_json text =
     and_then (parse_object text) (\<lambda>fields.
     and_then (reject_unknown fields [''boot'', ''nanos_since_boot'']) (\<lambda>_.
     and_then (get_string fields ''boot'') (\<lambda>boot_raw.
     and_then (get_string fields ''nanos_since_boot'') (\<lambda>nanos_raw.
     and_then (boot_id_parse boot_raw) (\<lambda>boot.
     and_then (ok_or (InvalidValue ''nanos-since-boot'' nanos_raw) (parse_u64 nanos_raw)) (\<lambda>nanos.
       Inr \<lparr>mark_boot = boot, mark_nanos = nanos\<rparr>))))))"

record time_triple =
  tt_source :: unix_millis
  tt_receipt :: unix_millis
  tt_ingestion :: unix_millis

definition time_triple_new :: "unix_millis \<Rightarrow> unix_millis \<Rightarrow> unix_millis \<Rightarrow> error + time_triple" where
  "time_triple_new source receipt ingestion =
     (if source > receipt
      then Inl (ImpossibleOrder (''receipt '' @ show_int receipt @ '' is before source '' @ show_int source))
      else if receipt > ingestion
      then Inl (ImpossibleOrder (''ingestion '' @ show_int ingestion @ '' is before receipt '' @ show_int receipt))
      else Inr \<lparr>tt_source = source, tt_receipt = receipt, tt_ingestion = ingestion\<rparr>)"

definition time_triple_to_json :: "time_triple \<Rightarrow> string" where
  \<open>time_triple_to_json t =
     ''{"source_ms":'' @ quote (show_int (tt_source t)) @
     '',"receipt_ms":'' @ quote (show_int (tt_receipt t)) @
     '',"ingestion_ms":'' @ quote (show_int (tt_ingestion t)) @ ''}''\<close>

definition parse_millis :: "fields \<Rightarrow> string \<Rightarrow> error + unix_millis" where
  "parse_millis m name =
     and_then (get_string m name) (\<lambda>raw. ok_or (InvalidValue ''unix-millis'' raw) (parse_i64 raw))"

definition time_triple_from_json :: "string \<Rightarrow> error + time_triple" where
  "time_triple_from_json text =
     and_then (parse_object text) (\<lambda>fields.
     and_then (reject_unknown fields [''source_ms'', ''receipt_ms'', ''ingestion_ms'']) (\<lambda>_.
     and_then (parse_millis fields ''source_ms'') (\<lambda>source.
     and_then (parse_millis fields ''receipt_ms'') (\<lambda>receipt.
     and_then (parse_millis fields ''ingestion_ms'') (\<lambda>ingestion.
       time_triple_new source receipt ingestion)))))"

section \<open>Invariants and round trips\<close>

definition mark_ok :: "monotonic_mark \<Rightarrow> bool" where
  "mark_ok m \<longleftrightarrow> id_ok (mark_boot m)"

definition time_triple_ok :: "time_triple \<Rightarrow> bool" where
  "time_triple_ok t \<longleftrightarrow> tt_source t \<le> tt_receipt t \<and> tt_receipt t \<le> tt_ingestion t \<and>
     in_i64 (tt_source t) \<and> in_i64 (tt_receipt t) \<and> in_i64 (tt_ingestion t)"

lemma boot_id_parse_ok [simp]: "boot_id_parse raw = Inr b \<longleftrightarrow> b = raw \<and> id_ok raw"
  by (auto simp: boot_id_parse_def id_ok_def)

lemma boot_id_parse_id_ok [simp]: "id_ok raw \<Longrightarrow> boot_id_parse raw = Inr raw"
  by simp

lemma elapsed_since_ok:
  "elapsed_since m e = Inr d \<longleftrightarrow>
     mark_boot m = mark_boot e \<and> mark_nanos e \<le> mark_nanos m \<and> d = mark_nanos m - mark_nanos e"
  by (auto simp: elapsed_since_def checked_sub_def split: if_splits)

lemma mark_text:
  "mark_to_json m = object_text
     [(''boot'', JStr (mark_boot m)), (''nanos_since_boot'', JStr (show_word (mark_nanos m)))]"
  by (simp add: mark_to_json_def object_text_plain)

lemma mark_round_trip_gen: "mark_ok m \<Longrightarrow> mark_from_json (mark_to_json m) = Inr m"
  by (simp add: mark_from_json_def mark_text mark_ok_def max_depth_def plain_utf8 plain_def verdant_defs)

lemma mark_from_json_ok: "mark_from_json s = Inr m \<Longrightarrow> mark_ok m"
  by (auto simp: mark_from_json_def mark_ok_def)

lemma time_triple_new_eq:
  "time_triple_new s r i = Inr t \<longleftrightarrow> s \<le> r \<and> r \<le> i \<and> t = \<lparr>tt_source = s, tt_receipt = r, tt_ingestion = i\<rparr>"
  by (auto simp: time_triple_new_def split: if_splits)

lemma time_triple_new_ok:
  "time_triple_new s r i = Inr t \<Longrightarrow> in_i64 s \<Longrightarrow> in_i64 r \<Longrightarrow> in_i64 i \<Longrightarrow> time_triple_ok t"
  by (auto simp: time_triple_new_eq time_triple_ok_def)

lemma time_triple_text:
  "time_triple_to_json t = object_text
     [(''source_ms'', JStr (show_int (tt_source t))), (''receipt_ms'', JStr (show_int (tt_receipt t))),
      (''ingestion_ms'', JStr (show_int (tt_ingestion t)))]"
  by (simp add: time_triple_to_json_def object_text_plain)

lemma time_triple_round_trip_gen: "time_triple_ok t \<Longrightarrow> time_triple_from_json (time_triple_to_json t) = Inr t"
  by (simp add: time_triple_from_json_def parse_millis_def time_triple_text time_triple_ok_def max_depth_def
      plain_utf8 plain_def verdant_defs time_triple_new_eq)

lemma time_triple_from_json_ok: "time_triple_from_json s = Inr t \<Longrightarrow> time_triple_ok t"
  by (auto simp: time_triple_from_json_def parse_millis_def dest!: parse_i64_range time_triple_new_ok)

end
