(* ===== verification/Outcomes.thy ===== *)
theory Outcomes
  imports Clock
begin

text \<open>
  Operation outcomes, releases and record identities: \<open>src/src/domain/outcomes.rs\<close>. The four
  outcomes stay apart; an unresolved one is never read as a success or a refusal.
\<close>

datatype operation_outcome =
    Committed operation_id string
  | Refused operation_id string
  | Conflict operation_id string
  | Unresolved operation_id string

fun is_committed :: "operation_outcome \<Rightarrow> bool" where
  "is_committed (Committed _ _) = True"
| "is_committed _ = False"

fun is_refused :: "operation_outcome \<Rightarrow> bool" where
  "is_refused (Refused _ _) = True"
| "is_refused _ = False"

fun is_conflict :: "operation_outcome \<Rightarrow> bool" where
  "is_conflict (Conflict _ _) = True"
| "is_conflict _ = False"

fun is_unresolved :: "operation_outcome \<Rightarrow> bool" where
  "is_unresolved (Unresolved _ _) = True"
| "is_unresolved _ = False"

fun outcome_operation :: "operation_outcome \<Rightarrow> operation_id" where
  "outcome_operation (Committed operation _) = operation"
| "outcome_operation (Refused operation _) = operation"
| "outcome_operation (Conflict operation _) = operation"
| "outcome_operation (Unresolved operation _) = operation"

fun outcome_status :: "operation_outcome \<Rightarrow> string" where
  "outcome_status (Committed _ _) = ''committed''"
| "outcome_status (Refused _ _) = ''refused''"
| "outcome_status (Conflict _ _) = ''conflict''"
| "outcome_status (Unresolved _ _) = ''unresolved''"

definition outcome_to_json :: "operation_outcome \<Rightarrow> string" where
  \<open>outcome_to_json out =
     (let (status, operation, detail) =
        (case out of
           Committed operation detail \<Rightarrow> (''committed'', operation, detail)
         | Refused operation reason \<Rightarrow> (''refused'', operation, reason)
         | Conflict operation detail \<Rightarrow> (''conflict'', operation, detail)
         | Unresolved operation detail \<Rightarrow> (''unresolved'', operation, detail))
      in ''{"status":'' @ quote status @ '',"operation":'' @ quote operation @
         '',"detail":'' @ quote detail @ ''}'')\<close>

definition outcome_from_json :: "string \<Rightarrow> error + operation_outcome" where
  "outcome_from_json text =
     and_then (parse_object text) (\<lambda>fields.
     and_then (reject_unknown fields [''status'', ''operation'', ''detail'']) (\<lambda>_.
     and_then (get_string fields ''status'') (\<lambda>status.
     and_then (get_string fields ''operation'') (\<lambda>operation_raw.
     and_then (get_string fields ''detail'') (\<lambda>detail.
     and_then (id_parse operation_id_kind operation_raw) (\<lambda>operation.
       if status = ''committed'' then Inr (Committed operation detail)
       else if status = ''refused'' then Inr (Refused operation detail)
       else if status = ''conflict'' then Inr (Conflict operation detail)
       else if status = ''unresolved'' then Inr (Unresolved operation detail)
       else Inl (UnexpectedType ''committed/refused/conflict/unresolved'' status)))))))"

record release =
  release_operation :: operation_id
  release_target :: installed_id

definition release_to_json :: "release \<Rightarrow> string" where
  \<open>release_to_json r =
     ''{"operation":'' @ quote (release_operation r) @ '',"target":'' @ quote (release_target r) @ ''}''\<close>

definition release_from_json :: "string \<Rightarrow> error + release" where
  "release_from_json text =
     and_then (parse_object text) (\<lambda>fields.
     and_then (reject_unknown fields [''operation'', ''target'']) (\<lambda>_.
     and_then (get_string fields ''operation'') (\<lambda>operation_raw.
     and_then (get_string fields ''target'') (\<lambda>target_raw.
     and_then (id_parse operation_id_kind operation_raw) (\<lambda>operation.
     and_then (id_parse installed_id_kind target_raw) (\<lambda>target.
       Inr \<lparr>release_operation = operation, release_target = target\<rparr>))))))"

record record_identity =
  ri_generation :: source_generation_id
  ri_seq :: u64

definition is_same_record :: "record_identity \<Rightarrow> record_identity \<Rightarrow> bool" where
  "is_same_record r other \<longleftrightarrow> r = other"

definition record_identity_to_json :: "record_identity \<Rightarrow> string" where
  \<open>record_identity_to_json r =
     ''{"generation":'' @ quote (ri_generation r) @ '',"seq":'' @ quote (show_word (ri_seq r)) @ ''}''\<close>

definition record_identity_from_json :: "string \<Rightarrow> error + record_identity" where
  "record_identity_from_json text =
     and_then (parse_object text) (\<lambda>fields.
     and_then (reject_unknown fields [''generation'', ''seq'']) (\<lambda>_.
     and_then (get_string fields ''generation'') (\<lambda>generation_raw.
     and_then (get_string fields ''seq'') (\<lambda>seq_raw.
     and_then (id_parse source_generation_id_kind generation_raw) (\<lambda>generation.
     and_then (ok_or (InvalidValue ''record-seq'' seq_raw) (parse_u64 seq_raw)) (\<lambda>seq.
       Inr \<lparr>ri_generation = generation, ri_seq = seq\<rparr>))))))"

section \<open>Round trips\<close>

fun outcome_detail :: "operation_outcome \<Rightarrow> string" where
  "outcome_detail (Committed _ d) = d"
| "outcome_detail (Refused _ d) = d"
| "outcome_detail (Conflict _ d) = d"
| "outcome_detail (Unresolved _ d) = d"

definition outcome_ok :: "operation_outcome \<Rightarrow> bool" where
  "outcome_ok out \<longleftrightarrow> id_ok (outcome_operation out) \<and> utf8_valid (outcome_detail out)"

definition release_ok :: "release \<Rightarrow> bool" where
  "release_ok r \<longleftrightarrow> id_ok (release_operation r) \<and> id_ok (release_target r)"

definition record_identity_ok :: "record_identity \<Rightarrow> bool" where
  "record_identity_ok r \<longleftrightarrow> id_ok (ri_generation r)"

lemma outcome_text:
  "outcome_to_json out = object_text [(''status'', JStr (outcome_status out)),
     (''operation'', JStr (outcome_operation out)), (''detail'', JStr (outcome_detail out))]"
  by (cases out) (simp_all add: outcome_to_json_def object_text_plain)

lemma outcome_round_trip_gen: "outcome_ok out \<Longrightarrow> outcome_from_json (outcome_to_json out) = Inr out"
  by (cases out) (simp_all add: outcome_from_json_def outcome_text outcome_ok_def max_depth_def
      plain_utf8 plain_def verdant_defs)

lemma release_text:
  "release_to_json r = object_text
     [(''operation'', JStr (release_operation r)), (''target'', JStr (release_target r))]"
  by (simp add: release_to_json_def object_text_plain)

lemma release_round_trip_gen: "release_ok r \<Longrightarrow> release_from_json (release_to_json r) = Inr r"
  by (simp add: release_from_json_def release_text release_ok_def max_depth_def plain_utf8 plain_def verdant_defs)

lemma record_identity_text:
  "record_identity_to_json r = object_text
     [(''generation'', JStr (ri_generation r)), (''seq'', JStr (show_word (ri_seq r)))]"
  by (simp add: record_identity_to_json_def object_text_plain)

lemma record_identity_round_trip_gen:
  "record_identity_ok r \<Longrightarrow> record_identity_from_json (record_identity_to_json r) = Inr r"
  by (simp add: record_identity_from_json_def record_identity_text record_identity_ok_def max_depth_def
      plain_utf8 plain_def verdant_defs)

end
