(* ===== verification/Storage.thy ===== *)
theory Storage
  imports Outcomes
begin

text \<open>
  The storage vocabulary of \<open>src/src/storage/mod.rs\<close>: the error every storage operation returns,
  the finite bounds of a store and the bounded hand-off queue between its writer and a background
  reader.
\<close>

section \<open>Errors\<close>

datatype storage_error =
    MissingSqlite string
  | SqliteFailure string
  | DurabilityUnavailable string
  | UnwritablePath string string
  | ReadOnlyPath string
  | SpaceExhausted string
  | ValueTooLarge nat nat
  | MaintenanceRequired string
  | StoreConflict string
  | SchemaMismatch u32 string
  | StoreInvalidRecord string
  | StoreInvalidInput string string
  | Busy string
  | TooManyConnections u32
  | TooManyRunningOperations u32
  | DeadlineExceeded u64
  | ExecutionLimit string nat
  | HandoffFull nat
  | Io string string

fun storage_error_code :: "storage_error \<Rightarrow> string" where
  "storage_error_code (MissingSqlite _) = ''missing-sqlite3''"
| "storage_error_code (SqliteFailure _) = ''sqlite-failure''"
| "storage_error_code (DurabilityUnavailable _) = ''durability-unavailable''"
| "storage_error_code (UnwritablePath _ _) = ''unwritable-path''"
| "storage_error_code (ReadOnlyPath _) = ''read-only-path''"
| "storage_error_code (SpaceExhausted _) = ''space-exhausted''"
| "storage_error_code (ValueTooLarge _ _) = ''value-too-large''"
| "storage_error_code (MaintenanceRequired _) = ''maintenance-required''"
| "storage_error_code (StoreConflict _) = ''conflict''"
| "storage_error_code (SchemaMismatch _ _) = ''schema-generation-mismatch''"
| "storage_error_code (StoreInvalidRecord _) = ''invalid-record''"
| "storage_error_code (StoreInvalidInput _ _) = ''invalid-input''"
| "storage_error_code (Busy _) = ''busy''"
| "storage_error_code (TooManyConnections _) = ''too-many-connections''"
| "storage_error_code (TooManyRunningOperations _) = ''too-many-running-operations''"
| "storage_error_code (DeadlineExceeded _) = ''operation-deadline''"
| "storage_error_code (ExecutionLimit _ _) = ''execution-limit''"
| "storage_error_code (HandoffFull _) = ''handoff-full''"
| "storage_error_code (Io _ _) = ''io''"

text \<open>\<open>{n:04}\<close> pads with zeros to four digits.\<close>

definition pad_zeros :: "nat \<Rightarrow> string \<Rightarrow> string" where
  "pad_zeros width s = replicate (width - length s) (CHR ''0'') @ s"

fun storage_error_display :: "storage_error \<Rightarrow> string" where
  "storage_error_display (MissingSqlite detail) = ''sqlite3 unavailable: '' @ detail"
| "storage_error_display (SqliteFailure detail) = ''sqlite failure: '' @ detail"
| "storage_error_display (DurabilityUnavailable detail) = ''required durability unavailable: '' @ detail"
| "storage_error_display (UnwritablePath path reason) =
     ''unwritable database path '' @ quoted path @ '': '' @ reason"
| "storage_error_display (ReadOnlyPath path) =
     ''read-only database directory '' @ quoted path @ '': refusing, not silently dropping''"
| "storage_error_display (SpaceExhausted detail) = ''space budget exhausted: '' @ detail"
| "storage_error_display (ValueTooLarge len mx) =
     ''value payload is '' @ show_nat len @ '' bytes; maximum is '' @ show_nat mx"
| "storage_error_display (MaintenanceRequired detail) = ''maintenance required: '' @ detail"
| "storage_error_display (StoreConflict detail) = ''conflict (zero affected rows is not success): '' @ detail"
| "storage_error_display (SchemaMismatch expected found) =
     ''schema generation mismatch: statements are bound to '' @ pad_zeros 4 (show_word expected) @
     '', found user_version '' @ found"
| "storage_error_display (StoreInvalidRecord detail) = ''stored row is not a valid record: '' @ detail"
| "storage_error_display (StoreInvalidInput what detail) = ''invalid '' @ what @ '': '' @ detail"
| "storage_error_display (Busy detail) = ''database busy past timeout + retries: '' @ detail"
| "storage_error_display (TooManyConnections mx) =
     ''in-process handle budget exhausted (max '' @ show_word mx @ '')''"
| "storage_error_display (TooManyRunningOperations mx) =
     ''running operation budget exhausted (max '' @ show_word mx @ ''); no child spawned''"
| "storage_error_display (DeadlineExceeded timeout_ms) =
     ''operation wall deadline exceeded ('' @ show_word timeout_ms @ '' ms)''"
| "storage_error_display (ExecutionLimit resource mx) =
     ''operation '' @ resource @ '' budget exceeded (max '' @ show_nat mx @ ''); partial result refused''"
| "storage_error_display (HandoffFull capacity) =
     ''bounded handoff full (capacity '' @ show_nat capacity @ ''): announcement refused, not dropped''"
| "storage_error_display (Io path message) = ''io failure at '' @ quoted path @ '': '' @ message"

section \<open>Bounds\<close>

record store_bounds =
  max_value_bytes :: nat
  max_replay_rows :: u32
  max_connections :: u32
  max_running_operations :: u32
  max_input_bytes :: nat
  max_output_bytes :: nat
  max_output_rows :: nat
  max_tasks :: nat
  max_wal_bytes :: u64
  max_db_bytes :: u64
  maintenance_window_secs :: u64

definition store_bounds_tiny :: store_bounds where
  "store_bounds_tiny =
     \<lparr>max_value_bytes = 65536, max_replay_rows = 64, max_connections = 16, max_running_operations = 16,
      max_input_bytes = 8388608, max_output_bytes = 8388608, max_output_rows = 8192, max_tasks = 64,
      max_wal_bytes = 8388608, max_db_bytes = 67108864, maintenance_window_secs = 3600\<rparr>"

section \<open>The bounded hand-off\<close>

text \<open>
  \<open>mpsc::sync_channel(capacity)\<close> holds at most \<open>capacity\<close> items in order. The two halves share the
  channel: the state of both is one record. \<open>ho_open\<close> says that the receiver still exists. A
  capacity of zero is a rendezvous channel: a \<open>try_send\<close> then succeeds only while the receiver
  waits, which it never does before it drains; every announcement is refused.
\<close>

record 'a handoff =
  ho_queue :: "'a list"
  ho_capacity :: nat
  ho_open :: bool
  ho_announced :: nat
  ho_refused :: nat
  ho_delivered :: nat

definition handoff_new :: "nat \<Rightarrow> 'a handoff" where
  "handoff_new capacity =
     \<lparr>ho_queue = [], ho_capacity = capacity, ho_open = True, ho_announced = 0, ho_refused = 0, ho_delivered = 0\<rparr>"

definition announce :: "'a \<Rightarrow> 'a handoff \<Rightarrow> (storage_error + unit) \<times> 'a handoff" where
  "announce x h =
     (if \<not> ho_open h
      then (Inl (StoreInvalidInput ''handoff'' ''background receiver is gone; announcement refused''),
            h\<lparr>ho_refused := ho_refused h + 1\<rparr>)
      else if length (ho_queue h) < ho_capacity h
      then (Inr (), h\<lparr>ho_queue := ho_queue h @ [x], ho_announced := ho_announced h + 1\<rparr>)
      else (Inl (HandoffFull (ho_capacity h)), h\<lparr>ho_refused := ho_refused h + 1\<rparr>))"

text \<open>
  \<open>drain\<close> consumes the receiver and returns only once the sender is gone, with every item the
  channel held in order: it is modelled at that point.
\<close>

definition drain :: "'a handoff \<Rightarrow> 'a list \<times> 'a handoff" where
  "drain h = (ho_queue h,
     h\<lparr>ho_queue := [], ho_open := False, ho_delivered := ho_delivered h + length (ho_queue h)\<rparr>)"

fun announce_all :: "'a list \<Rightarrow> 'a handoff \<Rightarrow> (storage_error + unit) list \<times> 'a handoff" where
  "announce_all [] h = ([], h)"
| "announce_all (x # xs) h =
     (let (r, h1) = announce x h; (rs, h2) = announce_all xs h1 in (r # rs, h2))"

text \<open>Every announcement is delivered, still queued or reported as refused; none is dropped.\<close>

definition handoff_ok :: "'a handoff \<Rightarrow> bool" where
  "handoff_ok h \<longleftrightarrow> length (ho_queue h) \<le> ho_capacity h \<and>
     ho_announced h = ho_delivered h + length (ho_queue h) \<and> (\<not> ho_open h \<longrightarrow> ho_queue h = [])"

lemma handoff_new_ok: "handoff_ok (handoff_new c)"
  by (simp add: handoff_ok_def handoff_new_def)

lemma announce_ok: "announce x h = (r, h') \<Longrightarrow> handoff_ok h \<Longrightarrow> handoff_ok h'"
  by (auto simp: announce_def handoff_ok_def split: if_splits)

lemma drain_ok: "handoff_ok h \<Longrightarrow> handoff_ok (snd (drain h))"
  by (simp add: drain_def handoff_ok_def)

lemma announce_all_account:
  "announce_all xs h = (rs, h') \<Longrightarrow> handoff_ok h \<Longrightarrow> ho_open h \<Longrightarrow>
     handoff_ok h' \<and> ho_open h' \<and> length rs = length xs \<and>
     ho_queue h' = ho_queue h @ map snd (filter (is_ok \<circ> fst) (zip rs xs)) \<and>
     ho_announced h' + ho_refused h' = ho_announced h + ho_refused h + length xs"
proof (induction xs arbitrary: h rs)
  case (Cons x xs)
  obtain r h1 where 1: "announce x h = (r, h1)" by (cases "announce x h")
  obtain rs' where 2: "announce_all xs h1 = (rs', h')" and rs: "rs = r # rs'"
    using Cons.prems(1) 1 by (auto split: prod.splits)
  have h1: "handoff_ok h1" "ho_open h1"
      "ho_queue h1 = ho_queue h @ (if is_ok r then [x] else [])"
      "ho_announced h1 + ho_refused h1 = ho_announced h + ho_refused h + 1"
    using 1 Cons.prems(2,3) announce_ok [OF 1] by (auto simp: announce_def split: if_splits)
  with Cons.IH [OF 2 h1(1,2)] show ?case by (simp add: rs)
qed simp

end
