(* ===== verification/Access_Codec.thy ===== *)
theory Access_Codec
  imports Storage
begin

text \<open>
  The vocabulary of \<open>src/src/access/mod.rs\<close>: named identities, reasons, labels, roles and keys,
  the access error, and the versioned text descriptors in which admission rows are stored.
\<close>

section \<open>Errors\<close>

datatype access_error =
    AlreadyBootstrapped string
  | NotBootstrapped string
  | UnknownCapability string
  | UnknownIssuer string
  | ForgedCredential string
  | ScopeDenied string string
  | CeilingExceeded u8 u8
  | RoleDenied string string
  | RevokedCredential string string
  | StaleGeneration string u32 u32
  | AdministrationDenied
  | PolicyDenied string
  | ExpiredCredential int
  | GenerationOverflow string
  | MutationUnknown operation_id string
  | AnonymousDenied string
  | ListenerRefused string
  | InvalidInput string string
  | InvalidRecord string
  | AccessStore storage_error

fun access_error_code :: "access_error \<Rightarrow> string" where
  "access_error_code (AlreadyBootstrapped _) = ''already-bootstrapped''"
| "access_error_code (NotBootstrapped _) = ''not-bootstrapped''"
| "access_error_code (UnknownCapability _) = ''unknown-capability''"
| "access_error_code (UnknownIssuer _) = ''unknown-issuer''"
| "access_error_code (ForgedCredential _) = ''forged-credential''"
| "access_error_code (ScopeDenied _ _) = ''scope-denied''"
| "access_error_code (CeilingExceeded _ _) = ''ceiling-exceeded''"
| "access_error_code (RoleDenied _ _) = ''role-denied''"
| "access_error_code (RevokedCredential _ _) = ''revoked-credential''"
| "access_error_code (StaleGeneration _ _ _) = ''stale-generation''"
| "access_error_code AdministrationDenied = ''administration-denied''"
| "access_error_code (PolicyDenied _) = ''policy-denied''"
| "access_error_code (ExpiredCredential _) = ''expired-credential''"
| "access_error_code (GenerationOverflow _) = ''generation-overflow''"
| "access_error_code (MutationUnknown _ _) = ''mutation-unknown''"
| "access_error_code (AnonymousDenied _) = ''anonymous-denied''"
| "access_error_code (ListenerRefused _) = ''listener-refused''"
| "access_error_code (InvalidInput _ _) = ''invalid-input''"
| "access_error_code (InvalidRecord _) = ''invalid-record''"
| "access_error_code (AccessStore inner) = storage_error_code inner"

fun access_error_display :: "access_error \<Rightarrow> string" where
  "access_error_display (AlreadyBootstrapped detail) = ''already bootstrapped: '' @ detail"
| "access_error_display (NotBootstrapped detail) = ''not bootstrapped: '' @ detail"
| "access_error_display (UnknownCapability capability) = ''unknown capability '' @ quoted capability"
| "access_error_display (UnknownIssuer issuer) = ''unknown issuer '' @ quoted issuer"
| "access_error_display (ForgedCredential detail) = ''forged credential: '' @ detail"
| "access_error_display (ScopeDenied expected presented) =
     ''scope denied: issued for '' @ quoted expected @ '', presented '' @ quoted presented"
| "access_error_display (CeilingExceeded have required) =
     ''ceiling exceeded: issued level '' @ show_word have @ '', operation requires '' @ show_word required"
| "access_error_display (RoleDenied have required) =
     ''role denied: issued '' @ quoted have @ '', operation requires '' @ quoted required"
| "access_error_display (RevokedCredential capability key) =
     ''revoked credential: capability '' @ quoted capability @ '' key '' @ quoted key @ '' is revoked''"
| "access_error_display (StaleGeneration capability presented current) =
     ''stale generation: capability '' @ quoted capability @ '' presented gen '' @ show_word presented @
     '', current gen '' @ show_word current"
| "access_error_display AdministrationDenied = ''credential has no administrative privilege''"
| "access_error_display (PolicyDenied detail) = ''policy denied: '' @ detail"
| "access_error_display (ExpiredCredential expires_at_ms) = ''credential expired at '' @ show_int expires_at_ms"
| "access_error_display (GenerationOverflow capability) =
     ''capability '' @ quoted capability @ '' generation exhausted''"
| "access_error_display (MutationUnknown operation detail) =
     ''UNKNOWN outcome for '' @ operation @
     ''; reconcile that identity, do not retry as new work: '' @ detail"
| "access_error_display (AnonymousDenied detail) = ''anonymous denied: '' @ detail"
| "access_error_display (ListenerRefused detail) = ''remote listener refused: '' @ detail"
| "access_error_display (InvalidInput what detail) = ''invalid '' @ what @ '': '' @ detail"
| "access_error_display (InvalidRecord detail) = ''invalid admission record: '' @ detail"
| "access_error_display (AccessStore inner) = storage_error_display inner"

section \<open>Named values\<close>

definition access_schema_generation :: u32 where "access_schema_generation = 1"
definition bootstrap_issuer_text :: string where "bootstrap_issuer_text = ''bootstrap-issuer-1''"
definition synthetic_user_text :: string where "synthetic_user_text = ''synthetic-operator-1''"
definition reviewer_cap_text :: string where "reviewer_cap_text = ''reviewer-1''"
definition publisher_cap_text :: string where "publisher_cap_text = ''publisher-1''"
definition reviewer_key_text :: string where "reviewer_key_text = ''key-reviewer-1''"
definition publisher_key_text :: string where "publisher_key_text = ''key-publisher-1''"
definition synthetic_label_text :: string where "synthetic_label_text = ''synthetic''"
definition op_bootstrap_text :: string where "op_bootstrap_text = ''access-bootstrap''"
definition op_issue_text :: string where "op_issue_text = ''access-issue''"
definition op_revoke_text :: string where "op_revoke_text = ''access-revoke''"
definition max_reason_len :: nat where "max_reason_len = 256"
definition max_label_len :: nat where "max_label_len = 128"
definition max_key_len :: nat where "max_key_len = 256"
definition required_review_ceiling :: u8 where "required_review_ceiling = 1"
definition required_publish_ceiling :: u8 where "required_publish_ceiling = 2"

definition validate_token_text :: "string \<Rightarrow> string \<Rightarrow> access_error + unit" where
  "validate_token_text kind raw =
     (if raw = [] then Inl (InvalidInput kind ''value must not be empty'')
      else if length raw > 128
      then Inl (InvalidInput kind (''value is '' @ show_nat (length raw) @ '' chars; maximum is 128''))
      else if \<not> list_all id_char raw
      then Inl (InvalidInput kind (''value has unsupported characters: '' @ quoted raw))
      else Inr ())"

definition access_id_parse :: "string \<Rightarrow> string \<Rightarrow> access_error + string" where
  "access_id_parse kind raw = and_then (validate_token_text kind raw) (\<lambda>_. Inr raw)"

definition capability_name_kind :: string where "capability_name_kind = ''capability-name''"
definition key_id_kind :: string where "key_id_kind = ''key-id''"
definition user_id_kind :: string where "user_id_kind = ''user-id''"
definition issuer_id_kind :: string where "issuer_id_kind = ''issuer-id''"

definition reason_parse :: "string \<Rightarrow> access_error + string" where
  "reason_parse raw =
     (if raw = [] then Inl (InvalidInput ''reason'' ''reason must not be empty'')
      else if length raw > max_reason_len
      then Inl (InvalidInput ''reason'' (''reason is '' @ show_nat (length raw) @ '' chars; maximum is '' @ show_nat max_reason_len))
      else if CHR 0x00 \<in> set raw then Inl (InvalidInput ''reason'' ''reason must not contain NUL'')
      else Inr raw)"

definition display_label_parse :: "string \<Rightarrow> access_error + string" where
  "display_label_parse raw =
     (if raw = [] then Inl (InvalidInput ''label'' ''label must not be empty'')
      else if length raw > max_label_len
      then Inl (InvalidInput ''label'' (''label is '' @ show_nat (length raw) @ '' chars; maximum is '' @ show_nat max_label_len))
      else if CHR 0x00 \<in> set raw then Inl (InvalidInput ''label'' ''label must not contain NUL'')
      else Inr raw)"

datatype role_kind = Reviewer | Publisher

definition role_kind_parse :: "string \<Rightarrow> access_error + role_kind" where
  "role_kind_parse raw =
     (if raw = ''reviewer'' then Inr Reviewer
      else if raw = ''publisher'' then Inr Publisher
      else Inl (InvalidInput ''role'' (''unknown role '' @ quoted raw @ ''; expected reviewer/publisher'')))"

fun role_kind_as_str :: "role_kind \<Rightarrow> string" where
  "role_kind_as_str Reviewer = ''reviewer''"
| "role_kind_as_str Publisher = ''publisher''"

definition synthetic_key_parse :: "string \<Rightarrow> access_error + string" where
  "synthetic_key_parse raw =
     (if raw = [] then Inl (InvalidInput ''key'' ''key must not be empty'')
      else if length raw > max_key_len
      then Inl (InvalidInput ''key'' (''key is '' @ show_nat (length raw) @ '' chars; maximum is '' @ show_nat max_key_len))
      else if take 10 raw \<noteq> ''synthetic-''
      then Inl (InvalidInput ''key'' (''only synthetic test keys (prefix '' @ CHR 0x60 # ''synthetic-'' @ CHR 0x60 # '') are accepted''))
      else Inr raw)"

text \<open>The fingerprint: FNV-1a over the bytes, as sixteen lower-case hexadecimal digits.\<close>

fun fnv1a :: "u64 \<Rightarrow> string \<Rightarrow> u64" where
  "fnv1a h [] = h"
| "fnv1a h (b # bs) = fnv1a ((xor h (of_nat (byte b))) * 0x100000001B3) bs"

fun show_hex :: "nat \<Rightarrow> u64 \<Rightarrow> string" where
  "show_hex 0 n = []"
| "show_hex (Suc w) n = show_hex w (n div 16) @ [hex_digit (unat (n mod 16))]"

definition fingerprint_str :: "string \<Rightarrow> string" where
  "fingerprint_str raw = show_hex 16 (fnv1a 0xCBF29CE484222325 raw)"

definition refuse_remote_listener :: "string option \<Rightarrow> access_error + unit" where
  "refuse_remote_listener bind_addr =
     (case bind_addr of
        None \<Rightarrow> Inr ()
      | Some addr \<Rightarrow>
          Inl (ListenerRefused (''remote listener '' @ quoted addr @ '' is not supported (local-only)'')))"

record credential =
  cred_capability :: string
  cred_key_id :: string
  cred_key :: string

section \<open>Percent encoding\<close>

definition upper_hex_digit :: "nat \<Rightarrow> char" where
  "upper_hex_digit d = (if d < 10 then char_of (48 + d) else char_of (55 + d))"

definition pct_byte :: "char \<Rightarrow> string" where
  "pct_byte b =
     (if b = CHR ''%'' then ''%25''
      else if b = CHR '';'' then ''%3B''
      else if b = CHR ''='' then ''%3D''
      else if b = CHR 0x0A then ''%0A''
      else if b = CHR 0x0D then ''%0D''
      else if b = CHR 0x1F then ''%1F''
      else if 0x20 \<le> byte b \<and> byte b \<le> 0x7E then [b]
      else [CHR ''%'', upper_hex_digit (byte b div 16), upper_hex_digit (byte b mod 16)])"

definition pct_encode :: "string \<Rightarrow> string" where
  "pct_encode raw = concat (map pct_byte raw)"

text \<open>\<open>u8::from_str_radix(_, 16)\<close> on two bytes: digits of either case, or a plus sign and one digit.\<close>

definition radix16_pair :: "char \<Rightarrow> char \<Rightarrow> nat option" where
  "radix16_pair a b =
     (if a = CHR ''+'' then hex_value b
      else case (hex_value a, hex_value b) of
             (Some x, Some y) \<Rightarrow> Some (x * 16 + y)
           | _ \<Rightarrow> None)"

fun pct_bytes :: "string \<Rightarrow> string \<Rightarrow> access_error + string" where
  "pct_bytes raw [] = Inr []"
| "pct_bytes raw (c # s) =
     (if c = CHR ''%'' then
        (case s of
           h # l # r \<Rightarrow>
             if \<not> utf8_valid [h, l]
             then Inl (InvalidRecord (''invalid percent escape in '' @ quoted raw))
             else (case radix16_pair h l of
                     None \<Rightarrow> Inl (InvalidRecord (''invalid percent escape '' @ quoted (CHR ''%'' # [h, l]) @ '' in '' @ quoted raw))
                   | Some b \<Rightarrow> map_ok (\<lambda>out. char_of b # out) (pct_bytes raw r))
         | _ \<Rightarrow> Inl (InvalidRecord (''truncated percent escape in '' @ quoted raw)))
      else map_ok (\<lambda>out. c # out) (pct_bytes raw s))"

definition pct_decode :: "string \<Rightarrow> access_error + string" where
  "pct_decode raw =
     and_then (pct_bytes raw raw) (\<lambda>out.
       if utf8_valid out then Inr out
       else Inl (InvalidRecord (''admission field is not valid UTF-8 in '' @ quoted raw)))"

section \<open>SQL text\<close>

definition sql_quote :: "string \<Rightarrow> string" where
  "sql_quote raw = squote # concat (map (\<lambda>c. if c = squote then [squote, squote] else [c]) raw) @ [squote]"

fun undouble :: "string \<Rightarrow> string" where
  "undouble (a # b # s) = (if a = squote \<and> b = squote then squote # undouble s else a # undouble (b # s))"
| "undouble s = s"

definition unquote_column :: "string \<Rightarrow> access_error + string option" where
  "unquote_column raw =
     (if raw = ''NULL'' then Inr None
      else if 2 \<le> length raw \<and> hd raw = squote \<and> last raw = squote
      then Inr (Some (undouble (butlast (tl raw))))
      else Inl (InvalidRecord (''quoted admission column malformed: '' @ quoted raw)))"

end
