(* ===== verification/Access_Rows.thy ===== *)
theory Access_Rows
  imports Access_Codec
begin

text \<open>
  Admission rows of \<open>src/src/access/mod.rs\<close> and the delegation policy of
  \<open>src/src/access/context.rs\<close>: the three record kinds, their descriptors \<open>k=v;k=v\<close> with
  percent-encoded values, and the decoders that refuse anything out of shape.
\<close>

section \<open>Separated text\<close>

text \<open>\<open>split(c)\<close>: the pieces between the separators, at least one.\<close>

fun split_on :: "char \<Rightarrow> string \<Rightarrow> string list" where
  "split_on c [] = [[]]"
| "split_on c (x # xs) =
     (if x = c then [] # split_on c xs
      else case split_on c xs of p # ps \<Rightarrow> (x # p) # ps | [] \<Rightarrow> [[x]])"

text \<open>\<open>join\<close> of a list of texts.\<close>

fun join_with :: "string \<Rightarrow> string list \<Rightarrow> string" where
  "join_with sep [] = []"
| "join_with sep [p] = p"
| "join_with sep (p # q # ps) = p @ sep @ join_with sep (q # ps)"

fun join_on :: "char \<Rightarrow> string list \<Rightarrow> string" where
  "join_on c [] = []"
| "join_on c [p] = p"
| "join_on c (p # q # ps) = p @ c # join_on c (q # ps)"

section \<open>Policies\<close>

record capability_policy =
  cp_scopes :: "trusted_scope list"
  cp_admin_ceiling :: "u8 option"
  cp_expires :: "int option"

definition policy_entry_only :: "unix_millis option \<Rightarrow> capability_policy" where
  "policy_entry_only expires_at = \<lparr>cp_scopes = [], cp_admin_ceiling = None, cp_expires = expires_at\<rparr>"

definition policy_administrator ::
  "trusted_scope list \<Rightarrow> u8 \<Rightarrow> unix_millis option \<Rightarrow> access_error + capability_policy" where
  "policy_administrator scopes ceiling expires_at =
     (if scopes = [] \<or> length scopes > 16 \<or> ceiling > max_ceiling_level
      then Inl (InvalidInput ''policy'' ''admin policy requires 1..=16 scopes and a bounded ceiling'')
      else if length (remdups (map scope_text scopes)) \<noteq> length scopes
      then Inl (InvalidInput ''policy'' ''duplicate administrative scope'')
      else Inr \<lparr>cp_scopes = scopes, cp_admin_ceiling = Some ceiling, cp_expires = expires_at\<rparr>)"

definition policy_require_live :: "capability_policy \<Rightarrow> int \<Rightarrow> access_error + unit" where
  "policy_require_live p now =
     (case cp_expires p of
        Some end_ms \<Rightarrow> if now \<ge> end_ms then Inl (ExpiredCredential end_ms) else Inr ()
      | None \<Rightarrow> Inr ())"

definition policy_authorize :: "capability_policy \<Rightarrow> credential_ceiling \<Rightarrow> capability_policy \<Rightarrow> access_error + unit" where
  "policy_authorize p bound child =
     and_then (ok_or AdministrationDenied (cp_admin_ceiling p)) (\<lambda>have_level.
       if ceiling_scope bound \<notin> set (cp_scopes p)
       then Inl (ScopeDenied (join_on (CHR '','') (map scope_text (cp_scopes p))) (scope_text (ceiling_scope bound)))
       else if ceiling_level bound > have_level
       then Inl (CeilingExceeded have_level (ceiling_level bound))
       else if (case cp_admin_ceiling child of
                  Some level \<Rightarrow> level > have_level \<or> level > ceiling_level bound
                | None \<Rightarrow> False)
           \<or> list_ex (\<lambda>s. s \<notin> set (cp_scopes p)) (cp_scopes child)
           \<or> (case cp_expires p of
                Some end_ms \<Rightarrow> (case cp_expires child of None \<Rightarrow> True | Some child_end \<Rightarrow> child_end > end_ms)
              | None \<Rightarrow> False)
       then Inl (PolicyDenied ''delegation exceeds administrator policy or requested ceiling'')
       else Inr ())"

section \<open>Rows\<close>

record issue_row =
  ir_cap :: string
  ir_scope :: string
  ir_ceiling :: u8
  ir_role :: string
  ir_key_id :: string
  ir_key_fp :: string
  ir_issuer :: string
  ir_capgen :: u32
  ir_user :: string
  ir_reason :: string
  ir_label :: string
  ir_policy :: capability_policy

record revoke_row =
  rr_cap :: string
  rr_key_id :: string
  rr_capgen :: u32
  rr_issuer :: string
  rr_reason :: string

record bootstrap_row =
  br_user :: string
  br_issuer :: string
  br_reason :: string
  br_generation :: u32

section \<open>Descriptors\<close>

definition part :: "string \<Rightarrow> string \<Rightarrow> string" where
  "part key encoded = key @ CHR ''='' # encoded"

definition or_none :: "string option \<Rightarrow> string" where
  "or_none o' = (case o' of None \<Rightarrow> ''none'' | Some s \<Rightarrow> s)"

definition encode_issue :: "issue_row \<Rightarrow> string" where
  "encode_issue row = join_on (CHR '';'')
     [''v=2'', ''kind=issue'',
      part ''cap'' (pct_encode (ir_cap row)),
      part ''scope'' (pct_encode (ir_scope row)),
      part ''ceiling'' (show_word (ir_ceiling row)),
      part ''role'' (pct_encode (ir_role row)),
      part ''key'' (pct_encode (ir_key_id row)),
      part ''keyfp'' (pct_encode (ir_key_fp row)),
      part ''issuer'' (pct_encode (ir_issuer row)),
      part ''capgen'' (show_word (ir_capgen row)),
      part ''user'' (pct_encode (ir_user row)),
      part ''reason'' (pct_encode (ir_reason row)),
      part ''label'' (pct_encode (ir_label row)),
      part ''admin'' (or_none (map_option show_word (cp_admin_ceiling (ir_policy row)))),
      part ''scopes'' (pct_encode (join_on (CHR '','') (map scope_text (cp_scopes (ir_policy row))))),
      part ''expires'' (or_none (map_option show_int (cp_expires (ir_policy row))))]"

definition encode_revoke :: "revoke_row \<Rightarrow> string" where
  "encode_revoke row = join_on (CHR '';'')
     [''v=2'', ''kind=revoke'',
      part ''cap'' (pct_encode (rr_cap row)),
      part ''key'' (pct_encode (rr_key_id row)),
      part ''capgen'' (show_word (rr_capgen row)),
      part ''issuer'' (pct_encode (rr_issuer row)),
      part ''reason'' (pct_encode (rr_reason row))]"

definition encode_bootstrap :: "bootstrap_row \<Rightarrow> string" where
  "encode_bootstrap row = join_on (CHR '';'')
     [''v=2'', ''kind=bootstrap'',
      part ''user'' (pct_encode (br_user row)),
      part ''issuer'' (pct_encode (br_issuer row)),
      part ''reason'' (pct_encode (br_reason row)),
      part ''generation'' (show_word (br_generation row))]"

type_synonym texts = "(string \<times> string) list"

definition invalid_record :: "string \<Rightarrow> access_error" where
  "invalid_record detail = InvalidRecord detail"

fun split_parts :: "string list \<Rightarrow> texts \<Rightarrow> access_error + texts" where
  "split_parts [] m = Inr m"
| "split_parts (p # ps) m =
     (let key = takeWhile (\<lambda>c. c \<noteq> CHR ''='') p; rest = dropWhile (\<lambda>c. c \<noteq> CHR ''='') p
      in case rest of
           [] \<Rightarrow> Inl (invalid_record (''admission descriptor part without '' @ quoted ''='' @ '': '' @ quoted p))
         | _ # encoded \<Rightarrow>
             if key = [] then Inl (invalid_record ''admission descriptor has an empty key'')
             else and_then (pct_decode encoded) (\<lambda>v.
               if bt_get m key \<noteq> None
               then Inl (invalid_record (''admission descriptor duplicates key '' @ quoted key))
               else split_parts ps (bt_insert key v m)))"

definition split_descriptor :: "string \<Rightarrow> access_error + texts" where
  "split_descriptor raw = split_parts (split_on (CHR '';'') raw) []"

definition require_field :: "texts \<Rightarrow> string \<Rightarrow> access_error + string" where
  "require_field m key =
     ok_or (invalid_record (''admission descriptor missing field '' @ quoted key)) (bt_get m key)"

fun reject_unknown_field_keys :: "string list \<Rightarrow> string list \<Rightarrow> access_error + unit" where
  "reject_unknown_field_keys [] allowed = Inr ()"
| "reject_unknown_field_keys (k # ks) allowed =
     (if k \<in> set allowed then reject_unknown_field_keys ks allowed
      else Inl (invalid_record (''admission descriptor has unexpected field '' @ quoted k)))"

definition reject_unknown_fields :: "texts \<Rightarrow> string list \<Rightarrow> access_error + unit" where
  "reject_unknown_fields m allowed = reject_unknown_field_keys (bt_keys m) allowed"

definition decode_descriptor :: "string \<Rightarrow> access_error + (string \<times> texts)" where
  "decode_descriptor raw =
     and_then (split_descriptor raw) (\<lambda>m.
     and_then (require_field m ''v'') (\<lambda>version.
       if version \<noteq> ''2''
       then Inl (invalid_record (''unsupported admission descriptor version '' @ quoted version))
       else
     and_then (require_field m ''kind'') (\<lambda>kind.
     and_then
       (if kind = ''bootstrap'' then
          reject_unknown_fields m [''v'', ''kind'', ''user'', ''issuer'', ''reason'', ''generation'']
        else if kind = ''issue'' then
          reject_unknown_fields m
            [''v'', ''kind'', ''cap'', ''scope'', ''ceiling'', ''role'', ''key'', ''keyfp'', ''issuer'',
             ''capgen'', ''user'', ''reason'', ''label'', ''admin'', ''scopes'', ''expires'']
        else if kind = ''revoke'' then
          reject_unknown_fields m [''v'', ''kind'', ''cap'', ''key'', ''capgen'', ''issuer'', ''reason'']
        else Inl (invalid_record (''unknown admission kind '' @ quoted kind)))
       (\<lambda>_. Inr (kind, m)))))"

section \<open>Decoding rows\<close>

fun parse_scopes :: "string list \<Rightarrow> access_error + trusted_scope list" where
  "parse_scopes [] = Inr []"
| "parse_scopes (s # ss) =
     and_then (map_err (\<lambda>e. invalid_record (error_display e)) (trusted_scope_parse s)) (\<lambda>t.
     and_then (parse_scopes ss) (\<lambda>ts. Inr (t # ts)))"

definition parse_expires :: "string \<Rightarrow> access_error + int option" where
  "parse_expires expires =
     (if expires = ''none'' then Inr None
      else map_ok Some (ok_or (invalid_record ''invalid expiry'') (parse_i64 expires)))"

definition parse_policy :: "u8 \<Rightarrow> string \<Rightarrow> string \<Rightarrow> int option \<Rightarrow> access_error + capability_policy" where
  "parse_policy ceiling admin scopes expires =
     (if admin = ''none'' then
        (if scopes \<noteq> [] then Inl (invalid_record ''entry-only policy has administrative scopes'')
         else Inr (policy_entry_only expires))
      else
        and_then (ok_or (invalid_record ''invalid administrative ceiling'') (parse_u8 admin)) (\<lambda>level.
          if level > ceiling then Inl (invalid_record ''administrative ceiling exceeds credential ceiling'')
          else and_then (parse_scopes (split_on (CHR '','') scopes)) (\<lambda>ts.
            map_err (\<lambda>e. invalid_record (access_error_display e)) (policy_administrator ts level expires))))"

definition decode_issue :: "texts \<Rightarrow> access_error + issue_row" where
  "decode_issue m =
     and_then (require_field m ''cap'') (\<lambda>cap.
     and_then (require_field m ''scope'') (\<lambda>scope.
     and_then (require_field m ''ceiling'') (\<lambda>ceiling_raw.
     and_then (ok_or (invalid_record (''issue ceiling unreadable: '' @ quoted ceiling_raw)) (parse_u8 ceiling_raw)) (\<lambda>ceiling.
       if ceiling > max_ceiling_level
       then Inl (invalid_record (''issue ceiling '' @ show_word ceiling @ '' exceeds max '' @ show_word max_ceiling_level))
       else
     and_then (map_err (\<lambda>e. invalid_record (''issue scope invalid: '' @ error_display e @ '' ['' @ error_code e @ '']''))
                (trusted_scope_parse scope)) (\<lambda>_.
     and_then (require_field m ''role'') (\<lambda>role.
     and_then (map_err (\<lambda>e. invalid_record (''issue role invalid: '' @ access_error_display e)) (role_kind_parse role)) (\<lambda>_.
     and_then (require_field m ''key'') (\<lambda>key_id.
     and_then (map_err (\<lambda>e. invalid_record (''issue key id: '' @ access_error_display e)) (validate_token_text ''key-id'' key_id)) (\<lambda>_.
     and_then (map_err (\<lambda>e. invalid_record (''issue capability: '' @ access_error_display e)) (access_id_parse capability_name_kind cap)) (\<lambda>_.
     and_then (require_field m ''keyfp'') (\<lambda>key_fp.
       if key_fp = [] \<or> length key_fp > 64 then Inl (invalid_record ''issue key fingerprint has an unexpected shape'')
       else
     and_then (require_field m ''issuer'') (\<lambda>issuer.
     and_then (map_err (\<lambda>e. invalid_record (''issue issuer: '' @ access_error_display e)) (access_id_parse issuer_id_kind issuer)) (\<lambda>_.
     and_then (require_field m ''capgen'') (\<lambda>capgen_raw.
     and_then (ok_or (invalid_record (''issue capgen unreadable: '' @ quoted capgen_raw)) (parse_u32 capgen_raw)) (\<lambda>capgen.
       if capgen = 0 then Inl (invalid_record ''issue capgen must be at least 1'')
       else
     and_then (require_field m ''user'') (\<lambda>user.
     and_then (map_err (\<lambda>e. invalid_record (''issue user: '' @ access_error_display e)) (access_id_parse user_id_kind user)) (\<lambda>_.
     and_then (require_field m ''reason'') (\<lambda>reason.
       if reason = [] then Inl (invalid_record ''issue reason must not be empty'')
       else
     and_then (require_field m ''label'') (\<lambda>label.
       if label = [] then Inl (invalid_record ''issue label must not be empty'')
       else
     and_then (require_field m ''expires'') (\<lambda>expires_raw.
     and_then (parse_expires expires_raw) (\<lambda>expires.
     and_then (require_field m ''admin'') (\<lambda>admin.
     and_then (require_field m ''scopes'') (\<lambda>scopes.
     and_then (parse_policy ceiling admin scopes expires) (\<lambda>policy.
       Inr \<lparr>ir_cap = cap, ir_scope = scope, ir_ceiling = ceiling, ir_role = role, ir_key_id = key_id,
            ir_key_fp = key_fp, ir_issuer = issuer, ir_capgen = capgen, ir_user = user, ir_reason = reason,
            ir_label = label, ir_policy = policy\<rparr>))))))))))))))))))))))))"

definition decode_revoke :: "texts \<Rightarrow> access_error + revoke_row" where
  "decode_revoke m =
     and_then (require_field m ''cap'') (\<lambda>cap.
     and_then (map_err (\<lambda>e. invalid_record (''revoke capability: '' @ access_error_display e)) (access_id_parse capability_name_kind cap)) (\<lambda>_.
     and_then (require_field m ''key'') (\<lambda>key_id.
     and_then (map_err (\<lambda>e. invalid_record (''revoke key id: '' @ access_error_display e)) (validate_token_text ''key-id'' key_id)) (\<lambda>_.
     and_then (require_field m ''capgen'') (\<lambda>capgen_raw.
     and_then (ok_or (invalid_record (''revoke capgen unreadable: '' @ quoted capgen_raw)) (parse_u32 capgen_raw)) (\<lambda>capgen.
       if capgen = 0 then Inl (invalid_record ''revoke capgen must be at least 1'')
       else
     and_then (require_field m ''issuer'') (\<lambda>issuer.
     and_then (map_err (\<lambda>e. invalid_record (''revoke issuer: '' @ access_error_display e)) (access_id_parse issuer_id_kind issuer)) (\<lambda>_.
     and_then (require_field m ''reason'') (\<lambda>reason.
       if reason = [] then Inl (invalid_record ''revoke reason must not be empty'')
       else Inr \<lparr>rr_cap = cap, rr_key_id = key_id, rr_capgen = capgen, rr_issuer = issuer, rr_reason = reason\<rparr>)))))))))"

definition decode_bootstrap :: "texts \<Rightarrow> access_error + bootstrap_row" where
  "decode_bootstrap m =
     and_then (require_field m ''user'') (\<lambda>user.
     and_then (map_err (\<lambda>e. invalid_record (''bootstrap user: '' @ access_error_display e)) (access_id_parse user_id_kind user)) (\<lambda>_.
     and_then (require_field m ''issuer'') (\<lambda>issuer.
     and_then (map_err (\<lambda>e. invalid_record (''bootstrap issuer: '' @ access_error_display e)) (access_id_parse issuer_id_kind issuer)) (\<lambda>_.
     and_then (require_field m ''reason'') (\<lambda>reason.
       if reason = [] then Inl (invalid_record ''bootstrap reason must not be empty'')
       else
     and_then (require_field m ''generation'') (\<lambda>gen_raw.
     and_then (ok_or (invalid_record (''bootstrap generation unreadable: '' @ quoted gen_raw)) (parse_u32 gen_raw)) (\<lambda>generation.
       if generation \<noteq> access_schema_generation
       then Inl (invalid_record (''bootstrap generation '' @ show_word generation @ '' is not '' @ show_word access_schema_generation))
       else Inr \<lparr>br_user = user, br_issuer = issuer, br_reason = reason, br_generation = generation\<rparr>)))))))"

section \<open>Round trips\<close>

text \<open>Percent encoding is undone exactly, and its result holds no separator.\<close>

lemma hex_value_upper [simp]: "d < 16 \<Longrightarrow> hex_value (upper_hex_digit d) = Some d" for d :: nat
  by (auto simp: hex_value_def upper_hex_digit_def is_ascii_digit_def byte_char_of)

lemma upper_hex_digit_plain:
  "d < 16 \<Longrightarrow> upper_hex_digit d \<notin> {CHR ''+'', CHR '';'', CHR ''='', CHR ''%''} \<and> byte (upper_hex_digit d) < 0x80"
  for d :: nat
  by (auto simp: upper_hex_digit_def byte_char_of simp flip: byte_eq_iff)

lemma byte_nibbles: "byte b div 16 < 16" "byte b mod 16 < 16"
  using byte_less_256 [of b] by (simp_all add: less_mult_imp_div_less)

lemma radix16_pair_upper:
  "radix16_pair (upper_hex_digit (byte b div 16)) (upper_hex_digit (byte b mod 16)) = Some (byte b)"
  using byte_nibbles [of b] upper_hex_digit_plain by (simp add: radix16_pair_def)

lemma pct_byte_cases:
  "pct_byte b = [b] \<and> b \<notin> {CHR ''%'', CHR '';'', CHR ''=''} \<and> byte b < 0x80 \<or>
   pct_byte b = [CHR ''%'', upper_hex_digit (byte b div 16), upper_hex_digit (byte b mod 16)]"
proof -
  consider "b = CHR ''%''" | "b = CHR '';''" | "b = CHR ''=''" | "b = CHR 0x0A" | "b = CHR 0x0D" | "b = CHR 0x1F"
    | "b \<notin> {CHR ''%'', CHR '';'', CHR ''='', CHR 0x0A, CHR 0x0D, CHR 0x1F}" by blast
  then show ?thesis
  proof cases
    case 7
    then show ?thesis by (cases "0x20 \<le> byte b \<and> byte b \<le> 0x7E") (simp_all add: pct_byte_def)
  qed (simp_all add: pct_byte_def upper_hex_digit_def, simp_all add: byte_char_of flip: byte_eq_iff)
qed

lemma pct_bytes_byte: "pct_bytes raw (pct_byte b @ s) = map_ok ((#) b) (pct_bytes raw s)"
proof -
  note d = byte_nibbles [of b, THEN upper_hex_digit_plain]
  from d have "utf8_valid [upper_hex_digit (byte b div 16), upper_hex_digit (byte b mod 16)]"
    by (intro utf8_valid_all_ascii) auto
  with pct_byte_cases [of b] show ?thesis
    by (auto simp: radix16_pair_upper)
qed

lemma pct_bytes_encode: "pct_bytes raw (pct_encode s) = Inr s"
  by (induction s) (simp_all add: pct_encode_def pct_bytes_byte)

lemma pct_decode_encode [simp]: "utf8_valid s \<Longrightarrow> pct_decode (pct_encode s) = Inr s"
  by (simp add: pct_decode_def pct_bytes_encode)

lemma pct_encode_clean [simp]: "CHR '';'' \<notin> set (pct_encode s)" "CHR ''='' \<notin> set (pct_encode s)"
proof -
  have "c \<notin> set (pct_byte b)" if "c \<in> {CHR '';'', CHR ''=''}" for b c
    using byte_nibbles [of b, THEN upper_hex_digit_plain] pct_byte_cases [of b] that by auto
  then show "CHR '';'' \<notin> set (pct_encode s)" "CHR ''='' \<notin> set (pct_encode s)"
    by (simp_all add: pct_encode_def)
qed

lemma pct_bytes_plain: "CHR ''%'' \<notin> set s \<Longrightarrow> pct_bytes raw s = Inr s"
  by (induction s) auto

lemma pct_decode_plain: "CHR ''%'' \<notin> set s \<Longrightarrow> utf8_valid s \<Longrightarrow> pct_decode s = Inr s"
  by (simp add: pct_decode_def pct_bytes_plain)

text \<open>Decimal texts hold digits only.\<close>

lemma show_nat_clean [simp]:
  "\<not> is_ascii_digit c \<Longrightarrow> c \<notin> set (show_nat n)"
  using show_nat_digits by blast

lemma show_word_clean [simp]: "\<not> is_ascii_digit c \<Longrightarrow> c \<notin> set (show_word w)"
  by (simp add: show_word_def)

lemma show_int_clean [simp]: "\<not> is_ascii_digit c \<Longrightarrow> c \<noteq> CHR ''-'' \<Longrightarrow> c \<notin> set (show_int i)"
  by (simp add: show_int_def)

lemma separators_not_digits [simp]:
  "\<not> is_ascii_digit CHR '';''" "\<not> is_ascii_digit CHR ''%''" "\<not> is_ascii_digit CHR '',''"
  by (simp_all add: is_ascii_digit_def)

lemma split_on_clean: "c \<notin> set p \<Longrightarrow> split_on c p = [p]"
  by (induction p) auto

lemma split_on_append: "c \<notin> set p \<Longrightarrow> split_on c (p @ c # s) = p # split_on c s"
  by (induction p) auto

lemma split_on_join: "ps \<noteq> [] \<Longrightarrow> \<forall>p \<in> set ps. c \<notin> set p \<Longrightarrow> split_on c (join_on c ps) = ps"
  by (induction c ps rule: join_on.induct) (auto simp: split_on_clean split_on_append)

lemma split_parts_part:
  assumes "CHR ''='' \<notin> set k" "k \<noteq> []" "pct_decode e = Inr v" "bt_get m k = None"
  shows "split_parts (part k e # ps) m = split_parts ps (bt_insert k v m)"
proof -
  have "takeWhile (\<lambda>c. c \<noteq> CHR ''='') (part k e) = k" "dropWhile (\<lambda>c. c \<noteq> CHR ''='') (part k e) = CHR ''='' # e"
    using assms(1) by (auto simp: part_def takeWhile_append dropWhile_append)
  with assms show ?thesis by simp
qed

text \<open>Rows that satisfy the decoders' checks are read back from their descriptors exactly.\<close>

definition token_ok :: "string \<Rightarrow> bool" where
  "token_ok s \<longleftrightarrow> s \<noteq> [] \<and> length s \<le> 128 \<and> list_all id_char s"

definition policy_ok :: "u8 \<Rightarrow> capability_policy \<Rightarrow> bool" where
  "policy_ok ceiling p \<longleftrightarrow>
     (case cp_expires p of None \<Rightarrow> True | Some e \<Rightarrow> in_i64 e) \<and>
     (case cp_admin_ceiling p of
        None \<Rightarrow> cp_scopes p = []
      | Some l \<Rightarrow> l \<le> ceiling \<and> l \<le> max_ceiling_level \<and> cp_scopes p \<noteq> [] \<and> length (cp_scopes p) \<le> 16 \<and>
          distinct (map scope_text (cp_scopes p)) \<and> (\<forall>s \<in> set (cp_scopes p). trusted_scope_ok s))"

definition issue_ok :: "issue_row \<Rightarrow> bool" where
  "issue_ok r \<longleftrightarrow> token_ok (ir_cap r) \<and> id_ok (ir_scope r) \<and> ir_ceiling r \<le> max_ceiling_level \<and>
     is_ok (role_kind_parse (ir_role r)) \<and> token_ok (ir_key_id r) \<and>
     ir_key_fp r \<noteq> [] \<and> length (ir_key_fp r) \<le> 64 \<and> utf8_valid (ir_key_fp r) \<and>
     token_ok (ir_issuer r) \<and> ir_capgen r \<noteq> 0 \<and> token_ok (ir_user r) \<and>
     ir_reason r \<noteq> [] \<and> utf8_valid (ir_reason r) \<and> ir_label r \<noteq> [] \<and> utf8_valid (ir_label r) \<and>
     policy_ok (ir_ceiling r) (ir_policy r)"

definition revoke_ok :: "revoke_row \<Rightarrow> bool" where
  "revoke_ok r \<longleftrightarrow> token_ok (rr_cap r) \<and> token_ok (rr_key_id r) \<and> rr_capgen r \<noteq> 0 \<and> token_ok (rr_issuer r) \<and>
     rr_reason r \<noteq> [] \<and> utf8_valid (rr_reason r)"

definition bootstrap_ok :: "bootstrap_row \<Rightarrow> bool" where
  "bootstrap_ok r \<longleftrightarrow> token_ok (br_user r) \<and> token_ok (br_issuer r) \<and> br_reason r \<noteq> [] \<and>
     utf8_valid (br_reason r) \<and> br_generation r = access_schema_generation"

lemma validate_token_ok [simp]: "validate_token_text kind raw = Inr u \<longleftrightarrow> token_ok raw"
  by (auto simp: validate_token_text_def token_ok_def)

lemma validate_token_token_ok [simp]: "token_ok raw \<Longrightarrow> validate_token_text kind raw = Inr ()"
  by simp

lemma access_id_parse_ok [simp]: "access_id_parse kind raw = Inr s \<longleftrightarrow> s = raw \<and> token_ok raw"
  by (auto simp: access_id_parse_def)

lemma access_id_parse_token_ok [simp]: "token_ok raw \<Longrightarrow> access_id_parse kind raw = Inr raw"
  by simp

lemma token_ok_utf8 [simp]: "token_ok s \<Longrightarrow> utf8_valid s"
  by (intro utf8_valid_all_ascii) (auto simp: token_ok_def list_all_iff id_char_ascii)

lemma require_field_simps [simp]:
  "bt_get m k = Some v \<Longrightarrow> require_field m k = Inr v"
  by (simp add: require_field_def)

lemma reject_unknown_fields_ok [simp]:
  "bt_dom m \<subseteq> set allowed \<Longrightarrow> reject_unknown_fields m allowed = Inr ()"
proof -
  have "set ks \<subseteq> set allowed \<Longrightarrow> reject_unknown_field_keys ks allowed = Inr ()" for ks
    by (induction ks) auto
  moreover assume "bt_dom m \<subseteq> set allowed"
  ultimately show ?thesis by (simp add: reject_unknown_fields_def bt_keys_def bt_dom_def)
qed

text \<open>The descriptor of a list of fields, as the decoders read it.\<close>

definition fields_text :: "(string \<times> string \<times> string) list \<Rightarrow> string" where
  "fields_text kvs = join_on (CHR '';'') (map (\<lambda>(k, e, v). part k e) kvs)"

definition field_ok :: "string \<times> string \<times> string \<Rightarrow> bool" where
  "field_ok = (\<lambda>(k, e, v). k \<noteq> [] \<and> CHR ''='' \<notin> set k \<and> CHR '';'' \<notin> set k \<and> CHR '';'' \<notin> set e \<and> pct_decode e = Inr v)"

lemma split_parts_fields:
  "list_all field_ok kvs \<Longrightarrow> distinct (map fst kvs) \<Longrightarrow> \<forall>k \<in> set (map fst kvs). bt_get m k = None \<Longrightarrow>
   split_parts (map (\<lambda>(k, e, v). part k e) kvs) m = Inr (bt.insert_all (map (\<lambda>(k, e, v). (k, v)) kvs) m)"
proof (induction kvs arbitrary: m)
  case (Cons f kvs)
  obtain k e v where f: "f = (k, e, v)" by (cases f)
  have "split_parts (part k e # map (\<lambda>(k, e, v). part k e) kvs) m =
      split_parts (map (\<lambda>(k, e, v). part k e) kvs) (bt_insert k v m)"
    using Cons.prems by (intro split_parts_part) (auto simp: f field_ok_def)
  also have "\<dots> = Inr (bt.insert_all (map (\<lambda>(k, e, v). (k, v)) kvs) (bt_insert k v m))"
    using Cons.prems by (intro Cons.IH) (auto simp: f)
  finally show ?case by (simp add: f)
qed simp

lemma split_descriptor_fields:
  assumes "kvs \<noteq> []" "list_all field_ok kvs" "distinct (map fst kvs)"
  shows "split_descriptor (fields_text kvs) = Inr (bt.insert_all (map (\<lambda>(k, e, v). (k, v)) kvs) [])"
proof -
  have "\<forall>p \<in> set (map (\<lambda>(k, e, v). part k e) kvs). CHR '';'' \<notin> set p"
    using assms(2) by (fastforce simp: list_all_iff field_ok_def part_def)
  with assms show ?thesis
    by (simp add: split_descriptor_def fields_text_def split_on_join split_parts_fields)
qed

lemma field_ok_encode: "utf8_valid v \<Longrightarrow> k \<noteq> [] \<Longrightarrow> CHR ''='' \<notin> set k \<Longrightarrow> CHR '';'' \<notin> set k \<Longrightarrow> field_ok (k, pct_encode v, v)"
  by (simp add: field_ok_def)

lemma field_ok_plain:
  "utf8_valid v \<Longrightarrow> CHR ''%'' \<notin> set v \<Longrightarrow> CHR '';'' \<notin> set v \<Longrightarrow> k \<noteq> [] \<Longrightarrow> CHR ''='' \<notin> set k \<Longrightarrow> CHR '';'' \<notin> set k \<Longrightarrow>
   field_ok (k, v, v)"
  by (simp add: field_ok_def pct_decode_plain)

lemmas field_rules = field_ok_encode field_ok_plain plain_utf8 plain_def verdant_defs

lemma revoke_descriptor:
  "encode_revoke row = fields_text
     [(''v'', ''2'', ''2''), (''kind'', ''revoke'', ''revoke''), (''cap'', pct_encode (rr_cap row), rr_cap row),
      (''key'', pct_encode (rr_key_id row), rr_key_id row), (''capgen'', show_word (rr_capgen row), show_word (rr_capgen row)),
      (''issuer'', pct_encode (rr_issuer row), rr_issuer row), (''reason'', pct_encode (rr_reason row), rr_reason row)]"
  by (simp add: encode_revoke_def fields_text_def part_def)

lemma revoke_round_trip:
  assumes "revoke_ok row"
  shows "\<exists>m. decode_descriptor (encode_revoke row) = Inr (''revoke'', m) \<and> decode_revoke m = Inr row"
  using assms by (simp add: revoke_descriptor decode_descriptor_def split_descriptor_fields revoke_ok_def field_rules
      decode_revoke_def)

lemma bootstrap_descriptor:
  "encode_bootstrap row = fields_text
     [(''v'', ''2'', ''2''), (''kind'', ''bootstrap'', ''bootstrap''), (''user'', pct_encode (br_user row), br_user row),
      (''issuer'', pct_encode (br_issuer row), br_issuer row), (''reason'', pct_encode (br_reason row), br_reason row),
      (''generation'', show_word (br_generation row), show_word (br_generation row))]"
  by (simp add: encode_bootstrap_def fields_text_def part_def)

lemma bootstrap_round_trip:
  assumes "bootstrap_ok row"
  shows "\<exists>m. decode_descriptor (encode_bootstrap row) = Inr (''bootstrap'', m) \<and> decode_bootstrap m = Inr row"
  using assms by (simp add: bootstrap_descriptor decode_descriptor_def split_descriptor_fields bootstrap_ok_def
      field_rules decode_bootstrap_def)

lemma show_not_none [simp]: "show_word w \<noteq> ''none''" "show_int i \<noteq> ''none''"
proof -
  have n: "\<not> is_ascii_digit CHR ''n''" by (simp add: is_ascii_digit_def)
  then have "CHR ''n'' \<notin> set (show_word w)" "CHR ''n'' \<notin> set (show_int i)" by simp_all
  then show "show_word w \<noteq> ''none''" "show_int i \<noteq> ''none''" by auto
qed

lemma id_char_no_comma: "list_all id_char s \<Longrightarrow> CHR '','' \<notin> set s"
  by (auto simp: list_all_iff id_char_def is_ascii_alphanumeric_def is_ascii_digit_def)

lemma parse_scopes_map: "\<forall>s \<in> set ss. trusted_scope_ok s \<Longrightarrow> parse_scopes (map scope_text ss) = Inr ss"
proof (induction ss)
  case (Cons s ss)
  then have "trusted_scope_parse (scope_text s) = Inr s" by (simp add: trusted_scope_parse_ok trusted_scope_ok_def)
  with Cons show ?case by simp
qed simp

lemma parse_policy_round_trip:
  assumes "policy_ok ceiling p"
  shows "parse_policy ceiling (or_none (map_option show_word (cp_admin_ceiling p)))
    (join_on (CHR '','') (map scope_text (cp_scopes p))) (cp_expires p) = Inr p"
proof (cases "cp_admin_ceiling p")
  case None
  with assms show ?thesis by (simp add: parse_policy_def or_none_def policy_ok_def policy_entry_only_def)
next
  case (Some l)
  with assms have p: "l \<le> ceiling" "l \<le> max_ceiling_level" "cp_scopes p \<noteq> []" "length (cp_scopes p) \<le> 16"
    "distinct (map scope_text (cp_scopes p))" "\<forall>s \<in> set (cp_scopes p). trusted_scope_ok s"
    by (auto simp: policy_ok_def)
  have "\<forall>q \<in> set (map scope_text (cp_scopes p)). CHR '','' \<notin> set q"
    using p(6) by (auto simp: trusted_scope_ok_def id_ok_def dest!: bspec id_char_no_comma)
  then have "parse_scopes (split_on (CHR '','') (join_on (CHR '','') (map scope_text (cp_scopes p)))) = Inr (cp_scopes p)"
    using p by (simp add: split_on_join parse_scopes_map)
  moreover have "policy_administrator (cp_scopes p) l (cp_expires p) = Inr p"
    using p Some by (simp add: policy_administrator_def leD distinct_remdups_id)
  ultimately show ?thesis using p Some by (simp add: parse_policy_def or_none_def leD)
qed

lemma parse_expires_round_trip:
  "policy_ok ceiling p \<Longrightarrow> parse_expires (or_none (map_option show_int (cp_expires p))) = Inr (cp_expires p)"
  by (cases "cp_expires p") (auto simp: parse_expires_def or_none_def policy_ok_def)

lemma join_on_utf8: "byte c < 0x80 \<Longrightarrow> \<forall>p \<in> set ps. utf8_valid p \<Longrightarrow> utf8_valid (join_on c ps)"
  by (induction c ps rule: join_on.induct) auto

lemma policy_ok_utf8: "policy_ok ceiling p \<Longrightarrow> utf8_valid (join_on (CHR '','') (map scope_text (cp_scopes p)))"
  by (intro join_on_utf8) (auto simp: policy_ok_def trusted_scope_ok_def split: option.splits)

lemma or_none_clean [simp]:
  "CHR '';'' \<notin> set (or_none (map_option show_word w))" "CHR ''%'' \<notin> set (or_none (map_option show_word w))"
  "CHR '';'' \<notin> set (or_none (map_option show_int i))" "CHR ''%'' \<notin> set (or_none (map_option show_int i))"
  "utf8_valid (or_none (map_option show_word w))" "utf8_valid (or_none (map_option show_int i))"
  by (auto simp: or_none_def field_rules split: option.splits)

lemma issue_descriptor:
  "encode_issue row = fields_text
     [(''v'', ''2'', ''2''), (''kind'', ''issue'', ''issue''), (''cap'', pct_encode (ir_cap row), ir_cap row),
      (''scope'', pct_encode (ir_scope row), ir_scope row),
      (''ceiling'', show_word (ir_ceiling row), show_word (ir_ceiling row)),
      (''role'', pct_encode (ir_role row), ir_role row), (''key'', pct_encode (ir_key_id row), ir_key_id row),
      (''keyfp'', pct_encode (ir_key_fp row), ir_key_fp row), (''issuer'', pct_encode (ir_issuer row), ir_issuer row),
      (''capgen'', show_word (ir_capgen row), show_word (ir_capgen row)),
      (''user'', pct_encode (ir_user row), ir_user row), (''reason'', pct_encode (ir_reason row), ir_reason row),
      (''label'', pct_encode (ir_label row), ir_label row),
      (''admin'', or_none (map_option show_word (cp_admin_ceiling (ir_policy row))),
         or_none (map_option show_word (cp_admin_ceiling (ir_policy row)))),
      (''scopes'', pct_encode (join_on (CHR '','') (map scope_text (cp_scopes (ir_policy row)))),
         join_on (CHR '','') (map scope_text (cp_scopes (ir_policy row)))),
      (''expires'', or_none (map_option show_int (cp_expires (ir_policy row))),
         or_none (map_option show_int (cp_expires (ir_policy row))))]"
  by (simp add: encode_issue_def fields_text_def part_def)

lemma role_text_utf8: "is_ok (role_kind_parse r) \<Longrightarrow> utf8_valid r"
  by (auto simp: role_kind_parse_def field_rules split: if_splits)

lemma issue_round_trip:
  assumes "issue_ok row"
  shows "\<exists>m. decode_descriptor (encode_issue row) = Inr (''issue'', m) \<and> decode_issue m = Inr row"
proof -
  from assms obtain role where role: "role_kind_parse (ir_role row) = Inr role" by (auto simp: issue_ok_def is_ok_iff)
  from assms have scope: "trusted_scope_parse (ir_scope row) = Inr \<lparr>scope_text = ir_scope row\<rparr>"
    by (simp add: issue_ok_def trusted_scope_parse_ok)
  from assms have policy: "policy_ok (ir_ceiling row) (ir_policy row)" by (simp add: issue_ok_def)
  note pol = parse_policy_round_trip [OF policy] parse_expires_round_trip [OF policy] policy_ok_utf8 [OF policy]
  from assms show ?thesis
    by (simp add: issue_descriptor decode_descriptor_def split_descriptor_fields issue_ok_def field_rules
        role_text_utf8 decode_issue_def role scope pol leD)
qed

text \<open>What the decoders accept satisfies the invariants of the rows.\<close>

lemma decode_issue_ok:
  assumes "decode_issue m = Inr row"
  shows "token_ok (ir_cap row) \<and> token_ok (ir_key_id row) \<and> ir_ceiling row \<le> max_ceiling_level \<and>
    ir_capgen row \<noteq> 0 \<and> id_ok (ir_scope row) \<and> is_ok (role_kind_parse (ir_role row))"
  using assms by (auto simp: decode_issue_def trusted_scope_parse_ok split: if_splits)

end
