(* ===== verification/Framing.thy ===== *)
theory Framing
  imports Access_Rows
begin

text \<open>
  The length-prefixed records of \<open>src/src/accept/codec.rs\<close> and \<open>src/src/seal/codec.rs\<close>: each field is
  its byte length, a colon and its bytes. The two decoders are the same loop under two error types,
  so that they are one function here with the place of the failure as its error. The facts: what
  was framed is read back, and nothing but the framing of the fields is accepted.
\<close>

section \<open>Numbers\<close>

datatype frame_error =
    FrameBytes
  | FrameFields
  | FrameFraming
  | FrameNumber
  | FrameNoncanonical
  | FrameBoundary

text \<open>\<open>number\<close>, at the three types the code uses it: the text must be the one the value prints as.\<close>

definition canonical_number :: "(string \<Rightarrow> 'a option) \<Rightarrow> ('a \<Rightarrow> string) \<Rightarrow> string \<Rightarrow> frame_error + 'a" where
  "canonical_number prs shw raw =
     (case prs raw of
        None \<Rightarrow> Inl FrameNumber
      | Some v \<Rightarrow> if shw v \<noteq> raw then Inl FrameNoncanonical else Inr v)"

definition number_u64 :: "string \<Rightarrow> frame_error + u64" where
  "number_u64 raw = canonical_number parse_u64 show_word raw"

definition number_u32 :: "string \<Rightarrow> frame_error + u32" where
  "number_u32 raw = canonical_number parse_u32 show_word raw"

definition number_i64 :: "string \<Rightarrow> frame_error + int" where
  "number_i64 raw = canonical_number parse_i64 show_int raw"

lemma number_eq_Inr [simp]:
  "number_u64 raw = Inr w \<longleftrightarrow> raw = show_word w"
  "number_u32 raw = Inr v \<longleftrightarrow> raw = show_word v"
  "number_i64 raw = Inr i \<longleftrightarrow> raw = show_int i \<and> in_i64 i"
  by (auto simp: number_u64_def number_u32_def number_i64_def canonical_number_def parse_i64_range
      split: option.splits)

lemma number_show [simp]:
  "number_u64 (show_word w) = Inr w" "number_u32 (show_word v) = Inr v"
  "in_i64 i \<Longrightarrow> number_i64 (show_int i) = Inr i"
  by simp_all

section \<open>Framing\<close>

definition frame :: "string \<Rightarrow> string" where
  "frame s = show_nat (length s) @ CHR '':'' # s"

definition frames_encode :: "string list \<Rightarrow> string" where
  "frames_encode fs = concat (map frame fs)"

text \<open>\<open>str::get(..n)\<close> and \<open>str::get(n..)\<close>: both fail past the end and inside a character.\<close>

definition is_boundary :: "string \<Rightarrow> nat \<Rightarrow> bool" where
  "is_boundary text n \<longleftrightarrow> n = length text \<or> n < length text \<and> \<not> is_cont (text ! n)"

definition str_split :: "string \<Rightarrow> nat \<Rightarrow> (string \<times> string) option" where
  "str_split text n = (if is_boundary text n then Some (take n text, drop n text) else None)"

definition split_colon :: "string \<Rightarrow> (string \<times> string) option" where
  "split_colon s =
     (case dropWhile (\<lambda>c. c \<noteq> CHR '':'') s of
        [] \<Rightarrow> None
      | _ # r \<Rightarrow> Some (takeWhile (\<lambda>c. c \<noteq> CHR '':'') s, r))"

text \<open>One field and the rest of the text.\<close>

definition next_frame :: "string \<Rightarrow> frame_error + string \<times> string" where
  "next_frame rest =
     and_then (ok_or FrameFraming (split_colon rest)) (\<lambda>(len, text).
     and_then (number_u64 len) (\<lambda>count.
       ok_or FrameBoundary (str_split text (unat count))))"

text \<open>The loop, over the number of fields that may still come.\<close>

fun unframe :: "nat \<Rightarrow> string \<Rightarrow> frame_error + string list" where
  "unframe n [] = Inr []"
| "unframe 0 (c # s) = Inl FrameFields"
| "unframe (Suc n) (c # s) =
     and_then (next_frame (c # s)) (\<lambda>(field, rest). map_ok (\<lambda>fs. field # fs) (unframe n rest))"

definition frames_decode :: "string \<Rightarrow> nat \<Rightarrow> nat \<Rightarrow> frame_error + string list" where
  "frames_decode raw max_bytes max_fields =
     (if length raw > max_bytes then Inl FrameBytes else unframe max_fields raw)"

section \<open>What is read is what was written\<close>

lemma split_colon_eq: "split_colon s = Some (a, b) \<longleftrightarrow> s = a @ CHR '':'' # b \<and> CHR '':'' \<notin> set a"
proof
  assume "split_colon s = Some (a, b)"
  then obtain c where d: "dropWhile (\<lambda>c. c \<noteq> CHR '':'') s = c # b" "a = takeWhile (\<lambda>c. c \<noteq> CHR '':'') s"
    by (auto simp: split_colon_def split: list.splits)
  then have "c = CHR '':''" using hd_dropWhile [of "\<lambda>c. c \<noteq> CHR '':''" s] by simp
  with d show "s = a @ CHR '':'' # b \<and> CHR '':'' \<notin> set a"
    using takeWhile_dropWhile_id [of "\<lambda>c. c \<noteq> CHR '':''" s] by (auto dest: set_takeWhileD)
next
  assume a: "s = a @ CHR '':'' # b \<and> CHR '':'' \<notin> set a"
  then have "\<forall>x \<in> set a. x \<noteq> CHR '':''" by auto
  with a have "dropWhile (\<lambda>c. c \<noteq> CHR '':'') s = CHR '':'' # b" "takeWhile (\<lambda>c. c \<noteq> CHR '':'') s = a"
    by (simp_all add: dropWhile_append2 takeWhile_append2)
  then show "split_colon s = Some (a, b)" by (simp add: split_colon_def)
qed

lemma show_nat_no_colon: "CHR '':'' \<notin> set (show_nat n)"
  using show_nat_digits [of n] by (auto simp: is_ascii_digit_def)

lemma split_colon_frame: "split_colon (show_nat n @ CHR '':'' # s) = Some (show_nat n, s)"
  by (simp add: split_colon_eq show_nat_no_colon)

text \<open>Only the framing of the field is read as the field.\<close>

lemma next_frame_sound: "next_frame s = Inr (f, r) \<Longrightarrow> s = frame f @ r"
  by (auto simp: next_frame_def split_colon_eq str_split_def is_boundary_def frame_def show_word_def
      split: if_splits)

lemma unframe_sound: "unframe n s = Inr fs \<Longrightarrow> s = frames_encode fs \<and> length fs \<le> n"
proof (induction n s arbitrary: fs rule: unframe.induct)
  case (3 n c s)
  then obtain f r gs where f: "next_frame (c # s) = Inr (f, r)" "unframe n r = Inr gs" "fs = f # gs"
    by auto
  with "3.IH" [OF f(2)] have "r = frames_encode gs" "length gs \<le> n" by auto
  with f next_frame_sound [OF f(1)] show ?case by (simp add: frames_encode_def)
qed (auto simp: frames_encode_def)

text \<open>A field of valid text ends on a character boundary, whatever well-formed text follows.\<close>

lemma utf8_not_cont: "utf8_valid (c # s) \<Longrightarrow> \<not> is_cont c"
  by (cases "utf8_next (c # s)")
    (auto simp: utf8_valid.simps [of "c # s"] is_cont_def in_range_def utf8_next.simps split: if_splits list.splits)

lemma boundary_append: "utf8_valid r \<Longrightarrow> is_boundary (f @ r) (length f)"
  by (cases r) (auto simp: is_boundary_def dest: utf8_not_cont)

lemma next_frame_frame:
  assumes "utf8_valid r" "length f < 2 ^ 64" shows "next_frame (frame f @ r) = Inr (f, r)"
proof -
  have u: "unat (of_nat (length f) :: u64) = length f"
    using assms(2) by (simp add: unat_of_nat take_bit_nat_eq_self)
  then have "frame f @ r = show_word (of_nat (length f) :: u64) @ CHR '':'' # f @ r"
    by (simp add: frame_def show_word_def)
  moreover have "split_colon (show_word (of_nat (length f) :: u64) @ CHR '':'' # f @ r) =
      Some (show_word (of_nat (length f) :: u64), f @ r)"
    by (simp add: show_word_def split_colon_frame)
  ultimately show ?thesis using assms(1) u by (simp only: next_frame_def ok_or_simps and_then_simps number_show
        prod.case) (simp add: str_split_def boundary_append)
qed

lemma frame_utf8: "utf8_valid f \<Longrightarrow> utf8_valid (frame f)"
  by (simp add: frame_def)

lemma frames_utf8: "\<forall>f \<in> set fs. utf8_valid f \<Longrightarrow> utf8_valid (frames_encode fs)"
  by (induction fs) (simp_all add: frames_encode_def frame_utf8)

lemma length_frame: "length f < length (frame f)"
  by (simp add: frame_def)

lemma frame_Cons: obtains c s where "frame f = c # s"
  using show_nat_Cons [of "length f"] by (metis append_Cons frame_def)

lemma unframe_frames:
  assumes "\<forall>f \<in> set fs. utf8_valid f" "length fs \<le> n" "length (frames_encode fs) < 2 ^ 64"
  shows "unframe n (frames_encode fs) = Inr fs"
  using assms
proof (induction fs arbitrary: n)
  case (Cons f fs)
  obtain c s where c: "frame f @ frames_encode fs = c # s"
    using frame_Cons [of f] by (metis append_Cons)
  obtain m where n: "n = Suc m" using Cons.prems(2) by (cases n) auto
  have e: "frames_encode (f # fs) = frame f @ frames_encode fs" by (simp add: frames_encode_def)
  have "length f < 2 ^ 64" "length (frames_encode fs) < 2 ^ 64"
    using Cons.prems(3) length_frame [of f] by (simp_all add: e)
  with Cons have "next_frame (c # s) = Inr (f, frames_encode fs)" "unframe m (frames_encode fs) = Inr fs"
    unfolding c [symmetric] by (simp_all add: next_frame_frame frames_utf8 n)
  then show ?case by (simp add: e c n)
qed (simp add: frames_encode_def)

lemma frames_decode_encode:
  "\<forall>f \<in> set fs. utf8_valid f \<Longrightarrow> length fs \<le> n \<Longrightarrow> length (frames_encode fs) \<le> m \<Longrightarrow> m < 2 ^ 64 \<Longrightarrow>
     frames_decode (frames_encode fs) m n = Inr fs"
  by (simp add: frames_decode_def unframe_frames)

lemma frames_decode_sound:
  "frames_decode raw m n = Inr fs \<Longrightarrow> raw = frames_encode fs \<and> length fs \<le> n \<and> length raw \<le> m"
  by (auto simp: frames_decode_def dest: unframe_sound split: if_splits)

lemma frames_decode_inj:
  "frames_decode raw m n = Inr fs \<Longrightarrow> frames_decode raw' m' n' = Inr fs \<Longrightarrow> raw = raw'"
  by (metis frames_decode_sound)

end
