(* ===== verification/Access.thy ===== *)
theory Access
  imports Access_Rows
begin

text \<open>
  The access gate: \<open>src/src/access/state.rs\<close>, \<open>gate.rs\<close> and \<open>context.rs\<close>. Authorization is a
  replay of the admission rows of the outbox; the gate keeps no state of its own. The store is
  seen through the columns its scan returns and through the outcome of a guarded batch.
\<close>

section \<open>Replayed state\<close>

record access_state =
  as_issues :: "issue_row list"
  as_revokes :: "revoke_row list"
  as_bootstraps :: "bootstrap_row list"
  as_count :: nat
  as_guard :: string

definition required_text :: "string list \<Rightarrow> nat \<Rightarrow> access_error + string" where
  "required_text cols i =
     and_then (unquote_column (cols ! i)) (\<lambda>o'. ok_or (invalid_record ''NULL admission field'') o')"

definition guard_clause :: "int \<Rightarrow> string \<Rightarrow> string \<Rightarrow> string \<Rightarrow> string" where
  "guard_clause row_id operation entity value_json =
     '' AND EXISTS(SELECT 1 FROM outbox WHERE id='' @ show_int row_id @ '' AND operation='' @ sql_quote operation @
     '' AND entity='' @ sql_quote entity @ '' AND value_json='' @ sql_quote value_json @ '')''"

definition duplicate_issue :: "issue_row list \<Rightarrow> issue_row \<Rightarrow> bool" where
  "duplicate_issue issues row \<longleftrightarrow>
     list_ex (\<lambda>r. ir_cap r = ir_cap row \<and> (ir_capgen r = ir_capgen row \<or> ir_key_id r = ir_key_id row)) issues"

text \<open>The descriptor's row goes into the state; the anchor it names comes back with it.\<close>

definition apply_descriptor :: "string \<Rightarrow> string \<Rightarrow> texts \<Rightarrow> access_state \<Rightarrow> access_error + (string \<times> access_state)" where
  "apply_descriptor operation kind m st =
     (if operation = op_bootstrap_text \<and> kind = ''bootstrap'' then
        and_then (decode_bootstrap m) (\<lambda>row.
          Inr (br_user row, st\<lparr>as_bootstraps := as_bootstraps st @ [row]\<rparr>))
      else if operation = op_issue_text \<and> kind = ''issue'' then
        and_then (decode_issue m) (\<lambda>row.
          if duplicate_issue (as_issues st) row
          then Inl (invalid_record ''duplicate capability generation or key identity'')
          else Inr (ir_cap row, st\<lparr>as_issues := as_issues st @ [row]\<rparr>))
      else if operation = op_revoke_text \<and> kind = ''revoke'' then
        and_then (decode_revoke m) (\<lambda>row.
          Inr (rr_cap row, st\<lparr>as_revokes := as_revokes st @ [row]\<rparr>))
      else Inl (invalid_record ''admission operation/kind mismatch''))"

definition read_row :: "string list \<Rightarrow> access_state \<Rightarrow> access_error + access_state" where
  "read_row cols st =
     (if length cols \<noteq> 4 then Inl (invalid_record ''admission scan requires four columns'')
      else
     and_then (ok_or (invalid_record ''admission id unreadable'') (parse_i64 (cols ! 0))) (\<lambda>row_id.
     and_then (required_text cols 1) (\<lambda>operation.
     and_then (required_text cols 2) (\<lambda>entity.
     and_then (required_text cols 3) (\<lambda>value_json.
     and_then (map_err (\<lambda>e. invalid_record (error_display e)) (value_from_json value_json)) (\<lambda>v.
     case v of
       VText descriptor \<Rightarrow>
         and_then (decode_descriptor descriptor) (\<lambda>(kind, m).
         and_then (apply_descriptor operation kind m st) (\<lambda>(anchor, st').
           if anchor \<noteq> entity then Inl (invalid_record ''admission entity/descriptor mismatch'')
           else Inr (st'\<lparr>as_guard := as_guard st' @ guard_clause row_id operation entity value_json\<rparr>)))
     | _ \<Rightarrow> Inl (invalid_record ''admission value is not text'')))))))"

fun read_rows :: "string list list \<Rightarrow> access_state \<Rightarrow> access_error + access_state" where
  "read_rows [] st = Inr st"
| "read_rows (cols # rows) st = and_then (read_row cols st) (read_rows rows)"

definition initial_state :: "nat \<Rightarrow> access_state" where
  "initial_state n =
     \<lparr>as_issues = [], as_revokes = [], as_bootstraps = [], as_count = n,
      as_guard = ''(SELECT COUNT(*) FROM outbox WHERE operation LIKE 'access-%') = '' @ show_nat n\<rparr>"

text \<open>
  \<open>State::read\<close>: \<open>scan\<close> is the answer of the store to the admission query, which asks for one row
  more than the replay horizon, so that a longer history is refused and never truncated.
\<close>

definition read_state :: "u32 \<Rightarrow> storage_error + string list list \<Rightarrow> access_error + access_state" where
  "read_state horizon scan =
     and_then (map_err AccessStore scan) (\<lambda>rows.
       if length rows > unat horizon
       then Inl (invalid_record ''access history exceeds bounded replay horizon; no truncated authorization'')
       else read_rows rows (initial_state (length rows)))"

section \<open>Checking a credential\<close>

definition require_bootstrapped :: "access_state \<Rightarrow> access_error + unit" where
  "require_bootstrapped st =
     (if as_count st = 0 then Inl (NotBootstrapped ''no admission records; bootstrap first'')
      else if length (as_bootstraps st) \<noteq> 1 \<or> br_user (hd (as_bootstraps st)) \<noteq> synthetic_user_text
        \<or> br_issuer (hd (as_bootstraps st)) \<noteq> bootstrap_issuer_text
        \<or> \<not> list_all (\<lambda>cap. list_ex (\<lambda>row. ir_cap row = cap) (as_issues st)) [reviewer_cap_text, publisher_cap_text]
      then Inl (invalid_record ''incomplete or inconsistent bootstrap; no fallback minting'')
      else Inr ())"

text \<open>\<open>max_by_key\<close> returns the last of the greatest elements.\<close>

fun max_by_capgen :: "issue_row list \<Rightarrow> issue_row option" where
  "max_by_capgen [] = None"
| "max_by_capgen (r # rs) =
     (case max_by_capgen rs of
        None \<Rightarrow> Some r
      | Some m \<Rightarrow> if ir_capgen r > ir_capgen m then Some r else Some m)"

definition latest :: "access_state \<Rightarrow> string \<Rightarrow> access_error + issue_row" where
  "latest st cap = ok_or (UnknownCapability cap) (max_by_capgen (filter (\<lambda>r. ir_cap r = cap) (as_issues st)))"

definition revoked :: "access_state \<Rightarrow> string \<Rightarrow> string \<Rightarrow> bool" where
  "revoked st cap key_id \<longleftrightarrow> list_ex (\<lambda>r. rr_cap r = cap \<and> rr_key_id r = key_id) (as_revokes st)"

definition checked :: "access_state \<Rightarrow> access_error + int \<Rightarrow> credential \<Rightarrow> trusted_scope option \<Rightarrow> bool \<Rightarrow>
    access_error + issue_row" where
  "checked st now cred scope rotating =
     and_then (require_bootstrapped st) (\<lambda>_.
     and_then (latest st (cred_capability cred)) (\<lambda>newest.
     and_then (ok_or (ForgedCredential ''key was never issued for this capability'')
       (find (\<lambda>r. ir_cap r = cred_capability cred \<and> ir_key_id r = cred_key_id cred) (as_issues st))) (\<lambda>matched.
       if ir_issuer matched \<noteq> bootstrap_issuer_text then Inl (UnknownIssuer (ir_issuer matched))
       else if ir_user matched \<noteq> synthetic_user_text
       then Inl (invalid_record ''issued user does not match bootstrap identity'')
       else if ir_key_fp matched \<noteq> fingerprint_str (cred_key cred)
       then Inl (ForgedCredential ''key material does not match the issued fingerprint'')
       else if (case scope of Some s \<Rightarrow> scope_text s \<noteq> ir_scope matched | None \<Rightarrow> False)
       then Inl (ScopeDenied (ir_scope matched) (case scope of Some s \<Rightarrow> scope_text s | None \<Rightarrow> []))
       else if rotating \<and> ir_capgen matched \<noteq> ir_capgen newest
       then Inl (StaleGeneration (ir_cap matched) (ir_capgen matched) (ir_capgen newest))
       else if revoked st (ir_cap matched) (ir_key_id matched)
       then Inl (RevokedCredential (ir_cap matched) (ir_key_id matched))
       else if ir_capgen matched \<noteq> ir_capgen newest
       then Inl (StaleGeneration (ir_cap matched) (ir_capgen matched) (ir_capgen newest))
       else and_then now (\<lambda>t. and_then (policy_require_live (ir_policy matched) t) (\<lambda>_. Inr matched)))))"

section \<open>Entry\<close>

record actor_context =
  actor_row :: issue_row
  actor_bound :: credential_ceiling
  actor_role :: role_kind

definition actor_from_checked :: "issue_row \<Rightarrow> access_error + actor_context" where
  "actor_from_checked row =
     and_then (map_err (\<lambda>e. invalid_record (error_display e)) (trusted_scope_parse (ir_scope row))) (\<lambda>scope.
     and_then (map_err (\<lambda>e. invalid_record (error_display e)) (credential_ceiling_new scope (ir_ceiling row))) (\<lambda>bound.
     and_then (map_err (\<lambda>e. invalid_record (access_error_display e)) (role_kind_parse (ir_role row))) (\<lambda>role.
       Inr \<lparr>actor_row = row, actor_bound = bound, actor_role = role\<rparr>)))"

record enter_report =
  er_capability :: string
  er_scope :: string
  er_ceiling :: u8
  er_role :: string
  er_cap_generation :: u32
  er_actor :: actor_context

definition actor_report :: "actor_context \<Rightarrow> enter_report" where
  "actor_report a =
     \<lparr>er_capability = ir_cap (actor_row a), er_scope = ir_scope (actor_row a), er_ceiling = ir_ceiling (actor_row a),
      er_role = ir_role (actor_row a), er_cap_generation = ir_capgen (actor_row a), er_actor = a\<rparr>"

text \<open>What a gate sees at the time of a call: the store's horizon, its answer and the clock.\<close>

record gate_view =
  gv_horizon :: u32
  gv_scan :: "storage_error + string list list"
  gv_now :: "access_error + int"

definition authenticate :: "gate_view \<Rightarrow> credential option \<Rightarrow> trusted_scope \<Rightarrow> access_error + actor_context" where
  "authenticate g credential scope =
     (case credential of
        None \<Rightarrow> Inl (AnonymousDenied ''anonymous entry is refused; present a named capability credential'')
      | Some cred \<Rightarrow>
          and_then (read_state (gv_horizon g) (gv_scan g)) (\<lambda>st.
          and_then (checked st (gv_now g) cred (Some scope) False) actor_from_checked))"

definition enter :: "gate_view \<Rightarrow> credential option \<Rightarrow> trusted_scope \<Rightarrow> role_kind \<Rightarrow> access_error + enter_report" where
  "enter g credential scope required =
     and_then (authenticate g credential scope) (\<lambda>actor.
       let level = (case required of Reviewer \<Rightarrow> required_review_ceiling | Publisher \<Rightarrow> required_publish_ceiling)
       in if ceiling_level (actor_bound actor) < level
          then Inl (CeilingExceeded (ceiling_level (actor_bound actor)) level)
          else case (actor_role actor, required) of
                 (Reviewer, Publisher) \<Rightarrow> Inl (RoleDenied ''reviewer'' ''publisher'')
               | _ \<Rightarrow> Inr (actor_report actor))"

definition enter_review :: "gate_view \<Rightarrow> credential option \<Rightarrow> trusted_scope \<Rightarrow> access_error + enter_report" where
  "enter_review g credential scope = enter g credential scope Reviewer"

definition enter_publish :: "gate_view \<Rightarrow> credential option \<Rightarrow> trusted_scope \<Rightarrow> access_error + enter_report" where
  "enter_publish g credential scope = enter g credential scope Publisher"

definition is_revoked :: "gate_view \<Rightarrow> string \<Rightarrow> string \<Rightarrow> access_error + bool" where
  "is_revoked g capability key_id =
     and_then (read_state (gv_horizon g) (gv_scan g)) (\<lambda>st. Inr (revoked st capability key_id))"

section \<open>Mutations\<close>

text \<open>
  A guarded batch: the condition on the rows the decision was based on, the rows to append and the
  end of the authority's life, which the store checks again when it commits.
\<close>

record access_batch =
  ab_guard :: string
  ab_records :: "(string \<times> string \<times> string) list"
  ab_payload :: nat
  ab_expires :: "int option"

fun batch_records :: "(string \<times> string \<times> string) list \<Rightarrow> access_error + (string \<times> string \<times> string) list" where
  "batch_records [] = Inr []"
| "batch_records ((operation, entity, descriptor) # rs) =
     and_then (map_err (\<lambda>e. invalid_record (error_display e)) (id_parse operation_id_kind operation)) (\<lambda>_.
     and_then (map_err (\<lambda>e. invalid_record (error_display e)) (id_parse installed_id_kind entity)) (\<lambda>_.
     and_then (batch_records rs) (\<lambda>out.
       Inr ((operation, entity, value_to_json (VText descriptor)) # out))))"

definition access_batch :: "access_state \<Rightarrow> (string \<times> string \<times> string) list \<Rightarrow> int option \<Rightarrow> access_error + access_batch" where
  "access_batch st records expires =
     and_then (batch_records records) (\<lambda>out.
       Inr \<lparr>ab_guard = as_guard st, ab_records = out,
            ab_payload = sum_list (map (\<lambda>(_, _, v). length v) out), ab_expires = expires\<rparr>)"

definition issue_row_of :: "credential \<Rightarrow> trusted_scope \<Rightarrow> u8 \<Rightarrow> role_kind \<Rightarrow> string \<Rightarrow> string \<Rightarrow> capability_policy \<Rightarrow> issue_row" where
  "issue_row_of cred scope ceiling role reason label policy =
     \<lparr>ir_cap = cred_capability cred, ir_scope = scope_text scope, ir_ceiling = ceiling,
      ir_role = role_kind_as_str role, ir_key_id = cred_key_id cred, ir_key_fp = fingerprint_str (cred_key cred),
      ir_issuer = bootstrap_issuer_text, ir_capgen = 1, ir_user = synthetic_user_text, ir_reason = reason,
      ir_label = label, ir_policy = policy\<rparr>"

definition revoke_row_of :: "issue_row \<Rightarrow> string \<Rightarrow> revoke_row" where
  "revoke_row_of row reason =
     \<lparr>rr_cap = ir_cap row, rr_key_id = ir_key_id row, rr_capgen = ir_capgen row,
      rr_issuer = bootstrap_issuer_text, rr_reason = reason\<rparr>"

definition already_bootstrapped :: access_error where
  "already_bootstrapped =
     AlreadyBootstrapped ''admission identity already exists; never overwrite or re-bootstrap''"

fun earliest :: "int option \<Rightarrow> int option \<Rightarrow> int option" where
  "earliest (Some a) (Some b) = Some (min a b)"
| "earliest (Some a) None = Some a"
| "earliest None (Some b) = Some b"
| "earliest None None = None"

definition issue_with_policy :: "gate_view \<Rightarrow> string \<Rightarrow> trusted_scope \<Rightarrow> u8 \<Rightarrow> role_kind \<Rightarrow> string \<Rightarrow> string \<Rightarrow>
    credential \<Rightarrow> string \<Rightarrow> string \<Rightarrow> capability_policy \<Rightarrow> access_error + (credential \<times> access_batch)" where
  "issue_with_policy g capability scope ceiling role key_id key administrator reason label policy =
     and_then (read_state (gv_horizon g) (gv_scan g)) (\<lambda>st.
     and_then (checked st (gv_now g) administrator None False) (\<lambda>admin.
     and_then (map_err (\<lambda>e. InvalidInput ''ceiling'' (error_display e)) (credential_ceiling_new scope ceiling)) (\<lambda>bound.
     and_then (policy_authorize (ir_policy admin) bound policy) (\<lambda>_.
     and_then (gv_now g) (\<lambda>now.
     and_then (policy_require_live policy now) (\<lambda>_.
       if list_ex (\<lambda>row. ir_cap row = capability) (as_issues st) then Inl already_bootstrapped
       else
         (let cred = \<lparr>cred_capability = capability, cred_key_id = key_id, cred_key = key\<rparr>;
              row = issue_row_of cred scope ceiling role reason label policy;
              expires = earliest (cp_expires (ir_policy admin)) (cp_expires policy)
          in map_ok (\<lambda>b. (cred, b)) (access_batch st [(op_issue_text, ir_cap row, encode_issue row)] expires))))))))"

definition rotate :: "gate_view \<Rightarrow> credential \<Rightarrow> string \<Rightarrow> string \<Rightarrow> string \<Rightarrow> access_error + (credential \<times> access_batch)" where
  "rotate g current new_key_id new_key reason =
     and_then (read_state (gv_horizon g) (gv_scan g)) (\<lambda>st.
     and_then (checked st (gv_now g) current None True) (\<lambda>row.
     and_then (ok_or (GenerationOverflow (ir_cap row)) (checked_add (ir_capgen row) 1)) (\<lambda>nxt.
       if list_ex (\<lambda>r. ir_cap r = ir_cap row \<and> ir_key_id r = new_key_id) (as_issues st)
       then Inl (InvalidInput ''key-id'' ''rotation requires a fresh key identity'')
       else
         (let rev = revoke_row_of row reason;
              row' = row\<lparr>ir_capgen := nxt, ir_key_id := new_key_id, ir_key_fp := fingerprint_str new_key, ir_reason := reason\<rparr>
          in map_ok (\<lambda>b. (\<lparr>cred_capability = cred_capability current, cred_key_id = new_key_id, cred_key = new_key\<rparr>, b))
               (access_batch st
                  [(op_revoke_text, ir_cap row', encode_revoke rev), (op_issue_text, ir_cap row', encode_issue row')]
                  (cp_expires (ir_policy row')))))))"

definition revoke :: "gate_view \<Rightarrow> credential \<Rightarrow> string \<Rightarrow> access_error + access_batch" where
  "revoke g current reason =
     and_then (read_state (gv_horizon g) (gv_scan g)) (\<lambda>st.
     and_then (checked st (gv_now g) current None False) (\<lambda>row.
       access_batch st [(op_revoke_text, ir_cap row, encode_revoke (revoke_row_of row reason))]
         (cp_expires (ir_policy row))))"

text \<open>
  The first admission: two credentials whose keys are made of the process number and a counter.
\<close>

definition bootstrap_credential :: "nat \<Rightarrow> nat \<Rightarrow> string \<Rightarrow> string \<Rightarrow> access_error + credential" where
  "bootstrap_credential pid uniq cap key_id =
     and_then (access_id_parse capability_name_kind cap) (\<lambda>c.
     and_then (access_id_parse key_id_kind key_id) (\<lambda>k.
     and_then (synthetic_key_parse (''synthetic-bootstrap-'' @ show_nat pid @ ''-'' @ show_nat uniq @ ''-'' @ cap)) (\<lambda>key.
       Inr \<lparr>cred_capability = c, cred_key_id = k, cred_key = key\<rparr>)))"

definition bootstrap :: "gate_view \<Rightarrow> nat \<Rightarrow> nat \<Rightarrow> string \<Rightarrow> access_error + (credential \<times> credential \<times> access_batch)" where
  "bootstrap g pid uniq reason =
     and_then (read_state (gv_horizon g) (gv_scan g)) (\<lambda>st.
       if as_count st \<noteq> 0 then Inl already_bootstrapped
       else
     and_then (bootstrap_credential pid uniq reviewer_cap_text reviewer_key_text) (\<lambda>reviewer_cred.
     and_then (bootstrap_credential pid uniq publisher_cap_text publisher_key_text) (\<lambda>publisher_cred.
     and_then (map_err (\<lambda>e. invalid_record (error_display e)) (trusted_scope_parse ''scope-a'')) (\<lambda>scope_a.
     and_then (map_err (\<lambda>e. invalid_record (error_display e)) (trusted_scope_parse ''scope-b'')) (\<lambda>scope_b.
     and_then (display_label_parse synthetic_label_text) (\<lambda>label.
     and_then (policy_administrator [scope_a, scope_b] 2 None) (\<lambda>admin_policy.
       (let marker = \<lparr>br_user = synthetic_user_text, br_issuer = bootstrap_issuer_text, br_reason = reason,
                      br_generation = access_schema_generation\<rparr>;
            reviewer = issue_row_of reviewer_cred scope_a 1 Reviewer reason label (policy_entry_only None);
            publisher = issue_row_of publisher_cred scope_a 2 Publisher reason label admin_policy
        in map_ok (\<lambda>b. (reviewer_cred, publisher_cred, b))
             (access_batch st
                [(op_bootstrap_text, synthetic_user_text, encode_bootstrap marker),
                 (op_issue_text, ir_cap reviewer, encode_issue reviewer),
                 (op_issue_text, ir_cap publisher, encode_issue publisher)] None)))))))))"

text \<open>The store's answer to a batch, as the gate reports it.\<close>

datatype mutation_outcome =
    MCommitted string "string list list"
  | MNotCommitted string storage_error
  | MConflict string string
  | MUnknown string string

fun contains_text :: "string \<Rightarrow> string \<Rightarrow> bool" where
  "contains_text w [] \<longleftrightarrow> w = []"
| "contains_text w (c # s) \<longleftrightarrow> take (length w) (c # s) = w \<or> contains_text w s"

fun gate_submit :: "mutation_outcome \<Rightarrow> access_error + unit" where
  "gate_submit (MCommitted _ _) = Inr ()"
| "gate_submit (MNotCommitted _ e) =
     (case e of
        SqliteFailure detail \<Rightarrow>
          if contains_text ''CHECK constraint failed: access_guard_unchanged'' detail
          then Inl (AccessStore (StoreConflict ''access state changed at mutation boundary''))
          else if contains_text ''CHECK constraint failed: access_guard_live'' detail
          then Inl (PolicyDenied ''credential expired at mutation boundary'')
          else Inl (AccessStore e)
      | _ \<Rightarrow> Inl (AccessStore e))"
| "gate_submit (MConflict _ detail) = Inl (AccessStore (StoreConflict detail))"
| "gate_submit (MUnknown operation detail) = Inl (MutationUnknown operation detail)"

definition bootstrap_submit :: "mutation_outcome \<Rightarrow> access_error + unit" where
  "bootstrap_submit out =
     (case gate_submit out of
        Inl (AccessStore (StoreConflict _)) \<Rightarrow> Inl already_bootstrapped
      | r \<Rightarrow> r)"

end
