(* ===== verification/Binding_Records.thy ===== *)
theory Binding_Records
  imports Access
begin

text \<open>
  The vocabulary of \<open>src/src/binding\<close>: its error (\<open>error.rs\<close>), the descriptor codec of \<open>mod.rs\<close>, the
  typed records of \<open>records.rs\<close>, proposals (\<open>proposal.rs\<close>), findings (\<open>findings.rs\<close>) and the decoder
  of a stored proposal (\<open>history.rs\<close>).
\<close>

section \<open>Errors\<close>

datatype binding_error =
    BInvalidInput string string
  | BInvalidRecord string
  | DuplicateIdentity string string
  | WrongUnit string string
  | WrongRole string string
  | AmbiguousFeedback string
  | BScopeDenied string string
  | NeedsReassessment string string string
  | EndpointConfusion string string
  | ImportOutOfScenario string string string
  | ImportUnknownClass string string
  | ImportCollision string string string
  | ImportSlotMismatch string string string string
  | CapabilityDenied string string
  | BConflict string
  | BMutationUnknown operation_id string
  | EmptyWindow
  | BStore storage_error

fun binding_error_code :: "binding_error \<Rightarrow> string" where
  "binding_error_code (BInvalidInput _ _) = ''invalid-input''"
| "binding_error_code (BInvalidRecord _) = ''invalid-record''"
| "binding_error_code (DuplicateIdentity _ _) = ''duplicate-identity''"
| "binding_error_code (WrongUnit _ _) = ''wrong-unit''"
| "binding_error_code (WrongRole _ _) = ''wrong-role''"
| "binding_error_code (AmbiguousFeedback _) = ''ambiguous-feedback''"
| "binding_error_code (BScopeDenied _ _) = ''scope-denied''"
| "binding_error_code (NeedsReassessment _ _ _) = ''needs-reassessment''"
| "binding_error_code (EndpointConfusion _ _) = ''endpoint-confusion''"
| "binding_error_code (ImportOutOfScenario _ _ _) = ''import-out-of-scenario''"
| "binding_error_code (ImportUnknownClass _ _) = ''import-unknown-class''"
| "binding_error_code (ImportCollision _ _ _) = ''import-collision''"
| "binding_error_code (ImportSlotMismatch _ _ _ _) = ''import-slot-mismatch''"
| "binding_error_code (CapabilityDenied _ _) = ''capability-denied''"
| "binding_error_code (BConflict _) = ''conflict''"
| "binding_error_code (BMutationUnknown _ _) = ''mutation-unknown''"
| "binding_error_code EmptyWindow = ''empty-window''"
| "binding_error_code (BStore inner) = storage_error_code inner"

fun binding_error_display :: "binding_error \<Rightarrow> string" where
  "binding_error_display (BInvalidInput what detail) = ''invalid '' @ what @ '': '' @ detail"
| "binding_error_display (BInvalidRecord detail) = ''invalid binding record: '' @ detail"
| "binding_error_display (DuplicateIdentity i detail) = ''duplicate installed identity '' @ quoted i @ '': '' @ detail"
| "binding_error_display (WrongUnit expected presented) =
     ''wrong unit: point expects '' @ quoted expected @ '', binding presents '' @ quoted presented"
| "binding_error_display (WrongRole requested detail) = ''wrong role: requested '' @ quoted requested @ '': '' @ detail"
| "binding_error_display (AmbiguousFeedback detail) = ''ambiguous feedback: '' @ detail"
| "binding_error_display (BScopeDenied expected presented) =
     ''scope denied: binding scope '' @ quoted expected @ '' does not cover '' @ quoted presented @
     '' (cross-scope links grant nothing)''"
| "binding_error_display (NeedsReassessment i address detail) =
     ''needs reassessment: record '' @ quoted i @ '' at retired address '' @ quoted address @ '': '' @ detail"
| "binding_error_display (EndpointConfusion expected presented) =
     ''endpoint confusion: point expects '' @ quoted expected @ '' endpoint, binding presents '' @ quoted presented"
| "binding_error_display (ImportOutOfScenario class reason profile) =
     ''import refused (out-of-scenario): class '' @ quoted class @ '' under profile '' @ quoted profile @ '': '' @ reason"
| "binding_error_display (ImportUnknownClass class profile) =
     ''import refused (unknown-class): class '' @ quoted class @ '' under profile '' @ quoted profile"
| "binding_error_display (ImportCollision slot candidates profile) =
     ''import refused (collision): slot '' @ quoted slot @ '' claimed by ['' @ candidates @ ''] under profile '' @
     quoted profile @ '' (no merge)''"
| "binding_error_display (ImportSlotMismatch class kind slot profile) =
     ''import refused (slot-mismatch): class '' @ quoted class @ '' (kind '' @ quoted kind @ '') does not match slot '' @
     quoted slot @ '' under profile '' @ quoted profile"
| "binding_error_display (CapabilityDenied detail access_code) = ''capability denied ['' @ access_code @ '']: '' @ detail"
| "binding_error_display (BStore inner) = storage_error_display inner"
| "binding_error_display (BConflict detail) = ''binding conflict: '' @ detail"
| "binding_error_display (BMutationUnknown operation detail) =
     ''binding outcome UNKNOWN for '' @ operation @ ''; reconcile this operation: '' @ detail"
| "binding_error_display EmptyWindow = ''binding replay window is empty or expired''"

section \<open>Descriptor text\<close>

text \<open>The percent encoder is the one of the access rows; the decoder differs in its errors.\<close>

fun b_pct_bytes :: "string \<Rightarrow> string \<Rightarrow> binding_error + string" where
  "b_pct_bytes raw [] = Inr []"
| "b_pct_bytes raw (c # s) =
     (if c = CHR ''%'' then
        (case s of
           h # l # r \<Rightarrow>
             if \<not> utf8_valid [h, l]
             then Inl (BInvalidRecord (''invalid escape in '' @ quoted raw))
             else (case radix16_pair h l of
                     None \<Rightarrow> Inl (BInvalidRecord (''invalid percent escape '' @ quoted (CHR ''%'' # [h, l]) @ '' in '' @ quoted raw))
                   | Some b \<Rightarrow> map_ok (\<lambda>out. char_of b # out) (b_pct_bytes raw r))
         | _ \<Rightarrow> Inl (BInvalidRecord (''truncated percent escape in '' @ quoted raw)))
      else map_ok (\<lambda>out. c # out) (b_pct_bytes raw s))"

definition b_pct_decode :: "string \<Rightarrow> binding_error + string" where
  "b_pct_decode raw =
     and_then (b_pct_bytes raw raw) (\<lambda>out.
       if utf8_valid out then Inr out
       else Inl (BInvalidRecord (''field is not valid UTF-8 in '' @ quoted raw)))"

definition b_unquote_column :: "string \<Rightarrow> binding_error + string option" where
  "b_unquote_column raw =
     (if raw = ''NULL'' then Inr None
      else if 2 \<le> length raw \<and> hd raw = squote \<and> last raw = squote
      then Inr (Some (undouble (butlast (tl raw))))
      else Inl (BInvalidRecord (''quoted binding column malformed: '' @ quoted raw)))"

fun b_split_parts :: "string list \<Rightarrow> texts \<Rightarrow> binding_error + texts" where
  "b_split_parts [] m = Inr m"
| "b_split_parts (p # ps) m =
     (let key = takeWhile (\<lambda>c. c \<noteq> CHR ''='') p; rest = dropWhile (\<lambda>c. c \<noteq> CHR ''='') p
      in case rest of
           [] \<Rightarrow> Inl (BInvalidRecord (''binding descriptor part without '' @ quoted ''='' @ '': '' @ quoted p))
         | _ # encoded \<Rightarrow>
             if key = [] then Inl (BInvalidRecord ''binding descriptor has an empty key'')
             else and_then (b_pct_decode encoded) (\<lambda>v.
               if bt_get m key \<noteq> None
               then Inl (BInvalidRecord (''binding descriptor duplicates key '' @ quoted key))
               else b_split_parts ps (bt_insert key v m)))"

definition b_split_descriptor :: "string \<Rightarrow> binding_error + texts" where
  "b_split_descriptor raw = b_split_parts (split_on (CHR '';'') raw) []"

definition b_require_field :: "texts \<Rightarrow> string \<Rightarrow> binding_error + string" where
  "b_require_field m key =
     ok_or (BInvalidRecord (''binding descriptor missing field '' @ quoted key)) (bt_get m key)"

section \<open>Typed records\<close>

definition b_max_label_len :: nat where "b_max_label_len = 128"
definition b_max_token_len :: nat where "b_max_token_len = 128"

definition validate_token :: "string \<Rightarrow> string \<Rightarrow> binding_error + unit" where
  "validate_token kind raw =
     (if raw = [] then Inl (BInvalidInput kind ''value must not be empty'')
      else if length raw > b_max_token_len
      then Inl (BInvalidInput kind (''value is '' @ show_nat (length raw) @ '' chars; maximum is '' @ show_nat b_max_token_len))
      else if \<not> list_all id_char raw
      then Inl (BInvalidInput kind (''value has unsupported characters: '' @ quoted raw))
      else Inr ())"

definition validate_label :: "string \<Rightarrow> binding_error + unit" where
  "validate_label raw =
     (if raw = [] then Inl (BInvalidInput ''label'' ''label must not be empty'')
      else if length raw > b_max_label_len
      then Inl (BInvalidInput ''label'' (''label is '' @ show_nat (length raw) @ '' chars; maximum is '' @ show_nat b_max_label_len))
      else if CHR 0x00 \<in> set raw then Inl (BInvalidInput ''label'' ''label must not contain NUL'')
      else Inr ())"

datatype equipment_kind = Ahu | Vav

definition equipment_kind_parse :: "string \<Rightarrow> binding_error + equipment_kind" where
  "equipment_kind_parse raw =
     (if raw = ''ahu'' then Inr Ahu
      else if raw = ''vav'' then Inr Vav
      else Inl (BInvalidInput ''equipment-kind'' (''unknown equipment kind '' @ quoted raw @ ''; expected ahu/vav'')))"

fun equipment_kind_as_str :: "equipment_kind \<Rightarrow> string" where
  "equipment_kind_as_str Ahu = ''ahu''"
| "equipment_kind_as_str Vav = ''vav''"

datatype endpoint_class = Service | Location

definition endpoint_class_parse :: "string \<Rightarrow> binding_error + endpoint_class" where
  "endpoint_class_parse raw =
     (if raw = ''service'' then Inr Service
      else if raw = ''location'' then Inr Location
      else Inl (BInvalidInput ''endpoint-class'' (''unknown endpoint class '' @ quoted raw @ ''; expected service/location'')))"

fun endpoint_class_as_str :: "endpoint_class \<Rightarrow> string" where
  "endpoint_class_as_str Service = ''service''"
| "endpoint_class_as_str Location = ''location''"

definition endpoint_address_parse :: "string \<Rightarrow> binding_error + string" where
  "endpoint_address_parse raw = and_then (validate_token ''endpoint-address'' raw) (\<lambda>_. Inr raw)"

definition property_name_parse :: "string \<Rightarrow> binding_error + string" where
  "property_name_parse raw = and_then (validate_token ''property'' raw) (\<lambda>_. Inr raw)"

definition record_label_parse :: "string \<Rightarrow> binding_error + string" where
  "record_label_parse raw = and_then (validate_label raw) (\<lambda>_. Inr raw)"

definition installed_parse :: "string \<Rightarrow> string \<Rightarrow> binding_error + installed_id" where
  "installed_parse kind raw =
     map_err (\<lambda>e. BInvalidInput ''installed-id''
         (''invalid '' @ kind @ '' '' @ quoted raw @ '': '' @ error_display e @ '' ['' @ error_code e @ '']''))
       (id_parse installed_id_kind raw)"

record equipment_record =
  eq_id :: installed_id
  eq_kind :: equipment_kind
  eq_scope :: trusted_scope
  eq_label :: string
  eq_address :: string

definition equipment_record_parse ::
    "string \<Rightarrow> equipment_kind \<Rightarrow> trusted_scope \<Rightarrow> string \<Rightarrow> string \<Rightarrow> binding_error + equipment_record" where
  "equipment_record_parse i kind scope label address =
     and_then (installed_parse ''installed id'' i) (\<lambda>parsed.
     and_then (validate_label label) (\<lambda>_.
     and_then (endpoint_address_parse address) (\<lambda>addr.
       Inr \<lparr>eq_id = parsed, eq_kind = kind, eq_scope = scope, eq_label = label, eq_address = addr\<rparr>)))"

record space_record =
  sp_id :: installed_id
  sp_scope :: trusted_scope
  sp_label :: string

definition space_record_parse :: "string \<Rightarrow> trusted_scope \<Rightarrow> string \<Rightarrow> binding_error + space_record" where
  "space_record_parse i scope label =
     and_then (installed_parse ''installed id'' i) (\<lambda>parsed.
     and_then (validate_label label) (\<lambda>_.
       Inr \<lparr>sp_id = parsed, sp_scope = scope, sp_label = label\<rparr>))"

record source_record =
  so_id :: installed_id
  so_scope :: trusted_scope
  so_label :: string

definition source_record_parse :: "string \<Rightarrow> trusted_scope \<Rightarrow> string \<Rightarrow> binding_error + source_record" where
  "source_record_parse i scope label =
     and_then (installed_parse ''installed id'' i) (\<lambda>parsed.
     and_then (validate_label label) (\<lambda>_.
       Inr \<lparr>so_id = parsed, so_scope = scope, so_label = label\<rparr>))"

record point_record =
  pt_equipment :: installed_id
  pt_property :: string
  pt_scope :: trusted_scope
  pt_unit :: unit_of_measure
  pt_class :: endpoint_class

definition point_record_parse ::
    "string \<Rightarrow> string \<Rightarrow> trusted_scope \<Rightarrow> string \<Rightarrow> endpoint_class \<Rightarrow> binding_error + point_record" where
  "point_record_parse equipment property scope unit_text class =
     and_then (installed_parse ''installed id'' equipment) (\<lambda>parsed_equipment.
     and_then (property_name_parse property) (\<lambda>parsed_property.
     and_then (map_err (\<lambda>e. BInvalidInput ''unit''
         (''invalid unit '' @ quoted unit_text @ '': '' @ error_display e @ '' ['' @ error_code e @ '']''))
       (unit_parse unit_text)) (\<lambda>parsed_unit.
       Inr \<lparr>pt_equipment = parsed_equipment, pt_property = parsed_property, pt_scope = scope,
            pt_unit = parsed_unit, pt_class = class\<rparr>)))"

end
