(* ===== verification/Binding_Proposal.thy ===== *)
theory Binding_Proposal
  imports Binding_Records
begin

text \<open>
  Proposed bindings: \<open>src/src/binding/proposal.rs\<close>, their findings (\<open>findings.rs\<close>), the descriptor a
  proposal is stored as (\<open>writer.rs\<close>) and the decoder that reads it back (\<open>history.rs\<close>).
\<close>

section \<open>Roles, feedback and status\<close>

datatype binding_role = Sense | Drive

definition binding_role_parse :: "string \<Rightarrow> binding_error + binding_role" where
  "binding_role_parse raw =
     (if raw = ''sense'' then Inr Sense
      else if raw = ''drive'' then Inr Drive
      else Inl (BInvalidInput ''binding-role'' (''unknown binding role '' @ quoted raw @ ''; expected sense/drive'')))"

fun binding_role_as_str :: "binding_role \<Rightarrow> string" where
  "binding_role_as_str Sense = ''sense''"
| "binding_role_as_str Drive = ''drive''"

datatype feedback = FeedbackAbsent | FeedbackSingle binding_role | FeedbackAmbiguous

definition feedback_parse :: "string \<Rightarrow> binding_error + feedback" where
  "feedback_parse raw =
     (if raw = ''absent'' then Inr FeedbackAbsent
      else if raw = ''sense'' then Inr (FeedbackSingle Sense)
      else if raw = ''drive'' then Inr (FeedbackSingle Drive)
      else if raw = ''ambiguous'' \<or> raw = ''sense+drive'' then Inr FeedbackAmbiguous
      else Inl (BInvalidInput ''feedback'' (''unknown feedback '' @ quoted raw @ ''; expected absent/sense/drive/ambiguous'')))"

fun feedback_as_str :: "feedback \<Rightarrow> string" where
  "feedback_as_str FeedbackAbsent = ''absent''"
| "feedback_as_str (FeedbackSingle role) = binding_role_as_str role"
| "feedback_as_str FeedbackAmbiguous = ''ambiguous''"

fun feedback_is_ambiguous :: "feedback \<Rightarrow> bool" where
  "feedback_is_ambiguous FeedbackAmbiguous = True"
| "feedback_is_ambiguous _ = False"

datatype binding_status = Imported | Valid | ObservedQualified

fun binding_status_as_str :: "binding_status \<Rightarrow> string" where
  "binding_status_as_str Imported = ''imported''"
| "binding_status_as_str Valid = ''valid''"
| "binding_status_as_str ObservedQualified = ''observed-qualified''"

section \<open>Proposals\<close>

record proposed_binding =
  pb_endpoint :: string
  pb_class :: endpoint_class
  pb_endpoint_scope :: trusted_scope
  pb_equipment :: installed_id
  pb_property :: string
  pb_point_scope :: trusted_scope
  pb_source :: installed_id
  pb_unit :: unit_of_measure
  pb_mode :: "op_mode option"
  pb_requested :: binding_role
  pb_effective :: binding_role
  pb_feedback :: feedback
  pb_status :: binding_status

definition mode_text :: "op_mode option \<Rightarrow> string" where
  "mode_text m = (case m of None \<Rightarrow> ''-'' | Some v \<Rightarrow> op_mode_as_str v)"

text \<open>The unit separator between the fields of the canonical text.\<close>

definition unit_separator :: char where [verdant_defs]: "unit_separator = CHR 0x1F"

definition canonical_fields :: "proposed_binding \<Rightarrow> string list" where
  "canonical_fields b =
     [pb_endpoint b, endpoint_class_as_str (pb_class b), scope_text (pb_endpoint_scope b), pb_equipment b,
      pb_property b, scope_text (pb_point_scope b), pb_source b, unit_as_str (pb_unit b), mode_text (pb_mode b),
      binding_role_as_str (pb_requested b), binding_role_as_str (pb_effective b), feedback_as_str (pb_feedback b),
      binding_status_as_str (pb_status b)]"

definition canonical_bytes :: "proposed_binding \<Rightarrow> string" where
  "canonical_bytes b = join_on unit_separator (''binding-canonical-v2'' # canonical_fields b)"

definition propose :: "string \<Rightarrow> endpoint_class \<Rightarrow> trusted_scope \<Rightarrow> installed_id \<Rightarrow> string \<Rightarrow> trusted_scope \<Rightarrow>
    installed_id \<Rightarrow> unit_of_measure \<Rightarrow> endpoint_class \<Rightarrow> unit_of_measure \<Rightarrow> op_mode option \<Rightarrow>
    binding_role \<Rightarrow> binding_role \<Rightarrow> feedback \<Rightarrow> binding_error + proposed_binding" where
  "propose endpoint class endpoint_scope equipment property point_scope source expected_unit expected_class u mode
      requested effective fb =
     (if scope_text endpoint_scope \<noteq> scope_text point_scope
      then Inl (BScopeDenied (scope_text endpoint_scope) (scope_text point_scope))
      else if class \<noteq> expected_class
      then Inl (EndpointConfusion (endpoint_class_as_str expected_class) (endpoint_class_as_str class))
      else if unit_as_str u \<noteq> unit_as_str expected_unit
      then Inl (WrongUnit (unit_as_str expected_unit) (unit_as_str u))
      else if requested \<noteq> effective
      then Inl (WrongRole (binding_role_as_str requested)
             (''requested '' @ quoted (binding_role_as_str requested) @ '' does not match effective '' @
              quoted (binding_role_as_str effective) @ '' (no silent downgrade)''))
      else if feedback_is_ambiguous fb
      then Inl (AmbiguousFeedback ''feedback lists more than one role; disambiguate before proposing'')
      else Inr \<lparr>pb_endpoint = endpoint, pb_class = class, pb_endpoint_scope = endpoint_scope, pb_equipment = equipment,
                pb_property = property, pb_point_scope = point_scope, pb_source = source, pb_unit = u, pb_mode = mode,
                pb_requested = requested, pb_effective = effective, pb_feedback = fb, pb_status = Valid\<rparr>)"

section \<open>Findings\<close>

definition max_finding_id_len :: nat where "max_finding_id_len = 128"

definition finding_id_parse :: "string \<Rightarrow> binding_error + string" where
  "finding_id_parse raw =
     (if raw = [] then Inl (BInvalidInput ''finding-id'' ''value must not be empty'')
      else if length raw > max_finding_id_len
      then Inl (BInvalidInput ''finding-id'' (''value is '' @ show_nat (length raw) @ '' chars; maximum is '' @ show_nat max_finding_id_len))
      else if \<not> list_all id_char raw
      then Inl (BInvalidInput ''finding-id'' (''value has unsupported characters: '' @ quoted raw))
      else Inr raw)"

definition fnv1a_hex :: "string \<Rightarrow> string" where
  "fnv1a_hex bytes = show_hex 16 (fnv1a 0xCBF29CE484222325 bytes)"

record finding =
  fi_id :: string
  fi_generation :: u32
  fi_revision :: binding_revision
  fi_digest :: string
  fi_summary :: string
  fi_actor :: string

definition finding_for_binding :: "proposed_binding \<Rightarrow> binding_revision \<Rightarrow> string \<Rightarrow> finding" where
  "finding_for_binding b revision actor =
     (let digest = fnv1a_hex (join_on unit_separator [canonical_bytes b, show_word revision, actor])
      in \<lparr>fi_id = ''finding-'' @ digest, fi_generation = revision, fi_revision = revision, fi_digest = digest,
          fi_summary = ''binding '' @ pb_equipment b @ '':'' @ pb_property b @ '' '' @ binding_status_as_str (pb_status b) @
            '' ['' @ unit_as_str (pb_unit b) @ ''] rev '' @ show_word revision @ '' actor '' @ actor,
          fi_actor = actor\<rparr>)"

section \<open>Stored proposals\<close>

text \<open>The descriptor: the mode, alone among the free texts, is written without percent encoding.\<close>

definition proposal_descriptor :: "proposed_binding \<Rightarrow> string" where
  "proposal_descriptor b = join_on (CHR '';'')
     [''v=2'', ''kind=propose'',
      part ''endpoint'' (pct_encode (pb_endpoint b)),
      part ''eclass'' (endpoint_class_as_str (pb_class b)),
      part ''escope'' (pct_encode (scope_text (pb_endpoint_scope b))),
      part ''equipment'' (pct_encode (pb_equipment b)),
      part ''property'' (pct_encode (pb_property b)),
      part ''pscope'' (pct_encode (scope_text (pb_point_scope b))),
      part ''source'' (pct_encode (pb_source b)),
      part ''unit'' (pct_encode (unit_as_str (pb_unit b))),
      part ''mode'' (mode_text (pb_mode b)),
      part ''requested'' (binding_role_as_str (pb_requested b)),
      part ''effective'' (binding_role_as_str (pb_effective b)),
      part ''feedback'' (feedback_as_str (pb_feedback b)),
      part ''status'' (binding_status_as_str (pb_status b))]"

definition stored_bad :: "string \<Rightarrow> string \<Rightarrow> binding_error" where
  "stored_bad what e = BInvalidRecord (''stored propose '' @ what @ '' invalid: '' @ e)"

definition decode_mode :: "string \<Rightarrow> binding_error + op_mode option" where
  "decode_mode raw =
     (if raw = ''-'' then Inr None
      else map_ok Some (map_err (\<lambda>e. stored_bad ''mode'' (error_display e)) (op_mode_parse raw)))"

definition decode_status :: "string \<Rightarrow> binding_error + binding_status" where
  "decode_status raw =
     (if raw = ''imported'' then Inr Imported
      else if raw = ''valid'' then Inr Valid
      else if raw = ''observed-qualified'' then Inr ObservedQualified
      else Inl (BInvalidRecord (''stored propose status invalid: '' @ quoted raw)))"

definition decode_propose :: "texts \<Rightarrow> binding_error + proposed_binding" where
  "decode_propose m =
     and_then (b_require_field m ''endpoint'') (\<lambda>raw.
     and_then (endpoint_address_parse raw) (\<lambda>endpoint.
     and_then (b_require_field m ''eclass'') (\<lambda>raw.
     and_then (endpoint_class_parse raw) (\<lambda>eclass.
     and_then (b_require_field m ''escope'') (\<lambda>raw.
     and_then (map_err (\<lambda>e. stored_bad ''endpoint scope'' (error_display e)) (trusted_scope_parse raw)) (\<lambda>escope.
     and_then (b_require_field m ''equipment'') (\<lambda>raw.
     and_then (map_err (\<lambda>e. stored_bad ''equipment'' (error_display e)) (id_parse installed_id_kind raw)) (\<lambda>equipment.
     and_then (b_require_field m ''property'') (\<lambda>raw.
     and_then (property_name_parse raw) (\<lambda>property.
     and_then (b_require_field m ''pscope'') (\<lambda>raw.
     and_then (map_err (\<lambda>e. stored_bad ''point scope'' (error_display e)) (trusted_scope_parse raw)) (\<lambda>pscope.
     and_then (b_require_field m ''source'') (\<lambda>raw.
     and_then (map_err (\<lambda>e. stored_bad ''source'' (error_display e)) (id_parse installed_id_kind raw)) (\<lambda>source.
     and_then (b_require_field m ''unit'') (\<lambda>raw.
     and_then (map_err (\<lambda>e. stored_bad ''unit'' (error_display e)) (unit_parse raw)) (\<lambda>u.
     and_then (b_require_field m ''mode'') (\<lambda>raw.
     and_then (decode_mode raw) (\<lambda>mode.
     and_then (b_require_field m ''requested'') (\<lambda>raw.
     and_then (map_err (\<lambda>e. stored_bad ''requested'' (binding_error_display e)) (binding_role_parse raw)) (\<lambda>requested.
     and_then (b_require_field m ''effective'') (\<lambda>raw.
     and_then (map_err (\<lambda>e. stored_bad ''effective'' (binding_error_display e)) (binding_role_parse raw)) (\<lambda>effective.
     and_then (b_require_field m ''feedback'') (\<lambda>raw.
     and_then (map_err (\<lambda>e. stored_bad ''feedback'' (binding_error_display e)) (feedback_parse raw)) (\<lambda>fb.
     and_then (b_require_field m ''status'') (\<lambda>raw.
     and_then (decode_status raw) (\<lambda>status.
       Inr \<lparr>pb_endpoint = endpoint, pb_class = eclass, pb_endpoint_scope = escope, pb_equipment = equipment,
            pb_property = property, pb_point_scope = pscope, pb_source = source, pb_unit = u, pb_mode = mode,
            pb_requested = requested, pb_effective = effective, pb_feedback = fb, pb_status = status\<rparr>
     ))))))))))))))))))))))))))"

section \<open>Round trips\<close>

text \<open>What the parsers admit, and the two conditions the unencoded texts need to come back.\<close>

definition binding_ok :: "proposed_binding \<Rightarrow> bool" where
  "binding_ok b \<longleftrightarrow> id_ok (pb_endpoint b) \<and> trusted_scope_ok (pb_endpoint_scope b) \<and> id_ok (pb_equipment b) \<and>
     id_ok (pb_property b) \<and> trusted_scope_ok (pb_point_scope b) \<and> id_ok (pb_source b) \<and> unit_ok (pb_unit b) \<and>
     (\<forall>m. pb_mode b = Some m \<longrightarrow> op_mode_ok m)"

definition mode_plain :: "op_mode option \<Rightarrow> bool" where
  "mode_plain m \<longleftrightarrow> m \<noteq> Some (UnknownMode ''-'') \<and> CHR ''%'' \<notin> set (mode_text m) \<and> CHR '';'' \<notin> set (mode_text m)"

lemma validate_token_id_ok [simp]: "validate_token kind raw = Inr u \<longleftrightarrow> id_ok raw"
  by (auto simp: validate_token_def id_ok_def b_max_token_len_def max_id_len_def)

lemma address_property_parse [simp]:
  "endpoint_address_parse raw = Inr s \<longleftrightarrow> s = raw \<and> id_ok raw"
  "property_name_parse raw = Inr s \<longleftrightarrow> s = raw \<and> id_ok raw"
  by (auto simp: endpoint_address_parse_def property_name_parse_def)

lemma address_property_ok [simp]:
  "id_ok raw \<Longrightarrow> endpoint_address_parse raw = Inr raw" "id_ok raw \<Longrightarrow> property_name_parse raw = Inr raw"
  by simp_all

lemma installed_parse_eq [simp]: "installed_parse kind raw = Inr s \<longleftrightarrow> s = raw \<and> id_ok raw"
  by (auto simp: installed_parse_def)

lemma installed_parse_ok [simp]: "id_ok raw \<Longrightarrow> installed_parse kind raw = Inr raw"
  by simp

lemma enum_round_trips [simp]:
  "endpoint_class_parse (endpoint_class_as_str c) = Inr c"
  "binding_role_parse (binding_role_as_str r) = Inr r"
  "feedback_parse (feedback_as_str f) = Inr f"
  "decode_status (binding_status_as_str s) = Inr s"
  "equipment_kind_parse (equipment_kind_as_str k) = Inr k"
proof -
  show "feedback_parse (feedback_as_str f) = Inr f"
    by (cases f; cases "case f of FeedbackSingle r \<Rightarrow> r | _ \<Rightarrow> Sense") (simp_all add: feedback_parse_def)
qed (cases c; cases r; cases s; cases k; simp add: endpoint_class_parse_def binding_role_parse_def decode_status_def
    equipment_kind_parse_def)+

lemma decode_mode_text: "\<forall>v. m = Some v \<longrightarrow> op_mode_ok v \<Longrightarrow> m \<noteq> Some (UnknownMode ''-'') \<Longrightarrow> decode_mode (mode_text m) = Inr m"
proof (cases m)
  case (Some v)
  assume "\<forall>v. m = Some v \<longrightarrow> op_mode_ok v" "m \<noteq> Some (UnknownMode ''-'')"
  with Some have "op_mode_as_str v \<noteq> ''-''" "op_mode_ok v" by (cases v; auto)+
  with Some show ?thesis by (simp add: decode_mode_def mode_text_def op_mode_parse_as_str)
qed (simp add: decode_mode_def mode_text_def)

lemma trusted_scope_parse_self [simp]: "trusted_scope_ok s \<Longrightarrow> trusted_scope_parse (scope_text s) = Inr s"
  by (simp add: trusted_scope_parse_ok trusted_scope_ok_def)

lemma b_require_field_simps [simp]:
  "bt_get m k = Some v \<Longrightarrow> b_require_field m k = Inr v"
  by (simp add: b_require_field_def)

lemma b_require_field_eq [simp]: "b_require_field m k = Inr v \<longleftrightarrow> bt_get m k = Some v"
  by (simp add: b_require_field_def)

text \<open>The binding decoder of descriptors reads what the admission decoder reads; only errors differ.\<close>

definition ok_part :: "'e + 'a \<Rightarrow> 'a option" where
  "ok_part r = (case r of Inl _ \<Rightarrow> None | Inr x \<Rightarrow> Some x)"

lemma ok_part_simps [simp]:
  "ok_part (Inl e) = None" "ok_part (Inr x) = Some x"
  "ok_part (map_ok f r) = map_option f (ok_part r)"
  "ok_part (and_then r k) = Option.bind (ok_part r) (\<lambda>x. ok_part (k x))"
  by (simp_all add: ok_part_def and_then_def map_ok_def split: sum.splits)

lemma ok_part_eq_Some: "ok_part r = Some x \<longleftrightarrow> r = Inr x"
  by (simp add: ok_part_def split: sum.splits)

lemma b_pct_bytes_part: "ok_part (b_pct_bytes raw s) = ok_part (pct_bytes raw s)"
  by (induction raw s rule: pct_bytes.induct) (simp_all split: list.splits option.splits)

lemma b_pct_decode_part: "ok_part (b_pct_decode raw) = ok_part (pct_decode raw)"
  by (simp add: b_pct_decode_def pct_decode_def b_pct_bytes_part if_distrib cong: if_cong)

lemma b_split_parts_part: "ok_part (b_split_parts ps m) = ok_part (split_parts ps m)"
proof (induction ps arbitrary: m)
  case (Cons p ps)
  show ?case
    by (cases "dropWhile (\<lambda>c. c \<noteq> CHR ''='') p")
      (simp_all only: b_split_parts.simps split_parts.simps Let_def list.case ok_part_simps Cons.IH b_pct_decode_part
        if_distrib [of ok_part])
qed simp

lemma b_split_descriptor_eq: "b_split_descriptor raw = Inr m \<longleftrightarrow> split_descriptor raw = Inr m"
  using b_split_parts_part [of "split_on (CHR '';'') raw" "[]"]
  by (metis b_split_descriptor_def split_descriptor_def ok_part_eq_Some)

lemma b_split_descriptor_fields:
  "kvs \<noteq> [] \<Longrightarrow> list_all field_ok kvs \<Longrightarrow> distinct (map fst kvs) \<Longrightarrow>
     b_split_descriptor (fields_text kvs) = Inr (bt.insert_all (map (\<lambda>(k, e, v). (k, v)) kvs) [])"
  by (simp add: b_split_descriptor_eq split_descriptor_fields)

text \<open>Any map with the fields of the binding decodes to it, whatever else the map holds.\<close>

definition binding_field_list :: "proposed_binding \<Rightarrow> (string \<times> string) list" where
  "binding_field_list b = zip [''endpoint'', ''eclass'', ''escope'', ''equipment'', ''property'', ''pscope'', ''source'', ''unit'',
     ''mode'', ''requested'', ''effective'', ''feedback'', ''status''] (canonical_fields b)"

lemma decode_propose_fields:
  assumes "binding_ok b" "pb_mode b \<noteq> Some (UnknownMode ''-'')" "\<forall>(k, v) \<in> set (binding_field_list b). bt_get m k = Some v"
  shows "decode_propose m = Inr b"
proof -
  have m: "decode_mode (mode_text (pb_mode b)) = Inr (pb_mode b)"
    using assms(1,2) by (intro decode_mode_text) (auto simp: binding_ok_def)
  note f = assms(3) [unfolded binding_field_list_def canonical_fields_def, simplified]
  show ?thesis
    using assms(1) by (simp add: decode_propose_def f m binding_ok_def unit_parse_as_str)
qed

end
