(* ===== verification/Seal_Records.thy ===== *)
theory Seal_Records
  imports Framing Binding_Proposal
begin

text \<open>
  The vocabulary of sealing: the errors and limits of \<open>src/src/seal/mod.rs\<close> with those of the native
  facade (\<open>src/src/native/error.rs\<close>), digests (\<open>digest.rs\<close>) and the framed records of
  \<open>references.rs\<close>: row keys, content nodes, row and native references. Each record is read back from
  its encoding, and nothing but its encoding is read as the record.
\<close>

section \<open>Errors of the native facade\<close>

text \<open>The plan of a refused prune is carried as the text of its debug form.\<close>

datatype native_error =
    NInvalidInput string string
  | NUnsupportedFormat string
  | NCompatibility string
  | NAlreadyInitialized string string
  | NNotInitialized string string
  | NContention string
  | NBusy string
  | NResourceLimit string
  | NMaintenanceRequired string
  | NCustody string
  | NUnsupportedPlatform string
  | NCheckpointUncertain string
  | NFenced string
  | NIntegrity string
  | NSemantic string
  | NStatementRejected string
  | NIo string string
  | NLifecycle string string string

fun native_error_code :: "native_error \<Rightarrow> string" where
  "native_error_code (NInvalidInput _ _) = ''invalid-input''"
| "native_error_code (NUnsupportedFormat _) = ''unsupported-format''"
| "native_error_code (NCompatibility _) = ''compatibility-mismatch''"
| "native_error_code (NAlreadyInitialized _ _) = ''already-initialized''"
| "native_error_code (NNotInitialized _ _) = ''not-initialized''"
| "native_error_code (NContention _) = ''contention''"
| "native_error_code (NBusy _) = ''busy''"
| "native_error_code (NResourceLimit _) = ''resource-limit''"
| "native_error_code (NMaintenanceRequired _) = ''maintenance-required''"
| "native_error_code (NCustody _) = ''seal-custody''"
| "native_error_code (NUnsupportedPlatform _) = ''unsupported-platform''"
| "native_error_code (NCheckpointUncertain _) = ''checkpoint-uncertain''"
| "native_error_code (NFenced _) = ''fenced''"
| "native_error_code (NIntegrity _) = ''integrity''"
| "native_error_code (NSemantic _) = ''semantic''"
| "native_error_code (NStatementRejected _) = ''statement-rejected''"
| "native_error_code (NIo _ _) = ''io''"
| "native_error_code (NLifecycle _ _ _) = ''lifecycle''"

fun native_error_display :: "native_error \<Rightarrow> string" where
  "native_error_display (NInvalidInput what detail) = ''invalid '' @ what @ '': '' @ detail"
| "native_error_display (NUnsupportedFormat detail) = ''unsupported native format (refused before activation): '' @ detail"
| "native_error_display (NCompatibility detail) = ''native store identity mismatch (refused, never migrated): '' @ detail"
| "native_error_display (NAlreadyInitialized dir detail) =
     ''native store already initialized (refusing to overwrite): '' @ dir @ '' ('' @ detail @ '')''"
| "native_error_display (NNotInitialized dir detail) =
     ''no initialized native store (refusing to invent one): '' @ dir @ '' ('' @ detail @ '')''"
| "native_error_display (NContention detail) = ''native store lock retained by another owner: '' @ detail"
| "native_error_display (NBusy detail) = ''native admission saturated (refused, not queued): '' @ detail"
| "native_error_display (NResourceLimit detail) = ''native resource ceiling exhausted (refused before promise): '' @ detail"
| "native_error_display (NMaintenanceRequired detail) = ''native maintenance required: '' @ detail"
| "native_error_display (NCustody plan) = ''native prune refused by application seal custody: '' @ plan"
| "native_error_display (NUnsupportedPlatform detail) = ''native platform unsupported: '' @ detail"
| "native_error_display (NCheckpointUncertain detail) =
     ''native checkpoint uncertain (drop all owners and inspect on reopen; never retry blindly): '' @ detail"
| "native_error_display (NFenced detail) = ''native owner fenced after uncertainty (drop and reopen): '' @ detail"
| "native_error_display (NIntegrity detail) = ''native artifact integrity failure (no repair authorized): '' @ detail"
| "native_error_display (NSemantic detail) = ''native semantic rejection: '' @ detail"
| "native_error_display (NStatementRejected detail) = ''native statement rejected (not committed): '' @ detail"
| "native_error_display (NIo path message) = ''native io failure at '' @ quoted path @ '': '' @ message"
| "native_error_display (NLifecycle phase kind detail) = ''native lifecycle failure ['' @ phase @ ''/'' @ kind @ '']: '' @ detail"

text \<open>Only capacity is a maintenance error of the store.\<close>

fun storage_maintenance_error :: "native_error \<Rightarrow> storage_error option" where
  "storage_maintenance_error (NMaintenanceRequired detail) = Some (MaintenanceRequired detail)"
| "storage_maintenance_error _ = None"

section \<open>Errors and limits of sealing\<close>

definition max_nodes :: nat where "max_nodes = 64"
definition max_closure_depth :: nat where "max_closure_depth = 16"
definition max_closure_bytes :: nat where "max_closure_bytes = 262144"
definition max_manifest_bytes :: nat where "max_manifest_bytes = 60000"
definition max_artifact_bytes :: nat where "max_artifact_bytes = 2097152"
definition max_native_refs :: nat where "max_native_refs = 8"
definition max_live_seals :: nat where "max_live_seals = 32"
definition max_seal_history :: nat where "max_seal_history = 256"

datatype seal_error =
    SealInvalid string
  | SealMissing string
  | SealChanged string
  | SealStatus string
  | SealCycle
  | SealLimit string
  | SealedMutation
  | SealReleased
  | SealConflict string
  | SealUnknown operation_id string
  | SealHashTool string
  | SealIo string
  | SealStorage storage_error
  | SealBinding binding_error
  | SealAccess access_error
  | SealNative native_error

fun seal_error_code :: "seal_error \<Rightarrow> string" where
  "seal_error_code (SealInvalid _) = ''seal-invalid''"
| "seal_error_code (SealMissing _) = ''seal-missing-reference''"
| "seal_error_code (SealChanged _) = ''seal-reference-changed''"
| "seal_error_code (SealStatus _) = ''seal-status-refused''"
| "seal_error_code SealCycle = ''seal-reference-cycle''"
| "seal_error_code (SealLimit _) = ''seal-limit''"
| "seal_error_code SealedMutation = ''sealed-mutation''"
| "seal_error_code SealReleased = ''seal-released''"
| "seal_error_code (SealConflict _) = ''seal-conflict''"
| "seal_error_code (SealUnknown _ _) = ''seal-unknown''"
| "seal_error_code (SealHashTool _) = ''seal-sha256-unavailable''"
| "seal_error_code (SealIo _) = ''seal-io''"
| "seal_error_code (SealStorage e) = storage_error_code e"
| "seal_error_code (SealBinding e) = binding_error_code e"
| "seal_error_code (SealAccess e) = access_error_code e"
| "seal_error_code (SealNative e) = native_error_code e"

section \<open>The codec under its errors\<close>

fun seal_frame_error :: "frame_error \<Rightarrow> seal_error" where
  "seal_frame_error FrameBytes = SealLimit ''encoded bytes''"
| "seal_frame_error FrameFields = SealLimit ''encoded fields''"
| "seal_frame_error FrameFraming = SealInvalid ''field length''"
| "seal_frame_error FrameNumber = SealInvalid ''integer''"
| "seal_frame_error FrameNoncanonical = SealInvalid ''noncanonical integer''"
| "seal_frame_error FrameBoundary = SealInvalid ''field boundary''"

definition seal_decode :: "string \<Rightarrow> nat \<Rightarrow> nat \<Rightarrow> seal_error + string list" where
  "seal_decode raw max_bytes max_fields = map_err seal_frame_error (frames_decode raw max_bytes max_fields)"

definition seal_u64 :: "string \<Rightarrow> seal_error + u64" where
  "seal_u64 raw = map_err seal_frame_error (number_u64 raw)"

definition seal_u32 :: "string \<Rightarrow> seal_error + u32" where
  "seal_u32 raw = map_err seal_frame_error (number_u32 raw)"

definition seal_i64 :: "string \<Rightarrow> seal_error + int" where
  "seal_i64 raw = map_err seal_frame_error (number_i64 raw)"

text \<open>A control character in UTF-8: below the space, \<open>DEL\<close>, or one of the C1 block.\<close>

fun has_control :: "string \<Rightarrow> bool" where
  "has_control [] = False"
| "has_control (c # s) \<longleftrightarrow> byte c < 0x20 \<or> byte c = 0x7F \<or>
     byte c = 0xC2 \<and> (case s of d # _ \<Rightarrow> 0x80 \<le> byte d \<and> byte d \<le> 0x9F | [] \<Rightarrow> False) \<or> has_control s"

definition seal_text :: "string \<Rightarrow> seal_error + string" where
  "seal_text raw =
     (if raw = [] \<or> length raw > 256 \<or> has_control raw then Inl (SealInvalid ''inert reference text'') else Inr raw)"

section \<open>Digests\<close>

type_synonym digest = string

definition digest_ok :: "string \<Rightarrow> bool" where
  "digest_ok raw \<longleftrightarrow> length raw = 64 \<and> list_all (\<lambda>c. is_ascii_digit c \<or> CHR ''a'' \<le> c \<and> c \<le> CHR ''f'') raw"

definition digest_parse :: "string \<Rightarrow> seal_error + digest" where
  "digest_parse raw = (if digest_ok raw then Inr raw else Inl (SealInvalid ''SHA-256 hex''))"

text \<open>The hash tool is an external program: its answer on bytes within the limit is a parameter.\<close>

definition sha_hash :: "(string \<Rightarrow> seal_error + digest) \<Rightarrow> string \<Rightarrow> seal_error + digest" where
  "sha_hash tool bytes = (if length bytes > max_artifact_bytes then Inl (SealLimit ''hash input bytes'') else tool bytes)"

section \<open>Row keys\<close>

datatype row_key = RowKey (rk_operation: operation_id) (rk_sequence: u64)

instantiation row_key :: linorder
begin

definition less_eq_row_key :: "row_key \<Rightarrow> row_key \<Rightarrow> bool" where
  "less_eq_row_key a b \<longleftrightarrow> rk_operation a < rk_operation b \<or> rk_operation a = rk_operation b \<and> rk_sequence a \<le> rk_sequence b"

definition less_row_key :: "row_key \<Rightarrow> row_key \<Rightarrow> bool" where
  "less_row_key a b \<longleftrightarrow> rk_operation a < rk_operation b \<or> rk_operation a = rk_operation b \<and> rk_sequence a < rk_sequence b"

instance
  by standard (auto simp: less_eq_row_key_def less_row_key_def intro: row_key.expand)

end

definition row_key_new :: "operation_id \<Rightarrow> u64 \<Rightarrow> seal_error + row_key" where
  "row_key_new operation sequence =
     (if sequence = 0 then Inl (SealInvalid ''row sequence'') else Inr (RowKey operation sequence))"

definition row_key_encode :: "row_key \<Rightarrow> string" where
  "row_key_encode k = frames_encode [rk_operation k, show_word (rk_sequence k)]"

definition row_key_decode :: "string \<Rightarrow> seal_error + row_key" where
  "row_key_decode raw =
     and_then (seal_decode raw 512 2) (\<lambda>f.
       if length f \<noteq> 2 then Inl (SealInvalid ''row key'')
       else
     and_then (map_err (\<lambda>_. SealInvalid ''row operation'') (id_parse operation_id_kind (f ! 0))) (\<lambda>operation.
     and_then (seal_u64 (f ! 1)) (\<lambda>sequence. row_key_new operation sequence)))"

definition row_key_predicate :: "row_key \<Rightarrow> string" where
  "row_key_predicate k =
     ''operation='' @ sql_quote (rk_operation k) @ '' AND seq='' @ sql_quote (show_word (rk_sequence k))"

section \<open>Content nodes\<close>

record content_node =
  cn_payload :: string
  cn_children :: "row_key list"

definition content_node_new :: "string \<Rightarrow> row_key list \<Rightarrow> seal_error + content_node" where
  "content_node_new payload children =
     (if length payload > 16384 \<or> length children > max_nodes then Inl (SealLimit ''content node'')
      else Inr \<lparr>cn_payload = payload, cn_children = remdups (sort children)\<rparr>)"

definition content_node_text :: "content_node \<Rightarrow> string" where
  "content_node_text n =
     frames_encode [''verdant-content-v1'', ''valid-structural'', cn_payload n,
       frames_encode (map row_key_encode (cn_children n))]"

definition content_node_value :: "content_node \<Rightarrow> val" where
  "content_node_value n = VText (content_node_text n)"

definition content_children :: "string \<Rightarrow> seal_error + row_key list" where
  "content_children raw =
     and_then (seal_decode raw max_closure_bytes 4) (\<lambda>f.
       if length f \<noteq> 4 \<or> f ! 0 \<noteq> ''verdant-content-v1'' then Inl (SealInvalid ''content node format'')
       else if f ! 1 \<noteq> ''valid-structural'' then Inl (SealStatus (f ! 1))
       else if length (f ! 2) > 16384 then Inl (SealLimit ''content payload'')
       else and_then (seal_decode (f ! 3) max_closure_bytes max_nodes) (collect_res row_key_decode))"

section \<open>Row references and native references\<close>

record row_ref =
  rw_key :: row_key
  rw_digest :: digest
  rw_bytes :: u64

definition row_ref_encode :: "row_ref \<Rightarrow> string" where
  "row_ref_encode r = frames_encode [row_key_encode (rw_key r), rw_digest r, show_word (rw_bytes r)]"

definition row_ref_decode :: "string \<Rightarrow> seal_error + row_ref" where
  "row_ref_decode raw =
     and_then (seal_decode raw 1024 3) (\<lambda>f.
       if length f \<noteq> 3 then Inl (SealInvalid ''row reference'')
       else
     and_then (row_key_decode (f ! 0)) (\<lambda>key.
     and_then (digest_parse (f ! 1)) (\<lambda>d.
     and_then (seal_u64 (f ! 2)) (\<lambda>n. Inr \<lparr>rw_key = key, rw_digest = d, rw_bytes = n\<rparr>))))"

record native_ref =
  nr_store :: string
  nr_generation :: u64
  nr_manifest_digest :: digest
  nr_manifest_bytes :: u64
  nr_snapshot_digest :: digest
  nr_snapshot_bytes :: u64
  nr_selene_digest :: string

definition native_ref_encode :: "native_ref \<Rightarrow> string" where
  "native_ref_encode r =
     frames_encode [nr_store r, show_word (nr_generation r), nr_manifest_digest r, show_word (nr_manifest_bytes r),
       nr_snapshot_digest r, show_word (nr_snapshot_bytes r), nr_selene_digest r]"

definition native_ref_decode :: "string \<Rightarrow> seal_error + native_ref" where
  "native_ref_decode raw =
     and_then (seal_decode raw 8192 7) (\<lambda>f.
       if length f \<noteq> 7 then Inl (SealInvalid ''native reference'')
       else
     and_then (seal_u64 (f ! 1)) (\<lambda>generation.
     and_then (digest_parse (f ! 2)) (\<lambda>manifest_digest.
     and_then (seal_u64 (f ! 3)) (\<lambda>manifest_bytes.
     and_then (digest_parse (f ! 4)) (\<lambda>snapshot_digest.
     and_then (seal_u64 (f ! 5)) (\<lambda>snapshot_bytes.
     and_then (digest_parse (f ! 6)) (\<lambda>selene_digest.
       if generation = 0 \<or> unat manifest_bytes > max_artifact_bytes \<or> unat snapshot_bytes > max_artifact_bytes
       then Inl (SealLimit ''native reference'')
       else Inr \<lparr>nr_store = f ! 0, nr_generation = generation, nr_manifest_digest = manifest_digest,
                 nr_manifest_bytes = manifest_bytes, nr_snapshot_digest = snapshot_digest,
                 nr_snapshot_bytes = snapshot_bytes, nr_selene_digest = selene_digest\<rparr>)))))))"

section \<open>What is read is what was written\<close>

definition row_key_ok :: "row_key \<Rightarrow> bool" where
  "row_key_ok k \<longleftrightarrow> id_ok (rk_operation k) \<and> rk_sequence k \<noteq> 0"

definition row_ref_ok :: "row_ref \<Rightarrow> bool" where
  "row_ref_ok r \<longleftrightarrow> row_key_ok (rw_key r) \<and> digest_ok (rw_digest r)"

definition native_ref_ok :: "native_ref \<Rightarrow> bool" where
  "native_ref_ok r \<longleftrightarrow> nr_generation r \<noteq> 0 \<and> digest_ok (nr_manifest_digest r) \<and> digest_ok (nr_snapshot_digest r) \<and>
     digest_ok (nr_selene_digest r) \<and> unat (nr_manifest_bytes r) \<le> max_artifact_bytes \<and>
     unat (nr_snapshot_bytes r) \<le> max_artifact_bytes"

lemma length_show_nat: "n < 10 ^ k \<Longrightarrow> 0 < k \<Longrightarrow> length (show_nat n) \<le> k"
proof (induction k arbitrary: n)
  case (Suc k)
  show ?case
  proof (cases "n < 10")
    case True
    then show ?thesis by (simp add: show_nat.simps)
  next
    case False
    then have "n div 10 < 10 ^ k" "0 < k" using Suc.prems(1) by (cases k; auto simp: less_mult_imp_div_less mult.commute)+
    with Suc.IH False show ?thesis by (simp add: show_nat.simps [of n])
  qed
qed simp

lemma length_show_u64: "length (show_word (w :: u64)) \<le> 20"
proof -
  have "unat w < 2 ^ 64" using unsigned_less [of w] by simp
  also have "\<dots> < (10 :: nat) ^ 20" by simp
  finally show ?thesis using length_show_nat [of "unat w" 20] by (simp add: show_word_def)
qed

lemma length_frame_le: "length s \<le> n \<Longrightarrow> n < 10 ^ k \<Longrightarrow> 0 < k \<Longrightarrow> length (frame s) \<le> n + k + 1"
  using length_show_nat [of "length s" k] by (simp add: frame_def)

lemma frames_encode_simps [simp]: "frames_encode [] = []" "frames_encode (f # fs) = frame f @ frames_encode fs"
  by (simp_all add: frames_encode_def)

lemma digest_ok_length: "digest_ok d \<Longrightarrow> length d = 64"
  by (simp add: digest_ok_def)

lemma digest_ok_utf8 [simp]: "digest_ok d \<Longrightarrow> utf8_valid d"
  by (rule utf8_valid_all_ascii) (auto simp: digest_ok_def list_all_iff is_ascii_digit_def less_eq_char_def)

lemma digest_parse_eq [simp]: "digest_parse raw = Inr d \<longleftrightarrow> d = raw \<and> digest_ok raw"
  by (auto simp: digest_parse_def)

lemma seal_decode_sound: "seal_decode raw m n = Inr fs \<Longrightarrow> raw = frames_encode fs \<and> length fs \<le> n \<and> length raw \<le> m"
  by (auto simp: seal_decode_def dest: frames_decode_sound)

lemma seal_number_eq [simp]:
  "seal_u64 raw = Inr w \<longleftrightarrow> raw = show_word w" "seal_u32 raw = Inr v \<longleftrightarrow> raw = show_word v"
  "seal_i64 raw = Inr i \<longleftrightarrow> raw = show_int i \<and> in_i64 i"
  by (simp_all add: seal_u64_def seal_u32_def seal_i64_def)

lemma seal_number_show [simp]:
  "seal_u64 (show_word w) = Inr w" "seal_u32 (show_word v) = Inr v" "in_i64 i \<Longrightarrow> seal_i64 (show_int i) = Inr i"
  by simp_all

lemma seal_decode_encode:
  "\<forall>f \<in> set fs. utf8_valid f \<Longrightarrow> length fs \<le> n \<Longrightarrow> length (frames_encode fs) \<le> m \<Longrightarrow> m < 2 ^ 64 \<Longrightarrow>
     seal_decode (frames_encode fs) m n = Inr fs"
  by (simp add: seal_decode_def frames_decode_encode del: frames_encode_simps)

lemma lengths:
  "length f = 2 \<longleftrightarrow> (\<exists>a b. f = [a, b])" "length f = 3 \<longleftrightarrow> (\<exists>a b c. f = [a, b, c])"
  "length f = 4 \<longleftrightarrow> (\<exists>a b c d. f = [a, b, c, d])"
  "length f = 7 \<longleftrightarrow> (\<exists>a b c d e g h. f = [a, b, c, d, e, g, h])"
  by (auto simp: eval_nat_numeral length_Suc_conv)

lemma row_key_decode_sound: "row_key_decode raw = Inr k \<Longrightarrow> row_key_ok k \<and> raw = row_key_encode k"
  by (auto simp: row_key_decode_def row_key_new_def row_key_ok_def row_key_encode_def lengths dest!: seal_decode_sound
      split: if_splits simp del: frames_encode_simps)

lemma row_key_encode_length: "id_ok (rk_operation k) \<Longrightarrow> length (row_key_encode k) \<le> 155"
proof -
  assume "id_ok (rk_operation k)"
  then have "length (frame (rk_operation k)) \<le> 132" using length_frame_le [of "rk_operation k" 128 3] by (simp add: id_ok_def max_id_len_def)
  moreover have "length (frame (show_word (rk_sequence k))) \<le> 23" using length_frame_le [OF length_show_u64 [of "rk_sequence k"], of 2] by simp
  ultimately show ?thesis by (simp add: row_key_encode_def)
qed

lemma row_key_encode_utf8: "id_ok (rk_operation k) \<Longrightarrow> utf8_valid (row_key_encode k)"
  unfolding row_key_encode_def by (rule frames_utf8) simp

lemma row_key_round_trip: "row_key_ok k \<Longrightarrow> row_key_decode (row_key_encode k) = Inr k"
  using row_key_encode_length [of k]
  by (simp add: row_key_decode_def row_key_ok_def row_key_encode_def row_key_new_def seal_decode_encode del: frames_encode_simps)

lemma row_ref_decode_sound: "row_ref_decode raw = Inr r \<Longrightarrow> row_ref_ok r \<and> raw = row_ref_encode r"
  by (auto simp: row_ref_decode_def row_ref_ok_def row_ref_encode_def lengths dest!: seal_decode_sound row_key_decode_sound
      split: if_splits simp del: frames_encode_simps)

lemma row_ref_round_trip: "row_ref_ok r \<Longrightarrow> row_ref_decode (row_ref_encode r) = Inr r"
proof -
  assume r: "row_ref_ok r"
  then have "length (row_ref_encode r) \<le> 1024"
    using length_frame_le [OF row_key_encode_length [of "rw_key r"], of 3] length_frame_le [of "rw_digest r" 64 2]
      length_frame_le [OF length_show_u64 [of "rw_bytes r"], of 2]
    by (simp add: row_ref_encode_def row_ref_ok_def row_key_ok_def digest_ok_length)
  with r show ?thesis
    by (simp add: row_ref_decode_def row_ref_encode_def row_ref_ok_def row_key_ok_def row_key_encode_utf8 seal_decode_encode
        row_key_round_trip [unfolded row_key_ok_def] del: frames_encode_simps)
qed

lemma native_ref_decode_sound: "native_ref_decode raw = Inr r \<Longrightarrow> native_ref_ok r \<and> raw = native_ref_encode r"
  by (auto simp: native_ref_decode_def native_ref_ok_def native_ref_encode_def lengths dest!: seal_decode_sound
      split: if_splits simp del: frames_encode_simps)

lemma native_ref_round_trip:
  assumes "native_ref_ok r" "utf8_valid (nr_store r)" "length (native_ref_encode r) \<le> 8192"
  shows "native_ref_decode (native_ref_encode r) = Inr r"
  using assms by (simp add: native_ref_decode_def native_ref_encode_def native_ref_ok_def seal_decode_encode not_less
      del: frames_encode_simps)

end
