(* ===== verification/Registry.thy ===== *)
theory Registry
  imports Binding_Proposal
begin

text \<open>
  The binding registry: \<open>src/src/binding/registry.rs\<close>, its replay (\<open>history.rs\<close>), its writer
  (\<open>writer.rs\<close>) and its use of the access gate (\<open>authority.rs\<close>). The registry is a cache of the binding
  rows of the outbox: every operation replays them first, appends one guarded row and then applies
  the same change to the cache. The store is seen through the columns of its scans and the outcome
  of a submitted row; an operation returns the registry it leaves beside its result.
\<close>

section \<open>State\<close>

definition op_equipment_text :: string where "op_equipment_text = ''binding-equipment''"
definition op_space_text :: string where "op_space_text = ''binding-space''"
definition op_source_text :: string where "op_source_text = ''binding-source''"
definition op_point_text :: string where "op_point_text = ''binding-point''"
definition op_propose_text :: string where "op_propose_text = ''binding-propose''"
definition op_retire_text :: string where "op_retire_text = ''binding-retire''"
definition op_finding_text :: string where "op_finding_text = ''binding-finding''"
definition binding_sensor_text :: string where "binding_sensor_text = ''sensor-sat-1''"
definition binding_unit_text :: string where "binding_unit_text = ''binding-event''"

lemmas binding_op_texts = op_equipment_text_def op_space_text_def op_source_text_def op_point_text_def
  op_propose_text_def op_retire_text_def op_finding_text_def

definition binding_operations :: "string list" where
  "binding_operations = [op_equipment_text, op_space_text, op_source_text, op_point_text, op_propose_text,
     op_retire_text, op_finding_text]"

record registry =
  rg_revision :: binding_revision
  rg_sequence :: u64
  rg_guard :: string
  rg_equipment :: "(string \<times> equipment_record) list"
  rg_spaces :: "(string \<times> space_record) list"
  rg_sources :: "(string \<times> source_record) list"
  rg_points :: "(string \<times> point_record) list"
  rg_bindings :: "proposed_binding list"
  rg_findings :: "finding list"
  rg_retired :: "string set"
  rg_retired_addrs :: "string set"
  rg_reassessment :: "string set"

definition cleared_registry :: "nat \<Rightarrow> registry" where
  "cleared_registry n =
     \<lparr>rg_revision = 0, rg_sequence = 0,
      rg_guard = ''(SELECT COUNT(*) FROM outbox WHERE operation LIKE 'binding-%')='' @ show_nat n,
      rg_equipment = [], rg_spaces = [], rg_sources = [], rg_points = [], rg_bindings = [], rg_findings = [],
      rg_retired = {}, rg_retired_addrs = {}, rg_reassessment = {}\<rparr>"

definition bump_revision :: "registry \<Rightarrow> registry" where
  "bump_revision r = r\<lparr>rg_revision := (if rg_revision r = - 1 then - 1 else rg_revision r + 1)\<rparr>"

definition point_key :: "string \<Rightarrow> string \<Rightarrow> string" where
  "point_key equipment property = equipment @ '':'' @ property"

section \<open>Rows\<close>

record history_row =
  hr_id :: int
  hr_sequence :: u64
  hr_operation :: string
  hr_entity :: string
  hr_descriptor :: string
  hr_value_json :: string

definition decode_row :: "string list \<Rightarrow> binding_error + history_row" where
  "decode_row cols =
     (if length cols \<noteq> 5
      then Inl (BInvalidRecord (''binding scan row has '' @ show_nat (length cols) @ '' columns, expected 5''))
      else
     and_then (b_unquote_column (cols ! 0)) (\<lambda>o'.
     and_then (ok_or (BInvalidRecord ''binding operation is NULL'') o') (\<lambda>operation.
       if operation \<notin> set binding_operations
       then Inl (BInvalidRecord (''unexpected binding operation '' @ quoted operation))
       else
     and_then (b_unquote_column (cols ! 2)) (\<lambda>v'.
     and_then (ok_or (BInvalidRecord ''binding value is NULL'') v') (\<lambda>value_json.
     and_then (map_err (\<lambda>e. BInvalidRecord (''binding value invalid: '' @ error_display e)) (value_from_json value_json)) (\<lambda>v.
     and_then (b_unquote_column (cols ! 1)) (\<lambda>e'.
     and_then (ok_or (BInvalidRecord ''binding entity is NULL'') e') (\<lambda>entity.
     and_then (ok_or (BInvalidRecord ''binding row identity invalid'')
         (case parse_i64 (cols ! 3) of Some n \<Rightarrow> if n > 0 then Some n else None | None \<Rightarrow> None)) (\<lambda>row_id.
     and_then (ok_or (BInvalidRecord ''binding sequence invalid'') (parse_u64 (cols ! 4))) (\<lambda>seq.
       case v of
         VText descriptor \<Rightarrow>
           Inr \<lparr>hr_id = row_id, hr_sequence = seq, hr_operation = operation, hr_entity = entity,
                hr_descriptor = descriptor, hr_value_json = value_json\<rparr>
       | _ \<Rightarrow> Inl (BInvalidRecord ''binding value is not text'')))))))))))"

fun decode_rows :: "string list list \<Rightarrow> binding_error + history_row list" where
  "decode_rows [] = Inr []"
| "decode_rows (cols # rows) =
     and_then (decode_row cols) (\<lambda>row. map_ok (\<lambda>out. row # out) (decode_rows rows))"

definition read_descriptors :: "storage_error + string list list \<Rightarrow> binding_error + history_row list" where
  "read_descriptors scan = and_then (map_err BStore scan) decode_rows"

section \<open>Replay\<close>

definition stored_revision :: "texts \<Rightarrow> binding_error + binding_revision" where
  "stored_revision m =
     and_then (b_require_field m ''revision'') (\<lambda>raw.
       ok_or (BInvalidRecord ''stored revision unreadable'') (parse_u32 raw))"

definition actor_text :: "string \<Rightarrow> string \<Rightarrow> u32 \<Rightarrow> string \<Rightarrow> string" where
  "actor_text cap scope generation issuer = join_on (CHR '';'')
     [part ''capability'' (pct_encode cap), part ''scope'' (pct_encode scope),
      part ''capgen'' (show_word generation), part ''issuer'' (pct_encode issuer)]"

definition stored_actor :: "texts \<Rightarrow> binding_error + string" where
  "stored_actor m =
     (let bad = BInvalidRecord ''invalid stored actor reference''
      in and_then (b_require_field m ''capability'') (\<lambda>cap.
         and_then (b_require_field m ''scope'') (\<lambda>scope.
         and_then (b_require_field m ''capgen'') (\<lambda>generation.
         and_then (b_require_field m ''issuer'') (\<lambda>issuer.
         and_then (map_err (\<lambda>_. bad) (access_id_parse capability_name_kind cap)) (\<lambda>_.
         and_then (map_err (\<lambda>_. bad) (trusted_scope_parse scope)) (\<lambda>_.
         and_then (map_err (\<lambda>_. bad) (access_id_parse issuer_id_kind issuer)) (\<lambda>_.
         and_then (ok_or bad (parse_u32 generation)) (\<lambda>g.
           if g = 0 \<or> bt_get m ''fp'' \<noteq> None \<or> bt_get m ''key'' \<noteq> None \<or> bt_get m ''key_id'' \<noteq> None
           then Inl bad else Inr (actor_text cap scope g issuer))))))))))"

definition stored_scope :: "string \<Rightarrow> string \<Rightarrow> binding_error + trusted_scope" where
  "stored_scope what raw =
     map_err (\<lambda>e. BInvalidRecord (''stored '' @ what @ '' scope invalid: '' @ error_display e)) (trusted_scope_parse raw)"

definition replay_equipment :: "texts \<Rightarrow> registry \<Rightarrow> binding_error + registry" where
  "replay_equipment m r =
     and_then (b_require_field m ''id'') (\<lambda>i.
     and_then (b_require_field m ''ekind'') (\<lambda>ekind.
     and_then (b_require_field m ''scope'') (\<lambda>scope.
     and_then (b_require_field m ''label'') (\<lambda>label.
     and_then (b_require_field m ''address'') (\<lambda>address.
     and_then (equipment_kind_parse ekind) (\<lambda>kind.
     and_then (stored_scope ''equipment'' scope) (\<lambda>sc.
     and_then (equipment_record_parse i kind sc label address) (\<lambda>rec.
       Inr (bump_revision (r\<lparr>
         rg_reassessment := (if eq_address rec \<in> rg_retired_addrs r then insert i (rg_reassessment r) else rg_reassessment r),
         rg_equipment := bt_insert i rec (rg_equipment r)\<rparr>))))))))))"

definition replay_space :: "texts \<Rightarrow> registry \<Rightarrow> binding_error + registry" where
  "replay_space m r =
     and_then (b_require_field m ''id'') (\<lambda>i.
     and_then (b_require_field m ''scope'') (\<lambda>scope.
     and_then (b_require_field m ''label'') (\<lambda>label.
     and_then (stored_scope ''space'' scope) (\<lambda>sc.
     and_then (space_record_parse i sc label) (\<lambda>rec.
       Inr (bump_revision (r\<lparr>rg_spaces := bt_insert i rec (rg_spaces r)\<rparr>)))))))"

definition replay_source :: "texts \<Rightarrow> registry \<Rightarrow> binding_error + registry" where
  "replay_source m r =
     and_then (b_require_field m ''id'') (\<lambda>i.
     and_then (b_require_field m ''scope'') (\<lambda>scope.
     and_then (b_require_field m ''label'') (\<lambda>label.
     and_then (stored_scope ''source'' scope) (\<lambda>sc.
     and_then (source_record_parse i sc label) (\<lambda>rec.
       Inr (bump_revision (r\<lparr>rg_sources := bt_insert i rec (rg_sources r)\<rparr>)))))))"

definition replay_point :: "texts \<Rightarrow> registry \<Rightarrow> binding_error + registry" where
  "replay_point m r =
     and_then (b_require_field m ''equipment'') (\<lambda>equipment.
     and_then (b_require_field m ''property'') (\<lambda>property.
     and_then (b_require_field m ''scope'') (\<lambda>scope.
     and_then (b_require_field m ''unit'') (\<lambda>u.
     and_then (b_require_field m ''eclass'') (\<lambda>eclass.
     and_then (stored_scope ''point'' scope) (\<lambda>sc.
     and_then (endpoint_class_parse eclass) (\<lambda>class.
     and_then (point_record_parse equipment property sc u class) (\<lambda>rec.
       Inr (bump_revision (r\<lparr>rg_points := bt_insert (point_key equipment property) rec (rg_points r)\<rparr>))))))))))"

definition replay_propose :: "texts \<Rightarrow> registry \<Rightarrow> binding_error + registry" where
  "replay_propose m r =
     and_then (stored_actor m) (\<lambda>_.
     and_then (decode_propose m) (\<lambda>b.
       Inr (bump_revision (r\<lparr>rg_bindings := rg_bindings r @ [b]\<rparr>))))"

definition replay_retire :: "texts \<Rightarrow> registry \<Rightarrow> binding_error + registry" where
  "replay_retire m r =
     and_then (b_require_field m ''id'') (\<lambda>i.
     and_then (b_require_field m ''address'') (\<lambda>address.
     and_then (b_require_field m ''reason'') (\<lambda>_.
       Inr (bump_revision (r\<lparr>rg_retired := insert i (rg_retired r), rg_retired_addrs := insert address (rg_retired_addrs r)\<rparr>)))))"

definition replay_finding :: "texts \<Rightarrow> registry \<Rightarrow> binding_error + registry" where
  "replay_finding m r =
     and_then (b_require_field m ''fid'') (\<lambda>fid_raw.
     and_then (map_err (\<lambda>e. BInvalidRecord (''stored finding id invalid: '' @ binding_error_display e)) (finding_id_parse fid_raw)) (\<lambda>fid.
     and_then (b_require_field m ''generation'') (\<lambda>generation_raw.
     and_then (ok_or (BInvalidRecord (''finding generation unreadable: '' @ quoted generation_raw)) (parse_u32 generation_raw)) (\<lambda>generation.
     and_then (b_require_field m ''revision'') (\<lambda>revision_raw.
     and_then (ok_or (BInvalidRecord (''finding revision unreadable: '' @ quoted revision_raw)) (parse_u32 revision_raw)) (\<lambda>revision.
     and_then (b_require_field m ''digest'') (\<lambda>digest.
       if digest = [] then Inl (BInvalidRecord ''stored finding digest must not be empty'') else
     and_then (b_require_field m ''summary'') (\<lambda>summary.
       if summary = [] then Inl (BInvalidRecord ''stored finding summary must not be empty'') else
     and_then (stored_actor m) (\<lambda>actor.
       if generation \<noteq> revision then Inl (BInvalidRecord ''finding generation differs from revision'') else
     and_then (b_require_field m ''equipment'') (\<lambda>_.
     and_then (b_require_field m ''property'') (\<lambda>_.
       Inr (r\<lparr>rg_findings := rg_findings r @
         [\<lparr>fi_id = fid, fi_generation = generation, fi_revision = revision, fi_digest = digest, fi_summary = summary,
           fi_actor = actor\<rparr>]\<rparr>))))))))))))"

definition apply_kind :: "string \<Rightarrow> string \<Rightarrow> texts \<Rightarrow> registry \<Rightarrow> binding_error + registry" where
  "apply_kind operation kind m r =
     (if operation = op_equipment_text \<and> kind = ''equipment'' then replay_equipment m r
      else if operation = op_space_text \<and> kind = ''space'' then replay_space m r
      else if operation = op_source_text \<and> kind = ''source'' then replay_source m r
      else if operation = op_point_text \<and> kind = ''point'' then replay_point m r
      else if operation = op_propose_text \<and> kind = ''propose'' then replay_propose m r
      else if operation = op_retire_text \<and> kind = ''retire'' then replay_retire m r
      else if operation = op_finding_text \<and> kind = ''finding'' then replay_finding m r
      else Inl (BInvalidRecord (''unexpected binding operation '' @ quoted operation @ '' kind '' @ quoted kind)))"

definition apply_row :: "history_row \<Rightarrow> registry \<Rightarrow> binding_error + registry" where
  "apply_row row r =
     and_then (b_split_descriptor (hr_descriptor row)) (\<lambda>m.
     and_then (b_require_field m ''v'') (\<lambda>version.
       if version \<noteq> ''2'' then Inl (BInvalidRecord (''unsupported binding descriptor version '' @ quoted version))
       else
     and_then (stored_revision m) (\<lambda>revision.
       if revision \<noteq> rg_revision r then Inl (BInvalidRecord ''binding row revision does not match durable predecessor'')
       else
     and_then (b_require_field m ''kind'') (\<lambda>kind. apply_kind (hr_operation row) kind m r))))"

definition row_guard :: "history_row \<Rightarrow> string" where
  "row_guard row =
     '' AND EXISTS(SELECT 1 FROM outbox WHERE id='' @ show_int (hr_id row) @ '' AND operation='' @ sql_quote (hr_operation row) @
     '' AND entity='' @ sql_quote (hr_entity row) @ '' AND value_json='' @ sql_quote (hr_value_json row) @
     '' AND seq='' @ sql_quote (show_word (hr_sequence row)) @ '')''"

fun replay_rows :: "u64 \<Rightarrow> history_row list \<Rightarrow> registry \<Rightarrow> registry \<times> (binding_error + unit)" where
  "replay_rows count [] r = (r\<lparr>rg_sequence := count\<rparr>, Inr ())"
| "replay_rows count (row # rows) r =
     (if hr_sequence row \<noteq> count + 1
      then (r, Inl (BInvalidRecord ''binding history has a duplicate or missing sequence''))
      else (let r1 = r\<lparr>rg_guard := rg_guard r @ row_guard row\<rparr>
            in case apply_row row r1 of
                 Inl e \<Rightarrow> (r1, Inl e)
               | Inr r2 \<Rightarrow> replay_rows (count + 1) rows r2))"

definition replay :: "storage_error + string list list \<Rightarrow> registry \<Rightarrow> registry \<times> (binding_error + unit)" where
  "replay scan r =
     (case read_descriptors scan of
        Inl e \<Rightarrow> (r, Inl e)
      | Inr rows \<Rightarrow> replay_rows 0 rows (cleared_registry (length rows)))"

end
