(* ===== verification/Seal_Closure.thy ===== *)
theory Seal_Closure
  imports Seal_Records Registry
begin

text \<open>
  The closure of a seal (\<open>src/src/seal/references.rs\<close>): a depth-first walk from the roots over the
  stored content rows, bounded in depth, edges, nodes and bytes, refusing cycles, and ending in
  binding findings whose fingerprints are checked against the descriptors they come from.
\<close>

section \<open>Fingerprints of findings\<close>

text \<open>
  The walk reads the store by row key (the answer of its query, at most two rows) and hashes with the
  external tool.
\<close>

record source_view =
  sv_rows :: "row_key \<Rightarrow> storage_error + string list list"
  sv_tool :: "string \<Rightarrow> seal_error + digest"

definition canonical_names :: "string list" where
  "canonical_names = [''endpoint'', ''eclass'', ''escope'', ''equipment'', ''property'', ''pscope'', ''source'', ''unit'',
     ''mode'', ''requested'', ''effective'', ''feedback'', ''status'']"

definition canonical_texts :: "string list \<Rightarrow> texts" where
  "canonical_texts parts = bt.insert_all (zip canonical_names parts) []"

definition finding_get :: "texts \<Rightarrow> string \<Rightarrow> seal_error + string" where
  "finding_get m k = map_err SealBinding (b_require_field m k)"

definition fingerprint_binding :: "string \<Rightarrow> trusted_scope \<Rightarrow> seal_error + proposed_binding" where
  "fingerprint_binding canonical scope =
     (let parts = split_on unit_separator canonical
      in if length parts \<noteq> 14 \<or> parts ! 0 \<noteq> ''binding-canonical-v2''
         then Inl (SealInvalid ''binding canonical version'')
         else and_then (map_err SealBinding (decode_propose (canonical_texts (tl parts)))) (\<lambda>b.
           case pb_status b of
             Imported \<Rightarrow> Inl (SealStatus ''imported'')
           | ObservedQualified \<Rightarrow> Inl (SealStatus ''observed-qualified has no supporting evidence'')
           | Valid \<Rightarrow>
               and_then (map_err SealBinding (propose (pb_endpoint b) (pb_class b) (pb_endpoint_scope b) (pb_equipment b)
                 (pb_property b) (pb_point_scope b) (pb_source b) (pb_unit b) (pb_class b) (pb_unit b) (pb_mode b)
                 (pb_requested b) (pb_effective b) (pb_feedback b))) (\<lambda>checked'.
               if checked' \<noteq> b \<or> pb_point_scope b \<noteq> scope then Inl (SealInvalid ''finding structure/scope'')
               else Inr b)))"

definition fingerprint_actor :: "texts \<Rightarrow> trusted_scope \<Rightarrow> seal_error + string" where
  "fingerprint_actor m scope =
     and_then (finding_get m ''capability'') (\<lambda>raw.
     and_then (map_err SealAccess (access_id_parse capability_name_kind raw)) (\<lambda>cap.
     and_then (finding_get m ''issuer'') (\<lambda>raw.
     and_then (map_err SealAccess (access_id_parse issuer_id_kind raw)) (\<lambda>issuer.
     and_then (finding_get m ''scope'') (\<lambda>raw.
     and_then (map_err (\<lambda>_. SealInvalid ''actor scope'') (trusted_scope_parse raw)) (\<lambda>actor_scope.
     and_then (finding_get m ''capgen'') (\<lambda>raw.
     and_then (seal_u32 raw) (\<lambda>capgen.
       if capgen = 0 \<or> actor_scope \<noteq> scope then Inl (SealInvalid ''actor reference'')
       else Inr (actor_text cap (scope_text scope) capgen issuer)))))))))"

definition finding_fingerprint :: "string \<Rightarrow> trusted_scope \<Rightarrow> (string \<Rightarrow> seal_error + digest) \<Rightarrow> seal_error + string" where
  "finding_fingerprint raw scope tool =
     and_then (map_err SealBinding (b_split_descriptor raw)) (\<lambda>m.
     and_then (finding_get m ''v'') (\<lambda>v.
       if v \<noteq> ''2'' then Inl (SealInvalid ''finding descriptor version'')
       else
     and_then (finding_get m ''kind'') (\<lambda>kind.
       if kind \<noteq> ''finding'' then Inl (SealInvalid ''finding descriptor version'')
       else
     and_then (finding_get m ''binding'') (\<lambda>canonical.
     and_then (fingerprint_binding canonical scope) (\<lambda>b.
     and_then (fingerprint_actor m scope) (\<lambda>actor.
     and_then (finding_get m ''generation'') (\<lambda>raw.
     and_then (seal_u32 raw) (\<lambda>generation.
       if generation = 0 then Inl (SealInvalid ''finding generation'')
       else
     and_then (finding_get m ''revision'') (\<lambda>raw.
     and_then (seal_u32 raw) (\<lambda>revision.
       if generation \<noteq> revision then Inl (SealInvalid ''finding generation'')
       else
         (let f = finding_for_binding b generation actor
          in and_then (finding_get m ''fid'') (\<lambda>fid.
               if fid \<noteq> fi_id f then Inl (SealChanged ''finding fingerprint/actor join'')
               else
             and_then (finding_get m ''digest'') (\<lambda>dg.
               if dg \<noteq> fi_digest f then Inl (SealChanged ''finding fingerprint/actor join'')
               else
             and_then (finding_get m ''summary'') (\<lambda>summary.
               if summary \<noteq> fi_summary f then Inl (SealChanged ''finding fingerprint/actor join'')
               else
             and_then (sha_hash tool canonical) (\<lambda>d.
               Inr (frames_encode [fi_id f, show_word generation, actor, ''synthetic-fnv1a64-not-authority'', fi_digest f,
                 ''binding-canonical-v2-sha256'', d]))))))))))))))))"

section \<open>Rows\<close>

definition seal_columns :: "string list" where
  "seal_columns = [''operation'', ''seq'', ''entity'', ''sensor'', ''value_json'', ''unit'', ''source_ms'', ''receipt_ms'',
     ''ingestion_ms'', ''generation'', ''id'']"

definition column_value :: "string \<times> string \<Rightarrow> seal_error + string" where
  "column_value p =
     (if fst p = ''id'' then Inr (snd p)
      else and_then (map_err SealBinding (b_unquote_column (snd p))) (\<lambda>v. ok_or (SealInvalid ''NULL source column'') v))"

text \<open>The one row a key addresses, its columns unquoted.\<close>

definition source_row :: "source_view \<Rightarrow> row_key \<Rightarrow> seal_error + string list" where
  "source_row sv k =
     and_then (map_err SealStorage (sv_rows sv k)) (\<lambda>rows.
     and_then (case rows of
         [row] \<Rightarrow> Inr row
       | [] \<Rightarrow> Inl (SealMissing (row_key_encode k))
       | _ \<Rightarrow> Inl (SealConflict ''ambiguous row address'')) (\<lambda>row.
       if length row \<noteq> length seal_columns then Inl (SealInvalid ''source row width'')
       else collect_res column_value (zip seal_columns row)))"

definition row_canonical :: "string list \<Rightarrow> string" where
  "row_canonical vals = frames_encode (take 10 vals)"

text \<open>What a row refers to: the children of a content node, or the fingerprint of a finding and none.\<close>

definition row_links :: "source_view \<Rightarrow> trusted_scope \<Rightarrow> row_key \<Rightarrow> string list \<Rightarrow>
    seal_error + row_key list \<times> string option" where
  "row_links sv scope k vals =
     and_then (map_err (\<lambda>_. SealInvalid ''source value'') (value_from_json (vals ! 4))) (\<lambda>v.
       case v of
         VText raw \<Rightarrow>
           if rk_operation k = op_finding_text
           then map_ok (\<lambda>f. ([], Some f)) (finding_fingerprint raw scope (sv_tool sv))
           else map_ok (\<lambda>cs. (cs, None)) (content_children raw)
       | _ \<Rightarrow> Inl (SealInvalid ''source text required''))"

definition row_clause :: "row_key \<Rightarrow> string list \<Rightarrow> string" where
  "row_clause k vals =
     '' AND (SELECT COUNT(*) FROM outbox WHERE '' @ row_key_predicate k @ '')=1 AND EXISTS(SELECT 1 FROM outbox WHERE '' @
     join_with '' AND '' (map (\<lambda>(c, v). c @ ''='' @ sql_quote v) (zip seal_columns vals)) @ '')''"

section \<open>The walk\<close>

record walker =
  wk_visiting :: "row_key set"
  wk_rows :: "(row_key \<times> row_ref) list"
  wk_findings :: "string set"
  wk_bytes :: u64
  wk_edges :: nat
  wk_guard :: string

definition add_bytes :: "string \<Rightarrow> walker \<Rightarrow> seal_error + walker" where
  "add_bytes canonical st =
     and_then (ok_or (SealLimit ''closure bytes'') (checked_add (wk_bytes st) (of_nat (length canonical)))) (\<lambda>total.
       if unat total > max_closure_bytes then Inl (SealLimit ''closure bytes'') else Inr (st\<lparr>wk_bytes := total\<rparr>))"

definition enter_row :: "source_view \<Rightarrow> trusted_scope \<Rightarrow> row_key \<Rightarrow> walker \<Rightarrow>
    seal_error + (string list \<times> row_key list \<times> walker)" where
  "enter_row sv scope k st =
     and_then (source_row sv k) (\<lambda>vals.
     and_then (add_bytes (row_canonical vals) (st\<lparr>wk_visiting := insert k (wk_visiting st)\<rparr>)) (\<lambda>st1.
     and_then (row_links sv scope k vals) (\<lambda>(children, f).
       Inr (vals, children,
         st1\<lparr>wk_findings := (case f of None \<Rightarrow> wk_findings st1 | Some x \<Rightarrow> insert x (wk_findings st1)),
             wk_guard := wk_guard st1 @ row_clause k vals\<rparr>))))"

definition leave_row :: "source_view \<Rightarrow> row_key \<Rightarrow> string list \<Rightarrow> walker \<Rightarrow> seal_error + walker" where
  "leave_row sv k vals st =
     and_then (sha_hash (sv_tool sv) (row_canonical vals)) (\<lambda>d.
       Inr (st\<lparr>wk_visiting := wk_visiting st - {k},
               wk_rows := bt_insert k \<lparr>rw_key = k, rw_digest = d, rw_bytes = of_nat (length (row_canonical vals))\<rparr> (wk_rows st)\<rparr>))"

lemma and_then_cong [fundef_cong]:
  "r = r' \<Longrightarrow> (\<And>x. r' = Inr x \<Longrightarrow> k x = k' x) \<Longrightarrow> and_then r k = and_then r' k'"
  by (cases r') auto

function visit :: "source_view \<Rightarrow> trusted_scope \<Rightarrow> row_key \<Rightarrow> nat \<Rightarrow> walker \<Rightarrow> seal_error + walker"
  and visit_all :: "source_view \<Rightarrow> trusted_scope \<Rightarrow> row_key list \<Rightarrow> nat \<Rightarrow> walker \<Rightarrow> seal_error + walker" where
  "visit sv scope k depth st0 =
     (let st = st0\<lparr>wk_edges := wk_edges st0 + 1\<rparr>
      in if depth > max_closure_depth \<or> wk_edges st > max_nodes * 4 then Inl (SealLimit ''closure depth/work'')
         else if k \<in> wk_visiting st then Inl SealCycle
         else if bt_get (wk_rows st) k \<noteq> None then Inr st
         else if length (wk_rows st) + card (wk_visiting st) \<ge> max_nodes then Inl (SealLimit ''closure nodes'')
         else and_then (enter_row sv scope k st) (\<lambda>(vals, children, st1).
              and_then (visit_all sv scope children (depth + 1) st1) (\<lambda>st2.
                leave_row sv k vals st2)))"
| "visit_all sv scope [] depth st = Inr st"
| "visit_all sv scope (k # ks) depth st =
     and_then (visit sv scope k depth st) (\<lambda>st1. visit_all sv scope ks depth st1)"
  by pat_completeness auto

termination
  by (relation "measures [\<lambda>x. case x of Inl (_, _, _, depth, _) \<Rightarrow> Suc max_closure_depth - depth
        | Inr (_, _, _, depth, _) \<Rightarrow> Suc max_closure_depth - depth,
      \<lambda>x. case x of Inl _ \<Rightarrow> 0 | Inr (_, _, ks, _, _) \<Rightarrow> Suc (length ks)]")
    (auto simp: max_closure_depth_def)

declare visit.simps [simp del]

record seal_closure =
  cl_rows :: "row_ref list"
  cl_findings :: "string list"
  cl_guard :: string

definition walker_start :: walker where
  "walker_start = \<lparr>wk_visiting = {}, wk_rows = [], wk_findings = {}, wk_bytes = 0, wk_edges = 0, wk_guard = ''1''\<rparr>"

definition closure :: "source_view \<Rightarrow> row_key list \<Rightarrow> trusted_scope \<Rightarrow> seal_error + seal_closure" where
  "closure sv roots scope =
     and_then (visit_all sv scope roots 0 walker_start) (\<lambda>st.
       if wk_findings st = {} then Inl (SealInvalid ''seal needs a durable valid binding finding'')
       else Inr \<lparr>cl_rows = map snd (wk_rows st), cl_findings = sorted_list_of_set (wk_findings st), cl_guard = wk_guard st\<rparr>)"

end
