(* ===== verification/Closure_Facts.thy ===== *)
theory Closure_Facts
  imports Seal_Closure
begin

text \<open>
  Facts of the closure walk: what it returns is closed under the references of its rows, within its
  bounds, and well founded, so that no sealed row refers to itself through any chain.
\<close>

section \<open>References of a row\<close>

definition row_refers :: "source_view \<Rightarrow> trusted_scope \<Rightarrow> row_key \<Rightarrow> string list \<Rightarrow> row_key list \<Rightarrow> string option \<Rightarrow> bool" where
  "row_refers sv scope k vals cs f \<longleftrightarrow> source_row sv k = Inr vals \<and> row_links sv scope k vals = Inr (cs, f)"

lemma row_refers_fun:
  "row_refers sv scope k vals cs f \<Longrightarrow> row_refers sv scope k vals' cs' f' \<Longrightarrow> vals = vals' \<and> cs = cs' \<and> f = f'"
  by (auto simp: row_refers_def)

text \<open>A row is grounded when every chain of references from it ends.\<close>

inductive grounded :: "source_view \<Rightarrow> trusted_scope \<Rightarrow> row_key \<Rightarrow> bool" for sv scope where
  ground: "row_refers sv scope k vals cs f \<Longrightarrow> \<forall>c \<in> set cs. grounded sv scope c \<Longrightarrow> grounded sv scope k"

inductive_cases groundedE: "grounded sv scope k"

definition refers :: "source_view \<Rightarrow> trusted_scope \<Rightarrow> (row_key \<times> row_key) set" where
  "refers sv scope = {(k, c). \<exists>vals cs f. row_refers sv scope k vals cs f \<and> c \<in> set cs}"

lemma grounded_step: "grounded sv scope k \<Longrightarrow> (k, c) \<in> refers sv scope \<Longrightarrow> grounded sv scope c"
  by (auto elim!: groundedE simp: refers_def dest: row_refers_fun)

lemma grounded_acyclic: "grounded sv scope k \<Longrightarrow> (k, k) \<notin> (refers sv scope)\<^sup>+"
proof (induction rule: grounded.induct)
  case (ground k vals cs f)
  show ?case
  proof
    assume "(k, k) \<in> (refers sv scope)\<^sup>+"
    then obtain c where c: "(k, c) \<in> refers sv scope" "(c, k) \<in> (refers sv scope)\<^sup>*"
      by (meson tranclD)
    then have "c \<in> set cs" using ground.hyps(1) by (auto simp: refers_def dest: row_refers_fun)
    moreover have "(c, c) \<in> (refers sv scope)\<^sup>+" using c by (rule rtrancl_into_trancl1 [rotated])
    ultimately show False using ground.IH by blast
  qed
qed

section \<open>The invariant of the walk\<close>

definition row_bytes :: "source_view \<Rightarrow> row_key \<Rightarrow> nat" where
  "row_bytes sv k = (case source_row sv k of Inr vals \<Rightarrow> length (row_canonical vals) | Inl _ \<Rightarrow> 0)"

definition walk_ok :: "source_view \<Rightarrow> trusted_scope \<Rightarrow> walker \<Rightarrow> bool" where
  "walk_ok sv scope st \<longleftrightarrow> finite (wk_visiting st) \<and> wk_visiting st \<inter> bt_dom (wk_rows st) = {} \<and> bt_ok (wk_rows st) \<and>
     length (wk_rows st) + card (wk_visiting st) \<le> max_nodes \<and>
     unat (wk_bytes st) = (\<Sum>k \<in> wk_visiting st \<union> bt_dom (wk_rows st). row_bytes sv k) \<and> unat (wk_bytes st) \<le> max_closure_bytes \<and>
     wk_findings st = {x. \<exists>k \<in> wk_visiting st \<union> bt_dom (wk_rows st). \<exists>vals cs. row_refers sv scope k vals cs (Some x)} \<and>
     (\<forall>(k, r) \<in> set (wk_rows st). grounded sv scope k \<and>
        (\<exists>vals cs f d. row_refers sv scope k vals cs f \<and> set cs \<subseteq> bt_dom (wk_rows st) \<and>
           sha_hash (sv_tool sv) (row_canonical vals) = Inr d \<and>
           r = \<lparr>rw_key = k, rw_digest = d, rw_bytes = of_nat (length (row_canonical vals))\<rparr>))"

lemma walk_ok_start: "walk_ok sv scope walker_start"
  by (simp add: walk_ok_def walker_start_def)

lemma walk_ok_edges [simp]: "walk_ok sv scope (st\<lparr>wk_edges := n\<rparr>) \<longleftrightarrow> walk_ok sv scope st"
  by (simp add: walk_ok_def)

lemma enter_row_cases:
  assumes "enter_row sv scope k st = Inr (vals, cs, st1)"
  obtains f total where "row_refers sv scope k vals cs f" "checked_add (wk_bytes st) (of_nat (length (row_canonical vals))) = Some total"
    "unat total \<le> max_closure_bytes" "wk_visiting st1 = insert k (wk_visiting st)" "wk_rows st1 = wk_rows st" "wk_bytes st1 = total"
    "wk_findings st1 = wk_findings st \<union> set_option f"
proof -
  obtain f st0 where 0: "source_row sv k = Inr vals" "row_links sv scope k vals = Inr (cs, f)"
    "add_bytes (row_canonical vals) (st\<lparr>wk_visiting := insert k (wk_visiting st)\<rparr>) = Inr st0"
    "st1 = st0\<lparr>wk_findings := (case f of None \<Rightarrow> wk_findings st0 | Some x \<Rightarrow> insert x (wk_findings st0)),
       wk_guard := wk_guard st0 @ row_clause k vals\<rparr>"
    using assms by (auto simp: enter_row_def)
  moreover from 0(3) obtain total where "checked_add (wk_bytes st) (of_nat (length (row_canonical vals))) = Some total"
    "unat total \<le> max_closure_bytes" "st0 = st\<lparr>wk_visiting := insert k (wk_visiting st), wk_bytes := total\<rparr>"
    by (auto simp: add_bytes_def split: if_splits)
  ultimately show thesis using that [of f total] by (cases f) (simp_all add: row_refers_def)
qed

lemma source_row_bytes: "source_row sv k = Inr vals \<Longrightarrow> row_bytes sv k = length (row_canonical vals)"
  by (simp add: row_bytes_def)

lemma row_canonical_mod:
  assumes "length s < 2 ^ 64" shows "unat (of_nat (length s) :: u64) = length s"
  using assms by (simp add: unat_of_nat take_bit_nat_eq_self)

lemma enter_row_ok:
  assumes e: "enter_row sv scope k st = Inr (vals, cs, st1)" and ok: "walk_ok sv scope st"
    and k: "k \<notin> wk_visiting st" "k \<notin> bt_dom (wk_rows st)" "length (wk_rows st) + card (wk_visiting st) < max_nodes"
    and len: "length (row_canonical vals) < 2 ^ 64"
  shows "walk_ok sv scope st1"
  using e
proof (rule enter_row_cases)
  fix f total
  assume c: "row_refers sv scope k vals cs f" "checked_add (wk_bytes st) (of_nat (length (row_canonical vals))) = Some total"
    "unat total \<le> max_closure_bytes" "wk_visiting st1 = insert k (wk_visiting st)" "wk_rows st1 = wk_rows st" "wk_bytes st1 = total"
    "wk_findings st1 = wk_findings st \<union> set_option f"
  have "unat total = unat (wk_bytes st) + row_bytes sv k"
    using checked_add_Some [OF c(2)] row_canonical_mod [OF len] c(1) by (simp add: row_refers_def source_row_bytes)
  moreover have "finite (wk_visiting st \<union> bt_dom (wk_rows st))" using ok by (simp add: walk_ok_def bt_dom_def)
  ultimately have "unat total = (\<Sum>j \<in> insert k (wk_visiting st \<union> bt_dom (wk_rows st)). row_bytes sv j)"
    using ok k by (simp add: walk_ok_def)
  moreover have "wk_findings st1 = {x. \<exists>j \<in> insert k (wk_visiting st) \<union> bt_dom (wk_rows st). \<exists>vals cs. row_refers sv scope j vals cs (Some x)}"
    using ok c(1,7) by (auto simp: walk_ok_def dest: row_refers_fun)
  ultimately show ?thesis using ok k c by (simp add: walk_ok_def)
qed

lemma length_bt_insert: "k \<notin> bt_dom m \<Longrightarrow> length (bt_insert k v m) = Suc (length m)"
  by (induction m) (auto simp: bt_dom_def)

lemma leave_row_ok:
  assumes l: "leave_row sv k vals st = Inr st'" and ok: "walk_ok sv scope st" and k: "k \<in> wk_visiting st"
    and r: "row_refers sv scope k vals cs f" "set cs \<subseteq> bt_dom (wk_rows st)"
  shows "walk_ok sv scope st' \<and> wk_visiting st' = wk_visiting st - {k} \<and> bt_dom (wk_rows st') = insert k (bt_dom (wk_rows st))"
proof -
  obtain d where d: "sha_hash (sv_tool sv) (row_canonical vals) = Inr d"
      "st' = st\<lparr>wk_visiting := wk_visiting st - {k}, wk_rows := bt_insert k \<lparr>rw_key = k, rw_digest = d,
         rw_bytes = of_nat (length (row_canonical vals))\<rparr> (wk_rows st)\<rparr>"
    using l by (auto simp: leave_row_def)
  have fin: "finite (wk_visiting st)" and dis: "k \<notin> bt_dom (wk_rows st)" using ok k by (auto simp: walk_ok_def)
  have g: "grounded sv scope k"
  proof (rule ground [OF r(1)], rule ballI)
    fix c assume "c \<in> set cs"
    then have "c \<in> bt_dom (wk_rows st)" using r(2) by blast
    then show "grounded sv scope c" using ok by (auto simp: walk_ok_def bt_dom_def)
  qed
  have len: "length (wk_rows st') + card (wk_visiting st') \<le> max_nodes"
    using ok k dis card_Suc_Diff1 [OF fin k] by (simp add: d(2) walk_ok_def length_bt_insert)
  have u: "wk_visiting st' \<union> bt_dom (wk_rows st') = wk_visiting st \<union> bt_dom (wk_rows st)" using k by (auto simp: d(2))
  have rows: "\<forall>(j, q) \<in> set (wk_rows st'). grounded sv scope j \<and>
        (\<exists>vals cs f d. row_refers sv scope j vals cs f \<and> set cs \<subseteq> bt_dom (wk_rows st') \<and>
           sha_hash (sv_tool sv) (row_canonical vals) = Inr d \<and>
           q = \<lparr>rw_key = j, rw_digest = d, rw_bytes = of_nat (length (row_canonical vals))\<rparr>)"
    using ok r d(1) g by (fastforce simp: d(2) walk_ok_def dest!: set_bt_insert_subset [THEN subsetD])
  have "bt_ok (wk_rows st')" using ok by (simp add: d(2) walk_ok_def)
  moreover have "wk_bytes st' = wk_bytes st" "wk_findings st' = wk_findings st" by (simp_all add: d(2))
  ultimately have "walk_ok sv scope st'"
    unfolding walk_ok_def u using ok fin len rows dis by (auto simp: walk_ok_def d(2))
  then show ?thesis by (simp add: d(2))
qed

section \<open>What the walk returns\<close>

text \<open>Texts of the store are shorter than the address space.\<close>

definition rows_short :: "source_view \<Rightarrow> bool" where
  "rows_short sv \<longleftrightarrow> (\<forall>k vals. source_row sv k = Inr vals \<longrightarrow> length (row_canonical vals) < 2 ^ 64)"

definition walked :: "walker \<Rightarrow> walker \<Rightarrow> bool" where
  "walked st st' \<longleftrightarrow> wk_visiting st' = wk_visiting st \<and> bt_dom (wk_rows st) \<subseteq> bt_dom (wk_rows st')"

lemma walked_refl: "walked st st"
  by (simp add: walked_def)

lemma walked_trans: "walked a b \<Longrightarrow> walked b c \<Longrightarrow> walked a c"
  by (auto simp: walked_def)

lemma visit_ok:
  assumes short: "rows_short sv"
  shows "visit sv scope k depth st = Inr st' \<Longrightarrow> walk_ok sv scope st \<Longrightarrow>
      walk_ok sv scope st' \<and> walked st st' \<and> k \<in> bt_dom (wk_rows st')"
    and "visit_all sv scope ks depth st = Inr st' \<Longrightarrow> walk_ok sv scope st \<Longrightarrow>
      walk_ok sv scope st' \<and> walked st st' \<and> set ks \<subseteq> bt_dom (wk_rows st')"
  using short
proof (induction sv scope k depth st and sv scope ks depth st arbitrary: st' and st' rule: visit_visit_all.induct)
  case (1 sv scope k depth st0)
  define st where "st = st0\<lparr>wk_edges := wk_edges st0 + 1\<rparr>"
  have ok: "walk_ok sv scope st" and w: "walked st0 st" using "1.prems"(2) by (simp_all add: st_def walked_def)
  consider "bt_get (wk_rows st) k \<noteq> None" "st' = st"
    | (Enter) vals cs st1 st2 where "bt_get (wk_rows st) k = None" "k \<notin> wk_visiting st"
        "length (wk_rows st) + card (wk_visiting st) < max_nodes" "enter_row sv scope k st = Inr (vals, cs, st1)"
        "visit_all sv scope cs (depth + 1) st1 = Inr st2" "leave_row sv k vals st2 = Inr st'"
        "\<not> (depth > max_closure_depth \<or> wk_edges st > max_nodes * 4)"
    using "1.prems"(1) [unfolded visit.simps [of sv scope k depth st0] Let_def, folded st_def]
    by (auto simp: not_le split: if_splits)
  then show ?case
  proof cases
    case 1
    then show ?thesis using ok w by (auto simp: bt_get_None_iff)
  next
    case Enter
    have k: "k \<notin> bt_dom (wk_rows st)" using Enter(1) by (simp add: bt_get_None_iff)
    obtain f where r: "row_refers sv scope k vals cs f" "wk_visiting st1 = insert k (wk_visiting st)" "wk_rows st1 = wk_rows st"
      by (rule enter_row_cases [OF Enter(4)])
    have "length (row_canonical vals) < 2 ^ 64" using "1.prems"(3) r(1) by (auto simp: rows_short_def row_refers_def)
    note ok1 = enter_row_ok [OF Enter(4) ok Enter(2) k Enter(3) this]
    have "walk_ok sv scope st2 \<and> walked st1 st2 \<and> set cs \<subseteq> bt_dom (wk_rows st2)"
      using "1.IH" [OF st_def, of "(vals, cs, st1)" vals "(cs, st1)" cs st1 st2] Enter ok1 k "1.prems"(3) by simp
    then have two: "walk_ok sv scope st2" "walked st1 st2" "set cs \<subseteq> bt_dom (wk_rows st2)" "k \<in> wk_visiting st2"
      using r(2) by (auto simp: walked_def)
    from leave_row_ok [OF Enter(6) two(1,4) r(1) two(3)] two(2) r(2,3) Enter(2) w show ?thesis
      by (auto simp: walked_def)
  qed
next
  case (3 sv scope k ks depth st)
  then obtain st1 where st1: "visit sv scope k depth st = Inr st1" "visit_all sv scope ks depth st1 = Inr st'" by auto
  with "3.IH"(1) [OF st1(1)] "3.IH"(2) [OF st1] 3(4,5) show ?case
    by (auto dest: walked_trans simp: walked_def)
qed (simp_all add: walked_refl)

lemma closure_cases:
  assumes "closure sv roots scope = Inr cl" "rows_short sv"
  obtains st where "walk_ok sv scope st" "wk_visiting st = {}" "set roots \<subseteq> bt_dom (wk_rows st)" "wk_findings st \<noteq> {}"
    "cl = \<lparr>cl_rows = map snd (wk_rows st), cl_findings = sorted_list_of_set (wk_findings st), cl_guard = wk_guard st\<rparr>"
proof -
  obtain st where st: "visit_all sv scope roots 0 walker_start = Inr st" "wk_findings st \<noteq> {}"
    "cl = \<lparr>cl_rows = map snd (wk_rows st), cl_findings = sorted_list_of_set (wk_findings st), cl_guard = wk_guard st\<rparr>"
    using assms(1) by (auto simp: closure_def split: if_splits)
  have "walk_ok sv scope st \<and> wk_visiting st = {} \<and> set roots \<subseteq> bt_dom (wk_rows st)"
    using visit_ok(2) [OF assms(2) st(1) walk_ok_start] by (simp add: walked_def walker_start_def)
  with st(2,3) that show thesis by blast
qed

end
