(* ===== verification/Seal_Manifest.thy ===== *)
theory Seal_Manifest
  imports Closure_Facts "HOL-Library.Product_Lexorder"
begin

text \<open>
  The sealed manifest (\<open>src/src/seal/manifest.rs\<close>) with the native references it verifies
  (\<open>references.rs\<close>): staging from a draft, its canonical bytes, their decoder and the check that the
  sources have not changed. A manifest within its bounds is read back from its bytes exactly, and
  nothing but its bytes is read as the manifest.
\<close>

section \<open>Native artifacts\<close>

text \<open>
  The native directory as a checked path and its artifacts by name (\<open>read_artifact\<close>, which bounds
  them); the checkpoint gives a generation, a length and a digest.
\<close>

record native_view =
  nv_dir :: "seal_error + string option"
  nv_artifact :: "string \<Rightarrow> seal_error + string"
  nv_checkpoint :: "seal_error + u64 \<times> u64 \<times> string"

definition manifest_name :: "u64 \<Rightarrow> string" where
  "manifest_name generation = ''MANIFEST-'' @ pad_zeros 20 (show_word generation) @ ''.control''"

definition snapshot_name :: "u64 \<Rightarrow> string" where
  "snapshot_name generation = ''SNAPSHOT-'' @ pad_zeros 20 (show_word generation) @ ''.logical''"

definition native_capture :: "native_view \<Rightarrow> (string \<Rightarrow> seal_error + digest) \<Rightarrow> seal_error + native_ref" where
  "native_capture nv tool =
     and_then (nv_checkpoint nv) (\<lambda>(generation, bytes, digest_hex).
     and_then (nv_dir nv) (\<lambda>dir.
     and_then (nv_artifact nv (manifest_name generation)) (\<lambda>manifest.
     and_then (nv_artifact nv (snapshot_name generation)) (\<lambda>snapshot.
       if of_nat (length snapshot) \<noteq> bytes then Inl (SealChanged ''checkpoint snapshot length'')
       else
     and_then (ok_or (SealInvalid ''native path UTF-8'') dir) (\<lambda>store.
     and_then (sha_hash tool manifest) (\<lambda>md.
     and_then (sha_hash tool snapshot) (\<lambda>sd.
       Inr \<lparr>nr_store = store, nr_generation = generation, nr_manifest_digest = md,
            nr_manifest_bytes = of_nat (length manifest), nr_snapshot_digest = sd,
            nr_snapshot_bytes = of_nat (length snapshot), nr_selene_digest = digest_hex\<rparr>)))))))"

definition artifact_unchanged :: "native_view \<Rightarrow> (string \<Rightarrow> seal_error + digest) \<Rightarrow> string \<Rightarrow> digest \<Rightarrow> u64 \<Rightarrow> seal_error + unit" where
  "artifact_unchanged nv tool name d bytes =
     and_then (nv_artifact nv name) (\<lambda>actual.
       if of_nat (length actual) \<noteq> bytes then Inl (SealChanged name)
       else and_then (sha_hash tool actual) (\<lambda>d'. if d' \<noteq> d then Inl (SealChanged name) else Inr ()))"

definition native_verify :: "native_view \<Rightarrow> (string \<Rightarrow> seal_error + digest) \<Rightarrow> native_ref \<Rightarrow> seal_error + unit" where
  "native_verify nv tool r =
     and_then (nv_dir nv) (\<lambda>dir.
       if dir \<noteq> Some (nr_store r) then Inl (SealConflict ''native reference belongs to another store'')
       else
     and_then (artifact_unchanged nv tool (manifest_name (nr_generation r)) (nr_manifest_digest r) (nr_manifest_bytes r)) (\<lambda>_.
       artifact_unchanged nv tool (snapshot_name (nr_generation r)) (nr_snapshot_digest r) (nr_snapshot_bytes r)))"

fun verify_all :: "('a \<Rightarrow> 'e + unit) \<Rightarrow> 'a list \<Rightarrow> 'e + unit" where
  "verify_all f [] = Inr ()"
| "verify_all f (x # xs) = and_then (f x) (\<lambda>_. verify_all f xs)"

section \<open>Drafts\<close>

record runtime_ref =
  rt_binary :: string
  rt_host :: string

definition runtime_ref_new :: "string \<Rightarrow> string \<Rightarrow> seal_error + runtime_ref" where
  "runtime_ref_new binary host =
     and_then (seal_text binary) (\<lambda>b. and_then (seal_text host) (\<lambda>h. Inr \<lparr>rt_binary = b, rt_host = h\<rparr>))"

text \<open>What the compiler leaves in the program: the package version, the compiler and the target.\<close>

record build_env =
  be_package :: string
  be_rustc :: string
  be_target :: string

definition selene_rev :: string where "selene_rev = ''b65c2344c916d2c3ceeb72cefcd72e7960e95e25''"
definition pinned_profile_id :: string where "pinned_profile_id = ''verdant-pinned-brick-223p-rec-v1''"
definition schema_generation :: u32 where "schema_generation = 1"

definition runtime_ref_fields :: "build_env \<Rightarrow> runtime_ref \<Rightarrow> string list" where
  "runtime_ref_fields env r = [rt_binary r, rt_host r, be_package env, be_rustc env, be_target env, selene_rev]"

definition runtime_ref_encode :: "build_env \<Rightarrow> runtime_ref \<Rightarrow> string" where
  "runtime_ref_encode env r = frames_encode (runtime_ref_fields env r)"

record draft =
  dr_revision :: binding_revision
  dr_scope :: trusted_scope
  dr_runtime :: runtime_ref
  dr_roots :: "row_key list"
  dr_native :: "native_ref list"

definition native_order :: "native_ref \<Rightarrow> string \<times> u64 \<times> string \<times> u64 \<times> string \<times> u64 \<times> string" where
  "native_order r = (nr_store r, nr_generation r, nr_manifest_digest r, nr_manifest_bytes r, nr_snapshot_digest r,
     nr_snapshot_bytes r, nr_selene_digest r)"

definition draft_new :: "binding_revision \<Rightarrow> trusted_scope \<Rightarrow> runtime_ref \<Rightarrow> row_key list \<Rightarrow> native_ref list \<Rightarrow>
    seal_error + draft" where
  "draft_new revision scope runtime roots native =
     (if revision = 0 \<or> roots = [] \<or> native = []
      then Inl (SealInvalid ''nonempty revision, findings and native references required'')
      else if length roots > max_nodes \<or> length native > max_native_refs then Inl (SealLimit ''draft references'')
      else Inr \<lparr>dr_revision = revision, dr_scope = scope, dr_runtime = runtime,
                dr_roots = remdups (sort roots), dr_native = remdups (sort_key native_order native)\<rparr>)"

section \<open>Manifests\<close>

record manifest =
  mf_scope :: trusted_scope
  mf_revision :: u32
  mf_runtime :: string
  mf_publisher :: string
  mf_hash_tool :: string
  mf_roots :: "row_key list"
  mf_rows :: "row_ref list"
  mf_findings :: "string list"
  mf_native :: "native_ref list"

definition manifest_fields :: "manifest \<Rightarrow> string list" where
  "manifest_fields mf =
     [''verdant-seal-v1'', ''valid-structural-not-qualified'', scope_text (mf_scope mf), show_word (mf_revision mf),
      show_word schema_generation, pinned_profile_id, ''verdant-converter-r07-v1'', mf_runtime mf, mf_publisher mf,
      mf_hash_tool mf, frames_encode (map row_key_encode (mf_roots mf)), frames_encode (map row_ref_encode (mf_rows mf)),
      frames_encode (mf_findings mf), frames_encode (map native_ref_encode (mf_native mf))]"

definition manifest_bytes :: "manifest \<Rightarrow> string" where
  "manifest_bytes mf = frames_encode (manifest_fields mf)"

definition manifest_identity :: "(string \<Rightarrow> seal_error + digest) \<Rightarrow> manifest \<Rightarrow> seal_error + digest" where
  "manifest_identity tool mf = sha_hash tool (manifest_bytes mf)"

definition manifest_stage :: "build_env \<Rightarrow> string \<Rightarrow> draft \<Rightarrow> string \<Rightarrow> source_view \<Rightarrow> native_view \<Rightarrow>
    seal_error + manifest \<times> string" where
  "manifest_stage env hash_tool d publisher sv nv =
     and_then (closure sv (dr_roots d) (dr_scope d)) (\<lambda>cl.
     and_then (verify_all (native_verify nv (sv_tool sv)) (dr_native d)) (\<lambda>_.
       let mf = \<lparr>mf_scope = dr_scope d, mf_revision = dr_revision d, mf_runtime = runtime_ref_encode env (dr_runtime d),
                 mf_publisher = publisher, mf_hash_tool = hash_tool, mf_roots = dr_roots d, mf_rows = cl_rows cl,
                 mf_findings = cl_findings cl, mf_native = dr_native d\<rparr>
       in if length (manifest_bytes mf) > max_manifest_bytes then Inl (SealLimit ''manifest bytes'')
          else Inr (mf, cl_guard cl)))"

text \<open>A sealed manifest is never replaced.\<close>

definition manifest_replace :: "manifest \<Rightarrow> draft \<Rightarrow> manifest \<times> (seal_error + unit)" where
  "manifest_replace mf d = (mf, Inl SealedMutation)"

definition manifest_verify :: "manifest \<Rightarrow> source_view \<Rightarrow> native_view \<Rightarrow> seal_error + unit" where
  "manifest_verify mf sv nv =
     and_then (closure sv (mf_roots mf) (mf_scope mf)) (\<lambda>cl.
       if cl_rows cl \<noteq> mf_rows mf \<or> cl_findings cl \<noteq> mf_findings mf
       then Inl (SealChanged ''durable row/reference closure'')
       else verify_all (native_verify nv (sv_tool sv)) (mf_native mf))"

definition manifest_decode :: "string \<Rightarrow> seal_error + manifest" where
  "manifest_decode raw =
     and_then (seal_decode raw max_manifest_bytes 14) (\<lambda>f.
       if length f \<noteq> 14 \<or> f ! 0 \<noteq> ''verdant-seal-v1'' \<or> f ! 1 \<noteq> ''valid-structural-not-qualified'' \<or>
          f ! 4 \<noteq> show_word schema_generation \<or> f ! 5 \<noteq> pinned_profile_id \<or> f ! 6 \<noteq> ''verdant-converter-r07-v1''
       then Inl (SealInvalid ''manifest version/status'')
       else
     and_then (map_err (\<lambda>_. SealInvalid ''manifest scope'') (trusted_scope_parse (f ! 2))) (\<lambda>scope.
     and_then (seal_u32 (f ! 3)) (\<lambda>revision.
     and_then (seal_decode (f ! 7) 2048 6) (\<lambda>runtime.
       if length runtime \<noteq> 6 \<or> runtime ! 5 \<noteq> selene_rev \<or> revision = 0
       then Inl (SealInvalid ''manifest execution/version refs'')
       else
     and_then (collect_res seal_text runtime) (\<lambda>_.
     and_then (and_then (seal_decode (f ! 10) max_manifest_bytes max_nodes) (collect_res row_key_decode)) (\<lambda>roots.
     and_then (and_then (seal_decode (f ! 11) max_manifest_bytes max_nodes) (collect_res row_ref_decode)) (\<lambda>rows.
     and_then (seal_decode (f ! 12) max_manifest_bytes max_nodes) (\<lambda>findings.
     and_then (and_then (seal_decode (f ! 13) max_manifest_bytes max_native_refs) (collect_res native_ref_decode)) (\<lambda>native.
       if roots = [] \<or> findings = [] \<or> native = [] \<or> rows = [] then Inl (SealInvalid ''empty seal closure'')
       else
         (let mf = \<lparr>mf_scope = scope, mf_revision = revision, mf_runtime = f ! 7, mf_publisher = f ! 8, mf_hash_tool = f ! 9,
                    mf_roots = roots, mf_rows = rows, mf_findings = findings, mf_native = native\<rparr>
          in if manifest_bytes mf \<noteq> raw then Inl (SealInvalid ''noncanonical manifest'') else Inr mf))))))))))"

section \<open>Round trip\<close>

definition manifest_ok :: "manifest \<Rightarrow> bool" where
  "manifest_ok mf \<longleftrightarrow> trusted_scope_ok (mf_scope mf) \<and> mf_revision mf \<noteq> 0 \<and>
     (\<exists>runtime. mf_runtime mf = frames_encode runtime \<and> length runtime = 6 \<and> runtime ! 5 = selene_rev \<and>
        (\<forall>t \<in> set runtime. seal_text t = Inr t \<and> utf8_valid t)) \<and> length (mf_runtime mf) \<le> 2048 \<and>
     utf8_valid (mf_publisher mf) \<and> utf8_valid (mf_hash_tool mf) \<and>
     mf_roots mf \<noteq> [] \<and> length (mf_roots mf) \<le> max_nodes \<and> (\<forall>k \<in> set (mf_roots mf). row_key_ok k) \<and>
     mf_rows mf \<noteq> [] \<and> length (mf_rows mf) \<le> max_nodes \<and> (\<forall>r \<in> set (mf_rows mf). row_ref_ok r) \<and>
     mf_findings mf \<noteq> [] \<and> length (mf_findings mf) \<le> max_nodes \<and> (\<forall>t \<in> set (mf_findings mf). utf8_valid t) \<and>
     mf_native mf \<noteq> [] \<and> length (mf_native mf) \<le> max_native_refs \<and>
     (\<forall>r \<in> set (mf_native mf). native_ref_ok r \<and> utf8_valid (nr_store r) \<and> length (native_ref_encode r) \<le> 8192)"

lemma length_frame_mem: "f \<in> set fs \<Longrightarrow> length f \<le> length (frames_encode fs)"
  by (induction fs) (auto simp: frame_def)

lemma row_ref_encode_utf8: "row_ref_ok r \<Longrightarrow> utf8_valid (row_ref_encode r)"
  unfolding row_ref_encode_def by (intro frames_utf8) (simp add: row_ref_ok_def row_key_ok_def row_key_encode_utf8)

lemma native_ref_encode_utf8: "native_ref_ok r \<Longrightarrow> utf8_valid (nr_store r) \<Longrightarrow> utf8_valid (native_ref_encode r)"
  unfolding native_ref_encode_def by (intro frames_utf8) (simp add: native_ref_ok_def)

lemma seal_text_eq: "seal_text raw = Inr s \<Longrightarrow> s = raw"
  by (simp add: seal_text_def split: if_splits)

lemma manifest_fields_utf8:
  assumes ok: "manifest_ok mf" shows "\<forall>f \<in> set (manifest_fields mf). utf8_valid f"
proof -
  have "utf8_valid (frames_encode (map row_key_encode (mf_roots mf)))"
      "utf8_valid (frames_encode (map row_ref_encode (mf_rows mf)))"
      "utf8_valid (frames_encode (mf_findings mf))" "utf8_valid (frames_encode (map native_ref_encode (mf_native mf)))"
      "utf8_valid (mf_runtime mf)"
    using ok by (auto intro!: frames_utf8 row_ref_encode_utf8 native_ref_encode_utf8 row_key_encode_utf8
      simp: manifest_ok_def row_key_ok_def)
  then show ?thesis
    using ok by (simp add: manifest_fields_def manifest_ok_def trusted_scope_ok_def pinned_profile_id_def plain_utf8 plain_def verdant_defs)
qed

lemma manifest_bytes_utf8: "manifest_ok mf \<Longrightarrow> utf8_valid (manifest_bytes mf)"
  unfolding manifest_bytes_def by (rule frames_utf8) (rule manifest_fields_utf8)

lemma manifest_round_trip_gen:
  assumes ok: "manifest_ok mf" and len: "length (manifest_bytes mf) \<le> max_manifest_bytes"
  shows "manifest_decode (manifest_bytes mf) = Inr mf"
proof -
  obtain runtime where rt: "mf_runtime mf = frames_encode runtime" "length runtime = 6" "runtime ! 5 = selene_rev"
      "\<forall>t \<in> set runtime. seal_text t = Inr t \<and> utf8_valid t"
    using ok by (auto simp: manifest_ok_def)
  have part: "length f \<le> max_manifest_bytes" if "f \<in> set (manifest_fields mf)" for f
    using length_frame_mem [OF that] len by (simp add: manifest_bytes_def)
  have dec: "seal_decode (manifest_bytes mf) max_manifest_bytes 14 = Inr (manifest_fields mf)"
    unfolding manifest_bytes_def
  proof (rule seal_decode_encode)
    show "\<forall>f \<in> set (manifest_fields mf). utf8_valid f" by (rule manifest_fields_utf8 [OF ok])
    show "length (frames_encode (manifest_fields mf)) \<le> max_manifest_bytes" using len by (simp add: manifest_bytes_def)
  qed (simp_all add: manifest_fields_def max_manifest_bytes_def)
  have run: "seal_decode (mf_runtime mf) 2048 6 = Inr runtime" "is_ok (collect_res seal_text runtime)"
    using rt ok collect_res_map [of runtime seal_text "\<lambda>t. t"]
    by (auto simp: manifest_ok_def rt(1) [symmetric] intro: seal_decode_encode [of runtime 6 2048, folded rt(1)])
  have k: "and_then (seal_decode (frames_encode (map row_key_encode (mf_roots mf))) max_manifest_bytes max_nodes) (collect_res row_key_decode) = Inr (mf_roots mf)"
    using ok part [of "frames_encode (map row_key_encode (mf_roots mf))"] row_key_encode_utf8
    by (subst seal_decode_encode) (auto simp: manifest_ok_def manifest_fields_def max_manifest_bytes_def row_key_round_trip row_key_ok_def
        collect_res_map [where g = row_key_encode])
  have r: "and_then (seal_decode (frames_encode (map row_ref_encode (mf_rows mf))) max_manifest_bytes max_nodes) (collect_res row_ref_decode) = Inr (mf_rows mf)"
    using ok part [of "frames_encode (map row_ref_encode (mf_rows mf))"]
    by (subst seal_decode_encode) (auto simp: manifest_ok_def manifest_fields_def max_manifest_bytes_def row_ref_round_trip
        row_ref_encode_utf8 collect_res_map [where g = row_ref_encode] simp del: frames_encode_simps)
  have f: "seal_decode (frames_encode (mf_findings mf)) max_manifest_bytes max_nodes = Inr (mf_findings mf)"
    using ok part [of "frames_encode (mf_findings mf)"]
    by (intro seal_decode_encode) (auto simp: manifest_ok_def manifest_fields_def max_manifest_bytes_def)
  have n: "and_then (seal_decode (frames_encode (map native_ref_encode (mf_native mf))) max_manifest_bytes max_native_refs) (collect_res native_ref_decode) = Inr (mf_native mf)"
    using ok part [of "frames_encode (map native_ref_encode (mf_native mf))"]
    by (subst seal_decode_encode) (auto simp: manifest_ok_def manifest_fields_def max_manifest_bytes_def native_ref_round_trip
        native_ref_encode_utf8 collect_res_map [where g = native_ref_encode] simp del: frames_encode_simps)
  obtain x where x: "collect_res seal_text runtime = Inr x" using run(2) by (auto simp: is_ok_iff)
  have o: "trusted_scope_ok (mf_scope mf)" "mf_revision mf \<noteq> 0" "mf_roots mf \<noteq> []" "mf_rows mf \<noteq> []" "mf_findings mf \<noteq> []"
      "mf_native mf \<noteq> []"
    using ok by (simp_all add: manifest_ok_def)
  have nth: "length (manifest_fields mf) = 14" "manifest_fields mf ! 0 = ''verdant-seal-v1''"
      "manifest_fields mf ! 1 = ''valid-structural-not-qualified''" "manifest_fields mf ! 2 = scope_text (mf_scope mf)"
      "manifest_fields mf ! 3 = show_word (mf_revision mf)" "manifest_fields mf ! 4 = show_word schema_generation"
      "manifest_fields mf ! 5 = pinned_profile_id" "manifest_fields mf ! 6 = ''verdant-converter-r07-v1''"
      "manifest_fields mf ! 7 = mf_runtime mf" "manifest_fields mf ! 8 = mf_publisher mf" "manifest_fields mf ! 9 = mf_hash_tool mf"
      "manifest_fields mf ! 10 = frames_encode (map row_key_encode (mf_roots mf))"
      "manifest_fields mf ! 11 = frames_encode (map row_ref_encode (mf_rows mf))"
      "manifest_fields mf ! 12 = frames_encode (mf_findings mf)" "manifest_fields mf ! 13 = frames_encode (map native_ref_encode (mf_native mf))"
    by (simp_all add: manifest_fields_def del: frames_encode_simps)
  show ?thesis
    unfolding manifest_decode_def dec and_then_simps nth k r f n run(1)
    by (simp add: nth o rt(2,3) run(1) x Let_def) (simp add: manifest_bytes_def manifest_fields_def)
qed

lemma manifest_decode_sound: "manifest_decode raw = Inr mf \<Longrightarrow> raw = manifest_bytes mf \<and> mf_revision mf \<noteq> 0 \<and> mf_roots mf \<noteq> [] \<and>
    mf_rows mf \<noteq> [] \<and> mf_findings mf \<noteq> [] \<and> mf_native mf \<noteq> []"
  by (auto simp: manifest_decode_def Let_def split: if_splits)

end
