(* ===== verification/Registry_Writer.thy ===== *)
theory Registry_Writer
  imports Registry
begin

text \<open>
  The operations of the binding registry (\<open>src/src/binding/registry.rs\<close>, \<open>writer.rs\<close>,
  \<open>authority.rs\<close>): recording equipment, spaces, sources and points, retiring equipment, proposing a
  binding and emitting a finding. Each returns the registry it leaves and its result.
\<close>

section \<open>The store as an operation sees it\<close>

text \<open>
  One row to append: the guard over the rows the decision rests on, the end of the authority's life,
  and the row itself. The remaining columns are constants of the code.
\<close>

record prepared_row =
  pr_operation :: operation_id
  pr_kind :: string
  pr_entity :: string
  pr_value :: string
  pr_seq :: u64
  pr_guard :: string
  pr_expires :: "int option"

text \<open>
  \<open>rv_scan\<close> is the answer to the binding query, \<open>rv_operation\<close> the fresh operation identity,
  \<open>rv_prepare\<close> the store's bound on the payload, \<open>rv_submit\<close> its answer to the row.
\<close>

record registry_view =
  rv_scan :: "storage_error + string list list"
  rv_operation :: "binding_error + operation_id"
  rv_prepare :: "nat \<Rightarrow> storage_error + unit"
  rv_submit :: "prepared_row \<Rightarrow> mutation_outcome"

definition committed_id :: "string list list \<Rightarrow> int option" where
  "committed_id rows =
     (case rows of
        (c # _) # _ \<Rightarrow> (case parse_i64 c of Some n \<Rightarrow> if n > 0 then Some n else None | None \<Rightarrow> None)
      | _ \<Rightarrow> None)"

fun submitted :: "mutation_outcome \<Rightarrow> binding_error + int" where
  "submitted (MCommitted _ rows) = ok_or (BConflict ''receipt row identity invalid'') (committed_id rows)"
| "submitted (MNotCommitted _ e) =
     (case e of
        SqliteFailure detail \<Rightarrow>
          if contains_text ''CHECK constraint failed: access_guard_unchanged'' detail
          then Inl (BConflict ''registry or authority changed at mutation boundary'')
          else if contains_text ''CHECK constraint failed: binding_guard_live'' detail
          then Inl (CapabilityDenied ''credential expired at mutation boundary'' ''expired-credential'')
          else Inl (BStore e)
      | _ \<Rightarrow> Inl (BStore e))"
| "submitted (MConflict _ detail) = Inl (BConflict detail)"
| "submitted (MUnknown operation detail) = Inl (BMutationUnknown operation detail)"

text \<open>The authority of a proposal: the gate's report and the condition that its rows have not changed.\<close>

record authority =
  au_report :: enter_report
  au_guard :: string

definition prepare_row :: "registry_view \<Rightarrow> registry \<Rightarrow> operation_id \<Rightarrow> string \<Rightarrow> string \<Rightarrow> string \<Rightarrow> authority option \<Rightarrow>
    binding_error + prepared_row" where
  "prepare_row rv r operation kind entity descriptor auth =
     and_then (ok_or (BConflict ''sequence overflow'') (checked_add (rg_sequence r) 1)) (\<lambda>seq.
       if kind \<noteq> op_finding_text \<and> rg_revision r = - 1 then Inl (BConflict ''revision overflow'')
       else
         (let value = value_to_json (VText descriptor);
              guard = (case auth of None \<Rightarrow> rg_guard r | Some a \<Rightarrow> rg_guard r @ '' AND ('' @ au_guard a @ '')'');
              expires = (case auth of None \<Rightarrow> None | Some a \<Rightarrow> cp_expires (ir_policy (actor_row (er_actor (au_report a)))))
          in and_then (map_err BStore (rv_prepare rv (length value))) (\<lambda>_.
               Inr \<lparr>pr_operation = operation, pr_kind = kind, pr_entity = entity, pr_value = value, pr_seq = seq,
                    pr_guard = guard, pr_expires = expires\<rparr>)))"

definition row_descriptor :: "string \<Rightarrow> operation_id \<Rightarrow> binding_revision \<Rightarrow> string" where
  "row_descriptor descriptor operation revision =
     descriptor @ '';'' @ part ''operation'' operation @ '';'' @ part ''revision'' (show_word revision)"

definition write_record :: "registry_view \<Rightarrow> string \<Rightarrow> string \<Rightarrow> string \<Rightarrow> registry \<Rightarrow> registry \<times> (binding_error + unit)" where
  "write_record rv kind entity descriptor r =
     (case and_then (rv_operation rv) (\<lambda>operation.
           and_then (prepare_row rv r operation kind entity (row_descriptor descriptor operation (rg_revision r)) None) (\<lambda>row.
             submitted (rv_submit rv row))) of
        Inl e \<Rightarrow> (r, Inl e)
      | Inr _ \<Rightarrow> (r\<lparr>rg_sequence := rg_sequence r + 1\<rparr>, Inr ()))"

text \<open>\<open>?\<close> in an operation that has changed the registry: the error leaves the registry as it is then.\<close>

definition run_then :: "registry \<times> (binding_error + 'a) \<Rightarrow> (registry \<Rightarrow> 'a \<Rightarrow> registry \<times> (binding_error + 'b)) \<Rightarrow>
    registry \<times> (binding_error + 'b)" where
  "run_then p k = (case p of (r, Inl e) \<Rightarrow> (r, Inl e) | (r, Inr x) \<Rightarrow> k r x)"

definition run_res :: "registry \<Rightarrow> binding_error + 'a \<Rightarrow> (registry \<Rightarrow> 'a \<Rightarrow> registry \<times> (binding_error + 'b)) \<Rightarrow>
    registry \<times> (binding_error + 'b)" where
  "run_res r res k = run_then (r, res) k"

section \<open>Recording\<close>

definition known_identity :: "registry \<Rightarrow> string \<Rightarrow> bool" where
  "known_identity r i \<longleftrightarrow> bt_get (rg_equipment r) i \<noteq> None \<or> bt_get (rg_spaces r) i \<noteq> None \<or> bt_get (rg_sources r) i \<noteq> None"

definition equipment_descriptor :: "equipment_record \<Rightarrow> string" where
  "equipment_descriptor rec = join_on (CHR '';'')
     [''v=2'', ''kind=equipment'', part ''id'' (pct_encode (eq_id rec)),
      part ''ekind'' (pct_encode (equipment_kind_as_str (eq_kind rec))), part ''scope'' (pct_encode (scope_text (eq_scope rec))),
      part ''label'' (pct_encode (eq_label rec)), part ''address'' (pct_encode (eq_address rec))]"

definition record_equipment :: "registry_view \<Rightarrow> string \<Rightarrow> equipment_kind \<Rightarrow> trusted_scope \<Rightarrow> string \<Rightarrow> string \<Rightarrow>
    registry \<Rightarrow> registry \<times> (binding_error + unit)" where
  "record_equipment rv i kind scope label address r0 =
     run_then (replay (rv_scan rv) r0) (\<lambda>r _.
       if known_identity r i
       then (r, Inl (DuplicateIdentity i ''installed identity already recorded with different labels; labels are not identity''))
       else run_res r (equipment_record_parse i kind scope label address) (\<lambda>r rec.
            run_then (write_record rv op_equipment_text (eq_id rec) (equipment_descriptor rec) r) (\<lambda>r _.
              (bump_revision (r\<lparr>
                 rg_reassessment := (if eq_address rec \<in> rg_retired_addrs r then insert i (rg_reassessment r)
                                     else rg_reassessment r),
                 rg_equipment := bt_insert i rec (rg_equipment r)\<rparr>), Inr ()))))"

definition space_descriptor :: "space_record \<Rightarrow> string" where
  "space_descriptor rec = join_on (CHR '';'')
     [''v=2'', ''kind=space'', part ''id'' (pct_encode (sp_id rec)), part ''scope'' (pct_encode (scope_text (sp_scope rec))),
      part ''label'' (pct_encode (sp_label rec))]"

definition record_space :: "registry_view \<Rightarrow> string \<Rightarrow> trusted_scope \<Rightarrow> string \<Rightarrow> registry \<Rightarrow> registry \<times> (binding_error + unit)" where
  "record_space rv i scope label r0 =
     run_then (replay (rv_scan rv) r0) (\<lambda>r _.
       if known_identity r i
       then (r, Inl (DuplicateIdentity i ''installed identity already recorded; labels are not identity''))
       else run_res r (space_record_parse i scope label) (\<lambda>r rec.
            run_then (write_record rv op_space_text (sp_id rec) (space_descriptor rec) r) (\<lambda>r _.
              (bump_revision (r\<lparr>rg_spaces := bt_insert i rec (rg_spaces r)\<rparr>), Inr ()))))"

definition source_descriptor :: "source_record \<Rightarrow> string" where
  "source_descriptor rec = join_on (CHR '';'')
     [''v=2'', ''kind=source'', part ''id'' (pct_encode (so_id rec)), part ''scope'' (pct_encode (scope_text (so_scope rec))),
      part ''label'' (pct_encode (so_label rec))]"

definition record_source :: "registry_view \<Rightarrow> string \<Rightarrow> trusted_scope \<Rightarrow> string \<Rightarrow> registry \<Rightarrow> registry \<times> (binding_error + unit)" where
  "record_source rv i scope label r0 =
     run_then (replay (rv_scan rv) r0) (\<lambda>r _.
       if known_identity r i
       then (r, Inl (DuplicateIdentity i ''installed identity already recorded; labels are not identity''))
       else run_res r (source_record_parse i scope label) (\<lambda>r rec.
            run_then (write_record rv op_source_text (so_id rec) (source_descriptor rec) r) (\<lambda>r _.
              (bump_revision (r\<lparr>rg_sources := bt_insert i rec (rg_sources r)\<rparr>), Inr ()))))"

definition point_descriptor :: "point_record \<Rightarrow> string" where
  "point_descriptor rec = join_on (CHR '';'')
     [''v=2'', ''kind=point'', part ''equipment'' (pct_encode (pt_equipment rec)),
      part ''property'' (pct_encode (pt_property rec)), part ''scope'' (pct_encode (scope_text (pt_scope rec))),
      part ''unit'' (pct_encode (unit_as_str (pt_unit rec))), part ''eclass'' (pct_encode (endpoint_class_as_str (pt_class rec)))]"

definition record_point :: "registry_view \<Rightarrow> string \<Rightarrow> string \<Rightarrow> trusted_scope \<Rightarrow> string \<Rightarrow> endpoint_class \<Rightarrow>
    registry \<Rightarrow> registry \<times> (binding_error + unit)" where
  "record_point rv equipment property scope unit_text class r0 =
     run_then (replay (rv_scan rv) r0) (\<lambda>r _.
       let key = point_key equipment property
       in if bt_get (rg_points r) key \<noteq> None
          then (r, Inl (DuplicateIdentity key ''point already recorded for this equipment and property''))
          else run_res r (point_record_parse equipment property scope unit_text class) (\<lambda>r rec.
               run_then (write_record rv op_point_text (pt_equipment rec) (point_descriptor rec) r) (\<lambda>r _.
                 (bump_revision (r\<lparr>rg_points := bt_insert key rec (rg_points r)\<rparr>), Inr ()))))"

definition retire_descriptor :: "string \<Rightarrow> string \<Rightarrow> string \<Rightarrow> string" where
  "retire_descriptor i address reason = join_on (CHR '';'')
     [''v=2'', ''kind=retire'', part ''id'' (pct_encode i), part ''address'' (pct_encode address),
      part ''reason'' (pct_encode reason)]"

definition retire :: "registry_view \<Rightarrow> string \<Rightarrow> string \<Rightarrow> registry \<Rightarrow> registry \<times> (binding_error + unit)" where
  "retire rv i reason r0 =
     run_then (replay (rv_scan rv) r0) (\<lambda>r _.
       run_res r (ok_or (BInvalidRecord (''cannot retire unknown equipment '' @ quoted i)) (bt_get (rg_equipment r) i)) (\<lambda>r rec.
         if reason = [] then (r, Inl (BInvalidInput ''reason'' ''retire reason must not be empty''))
         else if i \<in> rg_retired r then (r, Inl (BInvalidRecord (''equipment '' @ quoted i @ '' is already retired'')))
         else run_then (write_record rv op_retire_text (eq_id rec) (retire_descriptor i (eq_address rec) reason) r) (\<lambda>r _.
           (bump_revision (r\<lparr>rg_retired := insert i (rg_retired r),
              rg_retired_addrs := insert (eq_address rec) (rg_retired_addrs r)\<rparr>), Inr ()))))"

section \<open>Authority\<close>

text \<open>
  What the authority check sees: the canonical paths of the two stores (or the error of resolving
  one), the admission rows the binding store answers, and the gate.
\<close>

record authority_view =
  av_store_path :: "string + string"
  av_gate_path :: "string + string"
  av_rows :: "storage_error + string list list"
  av_gate :: gate_view

definition snapshot_text :: "string list \<Rightarrow> nat \<Rightarrow> binding_error + string" where
  "snapshot_text row i =
     and_then (b_unquote_column (row ! i)) (\<lambda>o'. ok_or (BInvalidRecord ''NULL access snapshot field'') o')"

fun authority_guard :: "string list list \<Rightarrow> string \<Rightarrow> binding_error + string" where
  "authority_guard [] guard = Inr guard"
| "authority_guard (row # rows) guard =
     (if length row \<noteq> 4 then Inl (BInvalidRecord ''access snapshot requires four columns'')
      else
     and_then (ok_or (BInvalidRecord ''invalid access row identity'') (parse_i64 (row ! 0))) (\<lambda>row_id.
     and_then (snapshot_text row 1) (\<lambda>operation.
     and_then (snapshot_text row 2) (\<lambda>entity.
     and_then (snapshot_text row 3) (\<lambda>value_json.
       authority_guard rows (guard @ guard_clause row_id operation entity value_json))))))"

fun authority_error :: "binding_role \<Rightarrow> access_error \<Rightarrow> binding_error" where
  "authority_error requested (ScopeDenied expected presented) = BScopeDenied expected presented"
| "authority_error requested (CeilingExceeded a b) =
     WrongRole (binding_role_as_str requested) (access_error_display (CeilingExceeded a b))"
| "authority_error requested (RoleDenied a b) =
     WrongRole (binding_role_as_str requested) (access_error_display (RoleDenied a b))"
| "authority_error requested e = CapabilityDenied (access_error_display e) (access_error_code e)"

definition authority_of :: "authority_view \<Rightarrow> credential option \<Rightarrow> trusted_scope \<Rightarrow> binding_role \<Rightarrow> binding_error + authority" where
  "authority_of av credential scope requested =
     and_then (map_err BInvalidRecord (av_store_path av)) (\<lambda>p.
     and_then (map_err BInvalidRecord (av_gate_path av)) (\<lambda>q.
       if p \<noteq> q then Inl (BConflict ''access and binding must share the owning database'')
       else
     and_then (map_err BStore (av_rows av)) (\<lambda>rows.
       if length rows = unat (gv_horizon (av_gate av)) + 1
       then Inl (BInvalidRecord ''access history exceeds authentication horizon'')
       else
     and_then (authority_guard rows
         (''(SELECT COUNT(*) FROM outbox WHERE operation LIKE 'access-%')='' @ show_nat (length rows))) (\<lambda>guard.
     and_then (map_err (authority_error requested)
         (case requested of
            Sense \<Rightarrow> enter_review (av_gate av) credential scope
          | Drive \<Rightarrow> enter_publish (av_gate av) credential scope)) (\<lambda>report.
       Inr \<lparr>au_report = report, au_guard = guard\<rparr>)))))"

definition actor_fields :: "enter_report \<Rightarrow> string" where
  "actor_fields report =
     (let row = actor_row (er_actor report)
      in actor_text (ir_cap row) (scope_text (ceiling_scope (actor_bound (er_actor report)))) (ir_capgen row) (ir_issuer row))"

section \<open>Proposals\<close>

record pending_proposal =
  pp_operation :: operation_id
  pp_revision :: binding_revision
  pp_binding :: proposed_binding

record proposal_commit =
  pc_operation :: operation_id
  pc_row_id :: int
  pc_revision :: binding_revision
  pc_binding :: proposed_binding

text \<open>
  A proposal also asks the store for the receipt of its operation (\<open>pv_reconcile\<close>), for the row a
  receipt names (\<open>pv_committed\<close>, by row and kind) and for the history after the commit (\<open>pv_rescan\<close>).
\<close>

record proposal_view =
  pv_base :: registry_view
  pv_reconcile :: mutation_outcome
  pv_committed :: "int \<Rightarrow> string \<Rightarrow> storage_error + string list list"
  pv_authority :: authority_view
  pv_rescan :: "storage_error + string list list"

definition require_revision :: "registry \<Rightarrow> binding_revision \<Rightarrow> binding_error + unit" where
  "require_revision r revision =
     (if rg_revision r \<noteq> revision
      then Inl (BConflict (''input revision '' @ show_word revision @ '' differs from current '' @ show_word (rg_revision r) @
             ''; re-resolve inputs''))
      else Inr ())"

definition committed_descriptor :: "(int \<Rightarrow> string \<Rightarrow> storage_error + string list list) \<Rightarrow> int \<Rightarrow> operation_id \<Rightarrow> string \<Rightarrow>
    binding_error + texts" where
  "committed_descriptor committed row_id operation kind =
     and_then (map_err BStore (committed row_id kind)) (\<lambda>rows.
     and_then (case rows of
         [[c]] \<Rightarrow> and_then (b_unquote_column c) (\<lambda>o'. ok_or (BConflict ''NULL committed descriptor'') o')
       | _ \<Rightarrow> Inl (BConflict ''operation receipt does not identify a binding row'')) (\<lambda>raw.
     and_then (map_err (\<lambda>e. BConflict (error_display e)) (value_from_json raw)) (\<lambda>v.
       case v of
         VText descriptor \<Rightarrow>
           and_then (b_split_descriptor descriptor) (\<lambda>m.
           and_then (b_require_field m ''v'') (\<lambda>version.
             if version \<noteq> ''2'' then Inl (BConflict ''operation receipt/descriptor mismatch'')
             else and_then (b_require_field m ''operation'') (\<lambda>o'.
               if o' \<noteq> operation then Inl (BConflict ''operation receipt/descriptor mismatch'') else Inr m)))
       | _ \<Rightarrow> Inl (BConflict ''committed descriptor is not text''))))"

text \<open>The proposal against the current registry: the point must still be there, unchanged and not retired.\<close>

definition resolve :: "registry \<Rightarrow> proposed_binding \<Rightarrow> binding_error + unit" where
  "resolve r b =
     (let equipment = pb_equipment b; key = point_key equipment (pb_property b)
      in if equipment \<in> rg_retired r then Inl (BConflict ''equipment is retired; cached binding cannot be used'')
         else if equipment \<in> rg_reassessment r
         then Inl (NeedsReassessment equipment (pb_endpoint b) ''replacement requires fresh qualification'')
         else and_then (ok_or (BInvalidRecord (''unknown point '' @ quoted key)) (bt_get (rg_points r) key)) (\<lambda>point.
           if pb_point_scope b \<noteq> pt_scope point then Inl (BConflict ''point scope changed; re-resolve proposal'')
           else if pb_status b = ObservedQualified
           then Inl (BConflict ''static proposal cannot claim observed qualification'')
           else and_then (propose (pb_endpoint b) (pb_class b) (pb_endpoint_scope b) (pb_equipment b) (pb_property b)
             (pt_scope point) (pb_source b) (pt_unit point) (pt_class point) (pb_unit b) (pb_mode b)
             (pb_requested b) (pb_effective b) (pb_feedback b)) (\<lambda>_. Inr ())))"

definition reconcile_proposal :: "proposal_view \<Rightarrow> pending_proposal \<Rightarrow> registry \<Rightarrow>
    registry \<times> (binding_error + proposal_commit option)" where
  "reconcile_proposal pv pending r0 =
     run_then (replay (rv_scan (pv_base pv)) r0) (\<lambda>r _.
       case pv_reconcile pv of
         MNotCommitted _ _ \<Rightarrow> (r, Inr None)
       | other \<Rightarrow> (r,
           and_then (submitted other) (\<lambda>row_id.
           and_then (committed_descriptor (pv_committed pv) row_id (pp_operation pending) op_propose_text) (\<lambda>m.
           and_then (decode_propose m) (\<lambda>b.
           and_then (stored_revision m) (\<lambda>revision.
             if b \<noteq> pp_binding pending \<or> revision \<noteq> pp_revision pending
             then Inl (BConflict ''operation identity reused with different proposal inputs'')
             else and_then (ok_or (BConflict ''revision overflow'') (checked_add revision 1)) (\<lambda>nxt.
               Inr (Some \<lparr>pc_operation = pp_operation pending, pc_row_id = row_id, pc_revision = nxt, pc_binding = b\<rparr>))))))))"

definition stored_proposal :: "pending_proposal \<Rightarrow> enter_report \<Rightarrow> string" where
  "stored_proposal pending report =
     proposal_descriptor (pp_binding pending) @ '';'' @ part ''operation'' (pct_encode (pp_operation pending)) @ '';'' @
     part ''revision'' (show_word (pp_revision pending)) @ '';'' @ actor_fields report"

definition refresh_failed :: "operation_id \<Rightarrow> binding_error \<Rightarrow> binding_error" where
  "refresh_failed operation e = BMutationUnknown operation (''committed; refresh failed: '' @ binding_error_display e)"

definition refreshed :: "operation_id \<Rightarrow> registry \<times> (binding_error + unit) \<Rightarrow> registry \<times> (binding_error + unit)" where
  "refreshed operation p = (fst p, map_err (refresh_failed operation) (snd p))"

definition submit_proposal :: "proposal_view \<Rightarrow> credential option \<Rightarrow> pending_proposal \<Rightarrow> registry \<Rightarrow>
    registry \<times> (binding_error + proposal_commit)" where
  "submit_proposal pv credential pending r0 =
     run_then (reconcile_proposal pv pending r0) (\<lambda>r found.
       case found of
         Some commit \<Rightarrow> (r, Inr commit)
       | None \<Rightarrow>
           run_res r
             (and_then (require_revision r (pp_revision pending)) (\<lambda>_.
              and_then (resolve r (pp_binding pending)) (\<lambda>_.
              and_then (authority_of (pv_authority pv) credential (pb_point_scope (pp_binding pending))
                  (pb_requested (pp_binding pending))) (\<lambda>auth.
              and_then (prepare_row (pv_base pv) r (pp_operation pending) op_propose_text (pb_equipment (pp_binding pending))
                  (stored_proposal pending (au_report auth)) (Some auth)) (\<lambda>row.
                submitted (rv_submit (pv_base pv) row))))))
             (\<lambda>r row_id.
               run_then (refreshed (pp_operation pending) (replay (pv_rescan pv) r)) (\<lambda>r _.
                 (r, Inr \<lparr>pc_operation = pp_operation pending, pc_row_id = row_id, pc_revision = pp_revision pending + 1,
                          pc_binding = pp_binding pending\<rparr>))))"

definition propose_with_credential :: "storage_error + string list list \<Rightarrow> proposal_view \<Rightarrow> credential option \<Rightarrow>
    string \<Rightarrow> endpoint_class \<Rightarrow> trusted_scope \<Rightarrow> string \<Rightarrow> string \<Rightarrow> string \<Rightarrow> unit_of_measure \<Rightarrow> op_mode option \<Rightarrow>
    binding_role \<Rightarrow> binding_role \<Rightarrow> feedback \<Rightarrow> registry \<Rightarrow> registry \<times> (binding_error + proposed_binding)" where
  "propose_with_credential first_scan pv credential endpoint_address class endpoint_scope equipment property source_text
      u mode requested effective fb r0 =
     run_then (replay first_scan r0) (\<lambda>r _.
       let key = point_key equipment property
       in run_res r
         (and_then (ok_or (BInvalidRecord (''unknown point '' @ quoted key @ ''; record the point before proposing''))
             (bt_get (rg_points r) key)) (\<lambda>point.
            if equipment \<in> rg_reassessment r
            then Inl (NeedsReassessment equipment
                   (case bt_get (rg_equipment r) equipment of None \<Rightarrow> [] | Some rec \<Rightarrow> eq_address rec)
                   ''replacement at a retired address needs fresh qualification; old history retained, not overwritten'')
            else
          and_then (endpoint_address_parse endpoint_address) (\<lambda>endpoint.
          and_then (installed_parse ''installed id'' equipment) (\<lambda>equipment_id.
          and_then (property_name_parse property) (\<lambda>prop.
          and_then (installed_parse ''source id'' source_text) (\<lambda>source.
          and_then (propose endpoint class endpoint_scope equipment_id prop (pt_scope point) source (pt_unit point)
              (pt_class point) u mode requested effective fb) (\<lambda>b.
          and_then (rv_operation (pv_base pv)) (\<lambda>operation.
            Inr \<lparr>pp_operation = operation, pp_revision = rg_revision r, pp_binding = b\<rparr>))))))))
         (\<lambda>r pending. run_then (submit_proposal pv credential pending r) (\<lambda>r commit. (r, Inr (pc_binding commit)))))"

section \<open>Findings\<close>

definition stored_finding :: "operation_id \<Rightarrow> binding_revision \<Rightarrow> proposed_binding \<Rightarrow> finding \<Rightarrow> string \<Rightarrow> string" where
  "stored_finding operation revision b f actor = join_on (CHR '';'')
     [''v=2'', ''kind=finding'', part ''operation'' (pct_encode operation), part ''fid'' (pct_encode (fi_id f)),
      part ''generation'' (show_word (fi_generation f)), part ''revision'' (show_word revision),
      part ''digest'' (pct_encode (fi_digest f)), part ''summary'' (pct_encode (fi_summary f)), actor,
      part ''equipment'' (pct_encode (pb_equipment b)), part ''property'' (pct_encode (pb_property b)),
      part ''binding'' (pct_encode (canonical_bytes b))]"

definition find_replayed :: "registry \<Rightarrow> string \<Rightarrow> binding_revision \<Rightarrow> binding_error + finding" where
  "find_replayed r fid revision =
     ok_or (BConflict ''receipt has no replayed finding'')
       (find (\<lambda>f. fi_id f = fid \<and> fi_generation f = revision) (rg_findings r))"

definition emit_finding_operation :: "proposal_view \<Rightarrow> operation_id \<Rightarrow> binding_revision \<Rightarrow> proposed_binding \<Rightarrow> credential \<Rightarrow>
    registry \<Rightarrow> registry \<times> (binding_error + finding)" where
  "emit_finding_operation pv operation revision b credential r0 =
     run_then (replay (rv_scan (pv_base pv)) r0) (\<lambda>r _.
       case pv_reconcile pv of
         MNotCommitted _ _ \<Rightarrow>
           run_res r
             (and_then (require_revision r revision) (\<lambda>_.
              and_then (resolve r b) (\<lambda>_.
                if b \<notin> set (rg_bindings r)
                then Inl (BConflict ''finding requires a durable proposal at current truth'')
                else
              and_then (authority_of (pv_authority pv) (Some credential) (pb_point_scope b) (pb_requested b)) (\<lambda>auth.
                let actor = actor_fields (au_report auth); f = finding_for_binding b revision actor
                in
              and_then (prepare_row (pv_base pv) r operation op_finding_text (pb_equipment b)
                  (stored_finding operation revision b f actor) (Some auth)) (\<lambda>row.
              and_then (submitted (rv_submit (pv_base pv) row)) (\<lambda>_. Inr f))))))
             (\<lambda>r f. run_then (refreshed operation (replay (pv_rescan pv) r)) (\<lambda>r _. (r, Inr f)))
       | other \<Rightarrow> (r,
           and_then (submitted other) (\<lambda>row_id.
           and_then (committed_descriptor (pv_committed pv) row_id operation op_finding_text) (\<lambda>m.
           and_then (stored_revision m) (\<lambda>stored.
           if stored \<noteq> revision then Inl (BConflict ''operation identity reused with different finding inputs'')
           else
           and_then (b_require_field m ''binding'') (\<lambda>raw.
             if raw \<noteq> canonical_bytes b
             then Inl (BConflict ''operation identity reused with different finding inputs'')
             else and_then (b_require_field m ''fid'') (\<lambda>fid. find_replayed r fid revision)))))))"

end
