(* ===== verification/Seal_Store.thy ===== *)
theory Seal_Store
  imports Seal_Manifest Registry_Writer
begin

text \<open>
  The seal store (\<open>src/src/seal/store.rs\<close>): its history of seals and releases in the outbox, the
  custody checks, sealing, capturing and releasing, and the guard that keeps native bytes of live
  seals from being pruned.
\<close>

section \<open>History\<close>

definition op_seal_text :: string where "op_seal_text = ''seal-revision-v1''"
definition op_release_text :: string where "op_release_text = ''seal-release-v1''"

record seal_commit =
  sm_identity :: digest
  sm_row_id :: int
  sm_manifest :: manifest
  sm_reconciled :: bool

record seal_history =
  sh_count :: nat
  sh_seals :: "(digest \<times> seal_commit) list"
  sh_released :: "digest set"

definition seal_row_text :: "string list \<Rightarrow> seal_error + string" where
  "seal_row_text row =
     and_then (map_err SealBinding (b_unquote_column (row ! 2))) (\<lambda>v'.
     and_then (ok_or (SealInvalid ''NULL seal row'') v') (\<lambda>json.
     and_then (map_err (\<lambda>_. SealInvalid ''seal JSON'') (value_from_json json)) (\<lambda>v.
       case v of VText raw \<Rightarrow> Inr raw | _ \<Rightarrow> Inl (SealInvalid ''seal row text''))))"

definition history_step :: "(string \<Rightarrow> seal_error + digest) \<Rightarrow> nat \<Rightarrow> string list \<Rightarrow> seal_history \<Rightarrow> seal_error + seal_history" where
  "history_step tool index row h =
     (if length row \<noteq> 4 then Inl (SealInvalid ''seal history sequence'') else
     and_then (seal_u64 (row ! 3)) (\<lambda>seq.
       if unat seq \<noteq> index + 1 then Inl (SealInvalid ''seal history sequence'') else
     and_then (seal_i64 (row ! 0)) (\<lambda>row_id.
     and_then (seal_row_text row) (\<lambda>raw.
     and_then (seal_decode raw (max_manifest_bytes + 256) 3) (\<lambda>f.
       if row ! 1 = op_seal_text \<and> length f = 3 \<and> f ! 0 = ''seal-row-v1'' then
         and_then (digest_parse (f ! 1)) (\<lambda>identity.
         and_then (manifest_decode (f ! 2)) (\<lambda>mf.
         and_then (manifest_identity tool mf) (\<lambda>actual.
           if actual \<noteq> identity then Inl (SealChanged ''seal manifest digest'')
           else if bt_get (sh_seals h) identity \<noteq> None then Inl (SealInvalid ''duplicate seal identity'')
           else Inr (h\<lparr>sh_seals := bt_insert identity \<lparr>sm_identity = identity, sm_row_id = row_id, sm_manifest = mf,
                        sm_reconciled = False\<rparr> (sh_seals h)\<rparr>))))
       else if row ! 1 = op_release_text \<and> length f = 2 \<and> f ! 0 = ''seal-release-v1'' then
         and_then (digest_parse (f ! 1)) (\<lambda>identity.
           if bt_get (sh_seals h) identity = None \<or> identity \<in> sh_released h then Inl (SealInvalid ''release identity'')
           else Inr (h\<lparr>sh_released := insert identity (sh_released h)\<rparr>))
       else Inl (SealInvalid ''seal history kind''))))))"

fun history_steps :: "(string \<Rightarrow> seal_error + digest) \<Rightarrow> nat \<Rightarrow> string list list \<Rightarrow> seal_history \<Rightarrow> seal_error + seal_history" where
  "history_steps tool index [] h = Inr h"
| "history_steps tool index (row # rows) h =
     and_then (history_step tool index row h) (\<lambda>h'. history_steps tool (index + 1) rows h')"

definition live_seals :: "seal_history \<Rightarrow> seal_commit list" where
  "live_seals h = map snd (filter (\<lambda>(i, _). i \<notin> sh_released h) (sh_seals h))"

definition seal_history_read :: "(string \<Rightarrow> seal_error + digest) \<Rightarrow> storage_error + string list list \<Rightarrow> seal_error + seal_history" where
  "seal_history_read tool scan =
     and_then (map_err SealStorage scan) (\<lambda>rows.
       if length rows > max_seal_history then Inl (SealLimit ''seal history'')
       else
     and_then (history_steps tool 0 rows \<lparr>sh_count = length rows, sh_seals = [], sh_released = {}\<rparr>) (\<lambda>h.
       if length (live_seals h) > max_live_seals then Inl (SealLimit ''live custody'') else Inr h))"

definition seal_history_guard :: "seal_history \<Rightarrow> string" where
  "seal_history_guard h =
     ''(SELECT COUNT(*) FROM outbox WHERE operation IN ('seal-revision-v1','seal-release-v1'))='' @ show_nat (sh_count h)"

section \<open>The store as an operation sees it\<close>

text \<open>
  One write: a row of the history, or an alias of an existing row for a further operation. The
  history is read at most twice by an operation, before and after its write.
\<close>

record seal_write =
  sw_operation :: operation_id
  sw_kind :: string
  sw_identity :: string
  sw_value :: string
  sw_sequence :: nat
  sw_alias :: "int option"
  sw_condition :: string
  sw_expiry :: "int option"

record seal_view =
  ss_slot :: "seal_error + bool"
  ss_db_path :: "seal_error + string"
  ss_native_path :: "seal_error + string"
  ss_registry_path :: "seal_error + string"
  ss_gate_path :: "seal_error + string"
  ss_marker :: "seal_error + bool \<times> nat \<times> string"
  ss_env :: build_env
  ss_hash_tool :: string
  ss_source :: source_view
  ss_native :: native_view
  ss_history :: "nat \<Rightarrow> storage_error + string list list"
  ss_receipt :: mutation_outcome
  ss_max_value :: nat
  ss_prepare :: "nat \<Rightarrow> storage_error + unit"
  ss_submit :: "seal_write \<Rightarrow> mutation_outcome"
  ss_reconcile :: mutation_outcome
  ss_scan :: "storage_error + string list list"
  ss_authority :: authority_view

definition custody_pair :: "seal_view \<Rightarrow> seal_error + string" where
  "custody_pair sl =
     and_then (ss_db_path sl) (\<lambda>db. and_then (ss_native_path sl) (\<lambda>native.
       Inr (frames_encode [''verdant-custody-v1'', db, native])))"

definition verify_marker :: "seal_view \<Rightarrow> string \<Rightarrow> seal_error + unit" where
  "verify_marker sl expected =
     and_then (ss_marker sl) (\<lambda>(is_file, len, bytes).
       if \<not> is_file \<or> len > 8192 then Inl (SealInvalid ''custody sidecar'')
       else if bytes \<noteq> expected
       then Inl (SealConflict ''custody sidecar belongs to another application store or is incomplete'')
       else Inr ())"

definition require_guard :: "seal_view \<Rightarrow> seal_error + unit" where
  "require_guard sl =
     and_then (ss_slot sl) (\<lambda>ours.
       if \<not> ours then Inl (SealConflict ''application custody guard bypass refused'')
       else and_then (custody_pair sl) (\<lambda>pair. verify_marker sl pair))"

definition same_database :: "seal_view \<Rightarrow> seal_error + unit" where
  "same_database sl =
     and_then (ss_db_path sl) (\<lambda>own.
     and_then (ss_registry_path sl) (\<lambda>reg.
       if own \<noteq> reg then Inl (SealConflict ''seal, binding and authority require the same database'')
       else and_then (ss_gate_path sl) (\<lambda>gate.
         if own \<noteq> gate then Inl (SealConflict ''seal, binding and authority require the same database'') else Inr ())))"

fun seal_committed_row :: "mutation_outcome \<Rightarrow> seal_error + int" where
  "seal_committed_row (MCommitted _ rows) = ok_or (SealInvalid ''receipt row id'') (committed_id rows)"
| "seal_committed_row (MNotCommitted _ e) = Inl (SealStorage e)"
| "seal_committed_row (MConflict _ detail) = Inl (SealConflict detail)"
| "seal_committed_row (MUnknown operation detail) = Inl (SealUnknown operation detail)"

text \<open>An uncertain submission is reconciled once by its receipt.\<close>

definition submit_or_reconcile :: "seal_view \<Rightarrow> seal_write \<Rightarrow> mutation_outcome \<times> bool" where
  "submit_or_reconcile sl w =
     (case ss_submit sl w of MUnknown _ _ \<Rightarrow> (ss_reconcile sl, True) | out \<Rightarrow> (out, False))"

definition read_seal_commit :: "seal_view \<Rightarrow> nat \<Rightarrow> int \<Rightarrow> digest \<Rightarrow> seal_error + seal_commit" where
  "read_seal_commit sl pass row_id identity =
     and_then (seal_history_read (sv_tool (ss_source sl)) (ss_history sl pass)) (\<lambda>h.
       case bt_get (sh_seals h) identity of
         Some c \<Rightarrow> if sm_row_id c = row_id then Inr c
                   else Inl (SealConflict ''operation receipt does not identify these seal bytes'')
       | None \<Rightarrow> Inl (SealConflict ''operation receipt does not identify these seal bytes''))"

definition reconcile_inner :: "seal_view \<Rightarrow> digest \<Rightarrow> seal_error + seal_commit option" where
  "reconcile_inner sl identity =
     (case ss_receipt sl of
        MNotCommitted _ _ \<Rightarrow> Inr None
      | other \<Rightarrow> and_then (seal_committed_row other) (\<lambda>row_id.
          map_ok (\<lambda>c. Some (c\<lparr>sm_reconciled := True\<rparr>)) (read_seal_commit sl 0 row_id identity)))"

definition seal_reconcile :: "seal_view \<Rightarrow> digest \<Rightarrow> seal_error + seal_commit option" where
  "seal_reconcile sl identity = and_then (require_guard sl) (\<lambda>_. reconcile_inner sl identity)"

definition capture_simulation :: "seal_view \<Rightarrow> digest \<Rightarrow> seal_error + manifest" where
  "capture_simulation sl identity =
     and_then (require_guard sl) (\<lambda>_.
     and_then (seal_history_read (sv_tool (ss_source sl)) (ss_history sl 0)) (\<lambda>h.
       if identity \<in> sh_released h then Inl SealReleased
       else
     and_then (ok_or (SealMissing identity) (bt_get (sh_seals h) identity)) (\<lambda>c.
     and_then (manifest_verify (sm_manifest c) (ss_source sl) (ss_native sl)) (\<lambda>_.
       Inr (sm_manifest c)))))"

section \<open>Sealing and releasing\<close>

definition row_body :: "seal_view \<Rightarrow> seal_history \<Rightarrow> operation_id \<Rightarrow> string \<Rightarrow> string \<Rightarrow> string \<Rightarrow> string \<Rightarrow> int option \<Rightarrow>
    seal_error + seal_write" where
  "row_body sl h operation kind identity raw condition expiry =
     (if sh_count h \<ge> max_seal_history then Inl (SealLimit ''seal history; explicit operator lifecycle required'')
      else (let value = value_to_json (VText raw)
            in if length value > ss_max_value sl then Inl (SealLimit ''seal row bytes'')
               else Inr \<lparr>sw_operation = operation, sw_kind = kind, sw_identity = identity, sw_value = value,
                         sw_sequence = sh_count h + 1, sw_alias = None, sw_condition = condition, sw_expiry = expiry\<rparr>))"

definition authority_expiry :: "authority \<Rightarrow> int option" where
  "authority_expiry auth = cp_expires (ir_policy (actor_row (er_actor (au_report auth))))"

text \<open>A further operation on a manifest that is already sealed commits an alias of its row.\<close>

definition seal_existing :: "seal_view \<Rightarrow> operation_id \<Rightarrow> authority \<Rightarrow> string \<Rightarrow> seal_history \<Rightarrow> digest \<Rightarrow> manifest \<Rightarrow>
    seal_commit \<Rightarrow> seal_error + seal_commit" where
  "seal_existing sl operation auth refs h identity mf existing =
     (if identity \<in> sh_released h then Inl SealReleased
      else if sm_manifest existing \<noteq> mf then Inl (SealConflict ''digest collision: manifest bytes differ'')
      else
     and_then (map_err SealStorage (ss_prepare sl 0)) (\<lambda>_.
       let w = \<lparr>sw_operation = operation, sw_kind = [], sw_identity = identity, sw_value = [], sw_sequence = 0,
                sw_alias = Some (sm_row_id existing),
                sw_condition = ''('' @ au_guard auth @ '') AND ('' @ refs @ '') AND '' @ seal_history_guard h,
                sw_expiry = authority_expiry auth\<rparr>;
           (out, reconciled) = submit_or_reconcile sl w
       in and_then (seal_committed_row out) (\<lambda>row_id.
            map_ok (\<lambda>c. c\<lparr>sm_reconciled := reconciled\<rparr>) (read_seal_commit sl 1 row_id identity))))"

definition seal_new :: "seal_view \<Rightarrow> operation_id \<Rightarrow> draft \<Rightarrow> registry \<Rightarrow> authority \<Rightarrow> string \<Rightarrow> seal_history \<Rightarrow> digest \<Rightarrow>
    manifest \<Rightarrow> seal_error + seal_commit" where
  "seal_new sl operation d r auth refs h identity mf =
     and_then (map_err SealBinding (require_revision r (dr_revision d))) (\<lambda>_.
       if length (live_seals h) \<ge> max_live_seals then Inl (SealLimit ''live seal custody'')
       else
     and_then (row_body sl h operation op_seal_text identity (frames_encode [''seal-row-v1'', identity, manifest_bytes mf])
         (''(('' @ au_guard auth @ '') AND ('' @ refs @ '') AND ('' @ rg_guard r @ '')) AND '' @ seal_history_guard h)
         (authority_expiry auth)) (\<lambda>w.
     and_then (map_err SealStorage (ss_prepare sl (length (sw_value w)))) (\<lambda>_.
       let (out, reconciled) = submit_or_reconcile sl w
       in and_then (seal_committed_row out) (\<lambda>row_id.
          and_then (read_seal_commit sl 1 row_id identity) (\<lambda>c.
          and_then (manifest_verify (sm_manifest c) (ss_source sl) (ss_native sl)) (\<lambda>_.
            Inr (c\<lparr>sm_reconciled := reconciled\<rparr>)))))))"

definition seal_submit :: "seal_view \<Rightarrow> operation_id \<Rightarrow> draft \<Rightarrow> credential \<Rightarrow> registry \<Rightarrow> seal_error + seal_commit" where
  "seal_submit sl operation d credential r =
     and_then (map_err SealBinding (authority_of (ss_authority sl) (Some credential) (dr_scope d) Drive)) (\<lambda>auth.
     and_then (manifest_stage (ss_env sl) (ss_hash_tool sl) d (actor_fields (au_report auth)) (ss_source sl) (ss_native sl)) (\<lambda>(mf, refs).
     and_then (manifest_identity (sv_tool (ss_source sl)) mf) (\<lambda>identity.
     and_then (reconcile_inner sl identity) (\<lambda>found.
       case found of
         Some c \<Rightarrow> Inr c
       | None \<Rightarrow>
           and_then (seal_history_read (sv_tool (ss_source sl)) (ss_history sl 0)) (\<lambda>h.
             case bt_get (sh_seals h) identity of
               Some existing \<Rightarrow> seal_existing sl operation auth refs h identity mf existing
             | None \<Rightarrow> seal_new sl operation d r auth refs h identity mf)))))"

definition seal_revision :: "seal_view \<Rightarrow> operation_id \<Rightarrow> draft \<Rightarrow> credential \<Rightarrow> registry \<Rightarrow>
    registry \<times> (seal_error + seal_commit)" where
  "seal_revision sl operation d credential r0 =
     (case and_then (require_guard sl) (\<lambda>_. same_database sl) of
        Inl e \<Rightarrow> (r0, Inl e)
      | Inr _ \<Rightarrow> (case replay (ss_scan sl) r0 of
          (r, Inl e) \<Rightarrow> (r, Inl (SealBinding e))
        | (r, Inr _) \<Rightarrow> (r, seal_submit sl operation d credential r)))"

definition seal_release :: "seal_view \<Rightarrow> operation_id \<Rightarrow> digest \<Rightarrow> credential \<Rightarrow> seal_error + unit" where
  "seal_release sl operation identity credential =
     and_then (require_guard sl) (\<lambda>_.
     and_then (same_database sl) (\<lambda>_.
     and_then (seal_history_read (sv_tool (ss_source sl)) (ss_history sl 0)) (\<lambda>h.
     and_then (ok_or (SealMissing identity) (bt_get (sh_seals h) identity)) (\<lambda>c.
     and_then (map_err SealBinding (authority_of (ss_authority sl) (Some credential) (mf_scope (sm_manifest c)) Drive)) (\<lambda>auth.
       if identity \<in> sh_released h then Inr ()
       else (let raw = frames_encode [''seal-release-v1'', identity]
             in and_then (row_body sl h operation op_release_text identity raw
                    (''('' @ au_guard auth @ '') AND '' @ seal_history_guard h) (authority_expiry auth)) (\<lambda>w.
                and_then (map_err SealStorage (ss_prepare sl (length raw))) (\<lambda>_.
                and_then (seal_committed_row (fst (submit_or_reconcile sl w))) (\<lambda>_. Inr ())))))))))"

section \<open>The guard of native pruning\<close>

record custody_plan =
  cy_live :: "string list"
  cy_generations :: "u64 list"
  cy_detail :: string

definition seal_error_prefix :: "(seal_error \<Rightarrow> string) \<Rightarrow> seal_error \<Rightarrow> string" where
  "seal_error_prefix debug e = ''application custody unavailable: '' @ seal_error_code e @ '': '' @ debug e"

definition check_prune :: "(seal_error \<Rightarrow> string) \<Rightarrow> seal_view \<Rightarrow> string \<Rightarrow> custody_plan + unit" where
  "check_prune debug sl pair =
     (case and_then (verify_marker sl pair) (\<lambda>_. seal_history_read (sv_tool (ss_source sl)) (ss_history sl 0)) of
        Inl e \<Rightarrow> Inl \<lparr>cy_live = [], cy_generations = [], cy_detail = seal_error_prefix debug e\<rparr>
      | Inr h \<Rightarrow>
          if live_seals h = [] then Inr ()
          else Inl \<lparr>cy_live = map sm_identity (live_seals h),
                    cy_generations = sorted_list_of_set (\<Union>c \<in> set (live_seals h). set (map nr_generation (mf_native (sm_manifest c)))),
                    cy_detail = ''live application seals retain native bytes; release explicitly before any native prune (conservative whole-pass refusal)''\<rparr>)"

end
