(* ===== verification/Access_Facts.thy ===== *)
theory Access_Facts
  imports Access
begin

text \<open>
  What the access gate guarantees: an exact characterisation of an admitted credential, the order of
  delegated authority, the permanence of a revocation under any later history, and the effect of
  the rows a rotation appends, read back through the stored text.
\<close>

section \<open>Newest generations\<close>

lemma max_by_capgen_None [simp]: "max_by_capgen rs = None \<longleftrightarrow> rs = []"
  by (cases rs) (auto split: option.splits)

lemma max_by_capgen_Some:
  "max_by_capgen rs = Some m \<Longrightarrow> m \<in> set rs \<and> (\<forall>r \<in> set rs. ir_capgen r \<le> ir_capgen m)"
proof (induction rs arbitrary: m)
  case (Cons r rs)
  show ?case
  proof (cases "max_by_capgen rs")
    case None
    with Cons.prems show ?thesis by simp
  next
    case (Some m')
    with Cons.IH [OF this] Cons.prems show ?thesis by (auto split: if_splits)
  qed
qed simp

lemma find_Some_set: "find P xs = Some x \<Longrightarrow> x \<in> set xs \<and> P x"
  by (metis find_Some_iff nth_mem)

lemma latest_Inr: "latest st cap = Inr m \<longleftrightarrow> max_by_capgen (filter (\<lambda>r. ir_cap r = cap) (as_issues st)) = Some m"
  by (simp add: latest_def)

text \<open>Every row of a capability is at most as new as its latest.\<close>

lemma latest_greatest:
  "latest st cap = Inr m \<Longrightarrow> r \<in> set (as_issues st) \<Longrightarrow> ir_cap r = cap \<Longrightarrow> ir_capgen r \<le> ir_capgen m"
  by (auto simp: latest_Inr dest!: max_by_capgen_Some)

lemma latest_mem: "latest st cap = Inr m \<Longrightarrow> m \<in> set (as_issues st) \<and> ir_cap m = cap"
  by (auto simp: latest_Inr dest!: max_by_capgen_Some)

section \<open>Checked credentials\<close>

definition admitted_row :: "access_state \<Rightarrow> credential \<Rightarrow> issue_row \<Rightarrow> bool" where
  "admitted_row st cred row \<longleftrightarrow> row \<in> set (as_issues st) \<and>
     ir_cap row = cred_capability cred \<and> ir_key_id row = cred_key_id cred \<and>
     ir_key_fp row = fingerprint_str (cred_key cred) \<and>
     ir_issuer row = bootstrap_issuer_text \<and> ir_user row = synthetic_user_text \<and>
     \<not> revoked st (ir_cap row) (ir_key_id row) \<and>
     (\<forall>r \<in> set (as_issues st). ir_cap r = ir_cap row \<longrightarrow> ir_capgen r \<le> ir_capgen row)"

lemma checked_sound:
  assumes "checked st now cred scope rotating = Inr row"
  shows "require_bootstrapped st = Inr () \<and> admitted_row st cred row \<and>
    (\<forall>s. scope = Some s \<longrightarrow> scope_text s = ir_scope row) \<and>
    (\<exists>t. now = Inr t \<and> (\<forall>e. cp_expires (ir_policy row) = Some e \<longrightarrow> t < e))"
proof -
  from assms obtain newest t where
    1: "require_bootstrapped st = Inr ()" "latest st (cred_capability cred) = Inr newest"
      "find (\<lambda>r. ir_cap r = cred_capability cred \<and> ir_key_id r = cred_key_id cred) (as_issues st) = Some row"
      "ir_issuer row = bootstrap_issuer_text" "ir_user row = synthetic_user_text"
      "ir_key_fp row = fingerprint_str (cred_key cred)"
      "\<not> (case scope of Some s \<Rightarrow> scope_text s \<noteq> ir_scope row | None \<Rightarrow> False)"
      "\<not> revoked st (ir_cap row) (ir_key_id row)" "ir_capgen row = ir_capgen newest"
      "now = Inr t" "policy_require_live (ir_policy row) t = Inr ()"
    by (auto simp: checked_def split: if_splits)
  from find_Some_set [OF 1(3)] have r: "row \<in> set (as_issues st)" "ir_cap row = cred_capability cred" "ir_key_id row = cred_key_id cred"
    by auto
  have "t < e" if "cp_expires (ir_policy row) = Some e" for e
    using 1(11) that by (auto simp: policy_require_live_def split: if_splits)
  moreover have "scope_text s = ir_scope row" if "scope = Some s" for s
    using 1(7) that by simp
  ultimately show ?thesis
    using 1 r latest_greatest [OF 1(2)] by (auto simp: admitted_row_def)
qed

text \<open>In a replayed state a key identity names one row of its capability, and a generation too.\<close>

definition issues_unique :: "issue_row list \<Rightarrow> bool" where
  "issues_unique rs \<longleftrightarrow>
     (\<forall>r \<in> set rs. \<forall>r' \<in> set rs. ir_cap r = ir_cap r' \<longrightarrow>
        (ir_capgen r = ir_capgen r' \<or> ir_key_id r = ir_key_id r') \<longrightarrow> r = r')"

lemma issues_unique_snoc:
  "issues_unique rs \<Longrightarrow> \<not> duplicate_issue rs row \<Longrightarrow> issues_unique (rs @ [row])"
  by (auto simp: issues_unique_def duplicate_issue_def list_ex_iff)

lemma find_unique:
  "issues_unique rs \<Longrightarrow> row \<in> set rs \<Longrightarrow>
     find (\<lambda>r. ir_cap r = ir_cap row \<and> ir_key_id r = ir_key_id row) rs = Some row"
  by (cases "find (\<lambda>r. ir_cap r = ir_cap row \<and> ir_key_id r = ir_key_id row) rs")
    (auto simp: find_None_iff issues_unique_def dest!: find_Some_set)

lemma checked_complete:
  assumes "require_bootstrapped st = Inr ()" "issues_unique (as_issues st)" "admitted_row st cred row"
    and "\<forall>s. scope = Some s \<longrightarrow> scope_text s = ir_scope row"
    and "now = Inr t" "\<forall>e. cp_expires (ir_policy row) = Some e \<longrightarrow> t < e"
  shows "checked st now cred scope rotating = Inr row"
proof -
  note row = assms(3) [unfolded admitted_row_def]
  obtain m where m: "latest st (cred_capability cred) = Inr m"
    using row by (cases "max_by_capgen (filter (\<lambda>r. ir_cap r = cred_capability cred) (as_issues st))")
      (auto simp: latest_def filter_empty_conv)
  have "ir_capgen m = ir_capgen row"
    using latest_greatest [OF m] latest_mem [OF m] row by (metis order_antisym)
  moreover have "find (\<lambda>r. ir_cap r = cred_capability cred \<and> ir_key_id r = cred_key_id cred) (as_issues st) = Some row"
    using find_unique [OF assms(2), of row] row by simp
  moreover have "policy_require_live (ir_policy row) t = Inr ()"
    using assms(6) by (auto simp: policy_require_live_def split: option.splits)
  moreover have "\<not> (case scope of Some s \<Rightarrow> scope_text s \<noteq> ir_scope row | None \<Rightarrow> False)"
    using assms(4) by (simp split: option.splits)
  ultimately show ?thesis
    using assms(1,5) row m by (auto simp: checked_def)
qed

section \<open>Delegation\<close>

text \<open>Authority that a policy holds over another, and its order.\<close>

lemma policy_authorize_iff:
  "policy_authorize p bound child = Inr () \<longleftrightarrow>
     (\<exists>have_level. cp_admin_ceiling p = Some have_level \<and> ceiling_scope bound \<in> set (cp_scopes p) \<and>
        ceiling_level bound \<le> have_level \<and>
        (\<forall>l. cp_admin_ceiling child = Some l \<longrightarrow> l \<le> have_level \<and> l \<le> ceiling_level bound) \<and>
        set (cp_scopes child) \<subseteq> set (cp_scopes p) \<and>
        (\<forall>e. cp_expires p = Some e \<longrightarrow> (\<exists>e'. cp_expires child = Some e' \<and> e' \<le> e)))"
  by (auto simp: policy_authorize_def list_ex_iff not_less split: option.splits)

lemma policy_authorize_trans_gen:
  assumes "policy_authorize p b c = Inr ()" "policy_authorize c b' d = Inr ()"
  shows "policy_authorize p b' d = Inr () \<and> ceiling_level b' \<le> ceiling_level b"
  using assms unfolding policy_authorize_iff by (fastforce dest: order_trans)

section \<open>Replaying more rows\<close>

text \<open>Rows are only ever added: what a prefix of the history established stays.\<close>

definition extends :: "access_state \<Rightarrow> access_state \<Rightarrow> bool" where
  "extends st st' \<longleftrightarrow> (\<exists>is rs bs. as_issues st' = as_issues st @ is \<and> as_revokes st' = as_revokes st @ rs \<and>
     as_bootstraps st' = as_bootstraps st @ bs)"

lemma extends_refl [simp]: "extends st st"
  by (simp add: extends_def)

lemma extends_trans: "extends a b \<Longrightarrow> extends b c \<Longrightarrow> extends a c"
  by (auto simp: extends_def)

lemma apply_descriptor_extends: "apply_descriptor operation kind m st = Inr (a, st') \<Longrightarrow> extends st st'"
  by (auto simp: apply_descriptor_def extends_def split: if_splits)

lemma read_row_cases:
  assumes "read_row cols st = Inr st'"
  obtains row_id operation entity value_json descriptor kind m s where
    "cols = [cols ! 0, cols ! 1, cols ! 2, cols ! 3]"
    "value_from_json value_json = Inr (VText descriptor)" "decode_descriptor descriptor = Inr (kind, m)"
    "apply_descriptor operation kind m st = Inr (entity, s)"
    "st' = s\<lparr>as_guard := as_guard s @ guard_clause row_id operation entity value_json\<rparr>"
proof -
  from assms obtain row_id operation entity value_json v where
    1: "length cols = 4" "value_from_json value_json = Inr v"
      "(case v of VText descriptor \<Rightarrow>
         and_then (decode_descriptor descriptor) (\<lambda>(kind, m).
         and_then (apply_descriptor operation kind m st) (\<lambda>(anchor, st').
           if anchor \<noteq> entity then Inl (invalid_record ''admission entity/descriptor mismatch'')
           else Inr (st'\<lparr>as_guard := as_guard st' @ guard_clause row_id operation entity value_json\<rparr>)))
       | _ \<Rightarrow> Inl (invalid_record ''admission value is not text'')) = Inr st'"
    unfolding read_row_def by (auto split: if_splits)
  from 1(3) obtain descriptor where v: "v = VText descriptor" by (cases v) auto
  with 1(3) obtain kind m s where
    "decode_descriptor descriptor = Inr (kind, m)" "apply_descriptor operation kind m st = Inr (entity, s)"
    "st' = s\<lparr>as_guard := as_guard s @ guard_clause row_id operation entity value_json\<rparr>"
    by (auto split: if_splits)
  moreover have "cols = [cols ! 0, cols ! 1, cols ! 2, cols ! 3]"
    using 1(1) by (auto simp: numeral_eq_Suc length_Suc_conv)
  ultimately show thesis using that 1(2) v by blast
qed

lemma read_row_extends: "read_row cols st = Inr st' \<Longrightarrow> extends st st'"
  by (erule read_row_cases) (auto dest: apply_descriptor_extends simp: extends_def)

lemma read_rows_extends: "read_rows rows st = Inr st' \<Longrightarrow> extends st st'"
  by (induction rows arbitrary: st) (auto dest: read_row_extends intro: extends_trans)

lemma read_rows_append: "read_rows (rows @ later) st = and_then (read_rows rows st) (read_rows later)"
proof (induction rows arbitrary: st)
  case (Cons cols rows)
  then show ?case by (cases "read_row cols st") simp_all
qed simp

text \<open>The number of rows and the guard text do not influence what is read.\<close>

definition core :: "access_state \<Rightarrow> issue_row list \<times> revoke_row list \<times> bootstrap_row list" where
  "core st = (as_issues st, as_revokes st, as_bootstraps st)"

lemma apply_descriptor_core:
  "core st1 = core st2 \<Longrightarrow> apply_descriptor operation kind m st1 = Inr (a, s1) \<Longrightarrow>
     \<exists>s2. apply_descriptor operation kind m st2 = Inr (a, s2) \<and> core s1 = core s2 \<and> as_count s2 = as_count st2"
  by (auto simp: apply_descriptor_def core_def split: if_splits)

lemma read_row_core:
  assumes "core st1 = core st2" "read_row cols st1 = Inr s1"
  shows "\<exists>s2. read_row cols st2 = Inr s2 \<and> core s1 = core s2 \<and> as_count s2 = as_count st2"
proof -
  from assms(2) obtain row_id operation entity value_json v where
    1: "length cols = 4" "parse_i64 (cols ! 0) = Some row_id" "required_text cols 1 = Inr operation"
      "required_text cols 2 = Inr entity" "required_text cols 3 = Inr value_json"
      "value_from_json value_json = Inr v"
      "(case v of VText descriptor \<Rightarrow>
         and_then (decode_descriptor descriptor) (\<lambda>(kind, m).
         and_then (apply_descriptor operation kind m st1) (\<lambda>(anchor, st').
           if anchor \<noteq> entity then Inl (invalid_record ''admission entity/descriptor mismatch'')
           else Inr (st'\<lparr>as_guard := as_guard st' @ guard_clause row_id operation entity value_json\<rparr>)))
       | _ \<Rightarrow> Inl (invalid_record ''admission value is not text'')) = Inr s1"
    unfolding read_row_def by (auto split: if_splits)
  from 1(7) obtain descriptor where v: "v = VText descriptor" by (cases v) auto
  with 1(7) obtain kind m s where
    2: "decode_descriptor descriptor = Inr (kind, m)" "apply_descriptor operation kind m st1 = Inr (entity, s)"
      "s1 = s\<lparr>as_guard := as_guard s @ guard_clause row_id operation entity value_json\<rparr>"
    by (auto split: if_splits)
  from apply_descriptor_core [OF assms(1) 2(2)] obtain s2 where
    "apply_descriptor operation kind m st2 = Inr (entity, s2)" "core s = core s2" "as_count s2 = as_count st2" by blast
  with 1 2 v show ?thesis by (auto simp: read_row_def core_def)
qed

lemma read_rows_core:
  "core st1 = core st2 \<Longrightarrow> read_rows rows st1 = Inr s1 \<Longrightarrow>
     \<exists>s2. read_rows rows st2 = Inr s2 \<and> core s1 = core s2 \<and> as_count s2 = as_count st2"
proof (induction rows arbitrary: st1 st2)
  case (Cons cols rows)
  then obtain t1 where t1: "read_row cols st1 = Inr t1" "read_rows rows t1 = Inr s1" by auto
  from read_row_core [OF Cons.prems(1) t1(1)] obtain t2 where
    t2: "read_row cols st2 = Inr t2" "core t1 = core t2" "as_count t2 = as_count st2" by blast
  from Cons.IH [OF t2(2) t1(2)] t2 show ?case by auto
qed auto

lemma core_initial: "core (initial_state n) = ([], [], [])"
  by (simp add: core_def initial_state_def)

lemma revoked_extends: "extends st st' \<Longrightarrow> revoked st cap key_id \<Longrightarrow> revoked st' cap key_id"
  by (auto simp: extends_def revoked_def)

lemma read_state_extends:
  assumes "read_state h (Inr rows) = Inr st" "read_state h' (Inr (rows @ later)) = Inr st'"
  shows "\<exists>s. core s = core st \<and> extends s st'"
proof -
  from assms obtain s where s: "read_rows rows (initial_state (length (rows @ later))) = Inr s" "read_rows later s = Inr st'"
    by (auto simp: read_state_def read_rows_append)
  from assms(1) have "read_rows rows (initial_state (length rows)) = Inr st" by (simp add: read_state_def)
  from read_rows_core [OF _ this, of "initial_state (length (rows @ later))"] s(1)
  have "core s = core st" by (auto simp: core_initial)
  with read_rows_extends [OF s(2)] show ?thesis by blast
qed

lemma revocation_permanent_gen:
  assumes "read_state h (Inr rows) = Inr st" "revoked st (cred_capability cred) (cred_key_id cred)"
    and "read_state h' (Inr (rows @ later)) = Inr st'"
  shows "\<not> is_ok (checked st' now cred scope rotating)"
proof
  assume "is_ok (checked st' now cred scope rotating)"
  then obtain row where "checked st' now cred scope rotating = Inr row" by (auto simp: is_ok_iff)
  from checked_sound [OF this] have "\<not> revoked st' (cred_capability cred) (cred_key_id cred)"
    by (auto simp: admitted_row_def)
  moreover from read_state_extends [OF assms(1,3)] obtain s where "core s = core st" "extends s st'" by blast
  with assms(2) have "revoked st' (cred_capability cred) (cred_key_id cred)"
    by (auto simp: core_def intro: revoked_extends simp: revoked_def extends_def)
  ultimately show False by contradiction
qed

section \<open>Stored text\<close>

text \<open>The columns the scan returns for a stored row: SQLite's \<open>quote\<close> on each text.\<close>

definition columns :: "int \<Rightarrow> string \<times> string \<times> string \<Rightarrow> string list" where
  "columns row_id = (\<lambda>(operation, entity, value_json).
     [show_int row_id, sql_quote operation, sql_quote entity, sql_quote value_json])"

lemma undouble_quotes: "undouble (concat (map (\<lambda>c. if c = squote then [squote, squote] else [c]) s)) = s"
proof (induction s)
  case (Cons c s)
  then show ?case
    by (cases "concat (map (\<lambda>c. if c = squote then [squote, squote] else [c]) s)") (auto split: if_splits)
qed simp

lemma unquote_sql_quote [simp]: "unquote_column (sql_quote s) = Inr (Some s)"
proof -
  have "sql_quote s \<noteq> ''NULL''" by (simp add: sql_quote_def verdant_defs)
  then show ?thesis
    by (simp add: unquote_column_def) (simp add: sql_quote_def undouble_quotes butlast_append)
qed

lemma required_text_columns [simp]:
  "required_text (columns i (a, b, c)) (Suc 0) = Inr a"
  "required_text (columns i (a, b, c)) 2 = Inr b"
  "required_text (columns i (a, b, c)) 3 = Inr c"
  by (simp_all add: required_text_def columns_def numeral_2_eq_2 numeral_3_eq_3)

lemma read_row_columns:
  assumes "in_i64 i" "utf8_valid d" "decode_descriptor d = Inr (kind, m)"
    and "apply_descriptor operation kind m st = Inr (entity, s)"
  shows "\<exists>g. read_row (columns i (operation, entity, value_to_json (VText d))) st = Inr (s\<lparr>as_guard := g\<rparr>)"
proof -
  have "length (columns i (operation, entity, value_to_json (VText d))) = 4"
    "columns i (operation, entity, value_to_json (VText d)) ! 0 = show_int i"
    by (simp_all add: columns_def)
  with assms show ?thesis
    by (auto simp: read_row_def value_round_trip_gen)
qed

lemma pct_encode_utf8 [simp]: "utf8_valid (pct_encode s)"
proof -
  have "\<forall>c \<in> set (pct_byte b). byte c < 0x80" for b
    using byte_nibbles [of b, THEN upper_hex_digit_plain] pct_byte_cases [of b] by auto
  then show ?thesis by (intro utf8_valid_all_ascii) (auto simp: pct_encode_def)
qed

lemma fields_text_utf8: "\<forall>f \<in> set kvs. utf8_valid (fst f) \<and> utf8_valid (fst (snd f)) \<Longrightarrow> utf8_valid (fields_text kvs)"
  unfolding fields_text_def by (rule join_on_utf8) (auto simp: part_def)

lemma encode_utf8 [simp]:
  "utf8_valid (encode_issue row)" "utf8_valid (encode_revoke rv)" "utf8_valid (encode_bootstrap b)"
  unfolding issue_descriptor revoke_descriptor bootstrap_descriptor
  by (rule fields_text_utf8; simp add: plain_utf8 plain_def verdant_defs)+

lemma read_issue_columns:
  assumes "in_i64 i" "issue_ok row" "\<not> duplicate_issue (as_issues st) row"
  shows "\<exists>g. read_row (columns i (op_issue_text, ir_cap row, value_to_json (VText (encode_issue row)))) st =
    Inr (st\<lparr>as_issues := as_issues st @ [row], as_guard := g\<rparr>)"
proof -
  obtain m where m: "decode_descriptor (encode_issue row) = Inr (''issue'', m)" "decode_issue m = Inr row"
    using issue_round_trip [OF assms(2)] by blast
  have "apply_descriptor op_issue_text ''issue'' m st = Inr (ir_cap row, st\<lparr>as_issues := as_issues st @ [row]\<rparr>)"
    using m(2) assms(3) by (simp add: apply_descriptor_def)
  from read_row_columns [OF assms(1) encode_utf8(1) m(1) this] show ?thesis by simp
qed

lemma read_revoke_columns:
  assumes "in_i64 i" "revoke_ok row"
  shows "\<exists>g. read_row (columns i (op_revoke_text, rr_cap row, value_to_json (VText (encode_revoke row)))) st =
    Inr (st\<lparr>as_revokes := as_revokes st @ [row], as_guard := g\<rparr>)"
proof -
  obtain m where m: "decode_descriptor (encode_revoke row) = Inr (''revoke'', m)" "decode_revoke m = Inr row"
    using revoke_round_trip [OF assms(2)] by blast
  have "apply_descriptor op_revoke_text ''revoke'' m st = Inr (rr_cap row, st\<lparr>as_revokes := as_revokes st @ [row]\<rparr>)"
    using m(2) by (simp add: apply_descriptor_def)
  from read_row_columns [OF assms(1) encode_utf8(2) m(1) this] show ?thesis by simp
qed

lemma read_bootstrap_columns:
  assumes "in_i64 i" "bootstrap_ok row"
  shows "\<exists>g. read_row (columns i (op_bootstrap_text, br_user row, value_to_json (VText (encode_bootstrap row)))) st =
    Inr (st\<lparr>as_bootstraps := as_bootstraps st @ [row], as_guard := g\<rparr>)"
proof -
  obtain m where m: "decode_descriptor (encode_bootstrap row) = Inr (''bootstrap'', m)" "decode_bootstrap m = Inr row"
    using bootstrap_round_trip [OF assms(2)] by blast
  have "apply_descriptor op_bootstrap_text ''bootstrap'' m st = Inr (br_user row, st\<lparr>as_bootstraps := as_bootstraps st @ [row]\<rparr>)"
    using m(2) by (simp add: apply_descriptor_def)
  from read_row_columns [OF assms(1) encode_utf8(3) m(1) this] show ?thesis by simp
qed

section \<open>What a replay admits\<close>

lemma pct_decode_utf8: "pct_decode s = Inr v \<Longrightarrow> utf8_valid v"
  by (auto simp: pct_decode_def split: if_splits)

lemma split_parts_utf8:
  "split_parts ps m = Inr m' \<Longrightarrow> \<forall>p \<in> set m. utf8_valid (snd p) \<Longrightarrow> \<forall>p \<in> set m'. utf8_valid (snd p)"
proof (induction ps arbitrary: m)
  case (Cons p ps)
  show ?case
  proof (cases "dropWhile (\<lambda>c. c \<noteq> CHR ''='') p")
    case Nil
    with Cons.prems(1) show ?thesis by (simp only: split_parts.simps Let_def list.case) simp
  next
    case (Cons c e)
    let ?k = "takeWhile (\<lambda>c. c \<noteq> CHR ''='') p"
    from Cons.prems(1) Cons obtain v where v: "pct_decode e = Inr v" "split_parts ps (bt_insert ?k v m) = Inr m'"
      by (simp only: split_parts.simps Let_def list.case) (auto split: if_splits)
    show ?thesis
      by (rule Cons.IH [OF v(2)], rule ball_bt_insert) (use Cons.prems(2) pct_decode_utf8 [OF v(1)] in auto)
  qed
qed simp

lemma decode_descriptor_utf8:
  assumes "decode_descriptor d = Inr (kind, m)" "bt_get m k = Some v"
  shows "utf8_valid v"
proof -
  have "split_parts (split_on (CHR '';'') d) [] = Inr m"
    using assms(1) by (auto simp: decode_descriptor_def split_descriptor_def split: if_splits)
  from split_parts_utf8 [OF this] assms(2) show ?thesis
    by (auto simp: bt_get_def dest!: map_of_SomeD)
qed

lemma parse_scopes_ok: "parse_scopes ss = Inr ts \<Longrightarrow> \<forall>t \<in> set ts. trusted_scope_ok t"
  by (induction ss arbitrary: ts) (auto simp: trusted_scope_parse_ok trusted_scope_ok_def)

lemma parse_policy_ok:
  assumes "parse_policy ceiling admin scopes expires = Inr p" "\<forall>e. expires = Some e \<longrightarrow> in_i64 e"
  shows "policy_ok ceiling p"
proof (cases "admin = ''none''")
  case True
  with assms show ?thesis
    by (auto simp: parse_policy_def policy_entry_only_def policy_ok_def split: if_splits option.splits)
next
  case False
  with assms(1) obtain level ts where
    1: "\<not> level > ceiling" "parse_scopes (split_on (CHR '','') scopes) = Inr ts" "policy_administrator ts level expires = Inr p"
    by (auto simp: parse_policy_def split: if_splits)
  from parse_scopes_ok [OF 1(2)] 1(1,3) assms(2) show ?thesis
    by (auto simp: policy_administrator_def policy_ok_def distinct_card length_remdups_card_conv card_distinct
        split: if_splits option.splits)
qed

lemma parse_expires_range: "parse_expires s = Inr x \<Longrightarrow> x = Some e \<Longrightarrow> in_i64 e"
  by (auto simp: parse_expires_def dest: parse_i64_range split: if_splits)

lemma require_field_utf8: "require_field m k = Inr v \<Longrightarrow> decode_descriptor d = Inr (kind, m) \<Longrightarrow> utf8_valid v"
  by (auto simp: require_field_def dest: decode_descriptor_utf8)

lemma decode_issue_valid:
  assumes "decode_issue m = Inr row" "decode_descriptor d = Inr (kind, m)"
  shows "issue_ok row"
proof -
  note field = require_field_utf8 [OF _ assms(2)]
  from assms(1) obtain ceiling admin scopes expires_raw expires where
    1: "parse_policy (ir_ceiling row) admin scopes expires = Inr (ir_policy row)" "parse_expires expires_raw = Inr expires"
      "require_field m ''keyfp'' = Inr (ir_key_fp row)" "require_field m ''reason'' = Inr (ir_reason row)"
      "require_field m ''label'' = Inr (ir_label row)"
    and 2: "token_ok (ir_cap row)" "id_ok (ir_scope row)" "ir_ceiling row \<le> max_ceiling_level"
      "is_ok (role_kind_parse (ir_role row))" "token_ok (ir_key_id row)" "ir_key_fp row \<noteq> []"
      "length (ir_key_fp row) \<le> 64" "token_ok (ir_issuer row)" "ir_capgen row \<noteq> 0" "token_ok (ir_user row)"
      "ir_reason row \<noteq> []" "ir_label row \<noteq> []"
    by (auto simp: decode_issue_def trusted_scope_parse_ok not_less split: if_splits)
  have "policy_ok (ir_ceiling row) (ir_policy row)"
    using parse_policy_ok [OF 1(1)] parse_expires_range [OF 1(2)] by blast
  with 2 field [OF 1(3)] field [OF 1(4)] field [OF 1(5)] show ?thesis by (simp add: issue_ok_def)
qed

text \<open>The invariant of every replayed state.\<close>

definition issues_ok :: "access_state \<Rightarrow> bool" where
  "issues_ok st \<longleftrightarrow> issues_unique (as_issues st) \<and> (\<forall>r \<in> set (as_issues st). issue_ok r)"

lemma apply_descriptor_issues_ok:
  "apply_descriptor operation kind m st = Inr (a, st') \<Longrightarrow> decode_descriptor d = Inr (kind, m) \<Longrightarrow> issues_ok st \<Longrightarrow> issues_ok st'"
  by (auto simp: apply_descriptor_def issues_ok_def issues_unique_snoc dest: decode_issue_valid split: if_splits)

lemma read_row_issues_ok: "read_row cols st = Inr st' \<Longrightarrow> issues_ok st \<Longrightarrow> issues_ok st'"
  by (erule read_row_cases) (auto dest: apply_descriptor_issues_ok simp: issues_ok_def)

lemma read_rows_issues_ok: "read_rows rows st = Inr st' \<Longrightarrow> issues_ok st \<Longrightarrow> issues_ok st'"
  by (induction rows arbitrary: st) (auto dest: read_row_issues_ok)

lemma read_state_issues_ok: "read_state h scan = Inr st \<Longrightarrow> issues_ok st"
  by (auto simp: read_state_def split: if_splits dest!: read_rows_issues_ok)
    (simp add: issues_ok_def initial_state_def issues_unique_def)

lemma read_rows_count: "read_rows rows st = Inr st' \<Longrightarrow> as_count st' = as_count st"
  using read_rows_core [of st st rows st'] by auto

lemma read_state_count: "read_state h (Inr rows) = Inr st \<Longrightarrow> as_count st = length rows"
  by (auto simp: read_state_def initial_state_def dest!: read_rows_count split: if_splits)

text \<open>Within the horizon, a longer history is read from the state of its prefix.\<close>

lemma read_state_append:
  assumes "read_state h (Inr rows) = Inr st" "length (rows @ new) \<le> unat h'"
    and "\<And>s. core s = core st \<Longrightarrow> \<exists>s'. read_rows new s = Inr s' \<and> core s' = c"
  shows "\<exists>st'. read_state h' (Inr (rows @ new)) = Inr st' \<and> core st' = c \<and> as_count st' = length rows + length new"
proof -
  let ?n = "length (rows @ new)"
  from assms(1) have "read_rows rows (initial_state (length rows)) = Inr st"
    by (auto simp: read_state_def split: if_splits)
  from read_rows_core [OF _ this, of "initial_state ?n"] obtain s where
    s: "read_rows rows (initial_state ?n) = Inr s" "core st = core s" by (auto simp: core_initial)
  from assms(3) [of s] s(2) obtain s' where s': "read_rows new s = Inr s'" "core s' = c" by auto
  have r: "read_state h' (Inr (rows @ new)) = Inr s'"
    using s(1) s'(1) assms(2) by (simp add: read_state_def read_rows_append)
  from read_state_count [OF this] s'(2) r show ?thesis by auto
qed

section \<open>The effect of the gate's own rows\<close>

lemma fingerprint_shape: "length (fingerprint_str key) = 16 \<and> utf8_valid (fingerprint_str key)"
proof -
  have "length (show_hex w n) = w" for w n
    by (induction w n rule: show_hex.induct) simp_all
  moreover have "utf8_valid (show_hex w n)" for w n
  proof (induction w n rule: show_hex.induct)
    case (2 w n)
    have "unat (n mod 16) < 16" by (simp add: unat_mod)
    then have "utf8_valid [hex_digit (unat (n mod 16))]" by (auto simp: hex_digit_def byte_char_of)
    with 2 show ?case by simp
  qed simp
  ultimately show ?thesis by (simp add: fingerprint_str_def)
qed

lemma batch_records_Inr:
  "batch_records rs = Inr out \<Longrightarrow> out = map (\<lambda>(operation, entity, d). (operation, entity, value_to_json (VText d))) rs"
  by (induction rs arbitrary: out rule: batch_records.induct) auto

lemma access_batch_records:
  "access_batch st rs e = Inr b \<Longrightarrow>
     ab_records b = map (\<lambda>(operation, entity, d). (operation, entity, value_to_json (VText d))) rs \<and> ab_guard b = as_guard st"
  by (auto simp: access_batch_def dest: batch_records_Inr)

definition written :: "int list \<Rightarrow> access_batch \<Rightarrow> string list list" where
  "written ids b = map2 columns ids (ab_records b)"

lemma require_bootstrapped_iff:
  "require_bootstrapped st = Inr () \<longleftrightarrow> as_count st \<noteq> 0 \<and>
     (\<exists>b. as_bootstraps st = [b] \<and> br_user b = synthetic_user_text \<and> br_issuer b = bootstrap_issuer_text) \<and>
     (\<exists>r \<in> set (as_issues st). ir_cap r = reviewer_cap_text) \<and> (\<exists>r \<in> set (as_issues st). ir_cap r = publisher_cap_text)"
  by (cases "as_bootstraps st")
    (auto simp: require_bootstrapped_def list_ex_iff length_Suc_conv split: if_splits)

lemma require_bootstrapped_grow:
  "require_bootstrapped st = Inr () \<Longrightarrow> as_issues st' = as_issues st @ new \<Longrightarrow> as_bootstraps st' = as_bootstraps st \<Longrightarrow>
     as_count st' \<noteq> 0 \<Longrightarrow> require_bootstrapped st' = Inr ()"
  by (auto simp: require_bootstrapped_iff)

lemma next_generation:
  fixes g n :: u32
  assumes "checked_add g 1 = Some n" shows "n \<noteq> 0 \<and> g < n"
proof -
  have "unat n = Suc (unat g)" using checked_add_Some [OF assms] by simp
  then show ?thesis by (auto simp: word_less_nat_alt)
qed

lemma rotate_cases:
  assumes "rotate g cur kid key reason = Inr (cred', b)"
  obtains st row nxt row' where "read_state (gv_horizon g) (gv_scan g) = Inr st"
    "checked st (gv_now g) cur None True = Inr row" "checked_add (ir_capgen row) 1 = Some nxt"
    "\<not> list_ex (\<lambda>r. ir_cap r = ir_cap row \<and> ir_key_id r = kid) (as_issues st)"
    "row' = row\<lparr>ir_capgen := nxt, ir_key_id := kid, ir_key_fp := fingerprint_str key, ir_reason := reason\<rparr>"
    "cred' = \<lparr>cred_capability = cred_capability cur, cred_key_id = kid, cred_key = key\<rparr>"
    "access_batch st [(op_revoke_text, ir_cap row, encode_revoke (revoke_row_of row reason)),
       (op_issue_text, ir_cap row, encode_issue row')] (cp_expires (ir_policy row)) = Inr b"
  using assms by (auto simp: rotate_def Let_def split: if_splits)

lemma rotate_effect:
  assumes rot: "rotate g cur kid key reason = Inr (cred', b)" and scan: "gv_scan g = Inr rows"
    and new: "token_ok kid" "reason \<noteq> []" "utf8_valid reason" and ids: "in_i64 i" "in_i64 j"
    and room: "length rows + 2 \<le> unat h"
  obtains st row row' st' where
    "read_state (gv_horizon g) (Inr rows) = Inr st" "checked st (gv_now g) cur None True = Inr row"
    "read_state h (Inr (rows @ written [i, j] b)) = Inr st'"
    "as_issues st' = as_issues st @ [row']" "as_revokes st' = as_revokes st @ [revoke_row_of row reason]"
    "as_bootstraps st' = as_bootstraps st" "as_count st' \<noteq> 0"
    "ir_cap row' = ir_cap row" "ir_key_id row' = kid" "ir_key_fp row' = fingerprint_str key" "ir_capgen row < ir_capgen row'"
    "ir_issuer row' = ir_issuer row" "ir_user row' = ir_user row" "ir_scope row' = ir_scope row"
    "ir_ceiling row' = ir_ceiling row" "ir_role row' = ir_role row" "ir_policy row' = ir_policy row"
    "cred' = \<lparr>cred_capability = cred_capability cur, cred_key_id = kid, cred_key = key\<rparr>"
proof -
  obtain st row nxt row' where st: "read_state (gv_horizon g) (gv_scan g) = Inr st"
    and chk: "checked st (gv_now g) cur None True = Inr row" and nxt: "checked_add (ir_capgen row) 1 = Some nxt"
    and fresh: "\<not> list_ex (\<lambda>r. ir_cap r = ir_cap row \<and> ir_key_id r = kid) (as_issues st)"
    and row': "row' = row\<lparr>ir_capgen := nxt, ir_key_id := kid, ir_key_fp := fingerprint_str key, ir_reason := reason\<rparr>"
    and cred': "cred' = \<lparr>cred_capability = cred_capability cur, cred_key_id = kid, cred_key = key\<rparr>"
    and batch: "access_batch st [(op_revoke_text, ir_cap row, encode_revoke (revoke_row_of row reason)),
       (op_issue_text, ir_cap row, encode_issue row')] (cp_expires (ir_policy row)) = Inr b"
    by (rule rotate_cases [OF rot])
  let ?rev = "revoke_row_of row reason"
  have adm: "admitted_row st cur row" using checked_sound [OF chk] by blast
  have issue: "issue_ok row" using read_state_issues_ok [OF st] adm by (auto simp: issues_ok_def admitted_row_def)
  note gen = next_generation [OF nxt]
  have ok': "issue_ok row'" using issue new gen fingerprint_shape [of key]
    by (simp add: issue_ok_def row' flip: length_greater_0_conv)
  have rok: "revoke_ok ?rev" using issue new by (simp add: issue_ok_def revoke_ok_def revoke_row_of_def bootstrap_issuer_text_def
      token_ok_def id_char_def is_ascii_alphanumeric_def is_ascii_digit_def)
  have dup: "\<not> duplicate_issue (as_issues st) row'"
  proof
    assume "duplicate_issue (as_issues st) row'"
    then obtain r where r: "r \<in> set (as_issues st)" "ir_cap r = ir_cap row" "ir_capgen r = nxt \<or> ir_key_id r = kid"
      by (auto simp: duplicate_issue_def list_ex_iff row')
    with adm have "ir_capgen r \<le> ir_capgen row" by (simp add: admitted_row_def)
    with r gen fresh show False by (auto simp: list_ex_iff)
  qed
  let ?c = "(as_issues st @ [row'], as_revokes st @ [?rev], as_bootstraps st)"
  have recs: "ab_records b = [(op_revoke_text, rr_cap ?rev, value_to_json (VText (encode_revoke ?rev))),
      (op_issue_text, ir_cap row', value_to_json (VText (encode_issue row')))]"
    using access_batch_records [OF batch] by (simp add: revoke_row_of_def row')
  have "\<exists>s'. read_rows (written [i, j] b) s = Inr s' \<and> core s' = ?c" if s: "core s = core st" for s
  proof -
    obtain s1 g1 where s1: "read_row (columns i (op_revoke_text, rr_cap ?rev, value_to_json (VText (encode_revoke ?rev)))) s = Inr s1"
      "s1 = s\<lparr>as_revokes := as_revokes s @ [?rev], as_guard := g1\<rparr>"
      using read_revoke_columns [OF ids(1) rok, of s] by blast
    have "\<not> duplicate_issue (as_issues s1) row'" using dup s s1(2) by (simp add: core_def)
    from read_issue_columns [OF ids(2) ok' this] s1 s show ?thesis
      by (auto simp: written_def recs core_def)
  qed
  with room st scan have "\<exists>st'. read_state h (Inr (rows @ written [i, j] b)) = Inr st' \<and> core st' = ?c \<and>
      as_count st' = length rows + length (written [i, j] b)"
    by (intro read_state_append [of "gv_horizon g" rows st]) (simp_all add: written_def recs)
  then obtain st' where st': "read_state h (Inr (rows @ written [i, j] b)) = Inr st'" "core st' = ?c"
      "as_count st' = length rows + 2" by (auto simp: written_def recs)
  show thesis
    by (rule that [where row' = row', OF st [unfolded scan] chk st'(1)]) (use st'(2,3) gen cred' in \<open>simp_all add: core_def row'\<close>)
qed

text \<open>
  After a rotation the new key is admitted where the old one was, with the old row's scope, policy, role and ceiling, and
  the old key never again, over any history that continues this one.
\<close>

lemma rotation_gen:
  assumes rot: "rotate g cur kid key reason = Inr (cred', b)" and scan: "gv_scan g = Inr rows"
    and new: "token_ok kid" "reason \<noteq> []" "utf8_valid reason" and ids: "in_i64 i" "in_i64 j"
    and room: "length rows + 2 \<le> unat h"
    and unused: "\<And>st. read_state (gv_horizon g) (Inr rows) = Inr st \<Longrightarrow> \<not> revoked st (cred_capability cur) kid"
  shows "\<exists>st row row' st'. read_state (gv_horizon g) (gv_scan g) = Inr st \<and> admitted_row st cur row \<and>
    cred' = \<lparr>cred_capability = cred_capability cur, cred_key_id = kid, cred_key = key\<rparr> \<and>
    ir_scope row' = ir_scope row \<and> ir_policy row' = ir_policy row \<and> ir_role row' = ir_role row \<and> ir_ceiling row' = ir_ceiling row \<and>
    read_state h (Inr (rows @ written [i, j] b)) = Inr st' \<and>
    (\<forall>t. (\<forall>e. cp_expires (ir_policy row) = Some e \<longrightarrow> t < e) \<longrightarrow>
        checked st' (Inr t) cred' (Some \<lparr>scope_text = ir_scope row\<rparr>) False = Inr row') \<and>
    (\<forall>h' later st2 now scope rotating. read_state h' (Inr (rows @ written [i, j] b @ later)) = Inr st2 \<longrightarrow>
        \<not> is_ok (checked st2 now cur scope rotating))"
proof -
  obtain st row row' st' where st: "read_state (gv_horizon g) (Inr rows) = Inr st"
    and chk: "checked st (gv_now g) cur None True = Inr row"
    and st': "read_state h (Inr (rows @ written [i, j] b)) = Inr st'"
      "as_issues st' = as_issues st @ [row']" "as_revokes st' = as_revokes st @ [revoke_row_of row reason]"
      "as_bootstraps st' = as_bootstraps st" "as_count st' \<noteq> 0"
    and row': "ir_cap row' = ir_cap row" "ir_key_id row' = kid" "ir_key_fp row' = fingerprint_str key"
      "ir_capgen row < ir_capgen row'" "ir_issuer row' = ir_issuer row" "ir_user row' = ir_user row"
      "ir_scope row' = ir_scope row" "ir_ceiling row' = ir_ceiling row" "ir_role row' = ir_role row" "ir_policy row' = ir_policy row"
    and cred': "cred' = \<lparr>cred_capability = cred_capability cur, cred_key_id = kid, cred_key = key\<rparr>"
    by (rule rotate_effect [OF rot scan new ids room])
  have boot: "require_bootstrapped st = Inr ()" and adm: "admitted_row st cur row"
    using checked_sound [OF chk] by blast+
  note adm' = adm [unfolded admitted_row_def]
  have "kid \<noteq> ir_key_id row"
  proof
    assume "kid = ir_key_id row"
    then have "row = row'" using read_state_issues_ok [OF st'(1)] row' adm' st'(2)
      by (auto simp: issues_ok_def issues_unique_def)
    with row'(4) show False by simp
  qed
  then have nr: "\<not> revoked st' (ir_cap row') (ir_key_id row')"
    using unused [OF st] st'(3) row' adm' by (auto simp: revoked_def revoke_row_of_def)
  have "ir_capgen r \<le> ir_capgen row'" if "r \<in> set (as_issues st')" "ir_cap r = ir_cap row'" for r
    using that st'(2) row'(1,4) adm' by (auto intro: order_trans less_imp_le)
  with nr have adm2: "admitted_row st' cred' row'"
    using adm' row' cred' st'(2) by (auto simp: admitted_row_def)
  have boot': "require_bootstrapped st' = Inr ()"
    by (rule require_bootstrapped_grow [OF boot st'(2,4,5)])
  have uniq: "issues_unique (as_issues st')" using read_state_issues_ok [OF st'(1)] by (simp add: issues_ok_def)
  have ok: "checked st' (Inr t) cred' (Some \<lparr>scope_text = ir_scope row'\<rparr>) False = Inr row'"
    if "\<forall>e. cp_expires (ir_policy row') = Some e \<longrightarrow> t < e" for t
    by (rule checked_complete [OF boot' uniq adm2 _ refl that]) simp
  have "revoked st' (cred_capability cur) (cred_key_id cur)"
    using st'(3) adm' by (auto simp: revoked_def revoke_row_of_def)
  then have "\<not> is_ok (checked st2 now cur scope rotating)"
    if "read_state h' (Inr (rows @ written [i, j] b @ later)) = Inr st2" for h' later st2 now scope rotating
    using revocation_permanent_gen [OF st'(1), of cur h' later st2] that by simp
  with ok st'(1) st scan adm cred' row'(7-10) show ?thesis
    by (intro exI [of _ st] exI [of _ row] exI [of _ row'] exI [of _ st']) simp
qed

section \<open>Histories the gate writes\<close>

text \<open>What the constructors of the inputs admit.\<close>

definition policy_made :: "capability_policy \<Rightarrow> bool" where
  "policy_made p \<longleftrightarrow> policy_ok max_ceiling_level p"

definition reason_made :: "string \<Rightarrow> bool" where
  "reason_made s \<longleftrightarrow> s \<noteq> [] \<and> utf8_valid s"

text \<open>
  The rows of a store whose access rows are written by the gate alone: each batch commits on the
  rows its decision read, which the guard enforces, and gets fresh row numbers.
\<close>

inductive gate_history :: "string list list \<Rightarrow> bool" where
  gh_empty: "gate_history []"
| gh_bootstrap: "gate_history rows \<Longrightarrow> gv_scan g = Inr rows \<Longrightarrow> bootstrap g pid uniq reason = Inr (rc, pc, b) \<Longrightarrow>
    reason_made reason \<Longrightarrow> list_all in_i64 [i, j, k] \<Longrightarrow> gate_history (rows @ written [i, j, k] b)"
| gh_issue: "gate_history rows \<Longrightarrow> gv_scan g = Inr rows \<Longrightarrow>
    issue_with_policy g capability scope ceiling role key_id key administrator reason label policy = Inr (cred, b) \<Longrightarrow>
    token_ok capability \<Longrightarrow> trusted_scope_ok scope \<Longrightarrow> token_ok key_id \<Longrightarrow> reason_made reason \<Longrightarrow> reason_made label \<Longrightarrow>
    policy_made policy \<Longrightarrow> in_i64 i \<Longrightarrow> gate_history (rows @ written [i] b)"
| gh_rotate: "gate_history rows \<Longrightarrow> gv_scan g = Inr rows \<Longrightarrow> rotate g cur kid key reason = Inr (cred, b) \<Longrightarrow>
    token_ok kid \<Longrightarrow> reason_made reason \<Longrightarrow> in_i64 i \<Longrightarrow> in_i64 j \<Longrightarrow> gate_history (rows @ written [i, j] b)"
| gh_revoke: "gate_history rows \<Longrightarrow> gv_scan g = Inr rows \<Longrightarrow> revoke g cur reason = Inr b \<Longrightarrow>
    reason_made reason \<Longrightarrow> in_i64 i \<Longrightarrow> gate_history (rows @ written [i] b)"

text \<open>Every revocation names a key that was issued.\<close>

definition revokes_issued :: "issue_row list \<times> revoke_row list \<times> bootstrap_row list \<Rightarrow> bool" where
  "revokes_issued = (\<lambda>(is, rs, bs). \<forall>r \<in> set rs. \<exists>i \<in> set is. ir_cap i = rr_cap r \<and> ir_key_id i = rr_key_id r)"

definition readable :: "string list list \<Rightarrow> bool" where
  "readable rows \<longleftrightarrow> (\<forall>h. length rows \<le> unat h \<longrightarrow>
     (\<exists>st. read_state h (Inr rows) = Inr st \<and> revokes_issued (core st)))"

lemma read_state_same: "read_state g (Inr rows) = Inr st \<Longrightarrow> read_state h (Inr rows) = Inr s \<Longrightarrow> s = st"
  by (simp add: read_state_def)

lemma readableD:
  "readable rows \<Longrightarrow> length rows \<le> unat h \<Longrightarrow> \<exists>st. read_state h (Inr rows) = Inr st \<and> revokes_issued (core st)"
  by (simp add: readable_def)

lemma readable_append:
  assumes "readable rows" "read_state g (Inr rows) = Inr st"
    and "\<And>s. core s = core st \<Longrightarrow> \<exists>s'. read_rows new s = Inr s' \<and> core s' = c"
    and "revokes_issued (core st) \<Longrightarrow> revokes_issued c"
  shows "readable (rows @ new)"
  unfolding readable_def
proof (intro allI impI)
  fix h :: u32 assume h: "length (rows @ new) \<le> unat h"
  with readableD [OF assms(1), of h] obtain s where s: "read_state h (Inr rows) = Inr s" "revokes_issued (core s)"
    by auto
  from read_state_same [OF assms(2) s(1)] s(2) have "revokes_issued (core st)" by simp
  from assms(4) [OF this] read_state_append [OF assms(2) h assms(3)]
  show "\<exists>st. read_state h (Inr (rows @ new)) = Inr st \<and> revokes_issued (core st)" by auto
qed

lemma read_issue_step:
  "in_i64 i \<Longrightarrow> issue_ok row \<Longrightarrow> \<not> duplicate_issue (as_issues s) row \<Longrightarrow>
   \<exists>s'. read_rows [columns i (op_issue_text, ir_cap row, value_to_json (VText (encode_issue row)))] s = Inr s' \<and>
     core s' = (as_issues s @ [row], as_revokes s, as_bootstraps s)"
  using read_issue_columns [of i row s] by (auto simp: core_def)

lemma issue_cases:
  assumes "issue_with_policy g capability scope ceiling role key_id key administrator reason label policy = Inr (cred, b)"
  obtains st admin bound where "read_state (gv_horizon g) (gv_scan g) = Inr st"
    "credential_ceiling_new scope ceiling = Inr bound" "policy_authorize (ir_policy admin) bound policy = Inr ()"
    "\<not> list_ex (\<lambda>row. ir_cap row = capability) (as_issues st)"
    "access_batch st [(op_issue_text,
         ir_cap (issue_row_of \<lparr>cred_capability = capability, cred_key_id = key_id, cred_key = key\<rparr> scope ceiling role reason label policy),
         encode_issue (issue_row_of \<lparr>cred_capability = capability, cred_key_id = key_id, cred_key = key\<rparr> scope ceiling role reason label policy))]
       (earliest (cp_expires (ir_policy admin)) (cp_expires policy)) = Inr b"
    "checked st (gv_now g) administrator None False = Inr admin"
    "cred = \<lparr>cred_capability = capability, cred_key_id = key_id, cred_key = key\<rparr>"
proof -
  from assms show thesis
    unfolding issue_with_policy_def Let_def
    by (simp split: if_splits) (elim exE conjE, rule that, simp_all)
qed

lemma issue_row_ok:
  assumes "token_ok capability" "trusted_scope_ok scope" "token_ok key_id" "reason_made reason" "reason_made label"
    and "policy_made policy" "credential_ceiling_new scope ceiling = Inr bound" "policy_authorize p bound policy = Inr ()"
  shows "issue_ok (issue_row_of \<lparr>cred_capability = capability, cred_key_id = key_id, cred_key = key\<rparr> scope ceiling role reason label policy)"
proof -
  have b: "ceiling \<le> max_ceiling_level" "ceiling_level bound = ceiling"
    using assms(7) by (auto simp: credential_ceiling_new_def split: if_splits)
  have "policy_ok ceiling policy"
    using assms(6,8) b(2) unfolding policy_authorize_iff by (auto simp: policy_made_def policy_ok_def split: option.splits)
  moreover have "is_ok (role_kind_parse (role_kind_as_str role))" by (cases role) (simp_all add: role_kind_parse_def)
  moreover have "token_ok bootstrap_issuer_text" "token_ok synthetic_user_text"
    by (simp_all add: bootstrap_issuer_text_def synthetic_user_text_def token_ok_def id_char_def
        is_ascii_alphanumeric_def is_ascii_digit_def)
  moreover have "fingerprint_str key \<noteq> []" using fingerprint_shape [of key] by auto
  ultimately show ?thesis
    using assms(1-5) b(1) fingerprint_shape [of key]
    by (simp add: issue_ok_def issue_row_of_def trusted_scope_ok_def reason_made_def)
qed

text \<open>The rows of the bootstrap.\<close>

definition bootstrap_marker :: "string \<Rightarrow> bootstrap_row" where
  "bootstrap_marker reason = \<lparr>br_user = synthetic_user_text, br_issuer = bootstrap_issuer_text, br_reason = reason,
     br_generation = access_schema_generation\<rparr>"

definition bootstrap_policy :: capability_policy where
  "bootstrap_policy = \<lparr>cp_scopes = [\<lparr>scope_text = ''scope-a''\<rparr>, \<lparr>scope_text = ''scope-b''\<rparr>],
     cp_admin_ceiling = Some 2, cp_expires = None\<rparr>"

lemma bootstrap_cases:
  assumes "bootstrap g pid uniq reason = Inr (rc, pc, b)"
  obtains st where "read_state (gv_horizon g) (gv_scan g) = Inr st" "as_count st = 0"
    "cred_capability rc = reviewer_cap_text" "cred_key_id rc = reviewer_key_text"
    "cred_capability pc = publisher_cap_text" "cred_key_id pc = publisher_key_text"
    "access_batch st
      [(op_bootstrap_text, synthetic_user_text, encode_bootstrap (bootstrap_marker reason)),
       (op_issue_text, reviewer_cap_text, encode_issue (issue_row_of rc \<lparr>scope_text = ''scope-a''\<rparr> 1 Reviewer reason
          synthetic_label_text (policy_entry_only None))),
       (op_issue_text, publisher_cap_text, encode_issue (issue_row_of pc \<lparr>scope_text = ''scope-a''\<rparr> 2 Publisher reason
          synthetic_label_text bootstrap_policy))] None = Inr b"
  using assms
  by (auto simp: bootstrap_def bootstrap_credential_def trusted_scope_parse_ok bootstrap_marker_def bootstrap_policy_def
      policy_administrator_def display_label_parse_def issue_row_of_def split: if_splits)

lemma bootstrap_rows_ok:
  assumes "reason_made reason" "cred_capability rc = reviewer_cap_text" "cred_key_id rc = reviewer_key_text"
    "cred_capability pc = publisher_cap_text" "cred_key_id pc = publisher_key_text"
  shows "bootstrap_ok (bootstrap_marker reason) \<and>
    issue_ok (issue_row_of rc \<lparr>scope_text = ''scope-a''\<rparr> 1 Reviewer reason synthetic_label_text (policy_entry_only None)) \<and>
    issue_ok (issue_row_of pc \<lparr>scope_text = ''scope-a''\<rparr> 2 Publisher reason synthetic_label_text bootstrap_policy)"
proof -
  note texts = bootstrap_issuer_text_def synthetic_user_text_def reviewer_cap_text_def reviewer_key_text_def
    publisher_cap_text_def publisher_key_text_def synthetic_label_text_def
  have tok: "token_ok bootstrap_issuer_text" "token_ok synthetic_user_text" "token_ok reviewer_cap_text"
      "token_ok reviewer_key_text" "token_ok publisher_cap_text" "token_ok publisher_key_text"
      "id_ok ''scope-a''" "id_ok ''scope-b''" "synthetic_label_text \<noteq> []" "utf8_valid synthetic_label_text"
    by (simp_all add: texts token_ok_def id_ok_def max_id_len_def id_char_def is_ascii_alphanumeric_def
        is_ascii_digit_def plain_utf8 plain_def verdant_defs)
  moreover have "fingerprint_str s \<noteq> []" for s using fingerprint_shape [of s] by auto
  moreover have "policy_ok 2 bootstrap_policy" "policy_ok 1 (policy_entry_only None)"
    using tok by (simp_all add: policy_ok_def bootstrap_policy_def policy_entry_only_def max_ceiling_level_def trusted_scope_ok_def)
  ultimately show ?thesis
    using assms fingerprint_shape
    by (simp add: bootstrap_ok_def bootstrap_marker_def issue_ok_def issue_row_of_def reason_made_def
        role_kind_parse_def max_ceiling_level_def)
qed

lemma bootstrap_read:
  assumes boot: "bootstrap g pid uniq reason = Inr (rc, pc, b)" and "reason_made reason" and ids: "list_all in_i64 [i, j, k]"
  shows "\<exists>s'. read_rows (written [i, j, k] b) (initial_state 3) = Inr s' \<and> core s' =
    ([issue_row_of rc \<lparr>scope_text = ''scope-a''\<rparr> 1 Reviewer reason synthetic_label_text (policy_entry_only None),
      issue_row_of pc \<lparr>scope_text = ''scope-a''\<rparr> 2 Publisher reason synthetic_label_text bootstrap_policy],
     [], [bootstrap_marker reason])"
proof -
  obtain st where caps: "cred_capability rc = reviewer_cap_text" "cred_key_id rc = reviewer_key_text"
      "cred_capability pc = publisher_cap_text" "cred_key_id pc = publisher_key_text"
    and batch: "access_batch st
      [(op_bootstrap_text, synthetic_user_text, encode_bootstrap (bootstrap_marker reason)),
       (op_issue_text, reviewer_cap_text, encode_issue (issue_row_of rc \<lparr>scope_text = ''scope-a''\<rparr> 1 Reviewer reason
          synthetic_label_text (policy_entry_only None))),
       (op_issue_text, publisher_cap_text, encode_issue (issue_row_of pc \<lparr>scope_text = ''scope-a''\<rparr> 2 Publisher reason
          synthetic_label_text bootstrap_policy))] None = Inr b"
    by (rule bootstrap_cases [OF boot])
  let ?m = "bootstrap_marker reason"
  let ?r = "issue_row_of rc \<lparr>scope_text = ''scope-a''\<rparr> 1 Reviewer reason synthetic_label_text (policy_entry_only None)"
  let ?p = "issue_row_of pc \<lparr>scope_text = ''scope-a''\<rparr> 2 Publisher reason synthetic_label_text bootstrap_policy"
  from bootstrap_rows_ok [OF assms(2) caps] have ok: "bootstrap_ok ?m" "issue_ok ?r" "issue_ok ?p" by blast+
  have w: "written [i, j, k] b =
      [columns i (op_bootstrap_text, br_user ?m, value_to_json (VText (encode_bootstrap ?m))),
       columns j (op_issue_text, ir_cap ?r, value_to_json (VText (encode_issue ?r))),
       columns k (op_issue_text, ir_cap ?p, value_to_json (VText (encode_issue ?p)))]"
    using access_batch_records [OF batch] caps by (simp add: written_def bootstrap_marker_def issue_row_of_def)
  obtain g1 where 1: "read_row (columns i (op_bootstrap_text, br_user ?m, value_to_json (VText (encode_bootstrap ?m)))) (initial_state 3) =
      Inr (initial_state 3\<lparr>as_bootstraps := [?m], as_guard := g1\<rparr>)"
    using read_bootstrap_columns [OF _ ok(1), of i "initial_state 3"] ids by (auto simp: initial_state_def)
  let ?s1 = "initial_state 3\<lparr>as_bootstraps := [?m], as_guard := g1\<rparr>"
  obtain g2 where 2: "read_row (columns j (op_issue_text, ir_cap ?r, value_to_json (VText (encode_issue ?r)))) ?s1 =
      Inr (?s1\<lparr>as_issues := [?r], as_guard := g2\<rparr>)"
    using read_issue_columns [OF _ ok(2), of j ?s1] ids by (auto simp: initial_state_def duplicate_issue_def)
  let ?s2 = "?s1\<lparr>as_issues := [?r], as_guard := g2\<rparr>"
  have "\<not> duplicate_issue (as_issues ?s2) ?p"
    using caps by (simp add: duplicate_issue_def issue_row_of_def reviewer_cap_text_def publisher_cap_text_def)
  from read_issue_columns [OF _ ok(3) this, of k] ids obtain g3 where
    3: "read_row (columns k (op_issue_text, ir_cap ?p, value_to_json (VText (encode_issue ?p)))) ?s2 =
      Inr (?s2\<lparr>as_issues := [?r, ?p], as_guard := g3\<rparr>)" by auto
  show ?thesis unfolding w using 1 2 3 by (simp add: core_def initial_state_def)
qed

lemma bootstrap_readable:
  assumes "bootstrap g pid uniq reason = Inr (rc, pc, b)" "reason_made reason" "list_all in_i64 [i, j, k]"
  shows "readable (written [i, j, k] b)"
proof -
  obtain st where "ab_records b \<noteq> [] \<and> length (ab_records b) = 3"
    by (rule bootstrap_cases [OF assms(1)]) (auto dest!: access_batch_records)
  then have "length (written [i, j, k] b) = 3" by (simp add: written_def)
  with bootstrap_read [OF assms] show ?thesis
    by (auto simp: readable_def read_state_def revokes_issued_def)
qed

lemma gate_history_readable: "gate_history rows \<Longrightarrow> readable rows"
proof (induction rule: gate_history.induct)
  case gh_empty
  then show ?case by (auto simp: readable_def read_state_def initial_state_def core_def revokes_issued_def)
next
  case (gh_revoke rows g cur reason b i)
  then obtain st row where st: "read_state (gv_horizon g) (Inr rows) = Inr st"
    "checked st (gv_now g) cur None False = Inr row"
    "access_batch st [(op_revoke_text, ir_cap row, encode_revoke (revoke_row_of row reason))] (cp_expires (ir_policy row)) = Inr b"
    by (auto simp: revoke_def)
  let ?rev = "revoke_row_of row reason"
  have adm: "row \<in> set (as_issues st)" using checked_sound [OF st(2)] by (auto simp: admitted_row_def)
  then have "issue_ok row" using read_state_issues_ok [OF st(1)] by (auto simp: issues_ok_def)
  then have rok: "revoke_ok ?rev" using gh_revoke.hyps(4) by (simp add: issue_ok_def revoke_ok_def revoke_row_of_def reason_made_def
      bootstrap_issuer_text_def token_ok_def id_char_def is_ascii_alphanumeric_def is_ascii_digit_def)
  have recs: "written [i] b = [columns i (op_revoke_text, rr_cap ?rev, value_to_json (VText (encode_revoke ?rev)))]"
    using access_batch_records [OF st(3)] by (simp add: written_def revoke_row_of_def)
  show ?case
  proof (rule readable_append [OF gh_revoke.IH st(1)])
    fix s assume "core s = core st"
    then show "\<exists>s'. read_rows (written [i] b) s = Inr s' \<and>
        core s' = (as_issues st, as_revokes st @ [?rev], as_bootstraps st)"
      using read_revoke_columns [OF gh_revoke.hyps(5) rok, of s] by (auto simp: recs core_def)
  qed (use adm in \<open>auto simp: revokes_issued_def core_def revoke_row_of_def\<close>)
next
  case (gh_rotate rows g cur kid key reason cred b i j)
  note reason = gh_rotate.hyps(5) [unfolded reason_made_def]
  show ?case unfolding readable_def
  proof (intro allI impI)
    fix h :: u32 assume h: "length (rows @ written [i, j] b) \<le> unat h"
    have len: "length (written [i, j] b) = 2"
      by (rule rotate_cases [OF gh_rotate.hyps(3)]) (auto simp: written_def dest!: access_batch_records)
    have room: "length rows + 2 \<le> unat h" using h len by simp
    obtain st row row' st' where *: "read_state (gv_horizon g) (Inr rows) = Inr st"
      "checked st (gv_now g) cur None True = Inr row"
      "read_state h (Inr (rows @ written [i, j] b)) = Inr st'"
      "as_issues st' = as_issues st @ [row']" "as_revokes st' = as_revokes st @ [revoke_row_of row reason]"
      by (rule rotate_effect [OF gh_rotate.hyps(3,2,4) conjunct1 [OF reason] conjunct2 [OF reason] gh_rotate.hyps(6,7) room])
    from readableD [OF gh_rotate.IH, of h] room
    obtain s where s: "read_state h (Inr rows) = Inr s" "revokes_issued (core s)" by auto
    from read_state_same [OF *(1) s(1)] s(2) * checked_sound [OF *(2)] show "\<exists>st. read_state h (Inr (rows @ written [i, j] b)) = Inr st \<and> revokes_issued (core st)"
      by (auto simp: revokes_issued_def core_def revoke_row_of_def admitted_row_def)
  qed
next
  case (gh_issue rows g capability scope ceiling role key_id key administrator reason label policy cred b i)
  let ?cred = "\<lparr>cred_capability = capability, cred_key_id = key_id, cred_key = key\<rparr>"
  let ?row = "issue_row_of ?cred scope ceiling role reason label policy"
  obtain st bound and admin :: issue_row where st: "read_state (gv_horizon g) (Inr rows) = Inr st"
    "credential_ceiling_new scope ceiling = Inr bound" "policy_authorize (ir_policy admin) bound policy = Inr ()"
    "\<not> list_ex (\<lambda>row. ir_cap row = capability) (as_issues st)"
    "access_batch st [(op_issue_text, ir_cap ?row, encode_issue ?row)]
       (earliest (cp_expires (ir_policy admin)) (cp_expires policy)) = Inr b"
    by (rule issue_cases [OF gh_issue.hyps(3), unfolded gh_issue.hyps(2)])
  have ok: "issue_ok ?row"
    by (rule issue_row_ok [OF gh_issue.hyps(4,5,6,7,8,9) st(2,3)])
  have dup: "\<not> duplicate_issue (as_issues st) ?row"
    using st(4) by (auto simp: duplicate_issue_def list_ex_iff issue_row_of_def)
  have recs: "written [i] b = [columns i (op_issue_text, ir_cap ?row, value_to_json (VText (encode_issue ?row)))]"
    using access_batch_records [OF st(5)] by (simp add: written_def)
  show ?case
  proof (rule readable_append [OF gh_issue.IH st(1)])
    fix s assume s: "core s = core st"
    then have "\<not> duplicate_issue (as_issues s) ?row" using dup by (simp add: core_def)
    from read_issue_step [OF gh_issue.hyps(10) ok this] s
    show "\<exists>s'. read_rows (written [i] b) s = Inr s' \<and> core s' = (as_issues st @ [?row], as_revokes st, as_bootstraps st)"
      by (simp only: recs) (simp add: core_def)
  qed (auto simp: revokes_issued_def core_def)
next
  case (gh_bootstrap rows g pid uniq reason rc pc b i j k)
  from gh_bootstrap.hyps(2,3) obtain st where st: "read_state (gv_horizon g) (Inr rows) = Inr st" "as_count st = 0"
    by (auto simp: bootstrap_def split: if_splits)
  then have rows: "rows = []" using read_state_count by auto
  show ?case
    using bootstrap_readable [OF gh_bootstrap.hyps(3)] gh_bootstrap.hyps(4,5) by (simp add: rows)
qed

text \<open>In a history the gate wrote, a fresh key identity was never revoked.\<close>

lemma gate_history_fresh:
  assumes "gate_history rows" "gv_scan g = Inr rows" "rotate g cur kid key reason = Inr (cred, b)"
    and "length rows \<le> unat (gv_horizon g)" "read_state (gv_horizon g) (Inr rows) = Inr st"
  shows "\<not> revoked st (cred_capability cur) kid"
proof
  assume "revoked st (cred_capability cur) kid"
  moreover have "revokes_issued (core st)"
    using readableD [OF gate_history_readable [OF assms(1)] assms(4)] assms(5) by auto
  ultimately have "\<exists>i \<in> set (as_issues st). ir_cap i = cred_capability cur \<and> ir_key_id i = kid"
    by (fastforce simp: revoked_def revokes_issued_def core_def list_ex_iff)
  moreover obtain st' row where "read_state (gv_horizon g) (gv_scan g) = Inr st'"
    "checked st' (gv_now g) cur None True = Inr row"
    "\<not> list_ex (\<lambda>r. ir_cap r = ir_cap row \<and> ir_key_id r = kid) (as_issues st')"
    by (rule rotate_cases [OF assms(3)])
  ultimately show False
    using assms(2,5) checked_sound [of st' "gv_now g" cur None True row] by (auto simp: list_ex_iff admitted_row_def)
qed

section \<open>A bootstrapped store\<close>

lemma written_bootstrap_length:
  "bootstrap g pid uniq reason = Inr (rc, pc, b) \<Longrightarrow> length (written [i, j, k] b) = 3"
  by (erule bootstrap_cases) (auto simp: written_def dest!: access_batch_records)

lemma bootstrap_key: "bootstrap_credential pid uniq cap key_id = Inr c \<Longrightarrow> cred_capability c = cap \<and> cred_key_id c = key_id"
  by (auto simp: bootstrap_credential_def)

definition required_level :: "role_kind \<Rightarrow> u8" where
  "required_level required =
     (case required of Reviewer \<Rightarrow> required_review_ceiling | Publisher \<Rightarrow> required_publish_ceiling)"

lemma enter_issued:
  assumes "read_state (gv_horizon g) (gv_scan g) = Inr st"
    and "checked st (gv_now g) cred (Some scope) False = Inr row" "issue_ok row" "role_kind_parse (ir_role row) = Inr role"
  shows "enter g (Some cred) scope required =
    (if ir_ceiling row < required_level required then Inl (CeilingExceeded (ir_ceiling row) (required_level required))
     else if role = Reviewer \<and> required = Publisher then Inl (RoleDenied ''reviewer'' ''publisher'')
     else Inr (actor_report \<lparr>actor_row = row,
       actor_bound = \<lparr>ceiling_scope = \<lparr>scope_text = ir_scope row\<rparr>, ceiling_level = ir_ceiling row\<rparr>, actor_role = role\<rparr>))"
proof -
  have "trusted_scope_parse (ir_scope row) = Inr \<lparr>scope_text = ir_scope row\<rparr>"
    "credential_ceiling_new \<lparr>scope_text = ir_scope row\<rparr> (ir_ceiling row) =
      Inr \<lparr>ceiling_scope = \<lparr>scope_text = ir_scope row\<rparr>, ceiling_level = ir_ceiling row\<rparr>"
    using assms(3) by (auto simp: issue_ok_def trusted_scope_parse_ok credential_ceiling_new_def leD)
  then have "actor_from_checked row = Inr \<lparr>actor_row = row,
      actor_bound = \<lparr>ceiling_scope = \<lparr>scope_text = ir_scope row\<rparr>, ceiling_level = ir_ceiling row\<rparr>, actor_role = role\<rparr>"
    using assms(4) by (simp add: actor_from_checked_def)
  with assms(1,2) show ?thesis
    by (simp add: enter_def authenticate_def required_level_def Let_def split: role_kind.splits)
qed

lemma bootstrap_effect_gen:
  assumes boot: "bootstrap g pid uniq reason = Inr (rc, pc, b)" and reason: "reason_made reason"
    and ids: "list_all in_i64 [i, j, k]" and h: "3 \<le> unat h"
    and view: "view = \<lparr>gv_horizon = h, gv_scan = Inr (written [i, j, k] b), gv_now = Inr t\<rparr>"
  shows "is_ok (enter_review view (Some rc) \<lparr>scope_text = ''scope-a''\<rparr>) \<and>
    enter_publish view (Some rc) \<lparr>scope_text = ''scope-a''\<rparr> = Inl (CeilingExceeded 1 2) \<and>
    is_ok (enter_review view (Some pc) \<lparr>scope_text = ''scope-a''\<rparr>) \<and>
    is_ok (enter_publish view (Some pc) \<lparr>scope_text = ''scope-a''\<rparr>) \<and>
    bootstrap view pid' uniq' reason' = Inl already_bootstrapped"
proof -
  let ?r = "issue_row_of rc \<lparr>scope_text = ''scope-a''\<rparr> 1 Reviewer reason synthetic_label_text (policy_entry_only None)"
  let ?p = "issue_row_of pc \<lparr>scope_text = ''scope-a''\<rparr> 2 Publisher reason synthetic_label_text bootstrap_policy"
  obtain st0 where caps: "cred_capability rc = reviewer_cap_text" "cred_key_id rc = reviewer_key_text"
      "cred_capability pc = publisher_cap_text" "cred_key_id pc = publisher_key_text"
    by (rule bootstrap_cases [OF boot])
  note len = written_bootstrap_length [OF boot, of i j k]
  obtain st where rows: "read_rows (written [i, j, k] b) (initial_state 3) = Inr st"
      and core: "core st = ([?r, ?p], [], [bootstrap_marker reason])"
    using bootstrap_read [OF boot reason ids] by blast
  then have st: "read_state h (Inr (written [i, j, k] b)) = Inr st" using h len by (simp add: read_state_def)
  have count: "as_count st = 3" using read_state_count [OF st] len by simp
  have caps_ne: "reviewer_cap_text \<noteq> publisher_cap_text" by (simp add: reviewer_cap_text_def publisher_cap_text_def)
  have bs: "require_bootstrapped st = Inr ()"
    using core count caps by (auto simp: require_bootstrapped_iff core_def bootstrap_marker_def issue_row_of_def)
  have uniq: "issues_unique (as_issues st)" and ok: "issue_ok ?r" "issue_ok ?p"
    using read_state_issues_ok [OF st] core by (auto simp: issues_ok_def core_def)
  have adm: "admitted_row st rc ?r" "admitted_row st pc ?p"
    using core caps caps_ne by (auto simp: admitted_row_def core_def issue_row_of_def revoked_def)
  have chk: "checked st (Inr t) rc (Some \<lparr>scope_text = ''scope-a''\<rparr>) False = Inr ?r"
    "checked st (Inr t) pc (Some \<lparr>scope_text = ''scope-a''\<rparr>) False = Inr ?p"
    by (rule checked_complete [OF bs uniq adm(1)] checked_complete [OF bs uniq adm(2)];
        simp add: issue_row_of_def policy_entry_only_def bootstrap_policy_def)+
  have roles: "role_kind_parse (ir_role ?r) = Inr Reviewer" "role_kind_parse (ir_role ?p) = Inr Publisher"
    by (simp_all add: issue_row_of_def role_kind_parse_def)
  have v: "read_state (gv_horizon view) (gv_scan view) = Inr st" "gv_now view = Inr t" using st by (simp_all add: view)
  note enters = enter_issued [OF v(1), unfolded v(2), OF chk(1) ok(1) roles(1)]
    enter_issued [OF v(1), unfolded v(2), OF chk(2) ok(2) roles(2)]
  have "bootstrap view pid' uniq' reason' = Inl already_bootstrapped"
    using st count by (simp add: bootstrap_def view)
  moreover have "ir_ceiling ?r = 1" "ir_ceiling ?p = 2" by (simp_all add: issue_row_of_def)
  ultimately show ?thesis
    by (simp add: enter_review_def enter_publish_def enters required_level_def required_review_ceiling_def
        required_publish_ceiling_def)
qed

text \<open>A concrete history, for evaluation: an empty store is bootstrapped at time 5.\<close>

definition example_empty :: gate_view where
  "example_empty = \<lparr>gv_horizon = 64, gv_scan = Inr [], gv_now = Inr 5\<rparr>"

lemma bootstrap_succeeds:
  assumes "gv_scan g = Inr []" "length (show_nat pid) + length (show_nat uniq) \<le> 200"
  shows "\<exists>rc pc b. bootstrap g pid uniq reason = Inr (rc, pc, b)"
proof -
  have cred: "\<exists>c. bootstrap_credential pid uniq cap key_id = Inr c"
    if "token_ok cap" "token_ok key_id" "length cap \<le> 20" for cap key_id
    using that assms(2) by (simp add: bootstrap_credential_def synthetic_key_parse_def max_key_len_def)
  have "token_ok reviewer_cap_text" "token_ok reviewer_key_text" "token_ok publisher_cap_text" "token_ok publisher_key_text"
      "length reviewer_cap_text \<le> 20" "length publisher_cap_text \<le> 20"
    by (simp_all add: reviewer_cap_text_def reviewer_key_text_def publisher_cap_text_def publisher_key_text_def
        token_ok_def id_char_def is_ascii_alphanumeric_def is_ascii_digit_def)
  then obtain rc pc where c: "bootstrap_credential pid uniq reviewer_cap_text reviewer_key_text = Inr rc"
      "bootstrap_credential pid uniq publisher_cap_text publisher_key_text = Inr pc" using cred by metis
  have ids: "id_ok ''scope-a''" "id_ok ''scope-b''" "id_ok synthetic_user_text" "id_ok reviewer_cap_text" "id_ok publisher_cap_text"
      "id_ok op_bootstrap_text" "id_ok op_issue_text"
    by (simp_all add: synthetic_user_text_def reviewer_cap_text_def publisher_cap_text_def op_bootstrap_text_def op_issue_text_def
        id_ok_def max_id_len_def id_char_def is_ascii_alphanumeric_def is_ascii_digit_def)
  have "read_state (gv_horizon g) (gv_scan g) = Inr (initial_state 0)" using assms(1) by (simp add: read_state_def)
  moreover have "as_count (initial_state 0) = 0" by (simp add: initial_state_def)
  moreover have "display_label_parse synthetic_label_text = Inr synthetic_label_text"
    by (simp add: display_label_parse_def synthetic_label_text_def max_label_len_def)
  moreover have "policy_administrator [\<lparr>scope_text = ''scope-a''\<rparr>, \<lparr>scope_text = ''scope-b''\<rparr>] 2 None = Inr bootstrap_policy"
    by (simp add: policy_administrator_def bootstrap_policy_def max_ceiling_level_def)
  moreover have "cred_capability rc = reviewer_cap_text" "cred_capability pc = publisher_cap_text"
    using c [THEN bootstrap_key] by simp_all
  moreover have "trusted_scope_parse ''scope-a'' = Inr \<lparr>scope_text = ''scope-a''\<rparr>"
      "trusted_scope_parse ''scope-b'' = Inr \<lparr>scope_text = ''scope-b''\<rparr>" using ids by (simp_all add: trusted_scope_parse_ok)
  ultimately show ?thesis
    using c ids by (simp add: bootstrap_def access_batch_def issue_row_of_def Let_def)
qed

lemma example_bootstrap: "\<exists>rc pc b. bootstrap example_empty 1 0 ''install'' = Inr (rc, pc, b)"
  by (rule bootstrap_succeeds) (simp_all add: example_empty_def show_nat.simps)

section \<open>Entry\<close>

lemma enter_sound:
  assumes "enter g c scope required = Inr rep"
  shows "\<exists>cred st row role t. c = Some cred \<and> read_state (gv_horizon g) (gv_scan g) = Inr st \<and>
    require_bootstrapped st = Inr () \<and> admitted_row st cred row \<and> ir_scope row = scope_text scope \<and>
    gv_now g = Inr t \<and> (case cp_expires (ir_policy row) of None \<Rightarrow> True | Some e \<Rightarrow> t < e) \<and>
    role_kind_parse (ir_role row) = Inr role \<and> \<not> (role = Reviewer \<and> required = Publisher) \<and>
    required_level required \<le> ir_ceiling row \<and> er_capability rep = ir_cap row"
proof -
  from assms obtain cred where c: "c = Some cred" by (cases c) (auto simp: enter_def authenticate_def)
  with assms obtain st row where st: "read_state (gv_horizon g) (gv_scan g) = Inr st"
    "checked st (gv_now g) cred (Some scope) False = Inr row"
    by (auto simp: enter_def authenticate_def)
  note chk = checked_sound [OF st(2)]
  then have "issue_ok row" using read_state_issues_ok [OF st(1)] by (auto simp: issues_ok_def admitted_row_def)
  moreover from this obtain role where role: "role_kind_parse (ir_role row) = Inr role"
    by (auto simp: issue_ok_def is_ok_iff)
  ultimately have "(if ir_ceiling row < required_level required then Inl (CeilingExceeded (ir_ceiling row) (required_level required))
     else if role = Reviewer \<and> required = Publisher then Inl (RoleDenied ''reviewer'' ''publisher'')
     else Inr (actor_report \<lparr>actor_row = row,
       actor_bound = \<lparr>ceiling_scope = \<lparr>scope_text = ir_scope row\<rparr>, ceiling_level = ir_ceiling row\<rparr>, actor_role = role\<rparr>)) = Inr rep"
    using enter_issued [OF st] assms c by simp
  then have "required_level required \<le> ir_ceiling row" "\<not> (role = Reviewer \<and> required = Publisher)"
      "er_capability rep = ir_cap row"
    by (auto simp: actor_report_def split: if_splits)
  with c st role chk show ?thesis by (auto split: option.splits)
qed

section \<open>The example as a history\<close>

lemma example_gate_history:
  assumes "bootstrap example_empty 1 0 ''install'' = Inr (rc, pc, b)"
  shows "gate_history (written [1, 2, 3] b)"
  using gh_bootstrap [OF gh_empty _ assms, of 1 2 3]
  by (simp add: example_empty_def reason_made_def in_i64_def plain_utf8 plain_def verdant_defs)

lemma bootstrap_core:
  assumes "bootstrap g pid uniq reason = Inr (rc, pc, b)" "reason_made reason" "list_all in_i64 [i, j, k]" "3 \<le> unat h"
  obtains st where "read_state h (Inr (written [i, j, k] b)) = Inr st" "as_count st = 3"
    "core st = ([issue_row_of rc \<lparr>scope_text = ''scope-a''\<rparr> 1 Reviewer reason synthetic_label_text (policy_entry_only None),
      issue_row_of pc \<lparr>scope_text = ''scope-a''\<rparr> 2 Publisher reason synthetic_label_text bootstrap_policy],
     [], [bootstrap_marker reason])"
    "cred_capability rc = reviewer_cap_text" "cred_key_id rc = reviewer_key_text"
    "cred_capability pc = publisher_cap_text" "cred_key_id pc = publisher_key_text"
proof -
  obtain st0 where caps: "cred_capability rc = reviewer_cap_text" "cred_key_id rc = reviewer_key_text"
      "cred_capability pc = publisher_cap_text" "cred_key_id pc = publisher_key_text"
    by (rule bootstrap_cases [OF assms(1)])
  note len = written_bootstrap_length [OF assms(1), of i j k]
  from bootstrap_read [OF assms(1,2,3)] obtain st where "read_rows (written [i, j, k] b) (initial_state 3) = Inr st"
    "core st = ([issue_row_of rc \<lparr>scope_text = ''scope-a''\<rparr> 1 Reviewer reason synthetic_label_text (policy_entry_only None),
      issue_row_of pc \<lparr>scope_text = ''scope-a''\<rparr> 2 Publisher reason synthetic_label_text bootstrap_policy],
     [], [bootstrap_marker reason])" by blast
  moreover from this have "read_state h (Inr (written [i, j, k] b)) = Inr st" using assms(4) len by (simp add: read_state_def)
  moreover from read_state_count [OF this] len have "as_count st = 3" by simp
  ultimately show thesis using that caps by blast
qed

lemma example_rotate:
  assumes "bootstrap example_empty 1 0 ''install'' = Inr (rc, pc, b)"
    and "view = example_empty\<lparr>gv_scan := Inr (written [1, 2, 3] b)\<rparr>"
  shows "\<exists>c b'. rotate view pc ''key-2'' ''synthetic-2'' ''renewal'' = Inr (c, b')"
proof -
  have made: "reason_made ''install''" by (simp add: reason_made_def plain_utf8 plain_def verdant_defs)
  let ?p = "issue_row_of pc \<lparr>scope_text = ''scope-a''\<rparr> 2 Publisher ''install'' synthetic_label_text bootstrap_policy"
  obtain st where st: "read_state 64 (Inr (written [1, 2, 3] b)) = Inr st" "as_count st = 3"
      and core: "core st = ([issue_row_of rc \<lparr>scope_text = ''scope-a''\<rparr> 1 Reviewer ''install'' synthetic_label_text (policy_entry_only None),
        ?p], [], [bootstrap_marker ''install''])"
      and caps: "cred_capability rc = reviewer_cap_text" "cred_key_id rc = reviewer_key_text"
        "cred_capability pc = publisher_cap_text" "cred_key_id pc = publisher_key_text"
    by (rule bootstrap_core [OF assms(1) made, of 1 2 3 64]) (simp_all add: in_i64_def)
  have ne: "reviewer_cap_text \<noteq> publisher_cap_text" by (simp add: reviewer_cap_text_def publisher_cap_text_def)
  have "checked st (Inr 5) pc None True = Inr ?p"
  proof (rule checked_complete)
    show "require_bootstrapped st = Inr ()"
      using core st(2) caps by (auto simp: require_bootstrapped_iff core_def bootstrap_marker_def issue_row_of_def)
    show "issues_unique (as_issues st)" using read_state_issues_ok [OF st(1)] by (simp add: issues_ok_def)
    show "admitted_row st pc ?p"
      using core caps ne by (auto simp: admitted_row_def core_def issue_row_of_def revoked_def)
  qed (simp_all add: issue_row_of_def bootstrap_policy_def)
  moreover have "ir_cap ?p = publisher_cap_text" "ir_capgen ?p = 1" using caps by (simp_all add: issue_row_of_def)
  moreover have "\<not> list_ex (\<lambda>r. ir_cap r = publisher_cap_text \<and> ir_key_id r = ''key-2'') (as_issues st)"
    using core caps by (auto simp: core_def issue_row_of_def reviewer_key_text_def publisher_key_text_def)
  moreover have "checked_add (1 :: u32) 1 = Some 2" by (simp add: checked_add_def)
  moreover have "id_ok publisher_cap_text" "id_ok op_revoke_text" "id_ok op_issue_text"
    by (simp_all add: publisher_cap_text_def op_revoke_text_def op_issue_text_def id_ok_def max_id_len_def id_char_def
        is_ascii_alphanumeric_def is_ascii_digit_def)
  ultimately show ?thesis
    using st(1) by (simp add: rotate_def assms(2) example_empty_def access_batch_def Let_def)
qed

lemma example_made: "reason_made ''install''" "list_all in_i64 [1, 2, 3]"
  by (simp_all add: reason_made_def in_i64_def plain_utf8 plain_def verdant_defs)

lemma example_revoked:
  obtains rows st where "length rows = 1" "read_state 64 (Inr rows) = Inr st" "revoked st ''cap'' ''key''"
proof -
  let ?r = "\<lparr>rr_cap = ''cap'', rr_key_id = ''key'', rr_capgen = 1, rr_issuer = ''issuer'', rr_reason = ''lost''\<rparr>"
  have "revoke_ok ?r"
    by (simp add: revoke_ok_def token_ok_def id_char_def is_ascii_alphanumeric_def is_ascii_digit_def plain_utf8 plain_def verdant_defs)
  from read_revoke_columns [OF _ this, of 1 "initial_state 1"] obtain g where
    g: "read_row (columns 1 (op_revoke_text, rr_cap ?r, value_to_json (VText (encode_revoke ?r)))) (initial_state 1) =
      Inr (initial_state 1\<lparr>as_revokes := [?r], as_guard := g\<rparr>)"
    by (auto simp: in_i64_def initial_state_def)
  let ?rows = "[columns 1 (op_revoke_text, rr_cap ?r, value_to_json (VText (encode_revoke ?r)))]"
  have "read_state 64 (Inr ?rows) = Inr (initial_state 1\<lparr>as_revokes := [?r], as_guard := g\<rparr>)"
    using g by (simp add: read_state_def)
  then show thesis by (rule that [rotated]) (simp_all add: revoked_def)
qed

lemma rotate_written: "rotate g cur kid key reason = Inr (c, b) \<Longrightarrow> length (written [i, j] b) = 2"
  by (erule rotate_cases) (auto simp: written_def dest!: access_batch_records)

definition example_reviewer :: credential where
  "example_reviewer = \<lparr>cred_capability = ''reviewer-1'', cred_key_id = ''key-reviewer-1'', cred_key = ''synthetic-r''\<rparr>"

definition example_publisher :: credential where
  "example_publisher = \<lparr>cred_capability = ''publisher-1'', cred_key_id = ''key-publisher-1'', cred_key = ''synthetic-p''\<rparr>"

end
