(* ===== verification/Registry_Facts.thy ===== *)
theory Registry_Facts
  imports Registry_Writer Access_Facts
begin

text \<open>
  Facts of the binding registry. A replay is a fold of the rows over the part of the registry that
  is not the guard or the counter (\<open>history_apply\<close>), so that appending a row is one more step. From this:
  what an operation writes replays to what it leaves in memory, retirement is permanent, and a
  stored proposal reads back unless its mode breaks the descriptor.
\<close>

section \<open>Replay as a fold\<close>

definition reg_core :: "registry \<Rightarrow> registry" where
  "reg_core r = r\<lparr>rg_guard := [], rg_sequence := 0\<rparr>"

lemma reg_core_simps [simp]:
  "rg_revision (reg_core r) = rg_revision r" "rg_equipment (reg_core r) = rg_equipment r"
  "rg_spaces (reg_core r) = rg_spaces r" "rg_sources (reg_core r) = rg_sources r"
  "rg_points (reg_core r) = rg_points r" "rg_bindings (reg_core r) = rg_bindings r"
  "rg_findings (reg_core r) = rg_findings r" "rg_retired (reg_core r) = rg_retired r"
  "rg_retired_addrs (reg_core r) = rg_retired_addrs r" "rg_reassessment (reg_core r) = rg_reassessment r"
  "reg_core (reg_core r) = reg_core r" "reg_core (r\<lparr>rg_guard := g\<rparr>) = reg_core r"
  "reg_core (r\<lparr>rg_sequence := s\<rparr>) = reg_core r" "reg_core (cleared_registry n) = reg_core (cleared_registry m)"
  by (simp_all add: reg_core_def cleared_registry_def)

fun history_apply :: "history_row list \<Rightarrow> registry \<Rightarrow> binding_error + registry" where
  "history_apply [] r = Inr r"
| "history_apply (row # rows) r = and_then (apply_row row r) (\<lambda>r'. history_apply rows (reg_core r'))"

fun sequenced :: "u64 \<Rightarrow> history_row list \<Rightarrow> bool" where
  "sequenced c [] = True"
| "sequenced c (row # rows) \<longleftrightarrow> hr_sequence row = c + 1 \<and> sequenced (c + 1) rows"

lemma sequenced_append: "sequenced c (xs @ ys) \<longleftrightarrow> sequenced c xs \<and> sequenced (c + of_nat (length xs)) ys"
  by (induction xs arbitrary: c) (auto simp: algebra_simps)

lemma history_apply_append:
  "history_apply (xs @ ys) (reg_core r) = and_then (history_apply xs (reg_core r)) (\<lambda>r'. history_apply ys (reg_core r'))"
proof (induction xs arbitrary: r)
  case (Cons x xs)
  then show ?case by (cases "apply_row x (reg_core r)") simp_all
qed simp

text \<open>The seven kinds neither read nor write the guard and the counter.\<close>

lemma bump_core: "reg_core (bump_revision r) = bump_revision (reg_core r)"
  by (simp add: bump_revision_def reg_core_def)

lemmas replay_kind_defs = replay_equipment_def replay_space_def replay_source_def replay_point_def replay_propose_def
  replay_retire_def replay_finding_def

lemma map_ok_and_then: "map_ok f (and_then r k) = and_then r (\<lambda>x. map_ok f (k x))"
  by (cases r) simp_all

lemma map_ok_if: "map_ok f (if b then x else y) = (if b then map_ok f x else map_ok f y)"
  by simp

lemma replay_kind_core:
  "map_ok reg_core (replay_equipment m (reg_core r)) = map_ok reg_core (replay_equipment m r)"
  "map_ok reg_core (replay_space m (reg_core r)) = map_ok reg_core (replay_space m r)"
  "map_ok reg_core (replay_source m (reg_core r)) = map_ok reg_core (replay_source m r)"
  "map_ok reg_core (replay_point m (reg_core r)) = map_ok reg_core (replay_point m r)"
  "map_ok reg_core (replay_propose m (reg_core r)) = map_ok reg_core (replay_propose m r)"
  "map_ok reg_core (replay_retire m (reg_core r)) = map_ok reg_core (replay_retire m r)"
  "map_ok reg_core (replay_finding m (reg_core r)) = map_ok reg_core (replay_finding m r)"
  unfolding replay_kind_defs by (simp_all add: map_ok_and_then map_ok_if bump_revision_def reg_core_def cong: if_cong)

lemma apply_row_core: "map_ok reg_core (apply_row row (reg_core r)) = map_ok reg_core (apply_row row r)"
  by (simp only: apply_row_def apply_kind_def map_ok_and_then map_ok_if replay_kind_core reg_core_simps map_ok_simps)

lemma apply_row_core_Inr:
  "apply_row row r = Inr r' \<Longrightarrow> \<exists>q. apply_row row (reg_core r) = Inr q \<and> reg_core q = reg_core r'"
  "apply_row row (reg_core r) = Inr q \<Longrightarrow> \<exists>r'. apply_row row r = Inr r' \<and> reg_core q = reg_core r'"
  using apply_row_core [of row r] by (metis map_ok_eq_Inr)+

lemma replay_rows_sound:
  "replay_rows c rows r = (r', Inr ()) \<Longrightarrow>
     history_apply rows (reg_core r) = Inr (reg_core r') \<and> sequenced c rows \<and> rg_sequence r' = c + of_nat (length rows)"
proof (induction c rows r rule: replay_rows.induct)
  case (2 c row rows r)
  let ?r1 = "r\<lparr>rg_guard := rg_guard r @ row_guard row\<rparr>"
  from "2.prems" have s: "hr_sequence row = c + 1" by (auto split: if_splits)
  with "2.prems" obtain r2 where r2: "apply_row row ?r1 = Inr r2" "replay_rows (c + 1) rows r2 = (r', Inr ())"
    by (auto simp: Let_def split: sum.splits)
  with "2.IH" [of ?r1 r2] s have "history_apply rows (reg_core r2) = Inr (reg_core r')" "sequenced (c + 1) rows"
      "rg_sequence r' = c + 1 + of_nat (length rows)" by auto
  moreover obtain q where "apply_row row (reg_core r) = Inr q" "reg_core q = reg_core r2"
    using apply_row_core_Inr(1) [OF r2(1)] by auto
  ultimately show ?case using s by (simp add: algebra_simps)
qed auto

lemma replay_rows_complete:
  "history_apply rows (reg_core r) = Inr q \<Longrightarrow> sequenced c rows \<Longrightarrow>
     \<exists>r'. replay_rows c rows r = (r', Inr ()) \<and> reg_core r' = reg_core q \<and> rg_sequence r' = c + of_nat (length rows)"
proof (induction c rows r rule: replay_rows.induct)
  case (2 c row rows r)
  let ?r1 = "r\<lparr>rg_guard := rg_guard r @ row_guard row\<rparr>"
  from "2.prems" obtain p where p: "apply_row row (reg_core r) = Inr p" "history_apply rows (reg_core p) = Inr q"
    by auto
  then obtain r2 where r2: "apply_row row ?r1 = Inr r2" "reg_core r2 = reg_core p"
    using apply_row_core_Inr(2) [of row ?r1 p] by auto
  with "2.IH" [of ?r1 r2] "2.prems" p obtain r' where
    "replay_rows (c + 1) rows r2 = (r', Inr ())" "reg_core r' = reg_core q" "rg_sequence r' = c + 1 + of_nat (length rows)"
    by auto
  with r2 "2.prems" show ?case by (simp add: algebra_simps)
qed auto

text \<open>A replay in one statement, and the replay of a history with one more row.\<close>

definition replays :: "history_row list \<Rightarrow> registry \<Rightarrow> bool" where
  "replays rows r \<longleftrightarrow> history_apply rows (reg_core (cleared_registry 0)) = Inr (reg_core r) \<and> sequenced 0 rows \<and>
     rg_sequence r = of_nat (length rows)"

lemma reg_core_idem_eq: "reg_core q = q \<Longrightarrow> reg_core q = reg_core r \<Longrightarrow> q = reg_core r"
  by simp

lemma history_apply_is_core: "history_apply rows (reg_core r) = Inr q \<Longrightarrow> reg_core q = q"
proof (induction rows arbitrary: r)
  case (Cons row rows)
  then obtain p where "apply_row row (reg_core r) = Inr p" "history_apply rows (reg_core p) = Inr q" by auto
  with Cons.IH show ?case by blast
qed auto

lemma replay_sound:
  assumes "replay scan r0 = (r, Inr ())"
  obtains rows where "read_descriptors scan = Inr rows" "replays rows r"
proof -
  from assms obtain rows where rows: "read_descriptors scan = Inr rows"
      "replay_rows 0 rows (cleared_registry (length rows)) = (r, Inr ())"
    by (auto simp: replay_def split: sum.splits)
  with replay_rows_sound [OF rows(2)] that show ?thesis
    unfolding replays_def by (metis add_0 reg_core_simps(14))
qed

lemma replay_complete:
  assumes "read_descriptors scan = Inr rows" "replays rows r"
  obtains r' where "replay scan r0 = (r', Inr ())" "reg_core r' = reg_core r" "rg_sequence r' = rg_sequence r"
proof -
  have "history_apply rows (reg_core (cleared_registry (length rows))) = Inr (reg_core r)"
    using assms(2) unfolding replays_def by (metis reg_core_simps(14))
  with replay_rows_complete [OF this, of 0] assms that show ?thesis
    by (auto simp: replay_def replays_def)
qed

lemma replays_snoc:
  assumes "replays rows r" "hr_sequence row = rg_sequence r + 1" "apply_row row r = Inr q"
  shows "replays (rows @ [row]) (q\<lparr>rg_sequence := rg_sequence r + 1\<rparr>)"
proof -
  obtain p where "apply_row row (reg_core r) = Inr p" "reg_core p = reg_core q"
    using apply_row_core_Inr(1) [OF assms(3)] by auto
  with assms show ?thesis by (simp add: replays_def history_apply_append sequenced_append)
qed

section \<open>Rows as the store returns them\<close>

definition stored_columns :: "int \<Rightarrow> prepared_row \<Rightarrow> string list" where
  "stored_columns n p = [sql_quote (pr_kind p), sql_quote (pr_entity p), sql_quote (pr_value p), show_int n, show_word (pr_seq p)]"

definition row_of :: "int \<Rightarrow> prepared_row \<Rightarrow> string \<Rightarrow> history_row" where
  "row_of n p d = \<lparr>hr_id = n, hr_sequence = pr_seq p, hr_operation = pr_kind p, hr_entity = pr_entity p,
     hr_descriptor = d, hr_value_json = pr_value p\<rparr>"

lemma b_unquote_sql_quote [simp]: "b_unquote_column (sql_quote s) = Inr (Some s)"
  using unquote_sql_quote [of s] by (simp add: unquote_column_def b_unquote_column_def split: if_splits)

lemma decode_row_stored:
  assumes "pr_kind p \<in> set binding_operations" "pr_value p = value_to_json (VText d)" "utf8_valid d" "0 < n" "in_i64 n"
  shows "decode_row (stored_columns n p) = Inr (row_of n p d)"
  using assms value_round_trip_gen [of "VText d"] by (simp add: decode_row_def stored_columns_def row_of_def)

lemma decode_rows_append:
  "decode_rows (xs @ ys) = and_then (decode_rows xs) (\<lambda>as. map_ok (\<lambda>bs. as @ bs) (decode_rows ys))"
proof (induction xs)
  case Nil
  show ?case by (cases "decode_rows ys") simp_all
next
  case (Cons x xs)
  then show ?case by (cases "decode_row x"; cases "decode_rows xs"; cases "decode_rows ys") simp_all
qed

lemma read_descriptors_snoc:
  "read_descriptors (Inr cols) = Inr rows \<Longrightarrow> decode_row c = Inr row \<Longrightarrow> read_descriptors (Inr (cols @ [c])) = Inr (rows @ [row])"
  by (simp add: read_descriptors_def decode_rows_append)

section \<open>Descriptors of the commands\<close>

lemma join_on_append:
  "xs \<noteq> [] \<Longrightarrow> ys \<noteq> [] \<Longrightarrow> join_on c (xs @ ys) = join_on c xs @ c # join_on c ys"
proof (induction c xs rule: join_on.induct)
  case (2 c p)
  then show ?case by (cases ys) simp_all
qed simp_all

lemma fields_text_append:
  "kvs \<noteq> [] \<Longrightarrow> kvs' \<noteq> [] \<Longrightarrow> fields_text (kvs @ kvs') = fields_text kvs @ CHR '';'' # fields_text kvs'"
  by (simp add: fields_text_def join_on_append)

text \<open>A descriptor: version, kind, the fields of the record, and the operation and revision of the write.\<close>

definition versioned :: "string \<Rightarrow> (string \<times> string \<times> string) list \<Rightarrow> (string \<times> string \<times> string) list" where
  "versioned kind kvs = (''v'', ''2'', ''2'') # (''kind'', kind, kind) # kvs"

definition stamped :: "operation_id \<Rightarrow> binding_revision \<Rightarrow> (string \<times> string \<times> string) list" where
  "stamped operation revision =
     [(''operation'', operation, operation), (''revision'', show_word revision, show_word revision)]"

lemma row_descriptor_fields:
  "row_descriptor (fields_text (versioned kind kvs)) operation revision =
     fields_text (versioned kind kvs @ stamped operation revision)"
proof -
  have "fields_text (versioned kind kvs @ stamped operation revision) =
      fields_text (versioned kind kvs) @ CHR '';'' # fields_text (stamped operation revision)"
    by (rule fields_text_append) (simp_all add: versioned_def stamped_def)
  moreover have "fields_text (stamped operation revision) =
      part ''operation'' operation @ CHR '';'' # part ''revision'' (show_word revision)"
    by (simp add: stamped_def fields_text_def)
  ultimately show ?thesis by (simp add: row_descriptor_def)
qed

definition texts_of :: "(string \<times> string \<times> string) list \<Rightarrow> texts" where
  "texts_of kvs = bt.insert_all (map (\<lambda>(k, e, v). (k, v)) kvs) []"

lemma texts_of_get: "distinct (map fst kvs) \<Longrightarrow> bt_get (texts_of kvs) k = map_of (map (\<lambda>(k, e, v). (k, v)) kvs) k"
proof -
  assume "distinct (map fst kvs)"
  moreover have "map fst (map (\<lambda>(k, e, v). (k, v)) kvs) = map fst kvs" by (simp add: case_prod_unfold)
  ultimately have "distinct (map fst (map (\<lambda>(k, e, v). (k, v)) kvs))" by (simp only:)
  from bt.get_insert_all [OF bt_ok_Nil this, of k] show ?thesis
    by (simp add: texts_of_def split: option.splits)
qed

lemma texts_of_mem: "distinct (map fst kvs) \<Longrightarrow> (k, e, v) \<in> set kvs \<Longrightarrow> bt_get (texts_of kvs) k = Some v"
proof -
  assume d: "distinct (map fst kvs)" and m: "(k, e, v) \<in> set kvs"
  have "map fst (map (\<lambda>(k, e, v). (k, v)) kvs) = map fst kvs" by (simp add: case_prod_unfold)
  with d have "distinct (map fst (map (\<lambda>(k, e, v). (k, v)) kvs))" by (simp only:)
  moreover have "(k, v) \<in> set (map (\<lambda>(k, e, v). (k, v)) kvs)" using m by force
  ultimately show ?thesis using texts_of_get [OF d] by simp
qed

lemma split_fields: "kvs \<noteq> [] \<Longrightarrow> list_all field_ok kvs \<Longrightarrow> distinct (map fst kvs) \<Longrightarrow>
    b_split_descriptor (fields_text kvs) = Inr (texts_of kvs)"
  by (simp add: b_split_descriptor_fields texts_of_def)

lemma id_char_clean: "list_all id_char s \<Longrightarrow> CHR ''%'' \<notin> set s \<and> CHR '';'' \<notin> set s"
  by (auto simp: list_all_iff id_char_def is_ascii_alphanumeric_def is_ascii_digit_def)

lemma stamped_ok: "id_ok operation \<Longrightarrow> list_all field_ok (stamped operation revision)"
  by (simp add: stamped_def field_ok_plain id_char_clean id_ok_def id_ok_utf8 [unfolded id_ok_def])

text \<open>The fields of each record, as its descriptor writes them.\<close>

definition encoded :: "(string \<times> string) list \<Rightarrow> (string \<times> string \<times> string) list" where
  "encoded kvs = map (\<lambda>(k, v). (k, pct_encode v, v)) kvs"

definition equipment_texts :: "equipment_record \<Rightarrow> (string \<times> string) list" where
  "equipment_texts rec =
     [(''id'', eq_id rec), (''ekind'', equipment_kind_as_str (eq_kind rec)), (''scope'', scope_text (eq_scope rec)),
      (''label'', eq_label rec), (''address'', eq_address rec)]"

definition space_texts :: "space_record \<Rightarrow> (string \<times> string) list" where
  "space_texts rec =
     [(''id'', sp_id rec), (''scope'', scope_text (sp_scope rec)), (''label'', sp_label rec)]"

definition source_texts :: "source_record \<Rightarrow> (string \<times> string) list" where
  "source_texts rec =
     [(''id'', so_id rec), (''scope'', scope_text (so_scope rec)), (''label'', so_label rec)]"

definition point_texts :: "point_record \<Rightarrow> (string \<times> string) list" where
  "point_texts rec =
     [(''equipment'', pt_equipment rec), (''property'', pt_property rec), (''scope'', scope_text (pt_scope rec)),
      (''unit'', unit_as_str (pt_unit rec)), (''eclass'', endpoint_class_as_str (pt_class rec))]"

definition retire_texts :: "string \<Rightarrow> string \<Rightarrow> string \<Rightarrow> (string \<times> string) list" where
  "retire_texts i address reason =
     [(''id'', i), (''address'', address), (''reason'', reason)]"

lemmas command_texts = equipment_texts_def space_texts_def source_texts_def point_texts_def retire_texts_def

lemma command_descriptors:
  "equipment_descriptor e = fields_text (versioned ''equipment'' (encoded (equipment_texts e)))"
  "space_descriptor s = fields_text (versioned ''space'' (encoded (space_texts s)))"
  "source_descriptor o' = fields_text (versioned ''source'' (encoded (source_texts o')))"
  "point_descriptor p = fields_text (versioned ''point'' (encoded (point_texts p)))"
  "retire_descriptor i a r = fields_text (versioned ''retire'' (encoded (retire_texts i a r)))"
  by (simp_all add: equipment_descriptor_def space_descriptor_def source_descriptor_def point_descriptor_def
      retire_descriptor_def fields_text_def versioned_def command_texts encoded_def part_def)

section \<open>Commands\<close>

datatype registry_command =
    RecordEquipment string equipment_kind trusted_scope string string
  | RecordSpace string trusted_scope string
  | RecordSource string trusted_scope string
  | RecordPoint string string trusted_scope string endpoint_class
  | Retire string string

fun run_command :: "registry_view \<Rightarrow> registry_command \<Rightarrow> registry \<Rightarrow> registry \<times> (binding_error + unit)" where
  "run_command rv (RecordEquipment i kind scope label address) r = record_equipment rv i kind scope label address r"
| "run_command rv (RecordSpace i scope label) r = record_space rv i scope label r"
| "run_command rv (RecordSource i scope label) r = record_source rv i scope label r"
| "run_command rv (RecordPoint equipment property scope u class) r = record_point rv equipment property scope u class r"
| "run_command rv (Retire i reason) r = retire rv i reason r"

text \<open>Texts are valid UTF-8 and scopes are parsed ones: what the types of the arguments guarantee.\<close>

fun command_ok :: "registry_command \<Rightarrow> bool" where
  "command_ok (RecordEquipment i kind scope label address) \<longleftrightarrow> trusted_scope_ok scope \<and> utf8_valid label"
| "command_ok (RecordSpace i scope label) \<longleftrightarrow> trusted_scope_ok scope \<and> utf8_valid label"
| "command_ok (RecordSource i scope label) \<longleftrightarrow> trusted_scope_ok scope \<and> utf8_valid label"
| "command_ok (RecordPoint equipment property scope u class) \<longleftrightarrow> trusted_scope_ok scope \<and> utf8_valid u"
| "command_ok (Retire i reason) \<longleftrightarrow> utf8_valid reason"

lemma run_then_eq_Inr:
  "run_then p k = (r', Inr y) \<longleftrightarrow> (\<exists>r x. p = (r, Inr x) \<and> k r x = (r', Inr y))"
  by (cases p; cases "snd p") (auto simp: run_then_def)

lemma run_res_eq_Inr: "run_res r res k = (r', Inr y) \<longleftrightarrow> (\<exists>x. res = Inr x \<and> k r x = (r', Inr y))"
  by (auto simp: run_res_def run_then_eq_Inr)

lemma committed_id_range: "committed_id rows = Some n \<Longrightarrow> 0 < n \<and> in_i64 n"
  by (auto simp: committed_id_def parse_i64_range split: list.splits option.splits if_splits)

lemma submitted_range: "submitted out = Inr n \<Longrightarrow> 0 < n \<and> in_i64 n"
proof (cases out)
  case (MNotCommitted o' e)
  assume "submitted out = Inr n"
  with MNotCommitted show ?thesis by (cases e) (auto split: if_splits)
qed (auto dest: committed_id_range)

lemma write_record_cases:
  assumes "write_record rv kind entity desc r = (r', Inr ())"
  obtains operation p n where "rv_operation rv = Inr operation"
    "prepare_row rv r operation kind entity (row_descriptor desc operation (rg_revision r)) None = Inr p"
    "submitted (rv_submit rv p) = Inr n" "r' = r\<lparr>rg_sequence := rg_sequence r + 1\<rparr>"
  using assms by (auto simp: write_record_def split: sum.splits)

lemma prepare_row_cases:
  assumes "prepare_row rv r operation kind entity d auth = Inr p"
  shows "pr_operation p = operation \<and> pr_kind p = kind \<and> pr_entity p = entity \<and> pr_value p = value_to_json (VText d) \<and>
    pr_seq p = rg_sequence r + 1 \<and> (kind \<noteq> op_finding_text \<longrightarrow> rg_revision r \<noteq> - 1)"
  using assms by (auto simp: prepare_row_def Let_def checked_add_def split: if_splits option.splits)

lemma ok_fields_text_utf8:
  assumes "\<forall>f \<in> set kvs. utf8_valid (fst f) \<and> (fst (snd f) = pct_encode (snd (snd f)) \<or> utf8_valid (fst (snd f)))"
  shows "utf8_valid (fields_text kvs)"
  using assms by (intro fields_text_utf8) auto

lemma commit_step:
  assumes r: "replays rows r" and w: "write_record rv kind entity (fields_text (versioned k kvs)) r = (r1, Inr ())"
    and op: "\<forall>operation. rv_operation rv = Inr operation \<longrightarrow> id_ok operation"
    and kind: "kind \<in> set binding_operations"
    and ok: "list_all field_ok (versioned k kvs)" "distinct (map fst (versioned k kvs @ stamped [] 0))"
    and u: "utf8_valid (fields_text (versioned k kvs))"
    and app: "\<And>operation. apply_kind kind k (texts_of (versioned k kvs @ stamped operation (rg_revision r))) r = Inr q"
  shows "r1 = r\<lparr>rg_sequence := rg_sequence r + 1\<rparr> \<and>
    (\<exists>p n d. pr_kind p = kind \<and> submitted (rv_submit rv p) = Inr n \<and> decode_row (stored_columns n p) = Inr (row_of n p d) \<and>
       replays (rows @ [row_of n p d]) (q\<lparr>rg_sequence := rg_sequence r + 1\<rparr>))"
proof -
  obtain operation p n where c: "rv_operation rv = Inr operation"
      "prepare_row rv r operation kind entity (row_descriptor (fields_text (versioned k kvs)) operation (rg_revision r)) None = Inr p"
      "submitted (rv_submit rv p) = Inr n" "r1 = r\<lparr>rg_sequence := rg_sequence r + 1\<rparr>"
    by (rule write_record_cases [OF w])
  have "id_ok operation" using op c(1) by simp
  define all where "all = versioned k kvs @ stamped operation (rg_revision r)"
  define d where "d = fields_text all"
  have d: "row_descriptor (fields_text (versioned k kvs)) operation (rg_revision r) = d"
    by (simp add: d_def all_def row_descriptor_fields)
  note p = prepare_row_cases [OF c(2), unfolded d]
  have "d = fields_text (versioned k kvs) @ CHR '';'' # fields_text (stamped operation (rg_revision r))"
    unfolding d_def all_def by (rule fields_text_append) (simp_all add: versioned_def stamped_def)
  moreover have "utf8_valid (fields_text (stamped operation (rg_revision r)))"
    using \<open>id_ok operation\<close> by (intro ok_fields_text_utf8) (auto simp: stamped_def plain_utf8 plain_def verdant_defs)
  ultimately have "utf8_valid d" using u by simp
  have row: "decode_row (stored_columns n p) = Inr (row_of n p d)"
    using decode_row_stored [of p d n] kind p submitted_range [OF c(3)] \<open>utf8_valid d\<close> by auto
  have "b_split_descriptor d = Inr (texts_of all)"
    unfolding d_def using ok stamped_ok [OF \<open>id_ok operation\<close>, of "rg_revision r"]
    by (intro split_fields) (simp_all add: all_def versioned_def stamped_def)
  moreover have "distinct (map fst all)" using ok(2) by (simp add: all_def stamped_def)
  then have "bt_get (texts_of all) ''v'' = Some ''2''" "bt_get (texts_of all) ''kind'' = Some k"
      "bt_get (texts_of all) ''revision'' = Some (show_word (rg_revision r))"
    by (auto intro!: texts_of_mem simp: all_def versioned_def stamped_def)
  ultimately have "apply_row (row_of n p d) r = Inr q"
    using app [of operation] p by (simp add: apply_row_def row_of_def stored_revision_def all_def)
  from replays_snoc [OF r _ this] p have "replays (rows @ [row_of n p d]) (q\<lparr>rg_sequence := rg_sequence r + 1\<rparr>)"
    by (simp add: row_of_def)
  with c row p show ?thesis by blast
qed

section \<open>The invariant of a replayed registry\<close>

definition registry_wf :: "registry \<Rightarrow> bool" where
  "registry_wf r \<longleftrightarrow> bt_ok (rg_equipment r) \<and> bt_ok (rg_spaces r) \<and> bt_ok (rg_sources r) \<and> bt_ok (rg_points r) \<and>
     (\<forall>(k, rec) \<in> set (rg_equipment r). eq_id rec = k \<and> id_ok k \<and> id_ok (eq_address rec)) \<and>
     (\<forall>(k, rec) \<in> set (rg_points r). k = point_key (pt_equipment rec) (pt_property rec) \<and> id_ok (pt_property rec)) \<and>
     rg_reassessment r \<subseteq> bt_dom (rg_equipment r)"

lemma equipment_record_parse_eq:
  "equipment_record_parse i kind scope label address = Inr rec \<longleftrightarrow>
     id_ok i \<and> validate_label label = Inr () \<and> id_ok address \<and>
     rec = \<lparr>eq_id = i, eq_kind = kind, eq_scope = scope, eq_label = label, eq_address = address\<rparr>"
  by (auto simp: equipment_record_parse_def)

lemma space_record_parse_eq:
  "space_record_parse i scope label = Inr rec \<longleftrightarrow>
     id_ok i \<and> validate_label label = Inr () \<and> rec = \<lparr>sp_id = i, sp_scope = scope, sp_label = label\<rparr>"
  by (auto simp: space_record_parse_def)

lemma source_record_parse_eq:
  "source_record_parse i scope label = Inr rec \<longleftrightarrow>
     id_ok i \<and> validate_label label = Inr () \<and> rec = \<lparr>so_id = i, so_scope = scope, so_label = label\<rparr>"
  by (auto simp: source_record_parse_def)

lemma point_record_parse_eq:
  "point_record_parse equipment property scope u class = Inr rec \<longleftrightarrow>
     id_ok equipment \<and> id_ok property \<and> (\<exists>un. unit_parse u = Inr un \<and>
       rec = \<lparr>pt_equipment = equipment, pt_property = property, pt_scope = scope, pt_unit = un, pt_class = class\<rparr>)"
  by (auto simp: point_record_parse_def)

lemmas record_parse_eqs = equipment_record_parse_eq space_record_parse_eq source_record_parse_eq point_record_parse_eq

lemma apply_row_cases:
  assumes "apply_row row r = Inr q"
  obtains m where "replay_equipment m r = Inr q" | m where "replay_space m r = Inr q" | m where "replay_source m r = Inr q"
    | m where "replay_point m r = Inr q" | m where "replay_propose m r = Inr q" | m where "replay_retire m r = Inr q"
    | m where "replay_finding m r = Inr q"
proof -
  from assms obtain m kind where "apply_kind (hr_operation row) kind m r = Inr q"
    by (auto simp: apply_row_def split: if_splits)
  then have "replay_equipment m r = Inr q \<or> replay_space m r = Inr q \<or> replay_source m r = Inr q \<or>
      replay_point m r = Inr q \<or> replay_propose m r = Inr q \<or> replay_retire m r = Inr q \<or> replay_finding m r = Inr q"
    unfolding apply_kind_def by (auto split: if_splits)
  then show thesis by (elim disjE) (erule that)+
qed

text \<open>What each kind of row changes, once for all invariants.\<close>

lemma replay_kind_cases:
  assumes "apply_row row r = Inr q"
  obtains (Equipment) i rec where "eq_id rec = i" "id_ok i" "id_ok (eq_address rec)"
      "q = bump_revision (r\<lparr>rg_reassessment := (if eq_address rec \<in> rg_retired_addrs r then insert i (rg_reassessment r)
         else rg_reassessment r), rg_equipment := bt_insert i rec (rg_equipment r)\<rparr>)"
    | (Space) i rec where "q = bump_revision (r\<lparr>rg_spaces := bt_insert i rec (rg_spaces r)\<rparr>)"
    | (Source) i rec where "q = bump_revision (r\<lparr>rg_sources := bt_insert i rec (rg_sources r)\<rparr>)"
    | (Point) rec where "id_ok (pt_property rec)"
      "q = bump_revision (r\<lparr>rg_points := bt_insert (point_key (pt_equipment rec) (pt_property rec)) rec (rg_points r)\<rparr>)"
    | (Propose) b where "q = bump_revision (r\<lparr>rg_bindings := rg_bindings r @ [b]\<rparr>)"
    | (Retired) i address where "q = bump_revision (r\<lparr>rg_retired := insert i (rg_retired r),
         rg_retired_addrs := insert address (rg_retired_addrs r)\<rparr>)"
    | (Finding) f where "q = r\<lparr>rg_findings := rg_findings r @ [f]\<rparr>"
  using assms
proof (cases rule: apply_row_cases)
  case (1 m)
  then obtain i kind sc label address rec where rec: "equipment_record_parse i kind sc label address = Inr rec"
      "q = bump_revision (r\<lparr>rg_reassessment := (if eq_address rec \<in> rg_retired_addrs r then insert i (rg_reassessment r)
         else rg_reassessment r), rg_equipment := bt_insert i rec (rg_equipment r)\<rparr>)"
    by (auto simp: replay_equipment_def)
  then show ?thesis by (intro Equipment [of rec i]) (auto simp: record_parse_eqs)
next
  case (4 m)
  then obtain equipment property sc u cl rec where rec: "point_record_parse equipment property sc u cl = Inr rec"
      "q = bump_revision (r\<lparr>rg_points := bt_insert (point_key equipment property) rec (rg_points r)\<rparr>)"
    by (auto simp: replay_point_def)
  then show ?thesis by (intro Point [of rec]) (auto simp: record_parse_eqs)
qed (auto simp: replay_kind_defs record_parse_eqs intro: Space Source Propose Retired Finding split: if_splits)

lemma bump_revision_sel [simp]:
  "rg_equipment (bump_revision r) = rg_equipment r" "rg_spaces (bump_revision r) = rg_spaces r"
  "rg_sources (bump_revision r) = rg_sources r" "rg_points (bump_revision r) = rg_points r"
  "rg_bindings (bump_revision r) = rg_bindings r" "rg_findings (bump_revision r) = rg_findings r"
  "rg_retired (bump_revision r) = rg_retired r" "rg_retired_addrs (bump_revision r) = rg_retired_addrs r"
  "rg_reassessment (bump_revision r) = rg_reassessment r" "rg_sequence (bump_revision r) = rg_sequence r"
  by (simp_all add: bump_revision_def)

lemma apply_row_wf: "apply_row row r = Inr q \<Longrightarrow> registry_wf r \<Longrightarrow> registry_wf q"
  by (erule replay_kind_cases) (auto simp: registry_wf_def dest!: set_bt_insert_subset [THEN subsetD])

text \<open>Any property of the core that every row keeps holds of every replayed registry.\<close>

lemma history_apply_invariant:
  assumes step: "\<And>row r q. apply_row row r = Inr q \<Longrightarrow> P r \<Longrightarrow> P q" and core: "\<And>r. P (reg_core r) \<longleftrightarrow> P r"
  shows "history_apply rows (reg_core r) = Inr q \<Longrightarrow> P r \<Longrightarrow> P q"
proof (induction rows arbitrary: r)
  case (Cons row rows)
  then obtain p where p: "apply_row row (reg_core r) = Inr p" "history_apply rows (reg_core p) = Inr q" by auto
  with Cons show ?case by (metis step core)
qed (auto simp: core)

lemma replays_invariant:
  assumes "\<And>row r q. apply_row row r = Inr q \<Longrightarrow> P r \<Longrightarrow> P q" "\<And>r. P (reg_core r) \<longleftrightarrow> P r" "P (cleared_registry 0)"
    "replays rows r"
  shows "P r"
proof -
  have "P (reg_core r)"
  proof (rule history_apply_invariant [where P = P])
    show "history_apply rows (reg_core (cleared_registry 0)) = Inr (reg_core r)" using assms(4) by (simp add: replays_def)
  qed (use assms in blast)+
  with assms(2) show ?thesis by blast
qed

lemma replays_extend:
  assumes "\<And>row r q. apply_row row r = Inr q \<Longrightarrow> P r \<Longrightarrow> P q" "\<And>r. P (reg_core r) \<longleftrightarrow> P r"
    "replays rows r" "replays (rows @ later) r'" "P r"
  shows "P r'"
proof -
  have "history_apply later (reg_core r) = Inr (reg_core r')"
    using assms(3,4) by (simp add: replays_def history_apply_append)
  then have "P (reg_core r')"
    by (rule history_apply_invariant [where P = P, rotated 2]) (use assms in blast)+
  with assms(2) show ?thesis by blast
qed

lemma replays_wf: "replays rows r \<Longrightarrow> registry_wf r"
  by (rule replays_invariant [of registry_wf]; (erule (1) apply_row_wf)?) (auto simp: registry_wf_def cleared_registry_def)

section \<open>What a command writes replays to what it leaves\<close>

definition commits :: "registry_view \<Rightarrow> history_row list \<Rightarrow> string \<Rightarrow> registry \<Rightarrow> bool" where
  "commits rv rows kind r' \<longleftrightarrow> (\<exists>p n row. pr_kind p = kind \<and> submitted (rv_submit rv p) = Inr n \<and>
     decode_row (stored_columns n p) = Inr row \<and> replays (rows @ [row]) r')"

lemma commit_stepD:
  assumes "replays rows r" "write_record rv kind entity (fields_text (versioned k kvs)) r = (r1, Inr ())"
    "\<forall>operation. rv_operation rv = Inr operation \<longrightarrow> id_ok operation" "kind \<in> set binding_operations"
    "list_all field_ok (versioned k kvs)" "distinct (map fst (versioned k kvs @ stamped [] 0))"
    "utf8_valid (fields_text (versioned k kvs))"
    "\<And>operation. apply_kind kind k (texts_of (versioned k kvs @ stamped operation (rg_revision r))) r = Inr q"
  shows "r1 = r\<lparr>rg_sequence := rg_sequence r + 1\<rparr>" "commits rv rows kind (q\<lparr>rg_sequence := rg_sequence r + 1\<rparr>)"
  using commit_step [OF assms] unfolding commits_def by blast+

lemma encoded_fields_ok:
  assumes "\<forall>(k, v) \<in> set kvs. utf8_valid v \<and> utf8_valid k \<and> k \<noteq> [] \<and> CHR ''='' \<notin> set k \<and> CHR '';'' \<notin> set k"
    and "id_ok kind"
  shows "list_all field_ok (versioned kind (encoded kvs))"
    and "utf8_valid (fields_text (versioned kind (encoded kvs)))"
proof -
  have k: "CHR ''%'' \<notin> set kind" "CHR '';'' \<notin> set kind" "utf8_valid kind"
    using assms(2) id_char_clean [of kind] by (auto simp: id_ok_def id_ok_utf8 [unfolded id_ok_def])
  then show "list_all field_ok (versioned kind (encoded kvs))"
    using assms(1) by (auto simp: versioned_def encoded_def list_all_iff field_ok_plain plain_utf8 plain_def verdant_defs intro!: field_ok_encode)
  show "utf8_valid (fields_text (versioned kind (encoded kvs)))"
    using assms(1) k by (intro ok_fields_text_utf8) (auto simp: versioned_def encoded_def plain_utf8 plain_def verdant_defs)
qed

lemma kind_words [simp]:
  "id_ok ''equipment''" "id_ok ''space''" "id_ok ''source''" "id_ok ''point''" "id_ok ''retire''"
  "id_ok ''id''" "id_ok ''ekind''" "id_ok ''scope''" "id_ok ''label''" "id_ok ''address''" "id_ok ''property''"
  "id_ok ''unit''" "id_ok ''eclass''" "id_ok ''reason''"
  by (simp_all add: id_ok_def max_id_len_def id_char_def is_ascii_alphanumeric_def is_ascii_digit_def)

lemma as_str_utf8 [simp]: "utf8_valid (equipment_kind_as_str k)" "utf8_valid (endpoint_class_as_str c)"
  by (cases k; cases c; simp add: plain_utf8 plain_def verdant_defs)+

lemma trusted_scope_utf8: "trusted_scope_ok s \<Longrightarrow> utf8_valid (scope_text s)"
  by (simp add: trusted_scope_ok_def)

lemma stored_scope_self [simp]: "trusted_scope_ok s \<Longrightarrow> stored_scope what (scope_text s) = Inr s"
  by (simp add: stored_scope_def)

lemma validate_label_utf8: "trusted_scope_ok s \<Longrightarrow> id_ok i \<Longrightarrow> utf8_valid l \<Longrightarrow>
    \<forall>v \<in> {scope_text s, i, l}. utf8_valid v"
  by (auto simp: trusted_scope_utf8)

lemmas command_simps = run_then_eq_Inr run_res_eq_Inr record_parse_eqs

lemma distinct_command_keys:
  "distinct (map fst (versioned k (encoded (equipment_texts e)) @ stamped [] 0))"
  "distinct (map fst (versioned k (encoded (space_texts s)) @ stamped [] 0))"
  "distinct (map fst (versioned k (encoded (source_texts so)) @ stamped [] 0))"
  "distinct (map fst (versioned k (encoded (point_texts p)) @ stamped [] 0))"
  "distinct (map fst (versioned k (encoded (retire_texts i a r)) @ stamped [] 0))"
  by (simp_all add: versioned_def command_texts encoded_def stamped_def)

lemma distinct_stamped: "distinct (map fst (xs @ stamped [] 0)) \<Longrightarrow> distinct (map fst (xs @ stamped operation revision))"
  by (simp add: stamped_def)

lemma encoded_get:
  assumes "distinct (map fst (versioned k (encoded kvs) @ stamped [] 0))" "(key, v) \<in> set kvs"
  shows "bt_get (texts_of (versioned k (encoded kvs) @ stamped operation revision)) key = Some v"
  using assms by (intro texts_of_mem [of _ key "pct_encode v"]) (auto simp: versioned_def stamped_def encoded_def)

lemma equipment_get [simp]:
  "bt_get (texts_of (versioned k (encoded (equipment_texts rec)) @ stamped operation revision)) ''id'' = Some (eq_id rec)"
  "bt_get (texts_of (versioned k (encoded (equipment_texts rec)) @ stamped operation revision)) ''ekind'' =
     Some (equipment_kind_as_str (eq_kind rec))"
  "bt_get (texts_of (versioned k (encoded (equipment_texts rec)) @ stamped operation revision)) ''scope'' =
     Some (scope_text (eq_scope rec))"
  "bt_get (texts_of (versioned k (encoded (equipment_texts rec)) @ stamped operation revision)) ''label'' = Some (eq_label rec)"
  "bt_get (texts_of (versioned k (encoded (equipment_texts rec)) @ stamped operation revision)) ''address'' = Some (eq_address rec)"
  by (rule encoded_get [OF distinct_command_keys(1)], simp add: equipment_texts_def)+

lemma space_get [simp]:
  "bt_get (texts_of (versioned k (encoded (space_texts rec)) @ stamped operation revision)) ''id'' = Some (sp_id rec)"
  "bt_get (texts_of (versioned k (encoded (space_texts rec)) @ stamped operation revision)) ''scope'' =
     Some (scope_text (sp_scope rec))"
  "bt_get (texts_of (versioned k (encoded (space_texts rec)) @ stamped operation revision)) ''label'' = Some (sp_label rec)"
  by (rule encoded_get [OF distinct_command_keys(2)], simp add: space_texts_def)+

lemma source_get [simp]:
  "bt_get (texts_of (versioned k (encoded (source_texts rec)) @ stamped operation revision)) ''id'' = Some (so_id rec)"
  "bt_get (texts_of (versioned k (encoded (source_texts rec)) @ stamped operation revision)) ''scope'' =
     Some (scope_text (so_scope rec))"
  "bt_get (texts_of (versioned k (encoded (source_texts rec)) @ stamped operation revision)) ''label'' = Some (so_label rec)"
  by (rule encoded_get [OF distinct_command_keys(3)], simp add: source_texts_def)+

lemma point_get [simp]:
  "bt_get (texts_of (versioned k (encoded (point_texts rec)) @ stamped operation revision)) ''equipment'' = Some (pt_equipment rec)"
  "bt_get (texts_of (versioned k (encoded (point_texts rec)) @ stamped operation revision)) ''property'' = Some (pt_property rec)"
  "bt_get (texts_of (versioned k (encoded (point_texts rec)) @ stamped operation revision)) ''scope'' =
     Some (scope_text (pt_scope rec))"
  "bt_get (texts_of (versioned k (encoded (point_texts rec)) @ stamped operation revision)) ''unit'' = Some (unit_as_str (pt_unit rec))"
  "bt_get (texts_of (versioned k (encoded (point_texts rec)) @ stamped operation revision)) ''eclass'' =
     Some (endpoint_class_as_str (pt_class rec))"
  by (rule encoded_get [OF distinct_command_keys(4)], simp add: point_texts_def)+

lemma retire_get [simp]:
  "bt_get (texts_of (versioned k (encoded (retire_texts i a rs)) @ stamped operation revision)) ''id'' = Some i"
  "bt_get (texts_of (versioned k (encoded (retire_texts i a rs)) @ stamped operation revision)) ''address'' = Some a"
  "bt_get (texts_of (versioned k (encoded (retire_texts i a rs)) @ stamped operation revision)) ''reason'' = Some rs"
  by (rule encoded_get [OF distinct_command_keys(5)], simp add: retire_texts_def)+

text \<open>One command each: the row is the record's, and its replay makes the change the command made.\<close>

lemma command_commits:
  assumes "replays rows r" "write_record rv kind entity (fields_text (versioned k (encoded kvs))) r = (r1, Inr ())"
    and "\<forall>operation. rv_operation rv = Inr operation \<longrightarrow> id_ok operation" "kind \<in> set binding_operations" "id_ok k"
    and "distinct (map fst (versioned k (encoded kvs) @ stamped [] 0))" "\<forall>(k, v) \<in> set kvs. utf8_valid v"
    and "\<forall>k \<in> set (map fst kvs). id_ok k"
    and "\<And>operation. apply_kind kind k (texts_of (versioned k (encoded kvs) @ stamped operation (rg_revision r))) r = Inr q"
  shows "r1 = r\<lparr>rg_sequence := rg_sequence r + 1\<rparr> \<and> commits rv rows kind (q\<lparr>rg_sequence := rg_sequence r + 1\<rparr>)"
proof -
  have "CHR ''='' \<notin> set k \<and> CHR '';'' \<notin> set k \<and> k \<noteq> [] \<and> utf8_valid k" if "id_ok k" for k
    using that by (auto simp: id_ok_def list_all_iff id_char_def is_ascii_alphanumeric_def is_ascii_digit_def
        id_ok_utf8 [unfolded id_ok_def])
  with assms(7,8) have "\<forall>(k, v) \<in> set kvs. utf8_valid v \<and> utf8_valid k \<and> k \<noteq> [] \<and> CHR ''='' \<notin> set k \<and> CHR '';'' \<notin> set k"
    by fastforce
  note ok = encoded_fields_ok [OF this assms(5)]
  from commit_stepD [OF assms(1-4) ok(1) assms(6) ok(2) assms(9)] show ?thesis by blast
qed

lemma record_equipment_commits:
  assumes "replays rows r" "record_equipment rv i kind scope label address r0 = (r', Inr ())"
    and "fst (replay (rv_scan rv) r0) = r" "trusted_scope_ok scope" "utf8_valid label"
    and "\<forall>operation. rv_operation rv = Inr operation \<longrightarrow> id_ok operation"
  shows "commits rv rows op_equipment_text r'"
proof -
  obtain rec r1 where rec: "equipment_record_parse i kind scope label address = Inr rec"
      "write_record rv op_equipment_text (eq_id rec) (equipment_descriptor rec) r = (r1, Inr ())"
      and r': "r' = bump_revision (r1\<lparr>rg_reassessment := (if eq_address rec \<in> rg_retired_addrs r1
        then insert i (rg_reassessment r1) else rg_reassessment r1), rg_equipment := bt_insert i rec (rg_equipment r1)\<rparr>)"
    using assms(2,3) by (auto simp: record_equipment_def run_then_eq_Inr run_res_eq_Inr split: if_splits)
  define q where "q = bump_revision (r\<lparr>rg_reassessment := (if eq_address rec \<in> rg_retired_addrs r
        then insert i (rg_reassessment r) else rg_reassessment r), rg_equipment := bt_insert i rec (rg_equipment r)\<rparr>)"
  note rec' = rec(1) [unfolded record_parse_eqs]
  have a: "apply_kind op_equipment_text ''equipment''
      (texts_of (versioned ''equipment'' (encoded (equipment_texts rec)) @ stamped operation (rg_revision r))) r = Inr q" for operation
    using rec' assms(4) by (simp add: apply_kind_def replay_equipment_def q_def record_parse_eqs)
  have "r1 = r\<lparr>rg_sequence := rg_sequence r + 1\<rparr> \<and> commits rv rows op_equipment_text (q\<lparr>rg_sequence := rg_sequence r + 1\<rparr>)"
    by (rule command_commits [OF assms(1) rec(2) [unfolded command_descriptors] assms(6) _ _ distinct_command_keys(1) _ _ a])
      (use rec' assms(4,5) in \<open>auto simp: binding_operations_def trusted_scope_utf8 equipment_texts_def\<close>)
  moreover from this have "r' = q\<lparr>rg_sequence := rg_sequence r + 1\<rparr>"
    by (simp add: r' q_def bump_revision_def)
  ultimately show ?thesis by simp
qed

lemma record_space_commits:
  assumes "replays rows r" "record_space rv i scope label r0 = (r', Inr ())"
    and "fst (replay (rv_scan rv) r0) = r" "trusted_scope_ok scope" "utf8_valid label"
    and "\<forall>operation. rv_operation rv = Inr operation \<longrightarrow> id_ok operation"
  shows "commits rv rows op_space_text r'"
proof -
  obtain rec r1 where rec: "space_record_parse i scope label = Inr rec"
      "write_record rv op_space_text (sp_id rec) (space_descriptor rec) r = (r1, Inr ())"
      and r': "r' = bump_revision (r1\<lparr>rg_spaces := bt_insert i rec (rg_spaces r1)\<rparr>)"
    using assms(2,3) by (auto simp: record_space_def run_then_eq_Inr run_res_eq_Inr split: if_splits)
  define q where "q = bump_revision (r\<lparr>rg_spaces := bt_insert i rec (rg_spaces r)\<rparr>)"
  note rec' = rec(1) [unfolded record_parse_eqs]
  have a: "apply_kind op_space_text ''space''
      (texts_of (versioned ''space'' (encoded (space_texts rec)) @ stamped operation (rg_revision r))) r = Inr q" for operation
    using rec' assms(4) by (simp add: apply_kind_def replay_space_def q_def record_parse_eqs)
  have "r1 = r\<lparr>rg_sequence := rg_sequence r + 1\<rparr> \<and> commits rv rows op_space_text (q\<lparr>rg_sequence := rg_sequence r + 1\<rparr>)"
    by (rule command_commits [OF assms(1) rec(2) [unfolded command_descriptors] assms(6) _ _ distinct_command_keys(2) _ _ a])
      (use rec' assms(4,5) in \<open>auto simp: binding_operations_def trusted_scope_utf8 space_texts_def\<close>)
  moreover from this have "r' = q\<lparr>rg_sequence := rg_sequence r + 1\<rparr>"
    by (simp add: r' q_def bump_revision_def)
  ultimately show ?thesis by simp
qed

lemma record_source_commits:
  assumes "replays rows r" "record_source rv i scope label r0 = (r', Inr ())"
    and "fst (replay (rv_scan rv) r0) = r" "trusted_scope_ok scope" "utf8_valid label"
    and "\<forall>operation. rv_operation rv = Inr operation \<longrightarrow> id_ok operation"
  shows "commits rv rows op_source_text r'"
proof -
  obtain rec r1 where rec: "source_record_parse i scope label = Inr rec"
      "write_record rv op_source_text (so_id rec) (source_descriptor rec) r = (r1, Inr ())"
      and r': "r' = bump_revision (r1\<lparr>rg_sources := bt_insert i rec (rg_sources r1)\<rparr>)"
    using assms(2,3) by (auto simp: record_source_def run_then_eq_Inr run_res_eq_Inr split: if_splits)
  define q where "q = bump_revision (r\<lparr>rg_sources := bt_insert i rec (rg_sources r)\<rparr>)"
  note rec' = rec(1) [unfolded record_parse_eqs]
  have a: "apply_kind op_source_text ''source''
      (texts_of (versioned ''source'' (encoded (source_texts rec)) @ stamped operation (rg_revision r))) r = Inr q" for operation
    using rec' assms(4) by (simp add: apply_kind_def replay_source_def q_def record_parse_eqs)
  have "r1 = r\<lparr>rg_sequence := rg_sequence r + 1\<rparr> \<and> commits rv rows op_source_text (q\<lparr>rg_sequence := rg_sequence r + 1\<rparr>)"
    by (rule command_commits [OF assms(1) rec(2) [unfolded command_descriptors] assms(6) _ _ distinct_command_keys(3) _ _ a])
      (use rec' assms(4,5) in \<open>auto simp: binding_operations_def trusted_scope_utf8 source_texts_def\<close>)
  moreover from this have "r' = q\<lparr>rg_sequence := rg_sequence r + 1\<rparr>"
    by (simp add: r' q_def bump_revision_def)
  ultimately show ?thesis by simp
qed

lemma record_point_commits:
  assumes "replays rows r" "record_point rv equipment property scope u cl r0 = (r', Inr ())"
    and "fst (replay (rv_scan rv) r0) = r" "trusted_scope_ok scope" "utf8_valid u"
    and "\<forall>operation. rv_operation rv = Inr operation \<longrightarrow> id_ok operation"
  shows "commits rv rows op_point_text r'"
proof -
  obtain rec r1 where rec: "point_record_parse equipment property scope u cl = Inr rec"
      "write_record rv op_point_text (pt_equipment rec) (point_descriptor rec) r = (r1, Inr ())"
      and r': "r' = bump_revision (r1\<lparr>rg_points := bt_insert (point_key equipment property) rec (rg_points r1)\<rparr>)"
    using assms(2,3) by (auto simp: record_point_def Let_def run_then_eq_Inr run_res_eq_Inr split: if_splits)
  define q where "q = bump_revision (r\<lparr>rg_points := bt_insert (point_key equipment property) rec (rg_points r)\<rparr>)"
  obtain un where rec': "id_ok equipment" "id_ok property" "unit_parse u = Inr un"
      "rec = \<lparr>pt_equipment = equipment, pt_property = property, pt_scope = scope, pt_unit = un, pt_class = cl\<rparr>"
    using rec(1) by (auto simp: record_parse_eqs)
  note un = unit_parse_ok [OF assms(5) rec'(3)]
  have a: "apply_kind op_point_text ''point''
      (texts_of (versioned ''point'' (encoded (point_texts rec)) @ stamped operation (rg_revision r))) r = Inr q" for operation
    using rec' un assms(4) by (simp add: apply_kind_def replay_point_def q_def record_parse_eqs)
  have "r1 = r\<lparr>rg_sequence := rg_sequence r + 1\<rparr> \<and> commits rv rows op_point_text (q\<lparr>rg_sequence := rg_sequence r + 1\<rparr>)"
    by (rule command_commits [OF assms(1) rec(2) [unfolded command_descriptors] assms(6) _ _ distinct_command_keys(4) _ _ a])
      (use rec' un assms(4,5) in \<open>auto simp: binding_operations_def trusted_scope_utf8 point_texts_def\<close>)
  moreover from this have "r' = q\<lparr>rg_sequence := rg_sequence r + 1\<rparr>"
    by (simp add: r' q_def bump_revision_def)
  ultimately show ?thesis by simp
qed

lemma equipment_known:
  assumes "replays rows r" "bt_get (rg_equipment r) i = Some rec"
  shows "eq_id rec = i \<and> id_ok i \<and> id_ok (eq_address rec)"
  using replays_wf [OF assms(1)] assms(2) by (auto simp: registry_wf_def bt_get_def dest!: map_of_SomeD)

lemma retire_commits:
  assumes "replays rows r" "retire rv i reason r0 = (r', Inr ())"
    and "fst (replay (rv_scan rv) r0) = r" "utf8_valid reason"
    and "\<forall>operation. rv_operation rv = Inr operation \<longrightarrow> id_ok operation"
  shows "commits rv rows op_retire_text r'"
proof -
  obtain rec r1 where rec: "bt_get (rg_equipment r) i = Some rec"
      "write_record rv op_retire_text (eq_id rec) (retire_descriptor i (eq_address rec) reason) r = (r1, Inr ())"
      and r': "r' = bump_revision (r1\<lparr>rg_retired := insert i (rg_retired r1),
        rg_retired_addrs := insert (eq_address rec) (rg_retired_addrs r1)\<rparr>)"
    using assms(2,3) by (auto simp: retire_def run_then_eq_Inr run_res_eq_Inr split: if_splits)
  define q where "q = bump_revision (r\<lparr>rg_retired := insert i (rg_retired r),
        rg_retired_addrs := insert (eq_address rec) (rg_retired_addrs r)\<rparr>)"
  note known = equipment_known [OF assms(1) rec(1)]
  have a: "apply_kind op_retire_text ''retire''
      (texts_of (versioned ''retire'' (encoded (retire_texts i (eq_address rec) reason)) @ stamped operation (rg_revision r))) r = Inr q"
    for operation
    by (simp add: apply_kind_def replay_retire_def q_def)
  have "r1 = r\<lparr>rg_sequence := rg_sequence r + 1\<rparr> \<and> commits rv rows op_retire_text (q\<lparr>rg_sequence := rg_sequence r + 1\<rparr>)"
    by (rule command_commits [OF assms(1) rec(2) [unfolded command_descriptors] assms(5) _ _ distinct_command_keys(5) _ _ a])
      (use known assms(4) in \<open>auto simp: binding_operations_def retire_texts_def\<close>)
  moreover from this have "r' = q\<lparr>rg_sequence := rg_sequence r + 1\<rparr>"
    by (simp add: r' q_def bump_revision_def)
  ultimately show ?thesis by simp
qed

fun command_kind :: "registry_command \<Rightarrow> string" where
  "command_kind (RecordEquipment _ _ _ _ _) = op_equipment_text"
| "command_kind (RecordSpace _ _ _) = op_space_text"
| "command_kind (RecordSource _ _ _) = op_source_text"
| "command_kind (RecordPoint _ _ _ _ _) = op_point_text"
| "command_kind (Retire _ _) = op_retire_text"

lemma run_command_replays:
  assumes "run_command rv cmd r0 = (r', Inr ())"
  shows "replay (rv_scan rv) r0 = (fst (replay (rv_scan rv) r0), Inr ())"
  using assms by (cases cmd; cases "replay (rv_scan rv) r0"; cases "snd (replay (rv_scan rv) r0)")
    (auto simp: record_equipment_def record_space_def record_source_def record_point_def retire_def run_then_def)

theorem command_commits_gen:
  assumes "run_command rv cmd r0 = (r', Inr ())" "command_ok cmd"
    and "\<forall>operation. rv_operation rv = Inr operation \<longrightarrow> id_ok operation"
  obtains rows where "read_descriptors (rv_scan rv) = Inr rows" "commits rv rows (command_kind cmd) r'"
proof -
  obtain rows where rows: "read_descriptors (rv_scan rv) = Inr rows" "replays rows (fst (replay (rv_scan rv) r0))"
    by (rule replay_sound [OF run_command_replays [OF assms(1)]])
  have "commits rv rows (command_kind cmd) r'"
  proof (cases cmd)
    case (RecordEquipment i kind scope label address)
    then show ?thesis using assms record_equipment_commits [OF rows(2) _ refl] by simp
  next
    case (RecordSpace i scope label)
    then show ?thesis using assms record_space_commits [OF rows(2) _ refl] by simp
  next
    case (RecordSource i scope label)
    then show ?thesis using assms record_source_commits [OF rows(2) _ refl] by simp
  next
    case (RecordPoint equipment property scope u cl)
    then show ?thesis using assms record_point_commits [OF rows(2) _ refl] by simp
  next
    case (Retire i reason)
    then show ?thesis using assms retire_commits [OF rows(2) _ refl] by simp
  qed
  with rows(1) that show ?thesis by blast
qed

text \<open>The committed row, read back with the rest of the history, gives the registry the command left.\<close>

theorem commit_replays:
  assumes "read_descriptors (Inr cols) = Inr rows" "commits rv rows kind r'"
  shows "\<exists>p n. pr_kind p = kind \<and> submitted (rv_submit rv p) = Inr n \<and>
    (\<forall>r1. \<exists>r2. replay (Inr (cols @ [stored_columns n p])) r1 = (r2, Inr ()) \<and> reg_core r2 = reg_core r' \<and>
       rg_sequence r2 = rg_sequence r')"
proof -
  obtain p n row where p: "pr_kind p = kind" "submitted (rv_submit rv p) = Inr n" "decode_row (stored_columns n p) = Inr row"
      "replays (rows @ [row]) r'"
    using assms(2) unfolding commits_def by blast
  note rd = read_descriptors_snoc [OF assms(1) p(3)]
  have "\<exists>r2. replay (Inr (cols @ [stored_columns n p])) r1 = (r2, Inr ()) \<and> reg_core r2 = reg_core r' \<and>
       rg_sequence r2 = rg_sequence r'" for r1
    using replay_complete [OF rd p(4), of r1] by blast
  with p show ?thesis by blast
qed

end
