(* ===== verification/Proposal_Facts.thy ===== *)
theory Proposal_Facts
  imports Registry_Facts
begin

text \<open>
  Facts of proposals: what a committed proposal was checked against, that it reads back from its
  descriptor, that retired equipment is never bound again, and what a mode with a separator does to
  the history.
\<close>

section \<open>Retirement is permanent\<close>

lemma apply_row_retired: "apply_row row r = Inr q \<Longrightarrow> i \<in> rg_retired r \<Longrightarrow> i \<in> rg_retired q"
  by (erule replay_kind_cases) auto

lemma retired_extend:
  assumes "replays rows r" "replays (rows @ later) r'" "i \<in> rg_retired r" shows "i \<in> rg_retired r'"
  by (rule replays_extend [where P = "\<lambda>r. i \<in> rg_retired r", OF _ _ assms]) (erule (1) apply_row_retired, simp)

lemma decode_rows_prefix:
  "decode_rows (xs @ ys) = Inr rows \<Longrightarrow> \<exists>later. decode_rows xs = Inr (take (length xs) rows) \<and> rows = take (length xs) rows @ later"
proof (induction xs arbitrary: rows)
  case (Cons x xs)
  then show ?case by fastforce
qed simp

lemma replay_extend:
  assumes "replay (Inr cols) a = (r, Inr ())" "replay (Inr (cols @ later)) b = (r', Inr ())" "i \<in> rg_retired r"
  shows "i \<in> rg_retired r'"
proof -
  obtain rows where rows: "read_descriptors (Inr cols) = Inr rows" "replays rows r" by (rule replay_sound [OF assms(1)])
  obtain rows' where rows': "read_descriptors (Inr (cols @ later)) = Inr rows'" "replays rows' r'"
    by (rule replay_sound [OF assms(2)])
  from rows'(1) rows(1) obtain more where "rows' = rows @ more"
    using decode_rows_prefix [of cols later rows'] by (auto simp: read_descriptors_def)
  with rows rows' assms(3) show ?thesis using retired_extend by blast
qed

lemma resolve_retired: "pb_equipment b \<in> rg_retired r \<Longrightarrow> \<not> is_ok (resolve r b)"
  by (simp add: resolve_def Let_def)

section \<open>What a submitted proposal was checked against\<close>

definition fits_point :: "registry \<Rightarrow> proposed_binding \<Rightarrow> point_record \<Rightarrow> bool" where
  "fits_point r b point \<longleftrightarrow> bt_get (rg_points r) (point_key (pb_equipment b) (pb_property b)) = Some point \<and>
     pb_equipment b \<notin> rg_retired r \<and> pb_equipment b \<notin> rg_reassessment r \<and>
     pb_point_scope b = pt_scope point \<and> scope_text (pb_endpoint_scope b) = scope_text (pt_scope point) \<and>
     pb_class b = pt_class point \<and> unit_as_str (pb_unit b) = unit_as_str (pt_unit point) \<and>
     pb_requested b = pb_effective b \<and> pb_feedback b \<noteq> FeedbackAmbiguous \<and> pb_status b \<noteq> ObservedQualified"

lemma propose_Inr:
  "propose endpoint cl endpoint_scope equipment property point_scope source expected_unit expected_class u mode requested
     effective fb = Inr b \<longleftrightarrow>
   scope_text endpoint_scope = scope_text point_scope \<and> cl = expected_class \<and> unit_as_str u = unit_as_str expected_unit \<and>
   requested = effective \<and> fb \<noteq> FeedbackAmbiguous \<and>
   b = \<lparr>pb_endpoint = endpoint, pb_class = cl, pb_endpoint_scope = endpoint_scope, pb_equipment = equipment,
        pb_property = property, pb_point_scope = point_scope, pb_source = source, pb_unit = u, pb_mode = mode,
        pb_requested = requested, pb_effective = effective, pb_feedback = fb, pb_status = Valid\<rparr>"
  by (cases fb) (auto simp: propose_def)

lemma resolve_Inr: "resolve r b = Inr () \<longleftrightarrow> (\<exists>point. fits_point r b point)"
  by (auto simp: resolve_def Let_def fits_point_def propose_Inr split: if_splits)

lemma submit_proposal_cases:
  assumes "submit_proposal pv credential pending r0 = (r', Inr commit)" "pv_reconcile pv = MNotCommitted o' e"
  obtains r auth row n where "replay (rv_scan (pv_base pv)) r0 = (r, Inr ())" "rg_revision r = pp_revision pending"
    "resolve r (pp_binding pending) = Inr ()"
    "authority_of (pv_authority pv) credential (pb_point_scope (pp_binding pending)) (pb_requested (pp_binding pending)) = Inr auth"
    "prepare_row (pv_base pv) r (pp_operation pending) op_propose_text (pb_equipment (pp_binding pending))
       (stored_proposal pending (au_report auth)) (Some auth) = Inr row"
    "submitted (rv_submit (pv_base pv) row) = Inr n" "replay (pv_rescan pv) r = (r', Inr ())"
    "commit = \<lparr>pc_operation = pp_operation pending, pc_row_id = n, pc_revision = pp_revision pending + 1,
       pc_binding = pp_binding pending\<rparr>"
proof -
  obtain r where r: "replay (rv_scan (pv_base pv)) r0 = (r, Inr ())"
      "reconcile_proposal pv pending r0 = (r, Inr None)"
    using assms by (cases "replay (rv_scan (pv_base pv)) r0"; cases "snd (replay (rv_scan (pv_base pv)) r0)")
      (auto simp: submit_proposal_def reconcile_proposal_def run_then_def)
  with assms(1) obtain auth row n where 1: "require_revision r (pp_revision pending) = Inr ()"
      "resolve r (pp_binding pending) = Inr ()"
      "authority_of (pv_authority pv) credential (pb_point_scope (pp_binding pending)) (pb_requested (pp_binding pending)) = Inr auth"
      "prepare_row (pv_base pv) r (pp_operation pending) op_propose_text (pb_equipment (pp_binding pending))
         (stored_proposal pending (au_report auth)) (Some auth) = Inr row"
      "submitted (rv_submit (pv_base pv) row) = Inr n"
      "refreshed (pp_operation pending) (replay (pv_rescan pv) r) = (r', Inr ())"
      "commit = \<lparr>pc_operation = pp_operation pending, pc_row_id = n, pc_revision = pp_revision pending + 1,
         pc_binding = pp_binding pending\<rparr>"
    by (auto simp: submit_proposal_def run_then_eq_Inr run_res_eq_Inr)
  then have "replay (pv_rescan pv) r = (r', Inr ())"
    by (cases "replay (pv_rescan pv) r") (auto simp: refreshed_def)
  with r(1) 1 that show thesis by (auto simp: require_revision_def split: if_splits)
qed

text \<open>A proposal whose operation has a receipt is only compared with the stored row.\<close>

lemma retried_proposal_cases:
  assumes "submit_proposal pv credential pending r0 = (r', Inr commit)" "\<nexists>o' e. pv_reconcile pv = MNotCommitted o' e"
  obtains m where "submitted (pv_reconcile pv) = Inr (pc_row_id commit)"
    "committed_descriptor (pv_committed pv) (pc_row_id commit) (pp_operation pending) op_propose_text = Inr m"
    "decode_propose m = Inr (pp_binding pending)" "stored_revision m = Inr (pp_revision pending)"
    "pc_binding commit = pp_binding pending" "checked_add (pp_revision pending) 1 = Some (pc_revision commit)"
proof -
  obtain r found where r: "reconcile_proposal pv pending r0 = (r, Inr found)"
    using assms(1) by (auto simp: submit_proposal_def run_then_eq_Inr)
  have "found \<noteq> None" using r assms(2)
    by (cases "pv_reconcile pv") (auto simp: reconcile_proposal_def run_then_eq_Inr)
  then have f: "found = Some commit" using assms(1) r by (auto simp: submit_proposal_def run_then_eq_Inr)
  show thesis using r assms(2) that unfolding f
    by (cases "pv_reconcile pv") (auto simp: reconcile_proposal_def run_then_eq_Inr split: if_splits)
qed

lemma authority_of_Inr:
  assumes "authority_of av credential scope requested = Inr auth"
  shows "(requested = Sense \<longrightarrow> enter_review (av_gate av) credential scope = Inr (au_report auth)) \<and>
    (requested = Drive \<longrightarrow> enter_publish (av_gate av) credential scope = Inr (au_report auth))"
  using assms by (cases requested) (auto simp: authority_of_def split: if_splits)

section \<open>The stored proposal reads back\<close>

definition report_ok :: "enter_report \<Rightarrow> bool" where
  "report_ok report \<longleftrightarrow> token_ok (ir_cap (actor_row (er_actor report))) \<and>
     id_ok (scope_text (ceiling_scope (actor_bound (er_actor report)))) \<and>
     ir_capgen (actor_row (er_actor report)) \<noteq> 0 \<and> token_ok (ir_issuer (actor_row (er_actor report)))"

lemma enter_report_ok:
  assumes "enter g c scope required = Inr report" shows "report_ok report"
proof -
  obtain cred where c: "c = Some cred" using assms by (cases c) (auto simp: enter_def authenticate_def)
  with assms obtain st row where st: "read_state (gv_horizon g) (gv_scan g) = Inr st"
      "checked st (gv_now g) cred (Some scope) False = Inr row"
    by (auto simp: enter_def authenticate_def)
  then have ok: "issue_ok row"
    using checked_sound [OF st(2)] read_state_issues_ok [OF st(1)] by (auto simp: issues_ok_def admitted_row_def)
  then obtain role where "role_kind_parse (ir_role row) = Inr role" by (auto simp: issue_ok_def is_ok_iff)
  from enter_issued [OF st ok this, of required] assms ok show ?thesis
    by (auto simp: c report_ok_def actor_report_def issue_ok_def split: if_splits)
qed

lemma authority_report_ok: "authority_of av credential scope requested = Inr auth \<Longrightarrow> report_ok (au_report auth)"
  using authority_of_Inr [of av credential scope requested auth]
  by (cases requested) (auto simp: enter_review_def enter_publish_def dest: enter_report_ok)

text \<open>All fields of the row: key, text as written, value.\<close>

definition proposal_fields :: "pending_proposal \<Rightarrow> enter_report \<Rightarrow> (string \<times> string \<times> string) list" where
  "proposal_fields pending report =
     (let b = pp_binding pending; a = er_actor report; e = (\<lambda>k v. (k, pct_encode v, v)); p = (\<lambda>k v. (k, v, v))
      in [p ''v'' ''2'', p ''kind'' ''propose'', e ''endpoint'' (pb_endpoint b), p ''eclass'' (endpoint_class_as_str (pb_class b)),
          e ''escope'' (scope_text (pb_endpoint_scope b)), e ''equipment'' (pb_equipment b), e ''property'' (pb_property b),
          e ''pscope'' (scope_text (pb_point_scope b)), e ''source'' (pb_source b), e ''unit'' (unit_as_str (pb_unit b)),
          p ''mode'' (mode_text (pb_mode b)), p ''requested'' (binding_role_as_str (pb_requested b)),
          p ''effective'' (binding_role_as_str (pb_effective b)), p ''feedback'' (feedback_as_str (pb_feedback b)),
          p ''status'' (binding_status_as_str (pb_status b)), e ''operation'' (pp_operation pending),
          p ''revision'' (show_word (pp_revision pending)), e ''capability'' (ir_cap (actor_row a)),
          e ''scope'' (scope_text (ceiling_scope (actor_bound a))), p ''capgen'' (show_word (ir_capgen (actor_row a))),
          e ''issuer'' (ir_issuer (actor_row a))])"

lemma stored_proposal_fields: "stored_proposal pending report = fields_text (proposal_fields pending report)"
  by (simp add: stored_proposal_def proposal_fields_def proposal_descriptor_def actor_fields_def actor_text_def
      fields_text_def part_def Let_def)

lemma enum_texts_plain [simp]:
  "CHR ''%'' \<notin> set (endpoint_class_as_str c)" "CHR '';'' \<notin> set (endpoint_class_as_str c)"
  "CHR ''%'' \<notin> set (binding_role_as_str ro)" "CHR '';'' \<notin> set (binding_role_as_str ro)"
  "CHR ''%'' \<notin> set (feedback_as_str f)" "CHR '';'' \<notin> set (feedback_as_str f)"
  "CHR ''%'' \<notin> set (binding_status_as_str s)" "CHR '';'' \<notin> set (binding_status_as_str s)"
  "utf8_valid (binding_role_as_str ro)" "utf8_valid (feedback_as_str f)" "utf8_valid (binding_status_as_str s)"
proof -
  show "CHR ''%'' \<notin> set (feedback_as_str f)" "CHR '';'' \<notin> set (feedback_as_str f)" "utf8_valid (feedback_as_str f)"
    by (cases f; cases "case f of FeedbackSingle r \<Rightarrow> r | _ \<Rightarrow> Sense"; simp add: plain_utf8 plain_def verdant_defs)+
qed (cases c; cases ro; cases s; simp add: plain_utf8 plain_def verdant_defs)+

lemma mode_text_utf8: "\<forall>m. mode = Some m \<longrightarrow> op_mode_ok m \<Longrightarrow> utf8_valid (mode_text mode)"
  by (cases mode) (auto simp: mode_text_def op_mode_ok_utf8)

lemma proposal_fields_ok:
  assumes "binding_ok (pp_binding pending)" "mode_plain (pb_mode (pp_binding pending))" "id_ok (pp_operation pending)"
    "report_ok report"
  shows "list_all field_ok (proposal_fields pending report)" "distinct (map fst (proposal_fields pending report))"
    "utf8_valid (fields_text (proposal_fields pending report))"
proof -
  have m: "utf8_valid (mode_text (pb_mode (pp_binding pending)))"
    by (rule mode_text_utf8) (use assms(1) in \<open>auto simp: binding_ok_def\<close>)
  show "list_all field_ok (proposal_fields pending report)"
    using assms m by (simp add: proposal_fields_def Let_def field_ok_encode field_ok_plain binding_ok_def mode_plain_def
        report_ok_def trusted_scope_ok_def unit_ok_utf8 plain_utf8 plain_def verdant_defs)
  show "distinct (map fst (proposal_fields pending report))" by (simp add: proposal_fields_def Let_def)
  show "utf8_valid (fields_text (proposal_fields pending report))"
    using m by (intro fields_text_utf8) (simp add: proposal_fields_def Let_def plain_utf8 plain_def verdant_defs)
qed

lemma proposal_get:
  assumes "(k, e, v) \<in> set (proposal_fields pending report)"
  shows "bt_get (texts_of (proposal_fields pending report)) k = Some v"
  by (rule texts_of_mem [OF _ assms]) (simp add: proposal_fields_def Let_def)

lemma proposal_decodes:
  assumes "binding_ok (pp_binding pending)" "mode_plain (pb_mode (pp_binding pending))" "id_ok (pp_operation pending)"
    "report_ok report"
  shows "\<exists>m. b_split_descriptor (stored_proposal pending report) = Inr m \<and> decode_propose m = Inr (pp_binding pending) \<and>
    stored_revision m = Inr (pp_revision pending) \<and> is_ok (stored_actor m) \<and> bt_get m ''v'' = Some ''2'' \<and>
    bt_get m ''kind'' = Some ''propose'' \<and> bt_get m ''operation'' = Some (pp_operation pending)"
proof -
  let ?m = "texts_of (proposal_fields pending report)"
  note ok = proposal_fields_ok [OF assms]
  have split: "b_split_descriptor (stored_proposal pending report) = Inr ?m"
    unfolding stored_proposal_fields by (rule split_fields) (use ok in \<open>simp_all add: proposal_fields_def Let_def\<close>)
  have "\<forall>(k, v) \<in> set (binding_field_list (pp_binding pending)). bt_get ?m k = Some v"
    by (auto simp: binding_field_list_def canonical_fields_def proposal_fields_def Let_def intro!: proposal_get [unfolded proposal_fields_def Let_def])
  with assms have dec: "decode_propose ?m = Inr (pp_binding pending)"
    by (intro decode_propose_fields) (auto simp: mode_plain_def)
  have g: "bt_get ?m ''revision'' = Some (show_word (pp_revision pending))" "bt_get ?m ''v'' = Some ''2''"
      "bt_get ?m ''kind'' = Some ''propose''" "bt_get ?m ''operation'' = Some (pp_operation pending)"
      "bt_get ?m ''capability'' = Some (ir_cap (actor_row (er_actor report)))"
      "bt_get ?m ''scope'' = Some (scope_text (ceiling_scope (actor_bound (er_actor report))))"
      "bt_get ?m ''capgen'' = Some (show_word (ir_capgen (actor_row (er_actor report))))"
      "bt_get ?m ''issuer'' = Some (ir_issuer (actor_row (er_actor report)))"
    by (rule proposal_get, simp add: proposal_fields_def Let_def, fast?)+
  have "bt_get ?m ''fp'' = None" "bt_get ?m ''key'' = None" "bt_get ?m ''key_id'' = None"
    by (subst texts_of_get; simp add: proposal_fields_def Let_def)+
  with g assms(4) have "is_ok (stored_actor ?m)"
    by (simp add: stored_actor_def Let_def report_ok_def trusted_scope_parse_self [unfolded trusted_scope_ok_def])
  with split dec g show ?thesis by (auto simp: stored_revision_def)
qed

lemma checked_add_one: "x \<noteq> - 1 \<Longrightarrow> checked_add (x :: u32) 1 = Some (x + 1)"
proof -
  assume "x \<noteq> - 1"
  moreover have "unat (- 1 :: u32) = 2 ^ 32 - 1" by (simp add: unsigned_minus_1_eq_mask mask_eq_exp_minus_1)
  ultimately have "unat x \<noteq> 2 ^ 32 - 1" by (auto simp: word_unat_eq_iff)
  moreover have "unat x < 2 ^ 32" using unsigned_less [of x] by simp
  ultimately show ?thesis by (simp add: checked_add_def)
qed

section \<open>A committed proposal is durable and found again\<close>

lemma rg_bindings_bumped: "rg_bindings ((bump_revision (r\<lparr>rg_bindings := bs\<rparr>))\<lparr>rg_sequence := n\<rparr>) = bs"
  by (simp add: bump_revision_def)

lemma proposal_row_registry:
  assumes "binding_ok (pp_binding pending)" "mode_plain (pb_mode (pp_binding pending))" "id_ok (pp_operation pending)"
    "report_ok report" "pr_kind p = op_propose_text" "pr_value p = value_to_json (VText (stored_proposal pending report))"
    "0 < n" "in_i64 n" "replays rows r" "pr_seq p = rg_sequence r + 1" "rg_revision r = pp_revision pending"
  obtains row where "decode_row (stored_columns n p) = Inr row"
    "replays (rows @ [row]) ((bump_revision (r\<lparr>rg_bindings := rg_bindings r @ [pp_binding pending]\<rparr>))\<lparr>rg_sequence := rg_sequence r + 1\<rparr>)"
proof -
  obtain m where m: "b_split_descriptor (stored_proposal pending report) = Inr m" "decode_propose m = Inr (pp_binding pending)"
      "stored_revision m = Inr (pp_revision pending)" "is_ok (stored_actor m)" "bt_get m ''v'' = Some ''2''"
      "bt_get m ''kind'' = Some ''propose''"
    using proposal_decodes [OF assms(1-4)] by blast
  let ?row = "row_of n p (stored_proposal pending report)"
  let ?q = "bump_revision (r\<lparr>rg_bindings := rg_bindings r @ [pp_binding pending]\<rparr>)"
  have u: "utf8_valid (stored_proposal pending report)"
    using proposal_fields_ok(3) [OF assms(1-4)] by (simp add: stored_proposal_fields)
  have dec: "decode_row (stored_columns n p) = Inr ?row"
    by (rule decode_row_stored [OF _ assms(6) u assms(7,8)]) (simp add: assms(5) binding_operations_def)
  obtain act where act: "stored_actor m = Inr act" using m(4) by (auto simp: is_ok_iff)
  have rp: "replay_propose m r = Inr ?q" using m(2) act by (simp add: replay_propose_def)
  have "apply_kind op_propose_text ''propose'' m r = Inr ?q"
    unfolding apply_kind_def using rp by (simp add: binding_op_texts)
  with m assms(5,11) have "apply_row ?row r = Inr ?q" by (simp add: apply_row_def row_of_def)
  with replays_snoc [OF assms(9), of ?row ?q] assms(10)
  have "replays (rows @ [?row]) (?q\<lparr>rg_sequence := rg_sequence r + 1\<rparr>)" by (simp add: row_of_def)
  from that [OF dec this] show thesis .
qed

lemma proposal_row_replays:
  assumes "binding_ok (pp_binding pending)" "mode_plain (pb_mode (pp_binding pending))" "id_ok (pp_operation pending)"
    "report_ok report" "pr_kind p = op_propose_text" "pr_value p = value_to_json (VText (stored_proposal pending report))"
    "0 < n" "in_i64 n" "replays rows r" "pr_seq p = rg_sequence r + 1" "rg_revision r = pp_revision pending"
  obtains row q where "decode_row (stored_columns n p) = Inr row" "replays (rows @ [row]) q"
    "rg_bindings q = rg_bindings r @ [pp_binding pending]"
  using proposal_row_registry [OF assms] that by (metis rg_bindings_bumped)

lemma reconcile_finds:
  assumes "binding_ok (pp_binding pending)" "mode_plain (pb_mode (pp_binding pending))" "id_ok (pp_operation pending)"
    "report_ok report" "0 < n" "in_i64 n" "pp_revision pending \<noteq> - 1"
    "replay (rv_scan (pv_base pv)) r0 = (r, Inr ())" "pv_reconcile pv = MCommitted operation [[show_int n]]"
    "pv_committed pv n op_propose_text = Inr [[sql_quote (value_to_json (VText (stored_proposal pending report)))]]"
  shows "submit_proposal pv credential pending r0 =
    (r, Inr \<lparr>pc_operation = pp_operation pending, pc_row_id = n, pc_revision = pp_revision pending + 1,
       pc_binding = pp_binding pending\<rparr>)"
proof -
  obtain m where m: "b_split_descriptor (stored_proposal pending report) = Inr m" "decode_propose m = Inr (pp_binding pending)"
      "stored_revision m = Inr (pp_revision pending)" "bt_get m ''v'' = Some ''2''"
      "bt_get m ''operation'' = Some (pp_operation pending)"
    using proposal_decodes [OF assms(1-4)] by blast
  have u: "utf8_valid (stored_proposal pending report)"
    using proposal_fields_ok(3) [OF assms(1-4)] by (simp add: stored_proposal_fields)
  have sub: "committed_id [[show_int n]] = Some n" using assms(5,6) by (simp add: committed_id_def)
  have dec: "committed_descriptor (pv_committed pv) n (pp_operation pending) op_propose_text = Inr m"
    using assms(10) m value_round_trip_gen [of "VText (stored_proposal pending report)"] u by (simp add: committed_descriptor_def)
  have add: "checked_add (pp_revision pending) 1 = Some (pp_revision pending + 1)" 
    using assms(7) by (simp add: checked_add_one)
  show ?thesis
    by (simp add: submit_proposal_def reconcile_proposal_def run_then_def assms(8,9) sub dec m add)
qed

section \<open>A mode with a separator\<close>

lemma split_on_nonempty [simp]: "split_on c s \<noteq> []"
  by (induction s) (auto split: list.splits)

lemma split_on_concat: "split_on c (a @ c # b) = split_on c a @ split_on c b"
  by (induction a) (auto split: list.splits)

lemma b_split_parts_bare:
  "p \<in> set ps \<Longrightarrow> CHR ''='' \<notin> set p \<Longrightarrow> \<not> is_ok (b_split_parts ps m)"
proof (induction ps arbitrary: m)
  case (Cons q ps)
  show ?case
  proof (cases "p = q")
    case True
    with Cons.prems have "dropWhile (\<lambda>c. c \<noteq> CHR ''='') q = []" by auto
    then show ?thesis by (simp only: b_split_parts.simps Let_def list.case) simp
  next
    case False
    with Cons show ?thesis by (auto simp: Let_def and_then_def split: list.splits sum.splits)
  qed
qed simp

lemma b_split_bare: "CHR ''='' \<notin> set b \<Longrightarrow> \<not> is_ok (b_split_descriptor (a @ CHR '';'' # b @ CHR '';'' # c))"
proof -
  assume b: "CHR ''='' \<notin> set b"
  obtain p where "p \<in> set (split_on (CHR '';'') b)" by (meson list.set_sel(1) split_on_nonempty)
  moreover from this b have "CHR ''='' \<notin> set p"
    by (induction b arbitrary: p) (auto split: list.splits if_splits)
  ultimately show ?thesis
    unfolding b_split_descriptor_def split_on_concat by (intro b_split_parts_bare [of p]) auto
qed

lemma join_on_middle: "xs \<noteq> [] \<Longrightarrow> ys \<noteq> [] \<Longrightarrow> join_on c (xs @ y # ys) = join_on c xs @ c # y @ c # join_on c ys"
  using join_on_append [of xs "y # ys" c] join_on_append [of "[y]" ys c] by simp

lemma stored_proposal_split: "\<exists>a c. stored_proposal pending report = a @ mode_text (pb_mode (pp_binding pending)) @ CHR '';'' # c"
proof -
  let ?b = "pp_binding pending"
  let ?xs = "[''v=2'', ''kind=propose'', part ''endpoint'' (pct_encode (pb_endpoint ?b)),
      part ''eclass'' (endpoint_class_as_str (pb_class ?b)), part ''escope'' (pct_encode (scope_text (pb_endpoint_scope ?b))),
      part ''equipment'' (pct_encode (pb_equipment ?b)), part ''property'' (pct_encode (pb_property ?b)),
      part ''pscope'' (pct_encode (scope_text (pb_point_scope ?b))), part ''source'' (pct_encode (pb_source ?b)),
      part ''unit'' (pct_encode (unit_as_str (pb_unit ?b)))]"
  let ?ys = "[part ''requested'' (binding_role_as_str (pb_requested ?b)), part ''effective'' (binding_role_as_str (pb_effective ?b)),
      part ''feedback'' (feedback_as_str (pb_feedback ?b)), part ''status'' (binding_status_as_str (pb_status ?b))]"
  have "proposal_descriptor ?b = join_on (CHR '';'') (?xs @ part ''mode'' (mode_text (pb_mode ?b)) # ?ys)"
    by (simp only: proposal_descriptor_def append.simps)
  also have "\<dots> = (join_on (CHR '';'') ?xs @ '';mode='') @ mode_text (pb_mode ?b) @ CHR '';'' # join_on (CHR '';'') ?ys"
    by (subst join_on_middle) (simp_all only: part_def append_assoc list.simps append.simps not_False_eq_True simp_thms)
  finally show ?thesis unfolding stored_proposal_def by (metis append_assoc append_Cons)
qed

lemma separated_mode_unreadable:
  assumes "pb_mode (pp_binding pending) = Some (UnknownMode mode)" "CHR '';'' \<in> set mode" "CHR ''='' \<notin> set mode"
  shows "\<not> is_ok (b_split_descriptor (stored_proposal pending report))"
proof -
  obtain xs ys where mode: "mode = xs @ CHR '';'' # ys" using assms(2) by (meson split_list)
  with assms(3) have "CHR ''='' \<notin> set ys" by simp
  moreover obtain a c where "stored_proposal pending report = (a @ xs) @ CHR '';'' # ys @ CHR '';'' # c"
    using stored_proposal_split [of pending report] assms(1) by (auto simp: mode mode_text_def)
  ultimately show ?thesis using b_split_bare by metis
qed

lemma replay_rows_unreadable:
  "row \<in> set rows \<Longrightarrow> \<not> is_ok (b_split_descriptor (hr_descriptor row)) \<Longrightarrow> \<not> is_ok (snd (replay_rows c rows r))"
proof (induction c rows r rule: replay_rows.induct)
  case (2 c row' rows r)
  show ?case
  proof (cases "row = row'")
    case True
    with 2 show ?thesis by (auto simp: apply_row_def Let_def and_then_def split: sum.splits)
  next
    case False
    with 2 show ?thesis by (auto simp: Let_def split: sum.splits)
  qed
qed simp

lemma decode_rows_mem:
  "decode_rows (cols @ c # later) = Inr rows \<Longrightarrow> \<exists>row \<in> set rows. decode_row c = Inr row"
  by (induction cols arbitrary: rows) fastforce+

lemma decode_row_descriptor:
  "decode_row (stored_columns n p) = Inr row \<Longrightarrow> pr_value p = value_to_json (VText d) \<Longrightarrow> utf8_valid d \<Longrightarrow> hr_descriptor row = d"
  using value_round_trip_gen [of "VText d"] by (auto simp: decode_row_def stored_columns_def split: if_splits)

lemma unreadable_row_blocks:
  assumes "pr_value p = value_to_json (VText d)" "utf8_valid d" "\<not> is_ok (b_split_descriptor d)"
  shows "\<not> is_ok (snd (replay (Inr (cols @ stored_columns n p # later)) r))"
proof (cases "decode_rows (cols @ stored_columns n p # later)")
  case (Inr rows)
  then obtain row where "row \<in> set rows" "decode_row (stored_columns n p) = Inr row" using decode_rows_mem by blast
  with decode_row_descriptor [OF _ assms(1,2)] assms(3) replay_rows_unreadable Inr show ?thesis
    by (simp add: replay_def read_descriptors_def)
qed (simp add: replay_def read_descriptors_def)

lemma stored_proposal_utf8:
  assumes "\<forall>m. pb_mode (pp_binding pending) = Some m \<longrightarrow> op_mode_ok m"
  shows "utf8_valid (stored_proposal pending report)"
  unfolding stored_proposal_fields using mode_text_utf8 [OF assms]
  by (intro fields_text_utf8) (simp add: proposal_fields_def Let_def plain_utf8 plain_def verdant_defs)

end
