(* ===== verification/Finding_Facts.thy ===== *)
theory Finding_Facts
  imports Closure_Facts Proposal_Facts
begin

text \<open>
  Facts of findings: the stored finding reads back, its replay appends it to the registry, and the
  seal's closure accepts it with the fingerprint of the binding it was emitted for.
\<close>

section \<open>The stored finding reads back\<close>

definition finding_fields :: "operation_id \<Rightarrow> binding_revision \<Rightarrow> proposed_binding \<Rightarrow> finding \<Rightarrow> enter_report \<Rightarrow>
    (string \<times> string \<times> string) list" where
  "finding_fields operation revision b f report =
     (let a = er_actor report; e = (\<lambda>k v. (k, pct_encode v, v)); p = (\<lambda>k v. (k, v, v))
      in [p ''v'' ''2'', p ''kind'' ''finding'', e ''operation'' operation, e ''fid'' (fi_id f),
          p ''generation'' (show_word (fi_generation f)), p ''revision'' (show_word revision), e ''digest'' (fi_digest f),
          e ''summary'' (fi_summary f), e ''capability'' (ir_cap (actor_row a)),
          e ''scope'' (scope_text (ceiling_scope (actor_bound a))), p ''capgen'' (show_word (ir_capgen (actor_row a))),
          e ''issuer'' (ir_issuer (actor_row a)), e ''equipment'' (pb_equipment b), e ''property'' (pb_property b),
          e ''binding'' (canonical_bytes b)])"

lemma stored_finding_fields:
  "stored_finding operation revision b f (actor_fields report) = fields_text (finding_fields operation revision b f report)"
  by (simp add: stored_finding_def finding_fields_def actor_fields_def actor_text_def fields_text_def part_def Let_def)

lemma show_hex_facts:
  "length (show_hex w n) = w" "list_all id_char (show_hex w n)"
proof (induction w n rule: show_hex.induct)
  case (2 w n)
  have "unat (n mod 16) < 16" by (simp add: unat_mod)
  then have "id_char (hex_digit (unat (n mod 16)))"
    by (auto simp: hex_digit_def id_char_def is_ascii_alphanumeric_def is_ascii_digit_def byte_char_of)
  with 2 show "length (show_hex (Suc w) n) = Suc w" "list_all id_char (show_hex (Suc w) n)" by simp_all
qed simp_all

lemma finding_id_ok: "id_ok (''finding-'' @ fnv1a_hex s)" "id_ok (fnv1a_hex s)"
  using show_hex_facts [of 16 "fnv1a 0xCBF29CE484222325 s"]
  by (auto simp: fnv1a_hex_def id_ok_def max_id_len_def id_char_def is_ascii_alphanumeric_def is_ascii_digit_def simp del: show_hex.simps)

lemma finding_id_parse_ok: "id_ok raw \<Longrightarrow> finding_id_parse raw = Inr raw"
  by (simp add: finding_id_parse_def id_ok_def max_id_len_def max_finding_id_len_def)

lemma canonical_bytes_utf8:
  assumes "binding_ok b" shows "utf8_valid (canonical_bytes b)"
proof -
  have "utf8_valid (mode_text (pb_mode b))" by (rule mode_text_utf8) (use assms in \<open>auto simp: binding_ok_def\<close>)
  then have "\<forall>t \<in> set (''binding-canonical-v2'' # canonical_fields b). utf8_valid t"
    using assms by (auto simp: canonical_fields_def binding_ok_def trusted_scope_ok_def unit_ok_utf8 plain_utf8 plain_def verdant_defs)
  then show ?thesis unfolding canonical_bytes_def
    by (intro join_on_utf8) (auto simp: verdant_defs)
qed

lemma actor_fields_utf8: "utf8_valid (actor_fields report)"
  unfolding actor_fields_def actor_text_def Let_def
  by (rule join_on_utf8) (auto simp: part_def plain_utf8 plain_def verdant_defs)

lemma finding_utf8:
  assumes "binding_ok b"
  shows "utf8_valid (fi_summary (finding_for_binding b revision (actor_fields report)))"
  using assms actor_fields_utf8 [of report]
  by (simp add: finding_for_binding_def Let_def binding_ok_def unit_ok_utf8 plain_utf8 plain_def verdant_defs)

lemma finding_fields_ok:
  assumes "binding_ok b" "id_ok operation" "report_ok report" "f = finding_for_binding b revision (actor_fields report)"
  shows "list_all field_ok (finding_fields operation revision b f report)"
    "distinct (map fst (finding_fields operation revision b f report))"
    "utf8_valid (fields_text (finding_fields operation revision b f report))"
proof -
  have f: "id_ok (fi_id f)" "id_ok (fi_digest f)" "utf8_valid (fi_summary f)"
    using finding_id_ok finding_utf8 [OF assms(1)] by (simp_all add: assms(4) finding_for_binding_def Let_def)
  show "list_all field_ok (finding_fields operation revision b f report)"
    using assms f canonical_bytes_utf8 by (simp add: finding_fields_def Let_def field_ok_encode field_ok_plain binding_ok_def
        report_ok_def plain_utf8 plain_def verdant_defs)
  show "distinct (map fst (finding_fields operation revision b f report))" by (simp add: finding_fields_def Let_def)
  show "utf8_valid (fields_text (finding_fields operation revision b f report))"
    by (intro fields_text_utf8) (simp add: finding_fields_def Let_def plain_utf8 plain_def verdant_defs)
qed

lemma finding_get_field:
  "(k, e, v) \<in> set (finding_fields operation revision b f report) \<Longrightarrow>
     bt_get (texts_of (finding_fields operation revision b f report)) k = Some v"
  by (rule texts_of_mem) (simp_all add: finding_fields_def Let_def)

lemma finding_fields_get:
  assumes "m = texts_of (finding_fields operation revision b f report)"
  shows "bt_get m ''v'' = Some ''2''" "bt_get m ''kind'' = Some ''finding''" "bt_get m ''operation'' = Some operation"
    "bt_get m ''fid'' = Some (fi_id f)" "bt_get m ''generation'' = Some (show_word (fi_generation f))"
    "bt_get m ''revision'' = Some (show_word revision)" "bt_get m ''digest'' = Some (fi_digest f)"
    "bt_get m ''summary'' = Some (fi_summary f)" "bt_get m ''capability'' = Some (ir_cap (actor_row (er_actor report)))"
    "bt_get m ''scope'' = Some (scope_text (ceiling_scope (actor_bound (er_actor report))))"
    "bt_get m ''capgen'' = Some (show_word (ir_capgen (actor_row (er_actor report))))"
    "bt_get m ''issuer'' = Some (ir_issuer (actor_row (er_actor report)))" "bt_get m ''equipment'' = Some (pb_equipment b)"
    "bt_get m ''property'' = Some (pb_property b)" "bt_get m ''binding'' = Some (canonical_bytes b)"
    "bt_get m ''fp'' = None" "bt_get m ''key'' = None" "bt_get m ''key_id'' = None"
  unfolding assms
  by ((rule finding_get_field, simp add: finding_fields_def Let_def, fast?) | (subst texts_of_get; simp add: finding_fields_def Let_def))+

lemma finding_split:
  assumes "binding_ok b" "id_ok operation" "report_ok report" "f = finding_for_binding b revision (actor_fields report)"
  shows "b_split_descriptor (stored_finding operation revision b f (actor_fields report)) =
    Inr (texts_of (finding_fields operation revision b f report))"
  unfolding stored_finding_fields by (rule split_fields) (use finding_fields_ok [OF assms] in \<open>simp_all add: finding_fields_def Let_def\<close>)

lemma finding_actor:
  assumes "report_ok report" "m = texts_of (finding_fields operation revision b f report)"
  shows "stored_actor m = Inr (actor_fields report)"
  using assms(1) finding_fields_get [OF assms(2)]
  by (simp add: stored_actor_def Let_def report_ok_def trusted_scope_parse_self [unfolded trusted_scope_ok_def] actor_fields_def)

section \<open>A committed finding is replayed\<close>

lemma finding_row_replays:
  assumes "binding_ok b" "id_ok operation" "report_ok report" "f = finding_for_binding b (rg_revision r) (actor_fields report)"
    and "pr_kind p = op_finding_text" "pr_value p = value_to_json (VText (stored_finding operation (rg_revision r) b f (actor_fields report)))"
    and "0 < n" "in_i64 n" "replays rows r" "pr_seq p = rg_sequence r + 1"
  obtains row q where "decode_row (stored_columns n p) = Inr row" "replays (rows @ [row]) q" "rg_findings q = rg_findings r @ [f]"
proof -
  let ?d = "stored_finding operation (rg_revision r) b f (actor_fields report)"
  let ?row = "row_of n p ?d" and ?q = "r\<lparr>rg_findings := rg_findings r @ [f]\<rparr>"
  let ?m = "texts_of (finding_fields operation (rg_revision r) b f report)"
  note g = finding_fields_get [OF refl, of operation "rg_revision r" b f report]
  have u: "utf8_valid ?d" using finding_fields_ok(3) [OF assms(1-4)] by (simp add: stored_finding_fields)
  have dec: "decode_row (stored_columns n p) = Inr ?row"
    by (rule decode_row_stored [OF _ assms(6) u assms(7,8)]) (simp add: assms(5) binding_operations_def)
  have f: "finding_id_parse (fi_id f) = Inr (fi_id f)" "fi_digest f \<noteq> []" "fi_summary f \<noteq> []" "fi_generation f = rg_revision r"
      "fi_revision f = rg_revision r" "fi_actor f = actor_fields report"
    using finding_id_ok by (auto simp: assms(4) finding_for_binding_def Let_def finding_id_parse_ok id_ok_def)
  have "replay_finding ?m r = Inr ?q"
    using g f finding_actor [OF assms(3) refl, of operation "rg_revision r" b f] by (simp add: replay_finding_def)
  then have "apply_kind op_finding_text ''finding'' ?m r = Inr ?q" unfolding apply_kind_def by (simp add: binding_op_texts)
  with g finding_split [OF assms(1-4)] assms(5) have "apply_row ?row r = Inr ?q"
    by (simp add: apply_row_def row_of_def stored_revision_def)
  with replays_snoc [OF assms(9), of ?row ?q] assms(10)
  have "replays (rows @ [?row]) (?q\<lparr>rg_sequence := rg_sequence r + 1\<rparr>)" by (simp add: row_of_def)
  from that [OF dec this] show thesis by simp
qed

section \<open>A committed finding can be sealed\<close>

definition separator_free :: "proposed_binding \<Rightarrow> bool" where
  "separator_free b \<longleftrightarrow> unit_separator \<notin> set (unit_as_str (pb_unit b)) \<and> unit_separator \<notin> set (mode_text (pb_mode b)) \<and>
     pb_mode b \<noteq> Some (UnknownMode ''-'')"

lemma id_no_separator: "id_ok s \<Longrightarrow> unit_separator \<notin> set s"
  by (auto simp: id_ok_def list_all_iff id_char_def is_ascii_alphanumeric_def is_ascii_digit_def verdant_defs)

lemma canonical_parts:
  assumes "binding_ok b" "separator_free b"
  shows "split_on unit_separator (canonical_bytes b) = ''binding-canonical-v2'' # canonical_fields b"
proof -
  have e: "unit_separator \<notin> set (endpoint_class_as_str (pb_class b))" "unit_separator \<notin> set (binding_role_as_str (pb_requested b))"
      "unit_separator \<notin> set (binding_role_as_str (pb_effective b))" "unit_separator \<notin> set (binding_status_as_str (pb_status b))"
    by (cases "pb_class b"; cases "pb_requested b"; cases "pb_effective b"; cases "pb_status b"; simp add: verdant_defs)+
  have f: "unit_separator \<notin> set (feedback_as_str (pb_feedback b))"
    by (cases "pb_feedback b"; cases "case pb_feedback b of FeedbackSingle r \<Rightarrow> r | _ \<Rightarrow> Sense"; simp add: verdant_defs)
  have "\<forall>p \<in> set (''binding-canonical-v2'' # canonical_fields b). unit_separator \<notin> set p"
    using assms e f by (simp add: canonical_fields_def binding_ok_def trusted_scope_ok_def id_no_separator separator_free_def)
      (simp add: verdant_defs)
  then show ?thesis unfolding canonical_bytes_def by (intro split_on_join) simp_all
qed

lemma canonical_decodes:
  assumes "binding_ok b" "pb_mode b \<noteq> Some (UnknownMode ''-'')"
  shows "decode_propose (canonical_texts (canonical_fields b)) = Inr b"
proof (rule decode_propose_fields [OF assms])
  have "bt_get (bt.insert_all kvs []) k = Some v" if "distinct (map fst kvs)" "(k, v) \<in> set kvs" for kvs :: "(string \<times> string) list" and k v
    using that by (simp add: bt.get_insert_all map_of_eq_Some_iff)
  then show "\<forall>(k, v) \<in> set (binding_field_list b). bt_get (canonical_texts (canonical_fields b)) k = Some v"
    unfolding canonical_texts_def binding_field_list_def canonical_names_def
    by (auto simp: canonical_fields_def)
qed

definition sealable :: "proposed_binding \<Rightarrow> trusted_scope \<Rightarrow> bool" where
  "sealable b scope \<longleftrightarrow> binding_ok b \<and> separator_free b \<and> pb_status b = Valid \<and> pb_requested b = pb_effective b \<and>
     pb_feedback b \<noteq> FeedbackAmbiguous \<and> pb_endpoint_scope b = scope \<and> pb_point_scope b = scope"

lemma fingerprint_binding_ok:
  assumes "sealable b scope" shows "fingerprint_binding (canonical_bytes b) scope = Inr b"
proof -
  have "propose (pb_endpoint b) (pb_class b) (pb_endpoint_scope b) (pb_equipment b)
                 (pb_property b) (pb_point_scope b) (pb_source b) (pb_unit b) (pb_class b) (pb_unit b) (pb_mode b)
                 (pb_requested b) (pb_effective b) (pb_feedback b) = Inr b"
    using assms by (auto simp: propose_Inr sealable_def)
  moreover have "length (canonical_fields b) = 13" by (simp add: canonical_fields_def)
  ultimately show ?thesis
    using assms canonical_parts [of b] canonical_decodes [of b]
    by (simp add: fingerprint_binding_def Let_def sealable_def separator_free_def)
qed

lemma stored_finding_fingerprint:
  assumes "sealable b scope" "id_ok operation" "report_ok report" "f = finding_for_binding b revision (actor_fields report)"
    and "revision \<noteq> 0" "ceiling_scope (actor_bound (er_actor report)) = scope" "sha_hash tool (canonical_bytes b) = Inr d"
  shows "finding_fingerprint (stored_finding operation revision b f (actor_fields report)) scope tool =
    Inr (frames_encode [fi_id f, show_word revision, actor_fields report, ''synthetic-fnv1a64-not-authority'', fi_digest f,
      ''binding-canonical-v2-sha256'', d])"
proof -
  have b: "binding_ok b" using assms(1) by (simp add: sealable_def)
  note g = finding_fields_get [OF refl, of operation revision b f report]
  have act: "fingerprint_actor (texts_of (finding_fields operation revision b f report)) scope = Inr (actor_fields report)"
    using g assms(3,6) by (auto simp: fingerprint_actor_def finding_get_def report_ok_def actor_fields_def Let_def
        trusted_scope_parse_self [unfolded trusted_scope_ok_def])
  have f: "fi_generation f = revision" by (simp add: assms(4) finding_for_binding_def Let_def)
  show ?thesis
    using g f assms(5,7) act fingerprint_binding_ok [OF assms(1)]
    by (simp add: finding_fingerprint_def finding_split [OF b assms(2-4)] finding_get_def Let_def assms(4) [symmetric])
qed

section \<open>Emitting\<close>

lemma bindings_revision:
  assumes "replays rows r" "rg_bindings r \<noteq> []" shows "rg_revision r \<noteq> 0"
proof -
  have "rg_bindings r \<noteq> [] \<longrightarrow> rg_revision r \<noteq> 0"
  proof (rule replays_invariant [where P = "\<lambda>r. rg_bindings r \<noteq> [] \<longrightarrow> rg_revision r \<noteq> 0", OF _ _ _ assms(1)])
    have "rg_revision (bump_revision r) \<noteq> 0" for r by (simp add: bump_revision_def eq_neg_iff_add_eq_0)
    then show "rg_bindings q \<noteq> [] \<longrightarrow> rg_revision q \<noteq> 0"
      if "apply_row row r = Inr q" "rg_bindings r \<noteq> [] \<longrightarrow> rg_revision r \<noteq> 0" for row r q
      using that by (elim replay_kind_cases) auto
  qed (simp_all add: cleared_registry_def)
  with assms(2) show ?thesis by blast
qed

lemma enter_report_scope:
  assumes "enter g c scope required = Inr report" shows "ceiling_scope (actor_bound (er_actor report)) = scope"
proof -
  obtain cred where c: "c = Some cred" using assms by (cases c) (auto simp: enter_def authenticate_def)
  with assms obtain st row where st: "read_state (gv_horizon g) (gv_scan g) = Inr st"
      "checked st (gv_now g) cred (Some scope) False = Inr row"
    by (auto simp: enter_def authenticate_def)
  note chk = checked_sound [OF st(2)]
  then have ok: "issue_ok row" "ir_scope row = scope_text scope"
    using read_state_issues_ok [OF st(1)] by (auto simp: issues_ok_def admitted_row_def)
  then obtain role where "role_kind_parse (ir_role row) = Inr role" by (auto simp: issue_ok_def is_ok_iff)
  from enter_issued [OF st ok(1) this, of required] assms show ?thesis
    by (auto simp: c actor_report_def ok(2) split: if_splits)
qed

lemma authority_scope:
  "authority_of av credential scope requested = Inr auth \<Longrightarrow> ceiling_scope (actor_bound (er_actor (au_report auth))) = scope"
  using authority_of_Inr [of av credential scope requested auth]
  by (cases requested) (auto simp: enter_review_def enter_publish_def dest: enter_report_scope)

lemma emit_finding_cases:
  assumes "emit_finding_operation pv operation revision b credential r0 = (r', Inr f)" "pv_reconcile pv = MNotCommitted o' e"
  obtains r auth p n where "replay (rv_scan (pv_base pv)) r0 = (r, Inr ())" "rg_revision r = revision" "resolve r b = Inr ()"
    "b \<in> set (rg_bindings r)"
    "authority_of (pv_authority pv) (Some credential) (pb_point_scope b) (pb_requested b) = Inr auth"
    "f = finding_for_binding b revision (actor_fields (au_report auth))"
    "prepare_row (pv_base pv) r operation op_finding_text (pb_equipment b)
       (stored_finding operation revision b f (actor_fields (au_report auth))) (Some auth) = Inr p"
    "submitted (rv_submit (pv_base pv) p) = Inr n"
proof -
  obtain r where r: "replay (rv_scan (pv_base pv)) r0 = (r, Inr ())"
    using assms by (cases "replay (rv_scan (pv_base pv)) r0"; cases "snd (replay (rv_scan (pv_base pv)) r0)")
      (auto simp: emit_finding_operation_def run_then_def)
  obtain auth p n where "rg_revision r = revision" "resolve r b = Inr ()" "b \<in> set (rg_bindings r)"
    "authority_of (pv_authority pv) (Some credential) (pb_point_scope b) (pb_requested b) = Inr auth"
    "f = finding_for_binding b revision (actor_fields (au_report auth))"
    "prepare_row (pv_base pv) r operation op_finding_text (pb_equipment b)
       (stored_finding operation revision b f (actor_fields (au_report auth))) (Some auth) = Inr p"
    "submitted (rv_submit (pv_base pv) p) = Inr n"
    using assms r by (auto simp: emit_finding_operation_def run_then_eq_Inr run_res_eq_Inr Let_def
        require_revision_def split: if_splits)
  with that r show thesis by blast
qed

lemma emitted_finding_gen:
  assumes e: "emit_finding_operation pv operation revision b credential r0 = (r', Inr f)" "pv_reconcile pv = MNotCommitted o' e"
    and ok: "binding_ok b" "id_ok operation"
  obtains r rows p n row q auth where "replay (rv_scan (pv_base pv)) r0 = (r, Inr ())" "read_descriptors (rv_scan (pv_base pv)) = Inr rows"
    "submitted (rv_submit (pv_base pv) p) = Inr n" "decode_row (stored_columns n p) = Inr row" "replays (rows @ [row]) q"
    "rg_findings q = rg_findings r @ [f]" "b \<in> set (rg_bindings r)" "resolve r b = Inr ()"
    "authority_of (pv_authority pv) (Some credential) (pb_point_scope b) (pb_requested b) = Inr auth"
    "pr_value p = value_to_json (VText (stored_finding operation revision b f (actor_fields (au_report auth))))"
    "f = finding_for_binding b revision (actor_fields (au_report auth))" "revision \<noteq> 0"
proof (rule emit_finding_cases [OF e])
  fix r auth p n
  assume a: "replay (rv_scan (pv_base pv)) r0 = (r, Inr ())" "rg_revision r = revision" "resolve r b = Inr ()" "b \<in> set (rg_bindings r)"
    "authority_of (pv_authority pv) (Some credential) (pb_point_scope b) (pb_requested b) = Inr auth"
    "f = finding_for_binding b revision (actor_fields (au_report auth))"
    "prepare_row (pv_base pv) r operation op_finding_text (pb_equipment b)
       (stored_finding operation revision b f (actor_fields (au_report auth))) (Some auth) = Inr p"
    "submitted (rv_submit (pv_base pv) p) = Inr n"
  obtain rows where rows: "read_descriptors (rv_scan (pv_base pv)) = Inr rows" "replays rows r" by (rule replay_sound [OF a(1)])
  note p = prepare_row_cases [OF a(7)] and n = submitted_range [OF a(8)]
  obtain row q where q: "decode_row (stored_columns n p) = Inr row" "replays (rows @ [row]) q" "rg_findings q = rg_findings r @ [f]"
    by (rule finding_row_replays [OF ok authority_report_ok [OF a(5)], of f r p n rows]) (use p n rows a in auto)
  have "rg_bindings r \<noteq> []" using a(4) by auto
  then have "revision \<noteq> 0" using bindings_revision [OF rows(2)] a(2) by simp
  with that [OF a(1) rows(1) a(8) q a(4,3,5)] p a(6) show thesis by blast
qed

end
