(* ===== verification/Seal_Facts.thy ===== *)
theory Seal_Facts
  imports Seal_Store Finding_Facts
begin

text \<open>
  Facts of the seal store: the invariant of its history, that releases are final, what a seal was
  checked against, and that the rows it writes are read back as the change they record.
\<close>

section \<open>The invariant of the history\<close>

definition seal_wf :: "(string \<Rightarrow> seal_error + digest) \<Rightarrow> seal_history \<Rightarrow> bool" where
  "seal_wf tool h \<longleftrightarrow> bt_ok (sh_seals h) \<and> sh_released h \<subseteq> bt_dom (sh_seals h) \<and>
     (\<forall>(i, c) \<in> set (sh_seals h). sm_identity c = i \<and> digest_ok i \<and> manifest_identity tool (sm_manifest c) = Inr i)"

definition seals_extend :: "seal_history \<Rightarrow> seal_history \<Rightarrow> bool" where
  "seals_extend h h' \<longleftrightarrow> sh_released h \<subseteq> sh_released h' \<and>
     (\<forall>i c. bt_get (sh_seals h) i = Some c \<longrightarrow> bt_get (sh_seals h') i = Some c)"

lemma seals_extend_refl: "seals_extend h h"
  by (simp add: seals_extend_def)

lemma seals_extend_trans: "seals_extend a b \<Longrightarrow> seals_extend b c \<Longrightarrow> seals_extend a c"
  by (auto simp: seals_extend_def)

lemma history_step_cases:
  assumes "history_step tool i row h = Inr h'"
  obtains (Sealed) identity mf row_id where "bt_get (sh_seals h) identity = None" "manifest_identity tool mf = Inr identity" "digest_ok identity"
      "h' = h\<lparr>sh_seals := bt_insert identity \<lparr>sm_identity = identity, sm_row_id = row_id, sm_manifest = mf,
         sm_reconciled = False\<rparr> (sh_seals h)\<rparr>"
    | (Released) identity where "identity \<in> bt_dom (sh_seals h)" "identity \<notin> sh_released h"
      "h' = h\<lparr>sh_released := insert identity (sh_released h)\<rparr>"
  using assms by (auto simp: history_step_def bt_get_None_iff split: if_splits)

lemma history_step_wf: "history_step tool i row h = Inr h' \<Longrightarrow> seal_wf tool h \<Longrightarrow> seal_wf tool h' \<and> seals_extend h h'"
proof (erule history_step_cases)
  fix identity mf row_id
  assume h: "bt_get (sh_seals h) identity = None" "manifest_identity tool mf = Inr identity" "digest_ok identity"
    "h' = h\<lparr>sh_seals := bt_insert identity \<lparr>sm_identity = identity, sm_row_id = row_id, sm_manifest = mf,
         sm_reconciled = False\<rparr> (sh_seals h)\<rparr>" and wf: "seal_wf tool h"
  have "\<forall>(i, c) \<in> set (sh_seals h'). sm_identity c = i \<and> digest_ok i \<and> manifest_identity tool (sm_manifest c) = Inr i"
    using wf h by (auto simp: seal_wf_def dest!: set_bt_insert_subset [THEN subsetD])
  then show "seal_wf tool h' \<and> seals_extend h h'"
    using wf h by (auto simp: seal_wf_def seals_extend_def)
qed (auto simp: seal_wf_def seals_extend_def)

lemma history_steps_wf:
  "history_steps tool i rows h = Inr h' \<Longrightarrow> seal_wf tool h \<Longrightarrow> seal_wf tool h' \<and> seals_extend h h'"
proof (induction rows arbitrary: i h)
  case (Cons row rows)
  then obtain h1 where "history_step tool i row h = Inr h1" "history_steps tool (i + 1) rows h1 = Inr h'" by auto
  with Cons history_step_wf show ?case by (blast intro: seals_extend_trans)
qed (simp add: seals_extend_refl)

lemma history_step_count: "history_step tool i row (h\<lparr>sh_count := n\<rparr>) = map_ok (\<lambda>h. h\<lparr>sh_count := n\<rparr>) (history_step tool i row h)"
proof -
  have comm: "map_ok g (and_then x k) = and_then x (\<lambda>y. map_ok g (k y))" for g :: "seal_history \<Rightarrow> seal_history" and x :: "seal_error + 'b" and k
    by (cases x) simp_all
  have upd: "h\<lparr>sh_count := n, sh_seals := x\<rparr> = h\<lparr>sh_seals := x, sh_count := n\<rparr>"
      "h\<lparr>sh_count := n, sh_released := y\<rparr> = h\<lparr>sh_released := y, sh_count := n\<rparr>" for x y
    by simp_all
  show ?thesis
    by (simp add: history_step_def comm upd if_distrib [of "map_ok _"] cong: if_cong)
qed

lemma history_steps_count:
  "history_steps tool i rows (h\<lparr>sh_count := n\<rparr>) = map_ok (\<lambda>h. h\<lparr>sh_count := n\<rparr>) (history_steps tool i rows h)"
proof (induction rows arbitrary: i h)
  case (Cons row rows)
  show ?case by (cases "history_step tool i row h") (simp_all add: history_step_count Cons)
qed simp

lemma history_steps_append:
  "history_steps tool i (xs @ ys) h = and_then (history_steps tool i xs h) (history_steps tool (i + length xs) ys)"
proof (induction xs arbitrary: i h)
  case (Cons x xs)
  then show ?case by (cases "history_step tool i x h") simp_all
qed simp

lemma seal_wf_start: "seal_wf tool \<lparr>sh_count = n, sh_seals = [], sh_released = {}\<rparr>"
  by (simp add: seal_wf_def)

lemma seal_history_read_cases:
  assumes "seal_history_read tool scan = Inr h"
  obtains rows where "scan = Inr rows" "length rows \<le> max_seal_history"
    "history_steps tool 0 rows \<lparr>sh_count = length rows, sh_seals = [], sh_released = {}\<rparr> = Inr h" "length (live_seals h) \<le> max_live_seals"
  using assms by (auto simp: seal_history_read_def split: if_splits)

lemma seal_history_read_wf: "seal_history_read tool scan = Inr h \<Longrightarrow> seal_wf tool h \<and> length (live_seals h) \<le> max_live_seals"
  by (erule seal_history_read_cases) (use history_steps_wf [OF _ seal_wf_start] in blast)

lemma history_steps_extend:
  assumes "history_steps tool 0 rows (start\<lparr>sh_count := n\<rparr>) = Inr h" "history_steps tool 0 (rows @ later) (start\<lparr>sh_count := m\<rparr>) = Inr h'"
    and "seal_wf tool start"
  shows "seals_extend h h'"
proof -
  obtain h0 where h0: "history_steps tool 0 rows start = Inr h0" "h = h0\<lparr>sh_count := n\<rparr>"
    using assms(1) by (auto simp: history_steps_count)
  then obtain h1 where "history_steps tool (length rows) later h0 = Inr h1" "h' = h1\<lparr>sh_count := m\<rparr>"
    using assms(2) by (auto simp: history_steps_count history_steps_append)
  with history_steps_wf [OF this(1)] history_steps_wf [OF h0(1) assms(3)] h0(2) show ?thesis by (simp add: seals_extend_def)
qed

lemma seal_history_extend:
  assumes "seal_history_read tool (Inr rows) = Inr h" "seal_history_read tool (Inr (rows @ later)) = Inr h'"
  shows "seals_extend h h'"
  using assms history_steps_extend [where start = "\<lparr>sh_count = 0, sh_seals = [], sh_released = {}\<rparr>" and tool = tool
      and rows = rows and later = later and n = "length rows" and m = "length (rows @ later)" and h = h and h' = h', OF _ _ seal_wf_start]
  by (auto elim!: seal_history_read_cases)

section \<open>Capture, release and pruning\<close>

lemma capture_cases:
  assumes "capture_simulation sl identity = Inr mf"
  obtains h c where "require_guard sl = Inr ()" "seal_history_read (sv_tool (ss_source sl)) (ss_history sl 0) = Inr h"
    "bt_get (sh_seals h) identity = Some c" "identity \<notin> sh_released h" "sm_manifest c = mf"
    "manifest_verify mf (ss_source sl) (ss_native sl) = Inr ()"
  using assms by (auto simp: capture_simulation_def split: if_splits)

lemma released_not_captured:
  assumes "seal_history_read (sv_tool (ss_source sl)) (Inr rows) = Inr h" "identity \<in> sh_released h" "ss_history sl 0 = Inr (rows @ later)"
  shows "\<not> is_ok (capture_simulation sl identity)"
proof
  assume "is_ok (capture_simulation sl identity)"
  then obtain mf where "capture_simulation sl identity = Inr mf" by (auto simp: is_ok_iff)
  then obtain h' c where h': "seal_history_read (sv_tool (ss_source sl)) (Inr (rows @ later)) = Inr h'" "identity \<notin> sh_released h'"
    using assms(3) by (auto elim!: capture_cases)
  from seal_history_extend [OF assms(1) h'(1)] assms(2) h'(2) show False by (auto simp: seals_extend_def)
qed

lemma prune_refused:
  assumes "seal_history_read (sv_tool (ss_source sl)) (ss_history sl 0) = Inr h" "bt_get (sh_seals h) identity = Some c" "identity \<notin> sh_released h"
  shows "\<exists>plan. check_prune debug sl pair = Inl plan"
proof -
  have "(identity, c) \<in> set (sh_seals h)" using assms(2) by (simp add: bt_get_def map_of_SomeD)
  with assms(3) have "live_seals h \<noteq> []" by (auto simp: live_seals_def filter_empty_conv)
  then show ?thesis by (auto simp: check_prune_def assms(1) split: sum.splits)
qed

lemma prune_allowed:
  "check_prune debug sl pair = Inr () \<Longrightarrow>
     \<exists>h. seal_history_read (sv_tool (ss_source sl)) (ss_history sl 0) = Inr h \<and> bt_dom (sh_seals h) = sh_released h"
proof -
  assume "check_prune debug sl pair = Inr ()"
  then obtain h where h: "seal_history_read (sv_tool (ss_source sl)) (ss_history sl 0) = Inr h" "live_seals h = []"
    by (auto simp: check_prune_def split: sum.splits if_splits)
  then have "bt_dom (sh_seals h) \<subseteq> sh_released h" by (auto simp: live_seals_def filter_empty_conv bt_dom_def)
  with seal_history_read_wf [OF h(1)] h(1) show ?thesis by (auto simp: seal_wf_def)
qed

section \<open>What a seal was checked against\<close>

lemma read_seal_commit_cases:
  assumes "read_seal_commit sl pass row_id identity = Inr c"
  obtains h where "seal_history_read (sv_tool (ss_source sl)) (ss_history sl pass) = Inr h" "bt_get (sh_seals h) identity = Some c"
    "sm_row_id c = row_id"
  using assms by (auto simp: read_seal_commit_def split: option.splits if_splits)

lemma read_seal_commit_wf:
  assumes "read_seal_commit sl pass row_id identity = Inr c"
  shows "sm_identity c = identity \<and> manifest_identity (sv_tool (ss_source sl)) (sm_manifest c) = Inr identity"
  using assms
proof (rule read_seal_commit_cases)
  fix h assume "seal_history_read (sv_tool (ss_source sl)) (ss_history sl pass) = Inr h" "bt_get (sh_seals h) identity = Some c"
  with seal_history_read_wf [OF this(1)] show ?thesis by (auto simp: seal_wf_def bt_get_def dest!: map_of_SomeD)
qed

lemma reconcile_inner_wf:
  "reconcile_inner sl identity = Inr (Some c) \<Longrightarrow>
     sm_identity c = identity \<and> manifest_identity (sv_tool (ss_source sl)) (sm_manifest c) = Inr identity"
  by (auto simp: reconcile_inner_def dest!: read_seal_commit_wf split: mutation_outcome.splits)

lemma seal_existing_wf:
  "seal_existing sl operation auth refs h identity mf existing = Inr c \<Longrightarrow>
     sm_identity c = identity \<and> manifest_identity (sv_tool (ss_source sl)) (sm_manifest c) = Inr identity"
  by (auto simp: seal_existing_def Let_def case_prod_beta dest!: read_seal_commit_wf split: if_splits)

lemma seal_new_wf:
  "seal_new sl operation d r auth refs h identity mf = Inr c \<Longrightarrow>
     sm_identity c = identity \<and> manifest_identity (sv_tool (ss_source sl)) (sm_manifest c) = Inr identity"
  by (auto simp: seal_new_def Let_def case_prod_beta dest!: read_seal_commit_wf split: if_splits)

lemma seal_submit_sound:
  assumes "seal_submit sl operation d credential r = Inr c"
  obtains auth mf refs where "authority_of (ss_authority sl) (Some credential) (dr_scope d) Drive = Inr auth"
    "manifest_stage (ss_env sl) (ss_hash_tool sl) d (actor_fields (au_report auth)) (ss_source sl) (ss_native sl) = Inr (mf, refs)"
    "manifest_identity (sv_tool (ss_source sl)) mf = Inr (sm_identity c)"
    "manifest_identity (sv_tool (ss_source sl)) (sm_manifest c) = Inr (sm_identity c)"
proof -
  obtain auth mf refs identity found where a: "authority_of (ss_authority sl) (Some credential) (dr_scope d) Drive = Inr auth"
    "manifest_stage (ss_env sl) (ss_hash_tool sl) d (actor_fields (au_report auth)) (ss_source sl) (ss_native sl) = Inr (mf, refs)"
    "manifest_identity (sv_tool (ss_source sl)) mf = Inr identity" "reconcile_inner sl identity = Inr found"
    and rest: "(case found of Some c \<Rightarrow> Inr c | None \<Rightarrow>
           and_then (seal_history_read (sv_tool (ss_source sl)) (ss_history sl 0)) (\<lambda>h.
             case bt_get (sh_seals h) identity of
               Some existing \<Rightarrow> seal_existing sl operation auth refs h identity mf existing
             | None \<Rightarrow> seal_new sl operation d r auth refs h identity mf)) = Inr c"
    using assms by (auto simp: seal_submit_def)
  have "sm_identity c = identity \<and> manifest_identity (sv_tool (ss_source sl)) (sm_manifest c) = Inr identity"
  proof (cases found)
    case None
    then show ?thesis using rest
      by (auto dest: seal_existing_wf seal_new_wf split: option.splits)
  next
    case (Some c')
    then show ?thesis using rest a(4) reconcile_inner_wf by auto
  qed
  with a that show thesis by metis
qed

section \<open>The rows read back\<close>

definition seal_columns_of :: "int \<Rightarrow> seal_write \<Rightarrow> string list" where
  "seal_columns_of n w = [show_int n, sw_kind w, sql_quote (sw_value w), show_nat (sw_sequence w)]"

lemma seal_u64_show_nat: "n < 2 ^ 64 \<Longrightarrow> seal_u64 (show_nat n) = Inr (of_nat n)"
  by (simp add: show_word_def unat_of_nat take_bit_nat_eq_self)

lemma seal_row_text_value:
  "utf8_valid raw \<Longrightarrow> seal_row_text [a, b, sql_quote (value_to_json (VText raw)), c] = Inr raw"
  using value_round_trip_gen [of "VText raw"] by (simp add: seal_row_text_def)

lemma row_body_cases:
  assumes "row_body sl h operation kind identity raw condition expiry = Inr w"
  shows "sw_kind w = kind \<and> sw_value w = value_to_json (VText raw) \<and> sw_sequence w = sh_count h + 1 \<and> sh_count h < max_seal_history"
  using assms by (auto simp: row_body_def Let_def not_le split: if_splits)

lemma seal_row_reads:
  assumes w: "row_body sl h operation op_seal_text identity (frames_encode [''seal-row-v1'', identity, manifest_bytes mf]) condition expiry = Inr w"
    and m: "manifest_ok mf" "length (manifest_bytes mf) \<le> max_manifest_bytes" "manifest_identity tool mf = Inr identity"
    and i: "digest_ok identity" "bt_get (sh_seals h) identity = None" "in_i64 n"
  shows "history_step tool (sh_count h) (seal_columns_of n w) h =
    Inr (h\<lparr>sh_seals := bt_insert identity \<lparr>sm_identity = identity, sm_row_id = n, sm_manifest = mf, sm_reconciled = False\<rparr>
      (sh_seals h)\<rparr>)"
proof -
  let ?f = "[''seal-row-v1'', identity, manifest_bytes mf]"
  note w' = row_body_cases [OF w]
  have u: "utf8_valid (manifest_bytes mf)" by (rule manifest_bytes_utf8 [OF m(1)])
  have len: "length (frames_encode ?f) \<le> max_manifest_bytes + 256"
    using m(2) i(1) length_frame_le [of "manifest_bytes mf" 60000 5] length_frame_le [of identity 64 2] length_frame_le [of "''seal-row-v1''" 11 2]
    by (simp add: digest_ok_length max_manifest_bytes_def)
  have dec: "seal_decode (frames_encode ?f) (max_manifest_bytes + 256) 3 = Inr ?f"
    using u i(1) len by (intro seal_decode_encode) (simp_all add: max_manifest_bytes_def plain_utf8 plain_def verdant_defs del: frames_encode_simps)
  have uf: "utf8_valid (frames_encode ?f)" using u i(1) by (intro frames_utf8) (simp add: plain_utf8 plain_def verdant_defs)
  have seq: "seal_u64 (show_nat (sh_count h + 1)) = Inr (of_nat (sh_count h + 1))" "unat (of_nat (sh_count h + 1) :: u64) = sh_count h + 1"
    using w' seal_u64_show_nat [of "sh_count h + 1"] by (simp_all add: max_seal_history_def unat_of_nat take_bit_nat_eq_self del: of_nat_Suc of_nat_add)
  show ?thesis
    using w' m i seq dec manifest_round_trip_gen [OF m(1,2)] seal_row_text_value [OF uf]
    by (simp add: history_step_def seal_columns_of_def digest_parse_def del: frames_encode_simps of_nat_Suc of_nat_add)
qed

lemma release_row_reads:
  assumes w: "row_body sl h operation op_release_text identity (frames_encode [''seal-release-v1'', identity]) condition expiry = Inr w"
    and i: "digest_ok identity" "bt_get (sh_seals h) identity = Some c" "identity \<notin> sh_released h" "in_i64 n"
  shows "history_step tool (sh_count h) (seal_columns_of n w) h = Inr (h\<lparr>sh_released := insert identity (sh_released h)\<rparr>)"
proof -
  let ?f = "[''seal-release-v1'', identity]"
  note w' = row_body_cases [OF w]
  have len: "length (frames_encode ?f) \<le> max_manifest_bytes + 256"
    using i(1) length_frame_le [of identity 64 2] length_frame_le [of "''seal-release-v1''" 15 2]
    by (simp add: digest_ok_length max_manifest_bytes_def)
  have dec: "seal_decode (frames_encode ?f) (max_manifest_bytes + 256) 3 = Inr ?f"
    using i(1) len by (intro seal_decode_encode) (simp_all add: max_manifest_bytes_def plain_utf8 plain_def verdant_defs del: frames_encode_simps)
  have uf: "utf8_valid (frames_encode ?f)" using i(1) by (intro frames_utf8) (simp add: plain_utf8 plain_def verdant_defs)
  have seq: "seal_u64 (show_nat (sh_count h + 1)) = Inr (of_nat (sh_count h + 1))" "unat (of_nat (sh_count h + 1) :: u64) = sh_count h + 1"
    using w' seal_u64_show_nat [of "sh_count h + 1"] by (simp_all add: max_seal_history_def unat_of_nat take_bit_nat_eq_self del: of_nat_Suc of_nat_add)
  have ne: "op_release_text \<noteq> op_seal_text" by (simp add: op_release_text_def op_seal_text_def)
  show ?thesis
    using w' i seq dec ne seal_row_text_value [OF uf]
    by (simp add: history_step_def seal_columns_of_def digest_parse_def del: frames_encode_simps of_nat_Suc of_nat_add)
qed

section \<open>A history grows by what it writes\<close>

lemma seal_history_read_count: "seal_history_read tool (Inr rows) = Inr h \<Longrightarrow> sh_count h = length rows"
proof (erule seal_history_read_cases)
  fix rows'
  assume "Inr rows = (Inr rows' :: storage_error + _)"
    "history_steps tool 0 rows' \<lparr>sh_count = length rows', sh_seals = [], sh_released = {}\<rparr> = Inr h"
  with history_steps_count [where tool = tool and i = 0 and rows = rows and n = "length rows"
      and h = "\<lparr>sh_count = length rows, sh_seals = [], sh_released = {}\<rparr>"]
  show ?thesis by (cases h) auto
qed

lemma seal_history_snoc:
  assumes "seal_history_read tool (Inr rows) = Inr h" "history_step tool (length rows) row h = Inr h'"
    and "length rows < max_seal_history" "length (live_seals h') \<le> max_live_seals"
  shows "seal_history_read tool (Inr (rows @ [row])) = Inr (h'\<lparr>sh_count := length rows + 1\<rparr>)"
proof -
  let ?s = "\<lambda>n. \<lparr>sh_count = n, sh_seals = [], sh_released = {}\<rparr>"
  have s: "history_steps tool 0 rows (?s (length rows)) = Inr h"
    using assms(1) by (auto elim: seal_history_read_cases)
  have "history_steps tool 0 rows ((?s (length rows))\<lparr>sh_count := length rows + 1\<rparr>) = Inr (h\<lparr>sh_count := length rows + 1\<rparr>)"
    using s by (simp only: history_steps_count map_ok_simps)
  then have "history_steps tool 0 (rows @ [row]) (?s (length rows + 1)) = Inr (h'\<lparr>sh_count := length rows + 1\<rparr>)"
    using assms(2) by (simp add: history_steps_append history_step_count)
  moreover have "live_seals (h'\<lparr>sh_count := n\<rparr>) = live_seals h'" for n by (simp add: live_seals_def)
  ultimately show ?thesis using assms(3,4) by (simp add: seal_history_read_def)
qed

lemma live_seals_release: "length (live_seals (h\<lparr>sh_released := insert i (sh_released h)\<rparr>)) \<le> length (live_seals h)"
proof -
  have "length (filter (\<lambda>(j, _). j \<notin> insert i (sh_released h)) xs) \<le> length (filter (\<lambda>(j, _). j \<notin> sh_released h) xs)" for xs :: "(digest \<times> seal_commit) list"
    by (induction xs) auto
  then show ?thesis by (simp add: live_seals_def)
qed

lemma live_seals_insert:
  assumes "bt_get (sh_seals h) i = None"
  shows "length (live_seals (h\<lparr>sh_seals := bt_insert i c (sh_seals h)\<rparr>)) \<le> length (live_seals h) + 1"
proof -
  have "length (filter (\<lambda>(j, _). j \<notin> R) (bt_insert i c xs)) \<le> length (filter (\<lambda>(j, _). j \<notin> R) xs) + 1" if "i \<notin> bt_dom xs"
    for xs :: "(digest \<times> seal_commit) list" and R
    using that by (induction xs) (auto simp: bt_dom_def split: if_splits)
  then show ?thesis using assms by (simp add: live_seals_def bt_get_None_iff)
qed

end
