(* ===== verification/Binding_Examples.thy ===== *)
theory Binding_Examples
  imports Proposal_Facts
begin

text \<open>
  Concrete registries: the store an example writes to, a registry with one point and one with a
  retired unit, each reached by the operations and read back from the rows they wrote.
\<close>

definition example_store :: "string list list \<Rightarrow> registry_view" where
  "example_store cols = \<lparr>rv_scan = Inr cols, rv_operation = Inr ''op-1'', rv_prepare = (\<lambda>_. Inr ()),
     rv_submit = (\<lambda>p. MCommitted (pr_operation p) [[show_int 1]])\<rparr>"

abbreviation example_scope :: trusted_scope where
  "example_scope \<equiv> \<lparr>scope_text = ''scope-a''\<rparr>"

lemma example_replay [simp]: "replay (Inr []) r = ((cleared_registry 0), Inr ())"
  by (simp add: replay_def read_descriptors_def cleared_registry_def)

lemma example_sub [simp]: "committed_id [[show_int 1]] = Some 1"
  by (simp add: committed_id_def in_i64_def)

lemma example_replays: "replays [] (cleared_registry 0)"
  by (simp add: replays_def cleared_registry_def)

definition example_point_command :: registry_command where
  "example_point_command = RecordPoint ''ahu-1'' ''sat'' example_scope ''degC'' Service"

lemma example_words [simp]:
  "id_ok ''ahu-1''" "id_ok ''sat''" "id_ok ''scope-a''" "id_ok ''op-1''" "id_ok ''ahu''"
  "trusted_scope_ok example_scope" "utf8_valid ''degC''"
  by (simp_all add: trusted_scope_ok_def id_ok_def max_id_len_def id_char_def is_ascii_alphanumeric_def is_ascii_digit_def
      plain_utf8 plain_def verdant_defs)

definition example_point :: point_record where
  "example_point = \<lparr>pt_equipment = ''ahu-1'', pt_property = ''sat'', pt_scope = example_scope, pt_unit = Known DegC,
     pt_class = Service\<rparr>"

lemma example_prepare:
  "rg_revision r = 0 \<Longrightarrow> rg_sequence r = 0 \<Longrightarrow> is_ok (prepare_row (example_store cols) r operation kind e d auth)"
  by (simp add: prepare_row_def example_store_def checked_add_def Let_def)

lemma example_records_point:
  "\<exists>r'. run_command (example_store []) example_point_command r = (r', Inr ()) \<and>
     rg_points r' = [(''ahu-1:sat'', example_point)] \<and> rg_retired r' = {} \<and> rg_reassessment r' = {} \<and> rg_revision r' = 1 \<and>
     rg_bindings r' = []"
  by (simp add: example_point_command_def record_point_def run_then_def run_res_def write_record_def
      example_store_def prepare_row_def Let_def cleared_registry_def checked_add_def bump_revision_def point_key_def
      point_record_parse_def unit_parse_def known_unit_parse_def example_point_def)

text \<open>The point command's row, and the history it makes.\<close>

lemma example_command_ok: "command_ok example_point_command"
  by (simp add: example_point_command_def)

lemma example_point_history:
  obtains cols where "\<forall>r. \<exists>r'. replay (Inr cols) r = (r', Inr ()) \<and> rg_points r' = [(''ahu-1:sat'', example_point)] \<and>
    rg_retired r' = {} \<and> rg_reassessment r' = {} \<and> rg_revision r' = 1 \<and> rg_sequence r' = 1 \<and> rg_bindings r' = []"
proof -
  obtain r' where r': "run_command (example_store []) example_point_command (cleared_registry 0) = (r', Inr ())"
      "rg_points r' = [(''ahu-1:sat'', example_point)]" "rg_retired r' = {}" "rg_reassessment r' = {}" "rg_revision r' = 1"
      "rg_bindings r' = []"
    using example_records_point by blast
  obtain rows where rows: "read_descriptors (Inr []) = Inr rows"
      "commits (example_store []) rows (command_kind example_point_command) r'"
    using command_commits_gen [OF r'(1) example_command_ok] by (auto simp: example_store_def)
  then have "rg_sequence r' = 1" by (auto simp: commits_def replays_def read_descriptors_def)
  moreover obtain p n where "\<forall>r. \<exists>r2. replay (Inr ([] @ [stored_columns n p])) r = (r2, Inr ()) \<and> reg_core r2 = reg_core r' \<and>
      rg_sequence r2 = rg_sequence r'"
    using commit_replays [OF rows] by blast
  moreover have "rg_points r2 = rg_points r' \<and> rg_retired r2 = rg_retired r' \<and> rg_reassessment r2 = rg_reassessment r' \<and>
      rg_revision r2 = rg_revision r' \<and> rg_bindings r2 = rg_bindings r'" if "reg_core r2 = reg_core r'" for r2
    using that by (metis reg_core_simps)
  ultimately show thesis using r' by (intro that [of "[stored_columns n p]"]) (metis append_Nil)
qed

definition example_binding :: proposed_binding where
  "example_binding = \<lparr>pb_endpoint = ''dev-1'', pb_class = Service, pb_endpoint_scope = example_scope, pb_equipment = ''ahu-1'',
     pb_property = ''sat'', pb_point_scope = example_scope, pb_source = ''src-1'', pb_unit = Known DegC,
     pb_mode = Some Occupied, pb_requested = Sense, pb_effective = Sense, pb_feedback = FeedbackSingle Sense, pb_status = Valid\<rparr>"

definition example_pending :: pending_proposal where
  "example_pending = \<lparr>pp_operation = ''op-1'', pp_revision = 1, pp_binding = example_binding\<rparr>"

lemma example_pending_ok:
  "binding_ok (pp_binding example_pending)" "mode_plain (pb_mode (pp_binding example_pending))" "id_ok (pp_operation example_pending)"
  by (simp_all add: example_pending_def example_binding_def binding_ok_def mode_plain_def mode_text_def id_ok_def max_id_len_def
      id_char_def is_ascii_alphanumeric_def is_ascii_digit_def)

definition example_proposal_view :: "string list list \<Rightarrow> gate_view \<Rightarrow> proposal_view" where
  "example_proposal_view cols g =
     \<lparr>pv_base = example_store cols, pv_reconcile = MNotCommitted ''op-1'' (SqliteFailure ''no receipt''), pv_committed = (\<lambda>_ _. Inr []),
      pv_authority = \<lparr>av_store_path = Inr ''a.db'', av_gate_path = Inr ''a.db'', av_rows = Inr [], av_gate = g\<rparr>,
      pv_rescan = Inr cols\<rparr>"

lemma example_authority:
  obtains g cred auth where "\<forall>cols. authority_of (pv_authority (example_proposal_view cols g)) (Some cred)
      (pb_point_scope example_binding) (pb_requested example_binding) = Inr auth"
proof -
  obtain rc pc b where boot: "bootstrap example_empty 1 0 ''install'' = Inr (rc, pc, b)" using example_bootstrap by blast
  let ?g = "\<lparr>gv_horizon = 64, gv_scan = Inr (written [1, 2, 3] b), gv_now = Inr 5\<rparr>"
  obtain rep where rep: "enter_review ?g (Some rc) example_scope = Inr rep"
    using bootstrap_effect_gen [OF boot example_made _ refl, where h = 64 and t = 5 and pid' = 0 and uniq' = 0 and reason' = "[]"]
    by (auto simp: is_ok_iff)
  let ?a = "\<lparr>au_report = rep, au_guard = ''(SELECT COUNT(*) FROM outbox WHERE operation LIKE 'access-%')='' @ show_nat 0\<rparr>"
  have "\<forall>cols. authority_of (pv_authority (example_proposal_view cols ?g)) (Some rc) (pb_point_scope example_binding)
      (pb_requested example_binding) = Inr ?a"
    using rep by (simp add: authority_of_def example_proposal_view_def example_binding_def)
  then show thesis by (rule that)
qed

lemma reg_core_fields:
  assumes "reg_core r = reg_core q"
  shows "rg_points r = rg_points q" "rg_retired r = rg_retired q" "rg_reassessment r = rg_reassessment q"
    "rg_revision r = rg_revision q" "rg_bindings r = rg_bindings q"
  using assms by (metis reg_core_simps(1-10))+

lemma example_resolves:
  assumes "rg_points r = [(''ahu-1:sat'', example_point)]" "rg_retired r = {}" "rg_reassessment r = {}"
  shows "resolve r example_binding = Inr ()"
proof -
  have "fits_point r example_binding example_point"
    using assms by (simp add: fits_point_def example_binding_def example_point_def point_key_def)
  then show ?thesis by (auto simp: resolve_Inr)
qed

lemma example_prepares:
  assumes "rg_revision r = 1 \<or> rg_revision r = 2" "rg_sequence r = 1 \<or> rg_sequence r = 2"
  obtains p where "prepare_row (example_store cols) r operation kind e d auth = Inr p"
  using assms by (auto simp: prepare_row_def checked_add_def example_store_def Let_def)

lemma example_submits:
  obtains cols g cred r' where
    "submit_proposal (example_proposal_view cols g) (Some cred) example_pending (cleared_registry 0) =
       (r', Inr \<lparr>pc_operation = ''op-1'', pc_row_id = 1, pc_revision = 2, pc_binding = example_binding\<rparr>)"
proof -
  obtain g cred auth where auth: "\<forall>cols. authority_of (pv_authority (example_proposal_view cols g)) (Some cred)
      (pb_point_scope example_binding) (pb_requested example_binding) = Inr auth" by (rule example_authority)
  obtain cols where cols: "\<forall>r. \<exists>r'. replay (Inr cols) r = (r', Inr ()) \<and> rg_points r' = [(''ahu-1:sat'', example_point)] \<and>
      rg_retired r' = {} \<and> rg_reassessment r' = {} \<and> rg_revision r' = 1 \<and> rg_sequence r' = 1"
    by (rule example_point_history) (metis that)
  obtain r1 where r1: "replay (Inr cols) (cleared_registry 0) = (r1, Inr ())" "rg_points r1 = [(''ahu-1:sat'', example_point)]"
      "rg_retired r1 = {}" "rg_reassessment r1 = {}" "rg_revision r1 = 1" "rg_sequence r1 = 1" using cols by blast
  obtain r2 where r2: "replay (Inr cols) r1 = (r2, Inr ())" using cols by blast
  obtain p where p: "prepare_row (example_store cols) r1 ''op-1'' op_propose_text (pb_equipment example_binding)
      (stored_proposal example_pending (au_report auth)) (Some auth) = Inr p"
    by (rule example_prepares) (auto simp: r1)
  have "submit_proposal (example_proposal_view cols g) (Some cred) example_pending (cleared_registry 0) =
       (r2, Inr \<lparr>pc_operation = ''op-1'', pc_row_id = 1, pc_revision = 2, pc_binding = example_binding\<rparr>)"
    using r1 r2 example_resolves [OF r1(2-4)] spec [OF auth, of cols] p
    by (simp add: submit_proposal_def reconcile_proposal_def run_then_def run_res_def require_revision_def refreshed_def
        example_pending_def example_proposal_view_def example_store_def)
  then show thesis by (rule that)
qed

text \<open>The history with the proposal's row, in which a finding of the binding is emitted.\<close>

lemma example_proposed:
  obtains cols where "\<forall>r. \<exists>r'. replay (Inr cols) r = (r', Inr ()) \<and> rg_points r' = [(''ahu-1:sat'', example_point)] \<and>
    rg_retired r' = {} \<and> rg_reassessment r' = {} \<and> rg_revision r' = 2 \<and> rg_sequence r' = 2 \<and> rg_bindings r' = [example_binding]"
proof -
  obtain cols where cols: "\<forall>r. \<exists>r'. replay (Inr cols) r = (r', Inr ()) \<and> rg_points r' = [(''ahu-1:sat'', example_point)] \<and>
      rg_retired r' = {} \<and> rg_reassessment r' = {} \<and> rg_revision r' = 1 \<and> rg_sequence r' = 1 \<and> rg_bindings r' = []"
    by (rule example_point_history)
  obtain r1 where r1: "replay (Inr cols) (cleared_registry 0) = (r1, Inr ())" "rg_points r1 = [(''ahu-1:sat'', example_point)]"
      "rg_retired r1 = {}" "rg_reassessment r1 = {}" "rg_revision r1 = 1" "rg_sequence r1 = 1" "rg_bindings r1 = []" using cols by blast
  obtain g cred auth where auth: "\<forall>cols. authority_of (pv_authority (example_proposal_view cols g)) (Some cred)
      (pb_point_scope example_binding) (pb_requested example_binding) = Inr auth" by (rule example_authority)
  note rep = authority_report_ok [OF spec [OF auth, of cols]]
  obtain rows where rows: "read_descriptors (Inr cols) = Inr rows" "replays rows r1" by (rule replay_sound [OF r1(1)])
  obtain p where p: "prepare_row (example_store cols) r1 ''op-1'' op_propose_text (pb_equipment example_binding)
      (stored_proposal example_pending (au_report auth)) (Some auth) = Inr p"
    by (rule example_prepares) (auto simp: r1)
  obtain row where row: "decode_row (stored_columns 2 p) = Inr row" "replays (rows @ [row])
      ((bump_revision (r1\<lparr>rg_bindings := rg_bindings r1 @ [pp_binding example_pending]\<rparr>))\<lparr>rg_sequence := rg_sequence r1 + 1\<rparr>)"
    by (rule proposal_row_registry [OF example_pending_ok rep, of p 2 rows r1])
      (use prepare_row_cases [OF p] rows r1 in \<open>auto simp: example_pending_def in_i64_def\<close>)
  show thesis
  proof (rule that [of "cols @ [stored_columns 2 p]"], rule allI)
    fix r
    obtain r' where r': "replay (Inr (cols @ [stored_columns 2 p])) r = (r', Inr ())"
      "reg_core r' = reg_core ((bump_revision (r1\<lparr>rg_bindings := rg_bindings r1 @ [pp_binding example_pending]\<rparr>))\<lparr>rg_sequence := rg_sequence r1 + 1\<rparr>)"
      "rg_sequence r' = 2"
      using replay_complete [OF read_descriptors_snoc [OF rows(1) row(1)] row(2), of r] by (auto simp: r1)
    with reg_core_fields [OF r'(2)] show "\<exists>r'. replay (Inr (cols @ [stored_columns 2 p])) r = (r', Inr ()) \<and> rg_points r' = [(''ahu-1:sat'', example_point)] \<and>
      rg_retired r' = {} \<and> rg_reassessment r' = {} \<and> rg_revision r' = 2 \<and> rg_sequence r' = 2 \<and> rg_bindings r' = [example_binding]"
      by (simp add: r1 bump_revision_def example_pending_def)
  qed
qed

lemma example_emits:
  obtains cols g cred r' f where
    "emit_finding_operation (example_proposal_view cols g) ''op-1'' 2 example_binding cred (cleared_registry 0) = (r', Inr f)"
proof -
  obtain g cred auth where auth: "\<forall>cols. authority_of (pv_authority (example_proposal_view cols g)) (Some cred)
      (pb_point_scope example_binding) (pb_requested example_binding) = Inr auth" by (rule example_authority)
  obtain cols where cols: "\<forall>r. \<exists>r'. replay (Inr cols) r = (r', Inr ()) \<and> rg_points r' = [(''ahu-1:sat'', example_point)] \<and>
    rg_retired r' = {} \<and> rg_reassessment r' = {} \<and> rg_revision r' = 2 \<and> rg_sequence r' = 2 \<and> rg_bindings r' = [example_binding]"
    by (rule example_proposed)
  obtain r1 where r1: "replay (Inr cols) (cleared_registry 0) = (r1, Inr ())" "rg_points r1 = [(''ahu-1:sat'', example_point)]"
      "rg_retired r1 = {}" "rg_reassessment r1 = {}" "rg_revision r1 = 2" "rg_sequence r1 = 2" "rg_bindings r1 = [example_binding]"
    using cols by blast
  obtain r2 where r2: "replay (Inr cols) r1 = (r2, Inr ())" using cols by blast
  let ?f = "finding_for_binding example_binding 2 (actor_fields (au_report auth))"
  obtain p where p: "prepare_row (example_store cols) r1 ''op-1'' op_finding_text (pb_equipment example_binding)
      (stored_finding ''op-1'' 2 example_binding ?f (actor_fields (au_report auth))) (Some auth) = Inr p"
    by (rule example_prepares) (auto simp: r1)
  have "emit_finding_operation (example_proposal_view cols g) ''op-1'' 2 example_binding cred (cleared_registry 0) = (r2, Inr ?f)"
    using r1 r2 example_resolves [OF r1(2-4)] spec [OF auth, of cols] p
    by (simp add: emit_finding_operation_def run_then_def run_res_def require_revision_def refreshed_def
        example_proposal_view_def example_store_def Let_def)
  then show thesis by (rule that)
qed

text \<open>A history of one retirement.\<close>

lemma example_retired:
  obtains cols r where "replay (Inr cols) (cleared_registry 0) = (r, Inr ())" "''ahu-1'' \<in> rg_retired r"
proof -
  let ?r = "cleared_registry 0"
  let ?q = "bump_revision (?r\<lparr>rg_retired := {''ahu-1''}, rg_retired_addrs := {''ahu''}\<rparr>)"
  obtain r1 where w: "write_record (example_store []) op_retire_text ''ahu-1''
      (fields_text (versioned ''retire'' (encoded (retire_texts ''ahu-1'' ''ahu'' ''worn'')))) ?r = (r1, Inr ())"
    by (simp add: write_record_def example_store_def prepare_row_def Let_def cleared_registry_def checked_add_def)
  have "r1 = ?r\<lparr>rg_sequence := rg_sequence ?r + 1\<rparr> \<and>
      commits (example_store []) [] op_retire_text (?q\<lparr>rg_sequence := rg_sequence ?r + 1\<rparr>)"
  proof (rule command_commits [OF example_replays w])
    fix operation
    show "apply_kind op_retire_text ''retire'' (texts_of (versioned ''retire'' (encoded (retire_texts ''ahu-1'' ''ahu'' ''worn'')) @
        stamped operation (rg_revision ?r))) ?r = Inr ?q"
      by (simp add: apply_kind_def replay_retire_def binding_op_texts, simp add: cleared_registry_def)
  qed (rule distinct_command_keys(5) | simp add: example_store_def binding_operations_def retire_texts_def plain_utf8 plain_def verdant_defs)+
  then have c: "commits (example_store []) [] op_retire_text (?q\<lparr>rg_sequence := rg_sequence ?r + 1\<rparr>)" by blast
  have "read_descriptors (Inr []) = Inr []" by (simp add: read_descriptors_def)
  from commit_replays [OF this c] obtain p n r2 where "replay (Inr ([] @ [stored_columns n p])) ?r = (r2, Inr ())"
      "reg_core r2 = reg_core (?q\<lparr>rg_sequence := rg_sequence ?r + 1\<rparr>)" by blast
  moreover from arg_cong [OF this(2), of rg_retired] have "''ahu-1'' \<in> rg_retired r2" by simp
  ultimately show thesis using that by blast
qed

end
