(* ===== verification/Seal_Examples.thy ===== *)
theory Seal_Examples
  imports Seal_Facts Binding_Examples
begin

text \<open>
  A concrete store with one stored finding, its closure and a manifest sealed over it.
\<close>

section \<open>Bounds on the stored texts\<close>

lemma length_quote: "length (quote s) \<le> 6 * length s + 2"
proof -
  have "length (concat (map quote_char s)) \<le> 6 * length s"
    by (induction s) (auto simp: quote_char_def)
  then show ?thesis by (simp add: quote_def)
qed

lemma length_text_json: "length (value_to_json (VText s)) \<le> 6 * length s + 30"
  using length_quote [of s] by (simp add: value_to_json_def)

lemma length_pct_encode: "length (pct_encode s) \<le> 3 * length s"
  unfolding pct_encode_def by (induction s) (auto simp: pct_byte_def)

lemma length_join_on: "length (join_on c ps) \<le> sum_list (map (\<lambda>p. length p + 1) ps)"
  by (induction c ps rule: join_on.induct) simp_all

lemma length_part: "length (part k v) = length k + length v + 1"
  by (simp add: part_def)

section \<open>A finding\<close>

definition example_report :: enter_report where
  "example_report = actor_report \<lparr>actor_row = \<lparr>ir_cap = ''cap-1'', ir_scope = ''scope-a'', ir_ceiling = 1, ir_role = ''reviewer'',
     ir_key_id = ''key-1'', ir_key_fp = ''0'', ir_issuer = ''issuer-1'', ir_capgen = 1, ir_user = ''user-1'', ir_reason = ''why'',
     ir_label = ''label'', ir_policy = policy_entry_only None\<rparr>,
     actor_bound = \<lparr>ceiling_scope = example_scope, ceiling_level = 1\<rparr>, actor_role = Reviewer\<rparr>"

lemma example_report_sel [simp]:
  "actor_row (er_actor example_report) = \<lparr>ir_cap = ''cap-1'', ir_scope = ''scope-a'', ir_ceiling = 1, ir_role = ''reviewer'',
     ir_key_id = ''key-1'', ir_key_fp = ''0'', ir_issuer = ''issuer-1'', ir_capgen = 1, ir_user = ''user-1'', ir_reason = ''why'',
     ir_label = ''label'', ir_policy = policy_entry_only None\<rparr>"
  "actor_bound (er_actor example_report) = \<lparr>ceiling_scope = example_scope, ceiling_level = 1\<rparr>"
  by (simp_all add: example_report_def actor_report_def)

lemma example_report_ok: "report_ok example_report"
  by (simp add: report_ok_def token_ok_def id_char_def is_ascii_alphanumeric_def is_ascii_digit_def)

definition example_finding :: finding where
  "example_finding = finding_for_binding example_binding 1 (actor_fields example_report)"

definition example_finding_text :: string where
  "example_finding_text = stored_finding ''op-1'' 1 example_binding example_finding (actor_fields example_report)"

lemma example_sealable: "sealable example_binding example_scope"
  using example_pending_ok(1)
  by (simp add: sealable_def separator_free_def example_pending_def) (simp add: example_binding_def mode_text_def verdant_defs)

definition example_digest :: digest where "example_digest = replicate 64 (CHR ''a'')"
definition example_tool :: "string \<Rightarrow> seal_error + digest" where "example_tool = (\<lambda>_. Inr example_digest)"

lemma example_digest_ok [simp]: "digest_ok example_digest"
  by (simp add: digest_ok_def example_digest_def list_all_iff)

lemma example_actor_length: "length (actor_fields example_report) \<le> 120"
  using length_pct_encode [of "''cap-1''"] length_pct_encode [of "''scope-a''"] length_pct_encode [of "''issuer-1''"]
  by (simp add: actor_fields_def actor_text_def Let_def part_def show_word_def show_nat.simps)

lemma example_canonical_length: "length (canonical_bytes example_binding) \<le> 300"
  by (simp add: canonical_bytes_def canonical_fields_def example_binding_def mode_text_def)

lemma example_finding_sel:
  "length (fi_id example_finding) = 24" "length (fi_digest example_finding) = 16" "fi_generation example_finding = 1"
  "length (fi_summary example_finding) \<le> 200"
  using example_actor_length
  by (simp_all add: example_finding_def finding_for_binding_def Let_def fnv1a_hex_def show_hex_facts example_binding_def show_word_def
      show_nat.simps del: show_hex.simps)

lemma example_finding_length: "length example_finding_text \<le> 3000"
proof -
  let ?ps = "[''v=2'', ''kind=finding'', part ''operation'' (pct_encode ''op-1''), part ''fid'' (pct_encode (fi_id example_finding)),
      part ''generation'' (show_word (fi_generation example_finding)), part ''revision'' (show_word (1 :: u32)),
      part ''digest'' (pct_encode (fi_digest example_finding)), part ''summary'' (pct_encode (fi_summary example_finding)),
      actor_fields example_report, part ''equipment'' (pct_encode (pb_equipment example_binding)),
      part ''property'' (pct_encode (pb_property example_binding)), part ''binding'' (pct_encode (canonical_bytes example_binding))]"
  have "sum_list (map (\<lambda>p. length p + 1) ?ps) \<le> 3000"
    using example_actor_length example_canonical_length example_finding_sel
      length_pct_encode [of "''op-1''"] length_pct_encode [of "fi_id example_finding"] length_pct_encode [of "fi_digest example_finding"]
      length_pct_encode [of "fi_summary example_finding"] length_pct_encode [of "pb_equipment example_binding"]
      length_pct_encode [of "pb_property example_binding"] length_pct_encode [of "canonical_bytes example_binding"]
    by (simp add: length_part show_word_def show_nat.simps) (simp add: example_binding_def)
  with length_join_on [of "CHR '';''" ?ps] show ?thesis by (simp only: example_finding_text_def stored_finding_def)
qed

lemma example_finding_utf8: "utf8_valid example_finding_text"
  using finding_fields_ok(3) [OF example_pending_ok(1) _ example_report_ok, of "''op-1''" example_finding 1]
  by (simp add: example_finding_text_def stored_finding_fields example_pending_def example_finding_def)

lemma example_fingerprint:
  obtains fp where "finding_fingerprint example_finding_text example_scope example_tool = Inr fp" "utf8_valid fp" "length fp \<le> 500"
proof -
  have s: "sha_hash example_tool (canonical_bytes example_binding) = Inr example_digest"
    using example_canonical_length by (simp add: sha_hash_def example_tool_def max_artifact_bytes_def)
  let ?fp = "frames_encode [fi_id example_finding, show_word (1 :: u32), actor_fields example_report, ''synthetic-fnv1a64-not-authority'',
      fi_digest example_finding, ''binding-canonical-v2-sha256'', example_digest]"
  have "finding_fingerprint example_finding_text example_scope example_tool = Inr ?fp"
    unfolding example_finding_text_def
    by (rule stored_finding_fingerprint [OF example_sealable _ example_report_ok example_finding_def _ _ s]) simp_all
  moreover have "utf8_valid ?fp"
    using actor_fields_utf8 finding_id_ok
    by (intro frames_utf8) (simp add: example_finding_def finding_for_binding_def Let_def plain_utf8 plain_def verdant_defs)
  moreover have "length ?fp \<le> 500"
    using example_actor_length example_finding_sel length_frame_le [of "actor_fields example_report" 120 3]
      length_frame_le [of "fi_id example_finding" 24 2] length_frame_le [of "fi_digest example_finding" 16 2]
      length_frame_le [of "''synthetic-fnv1a64-not-authority''" 32 2] length_frame_le [of "''binding-canonical-v2-sha256''" 27 2]
      length_frame_le [of example_digest 64 2] length_frame_le [of "show_word (1 :: u32)" 1 2]
    by (simp add: example_digest_def) (simp add: show_word_def show_nat.simps)
  ultimately show thesis by (rule that)
qed

section \<open>A closure\<close>

definition example_key :: row_key where "example_key = RowKey op_finding_text 1"

definition example_columns :: "string list" where
  "example_columns = [op_finding_text, ''1'', ''ahu-1'', ''sensor-sat-1'', value_to_json (VText example_finding_text), ''binding-event'',
     ''0'', ''0'', ''0'', ''gen-1'']"

definition example_source :: source_view where
  "example_source = \<lparr>sv_rows = (\<lambda>k. if k = example_key then Inr [map sql_quote example_columns @ [''7'']] else Inr []),
     sv_tool = example_tool\<rparr>"

lemma example_source_row: "source_row example_source k = (if k = example_key then Inr (example_columns @ [''7'']) else Inl (SealMissing (row_key_encode k)))"
  by (simp add: source_row_def example_source_def seal_columns_def example_columns_def column_value_def)

lemma example_canonical_row: "length (row_canonical (example_columns @ [''7''])) \<le> 20000"
proof -
  have j: "length (value_to_json (VText example_finding_text)) \<le> 18030"
    using length_text_json [of example_finding_text] example_finding_length by simp
  have f: "length (frame s) \<le> length s + 6" if "length s \<le> 18030" for s
    using length_show_nat [of "length s" 5] that by (simp add: frame_def)
  show ?thesis
    using f [OF j] j f [of op_finding_text] f [of "''1''"] f [of "''ahu-1''"] f [of "''sensor-sat-1''"] f [of "''binding-event''"] f [of "''0''"] f [of "''gen-1''"]
    by (simp add: row_canonical_def example_columns_def op_finding_text_def)
qed

lemma example_rows_short: "rows_short example_source"
  using example_canonical_row by (auto simp: rows_short_def example_source_row split: if_splits)

lemma example_closure:
  obtains fp cl where "closure example_source [example_key] example_scope = Inr cl" "cl_findings cl = [fp]" "utf8_valid fp" "length fp \<le> 500"
    "cl_rows cl = [\<lparr>rw_key = example_key, rw_digest = example_digest, rw_bytes = of_nat (length (row_canonical (example_columns @ [''7''])))\<rparr>]"
proof -
  obtain fp where fp: "finding_fingerprint example_finding_text example_scope example_tool = Inr fp" "utf8_valid fp" "length fp \<le> 500"
    by (rule example_fingerprint)
  let ?v = "example_columns @ [''7'']"
  have links: "row_links example_source example_scope example_key ?v = Inr ([], Some fp)"
    using fp value_round_trip_gen [of "VText example_finding_text"] example_finding_utf8
    by (simp add: row_links_def example_columns_def example_key_def example_source_def)
  have len: "unat (of_nat (length (row_canonical ?v)) :: u64) = length (row_canonical ?v)"
    using example_canonical_row by (intro row_canonical_mod) simp
  have add: "add_bytes (row_canonical ?v) st = Inr (st\<lparr>wk_bytes := of_nat (length (row_canonical ?v))\<rparr>)"
    if "wk_bytes st = 0" for st
    using that example_canonical_row len by (simp add: add_bytes_def checked_add_def max_closure_bytes_def)
  have sha: "sha_hash (sv_tool example_source) (row_canonical ?v) = Inr example_digest"
    using example_canonical_row by (simp add: sha_hash_def example_source_def example_tool_def max_artifact_bytes_def)
  have "is_ok (visit example_source example_scope example_key 0 walker_start)"
    "\<And>st. visit example_source example_scope example_key 0 walker_start = Inr st \<Longrightarrow> wk_findings st = {fp} \<and>
      wk_rows st = [(example_key, \<lparr>rw_key = example_key, rw_digest = example_digest, rw_bytes = of_nat (length (row_canonical ?v))\<rparr>)]"
    using add links sha
    by (auto simp: visit.simps [of _ _ _ 0] Let_def enter_row_def leave_row_def example_source_row walker_start_def max_closure_depth_def max_nodes_def)
  then obtain st where st: "visit example_source example_scope example_key 0 walker_start = Inr st" "wk_findings st = {fp}"
      "wk_rows st = [(example_key, \<lparr>rw_key = example_key, rw_digest = example_digest, rw_bytes = of_nat (length (row_canonical ?v))\<rparr>)]"
    by (auto simp: is_ok_iff)
  show thesis
    by (rule that [of "\<lparr>cl_rows = map snd (wk_rows st), cl_findings = sorted_list_of_set (wk_findings st), cl_guard = wk_guard st\<rparr>" fp])
      (simp_all add: closure_def st fp)
qed

section \<open>A sealed history\<close>

definition example_ref :: row_ref where
  "example_ref = \<lparr>rw_key = example_key, rw_digest = example_digest, rw_bytes = 100\<rparr>"

definition example_native :: native_ref where
  "example_native = \<lparr>nr_store = ''/native'', nr_generation = 1, nr_manifest_digest = example_digest, nr_manifest_bytes = 3,
     nr_snapshot_digest = example_digest, nr_snapshot_bytes = 3, nr_selene_digest = example_digest\<rparr>"

definition example_manifest :: manifest where
  "example_manifest = \<lparr>mf_scope = example_scope, mf_revision = 2,
     mf_runtime = frames_encode [''b'', ''h'', ''1'', ''r'', ''t'', selene_rev], mf_publisher = ''p'', mf_hash_tool = ''sha256'',
     mf_roots = [example_key], mf_rows = [example_ref], mf_findings = [''f''], mf_native = [example_native]\<rparr>"

lemma length_show_word: "unat (w :: 'a :: len word) < 10 ^ k \<Longrightarrow> 0 < k \<Longrightarrow> length (show_word w) \<le> k"
  using length_show_nat [of "unat w" k] by (simp add: show_word_def)

lemma example_encodings:
  "length (row_key_encode example_key) \<le> 40" "length (row_ref_encode example_ref) \<le> 140" "length (native_ref_encode example_native) \<le> 300"
proof -
  have d: "length example_digest = 64" by (simp add: example_digest_def)
  have w: "length (show_word (1 :: u64)) \<le> 1" "length (show_word (3 :: u64)) \<le> 1" "length (show_word (100 :: u64)) \<le> 3"
    using length_show_word [of "1 :: u64" 1] length_show_word [of "3 :: u64" 1] length_show_word [of "100 :: u64" 3] by simp_all
  have f: "length (frame s) \<le> length s + 3" if "length s < 100" for s
    using length_show_nat [of "length s" 2] that by (simp add: frame_def)
  show k: "length (row_key_encode example_key) \<le> 40"
    using f [of op_finding_text] f [of "show_word (1 :: u64)"] w by (simp add: row_key_encode_def example_key_def op_finding_text_def)
  show "length (row_ref_encode example_ref) \<le> 140"
    using k f [of "row_key_encode example_key"] f [of example_digest] f [of "show_word (100 :: u64)"] w d
    by (simp add: row_ref_encode_def example_ref_def)
  show "length (native_ref_encode example_native) \<le> 300"
    using f [of example_digest] f [of "show_word (1 :: u64)"] f [of "show_word (3 :: u64)"] f [of "''/native''"] w d
    by (simp add: native_ref_encode_def example_native_def)
qed

lemma example_manifest_ok: "manifest_ok example_manifest"
proof -
  have "length (mf_runtime example_manifest) \<le> 2048"
    by (simp add: example_manifest_def frame_def show_nat.simps selene_rev_def)
  moreover have "\<forall>t \<in> set [''b'', ''h'', ''1'', ''r'', ''t'', selene_rev]. seal_text t = Inr t \<and> utf8_valid t"
    by (simp add: seal_text_def selene_rev_def plain_utf8 plain_def verdant_defs)
  moreover have "row_key_ok example_key" "row_ref_ok example_ref" "native_ref_ok example_native"
    by (simp_all add: row_key_ok_def row_ref_ok_def native_ref_ok_def example_key_def example_ref_def example_native_def op_finding_text_def
        id_ok_def max_id_len_def id_char_def is_ascii_alphanumeric_def is_ascii_digit_def max_artifact_bytes_def)
  ultimately show ?thesis using example_encodings
    unfolding manifest_ok_def
    by (simp add: example_manifest_def max_nodes_def max_native_refs_def plain_utf8 plain_def verdant_defs trusted_scope_ok_def
        example_native_def del: frames_encode_simps) (intro exI [of _ "[''b'', ''h'', ''1'', ''r'', ''t'', selene_rev]"], simp)
qed

lemma example_manifest_length: "length (manifest_bytes example_manifest) \<le> 1200"
proof -
  have f: "length (frame s) \<le> length s + 4" if "length s < 1000" for s
    using length_show_nat [of "length s" 3] that by (simp add: frame_def)
  have r: "length (mf_runtime example_manifest) \<le> 80"
    by (simp add: example_manifest_def frame_def show_nat.simps selene_rev_def)
  let ?k = "frame (row_key_encode example_key)" and ?r = "frame (row_ref_encode example_ref)" and ?n = "frame (native_ref_encode example_native)"
  have e: "length ?k \<le> 44" "length ?r \<le> 144" "length ?n \<le> 304"
    using example_encodings f [of "row_key_encode example_key"] f [of "row_ref_encode example_ref"] f [of "native_ref_encode example_native"]
    by simp_all
  have fs: "length (frame ''verdant-seal-v1'') \<le> 20" "length (frame ''valid-structural-not-qualified'') \<le> 40" "length (frame ''scope-a'') \<le> 20"
      "length (frame (show_word (2 :: u32))) \<le> 10" "length (frame (show_word schema_generation)) \<le> 10" "length (frame pinned_profile_id) \<le> 50"
      "length (frame ''verdant-converter-r07-v1'') \<le> 40" "length (frame (mf_runtime example_manifest)) \<le> 90" "length (frame ''p'') \<le> 10"
      "length (frame ''sha256'') \<le> 20" "length (frame (frame ''f'')) \<le> 20"
    using f [of "mf_runtime example_manifest"] r
    by (simp_all add: frame_def show_nat.simps show_word_def schema_generation_def pinned_profile_id_def)
  have "length (frame ?k) \<le> 50" "length (frame ?r) \<le> 150" "length (frame ?n) \<le> 310"
    using f [of ?k] f [of ?r] f [of ?n] e by linarith+
  with fs show ?thesis
    by (simp add: manifest_bytes_def manifest_fields_def example_manifest_def)
qed

definition example_seal_write :: seal_write where
  "example_seal_write = \<lparr>sw_operation = ''op-1'', sw_kind = op_seal_text, sw_identity = example_digest,
     sw_value = value_to_json (VText (frames_encode [''seal-row-v1'', example_digest, manifest_bytes example_manifest])),
     sw_sequence = 1, sw_alias = None, sw_condition = ''1'', sw_expiry = None\<rparr>"

definition example_release_write :: seal_write where
  "example_release_write = \<lparr>sw_operation = ''op-2'', sw_kind = op_release_text, sw_identity = example_digest,
     sw_value = value_to_json (VText (frames_encode [''seal-release-v1'', example_digest])),
     sw_sequence = 2, sw_alias = None, sw_condition = ''1'', sw_expiry = None\<rparr>"

definition example_seal_view :: "gate_view \<Rightarrow> string list list \<Rightarrow> seal_view" where
  "example_seal_view g rows = \<lparr>ss_slot = Inr True, ss_db_path = Inr ''a.db'', ss_native_path = Inr ''/native'', ss_registry_path = Inr ''a.db'',
     ss_gate_path = Inr ''a.db'', ss_marker = Inr (True, 10, frames_encode [''verdant-custody-v1'', ''a.db'', ''/native'']),
     ss_env = \<lparr>be_package = ''1'', be_rustc = ''r'', be_target = ''t''\<rparr>, ss_hash_tool = ''sha256'',
     ss_source = example_source, ss_native = \<lparr>nv_dir = Inr (Some ''/native''), nv_artifact = (\<lambda>_. Inr ''abc''), nv_checkpoint = Inr (1, 3, [])\<rparr>,
     ss_history = (\<lambda>_. Inr rows), ss_receipt = MCommitted ''op-1'' [[show_int 7]], ss_max_value = 65536, ss_prepare = (\<lambda>_. Inr ()),
     ss_submit = (\<lambda>w. MCommitted (sw_operation w) [[show_int 7]]), ss_reconcile = MCommitted ''op-1'' [[show_int 7]],
     ss_scan = Inr [], ss_authority = \<lparr>av_store_path = Inr ''a.db'', av_gate_path = Inr ''a.db'', av_rows = Inr [], av_gate = g\<rparr>\<rparr>"

definition example_seal_commit :: seal_commit where
  "example_seal_commit = \<lparr>sm_identity = example_digest, sm_row_id = 7, sm_manifest = example_manifest, sm_reconciled = False\<rparr>"

lemma example_manifest_identity: "manifest_identity example_tool example_manifest = Inr example_digest"
  using example_manifest_length by (simp add: manifest_identity_def sha_hash_def example_tool_def max_artifact_bytes_def)

lemma example_seal_body:
  "row_body (example_seal_view g rows) \<lparr>sh_count = 0, sh_seals = [], sh_released = {}\<rparr> ''op-1'' op_seal_text example_digest
     (frames_encode [''seal-row-v1'', example_digest, manifest_bytes example_manifest]) ''1'' None = Inr example_seal_write"
proof -
  have "length (frames_encode [''seal-row-v1'', example_digest, manifest_bytes example_manifest]) \<le> 2000"
    using example_manifest_length length_frame_le [of "manifest_bytes example_manifest" 1200 4] length_frame_le [of example_digest 64 2]
      length_frame_le [of "''seal-row-v1''" 11 2] by (simp add: example_digest_def)
  then show ?thesis
    using length_text_json [of "frames_encode [''seal-row-v1'', example_digest, manifest_bytes example_manifest]"]
    by (simp add: row_body_def example_seal_write_def example_seal_view_def max_seal_history_def Let_def del: frames_encode_simps)
qed

lemma example_release_body:
  "sh_count h = 1 \<Longrightarrow> row_body (example_seal_view g rows) h ''op-2'' op_release_text example_digest
     (frames_encode [''seal-release-v1'', example_digest]) ''1'' None = Inr example_release_write"
proof -
  have "length (frames_encode [''seal-release-v1'', example_digest]) \<le> 200"
    using length_frame_le [of example_digest 64 2] length_frame_le [of "''seal-release-v1''" 15 2] by (simp add: example_digest_def)
  then show "sh_count h = 1 \<Longrightarrow> ?thesis"
    using length_text_json [of "frames_encode [''seal-release-v1'', example_digest]"]
    by (simp add: row_body_def example_release_write_def example_seal_view_def max_seal_history_def Let_def del: frames_encode_simps)
qed

lemma example_empty_history: "seal_history_read example_tool (Inr []) = Inr \<lparr>sh_count = 0, sh_seals = [], sh_released = {}\<rparr>"
  by (simp add: seal_history_read_def live_seals_def max_seal_history_def)

lemma example_sealed_history:
  "seal_history_read example_tool (Inr [seal_columns_of 7 example_seal_write]) =
     Inr \<lparr>sh_count = 1, sh_seals = [(example_digest, example_seal_commit)], sh_released = {}\<rparr>"
proof -
  have "history_step example_tool 0 (seal_columns_of 7 example_seal_write) \<lparr>sh_count = 0, sh_seals = [], sh_released = {}\<rparr> =
      Inr \<lparr>sh_count = 0, sh_seals = [(example_digest, example_seal_commit)], sh_released = {}\<rparr>"
    using seal_row_reads [OF example_seal_body example_manifest_ok _ example_manifest_identity, of 7] example_manifest_length
    by (simp add: max_manifest_bytes_def in_i64_def example_seal_commit_def)
  from seal_history_snoc [of example_tool "[]", OF _ _ , OF example_empty_history, unfolded list.size, OF this] show ?thesis
    by (simp add: live_seals_def max_seal_history_def max_live_seals_def)
qed

section \<open>A submission\<close>

definition example_draft :: draft where
  "example_draft = \<lparr>dr_revision = 2, dr_scope = example_scope, dr_runtime = \<lparr>rt_binary = ''b'', rt_host = ''h''\<rparr>,
     dr_roots = [example_key], dr_native = [example_native]\<rparr>"

lemma example_publisher:
  obtains g cred auth where "\<forall>rows. authority_of (ss_authority (example_seal_view g rows)) (Some cred) example_scope Drive = Inr auth"
proof -
  obtain rc pc b where boot: "bootstrap example_empty 1 0 ''install'' = Inr (rc, pc, b)" using example_bootstrap by blast
  let ?g = "\<lparr>gv_horizon = 64, gv_scan = Inr (written [1, 2, 3] b), gv_now = Inr 5\<rparr>"
  obtain rep where rep: "enter_publish ?g (Some pc) example_scope = Inr rep"
    using bootstrap_effect_gen [OF boot example_made _ refl, where h = 64 and t = 5 and pid' = 0 and uniq' = 0 and reason' = "[]"]
    by (auto simp: is_ok_iff)
  let ?a = "\<lparr>au_report = rep, au_guard = ''(SELECT COUNT(*) FROM outbox WHERE operation LIKE 'access-%')='' @ show_nat 0\<rparr>"
  have "\<forall>rows. authority_of (ss_authority (example_seal_view ?g rows)) (Some pc) example_scope Drive = Inr ?a"
    using rep by (simp add: authority_of_def example_seal_view_def)
  then show thesis by (rule that)
qed

lemma length_actor_fields: "report_ok report \<Longrightarrow> length (actor_fields report) \<le> 1250"
proof -
  assume ok: "report_ok report"
  let ?row = "actor_row (er_actor report)" and ?b = "actor_bound (er_actor report)"
  have "length (ir_cap ?row) \<le> 128" "length (ir_issuer ?row) \<le> 128" "length (scope_text (ceiling_scope ?b)) \<le> 128"
    using ok by (simp_all add: report_ok_def token_ok_def id_ok_def max_id_len_def)
  moreover have "unat (ir_capgen ?row) < 2 ^ 32" using unsigned_less [of "ir_capgen ?row"] by simp
  then have "unat (ir_capgen ?row) < 10 ^ 10" by simp
  then have "length (show_word (ir_capgen ?row)) \<le> 10" by (rule length_show_word) simp
  ultimately show ?thesis
    using length_pct_encode [of "ir_cap ?row"] length_pct_encode [of "ir_issuer ?row"] length_pct_encode [of "scope_text (ceiling_scope ?b)"]
    by (simp add: actor_fields_def actor_text_def Let_def part_def)
qed

lemma example_staged_length:
  assumes "length publisher \<le> 1250" "findings = [fp]" "length fp \<le> 500" "rows = [\<lparr>rw_key = example_key, rw_digest = example_digest, rw_bytes = n\<rparr>]"
  shows "length (manifest_bytes \<lparr>mf_scope = example_scope, mf_revision = 2,
     mf_runtime = runtime_ref_encode \<lparr>be_package = ''1'', be_rustc = ''r'', be_target = ''t''\<rparr> \<lparr>rt_binary = ''b'', rt_host = ''h''\<rparr>,
     mf_publisher = publisher, mf_hash_tool = ''sha256'', mf_roots = [example_key], mf_rows = rows, mf_findings = findings,
     mf_native = [example_native]\<rparr>) \<le> 5000"
proof -
  let ?run = "runtime_ref_encode \<lparr>be_package = ''1'', be_rustc = ''r'', be_target = ''t''\<rparr> \<lparr>rt_binary = ''b'', rt_host = ''h''\<rparr>"
  let ?r = "\<lparr>rw_key = example_key, rw_digest = example_digest, rw_bytes = n\<rparr>"
  have f: "length (frame s) \<le> length s + 5" if "length s < 10000" for s
    using length_show_nat [of "length s" 4] that by (simp add: frame_def)
  have run: "length ?run \<le> 80" by (simp add: runtime_ref_encode_def runtime_ref_fields_def frame_def show_nat.simps selene_rev_def)
  have "unat n < 2 ^ 64" using unsigned_less [of n] by simp
  then have "length (show_word n) \<le> 20" by (intro length_show_word) simp_all
  then have row: "length (row_ref_encode ?r) \<le> 200"
    using f [of "row_key_encode example_key"] f [of example_digest] f [of "show_word n"] example_encodings(1)
    by (simp add: row_ref_encode_def example_digest_def)
  have fs: "length (frame ''verdant-seal-v1'') \<le> 20" "length (frame ''valid-structural-not-qualified'') \<le> 40" "length (frame ''scope-a'') \<le> 20"
      "length (frame (show_word (2 :: u32))) \<le> 10" "length (frame (show_word schema_generation)) \<le> 10" "length (frame pinned_profile_id) \<le> 50"
      "length (frame ''verdant-converter-r07-v1'') \<le> 40" "length (frame ?run) \<le> 90" "length (frame publisher) \<le> 1300"
      "length (frame ''sha256'') \<le> 20"
    using f [of ?run] f [of publisher] run assms(1)
    by (simp_all add: frame_def show_nat.simps show_word_def schema_generation_def pinned_profile_id_def)
  have e: "length (frame (row_key_encode example_key)) \<le> 60" "length (frame (row_ref_encode ?r)) \<le> 220"
      "length (frame (native_ref_encode example_native)) \<le> 310" "length (frame fp) \<le> 520"
    using example_encodings row assms(3) f [of "row_key_encode example_key"] f [of "row_ref_encode ?r"] f [of "native_ref_encode example_native"]
      f [of fp] by simp_all
  then have "length (frame (frame (row_key_encode example_key))) \<le> 70" "length (frame (frame (row_ref_encode ?r))) \<le> 230"
      "length (frame (frame (native_ref_encode example_native))) \<le> 320" "length (frame (frame fp)) \<le> 530"
    using f [of "frame (row_key_encode example_key)"] f [of "frame (row_ref_encode ?r)"] f [of "frame (native_ref_encode example_native)"]
      f [of "frame fp"] by simp_all
  with fs show ?thesis by (simp add: manifest_bytes_def manifest_fields_def assms(2,4))
qed

lemma example_stages:
  assumes "length publisher \<le> 1250"
  obtains mf refs where "manifest_stage (ss_env (example_seal_view g rows)) ''sha256'' example_draft publisher example_source
      (ss_native (example_seal_view g rows)) = Inr (mf, refs)" "length (manifest_bytes mf) \<le> 5000"
proof -
  obtain fp cl where cl: "closure example_source [example_key] example_scope = Inr cl" "cl_findings cl = [fp]" "length fp \<le> 500"
    "cl_rows cl = [\<lparr>rw_key = example_key, rw_digest = example_digest, rw_bytes = of_nat (length (row_canonical (example_columns @ [''7''])))\<rparr>]"
    using example_closure by metis
  let ?env = "\<lparr>be_package = ''1'', be_rustc = ''r'', be_target = ''t''\<rparr>"
  let ?mf = "\<lparr>mf_scope = example_scope, mf_revision = 2, mf_runtime = runtime_ref_encode ?env \<lparr>rt_binary = ''b'', rt_host = ''h''\<rparr>,
     mf_publisher = publisher, mf_hash_tool = ''sha256'', mf_roots = [example_key], mf_rows = cl_rows cl, mf_findings = cl_findings cl,
     mf_native = [example_native]\<rparr>"
  have nat: "verify_all (native_verify \<lparr>nv_dir = Inr (Some ''/native''), nv_artifact = (\<lambda>_. Inr ''abc''), nv_checkpoint = Inr (1, 3, [])\<rparr> example_tool)
      [example_native] = Inr ()"
    by (simp add: native_verify_def artifact_unchanged_def example_native_def sha_hash_def example_tool_def max_artifact_bytes_def)
  have len: "length (manifest_bytes ?mf) \<le> 5000" by (rule example_staged_length [OF assms cl(2-4)])
  show thesis
    by (rule that [of ?mf "cl_guard cl"])
      (use len cl nat in \<open>simp_all add: manifest_stage_def example_draft_def example_seal_view_def example_source_def max_manifest_bytes_def\<close>)
qed

end
