(* ===== verification/Seal_Properties.thy ===== *)
theory Seal_Properties
  imports Seal_Examples
begin

text \<open>
  The properties of seals: the closure a seal stands on, the findings it ends in, the manifest's
  bytes, what a submission was checked against, and the history of seals and releases.
\<close>

section \<open>The closure\<close>

lemma closed_rows:
  assumes "walk_ok sv scope st" "wk_visiting st = {}"
  shows "sorted_wrt (<) (map rw_key (map snd (wk_rows st))) \<and> set (map rw_key (map snd (wk_rows st))) = bt_dom (wk_rows st) \<and>
    length (wk_rows st) \<le> max_nodes \<and>
    (\<Sum>k \<in> bt_dom (wk_rows st). row_bytes sv k) \<le> max_closure_bytes"
proof -
  have k: "map rw_key (map snd (wk_rows st)) = map fst (wk_rows st)"
    using assms(1) by (auto simp: walk_ok_def)
  show ?thesis unfolding k using assms by (auto simp: walk_ok_def bt_ok_def bt_dom_def)
qed

lemma finite_findings:
  assumes "walk_ok sv scope st" "wk_visiting st = {}" shows "finite (wk_findings st)"
proof -
  have one: "finite {x. \<exists>vals cs. row_refers sv scope k vals cs (Some x)}" (is "finite ?S") for k
  proof (cases "?S = {}")
    case False
    then obtain x where "x \<in> ?S" by blast
    then have "?S \<subseteq> {x}" by (auto dest: row_refers_fun)
    then show ?thesis by (rule finite_subset) simp
  qed simp
  have "wk_findings st = (\<Union>k \<in> bt_dom (wk_rows st). {x. \<exists>vals cs. row_refers sv scope k vals cs (Some x)})"
    using assms by (auto simp: walk_ok_def)
  then show ?thesis using one by (simp add: bt_dom_def)
qed

text \<open>C19: The closure of a seal is closed and bounded: it holds the roots and, with a row, every row it refers to,
  each once in order and with the digest and the length of its columns; it has at most 64 rows of at most
  262144 bytes; its findings are exactly the fingerprints of its finding rows, at least one; and no row in it
  refers to itself through any chain.\<close>

theorem closure_is_closed:
  assumes "closure sv roots scope = Inr cl" "rows_short sv"
  shows "set roots \<subseteq> set (map rw_key (cl_rows cl)) \<and> sorted_wrt (<) (map rw_key (cl_rows cl)) \<and>
    (\<forall>r \<in> set (cl_rows cl). \<exists>vals cs f. row_refers sv scope (rw_key r) vals cs f \<and> set cs \<subseteq> set (map rw_key (cl_rows cl)) \<and>
       sha_hash (sv_tool sv) (row_canonical vals) = Inr (rw_digest r) \<and> unat (rw_bytes r) = length (row_canonical vals)) \<and>
    length (cl_rows cl) \<le> 64 \<and> (\<Sum>r \<leftarrow> cl_rows cl. unat (rw_bytes r)) \<le> 262144 \<and>
    cl_findings cl \<noteq> [] \<and> set (cl_findings cl) =
      {x. \<exists>r \<in> set (cl_rows cl). \<exists>vals cs. row_refers sv scope (rw_key r) vals cs (Some x)} \<and>
    (\<forall>r \<in> set (cl_rows cl). (rw_key r, rw_key r) \<notin> (refers sv scope)\<^sup>+)"
proof (rule closure_cases [OF assms])
  fix st
  assume st: "walk_ok sv scope st" "wk_visiting st = {}" "set roots \<subseteq> bt_dom (wk_rows st)" "wk_findings st \<noteq> {}"
    "cl = \<lparr>cl_rows = map snd (wk_rows st), cl_findings = sorted_list_of_set (wk_findings st), cl_guard = wk_guard st\<rparr>"
  note keys = closed_rows [OF st(1,2)]
  have rows: "\<exists>vals cs f. row_refers sv scope (rw_key r) vals cs f \<and> set cs \<subseteq> bt_dom (wk_rows st) \<and>
       sha_hash (sv_tool sv) (row_canonical vals) = Inr (rw_digest r) \<and> unat (rw_bytes r) = length (row_canonical vals) \<and>
       row_bytes sv (rw_key r) = unat (rw_bytes r) \<and> grounded sv scope (rw_key r)"
    if r: "r \<in> set (cl_rows cl)" for r
  proof -
    obtain k where "(k, r) \<in> set (wk_rows st)" using r by (auto simp: st(5))
    then obtain vals cs f where v: "grounded sv scope k" "row_refers sv scope k vals cs f" "set cs \<subseteq> bt_dom (wk_rows st)"
       "sha_hash (sv_tool sv) (row_canonical vals) = Inr (rw_digest r)" "rw_key r = k" "rw_bytes r = of_nat (length (row_canonical vals))"
      using st(1) by (fastforce simp: walk_ok_def)
    moreover have "length (row_canonical vals) < 2 ^ 64" using v(2) assms(2) by (auto simp: rows_short_def row_refers_def)
    ultimately show ?thesis
      by (metis row_canonical_mod row_refers_def source_row_bytes)
  qed
  have "(\<Sum>r \<leftarrow> cl_rows cl. unat (rw_bytes r)) = (\<Sum>k \<leftarrow> map rw_key (cl_rows cl). row_bytes sv k)"
    by (simp add: comp_def cong: map_cong) (metis (no_types, lifting) map_cong rows)
  also have "\<dots> = (\<Sum>k \<in> bt_dom (wk_rows st). row_bytes sv k)"
    using keys by (simp add: st(5) sum_list_distinct_conv_sum_set strict_sorted_iff flip: map_map)
  finally have bytes: "(\<Sum>r \<leftarrow> cl_rows cl. unat (rw_bytes r)) \<le> 262144" using keys by (simp add: max_closure_bytes_def)
  have fin: "finite (wk_findings st)" by (rule finite_findings [OF st(1,2)])
  have "{x. \<exists>r \<in> set (cl_rows cl). \<exists>vals cs. row_refers sv scope (rw_key r) vals cs (Some x)} =
      {x. \<exists>k \<in> set (map rw_key (cl_rows cl)). \<exists>vals cs. row_refers sv scope k vals cs (Some x)}" by simp
  also have "\<dots> = wk_findings st" using keys st(1,2) by (simp add: st(5) walk_ok_def)
  finally have "{x. \<exists>r \<in> set (cl_rows cl). \<exists>vals cs. row_refers sv scope (rw_key r) vals cs (Some x)} = wk_findings st" .
  then have f: "cl_findings cl \<noteq> []" "set (cl_findings cl) =
      {x. \<exists>r \<in> set (cl_rows cl). \<exists>vals cs. row_refers sv scope (rw_key r) vals cs (Some x)}"
    using fin st(4) by (simp_all add: st(5))
  have k: "set (map rw_key (cl_rows cl)) = bt_dom (wk_rows st)" "sorted_wrt (<) (map rw_key (cl_rows cl))" "length (cl_rows cl) \<le> 64"
    using keys by (simp_all add: st(5) max_nodes_def)
  show ?thesis
    unfolding k(1) using rows grounded_acyclic by (intro conjI ballI st(3) k f bytes) blast+
qed

theorem closure_is_closed_witness:
  "\<exists>cl. closure example_source [example_key] example_scope = Inr cl \<and> example_key \<in> set (map rw_key (cl_rows cl)) \<and>
     cl_findings cl \<noteq> []"
proof -
  obtain cl where "closure example_source [example_key] example_scope = Inr cl" using example_closure by metis
  from this closure_is_closed [OF this example_rows_short] show ?thesis by auto
qed

section \<open>Findings\<close>

text \<open>C28: A finding that is newly emitted (its operation has no receipt yet) for a binding in shape for a seal is durable and
  sealable. The shape is the one a typed proposal has: a valid status, the role that was asked for, an unambiguous
  feedback, one scope for point and endpoint, and fields without the separator, and a mode that is not a dash. The finding
  then names a current proposal under the authority the gate gave, its row replays to the registry with the
  finding appended, and the text of the row has the fingerprint that a seal of its scope ends in.\<close>

theorem emitted_finding_is_sealable:
  assumes "emit_finding_operation pv operation revision b credential r0 = (r', Inr f)" "pv_reconcile pv = MNotCommitted o' e"
    and "sealable b (pb_point_scope b)" "id_ok operation" "sha_hash tool (canonical_bytes b) = Inr d"
  shows "\<exists>r rows p n row q auth. replay (rv_scan (pv_base pv)) r0 = (r, Inr ()) \<and> read_descriptors (rv_scan (pv_base pv)) = Inr rows \<and>
    b \<in> set (rg_bindings r) \<and> resolve r b = Inr () \<and>
    authority_of (pv_authority pv) (Some credential) (pb_point_scope b) (pb_requested b) = Inr auth \<and>
    submitted (rv_submit (pv_base pv) p) = Inr n \<and> decode_row (stored_columns n p) = Inr row \<and>
    replays (rows @ [row]) q \<and> rg_findings q = rg_findings r @ [f] \<and>
    (\<exists>raw. value_from_json (pr_value p) = Inr (VText raw) \<and> finding_fingerprint raw (pb_point_scope b) tool =
       Inr (frames_encode [fi_id f, show_word revision, actor_fields (au_report auth), ''synthetic-fnv1a64-not-authority'',
         fi_digest f, ''binding-canonical-v2-sha256'', d]))"
proof (rule emitted_finding_gen [OF assms(1,2) _ assms(4)])
  show "binding_ok b" using assms(3) by (simp add: sealable_def)
  fix r rows p n row q auth
  assume a: "replay (rv_scan (pv_base pv)) r0 = (r, Inr ())" "read_descriptors (rv_scan (pv_base pv)) = Inr rows"
    "submitted (rv_submit (pv_base pv) p) = Inr n" "decode_row (stored_columns n p) = Inr row" "replays (rows @ [row]) q"
    "rg_findings q = rg_findings r @ [f]" "b \<in> set (rg_bindings r)" "resolve r b = Inr ()"
    and au: "authority_of (pv_authority pv) (Some credential) (pb_point_scope b) (pb_requested b) = Inr auth"
    and v: "pr_value p = value_to_json (VText (stored_finding operation revision b f (actor_fields (au_report auth))))"
    and f: "f = finding_for_binding b revision (actor_fields (au_report auth))" and r: "revision \<noteq> 0"
  note report = authority_report_ok [OF au]
  have "utf8_valid (stored_finding operation revision b f (actor_fields (au_report auth)))"
    using finding_fields_ok(3) [OF _ assms(4) report f] assms(3) by (simp add: stored_finding_fields sealable_def)
  then have "value_from_json (pr_value p) = Inr (VText (stored_finding operation revision b f (actor_fields (au_report auth))))"
    using value_round_trip_gen [of "VText (stored_finding operation revision b f (actor_fields (au_report auth)))"] v by simp
  moreover note stored_finding_fingerprint [OF assms(3,4) report f r authority_scope [OF au] assms(5)]
  ultimately show ?thesis using a au by blast
qed

theorem emitted_finding_is_sealable_witness:
  "\<exists>rows row q f raw. replays (rows @ [row]) q \<and> f \<in> set (rg_findings q) \<and>
     is_ok (finding_fingerprint raw example_scope example_tool)"
proof -
  obtain cols g cred r' f where e: "emit_finding_operation (example_proposal_view cols g) ''op-1'' 2 example_binding cred
      (cleared_registry 0) = (r', Inr f)" by (rule example_emits)
  have "pv_reconcile (example_proposal_view cols g) = MNotCommitted ''op-1'' (SqliteFailure ''no receipt'')"
    by (simp add: example_proposal_view_def)
  note main = emitted_finding_is_sealable [OF e this _ example_words(4), of example_tool example_digest]
  have s: "sealable example_binding (pb_point_scope example_binding)" and sc: "pb_point_scope example_binding = example_scope"
    using example_sealable by (simp_all add: example_binding_def)
  have "sha_hash example_tool (canonical_bytes example_binding) = Inr example_digest"
    using example_canonical_length by (simp add: sha_hash_def example_tool_def max_artifact_bytes_def)
  from main [OF s this] obtain rows row q raw fp where "replays (rows @ [row]) q" "f \<in> set (rg_findings q)"
      "finding_fingerprint raw example_scope example_tool = Inr fp"
    unfolding sc by fastforce
  then show ?thesis unfolding is_ok_iff by blast
qed

section \<open>Manifests\<close>

text \<open>C29: A manifest is its bytes: every manifest in shape and within its bounds is read back from its bytes exactly,
  and every text that is read as a manifest is exactly the bytes of that manifest, so that no two texts are the
  same manifest; and a sealed manifest is never replaced.\<close>

theorem manifest_round_trip:
  assumes "manifest_ok mf" "length (manifest_bytes mf) \<le> max_manifest_bytes"
  shows "manifest_decode (manifest_bytes mf) = Inr mf \<and> (\<forall>raw. manifest_decode raw = Inr mf \<longleftrightarrow> raw = manifest_bytes mf) \<and>
    (\<forall>d. manifest_replace mf d = (mf, Inl SealedMutation))"
  using assms by (auto simp: manifest_round_trip_gen manifest_replace_def dest: manifest_decode_sound)

theorem manifest_round_trip_witness:
  "manifest_decode (manifest_bytes example_manifest) = Inr example_manifest"
  using manifest_round_trip [OF example_manifest_ok] example_manifest_length by (simp add: max_manifest_bytes_def)

section \<open>Submissions\<close>

text \<open>C13: A seal is what the gate allowed and the sources hold: a committed seal was submitted by a credential that the
  gate admits to publish in the draft's scope, over a closure of the draft's roots that ends in findings and
  native artifacts that match their digests, all read at the submission; and the manifest that the commit
  returns has the digest of the manifest that was staged, which is the identity of the seal.\<close>

theorem seal_is_checked:
  assumes "seal_submit sl operation d credential r = Inr c"
  shows "\<exists>auth mf cl. authority_of (ss_authority sl) (Some credential) (dr_scope d) Drive = Inr auth \<and>
    closure (ss_source sl) (dr_roots d) (dr_scope d) = Inr cl \<and>
    verify_all (native_verify (ss_native sl) (sv_tool (ss_source sl))) (dr_native d) = Inr () \<and>
    mf_scope mf = dr_scope d \<and> mf_revision mf = dr_revision d \<and> mf_publisher mf = actor_fields (au_report auth) \<and>
    mf_roots mf = dr_roots d \<and> mf_rows mf = cl_rows cl \<and> mf_findings mf = cl_findings cl \<and> mf_native mf = dr_native d \<and>
    length (manifest_bytes mf) \<le> max_manifest_bytes \<and>
    manifest_identity (sv_tool (ss_source sl)) mf = Inr (sm_identity c) \<and>
    manifest_identity (sv_tool (ss_source sl)) (sm_manifest c) = Inr (sm_identity c)"
proof (rule seal_submit_sound [OF assms])
  fix auth mf refs
  assume a: "authority_of (ss_authority sl) (Some credential) (dr_scope d) Drive = Inr auth"
    "manifest_stage (ss_env sl) (ss_hash_tool sl) d (actor_fields (au_report auth)) (ss_source sl) (ss_native sl) = Inr (mf, refs)"
    "manifest_identity (sv_tool (ss_source sl)) mf = Inr (sm_identity c)"
    "manifest_identity (sv_tool (ss_source sl)) (sm_manifest c) = Inr (sm_identity c)"
  from a(2) obtain cl where "closure (ss_source sl) (dr_roots d) (dr_scope d) = Inr cl"
    "verify_all (native_verify (ss_native sl) (sv_tool (ss_source sl))) (dr_native d) = Inr ()"
    "length (manifest_bytes mf) \<le> max_manifest_bytes"
    "mf = \<lparr>mf_scope = dr_scope d, mf_revision = dr_revision d, mf_runtime = runtime_ref_encode (ss_env sl) (dr_runtime d),
       mf_publisher = actor_fields (au_report auth), mf_hash_tool = ss_hash_tool sl, mf_roots = dr_roots d, mf_rows = cl_rows cl,
       mf_findings = cl_findings cl, mf_native = dr_native d\<rparr>"
    by (auto simp: manifest_stage_def Let_def not_less split: if_splits)
  with a(1,3,4) show ?thesis by (intro exI [of _ auth] exI [of _ mf] exI [of _ cl]) auto
qed

theorem seal_is_checked_witness:
  "\<exists>g cred r c. seal_submit (example_seal_view g [seal_columns_of 7 example_seal_write]) ''op-1'' example_draft cred r = Inr c \<and>
     manifest_identity example_tool (sm_manifest c) = Inr (sm_identity c)"
proof -
  let ?v = "\<lambda>g. example_seal_view g [seal_columns_of 7 example_seal_write]"
  obtain g cred auth where "\<forall>rows. authority_of (ss_authority (example_seal_view g rows)) (Some cred) example_scope Drive = Inr auth"
    by (rule example_publisher)
  then have auth: "authority_of (ss_authority (?v g)) (Some cred) example_scope Drive = Inr auth" by blast
  obtain mf refs where mf: "manifest_stage (ss_env (?v g)) ''sha256'' example_draft (actor_fields (au_report auth)) example_source
      (ss_native (?v g)) = Inr (mf, refs)" "length (manifest_bytes mf) \<le> 5000"
    by (rule example_stages [OF length_actor_fields [OF authority_report_ok [OF auth]]])
  have id: "manifest_identity example_tool mf = Inr example_digest"
    using mf(2) by (simp add: manifest_identity_def sha_hash_def example_tool_def max_artifact_bytes_def)
  have src: "ss_source (?v g) = example_source" "sv_tool example_source = example_tool" "ss_hash_tool (?v g) = ''sha256''"
      "ss_receipt (?v g) = MCommitted ''op-1'' [[show_int 7]]" "ss_history (?v g) = (\<lambda>_. Inr [seal_columns_of 7 example_seal_write])"
      "dr_scope example_draft = example_scope"
    by (simp_all add: example_seal_view_def example_source_def example_draft_def)
  have rec: "reconcile_inner (?v g) example_digest = Inr (Some (example_seal_commit\<lparr>sm_reconciled := True\<rparr>))"
    by (simp add: reconcile_inner_def read_seal_commit_def src example_sealed_history committed_id_def in_i64_def example_seal_commit_def)
  have "seal_submit (?v g) ''op-1'' example_draft cred r = Inr (example_seal_commit\<lparr>sm_reconciled := True\<rparr>)" for r
    by (simp add: seal_submit_def src auth mf(1) id rec)
  with seal_is_checked [OF this] show ?thesis by (metis src(1,2))
qed

section \<open>The history of seals and releases\<close>

text \<open>C30: The rows a store writes are the changes they record: a history followed by the row of a new seal is read as
  the history with that manifest under its digest, and followed by the row of its release as the history with
  that identity released; neither loses anything that was read before.\<close>

theorem seal_rows_refine_history:
  assumes "seal_history_read tool (Inr rows) = Inr h" "length (live_seals h) < max_live_seals"
    and "row_body sl h operation op_seal_text identity (frames_encode [''seal-row-v1'', identity, manifest_bytes mf]) condition expiry = Inr w"
    and "manifest_ok mf" "length (manifest_bytes mf) \<le> max_manifest_bytes" "manifest_identity tool mf = Inr identity"
    and "digest_ok identity" "bt_get (sh_seals h) identity = None" "in_i64 n"
  shows "\<exists>h1. seal_history_read tool (Inr (rows @ [seal_columns_of n w])) = Inr h1 \<and> sh_released h1 = sh_released h \<and>
    sh_seals h1 = bt_insert identity \<lparr>sm_identity = identity, sm_row_id = n, sm_manifest = mf, sm_reconciled = False\<rparr> (sh_seals h) \<and>
    (\<forall>sl2 operation2 condition2 expiry2 w2 m. in_i64 m \<longrightarrow>
       row_body sl2 h1 operation2 op_release_text identity (frames_encode [''seal-release-v1'', identity]) condition2 expiry2 = Inr w2 \<longrightarrow>
       (\<exists>h2. seal_history_read tool (Inr (rows @ [seal_columns_of n w, seal_columns_of m w2])) = Inr h2 \<and>
          sh_seals h2 = sh_seals h1 \<and> sh_released h2 = insert identity (sh_released h)))"
proof -
  let ?c = "\<lparr>sm_identity = identity, sm_row_id = n, sm_manifest = mf, sm_reconciled = False\<rparr>"
  let ?h1 = "h\<lparr>sh_seals := bt_insert identity ?c (sh_seals h), sh_count := length rows + 1\<rparr>"
  note count = seal_history_read_count [OF assms(1)]
  have rel: "identity \<notin> sh_released h" using seal_history_read_wf [OF assms(1)] assms(8) by (auto simp: seal_wf_def bt_get_None_iff)
  have room: "length rows < max_seal_history" using row_body_cases [OF assms(3)] count by simp
  have live: "length (live_seals (h\<lparr>sh_seals := bt_insert identity ?c (sh_seals h)\<rparr>)) \<le> max_live_seals"
    using live_seals_insert [OF assms(8), of ?c] assms(2) by simp
  have one: "seal_history_read tool (Inr (rows @ [seal_columns_of n w])) = Inr ?h1"
    using seal_history_snoc [OF assms(1) seal_row_reads [OF assms(3-9), unfolded count] room live] by simp
  have "\<exists>h2. seal_history_read tool (Inr (rows @ [seal_columns_of n w, seal_columns_of m w2])) = Inr h2 \<and>
          sh_seals h2 = sh_seals ?h1 \<and> sh_released h2 = insert identity (sh_released h)"
    if m: "in_i64 m" and w2: "row_body sl2 ?h1 operation2 op_release_text identity (frames_encode [''seal-release-v1'', identity]) condition2 expiry2 = Inr w2"
    for sl2 operation2 condition2 expiry2 w2 m
  proof -
    have step: "history_step tool (sh_count ?h1) (seal_columns_of m w2) ?h1 = Inr (?h1\<lparr>sh_released := insert identity (sh_released ?h1)\<rparr>)"
      by (rule release_row_reads [OF w2 assms(7), of ?c]) (use m rel in simp_all)
    have "length (live_seals (?h1\<lparr>sh_released := insert identity (sh_released ?h1)\<rparr>)) \<le> max_live_seals"
      using live_seals_release [where h = ?h1 and i = identity] live by (simp add: live_seals_def)
    moreover have "length (rows @ [seal_columns_of n w]) < max_seal_history" using row_body_cases [OF w2] by simp
    ultimately have "seal_history_read tool (Inr ((rows @ [seal_columns_of n w]) @ [seal_columns_of m w2])) =
        Inr (?h1\<lparr>sh_released := insert identity (sh_released ?h1), sh_count := length (rows @ [seal_columns_of n w]) + 1\<rparr>)"
      using seal_history_snoc [OF one, of "seal_columns_of m w2"] step by simp
    then show ?thesis by simp
  qed
  with one show ?thesis by (intro exI [of _ ?h1]) simp
qed

theorem seal_rows_refine_history_witness:
  "\<exists>h2. seal_history_read example_tool (Inr [seal_columns_of 7 example_seal_write, seal_columns_of 8 example_release_write]) = Inr h2 \<and>
     bt_dom (sh_seals h2) = {example_digest} \<and> sh_released h2 = {example_digest}"
proof -
  note main = seal_rows_refine_history [OF example_empty_history _ example_seal_body example_manifest_ok _ example_manifest_identity, of 7]
  obtain h1 where h1: "seal_history_read example_tool (Inr [seal_columns_of 7 example_seal_write]) = Inr h1"
      "bt_dom (sh_seals h1) = {example_digest}"
      "\<forall>sl2 operation2 condition2 expiry2 w2 m. in_i64 m \<longrightarrow>
       row_body sl2 h1 operation2 op_release_text example_digest (frames_encode [''seal-release-v1'', example_digest]) condition2 expiry2 = Inr w2 \<longrightarrow>
       (\<exists>h2. seal_history_read example_tool (Inr [seal_columns_of 7 example_seal_write, seal_columns_of m w2]) = Inr h2 \<and>
          sh_seals h2 = sh_seals h1 \<and> sh_released h2 = {example_digest})"
    using main example_manifest_length by (auto simp: live_seals_def max_live_seals_def max_manifest_bytes_def in_i64_def)
  have "sh_count h1 = 1" using seal_history_read_count [OF h1(1)] by simp
  from h1(3) [rule_format, OF _ example_release_body [OF this, of undefined "[]"], of 8] h1(2) show ?thesis
    by (auto simp: in_i64_def)
qed

text \<open>C18: Seals are kept until they are released, and a release is final: whatever rows follow a history, a seal in it
  is captured only as the manifest that was sealed, a released one is never captured again, and native bytes may
  be pruned only when every seal has been released.\<close>

theorem seals_kept_until_released:
  assumes "seal_history_read (sv_tool (ss_source sl)) (Inr rows) = Inr h" "ss_history sl 0 = Inr (rows @ later)"
  shows "(\<forall>i c mf. bt_get (sh_seals h) i = Some c \<longrightarrow> capture_simulation sl i = Inr mf \<longrightarrow> mf = sm_manifest c) \<and>
    (\<forall>i \<in> sh_released h. \<not> is_ok (capture_simulation sl i)) \<and>
    (check_prune debug sl pair = Inr () \<longrightarrow>
       (\<exists>h'. seal_history_read (sv_tool (ss_source sl)) (ss_history sl 0) = Inr h' \<and> bt_dom (sh_seals h) \<subseteq> sh_released h' \<and>
          bt_dom (sh_seals h') = sh_released h'))"
proof (intro conjI allI impI ballI)
  show "mf = sm_manifest c" if "bt_get (sh_seals h) i = Some c" "capture_simulation sl i = Inr mf" for i c mf
    using that(2)
  proof (rule capture_cases)
    fix h' c'
    assume h': "seal_history_read (sv_tool (ss_source sl)) (ss_history sl 0) = Inr h'" "bt_get (sh_seals h') i = Some c'" "sm_manifest c' = mf"
    from seal_history_extend [OF assms(1) h'(1) [unfolded assms(2)]] that(1) h'(2,3) show ?thesis
      by (auto simp: seals_extend_def)
  qed
  show "\<not> is_ok (capture_simulation sl i)" if "i \<in> sh_released h" for i
    by (rule released_not_captured [OF assms(1) that assms(2)])
  assume "check_prune debug sl pair = Inr ()"
  then obtain h' where h': "seal_history_read (sv_tool (ss_source sl)) (ss_history sl 0) = Inr h'" "bt_dom (sh_seals h') = sh_released h'"
    using prune_allowed by blast
  have "bt_dom (sh_seals h) \<subseteq> bt_dom (sh_seals h')"
    using seal_history_extend [OF assms(1) h'(1) [unfolded assms(2)]]
    by (auto simp: seals_extend_def) (metis bt_get_None_iff not_None_eq option.distinct(1))
  with h' show "\<exists>h'. seal_history_read (sv_tool (ss_source sl)) (ss_history sl 0) = Inr h' \<and> bt_dom (sh_seals h) \<subseteq> sh_released h' \<and>
          bt_dom (sh_seals h') = sh_released h'" by blast
qed

theorem seals_kept_until_released_witness:
  "\<exists>g (h :: seal_history). ss_history (example_seal_view g [seal_columns_of 7 example_seal_write]) 0 = Inr [seal_columns_of 7 example_seal_write] \<and>
     bt_dom (sh_seals h) = {example_digest} \<and> sh_released h = {} \<and>
     (\<forall>debug pair. check_prune debug (example_seal_view g [seal_columns_of 7 example_seal_write]) pair \<noteq> Inr ())"
proof -
  let ?sl = "\<lambda>g. example_seal_view g [seal_columns_of 7 example_seal_write]"
  let ?h = "\<lparr>sh_count = 1, sh_seals = [(example_digest, example_seal_commit)], sh_released = {}\<rparr>"
  have v: "sv_tool (ss_source (?sl g)) = example_tool" "ss_history (?sl g) 0 = Inr [seal_columns_of 7 example_seal_write]" for g
    by (simp_all add: example_seal_view_def example_source_def)
  have h: "seal_history_read (sv_tool (ss_source (?sl g))) (Inr [seal_columns_of 7 example_seal_write]) = Inr ?h" for g
    by (simp only: v example_sealed_history)
  have "check_prune debug (?sl g) pair \<noteq> Inr ()" for g debug pair
    using seals_kept_until_released [OF h, of g "[]" debug pair] by (auto simp: v h example_sealed_history bt_dom_def)
  with v(2) show ?thesis by (intro exI [of _ "undefined :: gate_view"] exI [of _ ?h]) (simp add: bt_dom_def)
qed

end
