(* ===== verification/Obs_Time.thy ===== *)
theory Obs_Time
  imports Access_Facts
begin

text \<open>
  Time evidence and freshness: \<open>src/src/observation/time.rs\<close>, with the observation error of
  \<open>src/src/observation/mod.rs\<close>. A \<open>SystemTime\<close> is its distance from the Unix epoch in
  nanoseconds, of either sign; a \<open>Duration\<close> is a number of nanoseconds that is never negative.
\<close>

section \<open>Errors\<close>

datatype obs_error =
    ObsInvalid string
  | ObsConflict string
  | ObsDomain error
  | ObsAccess access_error

fun obs_error_code :: "obs_error \<Rightarrow> string" where
  "obs_error_code (ObsInvalid _) = ''invalid-input''"
| "obs_error_code (ObsConflict _) = ''conflict''"
| "obs_error_code (ObsDomain e) = error_code e"
| "obs_error_code (ObsAccess e) = access_error_code e"

fun obs_error_display :: "obs_error \<Rightarrow> string" where
  "obs_error_display (ObsInvalid detail) = ''[invalid-input] '' @ detail"
| "obs_error_display (ObsConflict detail) = ''[conflict] '' @ detail"
| "obs_error_display (ObsDomain e) = error_display e"
| "obs_error_display (ObsAccess e) = access_error_display e"

section \<open>Clock readings\<close>

type_synonym system_time = int
type_synonym duration = int

definition nanos_per_milli :: int where
  "nanos_per_milli = 1000000"

definition millis :: "system_time \<Rightarrow> obs_error + unix_millis" where
  "millis time =
     (let value = (if 0 \<le> time then time div nanos_per_milli
                   else - ((- time) div nanos_per_milli) -
                     (if ((- time) mod 1000000000) mod nanos_per_milli \<noteq> 0 then 1 else 0))
      in if in_i64 value then Inr value else Inl (ObsInvalid ''wall time range''))"

datatype observation_times =
    SourcePresent time_triple
  | SourceAbsent unix_millis unix_millis
  | WallAmbiguous "unix_millis option" unix_millis unix_millis

fun times_source :: "observation_times \<Rightarrow> unix_millis option" where
  "times_source (SourcePresent triple) = Some (tt_source triple)"
| "times_source (SourceAbsent _ _) = None"
| "times_source (WallAmbiguous source _ _) = source"

fun times_receipt :: "observation_times \<Rightarrow> unix_millis" where
  "times_receipt (SourcePresent triple) = tt_receipt triple"
| "times_receipt (SourceAbsent receipt _) = receipt"
| "times_receipt (WallAmbiguous _ receipt _) = receipt"

datatype continuity = Confirmed | WallOrSuspendAmbiguous

datatype freshness = Fresh | Stale | UnknownFreshness

fun freshness_retain :: "freshness \<Rightarrow> freshness \<Rightarrow> freshness" where
  "freshness_retain Stale assessed = Stale"
| "freshness_retain UnknownFreshness assessed = UnknownFreshness"
| "freshness_retain Fresh assessed = assessed"

record clock_reading =
  cr_wall :: system_time
  cr_monotonic :: monotonic_mark
  cr_continuity :: continuity

datatype receipt_origin = InertAdapterReturn | BacnetClientReturn

record time_evidence =
  te_times :: observation_times
  te_receipt_origin :: receipt_origin
  te_receipt_mark :: monotonic_mark
  te_ingestion :: clock_reading

record freshness_policy =
  fp_max_age :: duration
  fp_max_wall_skew :: duration

definition freshness_policy_new :: "duration \<Rightarrow> duration \<Rightarrow> obs_error + freshness_policy" where
  "freshness_policy_new max_age max_wall_skew =
     (if max_age = 0 then Inl (ObsInvalid ''zero freshness horizon'')
      else Inr \<lparr>fp_max_age = max_age, fp_max_wall_skew = max_wall_skew\<rparr>)"

definition from_nanos :: "u64 \<Rightarrow> duration" where
  "from_nanos n = uint n"

text \<open>\<open>Duration::from_millis\<close> of a difference that fits \<open>u64\<close>.\<close>

definition duration_of_millis :: "int \<Rightarrow> duration option" where
  "duration_of_millis ms = (if 0 \<le> ms then Some (ms * nanos_per_milli) else None)"

definition is_wall_ambiguous :: "observation_times \<Rightarrow> bool" where
  "is_wall_ambiguous ot = (case ot of WallAmbiguous _ _ _ \<Rightarrow> True | _ \<Rightarrow> False)"

definition assess :: "freshness_policy \<Rightarrow> time_evidence \<Rightarrow> clock_reading \<Rightarrow> freshness" where
  "assess p evidence now =
     (if cr_continuity (te_ingestion evidence) \<noteq> Confirmed \<or> cr_continuity now \<noteq> Confirmed
         \<or> is_wall_ambiguous (te_times evidence)
      then UnknownFreshness
      else (case elapsed_since (cr_monotonic now) (te_receipt_mark evidence) of
        Inl _ \<Rightarrow> UnknownFreshness
      | Inr elapsed_nanos \<Rightarrow>
          if \<not> is_ok (elapsed_since (cr_monotonic now) (cr_monotonic (te_ingestion evidence))) then UnknownFreshness
          else (case millis (cr_wall now) of
            Inl _ \<Rightarrow> UnknownFreshness
          | Inr wall \<Rightarrow>
              (case checked_sub_i64 wall (times_receipt (te_times evidence)) of
                 None \<Rightarrow> UnknownFreshness
               | Some wall_diff \<Rightarrow>
                   (case duration_of_millis wall_diff of
                      None \<Rightarrow> UnknownFreshness
                    | Some wall_age \<Rightarrow>
                        (let elapsed = from_nanos elapsed_nanos in
                         if abs (elapsed - wall_age) > fp_max_wall_skew p then UnknownFreshness
                         else
                           (case (case times_source (te_times evidence) of
                                    None \<Rightarrow> Some 0
                                  | Some source \<Rightarrow>
                                      Option.bind (checked_sub_i64 wall source) duration_of_millis) of
                              None \<Rightarrow> UnknownFreshness
                            | Some source_age \<Rightarrow>
                                if elapsed \<ge> fp_max_age p \<or> wall_age \<ge> fp_max_age p \<or> source_age \<ge> fp_max_age p
                                then Stale else Fresh)))))))"

definition time_evidence_new :: "system_time option \<Rightarrow> system_time \<Rightarrow> receipt_origin \<Rightarrow> monotonic_mark \<Rightarrow> clock_reading \<Rightarrow>
    obs_error + time_evidence" where
  "time_evidence_new source receipt origin mark ingestion =
     and_then (case source of None \<Rightarrow> Inr None | Some s \<Rightarrow> map_ok Some (millis s)) (\<lambda>source_ms.
     and_then (millis receipt) (\<lambda>receipt_ms.
     and_then (millis (cr_wall ingestion)) (\<lambda>ingested.
     and_then
       (if (case source_ms of Some s \<Rightarrow> s > receipt_ms | None \<Rightarrow> False) \<or> receipt_ms > ingested
        then Inr (WallAmbiguous source_ms receipt_ms ingested)
        else (case source_ms of
                Some s \<Rightarrow> map_ok SourcePresent (map_err ObsDomain (time_triple_new s receipt_ms ingested))
              | None \<Rightarrow> Inr (SourceAbsent receipt_ms ingested)))
       (\<lambda>ot. Inr \<lparr>te_times = ot, te_receipt_origin = origin, te_receipt_mark = mark, te_ingestion = ingestion\<rparr>))))"

section \<open>What they guarantee\<close>

text \<open>Milliseconds are rounded towards the past on both sides of the epoch.\<close>

lemma millis_value:
  "(if 0 \<le> time then time div nanos_per_milli
    else - ((- time) div nanos_per_milli) - (if ((- time) mod 1000000000) mod nanos_per_milli \<noteq> 0 then 1 else 0)) =
   time div nanos_per_milli"
proof -
  have "((- time) mod 1000000000) mod 1000000 = (- time) mod 1000000" by (rule mod_mod_cancel) simp
  moreover have "time div 1000000 = (if (- time) mod 1000000 = 0 then - ((- time) div 1000000) else - ((- time) div 1000000) - 1)"
    using zdiv_zminus1_eq_if [of 1000000 "- time"] by simp
  ultimately show ?thesis by (simp add: nanos_per_milli_def)
qed

lemma millis_floor: "millis time = (if in_i64 (time div nanos_per_milli) then Inr (time div nanos_per_milli) else Inl (ObsInvalid ''wall time range''))"
  unfolding millis_def Let_def millis_value by simp

lemma millis_mono: "millis a = Inr x \<Longrightarrow> millis b = Inr y \<Longrightarrow> a \<le> b \<Longrightarrow> x \<le> y"
  by (auto simp: millis_floor nanos_per_milli_def zdiv_mono1 split: if_splits)

lemma millis_range: "millis a = Inr x \<Longrightarrow> in_i64 x"
  by (auto simp: millis_floor split: if_splits)

text \<open>Evidence is ambiguous exactly when the wall clock ran backwards; otherwise its times are ordered.\<close>

definition times_ordered :: "observation_times \<Rightarrow> bool" where
  "times_ordered ot =
     (case ot of
        SourcePresent t \<Rightarrow> tt_source t \<le> tt_receipt t \<and> tt_receipt t \<le> tt_ingestion t
      | SourceAbsent r i \<Rightarrow> r \<le> i
      | WallAmbiguous s r i \<Rightarrow> (case s of Some x \<Rightarrow> r < x | None \<Rightarrow> False) \<or> i < r)"

lemma time_evidence_new_cases:
  assumes "time_evidence_new source receipt origin mark ingestion = Inr ev"
  shows "times_ordered (te_times ev) \<and> te_receipt_mark ev = mark \<and> te_ingestion ev = ingestion \<and>
    te_receipt_origin ev = origin \<and> millis receipt = Inr (times_receipt (te_times ev)) \<and>
    (case source of None \<Rightarrow> times_source (te_times ev) = None
     | Some s \<Rightarrow> \<exists>x. millis s = Inr x \<and> times_source (te_times ev) = Some x)"
  using assms
  by (cases source) (auto simp: time_evidence_new_def times_ordered_def time_triple_new_eq not_less split: if_splits)

lemma time_evidence_new_fails:
  "time_evidence_new source receipt origin mark ingestion = Inl e \<Longrightarrow> e = ObsInvalid ''wall time range''"
  by (cases source)
    (auto simp: time_evidence_new_def and_then_eq_Inl millis_floor time_triple_new_def map_ok_def map_err_def
      split: if_splits sum.splits)

lemma duration_of_millis_Some: "duration_of_millis ms = Some d \<longleftrightarrow> 0 \<le> ms \<and> d = ms * nanos_per_milli"
  by (auto simp: duration_of_millis_def)

lemma assess_cases:
  assumes "assess p ev now \<noteq> UnknownFreshness"
  obtains elapsed wall wall_age source_age where
    "cr_continuity (te_ingestion ev) = Confirmed" "cr_continuity now = Confirmed" "\<not> is_wall_ambiguous (te_times ev)"
    "elapsed_since (cr_monotonic now) (te_receipt_mark ev) = Inr elapsed"
    "is_ok (elapsed_since (cr_monotonic now) (cr_monotonic (te_ingestion ev)))"
    "millis (cr_wall now) = Inr wall" "wall_age = (wall - times_receipt (te_times ev)) * nanos_per_milli" "0 \<le> wall_age"
    "abs (uint elapsed - wall_age) \<le> fp_max_wall_skew p"
    "source_age = (case times_source (te_times ev) of None \<Rightarrow> 0 | Some s \<Rightarrow> (wall - s) * nanos_per_milli)" "0 \<le> source_age"
    "assess p ev now = (if uint elapsed \<ge> fp_max_age p \<or> wall_age \<ge> fp_max_age p \<or> source_age \<ge> fp_max_age p then Stale else Fresh)"
proof -
  from assms obtain elapsed wall wall_diff wall_age source_age where *:
    "cr_continuity (te_ingestion ev) = Confirmed" "cr_continuity now = Confirmed" "\<not> is_wall_ambiguous (te_times ev)"
    "elapsed_since (cr_monotonic now) (te_receipt_mark ev) = Inr elapsed"
    "is_ok (elapsed_since (cr_monotonic now) (cr_monotonic (te_ingestion ev)))"
    "millis (cr_wall now) = Inr wall" "checked_sub_i64 wall (times_receipt (te_times ev)) = Some wall_diff"
    "duration_of_millis wall_diff = Some wall_age" "\<not> abs (from_nanos elapsed - wall_age) > fp_max_wall_skew p"
    "(case times_source (te_times ev) of None \<Rightarrow> Some 0
      | Some source \<Rightarrow> Option.bind (checked_sub_i64 wall source) duration_of_millis) = Some source_age"
    by (auto simp: assess_def Let_def split: if_splits sum.splits option.splits)
  then have "assess p ev now = (if uint elapsed \<ge> fp_max_age p \<or> wall_age \<ge> fp_max_age p \<or> source_age \<ge> fp_max_age p then Stale else Fresh)"
    by (simp add: assess_def from_nanos_def Let_def)
  moreover have "wall_age = (wall - times_receipt (te_times ev)) * nanos_per_milli" "0 \<le> wall_age"
    using *(7,8) by (auto simp: checked_sub_i64_def duration_of_millis_Some nanos_per_milli_def split: if_splits)
  moreover have "source_age = (case times_source (te_times ev) of None \<Rightarrow> 0 | Some s \<Rightarrow> (wall - s) * nanos_per_milli)" "0 \<le> source_age"
    using *(10) by (auto simp: checked_sub_i64_def duration_of_millis_Some nanos_per_milli_def bind_eq_Some_conv
        split: if_splits option.splits)
  ultimately show thesis using that * by (simp add: from_nanos_def)
qed

text \<open>Age only grows: with clocks that do not run backwards, what was stale is never fresh again.\<close>

lemma stale_persists_gen:
  assumes "assess p ev now = Stale" "mark_nanos (cr_monotonic now) \<le> mark_nanos (cr_monotonic later)"
    and "cr_wall now \<le> cr_wall later"
  shows "assess p ev later \<noteq> Fresh"
proof
  assume fresh: "assess p ev later = Fresh"
  obtain e1 w1 a1 s1 where 1: "elapsed_since (cr_monotonic now) (te_receipt_mark ev) = Inr e1"
    "millis (cr_wall now) = Inr w1" "a1 = (w1 - times_receipt (te_times ev)) * nanos_per_milli"
    "s1 = (case times_source (te_times ev) of None \<Rightarrow> 0 | Some s \<Rightarrow> (w1 - s) * nanos_per_milli)"
    "assess p ev now = (if uint e1 \<ge> fp_max_age p \<or> a1 \<ge> fp_max_age p \<or> s1 \<ge> fp_max_age p then Stale else Fresh)"
    by (rule assess_cases [of p ev now]) (use assms(1) in simp)
  obtain e2 w2 a2 s2 where 2: "elapsed_since (cr_monotonic later) (te_receipt_mark ev) = Inr e2"
    "millis (cr_wall later) = Inr w2" "a2 = (w2 - times_receipt (te_times ev)) * nanos_per_milli"
    "s2 = (case times_source (te_times ev) of None \<Rightarrow> 0 | Some s \<Rightarrow> (w2 - s) * nanos_per_milli)"
    "assess p ev later = (if uint e2 \<ge> fp_max_age p \<or> a2 \<ge> fp_max_age p \<or> s2 \<ge> fp_max_age p then Stale else Fresh)"
    by (rule assess_cases [of p ev later]) (use fresh in simp)
  have "w1 \<le> w2" using millis_mono [OF 1(2) 2(2) assms(3)] .
  then have "a1 \<le> a2" "s1 \<le> s2" using 1(3,4) 2(3,4) by (auto simp: nanos_per_milli_def split: option.splits)
  moreover have "uint e1 \<le> uint e2"
  proof -
    from 1(1) 2(1) have "e1 = mark_nanos (cr_monotonic now) - mark_nanos (te_receipt_mark ev)"
      "e2 = mark_nanos (cr_monotonic later) - mark_nanos (te_receipt_mark ev)"
      "mark_nanos (te_receipt_mark ev) \<le> mark_nanos (cr_monotonic now)" by (auto simp: elapsed_since_ok)
    moreover from this(3) assms(2) have "mark_nanos (te_receipt_mark ev) \<le> mark_nanos (cr_monotonic later)"
      by (rule order_trans)
    moreover have "uint (mark_nanos (cr_monotonic now)) \<le> uint (mark_nanos (cr_monotonic later))"
      using assms(2) by (simp only: word_le_def)
    ultimately show ?thesis by (simp add: uint_minus_simple_alt)
  qed
  ultimately show False using 1(5) 2(5) fresh assms(1) by (auto split: if_splits)
qed

lemma retain_absorbing: "freshness_retain f a = Fresh \<longleftrightarrow> f = Fresh \<and> a = Fresh"
  by (cases f) auto

end
