(* ===== verification/Float_Text.thy ===== *)
theory Float_Text
  imports Obs_Time
begin

text \<open>
  The part of the standard library that \<open>src/src/observation/normalize.rs\<close> uses on floating point
  numbers: \<open>from_be_bytes\<close>, the classification of a value and \<open>to_string\<close>. The text of a finite
  value is the shortest decimal that reads back as the value, closest to it, written without an
  exponent: digits are generated from the exact integer scaling of the value and of the half
  distances to its neighbours, as the standard library's fallback algorithm does.
\<close>

section \<open>Formats\<close>

record float_format =
  ff_frac_bits :: nat
  ff_exp_bits :: nat

definition f32 :: float_format where "f32 = \<lparr>ff_frac_bits = 23, ff_exp_bits = 8\<rparr>"
definition f64 :: float_format where "f64 = \<lparr>ff_frac_bits = 52, ff_exp_bits = 11\<rparr>"

text \<open>A value is its bits, as an integer: sign, biased exponent, fraction.\<close>

definition float_negative :: "float_format \<Rightarrow> int \<Rightarrow> bool" where
  "float_negative ff bits \<longleftrightarrow> bits div 2 ^ (ff_frac_bits ff + ff_exp_bits ff) = 1"

definition float_exponent :: "float_format \<Rightarrow> int \<Rightarrow> int" where
  "float_exponent ff bits = (bits div 2 ^ ff_frac_bits ff) mod 2 ^ ff_exp_bits ff"

definition float_fraction :: "float_format \<Rightarrow> int \<Rightarrow> int" where
  "float_fraction ff bits = bits mod 2 ^ ff_frac_bits ff"

definition float_finite :: "float_format \<Rightarrow> int \<Rightarrow> bool" where
  "float_finite ff bits \<longleftrightarrow> float_exponent ff bits \<noteq> 2 ^ ff_exp_bits ff - 1"

definition float_nan :: "float_format \<Rightarrow> int \<Rightarrow> bool" where
  "float_nan ff bits \<longleftrightarrow> \<not> float_finite ff bits \<and> float_fraction ff bits \<noteq> 0"

definition float_zero :: "float_format \<Rightarrow> int \<Rightarrow> bool" where
  "float_zero ff bits \<longleftrightarrow> float_exponent ff bits = 0 \<and> float_fraction ff bits = 0"

section \<open>Scaling\<close>

text \<open>A finite value other than zero with the half distances to its neighbours, all times \<open>2 ^ exp\<close>.\<close>

record decoded_float =
  df_mant :: int
  df_minus :: int
  df_plus :: int
  df_exp :: int
  df_inclusive :: bool

definition decode_float :: "float_format \<Rightarrow> int \<Rightarrow> decoded_float" where
  "decode_float ff bits =
     (let expo = float_exponent ff bits; frac = float_fraction ff bits; hidden = 2 ^ ff_frac_bits ff;
          mant = (if expo = 0 then 2 * frac else frac + hidden);
          e = expo - (2 ^ (ff_exp_bits ff - 1) - 1 + int (ff_frac_bits ff));
          even = (mant mod 2 = 0)
      in if expo = 0 then \<lparr>df_mant = mant, df_minus = 1, df_plus = 1, df_exp = e, df_inclusive = even\<rparr>
         else if mant = hidden
         then \<lparr>df_mant = 4 * mant, df_minus = 1, df_plus = 2, df_exp = e - 2, df_inclusive = even\<rparr>
         else \<lparr>df_mant = 2 * mant, df_minus = 1, df_plus = 1, df_exp = e - 1, df_inclusive = even\<rparr>)"

definition below :: "bool \<Rightarrow> int \<Rightarrow> int \<Rightarrow> bool" where
  "below inclusive a b \<longleftrightarrow> (if inclusive then a \<le> b else a < b)"

text \<open>The decimal exponent: the first \<open>k\<close> from below whose power of ten is above the value's interval.\<close>

definition above_power :: "bool \<Rightarrow> int \<Rightarrow> int \<Rightarrow> int \<Rightarrow> bool" where
  "above_power inclusive upper scale k =
     (if 0 \<le> k then \<not> below inclusive (scale * 10 ^ nat k) upper
      else \<not> below inclusive scale (upper * 10 ^ nat (- k)))"

fun find_exponent :: "nat \<Rightarrow> bool \<Rightarrow> int \<Rightarrow> int \<Rightarrow> int \<Rightarrow> int" where
  "find_exponent 0 inclusive upper scale k = k"
| "find_exponent (Suc n) inclusive upper scale k =
     (if above_power inclusive upper scale k then k else find_exponent n inclusive upper scale (k + 1))"

section \<open>Digits\<close>

text \<open>
  The loop over digits, most significant first, on the value already multiplied by ten. It goes on
  while the rest is at least the lower distance and at most the upper one below the scale; the
  lower distance grows tenfold each time, which ends it. The distances are positive, so that the
  guard on \<open>lo\<close> never decides.
\<close>

function shortest_digits :: "bool \<Rightarrow> int \<Rightarrow> int \<Rightarrow> int \<Rightarrow> int \<Rightarrow> nat list \<times> bool" where
  "shortest_digits inclusive mant lo hi scale =
     (let d = nat (mant div scale); rest = mant mod scale;
          down = below inclusive rest lo; up = below inclusive scale (rest + hi)
      in if down \<or> up \<or> lo \<le> 0 \<or> scale \<le> lo
         then ([d], up \<and> (\<not> down \<or> 2 * rest \<ge> scale))
         else (let (ds, r) = shortest_digits inclusive (10 * rest) (10 * lo) (10 * hi) scale in (d # ds, r)))"
  by pat_completeness auto
termination by (relation "measure (\<lambda>(_, _, lo, _, scale). nat (scale - lo))") auto

declare shortest_digits.simps [simp del]

text \<open>Rounding up carries through nines; a carry out of the first digit makes the number longer.\<close>

fun increment_digits :: "nat list \<Rightarrow> nat list \<times> bool" where
  "increment_digits [] = ([], True)"
| "increment_digits (d # ds) =
     (let (ds', carry) = increment_digits ds
      in if carry then (if d = 9 then (0 # ds', True) else ((d + 1) # ds', False)) else (d # ds', False))"

definition round_digits :: "nat list \<Rightarrow> int \<Rightarrow> nat list \<times> int" where
  "round_digits ds k =
     (case increment_digits ds of
        (ds', False) \<Rightarrow> (ds', k)
      | (ds', True) \<Rightarrow> (1 # ds', k + 1))"

definition scale_float :: "float_format \<Rightarrow> int \<Rightarrow> nat list \<times> int" where
  "scale_float ff bits =
     (let d = decode_float ff bits;
          p = (if df_exp d < 0 then 1 else 2 ^ nat (df_exp d)); scale = (if df_exp d < 0 then 2 ^ nat (- df_exp d) else 1);
          mant = df_mant d * p; lo = df_minus d * p; hi = df_plus d * p;
          k = find_exponent 800 (df_inclusive d) (mant + hi) scale (- 400);
          q = (if k \<le> 0 then 10 ^ nat (- k) else 1); scale' = (if 0 \<le> k then scale * 10 ^ nat k else scale);
          (ds, up) = shortest_digits (df_inclusive d) (10 * mant * q) (10 * lo * q) (10 * hi * q) scale'
      in if up then round_digits ds k else (ds, k))"

text \<open>The value is \<open>0.ds * 10 ^ k\<close>, written without an exponent.\<close>

definition decimal_text :: "nat list \<Rightarrow> int \<Rightarrow> string" where
  "decimal_text ds k =
     (let text = map digit_char ds
      in if k \<le> 0 then ''0.'' @ replicate (nat (- k)) (CHR ''0'') @ text
         else if nat k < length text then take (nat k) text @ CHR ''.'' # drop (nat k) text
         else text @ replicate (nat k - length text) (CHR ''0''))"

definition show_float :: "float_format \<Rightarrow> int \<Rightarrow> string" where
  "show_float ff bits =
     (if float_nan ff bits then ''NaN''
      else (let sign = (if float_negative ff bits then ''-'' else [])
            in if \<not> float_finite ff bits then sign @ ''inf''
               else if float_zero ff bits then sign @ ''0''
               else (case scale_float ff bits of (ds, k) \<Rightarrow> sign @ decimal_text ds k)))"

text \<open>\<open>from_be_bytes\<close>.\<close>

fun from_be_bytes :: "int \<Rightarrow> string \<Rightarrow> int" where
  "from_be_bytes acc [] = acc"
| "from_be_bytes acc (b # bs) = from_be_bytes (acc * 256 + int (byte b)) bs"

end
