(* ===== verification/Normalize.thy ===== *)
theory Normalize
  imports Float_Text Values
begin

text \<open>
  Decoding of one BACnet property outcome into a semantic value: \<open>src/src/observation/normalize.rs\<close>,
  with the outcome type of \<open>src/src/runtime/bacnet/model.rs\<close>. Bytes are characters, as everywhere in
  the development, read by \<open>byte\<close>. The lemmas show what a value that is suitable for use can be,
  and that the binary integers of the protocol decode to the integers they encode.
\<close>

section \<open>Outcomes of a read\<close>

definition max_properties :: nat where "max_properties = 8"
definition bacnet_value_bytes :: nat where "bacnet_value_bytes = 512"

datatype property_outcome =
    ValueBytes string
  | OutcomeRemoteError u32 u32
  | OutcomeReject u8
  | OutcomeAbort u8
  | OutcomeTimeout
  | OutcomeInvalidReply
  | OutcomeOversized
  | OutcomeTransportFailure

datatype codec = Scalar | ExactDecimalText

datatype unit_provenance = SyntheticBinding unit_of_measure | BacnetEngineeringUnits u32 | UnitAbsent

fun provenance_unit :: "unit_provenance \<Rightarrow> unit_of_measure" where
  "provenance_unit (SyntheticBinding u) = u"
| "provenance_unit (BacnetEngineeringUnits token) =
     (if token = 62 then Known DegC
      else if token = 98 then Known Percent
      else if token = 53 then Known Pascal
      else if token = 87 then Known LitresPerSecond
      else UnknownUnit (''bacnet-unit:'' @ show_word token))"
| "provenance_unit UnitAbsent = UnknownUnit ''unit-not-supplied''"

datatype transport_result =
    ValueReturned
  | RemoteError u32 u32
  | Reject u8
  | Abort u8
  | TransportTimeout
  | TransportInvalidReply
  | TransportOversized
  | TransportFailure

datatype value_quality = QValid | QMissing | QInvalid | QNonFinite | QUnknown string

datatype refusal =
    RefusedMissing
  | RefusedInvalid
  | RefusedNonFinite
  | RefusedUnknownUnit
  | RefusedWrongUnit
  | RefusedUnsupported
  | RefusedTransport
  | RefusedNotFresh

fun refusal_code :: "refusal \<Rightarrow> string" where
  "refusal_code RefusedMissing = ''invalid-value''"
| "refusal_code RefusedInvalid = ''invalid-value''"
| "refusal_code RefusedNonFinite = ''invalid-value''"
| "refusal_code RefusedUnknownUnit = ''invalid-input''"
| "refusal_code RefusedWrongUnit = ''wrong-unit''"
| "refusal_code RefusedUnsupported = ''unexpected-type''"
| "refusal_code RefusedTransport = ''unexpected-type''"
| "refusal_code RefusedNotFresh = ''impossible-elapsed''"

datatype suitability = SyntheticValueOnly | SuitabilityRefused refusal

record decoded =
  dc_value :: val
  dc_unit :: unit_of_measure
  dc_provenance :: unit_provenance
  dc_codec :: codec
  dc_transport :: transport_result
  dc_quality :: value_quality
  dc_suitability :: suitability

section \<open>One application-tagged value\<close>

definition invalid_value :: "string \<Rightarrow> val \<times> value_quality" where
  "invalid_value reason = (Diag (Invalid reason), QInvalid)"

definition unknown_value :: "string \<Rightarrow> val \<times> value_quality" where
  "unknown_value reason = (Diag (Invalid reason), QUnknown reason)"

definition decimal_value :: "string \<Rightarrow> val \<times> value_quality" where
  "decimal_value text =
     (case decimal_parse text of
        Inr value \<Rightarrow> (VDecimal value, QValid)
      | Inl _ \<Rightarrow> invalid_value ''decimal outside exact lexical profile; original bytes retained'')"

text \<open>
  \<open>real\<close> classifies a 64-bit value. A 32-bit value is widened first, which keeps its class and its
  sign, so the class is read in the format the value came in.
\<close>

definition real_value :: "float_format \<Rightarrow> int \<Rightarrow> val \<times> value_quality" where
  "real_value ff bits =
     (if float_finite ff bits then
        (if float_zero ff bits \<and> float_negative ff bits then decimal_value ''-0.0''
         else decimal_value (show_float ff bits))
      else (Diag (if float_nan ff bits then NotANumber
                  else if float_negative ff bits then NegativeInfinity
                  else PositiveInfinity), QNonFinite))"

text \<open>The integer loop: \<open>number << 8 | byte\<close>, most significant byte first.\<close>

fun shift_bytes :: "int \<Rightarrow> string \<Rightarrow> int" where
  "shift_bytes number [] = number"
| "shift_bytes number (b # bs) = shift_bytes (number * 256 + int (byte b)) bs"

text \<open>The value after its length has been read: \<open>body\<close> is what follows the tag and length bytes.\<close>

definition scalar_body :: "codec \<Rightarrow> nat \<Rightarrow> string \<Rightarrow> val \<times> value_quality" where
  "scalar_body cd tag body =
     (if tag = 0 \<and> body = [] then (Missing, QMissing)
      else if (tag = 2 \<or> tag = 3) \<and> 1 \<le> length body \<and> length body \<le> 8 then
        (Integer (shift_bytes (if tag = 3 \<and> 128 \<le> byte (hd body) then -1 else 0) body), QValid)
      else if tag = 4 \<and> length body = 4 then real_value f32 (from_be_bytes 0 body)
      else if tag = 5 \<and> length body = 8 then real_value f64 (from_be_bytes 0 body)
      else if tag = 7 then
        (case body of
           [] \<Rightarrow> unknown_value ''unsupported character encoding''
         | b # text \<Rightarrow>
             if byte b \<noteq> 0 then unknown_value ''unsupported character encoding''
             else if \<not> utf8_valid text then invalid_value ''invalid UTF-8 character string''
             else if cd = ExactDecimalText then decimal_value text
             else (VText text, QValid))
      else if tag \<le> 5 then invalid_value ''invalid scalar width''
      else if tag = 6 \<or> 8 \<le> tag \<and> tag \<le> 12 then
        unknown_value ''unsupported scalar tag/token; no mode or unit inference''
      else unknown_value ''unsupported tag'')"

text \<open>The length field: the low three bits, or for 5 the next byte, or after 254 the two bytes then.\<close>

definition scalar_length :: "nat \<Rightarrow> string \<Rightarrow> string + nat \<times> nat" where
  "scalar_length lvt bytes =
     (if lvt \<le> 4 then Inr (lvt, 1)
      else if lvt = 5 then
        (if length bytes \<ge> 2 \<and> 5 \<le> byte (bytes ! 1) \<and> byte (bytes ! 1) \<le> 253 then Inr (byte (bytes ! 1), 2)
         else if length bytes \<ge> 4 \<and> byte (bytes ! 1) = 254 then
           (let len = byte (bytes ! 2) * 256 + byte (bytes ! 3)
            in if len < 254 then Inl ''noncanonical extended length'' else Inr (len, 4))
         else Inl ''invalid or unbounded extended length'')
      else Inl ''reserved length'')"

text \<open>The three fields of the first byte: \<open>first >> 4\<close>, \<open>first & 8 != 0\<close> and \<open>first & 7\<close>.\<close>

definition tag_of :: "nat \<Rightarrow> nat" where [verdant_defs]: "tag_of first = first div 16"
definition class_of :: "nat \<Rightarrow> bool" where [verdant_defs]: "class_of first \<longleftrightarrow> first div 8 mod 2 = 1"
definition lvt_of :: "nat \<Rightarrow> nat" where [verdant_defs]: "lvt_of first = first mod 8"

definition scalar :: "string \<Rightarrow> codec \<Rightarrow> val \<times> value_quality" where
  "scalar bytes cd =
     (if bytes = [] \<or> length bytes > bacnet_value_bytes then invalid_value ''empty or oversized application value''
      else (let first = byte (hd bytes); tag = tag_of first; lvt = lvt_of first
        in if class_of first \<or> tag \<ge> 13 then
             unknown_value ''unsupported context/extended/reserved application tag''
           else if lvt > 5 then invalid_value ''reserved application length''
           else if cd = ExactDecimalText \<and> tag \<noteq> 7 then
             unknown_value ''exact decimal text profile requires CharacterString''
           else if tag = 1 then
             (if length bytes = 1 \<and> lvt \<le> 1 then (VBool (lvt = 1), QValid)
              else invalid_value ''boolean length/value'')
           else (case scalar_length lvt bytes of
               Inl reason \<Rightarrow> invalid_value reason
             | Inr (len, offset) \<Rightarrow>
                 if length bytes \<noteq> offset + len then invalid_value ''scalar length/trailing bytes''
                 else scalar_body cd tag (drop offset bytes))))"

section \<open>One outcome\<close>

fun unit_is_unknown :: "unit_of_measure \<Rightarrow> bool" where
  "unit_is_unknown (UnknownUnit _) = True"
| "unit_is_unknown (Known _) = False"

fun transport_of :: "property_outcome \<Rightarrow> transport_result" where
  "transport_of (ValueBytes _) = ValueReturned"
| "transport_of (OutcomeRemoteError class code) = RemoteError class code"
| "transport_of (OutcomeReject reason) = Reject reason"
| "transport_of (OutcomeAbort reason) = Abort reason"
| "transport_of OutcomeTimeout = TransportTimeout"
| "transport_of OutcomeInvalidReply = TransportInvalidReply"
| "transport_of OutcomeOversized = TransportOversized"
| "transport_of OutcomeTransportFailure = TransportFailure"

fun quality_refusal :: "val \<Rightarrow> unit_of_measure \<Rightarrow> value_quality \<Rightarrow> refusal option" where
  "quality_refusal v u QMissing = Some RefusedMissing"
| "quality_refusal v u QInvalid = Some RefusedInvalid"
| "quality_refusal v u QNonFinite = Some RefusedNonFinite"
| "quality_refusal v u (QUnknown _) = Some RefusedUnsupported"
| "quality_refusal v u QValid =
     (if unit_is_unknown u then Some RefusedUnknownUnit
      else if (case v of VText _ \<Rightarrow> True | _ \<Rightarrow> False) then Some RefusedUnsupported
      else None)"

definition decode :: "property_outcome \<Rightarrow> unit_provenance \<Rightarrow> codec \<Rightarrow> decoded" where
  "decode outcome units cd =
     (let transport = transport_of outcome;
          (value, quality) =
            (case outcome of ValueBytes bytes \<Rightarrow> scalar bytes cd | _ \<Rightarrow> (Missing, QMissing));
          u = provenance_unit units;
          refusal = (if transport \<noteq> ValueReturned then Some RefusedTransport
                     else quality_refusal value u quality)
      in \<lparr>dc_value = value, dc_unit = u, dc_provenance = units, dc_codec = cd, dc_transport = transport,
          dc_quality = quality,
          dc_suitability = (case refusal of None \<Rightarrow> SyntheticValueOnly | Some r \<Rightarrow> SuitabilityRefused r)\<rparr>)"

section \<open>What a valid value is\<close>

text \<open>The quality \<open>Valid\<close> leaves four shapes, each within its bounds.\<close>

fun reading_ok :: "val \<Rightarrow> bool" where
  "reading_ok (VBool _) = True"
| "reading_ok (Integer n) \<longleftrightarrow> - (2 ^ 63) \<le> n \<and> n < 2 ^ 64"
| "reading_ok (VDecimal d) = decimal_ok d"
| "reading_ok (VText s) \<longleftrightarrow> utf8_valid s \<and> length s < bacnet_value_bytes"
| "reading_ok _ = False"

lemma not_valid [simp]:
  "invalid_value r = (v, QValid) \<longleftrightarrow> False"
  "unknown_value r = (v, QValid) \<longleftrightarrow> False"
  by (simp_all add: invalid_value_def unknown_value_def)

lemma decimal_value_valid [simp]: "decimal_value t = (v, QValid) \<longleftrightarrow> v = VDecimal t \<and> decimal_ok t"
  by (cases "decimal_parse t") (auto simp: decimal_value_def decimal_parse_ok invalid_value_def decimal_parse_def
      decimal_ok_def split: if_splits)

lemma real_value_valid: "real_value ff bits = (v, QValid) \<Longrightarrow> reading_ok v"
  by (auto simp: real_value_def split: if_splits)

lemma shift_bytes_bounds:
  "a * 256 ^ length bs \<le> shift_bytes a bs \<and> shift_bytes a bs < (a + 1) * 256 ^ length bs"
proof (induction bs arbitrary: a)
  case (Cons b bs)
  let ?p = "256 ^ length bs :: int"
  have b: "0 \<le> int (byte b)" "int (byte b) \<le> 255" using byte_less_256 [of b] by linarith+
  have "a * 256 * ?p \<le> (a * 256 + int (byte b)) * ?p" using b by (intro mult_right_mono) auto
  moreover have "(a * 256 + int (byte b) + 1) * ?p \<le> (a + 1) * 256 * ?p" using b by (intro mult_right_mono) auto
  ultimately show ?case using Cons.IH [of "a * 256 + int (byte b)"] by (simp only: shift_bytes.simps list.size power_Suc
        add_Suc_right add_0_right mult.assoc) linarith
qed simp

lemma shift_bytes_unsigned: "0 \<le> shift_bytes 0 bs \<and> shift_bytes 0 bs < 256 ^ length bs"
  using shift_bytes_bounds [of 0 bs] by simp

lemma shift_bytes_linear: "shift_bytes (a + c) bs = a * 256 ^ length bs + shift_bytes c bs"
proof (induction bs arbitrary: a c)
  case (Cons b bs)
  have "(a + c) * 256 + int (byte b) = a * 256 + (c * 256 + int (byte b))" by (simp add: algebra_simps)
  then show ?case using Cons.IH [of "a * 256" "c * 256 + int (byte b)"]
    by (simp only: shift_bytes.simps list.size power_Suc add_Suc_right add_0_right mult.assoc)
qed simp

text \<open>Two's complement: a first byte of 128 or more starts the loop at \<open>-1\<close>.\<close>

lemma shift_bytes_signed:
  "shift_bytes (- 1) bs = shift_bytes 0 bs - 256 ^ length bs"
  using shift_bytes_linear [of "- 1" 0 bs] by simp

lemma shift_bytes_high:
  "128 \<le> byte b \<Longrightarrow> 128 * 256 ^ length bs \<le> shift_bytes 0 (b # bs)"
proof -
  assume "128 \<le> byte b"
  then have "128 * 256 ^ length bs \<le> int (byte b) * 256 ^ length bs" by (intro mult_right_mono) auto
  also have "\<dots> \<le> shift_bytes 0 (b # bs)" using shift_bytes_bounds [of "int (byte b)" bs] by simp
  finally show ?thesis .
qed

lemma power_256: "n \<le> 8 \<Longrightarrow> (256::int) ^ n \<le> 2 ^ 64"
  using power_increasing [of n 8 "256 :: int"] by simp

lemma integer_bounds:
  assumes "1 \<le> length body" "length body \<le> 8"
  shows "reading_ok (Integer (shift_bytes (if s \<and> 128 \<le> byte (hd body) then -1 else 0) body))"
proof -
  obtain b bs where body: "body = b # bs" using assms(1) by (cases body) auto
  have p: "(256::int) ^ length body \<le> 2 ^ 64" by (rule power_256 [OF assms(2)])
  show ?thesis
  proof (cases "s \<and> 128 \<le> byte b")
    case True
    have "shift_bytes 0 body - 256 ^ length body \<ge> - (128 * 256 ^ length bs)"
      using shift_bytes_high [of b bs] True by (simp add: body)
    moreover have "(256::int) ^ length bs \<le> 256 ^ 7"
      by (rule power_increasing) (use assms(2) body in auto)
    ultimately have "- (2 ^ 63) \<le> shift_bytes 0 body - 256 ^ length body" by simp
    then show ?thesis using True body p shift_bytes_unsigned [of body] by (simp add: shift_bytes_signed del: shift_bytes.simps)
  next
    case False
    then show ?thesis using body p shift_bytes_unsigned [of body] by (auto simp del: shift_bytes.simps)
  qed
qed

lemma scalar_body_valid:
  assumes "scalar_body cd tag body = (v, QValid)" "length body < bacnet_value_bytes + 1"
  shows "reading_ok v"
proof -
  have 1: ?thesis if "tag = 2 \<or> tag = 3" "1 \<le> length body" "length body \<le> 8"
    using assms(1) that integer_bounds [of body "tag = 3"] by (auto simp: scalar_body_def)
  have 2: ?thesis if "tag = 4 \<or> tag = 5" using assms(1) that
    by (auto simp: scalar_body_def split: if_splits dest: real_value_valid)
  have 3: ?thesis if "tag = 7" using assms that
    by (auto simp: scalar_body_def split: if_splits list.splits)
  show ?thesis
  proof (cases "(tag = 2 \<or> tag = 3) \<and> 1 \<le> length body \<and> length body \<le> 8 \<or> tag = 4 \<or> tag = 5 \<or> tag = 7")
    case False
    then show ?thesis using assms(1) by (auto simp: scalar_body_def split: if_splits)
  qed (use 1 2 3 in blast)
qed

lemma scalar_valid:
  assumes "scalar bytes cd = (v, QValid)"
  shows "reading_ok v \<and> bytes \<noteq> [] \<and> length bytes \<le> bacnet_value_bytes"
proof -
  have "bytes \<noteq> [] \<and> length bytes \<le> bacnet_value_bytes"
    using assms by (cases "bytes = [] \<or> length bytes > bacnet_value_bytes") (auto simp: scalar_def)
  moreover have "reading_ok v"
    using assms calculation
    by (auto simp: scalar_def Let_def split: if_splits sum.splits dest!: scalar_body_valid)
  ultimately show ?thesis by simp
qed

lemma quality_refusal_None:
  "quality_refusal v u q = None \<longleftrightarrow> q = QValid \<and> \<not> unit_is_unknown u \<and> (\<forall>s. v \<noteq> VText s)"
  by (cases q; cases v) auto

lemma decode_no_value:
  "\<forall>bytes. outcome \<noteq> ValueBytes bytes \<Longrightarrow> dc_suitability (decode outcome units cd) = SuitabilityRefused RefusedTransport"
  by (cases outcome) (simp_all add: decode_def)

lemma decode_value:
  "scalar bytes cd = (v, q) \<Longrightarrow>
     decode (ValueBytes bytes) units cd =
       \<lparr>dc_value = v, dc_unit = provenance_unit units, dc_provenance = units, dc_codec = cd,
        dc_transport = ValueReturned, dc_quality = q,
        dc_suitability = (case quality_refusal v (provenance_unit units) q of
                            None \<Rightarrow> SyntheticValueOnly | Some r \<Rightarrow> SuitabilityRefused r)\<rparr>"
  by (simp add: decode_def Let_def)

lemma decode_suitable:
  assumes "dc_suitability (decode outcome units cd) = SyntheticValueOnly"
  obtains bytes v where "outcome = ValueBytes bytes" "scalar bytes cd = (v, QValid)"
    "dc_value (decode outcome units cd) = v" "dc_unit (decode outcome units cd) = provenance_unit units"
    "\<not> unit_is_unknown (provenance_unit units)" "\<forall>s. v \<noteq> VText s"
proof -
  obtain bytes where o: "outcome = ValueBytes bytes"
    using assms decode_no_value [of outcome units cd] by (metis suitability.distinct(1))
  obtain v q where s: "scalar bytes cd = (v, q)" by (cases "scalar bytes cd")
  with assms have "quality_refusal v (provenance_unit units) q = None"
    by (simp add: o decode_value split: option.splits)
  with that [OF o] s show ?thesis by (simp add: quality_refusal_None o decode_value)
qed

section \<open>Integers\<close>

text \<open>The protocol's encoding of an integer in \<open>k\<close> bytes, two's complement when negative.\<close>

fun be_bytes :: "nat \<Rightarrow> int \<Rightarrow> string" where
  "be_bytes 0 n = []"
| "be_bytes (Suc k) n = char_of (nat (n div 256 ^ k mod 256)) # be_bytes k n"

lemma length_be_bytes [simp]: "length (be_bytes k n) = k"
  by (induction k) auto

lemma byte_be [simp]: "int (byte (char_of (nat (n mod 256)))) = n mod 256" for n :: int
  by (simp add: nat_less_iff)

lemma shift_be_bytes: "shift_bytes a (be_bytes k n) = a * 256 ^ k + n mod 256 ^ k"
proof (induction k arbitrary: a)
  case (Suc k)
  have "n mod (256 ^ k * 256) = 256 ^ k * (n div 256 ^ k mod 256) + n mod 256 ^ k"
    by (rule zmod_zmult2_eq) simp
  then show ?case using Suc.IH [of "a * 256 + n div 256 ^ k mod 256"] by (simp add: algebra_simps)
qed simp

definition encode_integer :: "bool \<Rightarrow> nat \<Rightarrow> int \<Rightarrow> string" where
  "encode_integer sg k n =
     (let tag = (if sg then 3 else 2)
      in if k \<le> 4 then char_of (tag * 16 + k :: nat) # be_bytes k n
         else char_of (tag * 16 + 5 :: nat) # char_of k # be_bytes k n)"

lemma scalar_encode_integer:
  assumes "1 \<le> k" "k \<le> 8"
  shows "scalar (encode_integer sg k n) Scalar =
    (Integer (shift_bytes (if sg \<and> 128 \<le> byte (hd (be_bytes k n)) then -1 else 0) (be_bytes k n)), QValid)"
proof -
  have "k \<in> {1,2,3,4,5,6,7,8}" using assms by auto
  then show ?thesis
    by (cases sg) (auto simp: scalar_def encode_integer_def bacnet_value_bytes_def tag_of_def class_of_def lvt_of_def
        scalar_length_def scalar_body_def simp del: be_bytes.simps shift_bytes.simps)
qed

lemma high_byte:
  assumes "1 \<le> k" "- (128 * 256 ^ (k - 1)) \<le> n" "n < 128 * 256 ^ (k - 1)"
  shows "128 \<le> byte (hd (be_bytes k n)) \<longleftrightarrow> n < 0"
proof -
  obtain j where k: "k = Suc j" using assms(1) by (cases k) auto
  let ?p = "256 ^ j :: int"
  have p: "0 < ?p" by simp
  have q: "- 128 \<le> n div ?p" "n div ?p < 128"
  proof -
    have n: "n = n div ?p * ?p + n mod ?p" "0 \<le> n mod ?p" "n mod ?p < ?p" using p by (simp_all only: div_mult_mod_eq pos_mod_sign pos_mod_bound)
    have r: "n < 128 * ?p" "- (128 * ?p) \<le> n" using assms(2,3) by (simp_all add: k)
    have "n div ?p * ?p < 128 * ?p" using r n by linarith
    then show "n div ?p < 128" using p by (simp only: mult_less_cancel_right_pos)
    have "- 129 * ?p < n div ?p * ?p" using r n by linarith
    then show "- 128 \<le> n div ?p" using p by (simp only: mult_less_cancel_right_pos)
  qed
  have "int (byte (hd (be_bytes k n))) = n div ?p mod 256" by (simp add: k)
  moreover have "n < 0 \<longleftrightarrow> n div ?p < 0" using p by (simp add: pos_imp_zdiv_neg_iff)
  moreover have "n div ?p mod 256 = (if n div ?p < 0 then n div ?p + 256 else n div ?p)"
    using q by (simp add: mod_pos_pos_trivial) (smt (verit) mod_add_self2 mod_pos_pos_trivial)
  ultimately show ?thesis using q by auto
qed

lemma be_bytes_unsigned: "0 \<le> n \<Longrightarrow> n < 256 ^ k \<Longrightarrow> shift_bytes 0 (be_bytes k n) = n"
  by (simp add: shift_be_bytes)

lemma be_bytes_negative:
  assumes "n < 0" "- (256 ^ k) \<le> n" shows "shift_bytes (- 1) (be_bytes k n) = n"
proof -
  have "n mod 256 ^ k = (n + 256 ^ k) mod 256 ^ k" by simp
  also have "\<dots> = n + 256 ^ k" using assms by (intro mod_pos_pos_trivial) auto
  finally show ?thesis by (simp add: shift_be_bytes)
qed

lemma integer_decodes:
  assumes "1 \<le> k" "k \<le> 8"
    and "if sg then - (128 * 256 ^ (k - 1)) \<le> n \<and> n < 128 * 256 ^ (k - 1) else 0 \<le> n \<and> n < 256 ^ k"
  shows "scalar (encode_integer sg k n) Scalar = (Integer n, QValid)"
proof (cases sg)
  case True
  have k: "(256::int) ^ k = 256 * 256 ^ (k - 1)" using assms(1) by (cases k) auto
  have pos: "(256::int) ^ (k - 1) > 0" by simp
  have r: "- (128 * 256 ^ (k - 1)) \<le> n" "n < 128 * 256 ^ (k - 1)" using assms(3) True by simp_all
  from pos r have "- (256 ^ k) \<le> n" "n < 256 ^ k" unfolding k by linarith+
  then show ?thesis using True high_byte [OF assms(1) r]
    by (cases "n < 0") (simp_all only: scalar_encode_integer [OF assms(1,2)] be_bytes_unsigned be_bytes_negative
        if_True simp_thms if_False not_less)
next
  case False
  then show ?thesis using assms by (simp add: scalar_encode_integer be_bytes_unsigned)
qed

end
