(* ===== verification/Outbox.thy ===== *)
theory Outbox
  imports Access Clock
begin

text \<open>
  The rows of the outbox (\<open>src/src/storage/sqlite/mod.rs\<close>): their status, their decoding from the
  columns that SQL's \<open>quote()\<close> returns, the checks on what may enter a row, and the envelope by which
  one invocation of the command line tool proves its settings and frames its rows.
\<close>

section \<open>Status and rows\<close>

datatype outbox_status = Queued | Claimed | Acked

fun outbox_status_text :: "outbox_status \<Rightarrow> string" where
  "outbox_status_text Queued = ''queued''"
| "outbox_status_text Claimed = ''claimed''"
| "outbox_status_text Acked = ''acked''"

definition outbox_status_parse :: "string \<Rightarrow> storage_error + outbox_status" where
  "outbox_status_parse raw =
     (if raw = ''queued'' then Inr Queued
      else if raw = ''claimed'' then Inr Claimed
      else if raw = ''acked'' then Inr Acked
      else Inl (StoreInvalidRecord (''unknown outbox status '' @ quoted raw)))"

record outbox_row =
  ox_id :: int
  ox_operation :: operation_id
  ox_entity :: installed_id
  ox_sensor :: installed_id
  ox_value :: val
  ox_unit :: unit_of_measure
  ox_times :: time_triple
  ox_record :: record_identity
  ox_status :: outbox_status
  ox_claimed :: "string option"

section \<open>Columns\<close>

definition unquote_text :: "string \<Rightarrow> storage_error + string option" where
  "unquote_text raw =
     (if raw = ''NULL'' then Inr None
      else if 2 \<le> length raw \<and> hd raw = squote \<and> last raw = squote
      then Inr (Some (undouble (butlast (tl raw))))
      else Inl (StoreInvalidRecord (''quoted text malformed: '' @ quoted raw)))"

definition text_column :: "string list \<Rightarrow> nat \<Rightarrow> string \<Rightarrow> storage_error + string" where
  "text_column cols index what =
     and_then (unquote_text (cols ! index)) (\<lambda>t. ok_or (StoreInvalidRecord (what @ '' is NULL'')) t)"

definition column_as :: "string list \<Rightarrow> nat \<Rightarrow> string \<Rightarrow> string \<Rightarrow> (string \<Rightarrow> error + 'a) \<Rightarrow> storage_error + 'a" where
  "column_as cols index what label rd =
     and_then (text_column cols index what) (\<lambda>t.
       map_err (\<lambda>e. StoreInvalidRecord (label @ '': '' @ error_display e)) (rd t))"

definition millis_column :: "string list \<Rightarrow> nat \<Rightarrow> string \<Rightarrow> storage_error + int" where
  "millis_column cols index what =
     and_then (text_column cols index what) (\<lambda>t.
       ok_or (StoreInvalidRecord (what @ '' is not an integer millis value'')) (parse_i64 t))"

definition decode_outbox_row :: "string list \<Rightarrow> storage_error + outbox_row" where
  "decode_outbox_row cols =
     (if length cols \<noteq> 13
      then Inl (StoreInvalidRecord (''outbox row has '' @ show_nat (length cols) @ '' columns, expected 13''))
      else
     and_then (ok_or (StoreInvalidRecord (''row id unreadable: '' @ quoted (cols ! 0))) (parse_i64 (cols ! 0))) (\<lambda>i.
     and_then (column_as cols 1 ''operation'' ''operation'' (id_parse operation_id_kind)) (\<lambda>operation.
     and_then (column_as cols 2 ''entity'' ''entity'' (id_parse installed_id_kind)) (\<lambda>entity.
     and_then (column_as cols 3 ''sensor'' ''sensor'' (id_parse installed_id_kind)) (\<lambda>sensor.
     and_then (column_as cols 4 ''value_json'' ''value'' value_from_json) (\<lambda>value.
     and_then (column_as cols 5 ''unit'' ''unit'' unit_parse) (\<lambda>unit.
     and_then (millis_column cols 6 ''source_ms'') (\<lambda>source.
     and_then (millis_column cols 7 ''receipt_ms'') (\<lambda>receipt.
     and_then (millis_column cols 8 ''ingestion_ms'') (\<lambda>ingestion.
     and_then (map_err (\<lambda>e. StoreInvalidRecord (''times: '' @ error_display e)) (time_triple_new source receipt ingestion)) (\<lambda>t.
     and_then (column_as cols 9 ''generation'' ''generation'' (id_parse source_generation_id_kind)) (\<lambda>generation.
     and_then (text_column cols 10 ''seq'') (\<lambda>raw.
     and_then (ok_or (StoreInvalidRecord ''seq is not a u64'') (parse_u64 raw)) (\<lambda>seq.
     and_then (text_column cols 11 ''status'') (\<lambda>raw.
     and_then (outbox_status_parse raw) (\<lambda>status.
     and_then (unquote_text (cols ! 12)) (\<lambda>claimed.
       Inr \<lparr>ox_id = i, ox_operation = operation, ox_entity = entity, ox_sensor = sensor, ox_value = value, ox_unit = unit,
            ox_times = t, ox_record = \<lparr>ri_generation = generation, ri_seq = seq\<rparr>, ox_status = status,
            ox_claimed = claimed\<rparr>)))))))))))))))))"

section \<open>What may enter a row\<close>

definition col_sep :: char where [verdant_defs]: "col_sep = CHR 0x1F"
definition sent_begin :: string where "sent_begin = ''VERDANT_BEGIN''"
definition sent_data :: string where "sent_data = ''VERDANT_DATA''"
definition sent_end :: string where "sent_end = ''VERDANT_END''"

definition framing_refusal :: "string \<Rightarrow> string option" where
  "framing_refusal raw =
     (if col_sep \<in> set raw
      then Some ''value contains the envelope column separator (0x1F); refused to preserve page framing''
      else if CHR 0x0A \<in> set raw then Some ''value contains a line feed (0x0A); refused to preserve page framing''
      else if CHR 0x0D \<in> set raw then Some ''value contains a carriage return (0x0D); refused to preserve page framing''
      else if raw \<in> {sent_begin, sent_data, sent_end}
      then Some ''value equals an envelope sentinel (VERDANT_BEGIN/DATA/END); refused to preserve page framing''
      else None)"

definition validate_claim_token :: "string \<Rightarrow> storage_error + string" where
  "validate_claim_token raw =
     (if raw = [] then Inl (StoreInvalidInput ''claim token'' ''token must not be empty'')
      else if length raw > 128
      then Inl (StoreInvalidInput ''claim token'' (''token is '' @ show_nat (length raw) @ '' chars; maximum is 128''))
      else case framing_refusal raw of
             Some reason \<Rightarrow> Inl (StoreInvalidInput ''claim token'' reason)
           | None \<Rightarrow> Inr raw)"

definition validate_unit :: "unit_of_measure \<Rightarrow> storage_error + unit" where
  "validate_unit u =
     (case framing_refusal (unit_as_str u) of Some reason \<Rightarrow> Inl (StoreInvalidInput ''unit'' reason) | None \<Rightarrow> Inr ())"

text \<open>
  \<open>&raw[..max]\<close> panics when the cut is inside a character: the text is then None.
\<close>

definition truncate_text :: "string \<Rightarrow> nat \<Rightarrow> string option" where
  "truncate_text raw mx =
     (if length raw \<le> mx then Some raw
      else if utf8_valid (take mx raw)
      then Some (take mx raw @ [CHR 0xE2, CHR 0x80, CHR 0xA6] @ ''[truncated '' @ show_nat (length raw - mx) @ '' chars]'')
      else None)"

definition is_busy_text :: "string \<Rightarrow> bool" where
  "is_busy_text detail \<longleftrightarrow>
     contains_text ''database is locked'' detail \<or> contains_text ''database table is locked'' detail"

section \<open>The envelope\<close>

record connection_settings =
  cs_journal_mode :: string
  cs_synchronous :: string
  cs_foreign_keys :: string
  cs_busy_timeout :: u32
  cs_journal_limit :: u64
  cs_operation_timeout :: u64

definition local_wal_full :: connection_settings where
  "local_wal_full = \<lparr>cs_journal_mode = ''wal'', cs_synchronous = ''2'', cs_foreign_keys = ''1'', cs_busy_timeout = 5000,
     cs_journal_limit = 8388608, cs_operation_timeout = 35000\<rparr>"

definition settings_display :: "connection_settings \<Rightarrow> string" where
  "settings_display s =
     ''journal_mode='' @ cs_journal_mode s @ '' synchronous=FULL('' @ cs_synchronous s @ '') foreign_keys='' @ cs_foreign_keys s @
     '' busy_timeout_ms='' @ show_word (cs_busy_timeout s) @ '' journal_size_limit_bytes='' @ show_word (cs_journal_limit s) @
     '' operation_timeout_ms='' @ show_word (cs_operation_timeout s)"

definition validate_settings :: "connection_settings \<Rightarrow> storage_error + unit" where
  "validate_settings s =
     (if cs_journal_mode s \<noteq> ''wal'' \<or> cs_synchronous s \<noteq> ''2'' \<or> cs_foreign_keys s \<noteq> ''1'' \<or>
         unat (cs_busy_timeout s) > 2 ^ 31 - 1 \<or> unat (cs_journal_limit s) > 2 ^ 63 - 1
      then Inl (DurabilityUnavailable ''only WAL/FULL/FK with representable limits is supported'')
      else Inr ())"

definition schema_generation_store :: u32 where "schema_generation_store = 1"

text \<open>
  \<open>str::lines\<close> splits at line feeds, drops a final empty line and strips one carriage return at the end
  of a line that a line feed ended; the code then strips one more.
\<close>

definition strip_cr :: "string \<Rightarrow> string" where
  "strip_cr s = (if s \<noteq> [] \<and> last s = CHR 0x0D then butlast s else s)"

definition text_lines :: "string \<Rightarrow> string list" where
  "text_lines s =
     (let parts = split_on (CHR 0x0A) s
      in map strip_cr (butlast parts) @ (if last parts = [] then [] else [last parts]))"

text \<open>
  \<open>str::trim\<close> strips the characters of Unicode's White_Space at both ends. The report of missing markers
  quotes the trimmed output, cut to 300 bytes.
\<close>

function utf8_chars :: "string \<Rightarrow> string list" where
  "utf8_chars s = (case utf8_next s of None \<Rightarrow> [] | Some (ch, r) \<Rightarrow> ch # utf8_chars r)"
  by pat_completeness auto
termination
  by (relation "measure length") (auto dest: utf8_next_length)

declare utf8_chars.simps [simp del]

definition white_space :: "string list" where
  "white_space = map (\<lambda>n. the (char_from_u32 n))
     ([0x09, 0x0A, 0x0B, 0x0C, 0x0D, 0x20, 0x85, 0xA0, 0x1680] @ [0x2000..<0x200B] @ [0x2028, 0x2029, 0x202F, 0x205F, 0x3000])"

definition trim_text :: "string \<Rightarrow> string" where
  "trim_text s =
     (let ws = (\<lambda>ch. ch \<in> set white_space)
      in concat (rev (dropWhile ws (rev (dropWhile ws (utf8_chars s))))))"

fun position :: "string \<Rightarrow> string list \<Rightarrow> nat option" where
  "position x [] = None"
| "position x (y # ys) = (if y = x then Some 0 else map_option Suc (position x ys))"

definition settings_labels :: "string list" where
  "settings_labels = [''journal_mode'', ''synchronous'', ''foreign_keys'', ''busy_timeout'', ''journal_size_limit'']"

definition settings_wanted :: "connection_settings \<Rightarrow> string list" where
  "settings_wanted s = [cs_journal_mode s, cs_synchronous s, cs_foreign_keys s, show_word (cs_busy_timeout s), show_word (cs_journal_limit s)]"

fun settings_mismatch :: "(string \<times> string \<times> string) list \<Rightarrow> storage_error option" where
  "settings_mismatch [] = None"
| "settings_mismatch ((label, actual, expected) # rest) =
     (if actual \<noteq> expected
      then Some (DurabilityUnavailable (''per-connection '' @ label @ '' is '' @ quoted actual @ '', required '' @ quoted expected @
        '' (recorded settings not honored)''))
      else settings_mismatch rest)"

record verified_output =
  vo_generation :: u32
  vo_journal_limit :: u64
  vo_rows :: "string list list"

text \<open>The first marker, or the report of its absence; None when the cut of the report panics.\<close>

definition marker_report :: "string \<Rightarrow> storage_error option" where
  "marker_report stdout =
     map_option (\<lambda>cut. SqliteFailure (''envelope markers missing (no '' @ sent_begin @ ''); stdout was: '' @ quoted cut))
       (truncate_text (trim_text stdout) 300)"

definition envelope_body :: "string list \<Rightarrow> connection_settings \<Rightarrow> storage_error + verified_output" where
  "envelope_body rest settings =
     (if length rest < 7 \<or> rest ! 6 \<noteq> sent_data then Inl (SqliteFailure ''envelope verification block malformed'')
      else
     and_then (ok_or (SqliteFailure (''user_version unreadable: '' @ quoted (rest ! 0))) (parse_u32 (rest ! 0))) (\<lambda>generation.
       if generation \<noteq> schema_generation_store then Inl (SchemaMismatch schema_generation_store (rest ! 0))
       else
     (case settings_mismatch (zip settings_labels (zip (take 5 (drop 1 rest)) (settings_wanted settings))) of
        Some e \<Rightarrow> Inl e
      | None \<Rightarrow>
     and_then (ok_or (SqliteFailure (''envelope markers missing (no '' @ sent_end @ '')'')) (position sent_end (drop 7 rest))) (\<lambda>stop.
     and_then (ok_or (SqliteFailure (''journal_size_limit unreadable: '' @ quoted (rest ! 5))) (parse_u64 (rest ! 5))) (\<lambda>limit.
       Inr \<lparr>vo_generation = generation, vo_journal_limit = limit,
            vo_rows = map (split_on col_sep) (take stop (drop 7 rest))\<rparr>)))))"

definition parse_envelope :: "string \<Rightarrow> connection_settings \<Rightarrow> (storage_error + verified_output) option" where
  "parse_envelope stdout settings =
     (let ls = map strip_cr (text_lines stdout)
      in case position sent_begin ls of
           None \<Rightarrow> map_option Inl (marker_report stdout)
         | Some start \<Rightarrow> Some (envelope_body (drop (start + 1) ls) settings))"

end
