(* ===== verification/Mutation.thy ===== *)
theory Mutation
  imports Outbox
begin

text \<open>
  The exactly-once discipline of the store (\<open>src/src/storage/sqlite/mutation.rs\<close>): a prepared mutation
  carries an operation identity; its body runs in one transaction with the receipt that records its
  request and its response; a retry of the same identity is answered from the receipt, and a
  reconciliation asks for the receipt alone. The body's meaning on the tables is a parameter: each
  store of the program gives its own. What may go wrong in between is part of an environment that is
  chosen afresh for every call.
\<close>

section \<open>Receipts\<close>

datatype shape = ShapeInsert | ShapeRows | ShapeChange

fun shape_text :: "shape \<Rightarrow> string" where
  "shape_text ShapeInsert = ''Insert''"
| "shape_text ShapeRows = ''Rows''"
| "shape_text ShapeChange = ''Change''"

definition hex_text :: "string \<Rightarrow> string" where
  "hex_text bytes = concat (map (\<lambda>c. [upper_hex_digit (byte c div 16), upper_hex_digit (byte c mod 16)]) bytes)"

fun unhex_bytes :: "string \<Rightarrow> string option" where
  "unhex_bytes (a # b # s) =
     (case (hex_value a, hex_value b) of
        (Some m, Some n) \<Rightarrow> map_option (\<lambda>r. char_of (m * 16 + n) # r) (unhex_bytes s)
      | _ \<Rightarrow> None)"
| "unhex_bytes s = Some []"

definition sql_failure :: "string \<Rightarrow> storage_error" where
  "sql_failure detail = SqliteFailure detail"

definition unhex :: "string \<Rightarrow> storage_error + string" where
  "unhex raw =
     (if length raw mod 2 \<noteq> 0 \<or> list_ex (\<lambda>c. 128 \<le> byte c) raw then Inl (sql_failure ''malformed receipt hex'')
      else and_then (ok_or (sql_failure ''malformed receipt hex'') (unhex_bytes raw)) (\<lambda>bytes.
        if utf8_valid bytes then Inr bytes else Inl (sql_failure ''malformed receipt UTF-8'')))"

definition encode_response :: "string list list \<Rightarrow> string" where
  "encode_response rows = join_on (CHR '';'') (map (\<lambda>row. join_on (CHR '','') (map hex_text row)) rows)"

definition decode_response :: "string \<Rightarrow> storage_error + string list list" where
  "decode_response response =
     (if response = [] then Inr []
      else collect_res (\<lambda>row. collect_res unhex (split_on (CHR '','') row)) (split_on (CHR '';'') response))"

definition scalar_cell :: "string list list \<Rightarrow> storage_error + string" where
  "scalar_cell rows =
     (case rows of [[c]] \<Rightarrow> Inr c | _ \<Rightarrow> Inl (sql_failure ''expected exactly one scalar''))"

definition positive_id :: "string \<Rightarrow> bool" where
  "positive_id c \<longleftrightarrow> (case parse_i64 c of Some n \<Rightarrow> 0 < n | None \<Rightarrow> False)"

fun validate_rows :: "shape \<Rightarrow> string list list \<Rightarrow> storage_error + unit" where
  "validate_rows ShapeInsert rows =
     (case rows of
        [first, second] \<Rightarrow> and_then (scalar_cell [first]) (\<lambda>c.
          if positive_id c \<and> second = [''1''] then Inr () else Inl (sql_failure ''malformed insert response''))
      | _ \<Rightarrow> Inl (sql_failure ''malformed insert response''))"
| "validate_rows ShapeRows rows = map_ok (\<lambda>_. ()) (collect_res decode_outbox_row rows)"
| "validate_rows ShapeChange rows =
     and_then (scalar_cell rows) (\<lambda>v.
       if v = ''0'' \<or> v = ''1'' then Inr () else Inl (sql_failure ''malformed changes response''))"

definition mutation_result :: "shape \<Rightarrow> operation_id \<Rightarrow> string list list \<Rightarrow> mutation_outcome" where
  "mutation_result sh operation rows =
     (if sh = ShapeChange \<and> rows = [[''0'']]
      then MConflict operation ''zero affected rows (claim owner/state or entity mismatch)''
      else MCommitted operation rows)"

section \<open>Mutations and the world\<close>

text \<open>
  A body is the text that enters the request and what the engine makes of it: an error, after which the
  transaction is rolled back, or the tables and the rows it answers.
\<close>

record 'd body =
  bd_text :: string
  bd_run :: "'d \<Rightarrow> storage_error + 'd \<times> string list list"

record 'd prepared =
  pm_operation :: operation_id
  pm_store :: string
  pm_body :: "'d body"
  pm_shape :: shape
  pm_payload :: nat
  pm_attempted :: bool

definition prepared_new :: "operation_id \<Rightarrow> string \<Rightarrow> 'd body \<Rightarrow> shape \<Rightarrow> 'd prepared" where
  "prepared_new generated identity body sh =
     \<lparr>pm_operation = generated, pm_store = identity, pm_body = body, pm_shape = sh, pm_payload = 0, pm_attempted = False\<rparr>"

definition with_operation :: "operation_id \<Rightarrow> 'd prepared \<Rightarrow> 'd prepared" where
  "with_operation operation p = p\<lparr>pm_operation := operation, pm_attempted := True\<rparr>"

definition request_text :: "'d prepared \<Rightarrow> string" where
  "request_text p = shape_text (pm_shape p) @ '':'' @ pm_store p @ '':'' @ bd_text (pm_body p)"

definition request_of :: "'d prepared \<Rightarrow> string" where
  "request_of p = hex_text (request_text p)"

record 'd world =
  wd_data :: 'd
  wd_receipts :: "(operation_id \<times> string \<times> string) list"

text \<open>The answer of COMMIT: done, or an error with the transaction kept or lost.\<close>

datatype fate = CommitDone | CommitKept storage_error | CommitLost storage_error

record environment =
  se_identity :: string
  se_admission :: "storage_error option"
  se_query :: "storage_error option"
  se_record :: "storage_error option"
  se_fate :: fate
  se_bounds :: store_bounds
  se_maintenance :: "string option"
  se_db_size :: u64

definition saturating_add :: "u64 \<Rightarrow> u64 \<Rightarrow> u64" where
  "saturating_add a b = (case checked_add a b of Some c \<Rightarrow> c | None \<Rightarrow> - 1)"

definition failing :: "storage_error option \<Rightarrow> storage_error + unit" where
  "failing e = (case e of Some x \<Rightarrow> Inl x | None \<Rightarrow> Inr ())"

definition receipt_of :: "environment \<Rightarrow> 'd world \<Rightarrow> operation_id \<Rightarrow> storage_error + (string \<times> string) option" where
  "receipt_of se w operation = and_then (failing (se_query se)) (\<lambda>_. Inr (map_of (wd_receipts w) operation))"

text \<open>A receipt of the same request answers with its rows.\<close>

definition replayed :: "shape \<Rightarrow> string \<Rightarrow> storage_error + string list list" where
  "replayed sh response =
     and_then (decode_response response) (\<lambda>rows. and_then (validate_rows sh rows) (\<lambda>_. Inr rows))"

definition insert_checks :: "environment \<Rightarrow> 'd prepared \<Rightarrow> storage_error + unit" where
  "insert_checks se p =
     (if pm_shape p \<noteq> ShapeInsert then Inr ()
      else if pm_payload p > max_value_bytes (se_bounds se)
      then Inl (ValueTooLarge (pm_payload p) (max_value_bytes (se_bounds se)))
      else case se_maintenance se of
        Some detail \<Rightarrow> Inl (MaintenanceRequired detail)
      | None \<Rightarrow>
          if unat (saturating_add (se_db_size se) (of_nat (pm_payload p))) > unat (max_db_bytes (se_bounds se))
          then Inl (SpaceExhausted ''synthetic writer-admission space budget'')
          else Inr ())"

text \<open>The first execution: the rows, and the world with the body applied and the receipt added.\<close>

definition execute :: "environment \<Rightarrow> 'd prepared \<Rightarrow> 'd world \<Rightarrow> storage_error + 'd world \<times> string list list" where
  "execute se p w =
     and_then (insert_checks se p) (\<lambda>_.
     and_then (bd_run (pm_body p) (wd_data w)) (\<lambda>(d, rows).
     and_then (validate_rows (pm_shape p) rows) (\<lambda>_.
     and_then (failing (se_record se)) (\<lambda>_.
       Inr (\<lparr>wd_data = d, wd_receipts = (pm_operation p, request_of p, encode_response rows) # wd_receipts w\<rparr>, rows)))))"

fun not_committed :: "operation_id \<Rightarrow> bool \<Rightarrow> storage_error \<Rightarrow> mutation_outcome" where
  "not_committed operation absent (StoreConflict detail) = MConflict operation detail"
| "not_committed operation absent e =
     (if absent then MNotCommitted operation e else MUnknown operation (storage_error_display e))"

definition submit_mutation :: "environment \<Rightarrow> 'd prepared \<Rightarrow> 'd world \<Rightarrow> 'd prepared \<times> 'd world \<times> mutation_outcome" where
  "submit_mutation se p w =
     (let operation = pm_operation p; retried = pm_attempted p; p' = p\<lparr>pm_attempted := True\<rparr>
      in if pm_store p \<noteq> se_identity se then (p', w, MConflict operation ''request belongs to a different store'')
         else case se_admission se of
           Some e \<Rightarrow> (p', w, if retried then MUnknown operation (storage_error_display e) else MNotCommitted operation e)
         | None \<Rightarrow>
             (case receipt_of se w operation of
                Inl e \<Rightarrow> (p', w, not_committed operation False e)
              | Inr (Some (request, response)) \<Rightarrow>
                  (p', w,
                   if request \<noteq> request_of p
                   then not_committed operation False (StoreConflict ''operation identity reused with different request'')
                   else case replayed (pm_shape p) response of
                     Inl e \<Rightarrow> not_committed operation False e
                   | Inr rows \<Rightarrow> mutation_result (pm_shape p) operation rows)
              | Inr None \<Rightarrow>
                  (case execute se p w of
                     Inl e \<Rightarrow> (p', w, not_committed operation True e)
                   | Inr (w', rows) \<Rightarrow>
                       (case se_fate se of
                          CommitDone \<Rightarrow> (p', w', mutation_result (pm_shape p) operation rows)
                        | CommitKept e \<Rightarrow> (p', w', MUnknown operation (storage_error_display e))
                        | CommitLost e \<Rightarrow> (p', w, MUnknown operation (storage_error_display e))))))"

definition no_receipt :: storage_error where "no_receipt = sql_failure ''no receipt at writer barrier''"

definition reconcile_mutation :: "environment \<Rightarrow> 'd prepared \<Rightarrow> 'd world \<Rightarrow> mutation_outcome" where
  "reconcile_mutation se p w =
     (let operation = pm_operation p
      in case and_then (failing (se_admission se)) (\<lambda>_. receipt_of se w operation) of
           Inl e \<Rightarrow> MUnknown operation (storage_error_display e)
         | Inr (Some (request, response)) \<Rightarrow>
             if request = request_of p \<and> pm_store p = se_identity se
             then (case replayed (pm_shape p) response of
                     Inr rows \<Rightarrow> mutation_result (pm_shape p) operation rows
                   | Inl e \<Rightarrow> MUnknown operation (storage_error_display e))
             else MConflict operation ''operation identity/request mismatch''
         | Inr None \<Rightarrow>
             if pm_store p = se_identity se then MNotCommitted operation no_receipt
             else MConflict operation ''request belongs to a different store'')"

text \<open>\<open>split_once(':')\<close>.\<close>

fun receipt_split :: "string \<Rightarrow> (string \<times> string) option" where
  "receipt_split [] = None"
| "receipt_split (c # s) =
     (if c = CHR '':'' then Some ([], s) else map_option (\<lambda>(a, b). (c # a, b)) (receipt_split s))"

definition shape_parse :: "string \<Rightarrow> storage_error + shape" where
  "shape_parse raw =
     (if raw = ''Insert'' then Inr ShapeInsert
      else if raw = ''Rows'' then Inr ShapeRows
      else if raw = ''Change'' then Inr ShapeChange
      else Inl (sql_failure ''receipt kind unknown''))"

definition receipt_rows :: "environment \<Rightarrow> string \<Rightarrow> string \<Rightarrow> storage_error + shape \<times> string list list" where
  "receipt_rows se request response =
     and_then (unhex request) (\<lambda>raw.
     and_then (ok_or (sql_failure ''receipt request framing'') (receipt_split raw)) (\<lambda>(kind, rest).
     and_then (ok_or (sql_failure ''receipt store framing'') (receipt_split rest)) (\<lambda>(store, _).
       if store \<noteq> se_identity se then Inl (sql_failure ''receipt store identity mismatch'')
       else
     and_then (shape_parse kind) (\<lambda>sh.
     and_then (decode_response response) (\<lambda>rows.
     and_then (validate_rows sh rows) (\<lambda>_. Inr (sh, rows)))))))"

definition reconcile_operation :: "environment \<Rightarrow> operation_id \<Rightarrow> 'd world \<Rightarrow> mutation_outcome" where
  "reconcile_operation se operation w =
     (case and_then (failing (se_admission se)) (\<lambda>_. receipt_of se w operation) of
        Inl e \<Rightarrow> MUnknown operation (storage_error_display e)
      | Inr None \<Rightarrow> MNotCommitted operation no_receipt
      | Inr (Some (request, response)) \<Rightarrow>
          (case receipt_rows se request response of
             Inr (sh, rows) \<Rightarrow> mutation_result sh operation rows
           | Inl e \<Rightarrow> MUnknown operation (storage_error_display e)))"

fun mutation_into_result :: "mutation_outcome \<Rightarrow> storage_error + string list list" where
  "mutation_into_result (MCommitted _ rows) = Inr rows"
| "mutation_into_result (MNotCommitted _ e) = Inl e"
| "mutation_into_result (MConflict _ detail) = Inl (StoreConflict detail)"
| "mutation_into_result (MUnknown operation detail) =
     Inl (sql_failure (''UNKNOWN outcome for '' @ operation @ ''; reconcile that identity, do not retry as new work: '' @ detail))"

end
