(* ===== verification/Outbox_Store.thy ===== *)
theory Outbox_Store
  imports Mutation
begin

text \<open>
  The outbox of \<open>src/src/storage/sqlite/mod.rs\<close>: its tables, the statements it sends with what they do
  to the tables, and the operations over them. A statement is the text that is sent together with its
  effect, so that the mutation discipline applies to it. The clock column of a row is written by the
  database and never read; it is left out.
\<close>

section \<open>Tables\<close>

record table_row =
  tr_id :: int
  tr_operation :: string
  tr_entity :: string
  tr_sensor :: string
  tr_value :: string
  tr_unit :: string
  tr_source :: string
  tr_receipt :: string
  tr_ingestion :: string
  tr_generation :: string
  tr_seq :: string
  tr_status :: outbox_status
  tr_claimed :: "string option"

text \<open>Rows by ascending identity, the last identity given out, and the marks of derived entities.\<close>

record outbox_db =
  od_rows :: "table_row list"
  od_last :: int
  od_marks :: "(string \<times> bool \<times> u32) list"

fun quote_column :: "string option \<Rightarrow> string" where
  "quote_column None = ''NULL''"
| "quote_column (Some t) = sql_quote t"

definition row_columns :: "table_row \<Rightarrow> string list" where
  "row_columns r =
     [show_int (tr_id r), sql_quote (tr_operation r), sql_quote (tr_entity r), sql_quote (tr_sensor r), sql_quote (tr_value r),
      sql_quote (tr_unit r), sql_quote (tr_source r), sql_quote (tr_receipt r), sql_quote (tr_ingestion r),
      sql_quote (tr_generation r), sql_quote (tr_seq r), sql_quote (outbox_status_text (tr_status r)), quote_column (tr_claimed r)]"

definition columns_text :: string where
  "columns_text = ''id, quote(operation), quote(entity), quote(sensor), quote(value_json), quote(unit), quote(source_ms), quote(receipt_ms), quote(ingestion_ms), quote(generation), quote(seq), quote(status), quote(claimed_by)''"

section \<open>Statements\<close>

text \<open>A row as it is inserted: queued, with no claim.\<close>

definition new_row :: "int \<Rightarrow> operation_id \<Rightarrow> installed_id \<Rightarrow> installed_id \<Rightarrow> val \<Rightarrow> unit_of_measure \<Rightarrow> time_triple \<Rightarrow> record_identity \<Rightarrow>
    table_row" where
  "new_row i operation entity sensor value unit t rec =
     \<lparr>tr_id = i, tr_operation = operation, tr_entity = entity, tr_sensor = sensor, tr_value = value_to_json value,
      tr_unit = unit_as_str unit, tr_source = show_int (tt_source t), tr_receipt = show_int (tt_receipt t),
      tr_ingestion = show_int (tt_ingestion t), tr_generation = ri_generation rec, tr_seq = show_word (ri_seq rec),
      tr_status = Queued, tr_claimed = None\<rparr>"

definition now_sql :: string where
  "now_sql = ''CAST(unixepoch()*1000000000 + CAST(substr(strftime('%f','now'),4,3) AS INTEGER)*1000000 AS TEXT)''"

definition insert_sql :: "table_row \<Rightarrow> string" where
  "insert_sql r =
     ''INSERT INTO outbox(operation, entity, sensor, value_json, unit, source_ms, receipt_ms, ingestion_ms, generation, seq, status, claimed_by, created_nanos) VALUES ('' @
     join_with '', '' [sql_quote (tr_operation r), sql_quote (tr_entity r), sql_quote (tr_sensor r), sql_quote (tr_value r),
       sql_quote (tr_unit r), sql_quote (tr_source r), sql_quote (tr_receipt r), sql_quote (tr_ingestion r),
       sql_quote (tr_generation r), sql_quote (tr_seq r), sql_quote ''queued'', ''NULL'', now_sql] @
     ''); SELECT last_insert_rowid(); INSERT INTO derived_marks(entity, dirty, checked_generation) VALUES ('' @
     sql_quote (tr_entity r) @ '', 1, 0) ON CONFLICT(entity) DO UPDATE SET dirty = 1; SELECT changes();''"

definition max_rowid :: int where "max_rowid = 2 ^ 63 - 1"

definition mark_dirty :: "string \<Rightarrow> outbox_db \<Rightarrow> outbox_db" where
  "mark_dirty entity d =
     d\<lparr>od_marks := bt_insert entity (True, case bt_get (od_marks d) entity of Some (_, g) \<Rightarrow> g | None \<Rightarrow> 0) (od_marks d)\<rparr>"

definition insert_body :: "(int \<Rightarrow> table_row) \<Rightarrow> outbox_db body" where
  "insert_body row =
     \<lparr>bd_text = insert_sql (row 0),
      bd_run = (\<lambda>d.
        if od_last d \<ge> max_rowid then Inl (sql_failure ''database or disk is full'')
        else (let i = od_last d + 1
              in Inr (mark_dirty (tr_entity (row i)) (d\<lparr>od_rows := od_rows d @ [row i], od_last := i\<rparr>), [[show_int i], [''1'']])))\<rparr>"

definition claimed_row :: "string \<Rightarrow> table_row \<Rightarrow> table_row" where
  "claimed_row token r = r\<lparr>tr_status := Claimed, tr_claimed := Some token\<rparr>"

definition queued_ids :: "nat \<Rightarrow> outbox_db \<Rightarrow> int list" where
  "queued_ids n d = take n (map tr_id (filter (\<lambda>r. tr_status r = Queued) (od_rows d)))"

text \<open>The claim answers its rows in the order of their ids; the engine promises no order of the rows it returns.\<close>

definition claim_body :: "nat \<Rightarrow> string \<Rightarrow> outbox_db body" where
  "claim_body n token =
     \<lparr>bd_text = ''UPDATE outbox SET status = 'claimed', claimed_by = '' @ sql_quote token @
        '' WHERE id IN (SELECT id FROM outbox WHERE status = 'queued' ORDER BY id LIMIT '' @ show_nat n @ '') RETURNING '' @
        columns_text @ '';'',
      bd_run = (\<lambda>d. let ids = queued_ids n d; hit = (\<lambda>r. tr_id r \<in> set ids)
        in Inr (d\<lparr>od_rows := map (\<lambda>r. if hit r then claimed_row token r else r) (od_rows d)\<rparr>,
                map (row_columns \<circ> claimed_row token) (filter hit (od_rows d))))\<rparr>"

text \<open>An update of the rows that match, answered with their number.\<close>

definition update_rows :: "(table_row \<Rightarrow> bool) \<Rightarrow> (table_row \<Rightarrow> table_row) \<Rightarrow> outbox_db \<Rightarrow> storage_error + outbox_db \<times> string list list" where
  "update_rows hit f d =
     Inr (d\<lparr>od_rows := map (\<lambda>r. if hit r then f r else r) (od_rows d)\<rparr>, [[show_nat (length (filter hit (od_rows d)))]])"

definition held_by :: "int \<Rightarrow> string \<Rightarrow> table_row \<Rightarrow> bool" where
  "held_by i token r \<longleftrightarrow> tr_id r = i \<and> tr_status r = Claimed \<and> tr_claimed r = Some token"

definition ack_body :: "int \<Rightarrow> string \<Rightarrow> outbox_db body" where
  "ack_body i token =
     \<lparr>bd_text = ''UPDATE outbox SET status = 'acked' WHERE id = '' @ show_int i @ '' AND status = 'claimed' AND claimed_by = '' @
        sql_quote token @ ''; SELECT changes();'',
      bd_run = update_rows (held_by i token) (\<lambda>r. r\<lparr>tr_status := Acked\<rparr>)\<rparr>"

definition requeue_body :: "int \<Rightarrow> string \<Rightarrow> outbox_db body" where
  "requeue_body i token =
     \<lparr>bd_text = ''UPDATE outbox SET status = 'queued', claimed_by = NULL WHERE id = '' @ show_int i @
        '' AND status = 'claimed' AND claimed_by = '' @ sql_quote token @ ''; SELECT changes();'',
      bd_run = update_rows (held_by i token) (\<lambda>r. r\<lparr>tr_status := Queued, tr_claimed := None\<rparr>)\<rparr>"

definition recalculated_body :: "string \<Rightarrow> u32 \<Rightarrow> outbox_db body" where
  "recalculated_body entity generation =
     \<lparr>bd_text = ''UPDATE derived_marks SET dirty = 0, checked_generation = '' @ show_word generation @ '' WHERE entity = '' @
        sql_quote entity @ ''; SELECT changes();'',
      bd_run = (\<lambda>d. Inr
        (case bt_get (od_marks d) entity of
           Some _ \<Rightarrow> (d\<lparr>od_marks := bt_insert entity (False, generation) (od_marks d)\<rparr>, [[''1'']])
         | None \<Rightarrow> (d, [[''0'']])))\<rparr>"

section \<open>Writing operations\<close>

text \<open>
  The sizes of the files of the store, and the identity generated for a mutation, are given to each call.
\<close>

record file_sizes =
  fz_db :: u64
  fz_wal :: u64
  fz_shm :: u64

definition capacity_bytes :: "file_sizes \<Rightarrow> u64" where
  "capacity_bytes fz = saturating_add (saturating_add (fz_db fz) (fz_wal fz)) (fz_shm fz)"

definition maintenance_reason :: "store_bounds \<Rightarrow> file_sizes \<Rightarrow> string option" where
  "maintenance_reason b fz =
     (if unat (fz_wal fz) > unat (max_wal_bytes b)
      then Some (''wal '' @ show_word (fz_wal fz) @ '' bytes exceeds max_wal_bytes '' @ show_word (max_wal_bytes b) @ '': run checkpoint'')
      else if unat (capacity_bytes fz) > unat (max_db_bytes b)
      then Some (''main + WAL + SHM '' @ show_word (capacity_bytes fz) @ '' bytes exceeds max_db_bytes '' @ show_word (max_db_bytes b) @
        '': operator maintenance window is '' @ show_word (maintenance_window_secs b) @ '' s'')
      else None)"

definition prepare_insert :: "store_bounds \<Rightarrow> file_sizes \<Rightarrow> operation_id \<Rightarrow> string \<Rightarrow> operation_id \<Rightarrow> installed_id \<Rightarrow> installed_id \<Rightarrow>
    val \<Rightarrow> unit_of_measure \<Rightarrow> time_triple \<Rightarrow> record_identity \<Rightarrow> storage_error + outbox_db prepared" where
  "prepare_insert b fz generated identity operation entity sensor value unit t rec =
     (let json = value_to_json value
      in if length json > max_value_bytes b then Inl (ValueTooLarge (length json) (max_value_bytes b))
         else case maintenance_reason b fz of
           Some reason \<Rightarrow> Inl (MaintenanceRequired reason)
         | None \<Rightarrow>
             if unat (saturating_add (capacity_bytes fz) (of_nat (length json))) > unat (max_db_bytes b)
             then Inl (SpaceExhausted (''synthetic space budget: main + WAL + SHM '' @ show_word (capacity_bytes fz) @ '' bytes + '' @
               show_nat (length json) @ '' payload bytes exceeds max_db_bytes '' @ show_word (max_db_bytes b)))
             else and_then (validate_unit unit) (\<lambda>_.
               Inr ((prepared_new generated identity
                 (insert_body (\<lambda>i. new_row i operation entity sensor value unit t rec)) ShapeInsert)\<lparr>pm_payload := length json\<rparr>)))"

definition submit_into :: "environment \<Rightarrow> 'd prepared \<Rightarrow> 'd world \<Rightarrow> 'd world \<times> (storage_error + string list list)" where
  "submit_into se p w = (case submit_mutation se p w of (_, w', outcome) \<Rightarrow> (w', mutation_into_result outcome))"

definition insert_result :: "string list list \<Rightarrow> storage_error + int" where
  "insert_result rows =
     (case rows of
        [] \<Rightarrow> Inl (sql_failure ''insert id missing'')
      | row # _ \<Rightarrow> and_then (scalar_cell [row]) (\<lambda>c. ok_or (sql_failure ''insert id unreadable'') (parse_i64 c)))"

definition outbox_insert :: "environment \<Rightarrow> file_sizes \<Rightarrow> operation_id \<Rightarrow> operation_id \<Rightarrow> installed_id \<Rightarrow> installed_id \<Rightarrow> val \<Rightarrow>
    unit_of_measure \<Rightarrow> time_triple \<Rightarrow> record_identity \<Rightarrow> outbox_db world \<Rightarrow> outbox_db world \<times> (storage_error + int)" where
  "outbox_insert se fz generated operation entity sensor value unit t rec w =
     (case prepare_insert (se_bounds se) fz generated (se_identity se) operation entity sensor value unit t rec of
        Inl e \<Rightarrow> (w, Inl e)
      | Inr p \<Rightarrow> (case submit_into se p w of (w', r) \<Rightarrow> (w', and_then r insert_result)))"

definition effective_limit :: "store_bounds \<Rightarrow> u32 \<Rightarrow> nat" where
  "effective_limit b limit = max (min (unat limit) (unat (max_replay_rows b))) 1"

definition prepare_claim :: "store_bounds \<Rightarrow> operation_id \<Rightarrow> string \<Rightarrow> u32 \<Rightarrow> string \<Rightarrow> storage_error + outbox_db prepared" where
  "prepare_claim b generated identity limit claimed_by =
     (if limit = 0 then Inl (StoreInvalidInput ''claim limit'' ''limit must be at least 1'')
      else and_then (validate_claim_token claimed_by) (\<lambda>token.
        Inr (prepared_new generated identity (claim_body (effective_limit b limit) token) ShapeRows)))"

definition claim_queued :: "environment \<Rightarrow> operation_id \<Rightarrow> u32 \<Rightarrow> string \<Rightarrow> outbox_db world \<Rightarrow>
    outbox_db world \<times> (storage_error + outbox_row list)" where
  "claim_queued se generated limit claimed_by w =
     (case prepare_claim (se_bounds se) generated (se_identity se) limit claimed_by of
        Inl e \<Rightarrow> (w, Inl e)
      | Inr p \<Rightarrow> (case submit_into se p w of (w', r) \<Rightarrow> (w', and_then r (collect_res decode_outbox_row))))"

definition exec_changes :: "environment \<Rightarrow> operation_id \<Rightarrow> outbox_db body \<Rightarrow> outbox_db world \<Rightarrow> outbox_db world \<times> (storage_error + int)" where
  "exec_changes se generated body w =
     (case submit_into se (prepared_new generated (se_identity se) body ShapeChange) w of (w', r) \<Rightarrow>
        (w', and_then r (\<lambda>rows. ok_or (sql_failure ''expected a single changes() row'')
          (case rows of (c # _) # _ \<Rightarrow> parse_i64 c | _ \<Rightarrow> None))))"

definition changed_one :: "storage_error \<Rightarrow> storage_error + int \<Rightarrow> storage_error + unit" where
  "changed_one e r = and_then r (\<lambda>changed. if changed = 1 then Inr () else Inl e)"

definition acknowledge :: "environment \<Rightarrow> operation_id \<Rightarrow> int \<Rightarrow> string \<Rightarrow> outbox_db world \<Rightarrow> outbox_db world \<times> (storage_error + unit)" where
  "acknowledge se generated i expected w =
     (case validate_claim_token expected of
        Inl e \<Rightarrow> (w, Inl e)
      | Inr token \<Rightarrow> (case exec_changes se generated (ack_body i token) w of (w', r) \<Rightarrow>
          (w', changed_one (StoreConflict (''acknowledge id '' @ show_int i @ '': zero affected rows (not claimed by this token)'')) r)))"

definition requeue_claim :: "environment \<Rightarrow> operation_id \<Rightarrow> int \<Rightarrow> string \<Rightarrow> outbox_db world \<Rightarrow> outbox_db world \<times> (storage_error + unit)" where
  "requeue_claim se generated i expected w =
     (case validate_claim_token expected of
        Inl e \<Rightarrow> (w, Inl e)
      | Inr token \<Rightarrow> (case exec_changes se generated (requeue_body i token) w of (w', r) \<Rightarrow>
          (w', changed_one (StoreConflict (''requeue id '' @ show_int i @ '': zero affected rows (not dangling under this token)'')) r)))"

definition mark_recalculated :: "environment \<Rightarrow> operation_id \<Rightarrow> installed_id \<Rightarrow> u32 \<Rightarrow> outbox_db world \<Rightarrow>
    outbox_db world \<times> (storage_error + unit)" where
  "mark_recalculated se generated entity generation w =
     (if generation \<noteq> schema_generation_store
      then (w, Inl (StoreInvalidInput ''recalculation generation''
        (''checked recalculation requires generation '' @ pad_zeros 4 (show_word schema_generation_store) @ '', got '' @
         pad_zeros 4 (show_word generation) @ ''; dirty flag preserved'')))
      else (case exec_changes se generated (recalculated_body entity generation) w of (w', r) \<Rightarrow>
        (w', changed_one (StoreConflict (''no derived mark for '' @ quoted entity @ '': nothing recalculated'')) r)))"

section \<open>Reading operations\<close>

text \<open>A read is one script of queries in an admitted, read-only transaction.\<close>

definition query_rows :: "environment \<Rightarrow> ('d \<Rightarrow> string list list) \<Rightarrow> 'd world \<Rightarrow> storage_error + string list list" where
  "query_rows se query w =
     and_then (failing (se_admission se)) (\<lambda>_. and_then (failing (se_query se)) (\<lambda>_. Inr (query (wd_data w))))"

definition status_count :: "outbox_status \<Rightarrow> outbox_db \<Rightarrow> nat" where
  "status_count st d = length (filter (\<lambda>r. tr_status r = st) (od_rows d))"

record replay_report =
  rr_rows :: "outbox_row list"
  rr_requested :: u32
  rr_served :: u32
  rr_truncated :: bool

definition replay_query :: "nat \<Rightarrow> outbox_db \<Rightarrow> string list list" where
  "replay_query n d = [show_nat (status_count Queued d)] # map row_columns (take n (filter (\<lambda>r. tr_status r = Queued) (od_rows d)))"

definition replay_queued :: "environment \<Rightarrow> u32 \<Rightarrow> outbox_db world \<Rightarrow> storage_error + replay_report" where
  "replay_queued se limit w =
     (if limit = 0 then Inl (StoreInvalidInput ''replay limit'' ''limit must be at least 1'')
      else (let effective = effective_limit (se_bounds se) limit
            in and_then (query_rows se (replay_query effective) w) (\<lambda>lines.
               and_then (collect_res decode_outbox_row (tl lines)) (\<lambda>rows.
                 Inr \<lparr>rr_rows = rows, rr_requested = limit, rr_served = of_nat (length rows),
                      rr_truncated = (unat limit > effective)\<rparr>))))"

record dangling_claim =
  dc_id :: int
  dc_operation :: operation_id
  dc_claimed :: string

definition dangling_query :: "outbox_db \<Rightarrow> string list list" where
  "dangling_query d = map (\<lambda>r. [show_int (tr_id r), sql_quote (tr_operation r), quote_column (tr_claimed r)])
     (filter (\<lambda>r. tr_status r = Claimed) (od_rows d))"

definition decode_dangling :: "string list \<Rightarrow> storage_error + dangling_claim" where
  "decode_dangling cols =
     (if length cols \<noteq> 3
      then Inl (StoreInvalidRecord (''dangling row has '' @ show_nat (length cols) @ '' columns, expected 3''))
      else
     and_then (ok_or (StoreInvalidRecord (''dangling id unreadable: '' @ quoted (cols ! 0))) (parse_i64 (cols ! 0))) (\<lambda>i.
     and_then (unquote_text (cols ! 1)) (\<lambda>raw.
     and_then (ok_or (StoreInvalidRecord ''dangling operation is NULL'') raw) (\<lambda>raw.
     and_then (map_err (\<lambda>e. StoreInvalidRecord (''dangling operation invalid: '' @ error_display e)) (id_parse operation_id_kind raw)) (\<lambda>operation.
     and_then (unquote_text (cols ! 2)) (\<lambda>token.
     and_then (ok_or (StoreInvalidRecord ''dangling claim without a token'') token) (\<lambda>token.
       Inr \<lparr>dc_id = i, dc_operation = operation, dc_claimed = token\<rparr>)))))))"

definition dangling_claims :: "environment \<Rightarrow> outbox_db world \<Rightarrow> storage_error + dangling_claim list" where
  "dangling_claims se w = and_then (query_rows se dangling_query w) (collect_res decode_dangling)"

definition dirty_query :: "outbox_db \<Rightarrow> string list list" where
  "dirty_query d = map (\<lambda>m. [sql_quote (fst m)]) (filter (\<lambda>m. fst (snd m)) (od_marks d))"

definition decode_dirty :: "string list \<Rightarrow> storage_error + string" where
  "decode_dirty cols =
     (if length cols \<noteq> 1 then Inl (StoreInvalidRecord ''dirty-mark row has an unexpected shape'')
      else and_then (unquote_text (cols ! 0)) (\<lambda>t. ok_or (StoreInvalidRecord ''dirty-mark entity is NULL'') t))"

definition dirty_entities :: "environment \<Rightarrow> outbox_db world \<Rightarrow> storage_error + string list" where
  "dirty_entities se w = and_then (query_rows se dirty_query w) (collect_res decode_dirty)"

record checkpoint_report =
  ck_busy :: int
  ck_log :: int
  ck_checkpointed :: int

definition checkpoint_column :: "string list \<Rightarrow> nat \<Rightarrow> storage_error + int" where
  "checkpoint_column cols index =
     ok_or (SqliteFailure (''wal_checkpoint column '' @ show_nat index @ '' unreadable: '' @ quoted (cols ! index))) (parse_i64 (cols ! index))"

definition checkpoint_of :: "string list list \<Rightarrow> storage_error + checkpoint_report" where
  "checkpoint_of rows =
     (case rows of
        [] \<Rightarrow> Inl (SqliteFailure ''wal_checkpoint returned no row'')
      | cols # _ \<Rightarrow>
          if length cols \<noteq> 3
          then Inl (SqliteFailure (''wal_checkpoint returned '' @ show_nat (length cols) @ '' columns, expected 3 (busy|log|checkpointed)''))
          else
          and_then (checkpoint_column cols 0) (\<lambda>busy.
          and_then (checkpoint_column cols 1) (\<lambda>log.
          and_then (checkpoint_column cols 2) (\<lambda>done.
            Inr \<lparr>ck_busy = busy, ck_log = log, ck_checkpointed = done\<rparr>))))"

text \<open>\<open>try_clone\<close>: the handle count of a store family is bounded.\<close>

definition clone_handle :: "store_bounds \<Rightarrow> u32 \<Rightarrow> storage_error + u32" where
  "clone_handle b handles =
     (if unat handles \<ge> unat (max_connections b) then Inl (TooManyConnections (max_connections b)) else Inr (handles + 1))"

end
