(* ===== verification/Mutation_Facts.thy ===== *)
theory Mutation_Facts
  imports Mutation
begin

text \<open>
  Facts of the mutation discipline: the codecs of receipts, the log of the bodies that ran, and that
  every answer of the store is about that log.
\<close>

section \<open>Hexadecimal and responses\<close>

lemma hex_text_Cons: "hex_text (c # s) = upper_hex_digit (byte c div 16) # upper_hex_digit (byte c mod 16) # hex_text s"
  by (simp add: hex_text_def)

lemma hex_text_Nil [simp]: "hex_text [] = []"
  by (simp add: hex_text_def)

lemma unhex_bytes_hex [simp]: "unhex_bytes (hex_text s) = Some s"
  by (induction s) (simp_all add: hex_text_Cons byte_nibbles div_mult_mod_eq)

lemma hex_text_inj [simp]: "hex_text a = hex_text b \<longleftrightarrow> a = b"
  by (metis option.inject unhex_bytes_hex)

lemma hex_text_even: "length (hex_text s) mod 2 = 0"
  by (induction s) (simp_all add: hex_text_Cons)

lemma upper_hex_comma: "d < 16 \<Longrightarrow> upper_hex_digit d \<noteq> CHR '',''" for d :: nat
  by (auto simp: upper_hex_digit_def byte_char_of simp flip: byte_eq_iff)

lemma hex_text_plain: "c \<in> set (hex_text s) \<Longrightarrow> byte c < 128 \<and> c \<noteq> CHR '','' \<and> c \<noteq> CHR '';''"
  using upper_hex_digit_plain upper_hex_comma
  by (induction s) (auto simp: hex_text_Cons byte_nibbles)

lemma unhex_hex: "utf8_valid s \<Longrightarrow> unhex (hex_text s) = Inr s"
  using hex_text_plain [of _ s] by (fastforce simp: unhex_def hex_text_even list_ex_iff)

lemma join_on_chars: "set (join_on c ps) \<subseteq> insert c (\<Union>p \<in> set ps. set p)"
  by (induction c ps rule: join_on.induct) auto

lemma join_on_eq_Nil: "join_on c ps = [] \<longleftrightarrow> ps = [] \<or> ps = [[]]"
  by (cases "(c, ps)" rule: join_on.cases) auto

definition rows_text :: "string list list \<Rightarrow> bool" where
  "rows_text rows \<longleftrightarrow> (\<forall>row \<in> set rows. row \<noteq> [] \<and> (\<forall>c \<in> set row. utf8_valid c))"

lemma decode_encode_row: "row \<noteq> [] \<Longrightarrow> \<forall>c \<in> set row. utf8_valid c \<Longrightarrow>
    collect_res unhex (split_on (CHR '','') (join_on (CHR '','') (map hex_text row))) = Inr row"
  using hex_text_plain by (subst split_on_join) (auto simp: collect_res_map unhex_hex)

lemma decode_encode_response:
  assumes "rows_text rows" "rows \<noteq> [[[]]]"
  shows "decode_response (encode_response rows) = Inr rows"
proof (cases "rows = []")
  case False
  let ?g = "\<lambda>row. join_on (CHR '','') (map hex_text row)"
  have one: "?g row = [] \<longleftrightarrow> row = [[]]" if "row \<in> set rows" for row
    using that assms(1) by (auto simp: rows_text_def join_on_eq_Nil hex_text_Cons map_eq_Cons_conv) (metis hex_text_inj hex_text_Nil)
  have "encode_response rows \<noteq> []"
    using False assms(2) one by (auto simp: encode_response_def join_on_eq_Nil map_eq_Cons_conv)
  moreover have "CHR '';'' \<notin> set (?g row)" for row
    using join_on_chars [of "CHR '',''" "map hex_text row"] hex_text_plain by fastforce
  then have "split_on (CHR '';'') (encode_response rows) = map ?g rows"
    using False by (simp add: encode_response_def split_on_join)
  ultimately show ?thesis
    using assms(1) decode_encode_row by (simp add: decode_response_def collect_res_map rows_text_def)
qed (simp add: decode_response_def encode_response_def)

section \<open>Shapes\<close>

lemma collect_res_Inr: "collect_res f xs = Inr ys \<Longrightarrow> x \<in> set xs \<Longrightarrow> is_ok (f x)"
  by (induction xs arbitrary: ys) (auto simp: is_ok_iff)

lemma decode_outbox_row_length: "is_ok (decode_outbox_row cols) \<Longrightarrow> length cols = 13"
  by (auto simp: decode_outbox_row_def split: if_splits)

lemma scalar_cell_Inr: "scalar_cell rows = Inr c \<longleftrightarrow> rows = [[c]]"
  by (auto simp: scalar_cell_def split: list.splits)

lemma validate_insert: "validate_rows ShapeInsert rows = Inr () \<longleftrightarrow> (\<exists>c. rows = [[c], [''1'']] \<and> positive_id c)"
  by (auto simp: scalar_cell_Inr split: list.splits)

lemma validate_change: "validate_rows ShapeChange rows = Inr () \<longleftrightarrow> rows = [[''0'']] \<or> rows = [[''1'']]"
  by (auto simp: scalar_cell_Inr)

lemma validated_rows:
  assumes "validate_rows sh rows = Inr ()" "\<forall>row \<in> set rows. \<forall>c \<in> set row. utf8_valid c"
  shows "rows_text rows" "rows \<noteq> [[[]]]"
proof -
  have "(\<forall>row \<in> set rows. row \<noteq> []) \<and> rows \<noteq> [[[]]]"
  proof (cases sh)
    case ShapeRows
    then have "length row = 13" if "row \<in> set rows" for row
      using assms(1) that by (auto dest: collect_res_Inr decode_outbox_row_length)
    then show ?thesis by fastforce
  qed (use assms(1) in \<open>auto simp: validate_insert validate_change simp del: validate_rows.simps\<close>)
  then show "rows_text rows" "rows \<noteq> [[[]]]" using assms(2) by (auto simp: rows_text_def)
qed

lemma replayed_encoded:
  assumes "validate_rows sh rows = Inr ()" "\<forall>row \<in> set rows. \<forall>c \<in> set row. utf8_valid c"
  shows "replayed sh (encode_response rows) = Inr rows"
  using validated_rows [OF assms] assms(1) by (simp add: replayed_def decode_encode_response)

lemma shape_text_colon: "CHR '':'' \<notin> set (shape_text sh)"
  by (cases sh) simp_all

lemma receipt_split_append: "CHR '':'' \<notin> set a \<Longrightarrow> receipt_split (a @ CHR '':'' # b) = Some (a, b)"
  by (induction a) auto

lemma shape_parse_text [simp]: "shape_parse (shape_text sh) = Inr sh"
  by (cases sh) (simp_all add: shape_parse_def)

lemma request_shape: "request_of p = request_of q \<Longrightarrow> pm_shape p = pm_shape q"
proof -
  assume "request_of p = request_of q"
  then have "receipt_split (request_text p) = receipt_split (request_text q)" by (simp add: request_of_def)
  then have "shape_text (pm_shape p) = shape_text (pm_shape q)"
    by (simp add: request_text_def receipt_split_append shape_text_colon)
  then show ?thesis by (metis shape_parse_text sum.inject(2))
qed

section \<open>The log\<close>

text \<open>The text of a body is a text, and so is all that it returns on these tables.\<close>

definition body_texts :: "'d \<Rightarrow> 'd body \<Rightarrow> bool" where
  "body_texts d b \<longleftrightarrow> utf8_valid (bd_text b) \<and>
     (\<forall>d' rows. bd_run b d = Inr (d', rows) \<longrightarrow> (\<forall>row \<in> set rows. \<forall>c \<in> set row. utf8_valid c))"

inductive executed :: "'d \<Rightarrow> ('d prepared \<times> string list list) list \<Rightarrow> 'd \<Rightarrow> bool" for start where
  none: "executed start [] start"
| one_more: "executed start log d \<Longrightarrow> bd_run (pm_body p) d = Inr (d', rows) \<Longrightarrow> validate_rows (pm_shape p) rows = Inr () \<Longrightarrow>
    executed start (log @ [(p, rows)]) d'"

inductive_cases executed_snocE: "executed start (log @ [e]) d"

definition receipt_entry :: "'d prepared \<times> string list list \<Rightarrow> operation_id \<times> string \<times> string" where
  "receipt_entry e = (pm_operation (fst e), request_of (fst e), encode_response (snd e))"

definition logged :: "string \<Rightarrow> ('d prepared \<Rightarrow> bool) \<Rightarrow> 'd \<Rightarrow> 'd world \<Rightarrow> ('d prepared \<times> string list list) list \<Rightarrow> bool" where
  "logged identity allowed start w log \<longleftrightarrow> executed start log (wd_data w) \<and> wd_receipts w = rev (map receipt_entry log) \<and>
     distinct (map (pm_operation \<circ> fst) log) \<and>
     (\<forall>(p, rows) \<in> set log. pm_store p = identity \<and> allowed p \<and> utf8_valid (bd_text (pm_body p)) \<and> validate_rows (pm_shape p) rows = Inr () \<and>
        (\<forall>row \<in> set rows. \<forall>c \<in> set row. utf8_valid c))"

lemma receipt_keys: "logged identity allowed start w log \<Longrightarrow> map fst (wd_receipts w) = rev (map (pm_operation \<circ> fst) log)"
  by (simp add: logged_def rev_map receipt_entry_def comp_def)

lemma receipt_None:
  assumes "logged identity allowed start w log"
  shows "map_of (wd_receipts w) operation = None \<longleftrightarrow> operation \<notin> set (map (pm_operation \<circ> fst) log)"
  using arg_cong [OF receipt_keys [OF assms], of set] by (simp add: map_of_eq_None_iff)

lemma receipt_Some:
  assumes "logged identity allowed start w log"
  shows "map_of (wd_receipts w) operation = Some (request, response) \<longleftrightarrow>
    (\<exists>q rows. (q, rows) \<in> set log \<and> pm_operation q = operation \<and> request = request_of q \<and> response = encode_response rows)"
proof -
  have "distinct (map fst (wd_receipts w))" using assms by (simp only: receipt_keys [OF assms] distinct_rev) (simp add: logged_def)
  then have "map_of (wd_receipts w) operation = Some (request, response) \<longleftrightarrow> (operation, request, response) \<in> set (wd_receipts w)"
    by (rule map_of_eq_Some_iff)
  also have "set (wd_receipts w) = receipt_entry ` set log" using assms by (simp add: logged_def)
  also have "(operation, request, response) \<in> receipt_entry ` set log \<longleftrightarrow>
    (\<exists>q rows. (q, rows) \<in> set log \<and> pm_operation q = operation \<and> request = request_of q \<and> response = encode_response rows)"
    by (auto simp: receipt_entry_def image_iff Bex_def)
  finally show ?thesis .
qed

lemma receipt_of_entry:
  assumes "logged identity allowed start w log" "map_of (wd_receipts w) operation = Some entry"
  obtains q rows where "(q, rows) \<in> set log" "pm_operation q = operation" "entry = (request_of q, encode_response rows)"
proof -
  have "map_of (wd_receipts w) operation = Some (fst entry, snd entry)" using assms(2) by simp
  with receipt_Some [OF assms(1)] show ?thesis using that by (metis prod.collapse)
qed

lemma execute_logs:
  assumes e: "execute se p w = Inr (w', rows)" and l: "logged identity allowed start w log"
    and p: "pm_store p = identity" "allowed p" "body_texts (wd_data w) (pm_body p)" "map_of (wd_receipts w) (pm_operation p) = None"
  shows "logged identity allowed start w' (log @ [(p, rows)])"
proof -
  obtain d where d: "bd_run (pm_body p) (wd_data w) = Inr (d, rows)" "validate_rows (pm_shape p) rows = Inr ()"
      "w' = \<lparr>wd_data = d, wd_receipts = (pm_operation p, request_of p, encode_response rows) # wd_receipts w\<rparr>"
    using e by (auto simp: execute_def)
  have "executed start (log @ [(p, rows)]) d" using l d(1,2) by (auto simp: logged_def intro: one_more)
  moreover have "pm_operation p \<notin> set (map (pm_operation \<circ> fst) log)" using receipt_None [OF l] p(4) by blast
  moreover have "\<forall>row \<in> set rows. \<forall>c \<in> set row. utf8_valid c" using p(3) d(1) by (auto simp: body_texts_def)
  ultimately show ?thesis using l d p(1-3) by (auto simp: logged_def receipt_entry_def body_texts_def)
qed

section \<open>Steps\<close>

text \<open>One submission of an allowed mutation of the store, in any environment.\<close>

inductive mutation_step :: "string \<Rightarrow> ('d prepared \<Rightarrow> bool) \<Rightarrow> 'd world \<Rightarrow> 'd world \<Rightarrow> bool" for identity allowed where
  submission: "se_identity se = identity \<Longrightarrow> allowed p \<Longrightarrow> body_texts (wd_data w) (pm_body p) \<Longrightarrow> submit_mutation se p w = (p', w', outcome) \<Longrightarrow>
    mutation_step identity allowed w w'"

definition reaches :: "string \<Rightarrow> ('d prepared \<Rightarrow> bool) \<Rightarrow> 'd \<Rightarrow> 'd world \<Rightarrow> bool" where
  "reaches identity allowed start w \<longleftrightarrow> (mutation_step identity allowed)\<^sup>*\<^sup>* \<lparr>wd_data = start, wd_receipts = []\<rparr> w"

text \<open>A submission leaves the world, or runs the body once and logs it.\<close>

lemma submit_cases:
  assumes "submit_mutation se p w = (p', w', outcome)"
  obtains (same) "w' = w"
    | (ran) rows where "pm_store p = se_identity se" "map_of (wd_receipts w) (pm_operation p) = None" "execute se p w = Inr (w', rows)"
  using assms by (auto simp: submit_mutation_def receipt_of_def failing_def Let_def split: if_splits option.splits sum.splits prod.splits fate.splits)

lemma step_logged:
  assumes "mutation_step identity allowed w w'" "logged identity allowed start w log"
  shows "\<exists>more. logged identity allowed start w' (log @ more) \<and> length more \<le> 1"
  using assms(1)
proof cases
  case (submission se p p' outcome)
  from submission(4) show ?thesis
  proof (cases rule: submit_cases)
    case same
    then show ?thesis using assms(2) by (intro exI [of _ "[]"]) simp
  next
    case (ran rows)
    then show ?thesis using execute_logs [OF ran(3) assms(2)] submission by (intro exI [of _ "[(p, rows)]"]) simp
  qed
qed

lemma reaches_logged: "reaches identity allowed start w \<Longrightarrow> \<exists>log. logged identity allowed start w log"
  unfolding reaches_def
proof (induction rule: rtranclp_induct)
  case base
  show ?case by (intro exI [of _ "[]"]) (simp add: logged_def executed.none)
next
  case (step w w')
  from step.IH obtain log where "logged identity allowed start w log" ..
  from step_logged [OF step.hyps(2) this] show ?case by blast
qed

lemma steps_logged:
  assumes "(mutation_step identity allowed)\<^sup>*\<^sup>* w w'" "logged identity allowed start w log"
  shows "\<exists>more. logged identity allowed start w' (log @ more)"
  using assms
proof (induction rule: rtranclp_induct)
  case base
  then show ?case by (intro exI [of _ "[]"]) simp
next
  case (step v w')
  then obtain more where "logged identity allowed start v (log @ more)" by blast
  from step_logged [OF step.hyps(2) this] show ?case by (metis append_assoc)
qed

text \<open>A submission that wrote a receipt logged its own execution.\<close>

lemma submitted_logged:
  assumes "submit_mutation se p w = (p', w', outcome)" "wd_receipts w' \<noteq> wd_receipts w"
    and "logged (se_identity se) allowed start w log" "allowed p" "body_texts (wd_data w) (pm_body p)"
  obtains rows where "logged (se_identity se) allowed start w' (log @ [(p, rows)])"
  using assms(1)
proof (cases rule: submit_cases)
  case (ran rows)
  then show ?thesis using that execute_logs [OF ran(3) assms(3)] assms(4,5) by blast
qed (use assms(2) in simp)

section \<open>Answers\<close>

definition healthy :: "environment \<Rightarrow> bool" where
  "healthy se \<longleftrightarrow> se_admission se = None \<and> se_query se = None"

lemma logged_receipt:
  assumes "logged identity allowed start w log" "(q, rows) \<in> set log"
  shows "map_of (wd_receipts w) (pm_operation q) = Some (request_of q, encode_response rows)"
    "replayed (pm_shape q) (encode_response rows) = Inr rows" "pm_store q = identity"
  using assms receipt_Some [OF assms(1)] by (auto simp: logged_def intro!: replayed_encoded)

lemma answer_logged:
  assumes "logged identity allowed start w log" "(q, rows) \<in> set log" "healthy se" "se_identity se = identity"
    and "pm_operation p = pm_operation q" "pm_store p = identity" "request_of p = request_of q"
  shows "submit_mutation se p w = (p\<lparr>pm_attempted := True\<rparr>, w, mutation_result (pm_shape q) (pm_operation q) rows)"
    "reconcile_mutation se p w = mutation_result (pm_shape q) (pm_operation q) rows"
  using assms(3-7) logged_receipt [OF assms(1,2)] request_shape [OF assms(7)]
  by (simp_all add: submit_mutation_def reconcile_mutation_def receipt_of_def failing_def healthy_def Let_def)

lemma reconcile_operation_logged:
  assumes "logged identity allowed start w log" "(q, rows) \<in> set log" "healthy se" "se_identity se = identity" "CHR '':'' \<notin> set identity" "utf8_valid identity"
  shows "reconcile_operation se (pm_operation q) w = mutation_result (pm_shape q) (pm_operation q) rows"
proof -
  note r = logged_receipt [OF assms(1,2)]
  have "utf8_valid (bd_text (pm_body q))" using assms(1,2) by (auto simp: logged_def)
  moreover have "utf8_valid (shape_text (pm_shape q))" by (cases "pm_shape q") (simp_all add: plain_utf8 plain_def verdant_defs)
  ultimately have "unhex (request_of q) = Inr (request_text q)"
    using r(3) assms(6) unfolding request_of_def by (intro unhex_hex) (simp add: request_text_def)
  moreover have "receipt_split (request_text q) = Some (shape_text (pm_shape q), pm_store q @ CHR '':'' # bd_text (pm_body q))"
    by (simp add: request_text_def receipt_split_append shape_text_colon)
  ultimately have "receipt_rows se (request_of q) (encode_response rows) = Inr (pm_shape q, rows)"
    using r(2,3) assms(4,5) by (simp add: receipt_rows_def receipt_split_append replayed_def)
  then show ?thesis using r(1) assms(3) by (simp add: reconcile_operation_def receipt_of_def failing_def healthy_def)
qed

lemma absent_answers:
  assumes "logged identity allowed start w log" "healthy se" "se_identity se = identity" "operation \<notin> set (map (pm_operation \<circ> fst) log)"
  shows "reconcile_operation se operation w = MNotCommitted operation no_receipt"
    "pm_operation p = operation \<Longrightarrow> pm_store p = identity \<Longrightarrow> reconcile_mutation se p w = MNotCommitted operation no_receipt"
  using assms(2,3) receipt_None [OF assms(1), of operation] assms(4)
  by (simp_all add: reconcile_operation_def reconcile_mutation_def receipt_of_def failing_def healthy_def Let_def)

lemma mutation_result_known: "mutation_result sh operation rows \<noteq> MUnknown o' d"
  by (simp add: mutation_result_def)

lemma not_committed_known: "not_committed operation True e \<noteq> MUnknown o' d"
  by (cases e) simp_all

lemma submit_prepared: "submit_mutation se p w = (p', w', outcome) \<Longrightarrow> p' = p\<lparr>pm_attempted := True\<rparr>"
  by (auto simp: submit_mutation_def Let_def split: if_splits option.splits sum.splits prod.splits fate.splits)

lemma submit_known:
  assumes "logged identity allowed start w log" "healthy se" "se_identity se = identity" "se_fate se = CommitDone"
  shows "snd (snd (submit_mutation se p w)) \<noteq> MUnknown (pm_operation p) d"
proof (cases "map_of (wd_receipts w) (pm_operation p)")
  case None
  then show ?thesis
    using assms(2-4)
    by (auto simp: submit_mutation_def healthy_def receipt_of_def failing_def Let_def mutation_result_known not_committed_known
        split: if_splits sum.splits prod.splits)
next
  case (Some entry)
  then obtain q rows where q: "(q, rows) \<in> set log" "pm_operation q = pm_operation p" "entry = (request_of q, encode_response rows)"
    by (rule receipt_of_entry [OF assms(1)])
  have "request_of q = request_of p \<Longrightarrow> replayed (pm_shape p) (encode_response rows) = Inr rows"
    using logged_receipt(2) [OF assms(1) q(1)] request_shape [of q p] by simp
  then show ?thesis
    using assms(2,3) Some q(3)
    by (auto simp: submit_mutation_def healthy_def receipt_of_def failing_def Let_def mutation_result_known)
qed

section \<open>Invariants of the data\<close>

text \<open>
  What the statements of a store promise each other: every allowed one keeps the invariant and moves
  the data along an order. Then every world that is reached keeps both.
\<close>

locale transactions =
  fixes allowed :: "'d prepared \<Rightarrow> bool" and inv :: "'d \<Rightarrow> bool" and ext :: "'d \<Rightarrow> 'd \<Rightarrow> bool"
  assumes keeps: "allowed p \<Longrightarrow> inv d \<Longrightarrow> bd_run (pm_body p) d = Inr (d', rows) \<Longrightarrow> inv d' \<and> ext d d'"
    and ext_refl: "ext d d"
    and ext_trans: "ext a b \<Longrightarrow> ext b c \<Longrightarrow> ext a c"
begin

lemma step_keeps: "mutation_step identity allowed w w' \<Longrightarrow> inv (wd_data w) \<Longrightarrow> inv (wd_data w') \<and> ext (wd_data w) (wd_data w')"
proof (erule mutation_step.cases)
  fix se p v p' v' outcome
  assume a: "w = v" "w' = v'" "allowed p" "submit_mutation se p v = (p', v', outcome)" "inv (wd_data w)"
  from a(4) show ?thesis
  proof (cases rule: submit_cases)
    case same
    then show ?thesis using a ext_refl by simp
  next
    case (ran rows)
    then show ?thesis using keeps [OF a(3)] a by (auto simp: execute_def)
  qed
qed

lemma steps_keep: "(mutation_step identity allowed)\<^sup>*\<^sup>* w w' \<Longrightarrow> inv (wd_data w) \<Longrightarrow> inv (wd_data w') \<and> ext (wd_data w) (wd_data w')"
proof (induction rule: rtranclp_induct)
  case base
  then show ?case using ext_refl by blast
next
  case (step u v)
  then show ?case using step_keeps ext_trans by blast
qed

lemma reached_keeps: "reaches identity allowed start w \<Longrightarrow> inv start \<Longrightarrow> inv (wd_data w) \<and> ext start (wd_data w)"
  using steps_keep [of identity "\<lparr>wd_data = start, wd_receipts = []\<rparr>" w] by (simp add: reaches_def)

end

end
