(* ===== verification/Outbox_Facts.thy ===== *)
theory Outbox_Facts
  imports Outbox_Store Mutation_Facts Access_Facts
begin

text \<open>
  Facts of the outbox: its columns are read back, its statements keep the tables well typed, and rows
  only move forward through their states.
\<close>

section \<open>Columns are read back\<close>

lemma unquote_text_quote [simp]: "unquote_text (sql_quote s) = Inr (Some s)"
  using unquote_sql_quote [of s] by (simp add: unquote_column_def unquote_text_def split: if_splits)

lemma unquote_text_column [simp]: "unquote_text (quote_column t) = Inr t"
proof (cases t)
  case None
  then show ?thesis by (simp add: unquote_text_def)
qed simp

lemma outbox_status_parse_text [simp]: "outbox_status_parse (outbox_status_text st) = Inr st"
  by (cases st) (simp_all add: outbox_status_parse_def)

text \<open>A row whose texts are those of typed values.\<close>

definition typed_row :: "table_row \<Rightarrow> outbox_row \<Rightarrow> bool" where
  "typed_row r v \<longleftrightarrow> in_i64 (tr_id r) \<and> ox_id v = tr_id r \<and> id_ok (tr_operation r) \<and> ox_operation v = tr_operation r \<and>
     id_ok (tr_entity r) \<and> ox_entity v = tr_entity r \<and> id_ok (tr_sensor r) \<and> ox_sensor v = tr_sensor r \<and>
     value_ok (ox_value v) \<and> tr_value r = value_to_json (ox_value v) \<and> unit_ok (ox_unit v) \<and> tr_unit r = unit_as_str (ox_unit v) \<and>
     time_triple_ok (ox_times v) \<and> tr_source r = show_int (tt_source (ox_times v)) \<and> tr_receipt r = show_int (tt_receipt (ox_times v)) \<and>
     tr_ingestion r = show_int (tt_ingestion (ox_times v)) \<and> id_ok (ri_generation (ox_record v)) \<and>
     tr_generation r = ri_generation (ox_record v) \<and> tr_seq r = show_word (ri_seq (ox_record v)) \<and>
     ox_status v = tr_status r \<and> ox_claimed v = tr_claimed r \<and> (\<forall>t. tr_claimed r = Some t \<longrightarrow> utf8_valid t)"

lemma row_columns_nth:
  "length (row_columns r) = 13" "row_columns r ! 0 = show_int (tr_id r)" "row_columns r ! Suc 0 = sql_quote (tr_operation r)"
  "row_columns r ! 2 = sql_quote (tr_entity r)" "row_columns r ! 3 = sql_quote (tr_sensor r)" "row_columns r ! 4 = sql_quote (tr_value r)"
  "row_columns r ! 5 = sql_quote (tr_unit r)" "row_columns r ! 6 = sql_quote (tr_source r)" "row_columns r ! 7 = sql_quote (tr_receipt r)"
  "row_columns r ! 8 = sql_quote (tr_ingestion r)" "row_columns r ! 9 = sql_quote (tr_generation r)" "row_columns r ! 10 = sql_quote (tr_seq r)"
  "row_columns r ! 11 = sql_quote (outbox_status_text (tr_status r))" "row_columns r ! 12 = quote_column (tr_claimed r)"
  by (simp_all add: row_columns_def numeral_nat)

lemma decode_row_columns:
  assumes "typed_row r v" shows "decode_outbox_row (row_columns r) = Inr v"
proof -
  have t: "value_from_json (tr_value r) = Inr (ox_value v)" "unit_parse (tr_unit r) = Inr (ox_unit v)"
      "time_triple_new (tt_source (ox_times v)) (tt_receipt (ox_times v)) (tt_ingestion (ox_times v)) = Inr (ox_times v)"
    using assms value_round_trip_gen [of "ox_value v"] unit_parse_as_str [of "ox_unit v"]
    by (simp_all add: typed_row_def time_triple_new_eq time_triple_ok_def)
  show ?thesis
    using assms t
    by (cases v) (simp add: typed_row_def decode_outbox_row_def column_as_def text_column_def millis_column_def row_columns_nth time_triple_ok_def)
qed

section \<open>The invariant of the tables\<close>

definition row_ok :: "table_row \<Rightarrow> bool" where
  "row_ok r \<longleftrightarrow> (tr_claimed r = None \<longleftrightarrow> tr_status r = Queued) \<and> (\<exists>v. typed_row r v)"

definition table_ok :: "outbox_db \<Rightarrow> bool" where
  "table_ok d \<longleftrightarrow> sorted_wrt (<) (map tr_id (od_rows d)) \<and> (\<forall>r \<in> set (od_rows d). 0 < tr_id r \<and> tr_id r \<le> od_last d \<and> row_ok r) \<and>
     0 \<le> od_last d \<and> od_last d \<le> max_rowid \<and> bt_ok (od_marks d)"

definition unclaimed :: "table_row \<Rightarrow> table_row" where
  "unclaimed r = r\<lparr>tr_status := Queued, tr_claimed := None\<rparr>"

text \<open>What a row keeps, and where it may go: an acknowledged row never changes again.\<close>

definition row_follows :: "table_row \<Rightarrow> table_row \<Rightarrow> bool" where
  "row_follows r r' \<longleftrightarrow> unclaimed r' = unclaimed r \<and> (tr_status r = Acked \<longrightarrow> r' = r)"

definition rows_extend :: "outbox_db \<Rightarrow> outbox_db \<Rightarrow> bool" where
  "rows_extend d d' \<longleftrightarrow> (\<exists>kept more. od_rows d' = kept @ more \<and> list_all2 row_follows (od_rows d) kept)"

inductive outbox_statement :: "outbox_db prepared \<Rightarrow> bool" where
  stmt_insert: "id_ok operation \<Longrightarrow> id_ok entity \<Longrightarrow> id_ok sensor \<Longrightarrow> value_ok value \<Longrightarrow> unit_ok unit \<Longrightarrow> time_triple_ok t \<Longrightarrow>
    id_ok (ri_generation rec) \<Longrightarrow> pm_body p = insert_body (\<lambda>i. new_row i operation entity sensor value unit t rec) \<Longrightarrow>
    pm_shape p = ShapeInsert \<Longrightarrow> outbox_statement p"
| stmt_claim: "utf8_valid token \<Longrightarrow> pm_body p = claim_body n token \<Longrightarrow> pm_shape p = ShapeRows \<Longrightarrow> outbox_statement p"
| stmt_ack: "utf8_valid token \<Longrightarrow> pm_body p = ack_body i token \<Longrightarrow> pm_shape p = ShapeChange \<Longrightarrow> outbox_statement p"
| stmt_requeue: "utf8_valid token \<Longrightarrow> pm_body p = requeue_body i token \<Longrightarrow> pm_shape p = ShapeChange \<Longrightarrow> outbox_statement p"
| stmt_recalculated: "utf8_valid entity \<Longrightarrow> pm_body p = recalculated_body entity generation \<Longrightarrow> pm_shape p = ShapeChange \<Longrightarrow> outbox_statement p"

inductive_cases outbox_statementE: "outbox_statement p"

lemma typed_new_row:
  assumes "id_ok operation" "id_ok entity" "id_ok sensor" "value_ok value" "unit_ok unit" "time_triple_ok t" "id_ok (ri_generation rec)" "in_i64 i"
  shows "typed_row (new_row i operation entity sensor value unit t rec)
    \<lparr>ox_id = i, ox_operation = operation, ox_entity = entity, ox_sensor = sensor, ox_value = value, ox_unit = unit, ox_times = t,
     ox_record = rec, ox_status = Queued, ox_claimed = None\<rparr>"
  using assms by (simp add: typed_row_def new_row_def)

lemma typed_restate:
  assumes "typed_row r v" "\<forall>t. claimed = Some t \<longrightarrow> utf8_valid t"
  shows "typed_row (r\<lparr>tr_status := st, tr_claimed := claimed\<rparr>) (v\<lparr>ox_status := st, ox_claimed := claimed\<rparr>)"
  using assms by (simp add: typed_row_def)

lemma row_ok_restate:
  assumes "row_ok r" "claimed = None \<longleftrightarrow> st = Queued" "\<forall>t. claimed = Some t \<longrightarrow> utf8_valid t"
  shows "row_ok (r\<lparr>tr_status := st, tr_claimed := claimed\<rparr>)"
proof -
  obtain v where "typed_row r v" using assms(1) by (auto simp: row_ok_def)
  then have "typed_row (r\<lparr>tr_status := st, tr_claimed := claimed\<rparr>) (v\<lparr>ox_status := st, ox_claimed := claimed\<rparr>)"
    using assms(3) by (rule typed_restate)
  then show ?thesis using assms(2) by (auto simp: row_ok_def)
qed

lemma row_follows_refl: "row_follows r r"
  by (simp add: row_follows_def)

lemma row_follows_trans: "row_follows a b \<Longrightarrow> row_follows b c \<Longrightarrow> row_follows a c"
  unfolding row_follows_def by metis

lemma rows_extend_refl: "rows_extend d d"
  unfolding rows_extend_def by (intro exI [of _ "od_rows d"] exI [of _ "[]"]) (simp add: list_all2_refl row_follows_refl)

lemma rows_extend_trans:
  assumes "rows_extend a b" "rows_extend b c" shows "rows_extend a c"
proof -
  obtain kept more where 1: "od_rows b = kept @ more" "list_all2 row_follows (od_rows a) kept"
    using assms(1) by (auto simp: rows_extend_def)
  obtain kept2 more2 where 2: "od_rows c = kept2 @ more2" "list_all2 row_follows (kept @ more) kept2"
    using assms(2) 1(1) by (auto simp: rows_extend_def)
  then obtain k m where k: "kept2 = k @ m" "list_all2 row_follows kept k" by (auto simp: list_all2_append1)
  have "list_all2 row_follows (od_rows a) k" using list_all2_trans [OF row_follows_trans 1(2) k(2)] .
  then show ?thesis unfolding rows_extend_def 2(1) k(1) by (intro exI [of _ k] exI [of _ "m @ more2"]) simp
qed

lemma update_keeps:
  assumes "table_ok d" "\<forall>r \<in> set (od_rows d). tr_id (f r) = tr_id r \<and> row_ok (f r) \<and> row_follows r (f r)"
  shows "table_ok (d\<lparr>od_rows := map f (od_rows d)\<rparr>) \<and> rows_extend d (d\<lparr>od_rows := map f (od_rows d)\<rparr>)"
proof -
  have "map tr_id (map f (od_rows d)) = map tr_id (od_rows d)" using assms(2) by simp
  moreover have "rows_extend d (d\<lparr>od_rows := map f (od_rows d)\<rparr>)"
    unfolding rows_extend_def using assms(2)
    by (intro exI [of _ "map f (od_rows d)"] exI [of _ "[]"]) (simp add: list_all2_map2 list_all2_same)
  ultimately show ?thesis using assms by (auto simp: table_ok_def simp del: map_map)
qed

lemma marks_keep: "table_ok d \<Longrightarrow> bt_ok m \<Longrightarrow> table_ok (d\<lparr>od_marks := m\<rparr>) \<and> rows_extend d (d\<lparr>od_marks := m\<rparr>)"
  using rows_extend_refl [of d] by (simp add: table_ok_def rows_extend_def)

lemma insert_keeps:
  assumes "table_ok d" "od_last d < max_rowid" "row_ok r" "tr_id r = od_last d + 1"
  shows "table_ok (mark_dirty e (d\<lparr>od_rows := od_rows d @ [r], od_last := od_last d + 1\<rparr>)) \<and>
    rows_extend d (mark_dirty e (d\<lparr>od_rows := od_rows d @ [r], od_last := od_last d + 1\<rparr>))"
proof -
  have "rows_extend d (mark_dirty e (d\<lparr>od_rows := od_rows d @ [r], od_last := od_last d + 1\<rparr>))"
    unfolding rows_extend_def mark_dirty_def
    by (intro exI [of _ "od_rows d"] exI [of _ "[r]"]) (simp add: list_all2_refl row_follows_refl)
  then show ?thesis using assms by (auto simp: table_ok_def mark_dirty_def sorted_wrt_append)
qed

lemma statement_keeps:
  assumes "outbox_statement p" "table_ok d" "bd_run (pm_body p) d = Inr (d', rows)"
  shows "table_ok d' \<and> rows_extend d d'"
  using assms(1)
proof cases
  case (stmt_insert operation entity sensor v u t identity)
  let ?i = "od_last d + 1"
  have i: "od_last d < max_rowid" and d': "d' = mark_dirty (tr_entity (new_row ?i operation entity sensor v u t identity))
      (d\<lparr>od_rows := od_rows d @ [new_row ?i operation entity sensor v u t identity], od_last := ?i\<rparr>)"
    using assms(3) by (auto simp: stmt_insert(8) insert_body_def Let_def split: if_splits)
  have "in_i64 ?i" using i assms(2) by (simp add: table_ok_def max_rowid_def in_i64_def)
  then have "row_ok (new_row ?i operation entity sensor v u t identity)"
    using typed_new_row [OF stmt_insert(1-7)] by (auto simp: row_ok_def) (simp_all add: new_row_def)
  then show ?thesis unfolding d' using insert_keeps [OF assms(2) i] by (simp add: new_row_def)
next
  case (stmt_claim token n)
  let ?hit = "\<lambda>r. tr_id r \<in> set (queued_ids n d)"
  have d': "d' = d\<lparr>od_rows := map (\<lambda>r. if ?hit r then claimed_row token r else r) (od_rows d)\<rparr>"
    using assms(3) by (auto simp: stmt_claim(2) claim_body_def Let_def)
  have dist: "distinct (map tr_id (od_rows d))" using assms(2) by (auto simp: table_ok_def strict_sorted_iff)
  have "tr_status r = Queued" if r: "r \<in> set (od_rows d)" "?hit r" for r
  proof -
    from r(2) obtain q where "q \<in> set (od_rows d)" "tr_status q = Queued" "tr_id q = tr_id r"
      by (auto simp: queued_ids_def dest!: in_set_takeD)
    with r(1) dist show ?thesis by (metis eq_key_imp_eq_value inj_on_def distinct_map)
  qed
  then have "\<forall>r \<in> set (od_rows d). tr_id (if ?hit r then claimed_row token r else r) = tr_id r \<and>
      row_ok (if ?hit r then claimed_row token r else r) \<and> row_follows r (if ?hit r then claimed_row token r else r)"
    using assms(2) stmt_claim(1)
    by (auto simp: Let_def claimed_row_def row_follows_def unclaimed_def table_ok_def intro!: row_ok_restate)
  then show ?thesis unfolding d' by (rule update_keeps [OF assms(2)])
next
  case (stmt_ack token i)
  have d': "d' = d\<lparr>od_rows := map (\<lambda>r. if held_by i token r then r\<lparr>tr_status := Acked\<rparr> else r) (od_rows d)\<rparr>"
    using assms(3) by (auto simp: stmt_ack(2) ack_body_def update_rows_def)
  have "row_ok (r\<lparr>tr_status := Acked\<rparr>)" if "row_ok r" "held_by i token r" for r
    using row_ok_restate [OF that(1), of "tr_claimed r" Acked] that(2) stmt_ack(1) by (simp add: held_by_def)
  then show ?thesis unfolding d' using assms(2)
    by (intro update_keeps [OF assms(2)]) (auto simp: held_by_def row_follows_def unclaimed_def table_ok_def)
next
  case (stmt_requeue token i)
  have d': "d' = d\<lparr>od_rows := map (\<lambda>r. if held_by i token r then r\<lparr>tr_status := Queued, tr_claimed := None\<rparr> else r) (od_rows d)\<rparr>"
    using assms(3) by (auto simp: stmt_requeue(2) requeue_body_def update_rows_def)
  show ?thesis unfolding d' using assms(2)
    by (intro update_keeps [OF assms(2)]) (auto simp: held_by_def row_follows_def unclaimed_def table_ok_def intro!: row_ok_restate)
next
  case (stmt_recalculated entity generation)
  show ?thesis
  proof (cases "bt_get (od_marks d) entity")
    case None
    then show ?thesis using assms(2,3) rows_extend_refl by (simp add: stmt_recalculated(2) recalculated_body_def)
  next
    case (Some m)
    then have "d' = d\<lparr>od_marks := bt_insert entity (False, generation) (od_marks d)\<rparr>"
      using assms(3) by (simp add: stmt_recalculated(2) recalculated_body_def)
    then show ?thesis using marks_keep [OF assms(2)] assms(2) by (simp add: table_ok_def)
  qed
qed

interpretation outbox: transactions outbox_statement table_ok rows_extend
  by unfold_locales (blast intro: statement_keeps rows_extend_refl rows_extend_trans dest: statement_keeps)+

section \<open>Texts\<close>

lemma sql_quote_utf8 [simp]: "utf8_valid s \<Longrightarrow> utf8_valid (sql_quote s)"
proof -
  let ?q = "\<lambda>c. if c = squote then [squote, squote] else [c]"
  assume "utf8_valid s"
  then have "utf8_valid (concat (map ?q s))"
  proof (induction s rule: utf8_induct)
    case (Char s ch r)
    have "utf8_valid (concat (map ?q ch))"
    proof (cases "byte (hd s) < 0x80")
      case True
      then have "ch = [hd s]" using Char(1) by (cases s) auto
      with True show ?thesis by (simp add: squote_def)
    next
      case False
      then have "\<forall>c \<in> set ch. 0x80 \<le> byte c"
        using Char(1) utf8_next_high [of "hd s" "tl s" ch r] by (cases s) auto
      then have "concat (map ?q ch) = ch" by (induction ch) (auto simp: squote_def)
      then show ?thesis using utf8_valid_char [OF Char(1)] by simp
    qed
    with Char show ?case by simp
  qed simp
  then show ?thesis by (simp add: sql_quote_def squote_def)
qed

lemma value_json_utf8 [simp]: "value_ok v \<Longrightarrow> utf8_valid (value_to_json v)"
  by (induction v rule: value_ok.induct)
    (simp_all add: value_to_json_def quote_valid is_decimal_lexical_ascii decimal_ok_def op_mode_ok_utf8 plain_utf8 plain_def verdant_defs)

lemma quote_column_utf8: "\<forall>t. c = Some t \<longrightarrow> utf8_valid t \<Longrightarrow> utf8_valid (quote_column c)"
  by (cases c) simp_all

lemma typed_row_utf8:
  assumes "typed_row r v" shows "\<forall>c \<in> set (row_columns r). utf8_valid c"
proof -
  have "utf8_valid (outbox_status_text (tr_status r))" by (cases "tr_status r") simp_all
  then show ?thesis
    using assms quote_column_utf8 [of "tr_claimed r"]
    by (simp add: row_columns_def typed_row_def unit_ok_utf8)
qed

lemma columns_text_utf8 [simp]: "utf8_valid columns_text"
  by (simp add: columns_text_def)

lemma insert_sql_utf8:
  assumes "typed_row r v" shows "utf8_valid (insert_sql r)"
proof -
  have "utf8_valid now_sql" by (simp add: now_sql_def)
  then show ?thesis using assms by (simp add: insert_sql_def typed_row_def unit_ok_utf8)
qed

lemma statement_texts:
  assumes "outbox_statement p" "table_ok d" shows "body_texts d (pm_body p)"
  using assms(1)
proof cases
  case (stmt_insert operation entity sensor v u t identity)
  have "in_i64 0" by (simp add: in_i64_def)
  from insert_sql_utf8 [OF typed_new_row [OF stmt_insert(1-7) this]] show ?thesis
    by (auto simp: stmt_insert(8) insert_body_def body_texts_def Let_def split: if_splits)
next
  case (stmt_claim token n)
  have "utf8_valid c" if "r \<in> set (od_rows d)" "c \<in> set (row_columns (claimed_row token r))" for r c
  proof -
    have "\<exists>v. typed_row r v" using assms(2) that(1) by (auto simp: table_ok_def row_ok_def)
    then obtain v where "typed_row r v" ..
    then have "typed_row (claimed_row token r) (v\<lparr>ox_status := Claimed, ox_claimed := Some token\<rparr>)"
      unfolding claimed_row_def by (rule typed_restate) (simp add: stmt_claim(1))
    then show ?thesis using typed_row_utf8 that(2) by blast
  qed
  then show ?thesis
    using stmt_claim(1) by (auto simp: stmt_claim(2) claim_body_def body_texts_def Let_def)
next
  case (stmt_ack token i)
  then show ?thesis by (auto simp: ack_body_def body_texts_def update_rows_def)
next
  case (stmt_requeue token i)
  then show ?thesis by (auto simp: requeue_body_def body_texts_def update_rows_def)
next
  case (stmt_recalculated entity generation)
  then show ?thesis by (auto simp: recalculated_body_def body_texts_def split: option.splits)
qed

section \<open>Calls\<close>

text \<open>The writing operations of the store, called with values of their types.\<close>

inductive outbox_call :: "string \<Rightarrow> outbox_db world \<Rightarrow> outbox_db world \<Rightarrow> bool" for identity where
  insert_call: "se_identity se = identity \<Longrightarrow> id_ok operation \<Longrightarrow> id_ok entity \<Longrightarrow> id_ok sensor \<Longrightarrow> value_ok v \<Longrightarrow> unit_ok u \<Longrightarrow>
    time_triple_ok t \<Longrightarrow> id_ok (ri_generation k) \<Longrightarrow>
    outbox_insert se fz generated operation entity sensor v u t k w = (w', inserted) \<Longrightarrow> outbox_call identity w w'"
| claim_call: "se_identity se = identity \<Longrightarrow> utf8_valid claimant \<Longrightarrow> claim_queued se generated limit claimant w = (w', rows) \<Longrightarrow>
    outbox_call identity w w'"
| ack_call: "se_identity se = identity \<Longrightarrow> utf8_valid token \<Longrightarrow> acknowledge se generated i token w = (w', r) \<Longrightarrow> outbox_call identity w w'"
| requeue_call: "se_identity se = identity \<Longrightarrow> utf8_valid token \<Longrightarrow> requeue_claim se generated i token w = (w', r) \<Longrightarrow> outbox_call identity w w'"
| recalculated_call: "se_identity se = identity \<Longrightarrow> id_ok entity \<Longrightarrow> mark_recalculated se generated entity generation w = (w', r) \<Longrightarrow>
    outbox_call identity w w'"

definition opened :: "outbox_db \<Rightarrow> outbox_db world" where
  "opened d = \<lparr>wd_data = d, wd_receipts = []\<rparr>"

lemma submit_into_step:
  assumes "submit_into se p w = (w', r)" "outbox_statement p" "table_ok (wd_data w)" "se_identity se = identity"
  shows "mutation_step identity outbox_statement w w'"
proof -
  obtain p' outcome where "submit_mutation se p w = (p', w', outcome)"
    using assms(1) by (auto simp: submit_into_def split: prod.splits)
  with assms show ?thesis by (intro submission [of se identity _ p]) (auto intro: statement_texts)
qed

lemma validate_claim_token_Inr: "validate_claim_token raw = Inr t \<Longrightarrow> t = raw"
  by (auto simp: validate_claim_token_def split: if_splits option.splits)

lemma exec_changes_step:
  assumes "exec_changes se g b w = (w', r)" "outbox_statement (prepared_new g (se_identity se) b ShapeChange)" "table_ok (wd_data w)"
    "se_identity se = identity"
  shows "mutation_step identity outbox_statement w w'"
  using assms by (auto simp: exec_changes_def split: prod.splits intro: submit_into_step)

lemma call_steps:
  assumes "outbox_call identity w w'" "table_ok (wd_data w)"
  shows "(mutation_step identity outbox_statement)\<^sup>*\<^sup>* w w'"
  using assms(1)
proof cases
  case (insert_call se operation entity sensor v u t k fz generated inserted)
  show ?thesis
  proof (cases "prepare_insert (se_bounds se) fz generated (se_identity se) operation entity sensor v u t k")
    case (Inl e)
    then show ?thesis using insert_call(9) by (simp add: outbox_insert_def)
  next
    case (Inr p)
    then have p: "pm_body p = insert_body (\<lambda>i. new_row i operation entity sensor v u t k)" "pm_shape p = ShapeInsert"
      by (auto simp: prepare_insert_def prepared_new_def Let_def split: if_splits option.splits)
    obtain r where "submit_into se p w = (w', r)" using insert_call(9) Inr by (auto simp: outbox_insert_def split: prod.splits)
    then have "mutation_step identity outbox_statement w w'"
      by (rule submit_into_step) (use insert_call p assms(2) in \<open>auto intro: stmt_insert\<close>)
    then show ?thesis ..
  qed
next
  case (claim_call se claimant generated limit rows)
  show ?thesis
  proof (cases "prepare_claim (se_bounds se) generated (se_identity se) limit claimant")
    case (Inl e)
    then show ?thesis using claim_call(3) by (simp add: claim_queued_def)
  next
    case (Inr p)
    then have p: "pm_body p = claim_body (effective_limit (se_bounds se) limit) claimant" "pm_shape p = ShapeRows"
      by (auto simp: prepare_claim_def prepared_new_def split: if_splits dest!: validate_claim_token_Inr)
    obtain r where "submit_into se p w = (w', r)" using claim_call(3) Inr by (auto simp: claim_queued_def split: prod.splits)
    then have "mutation_step identity outbox_statement w w'"
      by (rule submit_into_step) (use claim_call p assms(2) in \<open>auto intro: stmt_claim\<close>)
    then show ?thesis ..
  qed
next
  case (ack_call se token generated i r)
  show ?thesis
  proof (cases "validate_claim_token token")
    case (Inr t)
    have "outbox_statement (prepared_new generated (se_identity se) (ack_body i token) ShapeChange)"
      by (rule stmt_ack [OF ack_call(2)]) (simp_all add: prepared_new_def)
    with Inr ack_call assms(2) show ?thesis
      by (auto simp: acknowledge_def split: prod.splits dest!: validate_claim_token_Inr intro: exec_changes_step)
  qed (use ack_call in \<open>simp add: acknowledge_def\<close>)
next
  case (requeue_call se token generated i r)
  show ?thesis
  proof (cases "validate_claim_token token")
    case (Inr t)
    have "outbox_statement (prepared_new generated (se_identity se) (requeue_body i token) ShapeChange)"
      by (rule stmt_requeue [OF requeue_call(2)]) (simp_all add: prepared_new_def)
    with Inr requeue_call assms(2) show ?thesis
      by (auto simp: requeue_claim_def split: prod.splits dest!: validate_claim_token_Inr intro: exec_changes_step)
  qed (use requeue_call in \<open>simp add: requeue_claim_def\<close>)
next
  case (recalculated_call se entity generated generation r)
  have "outbox_statement (prepared_new generated (se_identity se) (recalculated_body entity generation) ShapeChange)"
    using recalculated_call(2) by (intro stmt_recalculated) (simp_all add: prepared_new_def)
  with recalculated_call assms(2) show ?thesis
    by (auto simp: mark_recalculated_def split: prod.splits if_splits intro: exec_changes_step)
qed

lemma calls_step:
  assumes "(outbox_call identity)\<^sup>*\<^sup>* w w'" "table_ok (wd_data w)"
  shows "(mutation_step identity outbox_statement)\<^sup>*\<^sup>* w w' \<and> table_ok (wd_data w') \<and> rows_extend (wd_data w) (wd_data w')"
  using assms
proof (induction rule: rtranclp_induct)
  case base
  then show ?case by (simp add: rows_extend_refl)
next
  case (step v w')
  then have IH: "(mutation_step identity outbox_statement)\<^sup>*\<^sup>* w v" "table_ok (wd_data v)" by auto
  from call_steps [OF step.hyps(2) IH(2)] IH(1) have s: "(mutation_step identity outbox_statement)\<^sup>*\<^sup>* w w'" by simp
  show ?case using s outbox.steps_keep [OF s step.prems] by blast
qed

end
