(* ===== verification/Store_Facts.thy ===== *)
theory Store_Facts
  imports Outbox_Facts
begin

text \<open>
  What the store promises: every operation identity runs at most once and leaves a receipt, an unknown
  outcome can be resolved, the tables stay well typed, and rows only move forward.
\<close>

section \<open>Reading rows back\<close>

lemma decode_rows:
  assumes "\<forall>r \<in> set rs. row_ok r"
  obtains vs where "collect_res decode_outbox_row (map row_columns rs) = Inr vs" "list_all2 typed_row rs vs"
  using assms
proof (induction rs arbitrary: thesis)
  case (Cons r rs)
  obtain vs where "collect_res decode_outbox_row (map row_columns rs) = Inr vs" "list_all2 typed_row rs vs"
    using Cons.IH Cons.prems(2) by auto
  moreover have "\<exists>v. typed_row r v" using Cons.prems(2) by (simp add: row_ok_def)
  then obtain v where "typed_row r v" ..
  ultimately show ?case by (intro Cons.prems(1) [of "v # vs"]) (simp_all add: decode_row_columns)
qed simp

lemma typed_rows_list: "list_all2 typed_row rs vs \<Longrightarrow> map ox_id vs = map tr_id rs \<and> map ox_status vs = map tr_status rs \<and>
    map ox_claimed vs = map tr_claimed rs"
  by (induction rule: list_all2_induct) (simp_all add: typed_row_def)

lemma same_fields: "map f vs = map g rs \<Longrightarrow> \<forall>r \<in> set rs. g r = c \<Longrightarrow> \<forall>v \<in> set vs. f v = c"
  by (metis imageE imageI image_set)

lemma replay_reads:
  assumes "table_ok (wd_data w)" "healthy se" "limit \<noteq> 0"
  obtains rep where "replay_queued se limit w = Inr rep"
    "map ox_id (rr_rows rep) = queued_ids (effective_limit (se_bounds se) limit) (wd_data w)"
    "\<forall>v \<in> set (rr_rows rep). ox_status v = Queued \<and> ox_claimed v = None"
proof -
  let ?rs = "take (effective_limit (se_bounds se) limit) (filter (\<lambda>r. tr_status r = Queued) (od_rows (wd_data w)))"
  have rs: "\<forall>r \<in> set ?rs. row_ok r \<and> tr_status r = Queued \<and> tr_claimed r = None"
    using assms(1) by (auto simp: table_ok_def row_ok_def dest!: in_set_takeD)
  then obtain vs where vs: "collect_res decode_outbox_row (map row_columns ?rs) = Inr vs" "list_all2 typed_row ?rs vs"
    using decode_rows [of ?rs] by blast
  have "\<exists>rep. replay_queued se limit w = Inr rep \<and> rr_rows rep = vs"
    using assms(2,3) vs(1) by (simp add: replay_queued_def query_rows_def healthy_def failing_def replay_query_def Let_def)
  moreover have "map ox_id vs = queued_ids (effective_limit (se_bounds se) limit) (wd_data w)"
    using typed_rows_list [OF vs(2)] by (simp add: queued_ids_def take_map)
  moreover have "map ox_status vs = map tr_status ?rs" "map ox_claimed vs = map tr_claimed ?rs"
    using typed_rows_list [OF vs(2)] by simp_all
  note fields = this [THEN same_fields]
  have "\<forall>r \<in> set ?rs. tr_status r = Queued" "\<forall>r \<in> set ?rs. tr_claimed r = None" using rs by blast+
  note this(1) [THEN fields(1)] this(2) [THEN fields(2)]
  ultimately show ?thesis using that by blast
qed

section \<open>What a call does\<close>

lemma not_committed_result [simp]: "mutation_into_result (not_committed operation absent e) \<noteq> Inr rows"
  by (cases e; cases absent) simp_all

lemma submit_new:
  assumes "submit_into se p w = (w', Inr rows)" "map_of (wd_receipts w) (pm_operation p) = None"
  shows "\<exists>d. bd_run (pm_body p) (wd_data w) = Inr (d, rows) \<and> wd_data w' = d"
  using assms
  by (auto simp: submit_into_def submit_mutation_def receipt_of_def failing_def execute_def mutation_result_def Let_def
      split: if_splits option.splits sum.splits prod.splits fate.splits)

lemma ids_of_hits:
  assumes "sorted_wrt (<) (map tr_id rows)"
  shows "map tr_id (filter (\<lambda>r. tr_id r \<in> set (take n (map tr_id (filter P rows)))) rows) = take n (map tr_id (filter P rows))"
    (is "?l = ?ids")
proof (rule sorted_distinct_set_unique)
  have s: "sorted (map tr_id rows)" "distinct (map tr_id rows)" using assms by (auto simp: strict_sorted_iff)
  show "sorted ?l" "distinct ?l" using s by (auto simp: sorted_filter distinct_map_filter)
  show "sorted ?ids" "distinct ?ids" using s by (auto simp: sorted_filter distinct_map_filter intro: sorted_wrt_take)
  have "set ?ids \<subseteq> tr_id ` set rows" using set_take_subset [of n "map tr_id (filter P rows)"] by auto
  then show "set ?l = set ?ids" by auto
qed

lemma queued_disjoint: "od_rows d = map (\<lambda>r. if tr_id r \<in> S then claimed_row claimant r else r) rows \<Longrightarrow> set (queued_ids n d) \<inter> S = {}"
  by (auto simp: queued_ids_def claimed_row_def dest!: in_set_takeD split: if_splits)

lemma claim_effect:
  assumes "table_ok (wd_data w)" "claim_queued se generated limit claimant w = (w', Inr vs)" "utf8_valid claimant"
    and "map_of (wd_receipts w) generated = None"
  shows "map ox_id vs = queued_ids (effective_limit (se_bounds se) limit) (wd_data w)"
    "\<forall>v \<in> set vs. ox_status v = Claimed \<and> ox_claimed v = Some claimant"
    "od_rows (wd_data w') = map (\<lambda>r. if tr_id r \<in> set (map ox_id vs) then claimed_row claimant r else r) (od_rows (wd_data w))"
proof -
  let ?n = "effective_limit (se_bounds se) limit"
  let ?hit = "\<lambda>r. tr_id r \<in> set (queued_ids ?n (wd_data w))"
  let ?rs = "map (claimed_row claimant) (filter ?hit (od_rows (wd_data w)))"
  obtain p where "prepare_claim (se_bounds se) generated (se_identity se) limit claimant = Inr p"
    using assms(2) by (cases "prepare_claim (se_bounds se) generated (se_identity se) limit claimant") (simp_all add: claim_queued_def)
  moreover from this have p: "pm_operation p = generated" "pm_body p = claim_body ?n claimant"
    by (auto simp: prepare_claim_def prepared_new_def split: if_splits dest!: validate_claim_token_Inr)
  ultimately obtain lines where l: "submit_into se p w = (w', Inr lines)" "collect_res decode_outbox_row lines = Inr vs"
    using assms(2) by (auto simp: claim_queued_def split: prod.splits)
  have d: "wd_data w' = (wd_data w)\<lparr>od_rows := map (\<lambda>r. if ?hit r then claimed_row claimant r else r) (od_rows (wd_data w))\<rparr>"
      and lines: "lines = map row_columns ?rs"
    using submit_new [OF l(1)] assms(4) by (auto simp: p claim_body_def Let_def)
  have "row_ok r" if "r \<in> set ?rs" for r
    using that assms(1,3) by (auto simp: table_ok_def claimed_row_def intro!: row_ok_restate)
  then obtain vs' where "collect_res decode_outbox_row (map row_columns ?rs) = Inr vs'" "list_all2 typed_row ?rs vs'"
    using decode_rows [of ?rs] by blast
  then have vs: "list_all2 typed_row ?rs vs" using l(2) by (simp add: lines)
  have m: "map tr_id ?rs = map tr_id (filter ?hit (od_rows (wd_data w)))" by (simp add: claimed_row_def)
  then show ids: "map ox_id vs = queued_ids ?n (wd_data w)"
  proof -
    have "map ox_id vs = map tr_id (filter ?hit (od_rows (wd_data w)))" using typed_rows_list [OF vs] m by metis
    also have "\<dots> = queued_ids ?n (wd_data w)"
      unfolding queued_ids_def using assms(1) by (intro ids_of_hits) (simp add: table_ok_def)
    finally show ?thesis .
  qed
  have "\<forall>r \<in> set ?rs. tr_status r = Claimed" "\<forall>r \<in> set ?rs. tr_claimed r = Some claimant" by (auto simp: claimed_row_def)
  moreover have "map ox_status vs = map tr_status ?rs" "map ox_claimed vs = map tr_claimed ?rs"
    using typed_rows_list [OF vs] by blast+
  ultimately have "\<forall>v \<in> set vs. ox_status v = Claimed" "\<forall>v \<in> set vs. ox_claimed v = Some claimant"
    using same_fields [of ox_status vs tr_status ?rs Claimed] same_fields [of ox_claimed vs tr_claimed ?rs "Some claimant"] by blast+
  then show "\<forall>v \<in> set vs. ox_status v = Claimed \<and> ox_claimed v = Some claimant" by blast
  show "od_rows (wd_data w') = map (\<lambda>r. if tr_id r \<in> set (map ox_id vs) then claimed_row claimant r else r) (od_rows (wd_data w))"
    unfolding ids d by simp
qed

definition undisturbed :: "environment \<Rightarrow> bool" where
  "undisturbed se \<longleftrightarrow> healthy se \<and> se_record se = None \<and> se_fate se = CommitDone"

lemma change_effect:
  assumes "undisturbed se" "pm_store p = se_identity se" "pm_shape p = ShapeChange" "map_of (wd_receipts w) (pm_operation p) = None"
    and "bd_run (pm_body p) (wd_data w) = Inr (d, [[c]])" "c \<in> {''0'', ''1''}"
  shows "submit_into se p w =
    (\<lparr>wd_data = d, wd_receipts = (pm_operation p, request_of p, encode_response [[c]]) # wd_receipts w\<rparr>,
     if c = ''0'' then Inl (StoreConflict ''zero affected rows (claim owner/state or entity mismatch)'') else Inr [[c]])"
  using assms
  by (auto simp: submit_into_def submit_mutation_def undisturbed_def healthy_def receipt_of_def failing_def execute_def insert_checks_def
      scalar_cell_def mutation_result_def Let_def)

lemma one_holder:
  assumes "table_ok d" shows "length (filter (held_by i token) (od_rows d)) \<le> 1"
proof -
  have "distinct (map tr_id (filter (held_by i token) (od_rows d)))"
    using assms by (simp add: table_ok_def strict_sorted_iff distinct_map_filter)
  moreover have "set (map tr_id (filter (held_by i token) (od_rows d))) \<subseteq> {i}" by (auto simp: held_by_def)
  ultimately have "length (map tr_id (filter (held_by i token) (od_rows d))) \<le> card {i}"
    by (metis card_mono distinct_card finite.emptyI finite.insertI)
  then show ?thesis by simp
qed

lemma held_unique: "table_ok d \<Longrightarrow> r \<in> set (od_rows d) \<Longrightarrow> s \<in> set (od_rows d) \<Longrightarrow> tr_id r = tr_id s \<Longrightarrow> r = s"
  by (auto simp: table_ok_def strict_sorted_iff distinct_map inj_on_def)

lemma ack_effect:
  assumes "undisturbed se" "table_ok (wd_data w)" "validate_claim_token token = Inr token" "map_of (wd_receipts w) generated = None"
    and a: "acknowledge se generated i token w = (w', r)"
  shows "wd_data w' = (wd_data w)\<lparr>od_rows := map (\<lambda>r. if held_by i token r then r\<lparr>tr_status := Acked\<rparr> else r) (od_rows (wd_data w))\<rparr>"
    "r = (if \<exists>r \<in> set (od_rows (wd_data w)). held_by i token r then Inr ()
          else Inl (StoreConflict ''zero affected rows (claim owner/state or entity mismatch)''))"
proof -
  let ?held = "filter (held_by i token) (od_rows (wd_data w))"
  let ?p = "prepared_new generated (se_identity se) (ack_body i token) ShapeChange"
  let ?d = "(wd_data w)\<lparr>od_rows := map (\<lambda>r. if held_by i token r then r\<lparr>tr_status := Acked\<rparr> else r) (od_rows (wd_data w))\<rparr>"
  have n: "length ?held = (if \<exists>r \<in> set (od_rows (wd_data w)). held_by i token r then 1 else 0)"
    using one_holder [OF assms(2), of i token] by (auto simp: le_Suc_eq filter_empty_conv)
  have c: "show_nat 0 = ''0''" "show_nat 1 = ''1''" "parse_i64 ''1'' = Some 1" 
  proof -
    show d: "show_nat 0 = ''0''" "show_nat 1 = ''1''" by (simp_all add: show_nat.simps digit_char_def flip: byte_eq_iff)
    show "parse_i64 ''1'' = Some 1" using parse_i64_show [of 1] d(2) by (simp add: in_i64_def show_int_def)
  qed
  have s: "submit_into se ?p w = (\<lparr>wd_data = ?d, wd_receipts = (generated, request_of ?p, encode_response [[show_nat (length ?held)]]) # wd_receipts w\<rparr>,
      if length ?held = 0 then Inl (StoreConflict ''zero affected rows (claim owner/state or entity mismatch)'') else Inr [[show_nat (length ?held)]])"
    using change_effect [OF assms(1), of ?p w ?d "show_nat (length ?held)"] assms(4) n c
    by (auto simp: prepared_new_def ack_body_def update_rows_def split: if_splits)
  then show "wd_data w' = ?d" using a assms(3) by (auto simp: acknowledge_def exec_changes_def)
  show "r = (if \<exists>r \<in> set (od_rows (wd_data w)). held_by i token r then Inr ()
      else Inl (StoreConflict ''zero affected rows (claim owner/state or entity mismatch)''))"
    using a assms(3) s n c by (auto simp: acknowledge_def exec_changes_def changed_one_def split: if_splits)
qed

end
