(* ===== verification/Envelope_Facts.thy ===== *)
theory Envelope_Facts
  imports Outbox
begin

text \<open>
  The envelope of one invocation: what the script prints for given settings and rows, and that the
  parser reads it back.
\<close>

definition printed :: "string list \<Rightarrow> string" where
  "printed ls = concat (map (\<lambda>l. l @ [CHR 0x0A]) ls)"

definition envelope_lines :: "connection_settings \<Rightarrow> string list list \<Rightarrow> string list" where
  "envelope_lines s rows = sent_begin # show_word schema_generation_store # settings_wanted s @ sent_data #
     map (join_on col_sep) rows @ [sent_end]"

lemma split_printed: "\<forall>l \<in> set ls. CHR 0x0A \<notin> set l \<Longrightarrow> split_on (CHR 0x0A) (printed ls) = ls @ [[]]"
  by (induction ls) (simp_all add: printed_def split_on_append)

lemma strip_cr_clean: "CHR 0x0D \<notin> set l \<Longrightarrow> strip_cr l = l"
  by (auto simp: strip_cr_def dest: last_in_set)

lemma lines_printed:
  assumes "\<forall>l \<in> set ls. CHR 0x0A \<notin> set l \<and> CHR 0x0D \<notin> set l"
  shows "map strip_cr (text_lines (printed ls)) = ls"
proof -
  have "map strip_cr ls = ls" using assms by (intro map_idI) (simp add: strip_cr_clean)
  then show ?thesis using assms by (simp add: text_lines_def split_printed del: map_map)
qed

lemma position_append: "x \<notin> set xs \<Longrightarrow> position x (xs @ x # ys) = Some (length xs)"
  by (induction xs) auto

lemma framing_None: "framing_refusal c = None \<longleftrightarrow> col_sep \<notin> set c \<and> CHR 0x0A \<notin> set c \<and> CHR 0x0D \<notin> set c \<and>
    c \<noteq> sent_begin \<and> c \<noteq> sent_data \<and> c \<noteq> sent_end"
  by (simp add: framing_refusal_def)

lemma row_line:
  assumes "row \<noteq> []" "\<forall>c \<in> set row. framing_refusal c = None"
  shows "CHR 0x0A \<notin> set (join_on col_sep row)" "CHR 0x0D \<notin> set (join_on col_sep row)" "join_on col_sep row \<noteq> sent_end"
    "split_on col_sep (join_on col_sep row) = row"
proof -
  have s: "set (join_on col_sep row) \<subseteq> insert col_sep (\<Union>p \<in> set row. set p)"
    by (induction col_sep row rule: join_on.induct) auto
  then show "CHR 0x0A \<notin> set (join_on col_sep row)" "CHR 0x0D \<notin> set (join_on col_sep row)"
    using assms(2) by (auto simp: framing_None verdant_defs)
  show "split_on col_sep (join_on col_sep row) = row" using assms by (simp add: split_on_join framing_None)
  moreover have "split_on col_sep sent_end = [sent_end]" by (rule split_on_clean) (simp add: sent_end_def verdant_defs)
  ultimately show "join_on col_sep row \<noteq> sent_end" using assms(2) by (auto simp: framing_None)
qed

lemma settings_honoured: "settings_mismatch (zip labels (zip xs xs)) = None"
proof (induction xs arbitrary: labels)
  case (Cons x xs)
  then show ?case by (cases labels) simp_all
qed simp

lemma show_word_line [simp]: "CHR 0x0A \<notin> set (show_word w)" "CHR 0x0D \<notin> set (show_word w)"
  using show_nat_digits [of "unat w"] by (auto simp: show_word_def is_ascii_digit_def)

lemma parse_printed:
  assumes "validate_settings s = Inr ()" "\<forall>row \<in> set rows. row \<noteq> [] \<and> (\<forall>c \<in> set row. framing_refusal c = None)"
    and "\<forall>l \<in> set before \<union> set after. CHR 0x0A \<notin> set l \<and> CHR 0x0D \<notin> set l" "sent_begin \<notin> set before"
  shows "parse_envelope (printed (before @ envelope_lines s rows @ after)) s =
    Some (Inr \<lparr>vo_generation = schema_generation_store, vo_journal_limit = cs_journal_limit s, vo_rows = rows\<rparr>)"
proof -
  let ?data = "map (join_on col_sep) rows"
  let ?rest = "show_word schema_generation_store # settings_wanted s @ sent_data # ?data @ sent_end # after"
  have "\<forall>l \<in> set (settings_wanted s). CHR 0x0A \<notin> set l \<and> CHR 0x0D \<notin> set l"
    using assms(1) by (auto simp: settings_wanted_def validate_settings_def split: if_splits)
  moreover have "\<forall>l \<in> {sent_begin, sent_data, sent_end, show_word schema_generation_store}. CHR 0x0A \<notin> set l \<and> CHR 0x0D \<notin> set l"
    by (auto simp: sent_begin_def sent_data_def sent_end_def)
  ultimately have "map strip_cr (text_lines (printed (before @ envelope_lines s rows @ after))) = before @ envelope_lines s rows @ after"
    using assms(2,3) row_line by (intro lines_printed) (auto simp: envelope_lines_def)
  also have "\<dots> = before @ sent_begin # ?rest" by (simp add: envelope_lines_def)
  finally have p: "parse_envelope (printed (before @ envelope_lines s rows @ after)) s = Some (envelope_body ?rest s)"
    using assms(4) by (simp add: parse_envelope_def position_append)
  have w: "length (settings_wanted s) = 5" by (simp add: settings_wanted_def)
  have "sent_end \<notin> set ?data" using assms(2) row_line(3) by fastforce
  moreover have "drop 7 ?rest = ?data @ sent_end # after" "take 5 (drop 1 ?rest) = settings_wanted s" "?rest ! 6 = sent_data" "7 \<le> length ?rest"
      "?rest ! 5 = show_word (cs_journal_limit s)"
    using w by (simp_all add: settings_wanted_def numeral_nat)
  moreover have "map (split_on col_sep) ?data = rows" using assms(2) row_line(4) by (simp add: map_idI)
  ultimately have "envelope_body ?rest s =
      Inr \<lparr>vo_generation = schema_generation_store, vo_journal_limit = cs_journal_limit s, vo_rows = rows\<rparr>"
    using settings_honoured by (simp add: envelope_body_def position_append)
  with p show ?thesis by simp
qed

end
