(* ===== verification/Store_Properties.thy ===== *)
theory Store_Properties
  imports Store_Facts Envelope_Facts
begin

text \<open>
  The properties of the mutation discipline and of the outbox, with the store they are tried on: one
  queued row, and a claim whose commit is reported lost although it was kept.
\<close>

section \<open>A store to try them on\<close>

definition example_entry :: outbox_row where
  "example_entry = \<lparr>ox_id = 1, ox_operation = ''op-a'', ox_entity = ''entity-a'', ox_sensor = ''sensor-a'', ox_value = Missing,
     ox_unit = Known DegC, ox_times = \<lparr>tt_source = 1, tt_receipt = 2, tt_ingestion = 3\<rparr>,
     ox_record = \<lparr>ri_generation = ''gen-a'', ri_seq = 7\<rparr>, ox_status = Queued, ox_claimed = None\<rparr>"

definition example_queued :: table_row where
  "example_queued = new_row 1 (ox_operation example_entry) (ox_entity example_entry) (ox_sensor example_entry) (ox_value example_entry)
     (ox_unit example_entry) (ox_times example_entry) (ox_record example_entry)"

definition example_tables :: outbox_db where
  "example_tables = \<lparr>od_rows = [example_queued], od_last = 1, od_marks = []\<rparr>"

definition example_environment :: "fate \<Rightarrow> environment" where
  "example_environment f = \<lparr>se_identity = ''store-a'', se_admission = None, se_query = None, se_record = None, se_fate = f,
     se_bounds = store_bounds_tiny, se_maintenance = None, se_db_size = 0\<rparr>"

definition example_claim :: "outbox_db prepared" where
  "example_claim = prepared_new ''op-claim'' ''store-a'' (claim_body 10 ''worker-1'') ShapeRows"

lemma example_ids [simp]: "id_ok ''op-a''" "id_ok ''entity-a''" "id_ok ''sensor-a''" "id_ok ''gen-a''"
  by (simp_all add: id_ok_def max_id_len_def id_char_def is_ascii_alphanumeric_def is_ascii_digit_def)

lemma example_typed: "typed_row example_queued example_entry"
  using typed_new_row [of "''op-a''" "''entity-a''" "''sensor-a''" Missing "Known DegC" "\<lparr>tt_source = 1, tt_receipt = 2, tt_ingestion = 3\<rparr>"
      "\<lparr>ri_generation = ''gen-a'', ri_seq = 7\<rparr>" 1]
  by (simp add: example_queued_def example_entry_def time_triple_ok_def in_i64_def)

lemma example_tables_ok: "table_ok example_tables"
  using example_typed by (auto simp: table_ok_def example_tables_def row_ok_def example_queued_def new_row_def max_rowid_def)

lemma example_worker [simp]: "utf8_valid ''worker-1''" "validate_claim_token ''worker-1'' = Inr ''worker-1''"
  by (simp_all add: validate_claim_token_def framing_refusal_def sent_begin_def sent_data_def sent_end_def verdant_defs)

definition example_claimed :: table_row where "example_claimed = claimed_row ''worker-1'' example_queued"

lemma example_run:
  "bd_run (pm_body example_claim) example_tables = Inr (example_tables\<lparr>od_rows := [example_claimed]\<rparr>, [row_columns example_claimed])"
  by (simp add: example_claim_def prepared_new_def claim_body_def queued_ids_def example_tables_def example_claimed_def example_queued_def
      new_row_def claimed_row_def)

lemma example_claimed_typed: "typed_row example_claimed (example_entry\<lparr>ox_status := Claimed, ox_claimed := Some ''worker-1''\<rparr>)"
  unfolding example_claimed_def claimed_row_def by (rule typed_restate [OF example_typed]) simp

definition example_after :: "outbox_db world" where
  "example_after = \<lparr>wd_data = example_tables\<lparr>od_rows := [example_claimed]\<rparr>,
     wd_receipts = [(''op-claim'', request_of example_claim, encode_response [row_columns example_claimed])]\<rparr>"

lemma example_executes: "execute (example_environment f) example_claim (opened example_tables) = Inr (example_after, [row_columns example_claimed])"
  using example_run decode_row_columns [OF example_claimed_typed]
  by (simp add: execute_def insert_checks_def example_environment_def failing_def example_after_def opened_def)
    (simp add: example_claim_def prepared_new_def)

lemma example_submission:
  "submit_mutation (example_environment (CommitKept e)) example_claim (opened example_tables) =
     (example_claim\<lparr>pm_attempted := True\<rparr>, example_after, MUnknown ''op-claim'' (storage_error_display e))"
proof -
  have "pm_store example_claim = ''store-a''" "pm_operation example_claim = ''op-claim''" "pm_attempted example_claim = False"
    by (simp_all add: example_claim_def prepared_new_def)
  then show ?thesis
    using example_executes [of "CommitKept e"]
    by (simp add: submit_mutation_def receipt_of_def failing_def Let_def example_environment_def opened_def)
qed




section \<open>Mutations\<close>







section \<open>The outbox\<close>

text \<open>C31: Whatever is inserted, claimed, acknowledged, requeued or recalculated, and however the calls fail, the
  outbox stays well typed: its rows are in the order of their identities, a row has a claim exactly when it is not
  queued, and every row decodes to its typed values. So a replay in a store that answers never refuses a row: it
  serves the oldest queued rows, up to the bound.\<close>

theorem outbox_well_typed:
  assumes "table_ok start" "(outbox_call identity)\<^sup>*\<^sup>* (opened start) w"
  shows "sorted_wrt (<) (map tr_id (od_rows (wd_data w))) \<and>
    (\<forall>r \<in> set (od_rows (wd_data w)). (tr_claimed r = None \<longleftrightarrow> tr_status r = Queued) \<and>
       (\<exists>v. decode_outbox_row (row_columns r) = Inr v \<and> ox_id v = tr_id r \<and> ox_operation v = tr_operation r \<and>
          ox_status v = tr_status r \<and> ox_claimed v = tr_claimed r)) \<and>
    (\<forall>se limit. healthy se \<longrightarrow> limit \<noteq> 0 \<longrightarrow>
       (\<exists>rep. replay_queued se limit w = Inr rep \<and>
          map ox_id (rr_rows rep) = queued_ids (effective_limit (se_bounds se) limit) (wd_data w) \<and>
          (\<forall>v \<in> set (rr_rows rep). ox_status v = Queued \<and> ox_claimed v = None)))"
proof -
  have ok: "table_ok (wd_data w)" using calls_step [OF assms(2)] assms(1) by (simp add: opened_def)
  have "\<exists>v. decode_outbox_row (row_columns r) = Inr v \<and> ox_id v = tr_id r \<and> ox_operation v = tr_operation r \<and>
      ox_status v = tr_status r \<and> ox_claimed v = tr_claimed r" if r: "row_ok r" for r
  proof -
    from r obtain v where v: "typed_row r v" by (auto simp: row_ok_def)
    from decode_row_columns [OF this] v show ?thesis by (intro exI [of _ v]) (simp add: typed_row_def)
  qed
  moreover have "\<exists>rep. replay_queued se limit w = Inr rep \<and>
      map ox_id (rr_rows rep) = queued_ids (effective_limit (se_bounds se) limit) (wd_data w) \<and>
      (\<forall>v \<in> set (rr_rows rep). ox_status v = Queued \<and> ox_claimed v = None)" if "healthy se" "limit \<noteq> 0" for se limit
    using replay_reads [OF ok that] by metis
  ultimately show ?thesis using ok by (simp add: table_ok_def row_ok_def)
qed

lemma example_call: "outbox_call ''store-a'' (opened example_tables) example_after"
proof -
  let ?se = "example_environment (CommitKept (Busy ''locked''))"
  have "prepare_claim (se_bounds ?se) ''op-claim'' ''store-a'' 10 ''worker-1'' = Inr example_claim"
    by (simp add: prepare_claim_def example_environment_def effective_limit_def store_bounds_tiny_def example_claim_def)
  moreover have "submit_into ?se example_claim (opened example_tables) =
      (example_after, mutation_into_result (MUnknown ''op-claim'' (storage_error_display (Busy ''locked''))))"
    by (simp add: submit_into_def example_submission)
  moreover have "se_identity ?se = ''store-a''" by (simp add: example_environment_def)
  ultimately have "fst (claim_queued ?se ''op-claim'' 10 ''worker-1'' (opened example_tables)) = example_after"
    by (simp add: claim_queued_def)
  then obtain rows where "claim_queued ?se ''op-claim'' 10 ''worker-1'' (opened example_tables) = (example_after, rows)"
    by (metis prod.collapse)
  then show ?thesis by (intro claim_call [of ?se _ "''worker-1''"]) (simp_all add: example_environment_def)
qed

theorem outbox_well_typed_witness:
  "\<exists>r \<in> set (od_rows (wd_data example_after)). \<exists>v. decode_outbox_row (row_columns r) = Inr v \<and> ox_claimed v = Some ''worker-1''"
proof -
  have "(outbox_call ''store-a'')\<^sup>*\<^sup>* (opened example_tables) example_after" using example_call by blast
  from outbox_well_typed [OF example_tables_ok this] have
    "\<exists>v. decode_outbox_row (row_columns example_claimed) = Inr v \<and> ox_claimed v = tr_claimed example_claimed"
    by (auto simp: example_after_def)
  then show ?thesis by (simp add: example_after_def example_claimed_def claimed_row_def)
qed

text \<open>C32: Rows are only ever added, and what a row says never changes: of a row only its status and its claim move,
  and once it is acknowledged neither does. Identities are never reused.\<close>

theorem outbox_rows_only_move:
  assumes "table_ok start" "(outbox_call identity)\<^sup>*\<^sup>* (opened start) w" "(outbox_call identity)\<^sup>*\<^sup>* w later"
  shows "\<exists>kept more. od_rows (wd_data later) = kept @ more \<and>
    list_all2 (\<lambda>r r'. unclaimed r' = unclaimed r \<and> (tr_status r = Acked \<longrightarrow> r' = r)) (od_rows (wd_data w)) kept \<and>
    sorted_wrt (<) (map tr_id (od_rows (wd_data later)))"
proof -
  have ok: "table_ok (wd_data w)" using calls_step [OF assms(2)] assms(1) by (simp add: opened_def)
  then have "table_ok (wd_data later)" "rows_extend (wd_data w) (wd_data later)" using calls_step [OF assms(3)] by simp_all
  moreover have "row_follows = (\<lambda>r r'. unclaimed r' = unclaimed r \<and> (tr_status r = Acked \<longrightarrow> r' = r))"
    by (intro ext) (simp add: row_follows_def)
  ultimately show ?thesis by (auto simp: rows_extend_def table_ok_def)
qed

theorem outbox_rows_only_move_witness:
  "\<exists>r' \<in> set (od_rows (wd_data example_after)). unclaimed r' = unclaimed example_queued \<and> tr_status r' = Claimed"
proof -
  have "(outbox_call ''store-a'')\<^sup>*\<^sup>* (opened example_tables) example_after" using example_call by blast
  from outbox_rows_only_move [OF example_tables_ok rtranclp.rtrancl_refl this]
  have "\<exists>r' \<in> set (od_rows (wd_data example_after)). unclaimed r' = unclaimed example_queued"
    by (auto simp: opened_def example_tables_def list_all2_Cons1)
  then show ?thesis by (simp add: example_after_def example_claimed_def claimed_row_def)
qed

text \<open>C33: A claim takes the oldest queued rows, as many as the limit and the bound allow, and gives them to its
  claimant: exactly the rows it returns are claimed under its token, the other rows stay as they are, and the next
  claim cannot get any of them.\<close>

theorem claims_take_the_oldest:
  assumes "table_ok (wd_data w)" "utf8_valid claimant" "map_of (wd_receipts w) generated = None"
    and "claim_queued se generated limit claimant w = (w', Inr rows)"
  shows "map ox_id rows = queued_ids (effective_limit (se_bounds se) limit) (wd_data w) \<and>
    (\<forall>v \<in> set rows. ox_status v = Claimed \<and> ox_claimed v = Some claimant) \<and>
    od_rows (wd_data w') = map (\<lambda>r. if tr_id r \<in> set (map ox_id rows) then claimed_row claimant r else r) (od_rows (wd_data w)) \<and>
    (\<forall>n. set (queued_ids n (wd_data w')) \<inter> set (map ox_id rows) = {})"
proof -
  note c = claim_effect [OF assms(1,4,2,3)]
  with queued_disjoint [OF c(3)] show ?thesis by blast
qed

lemma example_claims:
  "claim_queued (example_environment CommitDone) ''op-claim'' 10 ''worker-1'' (opened example_tables) =
    (example_after, Inr [example_entry\<lparr>ox_status := Claimed, ox_claimed := Some ''worker-1''\<rparr>])"
proof -
  let ?se = "example_environment CommitDone"
  have "prepare_claim (se_bounds ?se) ''op-claim'' ''store-a'' 10 ''worker-1'' = Inr example_claim"
    by (simp add: prepare_claim_def example_environment_def effective_limit_def store_bounds_tiny_def example_claim_def)
  moreover have "submit_into ?se example_claim (opened example_tables) = (example_after, Inr [row_columns example_claimed])"
  proof -
    have "pm_store example_claim = ''store-a''" "pm_operation example_claim = ''op-claim''" "pm_shape example_claim = ShapeRows"
      by (simp_all add: example_claim_def prepared_new_def)
    then show ?thesis
      using example_executes [of CommitDone]
      by (simp add: submit_into_def submit_mutation_def receipt_of_def failing_def Let_def example_environment_def opened_def mutation_result_def)
  qed
  ultimately show ?thesis
    using decode_row_columns [OF example_claimed_typed] by (simp add: claim_queued_def example_environment_def)
qed

theorem claims_take_the_oldest_witness:
  "queued_ids (effective_limit store_bounds_tiny 10) example_tables = [1] \<and> (\<forall>n. 1 \<notin> set (queued_ids n (wd_data example_after)))"
proof -
  have r: "map_of (wd_receipts (opened example_tables)) ''op-claim'' = None" "table_ok (wd_data (opened example_tables))"
    using example_tables_ok by (simp_all add: opened_def)
  from claims_take_the_oldest [OF r(2) example_worker(1) r(1) example_claims] show ?thesis
    by (simp add: example_entry_def example_environment_def opened_def)
qed

text \<open>C34: An acknowledgement needs the claim, in a store that answers and under an operation that has no receipt yet: a token
  that is not in form is refused as such before anything runs; with one in form it succeeds exactly when the row is
  claimed under that token, and then that row alone becomes acknowledged; for any other row, token or state
  nothing changes and the answer is a conflict.\<close>

theorem acknowledge_needs_the_claim:
  assumes "undisturbed se" "table_ok (wd_data w)" "map_of (wd_receipts w) generated = None"
  shows "case acknowledge se generated i token w of (w', r) \<Rightarrow>
    (case validate_claim_token token of
       Inl e \<Rightarrow> r = Inl e \<and> w' = w
     | Inr _ \<Rightarrow>
         if \<exists>r \<in> set (od_rows (wd_data w)). tr_id r = i \<and> tr_status r = Claimed \<and> tr_claimed r = Some token
         then r = Inr () \<and> wd_data w' = (wd_data w)\<lparr>od_rows := map (\<lambda>r. if tr_id r = i then r\<lparr>tr_status := Acked\<rparr> else r) (od_rows (wd_data w))\<rparr>
         else r = Inl (StoreConflict ''zero affected rows (claim owner/state or entity mismatch)'') \<and> wd_data w' = wd_data w)"
proof -
  obtain w' res where a: "acknowledge se generated i token w = (w', res)" by (cases "acknowledge se generated i token w")
  show ?thesis
  proof (cases "validate_claim_token token")
    case (Inl e)
    then show ?thesis by (simp add: acknowledge_def)
  next
    case (Inr t)
    then have ok: "validate_claim_token token = Inr token"
      by (auto simp: validate_claim_token_def split: if_splits option.splits)
    note e = ack_effect [OF assms(1,2) ok assms(3) a]
    show ?thesis
    proof (cases "\<exists>r \<in> set (od_rows (wd_data w)). held_by i token r")
      case True
      have "held_by i token r \<longleftrightarrow> tr_id r = i" if "r \<in> set (od_rows (wd_data w))" for r
        using held_unique [OF assms(2)] True that by (auto simp: held_by_def)
      then have "map (\<lambda>r. if held_by i token r then r\<lparr>tr_status := Acked\<rparr> else r) (od_rows (wd_data w)) =
          map (\<lambda>r. if tr_id r = i then r\<lparr>tr_status := Acked\<rparr> else r) (od_rows (wd_data w))"
        by (simp cong: map_cong)
      then show ?thesis using e True by (simp add: a ok held_by_def)
    next
      case False
      then have "map (\<lambda>r. if held_by i token r then r\<lparr>tr_status := Acked\<rparr> else r) (od_rows (wd_data w)) = od_rows (wd_data w)"
        by (intro map_idI) auto
      moreover have "\<not> (\<exists>r \<in> set (od_rows (wd_data w)). tr_id r = i \<and> tr_status r = Claimed \<and> tr_claimed r = Some token)"
        using False by (simp add: held_by_def)
      ultimately show ?thesis using e False unfolding a ok prod.case sum.case by (simp only: if_False) simp
    qed
  qed
qed

theorem acknowledge_needs_the_claim_witness:
  "snd (acknowledge (example_environment CommitDone) ''op-ack'' 1 ''worker-1'' example_after) = Inr () \<and>
   (\<exists>e. snd (acknowledge (example_environment CommitDone) ''op-ack'' 2 ''worker-1'' example_after) = Inl e)"
proof -
  have u: "undisturbed (example_environment CommitDone)" by (simp add: undisturbed_def healthy_def example_environment_def)
  have ok: "table_ok (wd_data example_after)"
    using calls_step [OF r_into_rtranclp [of "outbox_call _", OF example_call]] example_tables_ok by (simp add: opened_def)
  have n: "map_of (wd_receipts example_after) ''op-ack'' = None" by (simp add: example_after_def)
  note a = acknowledge_needs_the_claim [OF u ok n, where token = "''worker-1''"]
  have r: "od_rows (wd_data example_after) = [example_claimed]" "tr_id example_claimed = 1" "tr_status example_claimed = Claimed"
      "tr_claimed example_claimed = Some ''worker-1''"
    by (simp_all add: example_after_def example_claimed_def claimed_row_def example_queued_def new_row_def)
  from a [of 1] a [of 2] show ?thesis by (auto simp: r example_worker(2))
qed

section \<open>The envelope\<close>

text \<open>C35: What one invocation of the tool prints is read back. When the settings are valid ones, the rows have cells and
  every cell passes the check that keeps the framing characters and the markers out, the settings are accepted and the
  rows come back cell by cell, whatever other lines the tool prints around the envelope: any before it but the begin
  marker, and any after it, each of them a line without line breaks of its own.\<close>

theorem envelope_round_trip:
  assumes "validate_settings s = Inr ()" "\<forall>row \<in> set rows. row \<noteq> [] \<and> (\<forall>c \<in> set row. framing_refusal c = None)"
    and "\<forall>l \<in> set before \<union> set after. CHR 0x0A \<notin> set l \<and> CHR 0x0D \<notin> set l" "sent_begin \<notin> set before"
  shows "parse_envelope (printed (before @ envelope_lines s rows @ after)) s =
    Some (Inr \<lparr>vo_generation = schema_generation_store, vo_journal_limit = cs_journal_limit s, vo_rows = rows\<rparr>)"
  using assms by (rule parse_printed)

theorem envelope_round_trip_witness:
  "parse_envelope (printed (envelope_lines local_wal_full [[''1'', ''x''], [''2'', ''NULL'']])) local_wal_full =
    Some (Inr \<lparr>vo_generation = 1, vo_journal_limit = 8388608, vo_rows = [[''1'', ''x''], [''2'', ''NULL'']]\<rparr>)"
  using envelope_round_trip [of local_wal_full "[[''1'', ''x''], [''2'', ''NULL'']]" "[]" "[]"]
  by (simp add: validate_settings_def local_wal_full_def framing_refusal_def sent_begin_def sent_data_def sent_end_def
      schema_generation_store_def verdant_defs)

end
