(* ===== verification/Effective.thy ===== *)
theory Effective
  imports Seal_Store
begin

text \<open>
  The effective configuration (\<open>src/src/accept/mod.rs\<close>, \<open>codec.rs\<close>, \<open>effective.rs\<close>): the stages, the
  typed errors, the entries of the domain and of the temporary intent, their resolution against the
  registry of bindings, the canonical bytes with their decoder, and the difference of two configurations.
\<close>

section \<open>Stages, revisions and errors\<close>

datatype stage = StStaged | StSealed | StAccepted | StActivated | StQualified

fun stage_as_str :: "stage \<Rightarrow> string" where
  "stage_as_str StStaged = ''staged''"
| "stage_as_str StSealed = ''sealed''"
| "stage_as_str StAccepted = ''accepted''"
| "stage_as_str StActivated = ''activated''"
| "stage_as_str StQualified = ''qualified''"

definition max_accepted :: u32 where "max_accepted = 256"

datatype accept_error =
    AcInvalid string
  | AcLimit string
  | AcConflict string
  | AcApprovalMismatch
  | AcEnvironmentOverride
  | AcNotYet stage
  | AcBlocked seal_error
  | AcActivationBlocked trusted_scope digest seal_error
  | AcStaleGeneration u32 u32
  | AcSuperseded u32 u32
  | AcUnknown operation_id string
  | AcStorage storage_error
  | AcBinding binding_error
  | AcAccess access_error
  | AcSeal seal_error
  | AcIo string

fun accept_error_code :: "accept_error \<Rightarrow> string" where
  "accept_error_code (AcInvalid _) = ''accept-invalid''"
| "accept_error_code (AcLimit _) = ''accept-limit''"
| "accept_error_code (AcConflict _) = ''accept-conflict''"
| "accept_error_code AcApprovalMismatch = ''accept-approval-mismatch''"
| "accept_error_code AcEnvironmentOverride = ''accept-environment-override''"
| "accept_error_code (AcNotYet _) = ''accept-not-yet''"
| "accept_error_code (AcBlocked _) = ''accept-blocked''"
| "accept_error_code (AcActivationBlocked _ _ _) = ''activation-blocked''"
| "accept_error_code (AcStaleGeneration _ _) = ''activation-stale-generation''"
| "accept_error_code (AcSuperseded _ _) = ''activation-superseded''"
| "accept_error_code (AcUnknown _ _) = ''accept-unknown''"
| "accept_error_code (AcStorage e) = storage_error_code e"
| "accept_error_code (AcBinding e) = binding_error_code e"
| "accept_error_code (AcAccess e) = access_error_code e"
| "accept_error_code (AcSeal e) = seal_error_code e"
| "accept_error_code (AcIo _) = ''accept-io''"

text \<open>The text of an error: its code and its \<open>Debug\<close> form, which is derived and a parameter here.\<close>

definition accept_error_display :: "(accept_error \<Rightarrow> string) \<Rightarrow> accept_error \<Rightarrow> string" where
  "accept_error_display debug e = accept_error_code e @ '': '' @ debug e"

fun accept_storage :: "storage_error \<Rightarrow> accept_error" where
  "accept_storage (StoreConflict detail) = AcConflict detail"
| "accept_storage e = AcStorage e"

type_synonym accepted_revision = u32

definition accepted_revision_new :: "u32 \<Rightarrow> accept_error + accepted_revision" where
  "accepted_revision_new v = (if unat v > unat max_accepted then Inl (AcLimit ''accepted revision'') else Inr v)"

definition accepted_revision_next :: "accepted_revision \<Rightarrow> accept_error + accepted_revision" where
  "accepted_revision_next v =
     and_then (ok_or (AcLimit ''accepted revision'') (checked_add v 1)) accepted_revision_new"

section \<open>Codec\<close>

fun accept_frame_error :: "frame_error \<Rightarrow> accept_error" where
  "accept_frame_error FrameBytes = AcLimit ''record bytes''"
| "accept_frame_error FrameFields = AcLimit ''record fields''"
| "accept_frame_error FrameFraming = AcInvalid ''record framing''"
| "accept_frame_error FrameNumber = AcInvalid ''record number''"
| "accept_frame_error FrameNoncanonical = AcInvalid ''noncanonical number''"
| "accept_frame_error FrameBoundary = AcInvalid ''record length/UTF-8''"

definition accept_decode :: "string \<Rightarrow> nat \<Rightarrow> nat \<Rightarrow> accept_error + string list" where
  "accept_decode raw max_bytes max_fields = map_err accept_frame_error (frames_decode raw max_bytes max_fields)"

definition accept_u32 :: "string \<Rightarrow> accept_error + u32" where
  "accept_u32 raw = map_err accept_frame_error (number_u32 raw)"

definition accept_i64 :: "string \<Rightarrow> accept_error + int" where
  "accept_i64 raw = map_err accept_frame_error (number_i64 raw)"

definition accept_text_json :: "string \<Rightarrow> accept_error + string" where
  "accept_text_json raw =
     (case value_from_json raw of Inr (VText t) \<Rightarrow> Inr t | _ \<Rightarrow> Inl (AcInvalid ''record JSON text''))"

section \<open>Entries\<close>

datatype source_kind = SkBootstrap | SkDomain | SkTemporaryIntent | SkObservedFact

fun source_kind_as_str :: "source_kind \<Rightarrow> string" where
  "source_kind_as_str SkBootstrap = ''bootstrap''"
| "source_kind_as_str SkDomain = ''domain''"
| "source_kind_as_str SkTemporaryIntent = ''temporary-intent''"
| "source_kind_as_str SkObservedFact = ''observed-fact''"

record config_entry =
  ce_key :: installed_id
  ce_label :: string
  ce_binding :: proposed_binding
  ce_source :: source_kind

definition config_entry_new :: "installed_id \<Rightarrow> string \<Rightarrow> proposed_binding \<Rightarrow> accept_error + config_entry" where
  "config_entry_new key label b =
     (if label = [] \<or> length label > 256 \<or> has_control label then Inl (AcInvalid ''configuration label'')
      else Inr \<lparr>ce_key = key, ce_label = label, ce_binding = b, ce_source = SkDomain\<rparr>)"

definition config_entry_fingerprint :: "(string \<Rightarrow> seal_error + digest) \<Rightarrow> config_entry \<Rightarrow> accept_error + digest" where
  "config_entry_fingerprint tool e = map_err AcSeal (sha_hash tool (canonical_bytes (ce_binding e)))"

definition config_entry_encode :: "config_entry \<Rightarrow> string" where
  "config_entry_encode e =
     frames_encode [ce_key e, ce_label e, source_kind_as_str (ce_source e), canonical_bytes (ce_binding e)]"

definition config_source_parse :: "string \<Rightarrow> accept_error + source_kind" where
  "config_source_parse raw =
     (if raw = ''domain'' then Inr SkDomain
      else if raw = ''temporary-intent'' then Inr SkTemporaryIntent
      else Inl (AcInvalid ''meaning source''))"

definition config_entry_decode :: "string \<Rightarrow> accept_error + config_entry" where
  "config_entry_decode raw =
     and_then (accept_decode raw 4096 4) (\<lambda>f.
       if length f \<noteq> 4 then Inl (AcInvalid ''entry fields'')
       else (let canonical = split_on unit_separator (f ! 3)
             in if length canonical \<noteq> 14 \<or> canonical ! 0 \<noteq> ''binding-canonical-v2'' then Inl (AcInvalid ''binding version'')
                else
     and_then (map_err AcBinding (decode_propose (canonical_texts (tl canonical)))) (\<lambda>b.
     and_then (map_err (\<lambda>_. AcInvalid ''entry key'') (id_parse installed_id_kind (f ! 0))) (\<lambda>key.
     and_then (config_entry_new key (f ! 1) b) (\<lambda>result.
     and_then (config_source_parse (f ! 2)) (\<lambda>source.
       let e = result\<lparr>ce_source := source\<rparr>
       in if config_entry_encode e \<noteq> raw then Inl (AcInvalid ''noncanonical entry'') else Inr e))))))"

record observed_fact =
  of_id :: string
  of_generation :: u32
  of_actor :: string
  of_digest :: string

definition observed_fact_encode :: "observed_fact \<Rightarrow> string" where
  "observed_fact_encode x = frames_encode [of_id x, show_word (of_generation x), of_actor x, of_digest x]"

definition observed_fact_of :: "finding \<Rightarrow> observed_fact" where
  "observed_fact_of f = \<lparr>of_id = fi_id f, of_generation = fi_generation f, of_actor = fi_actor f, of_digest = fi_digest f\<rparr>"

section \<open>Configurations\<close>

record effective_config =
  ef_scope :: trusted_scope
  ef_revision :: binding_revision
  ef_reason :: string
  ef_entries :: "(string \<times> config_entry) list"
  ef_facts :: "observed_fact list"

definition config_bytes :: "effective_config \<Rightarrow> string" where
  "config_bytes c =
     frames_encode [''verdant-effective-v1'', scope_text (ef_scope c), show_word (ef_revision c), ef_reason c,
       frames_encode (map (config_entry_encode \<circ> snd) (ef_entries c)),
       frames_encode (map observed_fact_encode (ef_facts c))]"

text \<open>Names that are not UTF-8 are compared after a lossy conversion, which leaves ASCII prefixes and names alone.\<close>

definition check_environment_names :: "string list \<Rightarrow> accept_error + unit" where
  "check_environment_names names =
     (if list_ex (\<lambda>n. take 15 n = ''VERDANT_POLICY_'' \<or> n \<in> {''VERDANT_TARGET'', ''VERDANT_UNIT'', ''VERDANT_ROLE''}) names
      then Inl AcEnvironmentOverride else Inr ())"

fun resolve_items :: "trusted_scope \<Rightarrow> source_kind \<Rightarrow> config_entry list \<Rightarrow> string set \<Rightarrow> (string \<times> config_entry) list \<Rightarrow>
    accept_error + (string \<times> config_entry) list" where
  "resolve_items scope source [] seen m = Inr m"
| "resolve_items scope source (e # es) seen m =
     (if ce_key e \<in> seen then Inl (AcInvalid ''duplicate source key'')
      else if source = SkTemporaryIntent \<and> bt_get m (ce_key e) = None then Inl (AcInvalid ''intent needs a domain key'')
      else if pb_point_scope (ce_binding e) \<noteq> scope \<or> pb_endpoint_scope (ce_binding e) \<noteq> scope
      then Inl (AcInvalid ''configuration scope'')
      else resolve_items scope source es (insert (ce_key e) seen) (bt_insert (ce_key e) (e\<lparr>ce_source := source\<rparr>) m))"

definition resolve_source :: "trusted_scope \<Rightarrow> source_kind \<Rightarrow> config_entry list \<Rightarrow> (string \<times> config_entry) list \<Rightarrow>
    accept_error + (string \<times> config_entry) list" where
  "resolve_source scope source es m =
     (if length es > 32 then Inl (AcLimit ''configuration entries'') else resolve_items scope source es {} m)"

definition bootstrap_reason :: "gate_view \<Rightarrow> access_error + string" where
  "bootstrap_reason g =
     and_then (read_state (gv_horizon g) (gv_scan g)) (\<lambda>st.
     and_then (require_bootstrapped st) (\<lambda>_. Inr (br_reason (hd (as_bootstraps st)))))"

text \<open>The part of the resolution that follows the replay of the registry.\<close>

definition config_of :: "gate_view \<Rightarrow> registry \<Rightarrow> trusted_scope \<Rightarrow> config_entry list \<Rightarrow> config_entry list \<Rightarrow>
    accept_error + effective_config" where
  "config_of g r scope domain intent =
     and_then (map_err AcAccess (bootstrap_reason g)) (\<lambda>reason.
     and_then (resolve_source scope SkDomain domain []) (\<lambda>m.
     and_then (resolve_source scope SkTemporaryIntent intent m) (\<lambda>m.
       if m = [] then Inl (AcInvalid ''empty configuration'')
       else (let c = \<lparr>ef_scope = scope, ef_revision = rg_revision r, ef_reason = reason, ef_entries = m,
                      ef_facts = map observed_fact_of (rg_findings r)\<rparr>
             in if length (config_bytes c) > 16384 then Inl (AcLimit ''effective configuration bytes'') else Inr c))))"

definition resolve_config :: "string list \<Rightarrow> accept_error + string \<Rightarrow> accept_error + string \<Rightarrow> storage_error + string list list \<Rightarrow>
    gate_view \<Rightarrow> registry \<Rightarrow> trusted_scope \<Rightarrow> config_entry list \<Rightarrow> config_entry list \<Rightarrow>
    registry \<times> (accept_error + effective_config)" where
  "resolve_config names gate_path registry_path scan g r0 scope domain intent =
     (case and_then (check_environment_names names) (\<lambda>_.
           and_then gate_path (\<lambda>a. and_then registry_path (\<lambda>b.
             if a \<noteq> b then Inl (AcConflict ''source stores differ'') else Inr ()))) of
        Inl e \<Rightarrow> (r0, Inl e)
      | Inr _ \<Rightarrow> (case replay scan r0 of
          (r, Inl e) \<Rightarrow> (r, Inl (AcBinding e))
        | (r, Inr _) \<Rightarrow> (r, config_of g r scope domain intent)))"

fun decode_config_entries :: "trusted_scope \<Rightarrow> string list \<Rightarrow> (string \<times> config_entry) list \<Rightarrow>
    accept_error + (string \<times> config_entry) list" where
  "decode_config_entries scope [] m = Inr m"
| "decode_config_entries scope (raw # raws) m =
     and_then (config_entry_decode raw) (\<lambda>e.
       if pb_point_scope (ce_binding e) \<noteq> scope \<or> pb_endpoint_scope (ce_binding e) \<noteq> scope \<or> bt_get m (ce_key e) \<noteq> None
       then Inl (AcInvalid ''effective entry scope/key'')
       else decode_config_entries scope raws (bt_insert (ce_key e) e m))"

definition observed_fact_decode :: "string \<Rightarrow> accept_error + observed_fact" where
  "observed_fact_decode raw =
     and_then (accept_decode raw 4096 4) (\<lambda>p.
       if length p \<noteq> 4 then Inl (AcInvalid ''finding reference'')
       else
     and_then (map_err AcBinding (finding_id_parse (p ! 0))) (\<lambda>_.
     and_then (accept_u32 (p ! 1)) (\<lambda>generation.
       Inr \<lparr>of_id = p ! 0, of_generation = generation, of_actor = p ! 2, of_digest = p ! 3\<rparr>)))"

definition config_decode :: "string \<Rightarrow> accept_error + effective_config" where
  "config_decode raw =
     and_then (accept_decode raw 16384 6) (\<lambda>f.
       if length f \<noteq> 6 \<or> f ! 0 \<noteq> ''verdant-effective-v1'' then Inl (AcInvalid ''effective version'')
       else
     and_then (map_err (\<lambda>_. AcInvalid ''effective scope'') (trusted_scope_parse (f ! 1))) (\<lambda>scope.
     and_then (accept_u32 (f ! 2)) (\<lambda>revision.
     and_then (accept_decode (f ! 4) 16384 32) (\<lambda>raws.
     and_then (decode_config_entries scope raws []) (\<lambda>m.
       if m = [] then Inl (AcInvalid ''empty effective entries'')
       else
     and_then (accept_decode (f ! 5) 16384 256) (\<lambda>facts.
     and_then (collect_res observed_fact_decode facts) (\<lambda>facts.
       let c = \<lparr>ef_scope = scope, ef_revision = revision, ef_reason = f ! 3, ef_entries = m, ef_facts = facts\<rparr>
       in if config_bytes c \<noteq> raw then Inl (AcInvalid ''noncanonical effective config'') else Inr c)))))))"

section \<open>The difference of two configurations\<close>

record impact_diff =
  im_added :: "string set"
  im_removed :: "string set"
  im_invalidated :: "string set"
  im_preserved :: "string set"
  im_cosmetic :: "string set"
  im_provenance :: bool

fun impact_entry :: "(string \<times> config_entry) list \<Rightarrow> string \<times> config_entry \<Rightarrow> impact_diff \<Rightarrow> impact_diff" where
  "impact_entry old (k, e) d =
     (case bt_get old k of
        None \<Rightarrow> d\<lparr>im_added := insert k (im_added d)\<rparr>
      | Some p \<Rightarrow>
          if ce_binding e \<noteq> ce_binding p then d\<lparr>im_invalidated := insert k (im_invalidated d)\<rparr>
          else (let d' = d\<lparr>im_preserved := insert k (im_preserved d)\<rparr>
                in if ce_label e \<noteq> ce_label p then d'\<lparr>im_cosmetic := insert k (im_cosmetic d')\<rparr> else d'))"

definition impact_from :: "effective_config \<Rightarrow> effective_config \<Rightarrow> impact_diff" where
  "impact_from new old =
     (let d = fold (impact_entry (ef_entries old)) (ef_entries new)
            \<lparr>im_added = {}, im_removed = {}, im_invalidated = {}, im_preserved = {}, im_cosmetic = {}, im_provenance = False\<rparr>
      in d\<lparr>im_removed := set (filter (\<lambda>k. bt_get (ef_entries new) k = None) (map fst (ef_entries old))),
           im_provenance := (ef_reason new \<noteq> ef_reason old \<or> ef_facts new \<noteq> ef_facts old \<or> ef_revision new \<noteq> ef_revision old \<or>
             list_ex (\<lambda>(k, e). case bt_get (ef_entries old) k of Some p \<Rightarrow> ce_source p \<noteq> ce_source e | None \<Rightarrow> False) (ef_entries new))\<rparr>)"

end
