(* ===== verification/Publication.thy ===== *)
theory Publication
  imports Effective Outbox_Store
begin

text \<open>
  Staging a configuration and publishing it under a seal (\<open>src/src/accept/publication.rs\<close>), over the
  outbox that every process of the node shares: what an operation reads and writes goes to the tables of
  one world, and other processes may write between any two of its steps.
\<close>

section \<open>One operation among others\<close>

text \<open>
  An operation asks the store several times. Before each request the others act, and each request meets an
  environment and a seal store of its own.
\<close>

record moments =
  mo_names :: "string list"
  mo_env :: "nat \<Rightarrow> environment"
  mo_others :: "nat \<Rightarrow> outbox_db world \<Rightarrow> outbox_db world"
  mo_seals :: "nat \<Rightarrow> seal_view"

definition exec_script :: "environment \<Rightarrow> (outbox_db \<Rightarrow> string list list) \<Rightarrow> outbox_db world \<Rightarrow> accept_error + string list list" where
  "exec_script se query w = map_err accept_storage (query_rows se query w)"

section \<open>Guarded rows\<close>

text \<open>A condition as it is sent, with what it says of the tables.\<close>

record guard =
  gd_text :: string
  gd_holds :: "outbox_db \<Rightarrow> bool"

definition constraint_failed :: "string \<Rightarrow> storage_error" where
  "constraint_failed name = sql_failure (''CHECK constraint failed: '' @ name)"

text \<open>
  A batch runs its statements only where the condition holds; it answers the last row and the number of
  changes of the last statement.
\<close>

definition guarded_batch :: "guard \<Rightarrow> outbox_db body \<Rightarrow> outbox_db body" where
  "guarded_batch g b =
     \<lparr>bd_text = ''CREATE TEMP TABLE access_guard(ok INTEGER NOT NULL CONSTRAINT access_guard_unchanged CHECK(ok=1)); INSERT INTO access_guard VALUES(CASE WHEN ('' @
        gd_text g @ '') THEN 1 ELSE 0 END); '' @ bd_text b @ '' SELECT last_insert_rowid(); SELECT changes();'',
      bd_run = (\<lambda>d. if gd_holds g d then bd_run b d else Inl (constraint_failed ''access_guard_unchanged''))\<rparr>"

definition prepare_guarded_batch :: "operation_id \<Rightarrow> string \<Rightarrow> guard \<Rightarrow> outbox_db body \<Rightarrow> nat \<Rightarrow> outbox_db prepared" where
  "prepare_guarded_batch generated identity g b payload =
     (prepared_new generated identity (guarded_batch g b) ShapeInsert)\<lparr>pm_payload := payload\<rparr>"

definition control_row :: "string \<Rightarrow> string \<Rightarrow> string \<Rightarrow> string \<Rightarrow> nat \<Rightarrow> int \<Rightarrow> table_row" where
  "control_row operation entity sensor json seq i =
     \<lparr>tr_id = i, tr_operation = operation, tr_entity = entity, tr_sensor = sensor, tr_value = json, tr_unit = ''count'',
      tr_source = ''0'', tr_receipt = ''0'', tr_ingestion = ''0'', tr_generation = ''gen-1'', tr_seq = show_nat seq,
      tr_status = Queued, tr_claimed = None\<rparr>"

definition insert_row :: "table_row \<Rightarrow> string \<Rightarrow> string" where
  "insert_row r condition =
     ''INSERT INTO outbox(operation,entity,sensor,value_json,unit,source_ms,receipt_ms,ingestion_ms,generation,seq,status,claimed_by,created_nanos) SELECT '' @
     join_with '','' [sql_quote (tr_operation r), sql_quote (tr_entity r), sql_quote (tr_sensor r), sql_quote (tr_value r)] @
     '','' @ sql_quote ''count'' @ '','' @ sql_quote ''0'' @ '','' @ sql_quote ''0'' @ '','' @ sql_quote ''0'' @ '','' @ sql_quote ''gen-1'' @ '','' @
     sql_quote (tr_seq r) @ '','' @ sql_quote ''queued'' @ '',NULL,'' @ sql_quote ''0'' @ condition @ '';''"

definition append_row :: "(int \<Rightarrow> table_row) \<Rightarrow> outbox_db \<Rightarrow> storage_error + outbox_db \<times> string list list" where
  "append_row row d =
     (if od_last d \<ge> max_rowid then Inl (sql_failure ''database or disk is full'')
      else (let i = od_last d + 1
            in Inr (d\<lparr>od_rows := od_rows d @ [row i], od_last := i\<rparr>, [[show_int i], [''1'']])))"

definition insert_control :: "(int \<Rightarrow> table_row) \<Rightarrow> outbox_db body" where
  "insert_control row = \<lparr>bd_text = insert_row (row 0) [], bd_run = append_row row\<rparr>"

definition rows_of :: "string \<Rightarrow> outbox_db \<Rightarrow> table_row list" where
  "rows_of operation d = filter (\<lambda>r. tr_operation r = operation) (od_rows d)"

definition count_rows :: "(table_row \<Rightarrow> bool) \<Rightarrow> outbox_db \<Rightarrow> nat" where
  "count_rows p d = length (filter p (od_rows d))"

section \<open>Outcomes\<close>

fun accept_committed_row :: "mutation_outcome \<Rightarrow> accept_error + int" where
  "accept_committed_row (MCommitted _ rows) =
     (if 1 < length rows \<and> rows ! 1 = [''0''] then Inl (AcConflict ''zero affected rows'')
      else if length rows \<noteq> 2 \<or> rows ! 1 \<noteq> [''1''] then Inl (AcInvalid ''accept receipt shape'')
      else ok_or (AcInvalid ''accept receipt row'') (committed_id rows))"
| "accept_committed_row (MNotCommitted _ e) =
     (case e of
        SqliteFailure detail \<Rightarrow>
          if contains_text ''CHECK constraint failed: accept_expected_changed'' detail
          then Inl (AcConflict ''zero affected rows: expected accepted revision lost'')
          else if contains_text ''CHECK constraint failed: access_guard_unchanged'' detail
          then Inl (AcConflict ''authority, binding or publication changed'')
          else Inl (accept_storage e)
      | _ \<Rightarrow> Inl (accept_storage e))"
| "accept_committed_row (MConflict _ detail) = Inl (AcConflict detail)"
| "accept_committed_row (MUnknown operation detail) = Inl (AcUnknown operation detail)"

text \<open>A submission, and its reconciliation at the next moment when the outcome is unknown.\<close>

definition submit_settled :: "moments \<Rightarrow> nat \<Rightarrow> outbox_db prepared \<Rightarrow> outbox_db world \<Rightarrow> outbox_db world \<times> mutation_outcome \<times> bool" where
  "submit_settled mo k p w =
     (case submit_mutation (mo_env mo k) p (mo_others mo k w) of
        (p', w', MUnknown _ _) \<Rightarrow>
          (let v = mo_others mo (k + 1) w' in (v, reconcile_mutation (mo_env mo (k + 1)) p' v, True))
      | (_, w', out) \<Rightarrow> (w', out, False))"

section \<open>Staging\<close>

record staged =
  st_operation :: operation_id
  st_config :: effective_config
  st_value :: string

definition staged_root :: "staged \<Rightarrow> accept_error + row_key" where
  "staged_root st = map_err AcSeal (row_key_new (st_operation st) 1)"

definition staged_guard :: "staged \<Rightarrow> guard" where
  "staged_guard st =
     \<lparr>gd_text = ''(SELECT COUNT(*) FROM outbox WHERE operation='' @ sql_quote (st_operation st) @
        '')=1 AND EXISTS(SELECT 1 FROM outbox WHERE operation='' @ sql_quote (st_operation st) @ '' AND seq='' @ sql_quote ''1'' @
        '' AND value_json='' @ sql_quote (st_value st) @ '')'',
      gd_holds = (\<lambda>d. length (rows_of (st_operation st) d) = 1 \<and>
        list_ex (\<lambda>r. tr_seq r = ''1'' \<and> tr_value r = st_value st) (rows_of (st_operation st) d))\<rparr>"

definition stage_operation :: "operation_id \<Rightarrow> accept_error + unit" where
  "stage_operation operation =
     (if take 13 operation \<noteq> ''accept-stage-'' then Inl (AcInvalid ''staging operation namespace'') else Inr ())"

definition staged_row :: "staged \<Rightarrow> int \<Rightarrow> table_row" where
  "staged_row st = control_row (st_operation st) ''accept-config'' ''accept-staged'' (st_value st) 1"

definition absent_guard :: "operation_id \<Rightarrow> guard" where
  "absent_guard operation =
     \<lparr>gd_text = ''NOT EXISTS(SELECT 1 FROM outbox WHERE operation='' @ sql_quote operation @ '')'',
      gd_holds = (\<lambda>d. rows_of operation d = [])\<rparr>"

definition stage_ticket :: "string \<Rightarrow> operation_id \<Rightarrow> staged \<Rightarrow> outbox_db prepared" where
  "stage_ticket identity generated st =
     with_operation (st_operation st)
       (prepare_guarded_batch generated identity (absent_guard (st_operation st)) (insert_control (staged_row st)) (length (st_value st)))"

definition stage_config :: "moments \<Rightarrow> string \<Rightarrow> operation_id \<Rightarrow> operation_id \<Rightarrow> effective_config \<Rightarrow> row_key list \<Rightarrow>
    outbox_db world \<Rightarrow> outbox_db world \<times> (accept_error + staged)" where
  "stage_config mo identity generated operation config findings w =
     (case and_then (check_environment_names (mo_names mo)) (\<lambda>_.
           and_then (stage_operation operation) (\<lambda>_.
             map_err AcSeal (content_node_new (config_bytes config) findings))) of
        Inl e \<Rightarrow> (w, Inl e)
      | Inr node \<Rightarrow>
          (let st = \<lparr>st_operation = operation, st_config = config, st_value = value_to_json (content_node_value node)\<rparr>
           in case submit_settled mo 0 (stage_ticket identity generated st) w of
                (w', out, _) \<Rightarrow> (w', map_ok (\<lambda>_. st) (accept_committed_row out))))"

definition staged_query :: "operation_id \<Rightarrow> outbox_db \<Rightarrow> string list list" where
  "staged_query operation d =
     map (\<lambda>r. [sql_quote (tr_value r), tr_seq r, tr_entity r, tr_sensor r]) (take 2 (rows_of operation d))"

definition staged_of_rows :: "operation_id \<Rightarrow> string list list \<Rightarrow> accept_error + staged" where
  "staged_of_rows operation rows =
     (case rows of
        [row] \<Rightarrow>
          if length row \<noteq> 4 \<or> row ! 1 \<noteq> ''1'' \<or> row ! 2 \<noteq> ''accept-config'' \<or> row ! 3 \<noteq> ''accept-staged''
          then Inl (AcInvalid ''staged row columns'')
          else
     and_then (map_err AcBinding (b_unquote_column (row ! 0))) (\<lambda>value.
     and_then (ok_or (AcInvalid ''NULL stage'') value) (\<lambda>json.
     and_then (accept_text_json json) (\<lambda>raw.
     and_then (accept_decode raw 262144 4) (\<lambda>content.
       if length content \<noteq> 4 \<or> content ! 0 \<noteq> ''verdant-content-v1'' \<or> content ! 1 \<noteq> ''valid-structural''
       then Inl (AcInvalid ''staged content version/status'')
       else map_ok (\<lambda>config. \<lparr>st_operation = operation, st_config = config, st_value = json\<rparr>) (config_decode (content ! 2))))))
      | _ \<Rightarrow> Inl (AcInvalid ''missing/ambiguous staged row''))"

definition read_staged :: "environment \<Rightarrow> operation_id \<Rightarrow> outbox_db world \<Rightarrow> accept_error + staged" where
  "read_staged se operation w =
     and_then (stage_operation operation) (\<lambda>_.
     and_then (exec_script se (staged_query operation) w) (staged_of_rows operation))"

section \<open>Publication\<close>

record sealed =
  sd_staged :: staged
  sd_identity :: digest
  sd_manifest :: manifest

definition seal_row_json :: "digest \<Rightarrow> manifest \<Rightarrow> string" where
  "seal_row_json identity mf = value_to_json (VText (frames_encode [''seal-row-v1'', identity, manifest_bytes mf]))"

definition release_row_json :: "digest \<Rightarrow> string" where
  "release_row_json identity = value_to_json (VText (frames_encode [''seal-release-v1'', identity]))"

definition sealed_guard :: "sealed \<Rightarrow> guard" where
  "sealed_guard sd =
     \<lparr>gd_text = ''('' @ gd_text (staged_guard (sd_staged sd)) @ '') AND (SELECT COUNT(*) FROM outbox WHERE operation='' @
        sql_quote ''seal-revision-v1'' @ '' AND value_json='' @ sql_quote (seal_row_json (sd_identity sd) (sd_manifest sd)) @
        '')=1 AND NOT EXISTS(SELECT 1 FROM outbox WHERE operation='' @ sql_quote ''seal-release-v1'' @ '' AND value_json='' @
        sql_quote (release_row_json (sd_identity sd)) @ '')'',
      gd_holds = (\<lambda>d. gd_holds (staged_guard (sd_staged sd)) d \<and>
        count_rows (\<lambda>r. tr_operation r = op_seal_text \<and> tr_value r = seal_row_json (sd_identity sd) (sd_manifest sd)) d = 1 \<and>
        count_rows (\<lambda>r. tr_operation r = op_release_text \<and> tr_value r = release_row_json (sd_identity sd)) d = 0)\<rparr>"

definition approves :: "effective_config \<Rightarrow> digest \<Rightarrow> string list \<Rightarrow> bool" where
  "approves config digest p \<longleftrightarrow>
     length p = 7 \<and> p ! 3 = ''synthetic-fnv1a64-not-authority'' \<and> p ! 5 = ''binding-canonical-v2-sha256'' \<and> p ! 6 = digest \<and>
     list_ex (\<lambda>fact. of_id fact = p ! 0 \<and> show_word (of_generation fact) = p ! 1 \<and> of_actor fact = p ! 2 \<and> of_digest fact = p ! 4)
       (ef_facts config)"

fun approve_entries :: "(string \<Rightarrow> seal_error + digest) \<Rightarrow> effective_config \<Rightarrow> string list list \<Rightarrow> config_entry list \<Rightarrow> accept_error + unit" where
  "approve_entries tool config fingerprints [] = Inr ()"
| "approve_entries tool config fingerprints (e # es) =
     and_then (config_entry_fingerprint tool e) (\<lambda>digest.
       if list_ex (approves config digest) fingerprints then approve_entries tool config fingerprints es
       else Inl AcApprovalMismatch)"

definition check_manifest :: "staged \<Rightarrow> (string \<Rightarrow> seal_error + digest) \<Rightarrow> manifest \<Rightarrow> accept_error + unit" where
  "check_manifest st tool mf =
     and_then (accept_decode (manifest_bytes mf) max_manifest_bytes 14) (\<lambda>f.
       if length f \<noteq> 14 \<or> f ! 0 \<noteq> ''verdant-seal-v1'' \<or> f ! 1 \<noteq> ''valid-structural-not-qualified'' \<or>
          f ! 2 \<noteq> scope_text (ef_scope (st_config st)) \<or> f ! 3 \<noteq> show_word (ef_revision (st_config st))
       then Inl (AcInvalid ''seal scope/revision/status'')
       else
     and_then (accept_decode (f ! 10) max_manifest_bytes max_nodes) (\<lambda>roots.
       if frames_encode [st_operation st, ''1''] \<notin> set roots
       then Inl (AcConflict ''seal does not publish effective config root'')
       else
     and_then (collect_res (\<lambda>raw. accept_decode raw 4096 7) (mf_findings mf)) (\<lambda>fingerprints.
       approve_entries tool (st_config st) fingerprints (map snd (ef_entries (st_config st))))))"

definition guard_query :: "guard \<Rightarrow> outbox_db \<Rightarrow> string list list" where
  "guard_query g d = [[if gd_holds g d then ''1'' else ''0'']]"

text \<open>The staged row is read before the seal is captured, the guard is asked afterwards: others may write in between.\<close>

definition check_seal :: "moments \<Rightarrow> nat \<Rightarrow> staged \<Rightarrow> digest \<Rightarrow> outbox_db world \<Rightarrow> accept_error + manifest" where
  "check_seal mo k st identity w =
     and_then (read_staged (mo_env mo k) (st_operation st) w) (\<lambda>found.
       if found \<noteq> st then Inl (AcConflict ''staged bytes differ'')
       else
     and_then (map_err AcBlocked (capture_simulation (mo_seals mo k) identity)) (\<lambda>mf.
     and_then (check_manifest st (sv_tool (ss_source (mo_seals mo k))) mf) (\<lambda>_.
     and_then (exec_script (mo_env mo (k + 1)) (guard_query (sealed_guard \<lparr>sd_staged = st, sd_identity = identity, sd_manifest = mf\<rparr>))
         (mo_others mo (k + 1) w)) (\<lambda>rows.
       if rows \<noteq> [[''1'']] then Inl (AcConflict ''publication is foreign or released'') else Inr mf))))"

definition sealed_verify :: "moments \<Rightarrow> nat \<Rightarrow> sealed \<Rightarrow> outbox_db world \<Rightarrow> accept_error + unit" where
  "sealed_verify mo k sd w =
     and_then (check_seal mo k (sd_staged sd) (sd_identity sd) w) (\<lambda>checked'.
       if checked' \<noteq> sd_manifest sd then Inl (AcConflict ''seal bytes changed'') else Inr ())"

definition publish :: "moments \<Rightarrow> staged \<Rightarrow> digest \<Rightarrow> outbox_db world \<Rightarrow> accept_error + sealed" where
  "publish mo st identity w =
     and_then (check_environment_names (mo_names mo)) (\<lambda>_.
       map_ok (\<lambda>mf. \<lparr>sd_staged = st, sd_identity = identity, sd_manifest = mf\<rparr>) (check_seal mo 0 st identity (mo_others mo 0 w)))"

end
