(* ===== verification/Acceptance.thy ===== *)
theory Acceptance
  imports Publication
begin

text \<open>
  Acceptance (\<open>src/src/accept/store.rs\<close>): one revision after the other, each an event row of its scope in
  the outbox, admitted by a compare-and-set on the number of events under the guards of the authority, of
  the registry and of the publication.
\<close>

section \<open>Requests and events\<close>

record acceptance_request =
  aq_operation :: operation_id
  aq_expected :: accepted_revision
  aq_scope :: trusted_scope
  aq_staged :: operation_id
  aq_seal :: digest

record accepted =
  ad_row :: int
  ad_revision :: accepted_revision
  ad_request :: acceptance_request
  ad_actor :: string
  ad_reconciled :: bool

record pending_acceptance =
  pa_request :: acceptance_request
  pa_ticket :: "outbox_db prepared"
  pa_sealed :: sealed

definition accept_event :: string where "accept_event = ''accept-revision-v1''"

definition accept_entity :: "trusted_scope \<Rightarrow> string" where
  "accept_entity scope = ''accept-'' @ scope_text scope"

definition accept_predicate :: "trusted_scope \<Rightarrow> string" where
  "accept_predicate scope =
     ''operation='' @ [squote] @ accept_event @ [squote] @ '' AND entity='' @ sql_quote (accept_entity scope)"

definition accept_where :: "trusted_scope \<Rightarrow> table_row \<Rightarrow> bool" where
  "accept_where scope r \<longleftrightarrow> tr_operation r = accept_event \<and> tr_entity r = accept_entity scope"

definition accept_event_bytes :: "acceptance_request \<Rightarrow> string \<Rightarrow> accept_error + string" where
  "accept_event_bytes q actor =
     map_ok (\<lambda>target. frames_encode [''verdant-accepted-v1'', aq_operation q, show_word (aq_expected q), show_word target,
         scope_text (aq_scope q), aq_staged q, aq_seal q, actor, ''accepted''])
       (accepted_revision_next (aq_expected q))"

section \<open>History\<close>

text \<open>The events of a scope by row identity, one more than the bound at most.\<close>

definition event_columns :: "table_row \<Rightarrow> string list" where
  "event_columns r = [show_int (tr_id r), sql_quote (tr_value r), tr_seq r, tr_sensor r]"

definition event_query :: "(table_row \<Rightarrow> bool) \<Rightarrow> outbox_db \<Rightarrow> string list list" where
  "event_query p d =
     map event_columns (take (unat max_accepted + 1) (filter p (od_rows d)))"

text \<open>The identity of an event row and the text it holds.\<close>

definition event_text :: "string \<Rightarrow> string list \<Rightarrow> accept_error + int \<times> string" where
  "event_text missing row =
     and_then (accept_i64 (row ! 0)) (\<lambda>row_id.
     and_then (map_err AcBinding (b_unquote_column (row ! 1))) (\<lambda>json.
     and_then (ok_or (AcInvalid missing) json) (\<lambda>json.
       map_ok (\<lambda>raw. (row_id, raw)) (accept_text_json json))))"

definition accept_event_row :: "trusted_scope \<Rightarrow> nat \<Rightarrow> string list \<Rightarrow> string set \<Rightarrow> accept_error + accepted" where
  "accept_event_row scope index row operations =
     (if length row \<noteq> 4 \<or> row ! 2 \<noteq> show_nat (index + 1) \<or> row ! 3 \<noteq> ''accept-event''
      then Inl (AcInvalid ''accepted sequence/columns'')
      else
     and_then (event_text ''NULL accepted event'' row) (\<lambda>(row_id, raw).
     and_then (accept_decode raw 8192 9) (\<lambda>f.
       if length f \<noteq> 9 \<or> f ! 0 \<noteq> ''verdant-accepted-v1'' \<or> f ! 4 \<noteq> scope_text scope \<or> f ! 8 \<noteq> ''accepted'' \<or>
          f ! 2 \<noteq> show_nat index \<or> f ! 3 \<noteq> row ! 2 \<or> row_id \<le> 0 \<or> f ! 1 \<in> operations
       then Inl (AcInvalid ''accepted event chain'')
       else
     and_then (map_err (\<lambda>_. AcInvalid ''event operation'') (id_parse operation_id_kind (f ! 1))) (\<lambda>operation.
     and_then (map_err (\<lambda>_. AcInvalid ''event stage'') (id_parse operation_id_kind (f ! 5))) (\<lambda>staged_operation.
     and_then (accepted_revision_new (of_nat index)) (\<lambda>expected.
     and_then (map_err AcSeal (digest_parse (f ! 6))) (\<lambda>seal.
       let q = \<lparr>aq_operation = operation, aq_expected = expected, aq_scope = scope, aq_staged = staged_operation, aq_seal = seal\<rparr>
       in and_then (accept_event_bytes q (f ! 7)) (\<lambda>bytes.
            if bytes \<noteq> raw then Inl (AcInvalid ''noncanonical accepted event'')
            else map_ok (\<lambda>target. \<lparr>ad_row = row_id, ad_revision = target, ad_request = q, ad_actor = f ! 7, ad_reconciled = False\<rparr>)
                   (accepted_revision_next expected)))))))))"

fun accept_event_rows :: "trusted_scope \<Rightarrow> nat \<Rightarrow> string list list \<Rightarrow> string set \<Rightarrow> accept_error + accepted list" where
  "accept_event_rows scope index [] operations = Inr []"
| "accept_event_rows scope index (row # rows) operations =
     and_then (accept_event_row scope index row operations) (\<lambda>a.
       map_ok (\<lambda>as. a # as) (accept_event_rows scope (index + 1) rows (insert (aq_operation (ad_request a)) operations)))"

definition accept_history_of :: "trusted_scope \<Rightarrow> string list list \<Rightarrow> accept_error + accepted list" where
  "accept_history_of scope rows =
     (if length rows > unat max_accepted then Inl (AcLimit ''accepted history'') else accept_event_rows scope 0 rows {})"

definition accept_history :: "environment \<Rightarrow> trusted_scope \<Rightarrow> outbox_db world \<Rightarrow> accept_error + accepted list" where
  "accept_history se scope w = and_then (exec_script se (event_query (accept_where scope)) w) (accept_history_of scope)"

definition last_of :: "'a list \<Rightarrow> 'a option" where
  "last_of xs = (if xs = [] then None else Some (last xs))"

definition accept_current :: "environment \<Rightarrow> trusted_scope \<Rightarrow> outbox_db world \<Rightarrow> accept_error + accepted option" where
  "accept_current se scope w = map_ok last_of (accept_history se scope w)"

definition accept_transition :: "stage \<Rightarrow> accept_error + unit" where
  "accept_transition requested =
     (case requested of
        StQualified \<Rightarrow> Inl (AcNotYet requested)
      | StActivated \<Rightarrow> Inl (AcInvalid ''use activation request API'')
      | _ \<Rightarrow> Inl (AcInvalid ''use stage/sealed/prepare APIs''))"

definition accept_read_commit :: "environment \<Rightarrow> acceptance_request \<Rightarrow> int \<Rightarrow> bool \<Rightarrow> outbox_db world \<Rightarrow> accept_error + accepted" where
  "accept_read_commit se q row_id reconciled w =
     and_then (accept_history se (aq_scope q) w) (\<lambda>history.
     and_then (ok_or (AcConflict ''receipt does not identify an accepted event'') (find (\<lambda>a. ad_row a = row_id) history)) (\<lambda>found.
       if ad_request found \<noteq> q then Inl (AcConflict ''operation identity reused with different acceptance'')
       else Inr (found\<lparr>ad_reconciled := reconciled\<rparr>)))"

section \<open>Admission\<close>

text \<open>
  The event is inserted only while the scope has as many events as the request expects. The row that a lost
  race does not insert fails the constraint on the number of results. \<open>live\<close> says whether the clock of the
  engine is still before the expiry of the capability when the statement runs.
\<close>

definition accept_cas :: "acceptance_request \<Rightarrow> string" where
  "accept_cas q = '' WHERE (SELECT COUNT(*) FROM outbox WHERE '' @ accept_predicate (aq_scope q) @ '')='' @ show_word (aq_expected q)"

definition accept_row :: "acceptance_request \<Rightarrow> string \<Rightarrow> int \<Rightarrow> table_row" where
  "accept_row q json = control_row accept_event (accept_entity (aq_scope q)) ''accept-event'' json (unat (aq_expected q) + 1)"

definition accept_body :: "acceptance_request \<Rightarrow> string \<Rightarrow> int option \<Rightarrow> bool \<Rightarrow> outbox_db body" where
  "accept_body q json expiry live =
     \<lparr>bd_text =
        (case expiry of None \<Rightarrow> []
         | Some t \<Rightarrow> ''INSERT INTO access_guard VALUES(CASE WHEN CAST(unixepoch('' @ sql_quote ''subsec'' @ '')*1000 AS INTEGER)<'' @
             show_int t @ '' THEN 1 ELSE 0 END);'') @
        ''CREATE TEMP TABLE accept_result(id INTEGER);'' @ insert_row (accept_row q json 0) (accept_cas q) @
        ''INSERT INTO accept_result SELECT last_insert_rowid() WHERE changes()=1; CREATE TEMP TABLE accept_changed(ok INTEGER NOT NULL CONSTRAINT accept_expected_changed CHECK(ok=1)); INSERT INTO accept_changed SELECT CASE WHEN (SELECT COUNT(*) FROM accept_result)=1 THEN 1 ELSE 0 END; CREATE TEMP TABLE accept_alias(id INTEGER PRIMARY KEY); INSERT INTO accept_alias SELECT id FROM accept_result;'',
      bd_run = (\<lambda>d.
        if expiry \<noteq> None \<and> \<not> live then Inl (constraint_failed ''access_guard_unchanged'')
        else if count_rows (accept_where (aq_scope q)) d \<noteq> unat (aq_expected q)
        then Inl (constraint_failed ''accept_expected_changed'')
        else append_row (accept_row q json) d)\<rparr>"

definition both :: "guard \<Rightarrow> guard \<Rightarrow> guard \<Rightarrow> guard" where
  "both a b c =
     \<lparr>gd_text = ''('' @ gd_text a @ '') AND ('' @ gd_text b @ '') AND ('' @ gd_text c @ '')'',
      gd_holds = (\<lambda>d. gd_holds a d \<and> gd_holds b d \<and> gd_holds c d)\<rparr>"

text \<open>
  What a preparation is given beside the store: the registry and the gate as it sees them, and the
  meaning of the conditions these two compose.
\<close>

record prepare_view =
  vw_store_path :: "accept_error + string"
  vw_registry_path :: "accept_error + string"
  vw_scan :: "storage_error + string list list"
  vw_gate :: gate_view
  vw_authority :: authority_view
  vw_sql :: "string \<Rightarrow> outbox_db \<Rightarrow> bool"
  vw_live :: "int \<Rightarrow> bool"

definition accept_ticket :: "prepare_view \<Rightarrow> string \<Rightarrow> operation_id \<Rightarrow> authority \<Rightarrow> string \<Rightarrow> sealed \<Rightarrow> acceptance_request \<Rightarrow>
    string \<Rightarrow> outbox_db prepared" where
  "accept_ticket pv identity generated auth registry_guard sd q json =
     (let expiry = authority_expiry auth
      in with_operation (aq_operation q)
           (prepare_guarded_batch generated identity
             (both \<lparr>gd_text = au_guard auth, gd_holds = vw_sql pv (au_guard auth)\<rparr>
                \<lparr>gd_text = registry_guard, gd_holds = vw_sql pv registry_guard\<rparr> (sealed_guard sd))
             (accept_body q json expiry (case expiry of None \<Rightarrow> True | Some t \<Rightarrow> vw_live pv t)) (length json)))"

definition accept_prepare_in :: "moments \<Rightarrow> prepare_view \<Rightarrow> string \<Rightarrow> operation_id \<Rightarrow> operation_id \<Rightarrow> accepted_revision \<Rightarrow> sealed \<Rightarrow>
    credential \<Rightarrow> registry \<Rightarrow> outbox_db world \<Rightarrow> accept_error + pending_acceptance" where
  "accept_prepare_in mo pv identity generated operation expected sd credential r w =
     (let config = st_config (sd_staged sd); w = mo_others mo 0 w
      in
     and_then (map_err AcBinding (require_revision r (ef_revision config))) (\<lambda>_.
     and_then (map_err AcAccess (bootstrap_reason (vw_gate pv))) (\<lambda>reason.
       if reason \<noteq> ef_reason config then Inl (AcConflict ''bootstrap source does not match publication'')
       else
     and_then (accept_history (mo_env mo 0) (ef_scope config) w) (\<lambda>_.
     and_then (sealed_verify mo 1 sd (mo_others mo 1 w)) (\<lambda>_.
     and_then (map_err AcBinding (authority_of (vw_authority pv) (Some credential) (ef_scope config) Drive)) (\<lambda>auth.
       let q = \<lparr>aq_operation = operation, aq_expected = expected, aq_scope = ef_scope config, aq_staged = st_operation (sd_staged sd),
                aq_seal = sd_identity sd\<rparr>
       in and_then (accept_event_bytes q (actor_fields (au_report auth))) (\<lambda>raw.
            Inr \<lparr>pa_request = q, pa_ticket = accept_ticket pv identity generated auth (rg_guard r) sd q (value_to_json (VText raw)),
                 pa_sealed = sd\<rparr>)))))))"

definition accept_prepare :: "moments \<Rightarrow> prepare_view \<Rightarrow> string \<Rightarrow> operation_id \<Rightarrow> operation_id \<Rightarrow> accepted_revision \<Rightarrow> sealed \<Rightarrow>
    credential \<Rightarrow> registry \<Rightarrow> outbox_db world \<Rightarrow> registry \<times> (accept_error + pending_acceptance)" where
  "accept_prepare mo pv identity generated operation expected sd credential r0 w =
     (case and_then (check_environment_names (mo_names mo)) (\<lambda>_.
           and_then (accepted_revision_next expected) (\<lambda>_.
           and_then (vw_store_path pv) (\<lambda>a. and_then (vw_registry_path pv) (\<lambda>b.
             if a \<noteq> b then Inl (AcConflict ''acceptance and binding stores differ'') else Inr ())))) of
        Inl e \<Rightarrow> (r0, Inl e)
      | Inr _ \<Rightarrow> (case replay (vw_scan pv) r0 of
          (r, Inl e) \<Rightarrow> (r, Inl (AcBinding e))
        | (r, Inr _) \<Rightarrow> (r, accept_prepare_in mo pv identity generated operation expected sd credential r w)))"

section \<open>Submission\<close>

text \<open>A ticket that already has a receipt is answered from it; otherwise the seal is checked again and the ticket submitted.\<close>

definition accept_read_error :: "(accept_error \<Rightarrow> string) \<Rightarrow> operation_id \<Rightarrow> accept_error \<Rightarrow> accept_error" where
  "accept_read_error debug operation e =
     (case e of
        AcConflict _ \<Rightarrow> e
      | _ \<Rightarrow> AcUnknown operation (''committed event; read failed: '' @ accept_error_display debug e))"

definition accept_submit :: "moments \<Rightarrow> (accept_error \<Rightarrow> string) \<Rightarrow> pending_acceptance \<Rightarrow> outbox_db world \<Rightarrow>
    outbox_db world \<times> (accept_error + accepted)" where
  "accept_submit mo debug pa w =
     (case check_environment_names (mo_names mo) of
        Inl e \<Rightarrow> (w, Inl e)
      | Inr _ \<Rightarrow>
          (let w0 = mo_others mo 0 w
           in case reconcile_mutation (mo_env mo 0) (pa_ticket pa) w0 of
                MNotCommitted _ _ \<Rightarrow>
                  (let w1 = mo_others mo 1 w0
                   in case sealed_verify mo 1 (pa_sealed pa) w1 of
                        Inl e \<Rightarrow> (w1, Inl e)
                      | Inr _ \<Rightarrow>
                          (case submit_settled mo 3 (pa_ticket pa) (mo_others mo 2 w1) of
                             (w4, out, reconciled) \<Rightarrow>
                               (let w5 = mo_others mo 5 w4
                                in (w5, and_then (accept_committed_row out) (\<lambda>row_id.
                                     map_err (accept_read_error debug (aq_operation (pa_request pa)))
                                       (accept_read_commit (mo_env mo 5) (pa_request pa) row_id reconciled w5))))))
              | out \<Rightarrow>
                  (let w1 = mo_others mo 1 w0
                   in (w1, and_then (accept_committed_row out) (\<lambda>row_id.
                        accept_read_commit (mo_env mo 1) (pa_request pa) row_id True w1)))))"

definition accept_reconcile :: "moments \<Rightarrow> acceptance_request \<Rightarrow> outbox_db world \<Rightarrow> accept_error + accepted option" where
  "accept_reconcile mo q w =
     (let w0 = mo_others mo 0 w
      in case reconcile_operation (mo_env mo 0) (aq_operation q) w0 of
           MNotCommitted _ _ \<Rightarrow> Inr None
         | out \<Rightarrow> and_then (accept_committed_row out) (\<lambda>row_id.
             map_ok Some (accept_read_commit (mo_env mo 1) q row_id True (mo_others mo 1 w0))))"

end
