(* ===== verification/Activation.thy ===== *)
theory Activation
  imports Acceptance
begin

text \<open>
  Activation (\<open>src/src/accept/activation.rs\<close>): the accepted revision that is current becomes active as
  the next generation of its scope, under three guards that are checked where the event is written: the
  generation is the expected one, the acceptance is the current one, the publication still holds.
\<close>

section \<open>Requests and events\<close>

type_synonym active_generation = u32

definition active_generation_new :: "u32 \<Rightarrow> accept_error + active_generation" where
  "active_generation_new v = (if unat v > unat max_accepted then Inl (AcLimit ''active generation'') else Inr v)"

definition active_generation_next :: "active_generation \<Rightarrow> accept_error + active_generation" where
  "active_generation_next v = and_then (ok_or (AcLimit ''active generation'') (checked_add v 1)) active_generation_new"

record activation_request =
  vq_operation :: operation_id
  vq_expected :: active_generation
  vq_acceptance :: acceptance_request

record activated =
  vd_row :: int
  vd_generation :: active_generation
  vd_revision :: accepted_revision
  vd_request :: activation_request
  vd_reconciled :: bool

record pending_activation =
  va_request :: activation_request
  va_sealed :: sealed
  va_ticket :: "outbox_db prepared"

definition active_event :: string where "active_event = ''accept-active-v1''"

definition active_entity :: "trusted_scope \<Rightarrow> string" where
  "active_entity scope = ''active-'' @ scope_text scope"

definition active_predicate :: "trusted_scope \<Rightarrow> string" where
  "active_predicate scope =
     ''operation='' @ [squote] @ active_event @ [squote] @ '' AND entity='' @ sql_quote (active_entity scope)"

definition active_where :: "trusted_scope \<Rightarrow> table_row \<Rightarrow> bool" where
  "active_where scope r \<longleftrightarrow> tr_operation r = active_event \<and> tr_entity r = active_entity scope"

definition active_event_bytes :: "activation_request \<Rightarrow> accept_error + string" where
  "active_event_bytes v =
     (let q = vq_acceptance v
      in and_then (active_generation_next (vq_expected v)) (\<lambda>generation.
         map_ok (\<lambda>target. frames_encode [''verdant-active-v1'', vq_operation v, show_word (vq_expected v), show_word generation,
             scope_text (aq_scope q), aq_operation q, show_word (aq_expected q), show_word target, aq_staged q, aq_seal q, ''activated''])
           (accepted_revision_next (aq_expected q))))"

section \<open>History\<close>

definition active_acceptance :: "trusted_scope \<Rightarrow> string list \<Rightarrow> accept_error + acceptance_request" where
  "active_acceptance scope f =
     and_then (map_err (\<lambda>_. AcInvalid ''activation operation'') (id_parse operation_id_kind (f ! 5))) (\<lambda>operation.
     and_then (and_then (accept_u32 (f ! 6)) accepted_revision_new) (\<lambda>expected.
     and_then (map_err (\<lambda>_. AcInvalid ''activation operation'') (id_parse operation_id_kind (f ! 8))) (\<lambda>staged_operation.
     and_then (map_err AcSeal (digest_parse (f ! 9))) (\<lambda>seal.
       Inr \<lparr>aq_operation = operation, aq_expected = expected, aq_scope = scope, aq_staged = staged_operation, aq_seal = seal\<rparr>))))"

definition active_event_row :: "trusted_scope \<Rightarrow> accepted list \<Rightarrow> nat \<Rightarrow> string list \<Rightarrow> string set \<Rightarrow> u32 \<Rightarrow> accept_error + activated" where
  "active_event_row scope accepted index row operations revision =
     (if length row \<noteq> 4 \<or> row ! 2 \<noteq> show_nat (index + 1) \<or> row ! 3 \<noteq> ''activation-event''
      then Inl (AcInvalid ''activation sequence/columns'')
      else
     and_then (event_text ''NULL activation'' row) (\<lambda>(row_id, raw).
     and_then (accept_decode raw 8192 11) (\<lambda>f.
       if length f \<noteq> 11 \<or> f ! 0 \<noteq> ''verdant-active-v1'' \<or> f ! 4 \<noteq> scope_text scope \<or> f ! 2 \<noteq> show_nat index \<or> f ! 3 \<noteq> row ! 2 \<or>
          f ! 10 \<noteq> ''activated'' \<or> row_id \<le> 0 \<or> f ! 1 \<in> operations
       then Inl (AcInvalid ''activation event chain'')
       else
     and_then (active_acceptance scope f) (\<lambda>q.
     and_then (accepted_revision_next (aq_expected q)) (\<lambda>target.
       if f ! 7 \<noteq> show_word target \<or> unat target \<le> unat revision \<or> \<not> list_ex (\<lambda>a. ad_request a = q \<and> ad_row a < row_id) accepted
       then Inl (AcInvalid ''activation accepted join/order'')
       else
     and_then (map_err (\<lambda>_. AcInvalid ''activation operation'') (id_parse operation_id_kind (f ! 1))) (\<lambda>operation.
     and_then (active_generation_new (of_nat index)) (\<lambda>expected.
       let v = \<lparr>vq_operation = operation, vq_expected = expected, vq_acceptance = q\<rparr>
       in and_then (active_event_bytes v) (\<lambda>bytes.
            if bytes \<noteq> raw then Inl (AcInvalid ''noncanonical activation'')
            else map_ok (\<lambda>generation. \<lparr>vd_row = row_id, vd_generation = generation, vd_revision = target, vd_request = v, vd_reconciled = False\<rparr>)
                   (active_generation_next expected)))))))))"

fun active_event_rows :: "trusted_scope \<Rightarrow> accepted list \<Rightarrow> nat \<Rightarrow> string list list \<Rightarrow> string set \<Rightarrow> u32 \<Rightarrow> accept_error + activated list" where
  "active_event_rows scope accepted index [] operations revision = Inr []"
| "active_event_rows scope accepted index (row # rows) operations revision =
     and_then (active_event_row scope accepted index row operations revision) (\<lambda>a.
       map_ok (\<lambda>as. a # as)
         (active_event_rows scope accepted (index + 1) rows (insert (vq_operation (vd_request a)) operations) (vd_revision a)))"

text \<open>
  The activation rows are read before the accepted ones: an activation that is seen refers to an acceptance
  that is seen too. \<open>v\<close> is the world when the acceptances are read.
\<close>

definition active_history :: "environment \<Rightarrow> trusted_scope \<Rightarrow> outbox_db world \<Rightarrow> outbox_db world \<Rightarrow> accept_error + activated list" where
  "active_history se scope w v =
     and_then (exec_script se (event_query (active_where scope)) w) (\<lambda>rows.
       if length rows > unat max_accepted then Inl (AcLimit ''activation history'')
       else and_then (accept_history se scope v) (\<lambda>accepted. active_event_rows scope accepted 0 rows {} 0))"

definition active_now :: "environment \<Rightarrow> trusted_scope \<Rightarrow> outbox_db world \<Rightarrow> outbox_db world \<Rightarrow> accept_error + activated option" where
  "active_now se scope w v = map_ok last_of (active_history se scope w v)"

definition active_status :: "moments \<Rightarrow> sealed \<Rightarrow> outbox_db world \<Rightarrow> accept_error + stage" where
  "active_status mo sd w =
     (let scope = ef_scope (st_config (sd_staged sd)); w0 = mo_others mo 0 w; w1 = mo_others mo 1 w0
      in and_then (active_now (mo_env mo 0) scope w0 w1) (\<lambda>active.
         if (case active of None \<Rightarrow> False
             | Some a \<Rightarrow> aq_seal (vq_acceptance (vd_request a)) = sd_identity sd \<and>
                 aq_staged (vq_acceptance (vd_request a)) = st_operation (sd_staged sd))
         then Inr StActivated
         else map_ok (\<lambda>history.
           if list_ex (\<lambda>a. aq_seal (ad_request a) = sd_identity sd \<and> aq_staged (ad_request a) = st_operation (sd_staged sd)) history
           then StAccepted else StSealed) (accept_history (mo_env mo 2) scope (mo_others mo 2 w1))))"

section \<open>Order\<close>

definition generation_of :: "activated option \<Rightarrow> active_generation" where
  "generation_of active = (case active of None \<Rightarrow> 0 | Some a \<Rightarrow> vd_generation a)"

definition activation_superseded :: "activation_request \<Rightarrow> accepted \<Rightarrow> accept_error" where
  "activation_superseded v current =
     (case accepted_revision_next (aq_expected (vq_acceptance v)) of
        Inl e \<Rightarrow> e
      | Inr requested \<Rightarrow> AcSuperseded requested (ad_revision current))"

definition activation_order :: "activation_request \<Rightarrow> int option \<Rightarrow> activated option \<Rightarrow> accept_error + accepted option \<Rightarrow> accept_error + accepted" where
  "activation_order v known active now =
     (if \<not> (case active of None \<Rightarrow> False | Some a \<Rightarrow> Some (vd_row a) = known \<and> vd_request a = v) \<and>
         vq_expected v \<noteq> generation_of active
      then Inl (AcStaleGeneration (vq_expected v) (generation_of active))
      else
     and_then now (\<lambda>current.
     and_then (ok_or (AcInvalid ''activation requires committed acceptance'') current) (\<lambda>current.
       if ad_request current \<noteq> vq_acceptance v then Inl (activation_superseded v current)
       else if known = None \<and> (case active of None \<Rightarrow> False | Some a \<Rightarrow> vd_revision a = ad_revision current)
       then Inl (AcConflict ''already active; reconcile original operation'')
       else Inr current)))"

text \<open>The reads of one check see one state of the tables; the guards of the ticket are what decides later.\<close>

definition check_activation_order :: "environment \<Rightarrow> activation_request \<Rightarrow> int option \<Rightarrow> outbox_db world \<Rightarrow> accept_error + accepted" where
  "check_activation_order se v known w =
     (let scope = aq_scope (vq_acceptance v)
      in and_then (active_now se scope w w) (\<lambda>active. activation_order v known active (accept_current se scope w)))"

definition activation_blocked :: "activation_request \<Rightarrow> seal_error \<Rightarrow> accept_error" where
  "activation_blocked v cause = AcActivationBlocked (aq_scope (vq_acceptance v)) (aq_seal (vq_acceptance v)) cause"

definition map_blocked :: "activation_request \<Rightarrow> accept_error \<Rightarrow> accept_error" where
  "map_blocked v e =
     (case e of
        AcBlocked cause \<Rightarrow> activation_blocked v cause
      | AcInvalid what \<Rightarrow>
          if what = ''missing/ambiguous staged row'' then activation_blocked v (SealMissing ''accepted staged root'') else e
      | _ \<Rightarrow> e)"

definition activation_seal :: "moments \<Rightarrow> nat \<Rightarrow> activation_request \<Rightarrow> outbox_db world \<Rightarrow> accept_error + sealed" where
  "activation_seal mo k v w =
     and_then (map_err (map_blocked v) (read_staged (mo_env mo k) (aq_staged (vq_acceptance v)) w)) (\<lambda>st.
     and_then (map_err (map_blocked v) (and_then (check_environment_names (mo_names mo)) (\<lambda>_.
         check_seal mo (k + 1) st (aq_seal (vq_acceptance v)) (mo_others mo (k + 1) w)))) (\<lambda>mf.
       Inr \<lparr>sd_staged = st, sd_identity = aq_seal (vq_acceptance v), sd_manifest = mf\<rparr>))"

section \<open>Admission\<close>

definition guard_sql :: "string \<Rightarrow> string \<Rightarrow> string" where
  "guard_sql name condition =
     ''CREATE TEMP TABLE '' @ name @ ''(ok INTEGER NOT NULL CONSTRAINT '' @ name @ '' CHECK(ok=1)); INSERT INTO '' @ name @
     '' VALUES(CASE WHEN ('' @ condition @ '') THEN 1 ELSE 0 END);''"

definition generation_guard :: "activation_request \<Rightarrow> guard" where
  "generation_guard v =
     \<lparr>gd_text = ''(SELECT COUNT(*) FROM outbox WHERE '' @ active_predicate (aq_scope (vq_acceptance v)) @ '')='' @ show_word (vq_expected v),
      gd_holds = (\<lambda>d. count_rows (active_where (aq_scope (vq_acceptance v))) d = unat (vq_expected v))\<rparr>"

definition current_guard :: "activation_request \<Rightarrow> accepted \<Rightarrow> string \<Rightarrow> guard" where
  "current_guard v current json =
     \<lparr>gd_text = ''(SELECT COUNT(*) FROM outbox WHERE '' @ accept_predicate (aq_scope (vq_acceptance v)) @ '')='' @ show_word (ad_revision current) @
        '' AND EXISTS(SELECT 1 FROM outbox WHERE id='' @ show_int (ad_row current) @ '' AND value_json='' @ sql_quote json @ '')'',
      gd_holds = (\<lambda>d. count_rows (accept_where (aq_scope (vq_acceptance v))) d = unat (ad_revision current) \<and>
        list_ex (\<lambda>r. tr_id r = ad_row current \<and> tr_value r = json) (od_rows d))\<rparr>"

definition active_row :: "activation_request \<Rightarrow> active_generation \<Rightarrow> string \<Rightarrow> int \<Rightarrow> table_row" where
  "active_row v generation json = control_row active_event (active_entity (aq_scope (vq_acceptance v))) ''activation-event'' json (unat generation)"

definition active_body :: "activation_request \<Rightarrow> active_generation \<Rightarrow> string \<Rightarrow> guard \<Rightarrow> guard \<Rightarrow> outbox_db body" where
  "active_body v generation json current publication =
     \<lparr>bd_text = guard_sql ''activation_generation'' (gd_text (generation_guard v)) @ guard_sql ''activation_acceptance'' (gd_text current) @
        guard_sql ''activation_publication'' (gd_text publication) @ insert_row (active_row v generation json 0) [],
      bd_run = (\<lambda>d.
        if \<not> gd_holds (generation_guard v) d then Inl (constraint_failed ''activation_generation'')
        else if \<not> gd_holds current d then Inl (constraint_failed ''activation_acceptance'')
        else if \<not> gd_holds publication d then Inl (constraint_failed ''activation_publication'')
        else append_row (active_row v generation json) d)\<rparr>"

definition active_ticket :: "string \<Rightarrow> operation_id \<Rightarrow> activation_request \<Rightarrow> active_generation \<Rightarrow> string \<Rightarrow> accepted \<Rightarrow> string \<Rightarrow> sealed \<Rightarrow>
    outbox_db prepared" where
  "active_ticket identity generated v generation json current accepted_json sd =
     with_operation (vq_operation v)
       (prepare_guarded_batch generated identity \<lparr>gd_text = ''1'', gd_holds = (\<lambda>_. True)\<rparr>
         (active_body v generation json (current_guard v current accepted_json) (sealed_guard sd)) (length json))"

definition prepare_activation :: "moments \<Rightarrow> nat \<Rightarrow> string \<Rightarrow> operation_id \<Rightarrow> activation_request \<Rightarrow> outbox_db world \<Rightarrow>
    accept_error + pending_activation" where
  "prepare_activation mo k identity generated v w =
     and_then (check_environment_names (mo_names mo)) (\<lambda>_.
     and_then (active_generation_next (vq_expected v)) (\<lambda>generation.
     and_then (check_activation_order (mo_env mo k) v None w) (\<lambda>current.
     and_then (activation_seal mo (k + 1) v (mo_others mo (k + 1) w)) (\<lambda>sd.
     and_then (active_event_bytes v) (\<lambda>raw.
     and_then (accept_event_bytes (ad_request current) (ad_actor current)) (\<lambda>accepted_raw.
       Inr \<lparr>va_request = v, va_sealed = sd,
            va_ticket = active_ticket identity generated v generation (value_to_json (VText raw)) current
              (value_to_json (VText accepted_raw)) sd\<rparr>))))))"

definition read_activation_commit :: "environment \<Rightarrow> activation_request \<Rightarrow> int \<Rightarrow> bool \<Rightarrow> outbox_db world \<Rightarrow> accept_error + activated" where
  "read_activation_commit se v row_id reconciled w =
     and_then (active_history se (aq_scope (vq_acceptance v)) w w) (\<lambda>history.
     and_then (ok_or (AcConflict ''receipt does not identify an activation'') (find (\<lambda>a. vd_row a = row_id) history)) (\<lambda>found.
       if vd_request found \<noteq> v then Inl (AcConflict ''operation identity reused with different activation'')
       else Inr (found\<lparr>vd_reconciled := reconciled\<rparr>)))"

text \<open>The outcome of the ticket: the guards that failed are told apart by their names.\<close>

definition activation_row :: "environment \<Rightarrow> activation_request \<Rightarrow> mutation_outcome \<Rightarrow> outbox_db world \<Rightarrow> accept_error + int" where
  "activation_row se v out w =
     (case out of
        MNotCommitted _ (SqliteFailure detail) \<Rightarrow>
          if contains_text ''CHECK constraint failed: activation_generation'' detail
          then and_then (active_now se (aq_scope (vq_acceptance v)) w w) (\<lambda>active. Inl (AcStaleGeneration (vq_expected v) (generation_of active)))
          else if contains_text ''CHECK constraint failed: activation_acceptance'' detail
          then and_then (check_activation_order se v None w) (\<lambda>_.
               and_then (accept_current se (aq_scope (vq_acceptance v)) w) (\<lambda>current.
               and_then (ok_or (AcInvalid ''missing accepted history'') current) (\<lambda>current. Inl (activation_superseded v current))))
          else if contains_text ''CHECK constraint failed: activation_publication'' detail
          then and_then (check_activation_order se v None w) (\<lambda>_.
               Inl (activation_blocked v (SealConflict ''publication changed during activation admission'')))
          else accept_committed_row out
      | _ \<Rightarrow> accept_committed_row out)"

definition submit_activation :: "moments \<Rightarrow> nat \<Rightarrow> (accept_error \<Rightarrow> string) \<Rightarrow> pending_activation \<Rightarrow> outbox_db world \<Rightarrow>
    outbox_db world \<times> (accept_error + activated)" where
  "submit_activation mo k debug va w =
     (let v = va_request va
      in case check_environment_names (mo_names mo) of
           Inl e \<Rightarrow> (w, Inl e)
         | Inr _ \<Rightarrow>
             (case reconcile_mutation (mo_env mo k) (va_ticket va) w of
                MNotCommitted _ _ \<Rightarrow>
                  (let w1 = mo_others mo (k + 1) w
                   in case and_then (check_activation_order (mo_env mo (k + 1)) v None w1) (\<lambda>_.
                         map_err (map_blocked v) (sealed_verify mo (k + 2) (va_sealed va) (mo_others mo (k + 2) w1))) of
                        Inl e \<Rightarrow> (w1, Inl e)
                      | Inr _ \<Rightarrow>
                          (case submit_settled mo (k + 4) (va_ticket va) (mo_others mo (k + 3) (mo_others mo (k + 2) w1)) of
                             (w5, out, reconciled) \<Rightarrow>
                               (let w6 = mo_others mo (k + 6) w5
                                in (w6, and_then (activation_row (mo_env mo (k + 6)) v out w6) (\<lambda>row_id.
                                     map_err (\<lambda>e. AcUnknown (vq_operation v) (''committed activation; read failed: '' @ accept_error_display debug e))
                                       (read_activation_commit (mo_env mo (k + 6)) v row_id reconciled w6))))))
              | out \<Rightarrow>
                  (let w1 = mo_others mo (k + 1) w
                   in (w1, and_then (accept_committed_row out) (\<lambda>row_id.
                        and_then (read_activation_commit (mo_env mo (k + 1)) v row_id True w1) (\<lambda>committed.
                        and_then (check_activation_order (mo_env mo (k + 1)) v (Some (vd_row committed)) w1) (\<lambda>_.
                        and_then (map_err (map_blocked v) (sealed_verify mo (k + 2) (va_sealed va) (mo_others mo (k + 2) w1))) (\<lambda>_.
                          Inr committed))))))))"

definition reconcile_activation :: "environment \<Rightarrow> activation_request \<Rightarrow> outbox_db world \<Rightarrow> accept_error + activated option" where
  "reconcile_activation se v w =
     (case reconcile_operation se (vq_operation v) w of
        MNotCommitted _ _ \<Rightarrow> Inr None
      | out \<Rightarrow> and_then (accept_committed_row out) (\<lambda>row_id. map_ok Some (read_activation_commit se v row_id True w)))"

definition activate :: "moments \<Rightarrow> (accept_error \<Rightarrow> string) \<Rightarrow> string \<Rightarrow> operation_id \<Rightarrow> activation_request \<Rightarrow> outbox_db world \<Rightarrow>
    outbox_db world \<times> (accept_error + activated)" where
  "activate mo debug identity generated v w =
     (let w0 = mo_others mo 0 w
      in case and_then (check_environment_names (mo_names mo)) (\<lambda>_. reconcile_activation (mo_env mo 0) v w0) of
           Inl e \<Rightarrow> (w0, Inl e)
         | Inr (Some committed) \<Rightarrow>
             (w0, and_then (check_activation_order (mo_env mo 1) v (Some (vd_row committed)) (mo_others mo 1 w0)) (\<lambda>_.
                and_then (activation_seal mo 2 v (mo_others mo 2 (mo_others mo 1 w0))) (\<lambda>_. Inr committed)))
         | Inr None \<Rightarrow>
             (let w1 = mo_others mo 1 w0
              in case prepare_activation mo 1 identity generated v w1 of
                   Inl e \<Rightarrow> (w1, Inl e)
                 | Inr va \<Rightarrow> submit_activation mo 5 debug va (mo_others mo 5 w1)))"

end
