(* ===== verification/Effective_Facts.thy ===== *)
theory Effective_Facts
  imports Effective Finding_Facts
begin

text \<open>
  Facts of the effective configuration: what a resolution returns is read back from its bytes, what is
  read has exactly those bytes, and the difference of two configurations classifies every key.
\<close>

section \<open>Codec\<close>

lemma accept_decode_encode:
  "\<forall>f \<in> set fs. utf8_valid f \<Longrightarrow> length fs \<le> n \<Longrightarrow> length (frames_encode fs) \<le> m \<Longrightarrow> m < 2 ^ 64 \<Longrightarrow>
     accept_decode (frames_encode fs) m n = Inr fs"
  by (simp add: accept_decode_def frames_decode_encode del: frames_encode_simps)

lemma accept_u32_show [simp]: "accept_u32 (show_word w) = Inr w"
  by (simp add: accept_u32_def)

lemma accept_i64_show [simp]: "in_i64 i \<Longrightarrow> accept_i64 (show_int i) = Inr i"
  by (simp add: accept_i64_def)

lemma accept_text_json_text [simp]: "utf8_valid t \<Longrightarrow> accept_text_json (value_to_json (VText t)) = Inr t"
  by (simp add: accept_text_json_def value_round_trip_gen)

section \<open>Entries and facts\<close>

definition config_entry_ok :: "trusted_scope \<Rightarrow> config_entry \<Rightarrow> bool" where
  "config_entry_ok scope e \<longleftrightarrow> id_ok (ce_key e) \<and> ce_label e \<noteq> [] \<and> length (ce_label e) \<le> 256 \<and> \<not> has_control (ce_label e) \<and>
     utf8_valid (ce_label e) \<and> binding_ok (ce_binding e) \<and> separator_free (ce_binding e) \<and>
     pb_point_scope (ce_binding e) = scope \<and> pb_endpoint_scope (ce_binding e) = scope \<and>
     ce_source e \<in> {SkDomain, SkTemporaryIntent} \<and> length (config_entry_encode e) \<le> 4096"

lemma config_entry_encode_utf8: "config_entry_ok scope e \<Longrightarrow> utf8_valid (config_entry_encode e)"
proof -
  have "utf8_valid (source_kind_as_str (ce_source e))" by (cases "ce_source e") simp_all
  moreover assume "config_entry_ok scope e"
  ultimately show ?thesis
    unfolding config_entry_encode_def by (intro frames_utf8) (simp add: config_entry_ok_def canonical_bytes_utf8)
qed

lemma config_entry_round_trip:
  assumes "config_entry_ok scope e" shows "config_entry_decode (config_entry_encode e) = Inr e"
proof -
  let ?b = "ce_binding e"
  have s: "utf8_valid (source_kind_as_str (ce_source e))" "config_source_parse (source_kind_as_str (ce_source e)) = Inr (ce_source e)"
    using assms by (auto simp: config_entry_ok_def config_source_parse_def)
  have d: "accept_decode (config_entry_encode e) 4096 4 =
      Inr [ce_key e, ce_label e, source_kind_as_str (ce_source e), canonical_bytes ?b]"
    using assms s(1) unfolding config_entry_encode_def
    by (intro accept_decode_encode) (simp_all add: config_entry_ok_def config_entry_encode_def canonical_bytes_utf8 del: frames_encode_simps)
  have c: "split_on unit_separator (canonical_bytes ?b) = ''binding-canonical-v2'' # canonical_fields ?b"
      "decode_propose (canonical_texts (canonical_fields ?b)) = Inr ?b" "length (canonical_fields ?b) = 13"
    using assms canonical_parts [of ?b] canonical_decodes [of ?b]
    by (simp_all add: config_entry_ok_def separator_free_def) (simp add: canonical_fields_def)
  have n: "config_entry_new (ce_key e) (ce_label e) ?b = Inr (e\<lparr>ce_source := SkDomain\<rparr>)"
    using assms by (cases e) (simp add: config_entry_new_def config_entry_ok_def not_less)
  have "id_parse installed_id_kind (ce_key e) = Inr (ce_key e)" using assms by (simp add: config_entry_ok_def)
  then show ?thesis by (simp add: config_entry_decode_def d c n s(2) Let_def)
qed

definition observed_fact_ok :: "observed_fact \<Rightarrow> bool" where
  "observed_fact_ok x \<longleftrightarrow> id_ok (of_id x) \<and> utf8_valid (of_actor x) \<and> utf8_valid (of_digest x) \<and> length (observed_fact_encode x) \<le> 4096"

lemma observed_fact_encode_utf8: "observed_fact_ok x \<Longrightarrow> utf8_valid (observed_fact_encode x)"
  unfolding observed_fact_encode_def by (intro frames_utf8) (simp add: observed_fact_ok_def)

lemma observed_fact_round_trip:
  assumes "observed_fact_ok x" shows "observed_fact_decode (observed_fact_encode x) = Inr x"
proof -
  have "accept_decode (observed_fact_encode x) 4096 4 = Inr [of_id x, show_word (of_generation x), of_actor x, of_digest x]"
    using assms unfolding observed_fact_encode_def
    by (intro accept_decode_encode) (simp_all add: observed_fact_ok_def observed_fact_encode_def del: frames_encode_simps)
  moreover have "finding_id_parse (of_id x) = Inr (of_id x)" using assms by (simp add: observed_fact_ok_def finding_id_parse_ok)
  ultimately show ?thesis by (cases x) (simp add: observed_fact_decode_def)
qed

section \<open>Configurations\<close>

definition config_ok :: "effective_config \<Rightarrow> bool" where
  "config_ok c \<longleftrightarrow> trusted_scope_ok (ef_scope c) \<and> utf8_valid (ef_reason c) \<and> bt_ok (ef_entries c) \<and> ef_entries c \<noteq> [] \<and>
     length (ef_entries c) \<le> 32 \<and> (\<forall>(k, e) \<in> set (ef_entries c). k = ce_key e \<and> config_entry_ok (ef_scope c) e) \<and>
     length (ef_facts c) \<le> 256 \<and> (\<forall>x \<in> set (ef_facts c). observed_fact_ok x) \<and> length (config_bytes c) \<le> 16384"

lemma decode_entries_sorted:
  assumes "bt_ok (m @ kvs)" "\<forall>(k, e) \<in> set kvs. k = ce_key e \<and> config_entry_ok scope e"
  shows "decode_config_entries scope (map (config_entry_encode \<circ> snd) kvs) m = Inr (m @ kvs)"
  using assms
proof (induction kvs arbitrary: m)
  case (Cons p kvs)
  obtain k e where p: "p = (k, e)" by (cases p)
  with Cons.prems have e: "config_entry_ok scope e" "k = ce_key e" by auto
  have last: "\<forall>k' \<in> bt_dom m. k' < k" using Cons.prems(1) by (auto simp: p bt_ok_append)
  then have "bt_insert k e m = m @ [(k, e)]" by (rule bt_insert_last)
  moreover have "bt_get m k = None" using last by (auto simp: bt_get_None_iff)
  moreover have "decode_config_entries scope (map (config_entry_encode \<circ> snd) kvs) (m @ [p]) = Inr ((m @ [p]) @ kvs)"
    using Cons.prems by (intro Cons.IH) simp_all
  ultimately show ?case
    using config_entry_round_trip [OF e(1)] e by (simp add: p config_entry_ok_def comp_def)
qed simp

lemma config_round_trip:
  assumes "config_ok c" shows "config_decode (config_bytes c) = Inr c"
proof -
  let ?es = "map (config_entry_encode \<circ> snd) (ef_entries c)" and ?fs = "map observed_fact_encode (ef_facts c)"
  have e: "config_entry_ok (ef_scope c) e" if "(k, e) \<in> set (ef_entries c)" for k e
    using assms that by (auto simp: config_ok_def)
  have es: "\<forall>s \<in> set ?es. utf8_valid s" by (auto intro!: config_entry_encode_utf8 [OF e])
  have fs: "\<forall>s \<in> set ?fs. utf8_valid s" using assms by (auto simp: config_ok_def intro: observed_fact_encode_utf8)
  have len: "length (frames_encode ?es) \<le> 16384" "length (frames_encode ?fs) \<le> 16384"
  proof -
    have "length (frames_encode ?es) \<le> length (config_bytes c)" "length (frames_encode ?fs) \<le> length (config_bytes c)"
      unfolding config_bytes_def by (rule length_frame_mem, simp del: frames_encode_simps)+
    then show "length (frames_encode ?es) \<le> 16384" "length (frames_encode ?fs) \<le> 16384"
      using assms unfolding config_ok_def by linarith+
  qed
  have d: "accept_decode (config_bytes c) 16384 6 = Inr [''verdant-effective-v1'', scope_text (ef_scope c), show_word (ef_revision c),
      ef_reason c, frames_encode ?es, frames_encode ?fs]"
    using assms es fs unfolding config_bytes_def
    by (intro accept_decode_encode) (simp_all add: config_ok_def trusted_scope_ok_def frames_utf8 config_bytes_def plain_utf8 plain_def verdant_defs
        del: frames_encode_simps)
  have "accept_decode (frames_encode ?es) 16384 32 = Inr ?es" "accept_decode (frames_encode ?fs) 16384 256 = Inr ?fs"
    using assms es fs len by (simp_all add: accept_decode_encode config_ok_def del: frames_encode_simps)
  moreover have "decode_config_entries (ef_scope c) ?es [] = Inr (ef_entries c)"
    using decode_entries_sorted [of "[]" "ef_entries c" "ef_scope c"] assms by (simp add: config_ok_def)
  moreover have "collect_res observed_fact_decode ?fs = Inr (ef_facts c)"
    using assms observed_fact_round_trip by (intro collect_res_map) (simp add: config_ok_def)
  moreover have "config_bytes \<lparr>ef_scope = ef_scope c, ef_revision = ef_revision c, ef_reason = ef_reason c, ef_entries = ef_entries c,
      ef_facts = ef_facts c\<rparr> = config_bytes c" by (simp add: config_bytes_def)
  ultimately show ?thesis
    using assms by (simp add: config_decode_def d config_ok_def Let_def del: frames_encode_simps)
qed

lemma config_decode_sound: "config_decode raw = Inr c \<Longrightarrow> raw = config_bytes c"
  by (auto simp: config_decode_def Let_def split: if_splits)

section \<open>Resolution\<close>

lemma resolve_items_ok:
  assumes "resolve_items scope source es seen m = Inr m'" "bt_ok m" "source \<in> {SkDomain, SkTemporaryIntent}"
    and "\<forall>(k, e) \<in> set m. k = ce_key e \<and> config_entry_ok scope e" "\<forall>e \<in> set es. config_entry_ok scope (e\<lparr>ce_source := source\<rparr>)"
  shows "bt_ok m' \<and> (\<forall>(k, e) \<in> set m'. k = ce_key e \<and> config_entry_ok scope e) \<and>
    (if source = SkTemporaryIntent then bt_dom m' = bt_dom m else bt_dom m' = bt_dom m \<union> ce_key ` set es)"
  using assms
proof (induction scope source es seen m rule: resolve_items.induct)
  case (2 scope source e es seen m)
  let ?m = "bt_insert (ce_key e) (e\<lparr>ce_source := source\<rparr>) m"
  have m: "\<forall>(k, e) \<in> set ?m. k = ce_key e \<and> config_entry_ok scope e"
    using 2(5,6) set_bt_insert_subset [of "ce_key e" "e\<lparr>ce_source := source\<rparr>" m] by fastforce
  have step: "resolve_items scope source es (insert (ce_key e) seen) ?m = Inr m'" "\<not> (source = SkTemporaryIntent \<and> bt_get m (ce_key e) = None)"
      "ce_key e \<notin> seen" "\<not> (pb_point_scope (ce_binding e) \<noteq> scope \<or> pb_endpoint_scope (ce_binding e) \<noteq> scope)"
    using 2(2) by (auto split: if_splits)
  have IH: "bt_ok m' \<and> (\<forall>(k, e) \<in> set m'. k = ce_key e \<and> config_entry_ok scope e) \<and>
      (if source = SkTemporaryIntent then bt_dom m' = bt_dom ?m else bt_dom m' = bt_dom ?m \<union> ce_key ` set es)"
    using 2(1) [OF step(3,2,4,1)] 2(3,4,6) m by auto
  then show ?case using step(2) by (auto simp: bt_dom_insert bt_get_None_iff insert_absorb)
qed simp

lemma config_of_ok:
  assumes "config_of g r scope domain intent = Inr c" "trusted_scope_ok scope" "utf8_valid (ef_reason c)"
    and "\<forall>e \<in> set domain. config_entry_ok scope (e\<lparr>ce_source := SkDomain\<rparr>)"
    and "\<forall>e \<in> set intent. config_entry_ok scope (e\<lparr>ce_source := SkTemporaryIntent\<rparr>)"
    and "\<forall>f \<in> set (rg_findings r). observed_fact_ok (observed_fact_of f)" "length (rg_findings r) \<le> 256"
  shows "config_ok c"
proof -
  obtain m m' where m: "resolve_items scope SkDomain domain {} [] = Inr m" "resolve_items scope SkTemporaryIntent intent {} m = Inr m'"
      "length domain \<le> 32" and c: "m' \<noteq> []" "ef_entries c = m'" "ef_scope c = scope" "length (config_bytes c) \<le> 16384"
      "ef_facts c = map observed_fact_of (rg_findings r)"
    using assms(1) by (auto simp: config_of_def resolve_source_def Let_def not_less split: if_splits)
  have 1: "bt_ok m \<and> (\<forall>(k, e) \<in> set m. k = ce_key e \<and> config_entry_ok scope e) \<and> bt_dom m = ce_key ` set domain"
    using resolve_items_ok [OF m(1)] assms(4) by simp
  have 2: "bt_ok m' \<and> (\<forall>(k, e) \<in> set m'. k = ce_key e \<and> config_entry_ok scope e) \<and> bt_dom m' = bt_dom m"
    using resolve_items_ok [OF m(2)] assms(5) 1 by simp
  have "distinct (map fst m')" using 2 by (simp add: bt_ok_distinct)
  then have "length m' = card (bt_dom m')" using distinct_card [of "map fst m'"] by (simp add: bt_dom_def)
  also have "\<dots> \<le> length domain" using 1 2 by (metis card_image_le card_length finite_set le_trans)
  finally have "length m' \<le> 32" using m(3) by simp
  then show ?thesis using assms(2,3,6,7) 2 c by (simp add: config_ok_def)
qed

section \<open>The difference\<close>

lemma impact_fold:
  "im_added (fold (impact_entry old) kvs d) = im_added d \<union> {k. \<exists>e. (k, e) \<in> set kvs \<and> bt_get old k = None}"
  "im_invalidated (fold (impact_entry old) kvs d) =
     im_invalidated d \<union> {k. \<exists>e p. (k, e) \<in> set kvs \<and> bt_get old k = Some p \<and> ce_binding e \<noteq> ce_binding p}"
  "im_preserved (fold (impact_entry old) kvs d) =
     im_preserved d \<union> {k. \<exists>e p. (k, e) \<in> set kvs \<and> bt_get old k = Some p \<and> ce_binding e = ce_binding p}"
  "im_cosmetic (fold (impact_entry old) kvs d) =
     im_cosmetic d \<union> {k. \<exists>e p. (k, e) \<in> set kvs \<and> bt_get old k = Some p \<and> ce_binding e = ce_binding p \<and> ce_label e \<noteq> ce_label p}"
  by (induction kvs arbitrary: d; force simp: Let_def split: option.splits if_splits)+

end
