(* ===== verification/Accept_Facts.thy ===== *)
theory Accept_Facts
  imports Activation Outbox_Facts Effective_Facts
begin

text \<open>
  Facts of acceptance and activation: how the events of a scope are read, one after the other, and what a
  row that is appended adds to them.
\<close>

section \<open>Revisions\<close>

lemma max_accepted_nat [simp]: "unat max_accepted = 256"
  by (simp add: max_accepted_def)

lemma checked_add_plus: "checked_add v 1 = Some t \<Longrightarrow> t = v + 1"
  by (simp add: checked_add_def split: if_splits)

lemma revision_next:
  "accepted_revision_next v = Inr t \<Longrightarrow> unat t = unat v + 1 \<and> unat v < 256 \<and> t = v + 1"
  "active_generation_next v = Inr t \<Longrightarrow> unat t = unat v + 1 \<and> unat v < 256 \<and> t = v + 1"
  by (auto simp: accepted_revision_next_def accepted_revision_new_def active_generation_next_def active_generation_new_def
      split: if_splits dest: checked_add_Some checked_add_plus)

section \<open>Reading one event\<close>

definition acceptance_ok :: "acceptance_request \<Rightarrow> bool" where
  "acceptance_ok q \<longleftrightarrow> id_ok (aq_operation q) \<and> trusted_scope_ok (aq_scope q) \<and> id_ok (aq_staged q) \<and> digest_ok (aq_seal q)"

lemma event_text_row:
  assumes "in_i64 (tr_id r)" "tr_value r = value_to_json (VText raw)" "utf8_valid raw"
  shows "event_text missing (event_columns r) = Inr (tr_id r, raw)"
  using assms by (simp add: event_text_def event_columns_def)

lemma accept_event_utf8:
  assumes "accept_event_bytes q actor = Inr raw" "acceptance_ok q" "utf8_valid actor"
  shows "utf8_valid raw"
proof -
  have "\<forall>f \<in> set [''verdant-accepted-v1'', aq_operation q, show_word (aq_expected q), show_word target, scope_text (aq_scope q),
      aq_staged q, aq_seal q, actor, ''accepted'']. utf8_valid f" for target :: u32
    using assms(2,3) by (simp add: acceptance_ok_def trusted_scope_ok_def plain_utf8 plain_def verdant_defs)
  then show ?thesis using assms(1) frames_utf8 by (auto simp: accept_event_bytes_def simp del: frames_encode_simps)
qed

lemma accept_row_reads:
  assumes "acceptance_ok q" "utf8_valid actor" "accept_event_bytes q actor = Inr raw" "length raw \<le> 8192" "0 < i" "in_i64 i"
    and "aq_operation q \<notin> operations"
  shows "accept_event_row (aq_scope q) (unat (aq_expected q)) (event_columns (accept_row q (value_to_json (VText raw)) i)) operations =
    Inr \<lparr>ad_row = i, ad_revision = aq_expected q + 1, ad_request = q, ad_actor = actor, ad_reconciled = False\<rparr>"
proof -
  obtain target where t: "accepted_revision_next (aq_expected q) = Inr target"
    using assms(3) by (cases "accepted_revision_next (aq_expected q)") (auto simp: accept_event_bytes_def)
  note n = revision_next(1) [OF t]
  let ?f = "[''verdant-accepted-v1'', aq_operation q, show_word (aq_expected q), show_word target, scope_text (aq_scope q),
      aq_staged q, aq_seal q, actor, ''accepted'']"
  let ?r = "accept_row q (value_to_json (VText raw)) i"
  have raw: "raw = frames_encode ?f" using assms(3) t by (auto simp: accept_event_bytes_def simp del: frames_encode_simps)
  have u: "utf8_valid raw" using accept_event_utf8 [OF assms(3,1,2)] .
  have tx: "event_text ''NULL accepted event'' (event_columns ?r) = Inr (i, raw)"
    using event_text_row [of ?r raw "''NULL accepted event''"] u assms(6) by (simp add: accept_row_def control_row_def)
  have d: "accept_decode raw 8192 9 = Inr ?f"
    unfolding raw using assms(1,2,4) [unfolded raw]
    by (intro accept_decode_encode) (simp_all add: acceptance_ok_def trusted_scope_ok_def plain_utf8 plain_def verdant_defs del: frames_encode_simps)
  have w: "show_word (aq_expected q) = show_nat (unat (aq_expected q))" "show_word target = show_nat (unat (aq_expected q) + 1)"
    using conjunct1 [OF n] by (simp_all add: show_word_def)
  have new: "accepted_revision_new (aq_expected q) = Inr (aq_expected q)" using n by (simp add: accepted_revision_new_def)
  have cols: "length (event_columns ?r) = 4" "event_columns ?r ! 2 = show_nat (unat (aq_expected q) + 1)" "event_columns ?r ! 3 = ''accept-event''"
    by (simp_all add: event_columns_def accept_row_def control_row_def)
  have ids: "id_parse operation_id_kind (aq_operation q) = Inr (aq_operation q)" "id_parse operation_id_kind (aq_staged q) = Inr (aq_staged q)"
      "digest_parse (aq_seal q) = Inr (aq_seal q)"
    using assms(1) by (simp_all add: acceptance_ok_def digest_parse_eq)
  have e: "accept_event_bytes \<lparr>aq_operation = aq_operation q, aq_expected = aq_expected q, aq_scope = aq_scope q, aq_staged = aq_staged q,
      aq_seal = aq_seal q\<rparr> actor = Inr raw" using assms(3) by (simp add: accept_event_bytes_def)
  have "accept_event_row (aq_scope q) (unat (aq_expected q)) (event_columns ?r) operations =
      Inr \<lparr>ad_row = i, ad_revision = target, ad_request = q, ad_actor = actor, ad_reconciled = False\<rparr>"
    using e assms(5,7) t by (simp add: accept_event_row_def cols tx d w new ids Let_def)
  then show ?thesis using n by simp
qed

section \<open>Reading the history\<close>

abbreviation accept_operations :: "accepted list \<Rightarrow> string set" where
  "accept_operations as \<equiv> set (map (aq_operation \<circ> ad_request) as)"

lemma accept_event_rows_snoc:
  "accept_event_rows scope k (rows @ [row]) operations =
     and_then (accept_event_rows scope k rows operations) (\<lambda>as.
       map_ok (\<lambda>a. as @ [a]) (accept_event_row scope (k + length rows) row (operations \<union> accept_operations as)))"
proof (induction rows arbitrary: k operations)
  case Nil
  then show ?case by (cases "accept_event_row scope k row operations") simp_all
next
  case (Cons x rows)
  then show ?case
    by (cases "accept_event_row scope k x operations"; cases "accept_event_rows scope (Suc k) rows (insert (aq_operation (ad_request (projr (accept_event_row scope k x operations)))) operations)")
      (auto simp: map_ok_def and_then_def ac_simps split: sum.splits)
qed

definition accept_chain :: "trusted_scope \<Rightarrow> nat \<Rightarrow> int list \<Rightarrow> string set \<Rightarrow> accepted list \<Rightarrow> bool" where
  "accept_chain scope k ids operations as \<longleftrightarrow> map ad_row as = ids \<and> distinct (map (aq_operation \<circ> ad_request) as) \<and>
     accept_operations as \<inter> operations = {} \<and>
     (\<forall>i < length as. unat (aq_expected (ad_request (as ! i))) = k + i \<and> unat (ad_revision (as ! i)) = k + i + 1 \<and>
        aq_scope (ad_request (as ! i)) = scope \<and> ad_reconciled (as ! i) = False)"

lemma accept_event_row_sound:
  assumes "accept_event_row scope k row operations = Inr a" "k \<le> 256"
  shows "row ! 0 = show_int (ad_row a) \<and> unat (aq_expected (ad_request a)) = k \<and> unat (ad_revision a) = k + 1 \<and>
    aq_scope (ad_request a) = scope \<and> aq_operation (ad_request a) \<notin> operations \<and> ad_reconciled a = False"
proof -
  have "unat (of_nat k :: u32) = k" using assms(2) by (simp add: unat_of_nat take_bit_nat_eq_self)
  then show ?thesis
    using assms(1)
    by (auto simp: accept_event_row_def event_text_def accepted_revision_new_def accept_i64_def Let_def split: if_splits dest!: revision_next)
qed

lemma show_int_inj: "show_int a = show_int b \<longleftrightarrow> a = b"
proof -
  have d: "CHR ''-'' # s \<noteq> show_nat n" for s n
    by (metis list.set_intros(1) show_nat_digits sign_not_digit(2))
  show ?thesis using d d [symmetric] by (auto simp: show_int_def split: if_splits)
qed

lemma accept_rows_sound:
  assumes "accept_event_rows scope k (map event_columns rs) operations = Inr as" "k + length rs \<le> 256"
  shows "accept_chain scope k (map tr_id rs) operations as"
  using assms
proof (induction rs arbitrary: k operations as)
  case Nil
  then show ?case by (simp add: accept_chain_def)
next
  case (Cons r rs)
  obtain a as' where a: "accept_event_row scope k (event_columns r) operations = Inr a" "as = a # as'"
      "accept_event_rows scope (Suc k) (map event_columns rs) (insert (aq_operation (ad_request a)) operations) = Inr as'"
    using Cons.prems(1) by (auto simp: map_ok_eq_Inr)
  have r: "show_int (tr_id r) = show_int (ad_row a)" "unat (aq_expected (ad_request a)) = k" "unat (ad_revision a) = k + 1"
      "aq_scope (ad_request a) = scope" "aq_operation (ad_request a) \<notin> operations" "ad_reconciled a = False"
    using accept_event_row_sound [OF a(1)] Cons.prems(2) by (auto simp: event_columns_def)
  have c: "accept_chain scope (Suc k) (map tr_id rs) (insert (aq_operation (ad_request a)) operations) as'"
    using Cons.IH [OF a(3)] Cons.prems(2) by simp
  have "unat (aq_expected (ad_request (as ! i))) = k + i \<and> unat (ad_revision (as ! i)) = k + i + 1 \<and>
      aq_scope (ad_request (as ! i)) = scope \<and> ad_reconciled (as ! i) = False" if "i < length as" for i
    using that c r a(2) by (cases i) (auto simp: accept_chain_def)
  moreover have "tr_id r = ad_row a" using r(1) by (simp add: show_int_inj)
  ultimately show ?case using c r(5) unfolding accept_chain_def a(2) by auto
qed

section \<open>Reading activations\<close>

abbreviation active_operations :: "activated list \<Rightarrow> string set" where
  "active_operations vs \<equiv> set (map (vq_operation \<circ> vd_request) vs)"

text \<open>The revision after a list of activations, which the next one has to exceed.\<close>

definition revision_after :: "u32 \<Rightarrow> activated list \<Rightarrow> u32" where
  "revision_after revision vs = (if vs = [] then revision else vd_revision (last vs))"

lemma active_event_rows_snoc:
  "active_event_rows scope accepted k (rows @ [row]) operations revision =
     and_then (active_event_rows scope accepted k rows operations revision) (\<lambda>vs.
       map_ok (\<lambda>a. vs @ [a])
         (active_event_row scope accepted (k + length rows) row (operations \<union> active_operations vs) (revision_after revision vs)))"
proof (induction rows arbitrary: k operations revision)
  case Nil
  then show ?case by (cases "active_event_row scope accepted k row operations revision") (simp_all add: revision_after_def)
next
  case (Cons x rows)
  have after: "revision_after (vd_revision a) vs = revision_after revision (a # vs)" for a vs
    by (simp add: revision_after_def)
  show ?case
    using Cons by (cases "active_event_row scope accepted k x operations revision") (auto simp: map_ok_def and_then_def after split: sum.splits)
qed

definition joined :: "accepted list \<Rightarrow> activated \<Rightarrow> bool" where
  "joined accepted v \<longleftrightarrow> (\<exists>a \<in> set accepted. ad_request a = vq_acceptance (vd_request v) \<and> ad_row a < vd_row v)"

definition active_chain :: "trusted_scope \<Rightarrow> accepted list \<Rightarrow> nat \<Rightarrow> int list \<Rightarrow> string set \<Rightarrow> u32 \<Rightarrow> activated list \<Rightarrow> bool" where
  "active_chain scope accepted k ids operations revision vs \<longleftrightarrow> map vd_row vs = ids \<and>
     distinct (map (vq_operation \<circ> vd_request) vs) \<and> active_operations vs \<inter> operations = {} \<and>
     (\<forall>i < length vs. unat (vq_expected (vd_request (vs ! i))) = k + i \<and> unat (vd_generation (vs ! i)) = k + i + 1) \<and>
     sorted_wrt (<) (map (unat \<circ> vd_revision) vs) \<and>
     (\<forall>v \<in> set vs. unat revision < unat (vd_revision v) \<and> joined accepted v \<and> aq_scope (vq_acceptance (vd_request v)) = scope \<and>
        unat (vd_revision v) = unat (aq_expected (vq_acceptance (vd_request v))) + 1)"

lemma active_event_row_sound:
  assumes "active_event_row scope accepted k row operations revision = Inr v" "k \<le> 256"
  shows "row ! 0 = show_int (vd_row v) \<and> unat (vq_expected (vd_request v)) = k \<and> unat (vd_generation v) = k + 1 \<and>
    vq_operation (vd_request v) \<notin> operations \<and> unat revision < unat (vd_revision v) \<and> joined accepted v \<and>
    aq_scope (vq_acceptance (vd_request v)) = scope \<and> unat (vd_revision v) = unat (aq_expected (vq_acceptance (vd_request v))) + 1"
proof -
  have "unat (of_nat k :: u32) = k" using assms(2) by (simp add: unat_of_nat take_bit_nat_eq_self)
  then show ?thesis
    using assms(1)
    by (auto simp: active_event_row_def active_acceptance_def event_text_def active_generation_new_def accepted_revision_new_def accept_i64_def
        joined_def list_ex_iff Let_def split: if_splits dest!: revision_next)
qed

lemma active_event_row_mono:
  assumes "active_event_row scope accepted k row operations revision = Inr v" "set accepted \<subseteq> set accepted'"
  shows "active_event_row scope accepted' k row operations revision = Inr v"
proof -
  have "list_ex p accepted \<Longrightarrow> list_ex p accepted'" for p using assms(2) by (auto simp: list_ex_iff)
  with assms(1) show ?thesis by (auto simp: active_event_row_def Let_def split: if_splits)
qed

lemma active_event_rows_mono:
  assumes "active_event_rows scope accepted k rows operations revision = Inr vs" "set accepted \<subseteq> set accepted'"
  shows "active_event_rows scope accepted' k rows operations revision = Inr vs"
  using assms
proof (induction rows arbitrary: k operations revision vs)
  case (Cons row rows)
  obtain v vs' where v: "active_event_row scope accepted k row operations revision = Inr v" "vs = v # vs'"
      "active_event_rows scope accepted (Suc k) rows (insert (vq_operation (vd_request v)) operations) (vd_revision v) = Inr vs'"
    using Cons.prems(1) by (auto simp: map_ok_eq_Inr)
  then show ?case using active_event_row_mono [OF v(1) Cons.prems(2)] Cons.IH [OF v(3) Cons.prems(2)] by simp
qed simp

lemma active_rows_sound:
  assumes "active_event_rows scope accepted k (map event_columns rs) operations revision = Inr vs" "k + length rs \<le> 256"
  shows "active_chain scope accepted k (map tr_id rs) operations revision vs"
  using assms
proof (induction rs arbitrary: k operations revision vs)
  case Nil
  then show ?case by (simp add: active_chain_def)
next
  case (Cons r rs)
  obtain v vs' where v: "active_event_row scope accepted k (event_columns r) operations revision = Inr v" "vs = v # vs'"
      "active_event_rows scope accepted (Suc k) (map event_columns rs) (insert (vq_operation (vd_request v)) operations) (vd_revision v) = Inr vs'"
    using Cons.prems(1) by (auto simp: map_ok_eq_Inr)
  have r: "show_int (tr_id r) = show_int (vd_row v)" "unat (vq_expected (vd_request v)) = k" "unat (vd_generation v) = k + 1"
      "vq_operation (vd_request v) \<notin> operations" "unat revision < unat (vd_revision v)" "joined accepted v"
      "aq_scope (vq_acceptance (vd_request v)) = scope" "unat (vd_revision v) = unat (aq_expected (vq_acceptance (vd_request v))) + 1"
    using active_event_row_sound [OF v(1)] Cons.prems(2) by (auto simp: event_columns_def)
  have c: "active_chain scope accepted (Suc k) (map tr_id rs) (insert (vq_operation (vd_request v)) operations) (vd_revision v) vs'"
    using Cons.IH [OF v(3)] Cons.prems(2) by simp
  have idx: "unat (vq_expected (vd_request (vs ! i))) = k + i \<and> unat (vd_generation (vs ! i)) = k + i + 1" if "i < length vs" for i
    using that c r(2,3) v(2) by (cases i) (auto simp: active_chain_def)
  have all: "unat revision < unat (vd_revision u) \<and> joined accepted u \<and> aq_scope (vq_acceptance (vd_request u)) = scope \<and>
      unat (vd_revision u) = unat (aq_expected (vq_acceptance (vd_request u))) + 1" if "u \<in> set vs" for u
  proof (cases "u = v")
    case False
    then have "u \<in> set vs'" using that v(2) by simp
    then show ?thesis using c r(5) unfolding active_chain_def by fastforce
  qed (use r in blast)
  have m: "map vd_row vs = map tr_id (r # rs)" "distinct (map (vq_operation \<circ> vd_request) vs)" "active_operations vs \<inter> operations = {}"
    using c r(1,4) by (auto simp: active_chain_def v(2) show_int_inj)
  have "\<forall>u \<in> set vs'. unat (vd_revision v) < unat (vd_revision u)" "sorted_wrt (<) (map (unat \<circ> vd_revision) vs')"
    using c unfolding active_chain_def by blast+
  then have s: "sorted_wrt (<) (map (unat \<circ> vd_revision) vs)" unfolding v(2) by (simp del: One_nat_def)
  show ?case unfolding active_chain_def using m idx all s by blast
qed

lemma active_row_reads:
  assumes "v = \<lparr>vq_operation = operation, vq_expected = expected, vq_acceptance = q\<rparr>" "acceptance_ok q" "id_ok operation"
    and "active_event_bytes v = Inr raw" "length raw \<le> 8192" "0 < i" "in_i64 i" "operation \<notin> operations"
    and "a \<in> set accepted" "ad_request a = q" "ad_row a < i" "unat revision < unat (aq_expected q) + 1"
    and "active_generation_next expected = Inr generation" "accepted_revision_next (aq_expected q) = Inr target"
  shows "active_event_row (aq_scope q) accepted (unat expected) (event_columns (active_row v generation (value_to_json (VText raw)) i)) operations revision =
    Inr \<lparr>vd_row = i, vd_generation = generation, vd_revision = target, vd_request = v, vd_reconciled = False\<rparr>"
proof -
  note n = revision_next(1) [OF assms(14)] and g = revision_next(2) [OF assms(13)]
  let ?f = "[''verdant-active-v1'', operation, show_word expected, show_word generation, scope_text (aq_scope q), aq_operation q,
      show_word (aq_expected q), show_word target, aq_staged q, aq_seal q, ''activated'']"
  let ?r = "active_row v generation (value_to_json (VText raw)) i"
  have raw: "raw = frames_encode ?f"
    using assms(4,13,14) by (simp add: assms(1) active_event_bytes_def del: frames_encode_simps)
  have f: "\<forall>s \<in> set ?f. utf8_valid s" using assms(2,3) by (simp add: acceptance_ok_def trusted_scope_ok_def plain_utf8 plain_def verdant_defs)
  have u: "utf8_valid raw" unfolding raw by (rule frames_utf8 [OF f])
  have tx: "event_text ''NULL activation'' (event_columns ?r) = Inr (i, raw)"
    using event_text_row [of ?r raw "''NULL activation''"] u assms(7) by (simp add: active_row_def control_row_def)
  have d: "accept_decode raw 8192 11 = Inr ?f"
    unfolding raw using f assms(5) [unfolded raw] by (intro accept_decode_encode) (simp_all del: frames_encode_simps)
  have w: "show_word expected = show_nat (unat expected)" "show_word generation = show_nat (unat expected + 1)"
    using conjunct1 [OF g] by (simp_all add: show_word_def)
  have new: "active_generation_new expected = Inr expected" "accepted_revision_new (aq_expected q) = Inr (aq_expected q)"
    using g n by (simp_all add: active_generation_new_def accepted_revision_new_def)
  have cols: "length (event_columns ?r) = 4" "event_columns ?r ! 2 = show_nat (unat expected + 1)" "event_columns ?r ! 3 = ''activation-event''"
    using conjunct1 [OF g] by (simp_all add: event_columns_def active_row_def control_row_def)
  have ids: "id_parse operation_id_kind operation = Inr operation" "id_parse operation_id_kind (aq_operation q) = Inr (aq_operation q)"
      "id_parse operation_id_kind (aq_staged q) = Inr (aq_staged q)" "digest_parse (aq_seal q) = Inr (aq_seal q)"
    using assms(2,3) by (simp_all add: acceptance_ok_def digest_parse_eq)
  have acc: "active_acceptance (aq_scope q) ?f = Inr q"
    using ids new by (simp add: active_acceptance_def)
  have join: "list_ex (\<lambda>a. ad_request a = q \<and> ad_row a < i) accepted" using assms(9-11) by (auto simp: list_ex_iff)
  have rev: "\<not> unat target \<le> unat revision" using conjunct1 [OF n] assms(12) by simp
  show ?thesis
    using assms(6,8) join rev acc
    by (simp add: active_event_row_def cols tx d w new ids assms(1) [symmetric] assms(4,13,14) Let_def)
qed

section \<open>Sizes\<close>

lemma length_frame_1000: "length s < 1000 \<Longrightarrow> length (frame s) \<le> length s + 4"
  using length_show_nat [of "length s" 3] by (simp add: frame_def)

lemma show_u32_short: "length (show_word (w :: u32)) \<le> 10"
proof -
  have "unat w < 2 ^ 32" using unsigned_less [of w] by simp
  also have "\<dots> < (10 :: nat) ^ 10" by simp
  finally show ?thesis using length_show_nat [of "unat w" 10] by (simp add: show_word_def)
qed

lemma active_bytes_short:
  assumes "active_event_bytes v = Inr raw" "acceptance_ok (vq_acceptance v)" "id_ok (vq_operation v)"
  shows "length raw \<le> 8192"
proof -
  let ?q = "vq_acceptance v"
  obtain generation target where raw: "raw = frames_encode [''verdant-active-v1'', vq_operation v, show_word (vq_expected v), show_word (generation :: u32),
      scope_text (aq_scope ?q), aq_operation ?q, show_word (aq_expected ?q), show_word (target :: u32), aq_staged ?q, aq_seal ?q, ''activated'']"
    using assms(1) by (auto simp: active_event_bytes_def Let_def map_ok_eq_Inr simp del: frames_encode_simps)
  have ids: "length (vq_operation v) \<le> 128" "length (scope_text (aq_scope ?q)) \<le> 128" "length (aq_operation ?q) \<le> 128"
      "length (aq_staged ?q) \<le> 128" "length (aq_seal ?q) = 64"
    using assms(2,3) by (simp_all add: acceptance_ok_def trusted_scope_ok_def id_ok_def max_id_len_def digest_ok_length)
  have f: "length (frame f) \<le> 200" if "length f \<le> 128" for f using length_frame_1000 [of f] that by simp
  have w: "length (frame (show_word x)) \<le> 200" for x :: u32 using f show_u32_short [of x] by simp
  show ?thesis unfolding raw
    using f [OF ids(1)] f [OF ids(2)] f [OF ids(3)] f [OF ids(4)] f [of "aq_seal ?q"] ids(5) w [of "vq_expected v"] w [of generation]
      w [of "aq_expected ?q"] w [of target] f [of "''verdant-active-v1''"] f [of "''activated''"]
    by simp
qed

end
