(* ===== verification/Accept_Trace.thy ===== *)
theory Accept_Trace
  imports Accept_Facts Mutation_Facts
begin

text \<open>
  The processes of a node share one outbox. A trace is the sequence of its worlds under submissions: of
  statements that leave the control events alone, of acceptances and of activations, in any order and in any
  environment. In every world of a trace the histories of every scope are readable and chained.
\<close>

section \<open>Control events\<close>

definition control_event :: "table_row \<Rightarrow> bool" where
  "control_event r \<longleftrightarrow> tr_operation r = accept_event \<or> tr_operation r = active_event"

definition control_events :: "outbox_db \<Rightarrow> table_row list" where
  "control_events d = map unclaimed (filter control_event (od_rows d))"

lemma unclaimed_fields [simp]:
  "tr_id (unclaimed r) = tr_id r" "tr_operation (unclaimed r) = tr_operation r" "tr_entity (unclaimed r) = tr_entity r"
  "tr_value (unclaimed r) = tr_value r" "tr_seq (unclaimed r) = tr_seq r" "tr_sensor (unclaimed r) = tr_sensor r"
  by (simp_all add: unclaimed_def)

lemma where_unclaimed [simp]:
  "accept_where scope (unclaimed r) = accept_where scope r" "active_where scope (unclaimed r) = active_where scope r"
  "event_columns (unclaimed r) = event_columns r" "control_event (unclaimed r) = control_event r"
  by (simp_all add: accept_where_def active_where_def event_columns_def control_event_def)

lemma where_control: "accept_where scope r \<Longrightarrow> control_event r" "active_where scope r \<Longrightarrow> control_event r"
  by (simp_all add: accept_where_def active_where_def control_event_def)

definition accept_rows :: "trusted_scope \<Rightarrow> outbox_db \<Rightarrow> table_row list" where
  "accept_rows scope d = filter (accept_where scope) (control_events d)"

definition active_rows :: "trusted_scope \<Rightarrow> outbox_db \<Rightarrow> table_row list" where
  "active_rows scope d = filter (active_where scope) (control_events d)"

lemma filter_events:
  assumes "\<forall>r. p r \<longrightarrow> control_event r" "\<forall>r. p (unclaimed r) = p r"
  shows "filter p (control_events d) = map unclaimed (filter p (od_rows d))"
proof -
  have p: "p \<circ> unclaimed = p" using assms(2) by (simp add: comp_def)
  have "filter p (filter control_event xs) = filter p xs" for xs using assms(1) by (induction xs) auto
  then show ?thesis unfolding control_events_def filter_map p by simp
qed

lemma rows_events:
  "accept_rows scope d = map unclaimed (filter (accept_where scope) (od_rows d))"
  "active_rows scope d = map unclaimed (filter (active_where scope) (od_rows d))"
  unfolding accept_rows_def active_rows_def by (rule filter_events; use where_control in simp)+

lemma count_events:
  "count_rows (accept_where scope) d = length (accept_rows scope d)"
  "count_rows (active_where scope) d = length (active_rows scope d)"
  by (simp_all add: count_rows_def rows_events)

lemma query_events:
  assumes "length (accept_rows scope d) \<le> 256" shows "event_query (accept_where scope) d = map event_columns (accept_rows scope d)"
  using assms by (simp add: event_query_def rows_events comp_def)

lemma query_active:
  assumes "length (active_rows scope d) \<le> 256" shows "event_query (active_where scope) d = map event_columns (active_rows scope d)"
  using assms by (simp add: event_query_def rows_events comp_def)

definition ids_ok :: "outbox_db \<Rightarrow> bool" where
  "ids_ok d \<longleftrightarrow> sorted_wrt (<) (map tr_id (od_rows d)) \<and> (\<forall>r \<in> set (od_rows d). 0 < tr_id r \<and> tr_id r \<le> od_last d) \<and>
     0 \<le> od_last d \<and> od_last d \<le> max_rowid"

lemma append_row_Inr:
  assumes "append_row row d = Inr (d', rows)" "ids_ok d" "\<forall>i. tr_id (row i) = i"
  shows "d' = d\<lparr>od_rows := od_rows d @ [row (od_last d + 1)], od_last := od_last d + 1\<rparr>" "ids_ok d'" "in_i64 (od_last d + 1)"
    "control_events d' = control_events d @ (if control_event (row (od_last d + 1)) then [unclaimed (row (od_last d + 1))] else [])"
proof -
  have d: "od_last d < max_rowid" and d': "d' = d\<lparr>od_rows := od_rows d @ [row (od_last d + 1)], od_last := od_last d + 1\<rparr>"
    using assms(1) by (auto simp: append_row_def Let_def split: if_splits)
  show "d' = d\<lparr>od_rows := od_rows d @ [row (od_last d + 1)], od_last := od_last d + 1\<rparr>" by (rule d')
  show "ids_ok d'" using assms(2,3) d unfolding d' by (auto simp: ids_ok_def sorted_wrt_append)
  show "in_i64 (od_last d + 1)" using assms(2) d by (simp add: ids_ok_def max_rowid_def in_i64_def)
  show "control_events d' = control_events d @ (if control_event (row (od_last d + 1)) then [unclaimed (row (od_last d + 1))] else [])"
    unfolding d' by (simp add: control_events_def)
qed

section \<open>Histories of a world\<close>

definition keys :: "outbox_db world \<Rightarrow> string set" where
  "keys w = set (map fst (wd_receipts w))"

definition accepted_in :: "trusted_scope \<Rightarrow> outbox_db world \<Rightarrow> accepted list \<Rightarrow> bool" where
  "accepted_in scope w as \<longleftrightarrow> length (accept_rows scope (wd_data w)) \<le> 256 \<and>
     accept_event_rows scope 0 (map event_columns (accept_rows scope (wd_data w))) {} = Inr as \<and> accept_operations as \<subseteq> keys w"

definition activated_in :: "trusted_scope \<Rightarrow> outbox_db world \<Rightarrow> accepted list \<Rightarrow> activated list \<Rightarrow> bool" where
  "activated_in scope w as vs \<longleftrightarrow> length (active_rows scope (wd_data w)) \<le> 256 \<and>
     active_event_rows scope as 0 (map event_columns (active_rows scope (wd_data w))) {} 0 = Inr vs \<and> active_operations vs \<subseteq> keys w"

definition histories_ok :: "outbox_db world \<Rightarrow> bool" where
  "histories_ok w \<longleftrightarrow> ids_ok (wd_data w) \<and> (\<forall>scope. \<exists>as vs. accepted_in scope w as \<and> activated_in scope w as vs)"

lemma accepted_chain: "accepted_in scope w as \<Longrightarrow> accept_chain scope 0 (map tr_id (accept_rows scope (wd_data w))) {} as"
  using accept_rows_sound [of scope 0 "accept_rows scope (wd_data w)" "{}" as] by (simp add: accepted_in_def)

lemma activated_chain:
  "activated_in scope w as vs \<Longrightarrow> active_chain scope as 0 (map tr_id (active_rows scope (wd_data w))) {} 0 vs"
  using active_rows_sound [of scope as 0 "active_rows scope (wd_data w)" "{}" 0 vs] by (simp add: activated_in_def)

lemma exec_script_healthy: "healthy se \<Longrightarrow> exec_script se q w = Inr (q (wd_data w))"
  by (simp add: exec_script_def query_rows_def healthy_def failing_def)

lemma exec_script_Inr: "exec_script se q w = Inr rows \<Longrightarrow> rows = q (wd_data w)"
  by (auto simp: exec_script_def query_rows_def)

lemma accept_history_in:
  assumes "accepted_in scope w as" shows "accept_history_of scope (event_query (accept_where scope) (wd_data w)) = Inr as"
  using assms by (simp add: accept_history_of_def accepted_in_def query_events)

lemma accept_history_reads: "accepted_in scope w as \<Longrightarrow> healthy se \<Longrightarrow> accept_history se scope w = Inr as"
  by (simp add: accept_history_def exec_script_healthy accept_history_in)

lemma accept_history_read: "accepted_in scope w as \<Longrightarrow> accept_history se scope w = Inr as' \<Longrightarrow> as' = as"
  using accept_history_in [of scope w as] by (auto simp: accept_history_def dest!: exec_script_Inr)

lemma active_history_in:
  assumes "activated_in scope w as vs"
  shows "length (event_query (active_where scope) (wd_data w)) \<le> 256"
    "active_event_rows scope as 0 (event_query (active_where scope) (wd_data w)) {} 0 = Inr vs"
  using assms by (simp_all add: activated_in_def query_active)

lemma active_history_reads:
  "accepted_in scope w as \<Longrightarrow> activated_in scope w as vs \<Longrightarrow> healthy se \<Longrightarrow> active_history se scope w w = Inr vs"
  by (simp add: active_history_def exec_script_healthy accept_history_reads active_history_in not_less)

lemma active_history_read:
  "accepted_in scope w as \<Longrightarrow> activated_in scope w as vs \<Longrightarrow> active_history se scope w w = Inr vs' \<Longrightarrow> vs' = vs"
  using active_history_in [of scope w as vs]
  by (auto simp: active_history_def not_less split: if_splits dest!: exec_script_Inr accept_history_read)

section \<open>Steps\<close>

lemma scope_eq [simp]:
  "accept_entity s = accept_entity s' \<longleftrightarrow> s = s'" "active_entity s = active_entity s'  \<longleftrightarrow> s = s'" for s s' :: trusted_scope
  by (cases s; cases s'; simp add: accept_entity_def active_entity_def)+

lemma accept_row_fields [simp]:
  "tr_id (accept_row q json i) = i" "control_event (accept_row q json i)" "active_where s (accept_row q json i) = False"
  "accept_where s (accept_row q json i) \<longleftrightarrow> s = aq_scope q"
  "unclaimed (accept_row q json i) = accept_row q json i"
  by (auto simp: accept_row_def control_row_def control_event_def active_where_def accept_where_def accept_event_def active_event_def unclaimed_def)

lemma active_row_fields [simp]:
  "tr_id (active_row v g json i) = i" "control_event (active_row v g json i)" "accept_where s (active_row v g json i) = False"
  "active_where s (active_row v g json i) \<longleftrightarrow> s = aq_scope (vq_acceptance v)"
  "unclaimed (active_row v g json i) = active_row v g json i"
  by (auto simp: active_row_def control_row_def control_event_def active_where_def accept_where_def accept_event_def active_event_def unclaimed_def)

lemma accepted_in_mono:
  "accepted_in scope w as \<Longrightarrow> accept_rows scope (wd_data w') = accept_rows scope (wd_data w) \<Longrightarrow> keys w \<subseteq> keys w' \<Longrightarrow> accepted_in scope w' as"
  by (auto simp: accepted_in_def)

lemma activated_in_mono:
  "activated_in scope w as vs \<Longrightarrow> active_rows scope (wd_data w') = active_rows scope (wd_data w) \<Longrightarrow> keys w \<subseteq> keys w' \<Longrightarrow>
     set as \<subseteq> set as' \<Longrightarrow> activated_in scope w' as' vs"
  unfolding activated_in_def by (auto intro: active_event_rows_mono)

lemma chain_row_bound:
  assumes "ids_ok d" "accept_chain scope 0 (map tr_id (accept_rows scope d)) {} as" "a \<in> set as"
  shows "0 < ad_row a \<and> ad_row a \<le> od_last d"
proof -
  have "ad_row a \<in> set (map ad_row as)" using assms(3) by simp
  then have "ad_row a \<in> set (map tr_id (accept_rows scope d))" using assms(2) unfolding accept_chain_def by metis
  then show ?thesis using assms(1) by (auto simp: rows_events ids_ok_def)
qed

text \<open>A scope whose events are extended by the row of an acceptance, in a later world.\<close>

lemma accept_adds:
  assumes s: "accepted_in (aq_scope q) w as" "ids_ok (wd_data w)"
    and q: "acceptance_ok q" "utf8_valid actor" "accept_event_bytes q actor = Inr raw" "length raw \<le> 8192" "in_i64 (od_last (wd_data w) + 1)"
    and rows: "accept_rows (aq_scope q) (wd_data w') = accept_rows (aq_scope q) (wd_data w) @ [accept_row q (value_to_json (VText raw)) (od_last (wd_data w) + 1)]"
    and cas: "count_rows (accept_where (aq_scope q)) (wd_data w) = unat (aq_expected q)" and new: "aq_operation q \<notin> keys w"
    and k: "insert (aq_operation q) (keys w) \<subseteq> keys w'"
  shows "accepted_in (aq_scope q) w' (as @ [\<lparr>ad_row = od_last (wd_data w) + 1, ad_revision = aq_expected q + 1, ad_request = q, ad_actor = actor,
    ad_reconciled = False\<rparr>])"
proof -
  have n: "length (accept_rows (aq_scope q) (wd_data w)) = unat (aq_expected q)" using cas by (simp add: count_events)
  have lt: "unat (aq_expected q) < 256"
    using q(3) revision_next(1) by (cases "accepted_revision_next (aq_expected q)") (auto simp: accept_event_bytes_def)
  have "0 < od_last (wd_data w) + 1" "aq_operation q \<notin> {} \<union> accept_operations as"
    using s new by (auto simp: ids_ok_def accepted_in_def)
  note r = accept_row_reads [OF q(1-4) this(1) q(5) this(2)]
  show ?thesis using s(1) r n lt k rows unfolding accepted_in_def by (simp add: accept_event_rows_snoc) auto
qed

lemma accept_keeps:
  assumes h: "histories_ok w" and q: "acceptance_ok q" "utf8_valid actor" "accept_event_bytes q actor = Inr raw" "length raw \<le> 8192"
    and run: "append_row (accept_row q (value_to_json (VText raw))) (wd_data w) = Inr (d', rows)"
    and cas: "count_rows (accept_where (aq_scope q)) (wd_data w) = unat (aq_expected q)" and new: "aq_operation q \<notin> keys w"
    and w': "w' = \<lparr>wd_data = d', wd_receipts = (aq_operation q, receipt) # wd_receipts w\<rparr>"
  shows "histories_ok w'" "control_events (wd_data w') = control_events (wd_data w) @ [accept_row q (value_to_json (VText raw)) (od_last (wd_data w) + 1)]"
    "accepted_in (aq_scope q) w as \<Longrightarrow> accepted_in (aq_scope q) w' (as @ [\<lparr>ad_row = od_last (wd_data w) + 1, ad_revision = aq_expected q + 1,
       ad_request = q, ad_actor = actor, ad_reconciled = False\<rparr>])"
proof -
  let ?i = "od_last (wd_data w) + 1" and ?row = "accept_row q (value_to_json (VText raw))"
  have ids: "ids_ok (wd_data w)" using h by (simp add: histories_ok_def)
  note a = append_row_Inr [OF run ids, simplified]
  show ev: "control_events (wd_data w') = control_events (wd_data w) @ [?row ?i]" using a(4) by (simp add: w')
  have act: "active_rows s (wd_data w') = active_rows s (wd_data w)" for s by (simp add: active_rows_def ev)
  have acc: "accept_rows s (wd_data w') = accept_rows s (wd_data w) @ (if s = aq_scope q then [?row ?i] else [])" for s
    by (simp add: accept_rows_def ev)
  have k: "keys w \<subseteq> keys w'" "insert (aq_operation q) (keys w) \<subseteq> keys w'" by (auto simp: keys_def w')
  have adds: "accepted_in (aq_scope q) w' (as @ [\<lparr>ad_row = ?i, ad_revision = aq_expected q + 1, ad_request = q, ad_actor = actor, ad_reconciled = False\<rparr>])"
    if "accepted_in (aq_scope q) w as" for as
    by (rule accept_adds [OF that ids q a(3) _ cas new k(2)]) (simp add: acc)
  then show "accepted_in (aq_scope q) w as \<Longrightarrow> accepted_in (aq_scope q) w' (as @ [\<lparr>ad_row = ?i, ad_revision = aq_expected q + 1,
       ad_request = q, ad_actor = actor, ad_reconciled = False\<rparr>])" .
  have "\<exists>as vs. accepted_in s w' as \<and> activated_in s w' as vs" for s
  proof -
    obtain as vs where s: "accepted_in s w as" "activated_in s w as vs" using h unfolding histories_ok_def by blast
    show ?thesis
    proof (cases "s = aq_scope q")
      case False
      then show ?thesis using accepted_in_mono [OF s(1) _ k(1)] activated_in_mono [OF s(2) act k(1) order_refl] by (auto simp: acc)
    next
      case True
      have "activated_in s w' (as @ [a]) vs" for a by (rule activated_in_mono [OF s(2) act k(1)]) auto
      then show ?thesis using adds s(1) True by blast
    qed
  qed
  then show "histories_ok w'" using a(2) by (simp add: histories_ok_def w')
qed

text \<open>The order that was checked in an earlier world of the trace.\<close>

definition ordered_in :: "outbox_db world \<Rightarrow> activation_request \<Rightarrow> accepted \<Rightarrow> bool" where
  "ordered_in w v current \<longleftrightarrow> (\<exists>as vs. accepted_in (aq_scope (vq_acceptance v)) w as \<and> activated_in (aq_scope (vq_acceptance v)) w as vs \<and>
     as \<noteq> [] \<and> current = last as \<and> ad_request current = vq_acceptance v \<and> unat (vq_expected v) = length vs \<and>
     unat (revision_after 0 vs) < unat (ad_revision current))"

lemma chain_last_revision: "accept_chain scope 0 ids operations as \<Longrightarrow> as \<noteq> [] \<Longrightarrow> unat (ad_revision (last as)) = length as"
  by (auto simp: accept_chain_def last_conv_nth)

lemma chain_revision: "accept_chain scope 0 ids operations as \<Longrightarrow> a \<in> set as \<Longrightarrow>
    unat (ad_revision a) = unat (aq_expected (ad_request a)) + 1 \<and> unat (ad_revision a) \<le> length as"
  by (auto simp: accept_chain_def in_set_conv_nth)

lemma order_checked:
  assumes h: "histories_ok w" and c: "check_activation_order se v None w = Inr current"
  shows "ordered_in w v current"
proof -
  let ?s = "aq_scope (vq_acceptance v)"
  obtain as vs where s: "accepted_in ?s w as" "activated_in ?s w as vs" using h unfolding histories_ok_def by blast
  note ac = accepted_chain [OF s(1)] and vc = activated_chain [OF s(2)]
  obtain active where a: "active_now se ?s w w = Inr active" "activation_order v None active (accept_current se ?s w) = Inr current"
    using c by (auto simp: check_activation_order_def Let_def)
  then have active: "active = last_of vs" using active_history_read [OF s] by (auto simp: active_now_def map_ok_eq_Inr)
  have "accept_current se ?s w = Inr (Some current)" and q: "ad_request current = vq_acceptance v" and e: "vq_expected v = generation_of active"
    and ne: "\<And>x. active = Some x \<Longrightarrow> vd_revision x \<noteq> ad_revision current"
    using a(2) by (auto simp: activation_order_def split: if_splits option.splits)
  then have as: "as \<noteq> []" "current = last as"
    using accept_history_read [OF s(1)] by (auto simp: accept_current_def map_ok_eq_Inr last_of_def split: if_splits)
  note rev = chain_last_revision [OF ac as(1)]
  have "unat (vq_expected v) = length vs \<and> unat (revision_after 0 vs) < unat (ad_revision current)"
  proof (cases "vs = []")
    case True
    then show ?thesis using as rev by (simp add: e active last_of_def generation_of_def revision_after_def)
  next
    case False
    then have l: "last vs \<in> set vs" "last vs = vs ! (length vs - 1)" by (simp_all add: last_conv_nth)
    have "unat (vd_generation (last vs)) = length vs" using vc False unfolding active_chain_def l(2) by simp
    moreover have j: "joined as (last vs)" "unat (vd_revision (last vs)) = unat (aq_expected (vq_acceptance (vd_request (last vs)))) + 1"
      using vc l(1) unfolding active_chain_def by blast+
    obtain a where "a \<in> set as" "ad_request a = vq_acceptance (vd_request (last vs))" using j(1) unfolding joined_def by blast
    then have "unat (vd_revision (last vs)) \<le> length as" using chain_revision [OF ac] j(2) by fastforce
    moreover have "unat (vd_revision (last vs)) \<noteq> unat (ad_revision current)"
      using ne [of "last vs"] False by (simp add: active last_of_def word_unat_eq_iff)
    ultimately show ?thesis using rev False as(2) by (simp add: e active last_of_def generation_of_def revision_after_def)
  qed
  with s as q show ?thesis unfolding ordered_in_def by blast
qed


text \<open>What was checked then still holds when the guards pass: nothing was accepted or activated in between.\<close>

lemma ordered_now:
  assumes h: "histories_ok w" and o: "ordered_in w0 v current" and ev: "control_events (wd_data w) = control_events (wd_data w0) @ ms"
    and n: "count_rows (active_where (aq_scope (vq_acceptance v))) (wd_data w) = unat (vq_expected v)"
      "count_rows (accept_where (aq_scope (vq_acceptance v))) (wd_data w) = unat (ad_revision current)"
  shows "ordered_in w v current"
proof -
  let ?s = "aq_scope (vq_acceptance v)"
  obtain as vs where a: "accepted_in ?s w0 as" "activated_in ?s w0 as vs" "as \<noteq> []" "current = last as" "ad_request current = vq_acceptance v"
      "unat (vq_expected v) = length vs" "unat (revision_after 0 vs) < unat (ad_revision current)"
    using o unfolding ordered_in_def by blast
  have l: "length (accept_rows ?s (wd_data w0)) = length as" "length (active_rows ?s (wd_data w0)) = length vs"
    using accepted_chain [OF a(1)] activated_chain [OF a(2)] by (metis accept_chain_def length_map, metis active_chain_def length_map)
  have "length (accept_rows ?s (wd_data w)) = length (accept_rows ?s (wd_data w0))"
      "length (active_rows ?s (wd_data w)) = length (active_rows ?s (wd_data w0))"
    using n chain_last_revision [OF accepted_chain [OF a(1)] a(3)] a(4,6) l by (simp_all add: count_events)
  then have rows: "accept_rows ?s (wd_data w) = accept_rows ?s (wd_data w0)" "active_rows ?s (wd_data w) = active_rows ?s (wd_data w0)"
    by (simp_all add: accept_rows_def active_rows_def ev)
  obtain as' vs' where b: "accepted_in ?s w as'" "activated_in ?s w as' vs'" using h unfolding histories_ok_def by blast
  then have "as' = as" using a(1) by (simp add: accepted_in_def rows)
  moreover from this have "vs' = vs" using a(2) b(2) by (simp add: activated_in_def rows)
  ultimately show ?thesis using a b unfolding ordered_in_def by blast
qed

lemma active_adds:
  assumes v: "acceptance_ok (vq_acceptance v)" "id_ok (vq_operation v)" "active_event_bytes v = Inr raw" "length raw \<le> 8192"
      "active_generation_next (vq_expected v) = Inr generation" "in_i64 (od_last (wd_data w) + 1)" and ids: "ids_ok (wd_data w)"
    and s: "accepted_in (aq_scope (vq_acceptance v)) w as" "activated_in (aq_scope (vq_acceptance v)) w as vs" "as \<noteq> []" "current = last as"
      "ad_request current = vq_acceptance v" "unat (vq_expected v) = length vs" "unat (revision_after 0 vs) < unat (ad_revision current)"
    and rows: "accept_rows (aq_scope (vq_acceptance v)) (wd_data w') = accept_rows (aq_scope (vq_acceptance v)) (wd_data w)"
      "active_rows (aq_scope (vq_acceptance v)) (wd_data w') = active_rows (aq_scope (vq_acceptance v)) (wd_data w) @
        [active_row v generation (value_to_json (VText raw)) (od_last (wd_data w) + 1)]"
    and new: "vq_operation v \<notin> keys w" and k: "insert (vq_operation v) (keys w) \<subseteq> keys w'"
  shows "accepted_in (aq_scope (vq_acceptance v)) w' as \<and> activated_in (aq_scope (vq_acceptance v)) w' as (vs @ [\<lparr>vd_row = od_last (wd_data w) + 1,
    vd_generation = generation, vd_revision = ad_revision current, vd_request = v, vd_reconciled = False\<rparr>])"
proof -
  let ?s = "aq_scope (vq_acceptance v)" and ?i = "od_last (wd_data w) + 1"
  note c = accepted_chain [OF s(1)]
  have cur: "current \<in> set as" using s(3,4) by simp
  have n: "length (active_rows ?s (wd_data w)) = length vs" using activated_chain [OF s(2)] by (metis active_chain_def length_map)
  have lt: "length vs < 256" using revision_next(2) [OF v(5)] s(6) by simp
  obtain target where t: "accepted_revision_next (aq_expected (vq_acceptance v)) = Inr target"
    using v(3,5) by (cases "accepted_revision_next (aq_expected (vq_acceptance v))") (auto simp: active_event_bytes_def)
  have row: "0 < ?i" "ad_row current < ?i" using chain_row_bound [OF ids c cur] by simp_all
  have op: "vq_operation v \<notin> {} \<union> active_operations vs" using new s(2) by (auto simp: activated_in_def)
  have rev: "unat (ad_revision current) = unat (aq_expected (vq_acceptance v)) + 1" using chain_revision [OF c cur] s(5) by simp
  then have target: "target = ad_revision current" using revision_next(1) [OF t] by (simp add: word_unat_eq_iff)
  have eta: "v = \<lparr>vq_operation = vq_operation v, vq_expected = vq_expected v, vq_acceptance = vq_acceptance v\<rparr>" by simp
  have after: "unat (revision_after 0 vs) < unat (aq_expected (vq_acceptance v)) + 1" using s(7) rev by simp
  note r = active_row_reads [OF eta v(1-4) row(1) v(6) op cur s(5) row(2) after v(5) t, unfolded target]
  have acc': "accepted_in ?s w' as" by (rule accepted_in_mono [OF s(1) rows(1)]) (use k in blast)
  moreover have "activated_in ?s w' as (vs @ [\<lparr>vd_row = ?i, vd_generation = generation, vd_revision = ad_revision current, vd_request = v,
      vd_reconciled = False\<rparr>])"
    using s(2,6,7) r n lt k rows(2) unfolding activated_in_def by (simp add: active_event_rows_snoc) auto
  ultimately show ?thesis ..
qed

lemma active_keeps:
  assumes h: "histories_ok w" and v: "acceptance_ok (vq_acceptance v)" "id_ok (vq_operation v)" "active_event_bytes v = Inr raw" "length raw \<le> 8192"
      "active_generation_next (vq_expected v) = Inr generation"
    and run: "append_row (active_row v generation (value_to_json (VText raw))) (wd_data w) = Inr (d', rows)"
    and o: "ordered_in w v current" and new: "vq_operation v \<notin> keys w"
    and w': "w' = \<lparr>wd_data = d', wd_receipts = (vq_operation v, receipt) # wd_receipts w\<rparr>"
  shows "histories_ok w'" "control_events (wd_data w') = control_events (wd_data w) @ [active_row v generation (value_to_json (VText raw)) (od_last (wd_data w) + 1)]"
    "\<exists>as vs. accepted_in (aq_scope (vq_acceptance v)) w as \<and> activated_in (aq_scope (vq_acceptance v)) w as vs \<and> as \<noteq> [] \<and> last as = current \<and>
       ad_request current = vq_acceptance v \<and> unat (vq_expected v) = length vs \<and> accepted_in (aq_scope (vq_acceptance v)) w' as \<and>
       activated_in (aq_scope (vq_acceptance v)) w' as (vs @ [\<lparr>vd_row = od_last (wd_data w) + 1, vd_generation = generation,
         vd_revision = ad_revision current, vd_request = v, vd_reconciled = False\<rparr>])"
proof -
  let ?i = "od_last (wd_data w) + 1" and ?row = "active_row v generation (value_to_json (VText raw))"
  let ?s = "aq_scope (vq_acceptance v)"
  have ids: "ids_ok (wd_data w)" using h by (simp add: histories_ok_def)
  note a = append_row_Inr [OF run ids, simplified]
  show ev: "control_events (wd_data w') = control_events (wd_data w) @ [?row ?i]" using a(4) by (simp add: w')
  have acc: "accept_rows s (wd_data w') = accept_rows s (wd_data w)" for s by (simp add: accept_rows_def ev)
  have act: "active_rows s (wd_data w') = active_rows s (wd_data w) @ (if s = ?s then [?row ?i] else [])" for s
    by (simp add: active_rows_def ev)
  have k: "keys w \<subseteq> keys w'" "insert (vq_operation v) (keys w) \<subseteq> keys w'" by (auto simp: keys_def w')
  obtain as vs where s: "accepted_in ?s w as" "activated_in ?s w as vs" "as \<noteq> []" "current = last as" "ad_request current = vq_acceptance v"
      "unat (vq_expected v) = length vs" "unat (revision_after 0 vs) < unat (ad_revision current)"
    using o unfolding ordered_in_def by blast
  have adds: "accepted_in ?s w' as \<and> activated_in ?s w' as (vs @ [\<lparr>vd_row = ?i, vd_generation = generation, vd_revision = ad_revision current,
      vd_request = v, vd_reconciled = False\<rparr>])"
    by (rule active_adds [OF v a(3) ids s acc _ new k(2)]) (simp add: act)
  then show "\<exists>as vs. accepted_in ?s w as \<and> activated_in ?s w as vs \<and> as \<noteq> [] \<and> last as = current \<and>
       ad_request current = vq_acceptance v \<and> unat (vq_expected v) = length vs \<and> accepted_in ?s w' as \<and>
       activated_in ?s w' as (vs @ [\<lparr>vd_row = ?i, vd_generation = generation, vd_revision = ad_revision current, vd_request = v, vd_reconciled = False\<rparr>])"
    using s by blast
  have "\<exists>as vs. accepted_in s w' as \<and> activated_in s w' as vs" for s
  proof (cases "s = ?s")
    case False
    obtain as vs where s: "accepted_in s w as" "activated_in s w as vs" using h unfolding histories_ok_def by blast
    show ?thesis using accepted_in_mono [OF s(1) acc k(1)] activated_in_mono [OF s(2) _ k(1) order_refl] False by (auto simp: act)
  qed (use adds in blast)
  then show "histories_ok w'" using a(2) by (simp add: histories_ok_def w')
qed

section \<open>Traces\<close>

text \<open>A statement of the rest of the node: its row identities ascend and it adds no control event.\<close>

definition quiet :: "outbox_db prepared \<Rightarrow> bool" where
  "quiet p \<longleftrightarrow> (\<forall>d d' rows. ids_ok d \<longrightarrow> bd_run (pm_body p) d = Inr (d', rows) \<longrightarrow> ids_ok d' \<and> control_events d' = control_events d)"

text \<open>
  The worlds of a node, the newest first. A ticket of activation was prepared in any of the worlds that came
  before, a ticket of acceptance against anything at all: the guards they carry decide.
\<close>

inductive node_trace :: "string \<Rightarrow> outbox_db world list \<Rightarrow> bool" for identity where
  begin_trace: "ids_ok start \<Longrightarrow> control_events start = [] \<Longrightarrow> node_trace identity [opened start]"
| quietly: "node_trace identity (w # ws) \<Longrightarrow> se_identity se = identity \<Longrightarrow> quiet p \<Longrightarrow> submit_mutation se p w = (p', w', out) \<Longrightarrow>
    node_trace identity (w' # w # ws)"
| accepting: "node_trace identity (w # ws) \<Longrightarrow> se_identity se = identity \<Longrightarrow> acceptance_ok q \<Longrightarrow>
    accept_event_bytes q (actor_fields report) = Inr raw \<Longrightarrow> length raw \<le> 8192 \<Longrightarrow>
    submit_mutation se (accept_ticket pv identity generated auth registry_guard sd q (value_to_json (VText raw))) w = (p', w', out) \<Longrightarrow>
    node_trace identity (w' # w # ws)"
| activating: "node_trace identity (w # ws) \<Longrightarrow> se_identity se = identity \<Longrightarrow> acceptance_ok (vq_acceptance v) \<Longrightarrow> id_ok (vq_operation v) \<Longrightarrow>
    w0 \<in> set (w # ws) \<Longrightarrow> check_activation_order se0 v None w0 = Inr current \<Longrightarrow>
    active_generation_next (vq_expected v) = Inr generation \<Longrightarrow> active_event_bytes v = Inr raw \<Longrightarrow>
    submit_mutation se (active_ticket identity generated v generation (value_to_json (VText raw)) current accepted_json sd) w = (p', w', out) \<Longrightarrow>
    node_trace identity (w' # w # ws)"

definition trace_ok :: "outbox_db world list \<Rightarrow> bool" where
  "trace_ok ws \<longleftrightarrow> ws \<noteq> [] \<and> (\<forall>w \<in> set ws. histories_ok w \<and> (\<exists>ms. control_events (wd_data (hd ws)) = control_events (wd_data w) @ ms))"

lemma trace_ok_step:
  assumes "trace_ok (w # ws)" "histories_ok w' \<and> (\<exists>ms. control_events (wd_data w') = control_events (wd_data w) @ ms)"
  shows "trace_ok (w' # w # ws)"
  using assms unfolding trace_ok_def by auto

lemma histories_quiet:
  assumes "histories_ok w" "ids_ok (wd_data w')" "control_events (wd_data w') = control_events (wd_data w)" "keys w \<subseteq> keys w'"
  shows "histories_ok w'"
proof -
  have rows: "accept_rows s (wd_data w') = accept_rows s (wd_data w)" "active_rows s (wd_data w') = active_rows s (wd_data w)" for s
    using assms(3) by (simp_all add: accept_rows_def active_rows_def)
  show ?thesis unfolding histories_ok_def
    using assms(1,2) accepted_in_mono [OF _ rows(1) assms(4)] activated_in_mono [OF _ rows(2) assms(4) order_refl]
    unfolding histories_ok_def by blast
qed

lemma execute_Inr:
  assumes "execute se p w = Inr (w', rows)"
  obtains d where "bd_run (pm_body p) (wd_data w) = Inr (d, rows)"
    "w' = \<lparr>wd_data = d, wd_receipts = (pm_operation p, request_of p, encode_response rows) # wd_receipts w\<rparr>"
  using assms by (auto simp: execute_def)

lemma fresh_key: "map_of (wd_receipts w) operation = None \<longleftrightarrow> operation \<notin> keys w"
  by (simp add: keys_def map_of_eq_None_iff)

lemma accept_ticket_run:
  assumes "bd_run (pm_body (accept_ticket pv identity generated auth registry_guard sd q json)) d = Inr (d', rows)"
  shows "append_row (accept_row q json) d = Inr (d', rows)" "count_rows (accept_where (aq_scope q)) d = unat (aq_expected q)"
    "vw_sql pv (au_guard auth) d" "vw_sql pv registry_guard d" "gd_holds (sealed_guard sd) d"
  using assms by (auto simp: accept_ticket_def prepare_guarded_batch_def with_operation_def prepared_new_def guarded_batch_def accept_body_def
      both_def Let_def split: if_splits)

lemma accept_ticket_live:
  assumes "bd_run (pm_body (accept_ticket pv identity generated auth registry_guard sd q json)) d = Inr (d', rows)"
  shows "case authority_expiry auth of None \<Rightarrow> True | Some t \<Rightarrow> vw_live pv t"
  using assms by (auto simp: accept_ticket_def prepare_guarded_batch_def with_operation_def prepared_new_def guarded_batch_def accept_body_def
      both_def Let_def split: if_splits option.splits)

lemma active_ticket_run:
  assumes "bd_run (pm_body (active_ticket identity generated v generation json current accepted_json sd)) d = Inr (d', rows)"
  shows "append_row (active_row v generation json) d = Inr (d', rows)"
    "count_rows (active_where (aq_scope (vq_acceptance v))) d = unat (vq_expected v)"
    "count_rows (accept_where (aq_scope (vq_acceptance v))) d = unat (ad_revision current)"
    "\<exists>r \<in> set (od_rows d). tr_id r = ad_row current \<and> tr_value r = accepted_json" "gd_holds (sealed_guard sd) d"
  using assms by (auto simp: active_ticket_def prepare_guarded_batch_def with_operation_def prepared_new_def guarded_batch_def active_body_def
      generation_guard_def current_guard_def list_ex_iff Let_def split: if_splits)

lemma ticket_operation [simp]:
  "pm_operation (accept_ticket pv identity generated auth registry_guard sd q json) = aq_operation q"
  "pm_operation (active_ticket identity generated v generation json current accepted_json sd) = vq_operation v"
  by (simp_all add: accept_ticket_def active_ticket_def with_operation_def Let_def)

lemma trace_sound: "node_trace identity ws \<Longrightarrow> trace_ok ws"
proof (induction rule: node_trace.induct)
  case (begin_trace start)
  have "accepted_in s (opened start) [] \<and> activated_in s (opened start) [] []" for s
    using begin_trace by (simp add: accepted_in_def activated_in_def accept_rows_def active_rows_def opened_def)
  then show ?case using begin_trace by (auto simp: trace_ok_def histories_ok_def opened_def)
next
  case (quietly w ws se p p' w' out)
  from quietly(4) show ?case
  proof (cases rule: submit_cases)
    case (ran rows)
    then obtain d where d: "bd_run (pm_body p) (wd_data w) = Inr (d, rows)"
        "w' = \<lparr>wd_data = d, wd_receipts = (pm_operation p, request_of p, encode_response rows) # wd_receipts w\<rparr>" by (auto elim: execute_Inr)
    have h: "histories_ok w" using quietly.IH by (simp add: trace_ok_def)
    then have "ids_ok d \<and> control_events d = control_events (wd_data w)" using quietly(3) d(1) unfolding quiet_def histories_ok_def by blast
    then have "histories_ok w'" by (intro histories_quiet [OF h]) (auto simp: d(2) keys_def)
    then show ?thesis using trace_ok_step [OF quietly.IH] \<open>ids_ok d \<and> _\<close> by (simp add: d(2))
  qed (use quietly.IH in \<open>auto simp: trace_ok_def\<close>)
next
  case (accepting w ws se q report raw pv generated auth registry_guard sd p' w' out)
  from accepting(6) show ?case
  proof (cases rule: submit_cases)
    case (ran rows)
    from ran(3) obtain d where d: "bd_run (pm_body (accept_ticket pv identity generated auth registry_guard sd q (value_to_json (VText raw)))) (wd_data w) = Inr (d, rows)"
        "w' = \<lparr>wd_data = d, wd_receipts = (aq_operation q, request_of (accept_ticket pv identity generated auth registry_guard sd q (value_to_json (VText raw))), encode_response rows) # wd_receipts w\<rparr>"
      by (rule execute_Inr) (simp only: ticket_operation)
    have h: "histories_ok w" using accepting.IH by (simp add: trace_ok_def)
    have new: "aq_operation q \<notin> keys w" using ran(2) by (simp add: fresh_key)
    note kept = accept_keeps [OF h accepting(3) actor_fields_utf8 accepting(4,5) accept_ticket_run(1,2) [OF d(1)] new d(2)]
    show ?thesis by (rule trace_ok_step [OF accepting.IH]) (use kept(1,2) in blast)
  qed (use accepting.IH in \<open>auto simp: trace_ok_def\<close>)
next
  case (activating w ws se v w0 se0 current generation raw generated accepted_json sd p' w' out)
  from activating(9) show ?case
  proof (cases rule: submit_cases)
    case (ran rows)
    let ?t = "active_ticket identity generated v generation (value_to_json (VText raw)) current accepted_json sd"
    from ran(3) obtain d where d: "bd_run (pm_body ?t) (wd_data w) = Inr (d, rows)"
        "w' = \<lparr>wd_data = d, wd_receipts = (vq_operation v, request_of ?t, encode_response rows) # wd_receipts w\<rparr>"
      by (rule execute_Inr) (simp only: ticket_operation)
    have h: "histories_ok w" using activating.IH by (simp add: trace_ok_def)
    have "histories_ok w0" "\<exists>ms. control_events (wd_data w) = control_events (wd_data w0) @ ms"
      using activating.IH activating(5) unfolding trace_ok_def by auto
    then obtain ms where "control_events (wd_data w) = control_events (wd_data w0) @ ms" "ordered_in w0 v current"
      using order_checked activating(6) by blast
    then have "ordered_in w v current" using ordered_now [OF h _ _ active_ticket_run(2,3) [OF d(1)]] by blast
    moreover have "vq_operation v \<notin> keys w" using ran(2) by (simp add: fresh_key)
    ultimately have kept: "histories_ok w'"
        "control_events (wd_data w') = control_events (wd_data w) @ [active_row v generation (value_to_json (VText raw)) (od_last (wd_data w) + 1)]"
      using active_keeps(1,2) [OF h activating(3,4,8) active_bytes_short [OF activating(8,3,4)] activating(7) active_ticket_run(1) [OF d(1)] _ _ d(2)] by blast+
    show ?thesis by (rule trace_ok_step [OF activating.IH]) (use kept in blast)
  qed (use activating.IH in \<open>auto simp: trace_ok_def\<close>)
qed

end
