(* ===== verification/Accept_Tickets.thy ===== *)
theory Accept_Tickets
  imports Accept_Trace Store_Properties Seal_Examples
begin

text \<open>
  The tickets that the processes of a node submit: the statements that leave the control events alone, the
  tickets that preparations hand out, and what becomes of a submission in a store that answers.
\<close>

section \<open>Statements beside the control events\<close>

lemma control_events_unclaimed: "control_events d = filter control_event (map unclaimed (od_rows d))"
  by (simp add: control_events_def filter_map comp_def)

lemma ids_unclaimed: "ids_ok d \<longleftrightarrow> sorted_wrt (<) (map (tr_id \<circ> unclaimed) (od_rows d)) \<and>
    (\<forall>i \<in> set (map (tr_id \<circ> unclaimed) (od_rows d)). 0 < i \<and> i \<le> od_last d) \<and> 0 \<le> od_last d \<and> od_last d \<le> max_rowid"
  by (simp add: ids_ok_def comp_def)

lemma quiet_rows:
  assumes "map unclaimed (od_rows d') = map unclaimed (od_rows d)" "od_last d' = od_last d"
  shows "ids_ok d' = ids_ok d" "control_events d' = control_events d"
  using assms by (simp_all add: ids_unclaimed control_events_unclaimed flip: map_map)

lemma unclaimed_restate [simp]: "unclaimed (r\<lparr>tr_status := s, tr_claimed := c\<rparr>) = unclaimed r" "unclaimed (r\<lparr>tr_status := s\<rparr>) = unclaimed r"
  by (simp_all add: unclaimed_def)

lemma append_quiet:
  assumes "append_row row d = Inr (d', rows)" "ids_ok d" "\<forall>i. tr_id (row i) = i" "\<not> control_event (row (od_last d + 1))"
  shows "ids_ok d' \<and> control_events d' = control_events d"
  using append_row_Inr [OF assms(1-3)] assms(4) by simp

text \<open>The statements of the outbox are quiet; an insertion is when its operation is not that of an event.\<close>

lemma insert_row_quiet:
  assumes "bd_run (insert_body row) d = Inr (d', rows)" "ids_ok d" "\<forall>i. tr_id (row i) = i" "\<not> control_event (row (od_last d + 1))"
  shows "ids_ok d' \<and> control_events d' = control_events d"
proof -
  have "od_last d < max_rowid" "od_rows d' = od_rows d @ [row (od_last d + 1)]" "od_last d' = od_last d + 1"
    using assms(1) by (auto simp: insert_body_def mark_dirty_def Let_def split: if_splits)
  then show ?thesis using assms(2-4) by (auto simp: ids_ok_def control_events_def sorted_wrt_append)
qed

lemma new_row_fields: "tr_id (new_row i operation entity sensor v u t rec) = i" "tr_operation (new_row i operation entity sensor v u t rec) = operation"
  by (simp_all add: new_row_def)

lemma insert_quiet:
  assumes "pm_body p = insert_body (\<lambda>i. new_row i operation entity sensor v u t rec)" "operation \<notin> {accept_event, active_event}"
  shows "quiet p"
proof -
  have "ids_ok d' \<and> control_events d' = control_events d" if "ids_ok d" "bd_run (pm_body p) d = Inr (d', rows)" for d d' rows
    using insert_row_quiet [OF that(2) [unfolded assms(1)] that(1)] assms(2) by (simp add: new_row_fields control_event_def)
  then show ?thesis unfolding quiet_def by blast
qed

lemma update_quiet:
  assumes "\<forall>d. bd_run (pm_body p) d = update_rows hit f d" "\<forall>r. unclaimed (f r) = unclaimed r"
  shows "quiet p"
proof -
  have m: "map unclaimed (map (\<lambda>r. if hit r then f r else r) rs) = map unclaimed rs" for rs
    by (induction rs) (simp_all add: assms(2))
  have "ids_ok d' \<and> control_events d' = control_events d" if "ids_ok d" "bd_run (pm_body p) d = Inr (d', rows)" for d d' rows
  proof -
    have d': "od_rows d' = map (\<lambda>r. if hit r then f r else r) (od_rows d)" "od_last d' = od_last d"
      using that(2) assms(1) by (auto simp: update_rows_def)
    have "map unclaimed (od_rows d') = map unclaimed (od_rows d)" unfolding d'(1) by (rule m)
    then show ?thesis using quiet_rows [OF _ d'(2)] that(1) by blast
  qed
  then show ?thesis unfolding quiet_def by blast
qed

lemma statement_quiet:
  assumes "outbox_statement p" "\<forall>f. pm_body p = insert_body f \<longrightarrow> tr_operation (f 0) \<notin> {accept_event, active_event}"
  shows "quiet p"
  using assms(1)
proof cases
  case (stmt_insert operation entity sensor v u t rec)
  then show ?thesis using assms(2) by (intro insert_quiet) (auto simp: new_row_def)
next
  case (stmt_claim token n)
  have m: "map unclaimed (map (\<lambda>r. if hit r then claimed_row token r else r) rs) = map unclaimed rs" for rs hit
    by (induction rs) (simp_all add: claimed_row_def)
  have "ids_ok d' \<and> control_events d' = control_events d" if "ids_ok d" "bd_run (pm_body p) d = Inr (d', rows)" for d d' rows
  proof -
    have d': "od_rows d' = map (\<lambda>r. if tr_id r \<in> set (queued_ids n d) then claimed_row token r else r) (od_rows d)" "od_last d' = od_last d"
      using that(2) stmt_claim by (auto simp: claim_body_def Let_def)
    have "map unclaimed (od_rows d') = map unclaimed (od_rows d)" unfolding d'(1) by (rule m)
    then show ?thesis using quiet_rows [OF _ d'(2)] that(1) by blast
  qed
  then show ?thesis unfolding quiet_def by blast
next
  case (stmt_ack token i)
  then show ?thesis by (intro update_quiet) (auto simp: ack_body_def)
next
  case (stmt_requeue token i)
  then show ?thesis by (intro update_quiet) (auto simp: requeue_body_def)
next
  case (stmt_recalculated entity generation)
  have "od_rows d' = od_rows d \<and> od_last d' = od_last d" if "bd_run (pm_body p) d = Inr (d', rows)" for d d' rows
    using that stmt_recalculated by (auto simp: recalculated_body_def split: option.splits)
  then show ?thesis unfolding quiet_def using quiet_rows by metis
qed

lemma stage_quiet:
  assumes "stage_operation (st_operation st) = Inr u" shows "quiet (stage_ticket identity generated st)"
proof -
  have "\<not> control_event (staged_row st i)" for i
    using assms by (auto simp: stage_operation_def control_event_def staged_row_def control_row_def accept_event_def active_event_def split: if_splits)
  moreover have "tr_id (staged_row st i) = i" for i by (simp add: staged_row_def control_row_def)
  ultimately show ?thesis using append_quiet
    by (auto simp: quiet_def stage_ticket_def with_operation_def prepare_guarded_batch_def prepared_new_def guarded_batch_def insert_control_def
        split: if_splits)
qed

section \<open>Tickets\<close>

text \<open>What the preparations hand out are the tickets of the trace.\<close>

definition sealed_ok :: "sealed \<Rightarrow> bool" where
  "sealed_ok sd \<longleftrightarrow> trusted_scope_ok (ef_scope (st_config (sd_staged sd))) \<and> id_ok (st_operation (sd_staged sd)) \<and> digest_ok (sd_identity sd)"

lemma accept_prepared:
  assumes "accept_prepare_in mo pv identity generated operation expected sd credential r w = Inr pa" "id_ok operation" "sealed_ok sd"
  shows "\<exists>auth raw. authority_of (vw_authority pv) (Some credential) (aq_scope (pa_request pa)) Drive = Inr auth \<and>
    accept_event_bytes (pa_request pa) (actor_fields (au_report auth)) = Inr raw \<and>
    pa_ticket pa = accept_ticket pv identity generated auth (rg_guard r) sd (pa_request pa) (value_to_json (VText raw)) \<and>
    acceptance_ok (pa_request pa) \<and> aq_operation (pa_request pa) = operation \<and> aq_expected (pa_request pa) = expected \<and> pa_sealed pa = sd"
  using assms by (auto simp: accept_prepare_in_def acceptance_ok_def sealed_ok_def Let_def split: if_splits)

lemma activation_prepared:
  assumes "prepare_activation mo k identity generated v w = Inr va"
  shows "\<exists>generation current raw accepted_raw. check_activation_order (mo_env mo k) v None w = Inr current \<and>
    active_generation_next (vq_expected v) = Inr generation \<and> active_event_bytes v = Inr raw \<and>
    va_ticket va = active_ticket identity generated v generation (value_to_json (VText raw)) current (value_to_json (VText accepted_raw)) (va_sealed va)"
  using assms by (auto simp: prepare_activation_def)


section \<open>Submissions that change the tables\<close>

lemma submit_changes:
  assumes "submit_mutation se p w = (p', w', out)" "wd_data w' \<noteq> wd_data w"
  obtains d rows where "map_of (wd_receipts w) (pm_operation p) = None" "bd_run (pm_body p) (wd_data w) = Inr (d, rows)"
    "w' = \<lparr>wd_data = d, wd_receipts = (pm_operation p, request_of p, encode_response rows) # wd_receipts w\<rparr>"
  using assms(1)
proof (cases rule: submit_cases)
  case (ran rows)
  then show ?thesis using that by (auto elim!: execute_Inr)
qed (use assms(2) in simp)

lemma row_answer_valid: "0 < i \<Longrightarrow> in_i64 i \<Longrightarrow> validate_rows ShapeInsert [[show_int i], [''1'']] = Inr ()"
  by (simp add: scalar_cell_def positive_id_def)

lemma undisturbed_submits:
  assumes "pm_store p = ''store-a''" "pm_shape p = ShapeInsert" "pm_payload p \<le> 65536" "map_of (wd_receipts w) (pm_operation p) = None"
    and "bd_run (pm_body p) (wd_data w) = Inr (d, [[show_int i], [''1'']])" "0 < i" "in_i64 i"
  shows "submit_mutation (example_environment CommitDone) p w = (p\<lparr>pm_attempted := True\<rparr>,
    \<lparr>wd_data = d, wd_receipts = (pm_operation p, request_of p, encode_response [[show_int i], [''1'']]) # wd_receipts w\<rparr>,
    MCommitted (pm_operation p) [[show_int i], [''1'']])"
proof -
  have "unat (saturating_add 0 (of_nat (pm_payload p) :: u64)) \<le> 67108864"
    using assms(3) by (simp add: saturating_add_def checked_add_def unat_of_nat take_bit_nat_eq_self)
  then have "insert_checks (example_environment CommitDone) p = Inr ()"
    using assms(2,3) by (simp add: insert_checks_def example_environment_def store_bounds_tiny_def not_less)
  moreover have "se_identity (example_environment CommitDone) = ''store-a''" "se_admission (example_environment CommitDone) = None"
      "se_query (example_environment CommitDone) = None" "se_record (example_environment CommitDone) = None"
      "se_fate (example_environment CommitDone) = CommitDone"
    by (simp_all add: example_environment_def)
  ultimately show ?thesis using assms row_answer_valid [OF assms(6,7)]
    by (simp add: submit_mutation_def receipt_of_def failing_def execute_def Let_def mutation_result_def del: validate_rows.simps)
qed


lemma accept_undisturbed:
  assumes "accept_event_bytes q (actor_fields report) = Inr raw" "length raw \<le> 8192" "aq_operation q \<notin> keys w" "ids_ok (wd_data w)"
    and "od_last (wd_data w) < max_rowid" "count_rows (accept_where (aq_scope q)) (wd_data w) = unat (aq_expected q)"
    and "vw_sql pv (au_guard auth) (wd_data w)" "vw_sql pv registry_guard (wd_data w)" "gd_holds (sealed_guard sd) (wd_data w)"
    and "authority_expiry auth = None"
  shows "\<exists>p' w' out. submit_mutation (example_environment CommitDone)
      (accept_ticket pv ''store-a'' generated auth registry_guard sd q (value_to_json (VText raw))) w = (p', w', out) \<and>
    od_rows (wd_data w') = od_rows (wd_data w) @ [accept_row q (value_to_json (VText raw)) (od_last (wd_data w) + 1)] \<and>
    od_last (wd_data w') = od_last (wd_data w) + 1 \<and> keys w' = insert (aq_operation q) (keys w)"
proof -
  let ?p = "accept_ticket pv ''store-a'' generated auth registry_guard sd q (value_to_json (VText raw))" and ?i = "od_last (wd_data w) + 1"
  let ?d = "(wd_data w)\<lparr>od_rows := od_rows (wd_data w) @ [accept_row q (value_to_json (VText raw)) ?i], od_last := ?i\<rparr>"
  have p: "pm_store ?p = ''store-a''" "pm_shape ?p = ShapeInsert" "pm_payload ?p \<le> 65536"
    using length_text_json [of raw] assms(2) by (simp_all add: accept_ticket_def with_operation_def prepare_guarded_batch_def prepared_new_def Let_def)
  have r: "map_of (wd_receipts w) (pm_operation ?p) = None" using assms(3) by (simp add: fresh_key)
  have b: "bd_run (pm_body ?p) (wd_data w) = Inr (?d, [[show_int ?i], [''1'']])"
    using assms(5-) by (simp add: accept_ticket_def with_operation_def prepare_guarded_batch_def prepared_new_def guarded_batch_def both_def
        accept_body_def append_row_def Let_def)
  have i: "0 < ?i" "in_i64 ?i" using assms(4,5) by (simp_all add: ids_ok_def max_rowid_def in_i64_def)
  from undisturbed_submits [OF p r b i] show ?thesis by (simp add: keys_def)
qed

lemma active_undisturbed:
  assumes "active_event_bytes v = Inr raw" "length raw \<le> 8192" "vq_operation v \<notin> keys w" "ids_ok (wd_data w)" "od_last (wd_data w) < max_rowid"
    and "count_rows (active_where (aq_scope (vq_acceptance v))) (wd_data w) = unat (vq_expected v)"
      "count_rows (accept_where (aq_scope (vq_acceptance v))) (wd_data w) = unat (ad_revision current)"
    and "\<exists>r \<in> set (od_rows (wd_data w)). tr_id r = ad_row current \<and> tr_value r = accepted_json" "gd_holds (sealed_guard sd) (wd_data w)"
  shows "\<exists>p' w' out. submit_mutation (example_environment CommitDone)
      (active_ticket ''store-a'' generated v generation (value_to_json (VText raw)) current accepted_json sd) w = (p', w', out) \<and>
    od_rows (wd_data w') = od_rows (wd_data w) @ [active_row v generation (value_to_json (VText raw)) (od_last (wd_data w) + 1)]"
proof -
  let ?p = "active_ticket ''store-a'' generated v generation (value_to_json (VText raw)) current accepted_json sd" and ?i = "od_last (wd_data w) + 1"
  let ?d = "(wd_data w)\<lparr>od_rows := od_rows (wd_data w) @ [active_row v generation (value_to_json (VText raw)) ?i], od_last := ?i\<rparr>"
  have p: "pm_store ?p = ''store-a''" "pm_shape ?p = ShapeInsert" "pm_payload ?p \<le> 65536"
    using length_text_json [of raw] assms(2) by (simp_all add: active_ticket_def with_operation_def prepare_guarded_batch_def prepared_new_def Let_def)
  have r: "map_of (wd_receipts w) (pm_operation ?p) = None" using assms(3) by (simp add: fresh_key)
  have b: "bd_run (pm_body ?p) (wd_data w) = Inr (?d, [[show_int ?i], [''1'']])"
    using assms(5-) by (auto simp: active_ticket_def with_operation_def prepare_guarded_batch_def prepared_new_def guarded_batch_def
        active_body_def append_row_def generation_guard_def current_guard_def list_ex_iff Let_def)
  have i: "0 < ?i" "in_i64 ?i" using assms(4,5) by (simp_all add: ids_ok_def max_rowid_def in_i64_def)
  from undisturbed_submits [OF p r b i] show ?thesis by simp
qed

end
