(* ===== verification/Accept_Properties.thy ===== *)
theory Accept_Properties
  imports Accept_Tickets
begin

text \<open>
  What the acceptance of configurations promises: a configuration is read back as it was written, the
  difference of two configurations sorts their keys, and the histories of a scope that the processes of a
  node write together stay chained, each event admitted by the conditions it was decided under.
\<close>

section \<open>Configurations\<close>

definition example_meaning :: config_entry where
  "example_meaning = \<lparr>ce_key = ''ahu-1'', ce_label = ''Supply'', ce_binding = example_binding, ce_source = SkDomain\<rparr>"

lemma example_meaning_length: "length (config_entry_encode (example_meaning\<lparr>ce_source := s\<rparr>)) \<le> 600"
proof -
  have "length (source_kind_as_str s) \<le> 20" by (cases s) simp_all
  then show ?thesis
    using example_canonical_length length_frame_1000 [of "canonical_bytes example_binding"] length_frame_1000 [of "source_kind_as_str s"]
      length_frame_1000 [of "''ahu-1''"] length_frame_1000 [of "''Supply''"]
    by (simp add: config_entry_encode_def example_meaning_def)
qed

lemma example_meaning_ok:
  "config_entry_ok example_scope (example_meaning\<lparr>ce_source := SkDomain\<rparr>)"
  "config_entry_ok example_scope (example_meaning\<lparr>ce_source := SkTemporaryIntent\<rparr>)"
proof -
  have b: "binding_ok example_binding" "separator_free example_binding" "pb_point_scope example_binding = example_scope"
      "pb_endpoint_scope example_binding = example_scope"
    using example_pending_ok(1) example_sealable by (simp_all add: example_pending_def sealable_def example_binding_def)
  have l: "\<not> has_control ''Supply''" "utf8_valid ''Supply''" by (simp_all add: plain_utf8 plain_def verdant_defs)
  show "config_entry_ok example_scope (example_meaning\<lparr>ce_source := SkDomain\<rparr>)"
      "config_entry_ok example_scope (example_meaning\<lparr>ce_source := SkTemporaryIntent\<rparr>)"
    using b l example_meaning_length [of SkDomain] example_meaning_length [of SkTemporaryIntent]
    by (simp_all add: config_entry_ok_def example_meaning_def)
qed

text \<open>C36: A configuration that was resolved from typed sources in shape is read back from its bytes exactly, and whatever
  bytes decode to a configuration are the bytes of that configuration: there is no second spelling. The shape bounds what
  the code's types leave open: a source's entry has at most 4096 bytes, no separator in a unit or mode of its binding and no
  mode that is a dash (they resolve all the same, but are not read back), and there are at most 256 findings,
  each within the bounds of a fact.\<close>

theorem effective_round_trip:
  assumes "config_of g r scope domain intent = Inr c" "trusted_scope_ok scope" "utf8_valid (ef_reason c)"
    and "\<forall>e \<in> set domain. config_entry_ok scope (e\<lparr>ce_source := SkDomain\<rparr>)"
    and "\<forall>e \<in> set intent. config_entry_ok scope (e\<lparr>ce_source := SkTemporaryIntent\<rparr>)"
    and "\<forall>f \<in> set (rg_findings r). observed_fact_ok (observed_fact_of f)" "length (rg_findings r) \<le> 256"
  shows "config_decode (config_bytes c) = Inr c \<and> (\<forall>raw. config_decode raw = Inr c \<longleftrightarrow> raw = config_bytes c)"
  using config_round_trip [OF config_of_ok [OF assms]] config_decode_sound by blast

theorem effective_round_trip_witness:
  "\<exists>g c. config_of g (cleared_registry 0) example_scope [example_meaning] [example_meaning] = Inr c \<and>
     map fst (ef_entries c) = [''ahu-1''] \<and> config_decode (config_bytes c) = Inr c"
proof -
  obtain rc pc b where boot: "bootstrap example_empty 1 0 ''install'' = Inr (rc, pc, b)" using example_bootstrap by blast
  let ?g = "\<lparr>gv_horizon = 64, gv_scan = Inr (written [1, 2, 3] b), gv_now = Inr 5\<rparr>"
  obtain st where st: "read_state 64 (Inr (written [1, 2, 3] b)) = Inr st" "as_count st = 3"
      and core: "core st = ([issue_row_of rc \<lparr>scope_text = ''scope-a''\<rparr> 1 Reviewer ''install'' synthetic_label_text (policy_entry_only None),
        issue_row_of pc \<lparr>scope_text = ''scope-a''\<rparr> 2 Publisher ''install'' synthetic_label_text bootstrap_policy], [], [bootstrap_marker ''install''])"
      and caps: "cred_capability rc = reviewer_cap_text" "cred_key_id rc = reviewer_key_text"
        "cred_capability pc = publisher_cap_text" "cred_key_id pc = publisher_key_text"
    by (rule bootstrap_core [OF boot example_made(1), of 1 2 3 64]) (simp_all add: in_i64_def)
  have "require_bootstrapped st = Inr ()"
    using core st(2) caps by (auto simp: require_bootstrapped_iff core_def bootstrap_marker_def issue_row_of_def)
  then have reason: "bootstrap_reason ?g = Inr ''install''"
    using st(1) core by (simp add: bootstrap_reason_def core_def bootstrap_marker_def)
  let ?e = "example_meaning\<lparr>ce_source := SkTemporaryIntent\<rparr>"
  let ?c = "\<lparr>ef_scope = example_scope, ef_revision = 0, ef_reason = ''install'', ef_entries = [(''ahu-1'', ?e)], ef_facts = []\<rparr>"
  have "pb_point_scope example_binding = example_scope" "pb_endpoint_scope example_binding = example_scope"
    by (simp_all add: example_binding_def)
  moreover have "length (config_bytes ?c) \<le> 16384"
    using example_meaning_length [of SkTemporaryIntent] length_frame_1000 [of "config_entry_encode ?e"]
      length_frame_1000 [of "frame (config_entry_encode ?e)"] length_frame_1000 [of "show_word (0 :: u32)"]
      length_show_word [of "0 :: u32" 1] length_frame_1000 [of "''verdant-effective-v1''"] length_frame_1000 [of "''scope-a''"]
      length_frame_1000 [of "''install''"] length_frame_1000 [of "[]"]
    by (simp add: config_bytes_def)
  ultimately have c: "config_of ?g (cleared_registry 0) example_scope [example_meaning] [example_meaning] = Inr ?c"
    by (simp add: config_of_def reason resolve_source_def cleared_registry_def example_meaning_def Let_def)
  have "config_decode (config_bytes ?c) = Inr ?c"
    using effective_round_trip [OF c] example_meaning_ok by (simp add: cleared_registry_def plain_utf8 plain_def verdant_defs)
  with c show ?thesis by (intro exI [of _ ?g] exI [of _ ?c]) simp
qed

section \<open>The difference\<close>

lemma in_bt_get: "bt_ok m \<Longrightarrow> (k, v) \<in> set m \<longleftrightarrow> bt_get m k = Some v"
  by (simp add: bt_get_def bt_ok_distinct)

lemma in_bt_dom: "k \<in> bt_dom m \<longleftrightarrow> (\<exists>v. bt_get m k = Some v)"
  by (metis bt_get_None_iff not_None_eq)

lemma member_bt_get: "(k, v) \<in> set m \<Longrightarrow> \<exists>v. bt_get m k = Some v"
  unfolding in_bt_dom [symmetric] bt_dom_def by force

lemma impact_fields:
  assumes "bt_ok (ef_entries new)"
  shows "im_added (impact_from new old) = bt_dom (ef_entries new) - bt_dom (ef_entries old)"
    "im_removed (impact_from new old) = bt_dom (ef_entries old) - bt_dom (ef_entries new)"
    "k \<in> im_invalidated (impact_from new old) \<longleftrightarrow>
       (\<exists>e p. bt_get (ef_entries new) k = Some e \<and> bt_get (ef_entries old) k = Some p \<and> ce_binding e \<noteq> ce_binding p)"
    "k \<in> im_preserved (impact_from new old) \<longleftrightarrow>
       (\<exists>e p. bt_get (ef_entries new) k = Some e \<and> bt_get (ef_entries old) k = Some p \<and> ce_binding e = ce_binding p)"
    "k \<in> im_cosmetic (impact_from new old) \<longleftrightarrow>
       (\<exists>e p. bt_get (ef_entries new) k = Some e \<and> bt_get (ef_entries old) k = Some p \<and> ce_binding e = ce_binding p \<and> ce_label e \<noteq> ce_label p)"
  using impact_fold [of "ef_entries old" "ef_entries new"]
  by (auto simp: impact_from_def Let_def in_bt_dom in_bt_get [OF assms] bt_get_None_iff [symmetric] dest: member_bt_get)
    (auto simp: bt_dom_def [symmetric] in_bt_dom)

lemma bt_extensional:
  assumes "bt_ok m" "bt_ok n" "\<forall>k. bt_get m k = bt_get n k" shows "m = n"
proof -
  have s: "set m = set n" using assms(3) in_bt_get [OF assms(1)] in_bt_get [OF assms(2)] by auto
  then have f: "map fst m = map fst n"
    using assms(1,2) by (intro strict_sorted_equal) (auto simp: bt_ok_def)
  have e: "map (\<lambda>k. (k, the (bt_get m k))) (map fst m) = m" if "bt_ok m" for m :: "('a \<times> 'b) list"
    unfolding map_map using in_bt_get [OF that] by (intro map_idI) auto
  have "(\<lambda>k. (k, the (bt_get m k))) = (\<lambda>k. (k, the (bt_get n k)))" using assms(3) by simp
  then show ?thesis using e [OF assms(1)] e [OF assms(2)] f by simp
qed

text \<open>C37: The difference of two configurations sorts their keys: added and removed are the keys of one side, every
  common key is either invalidated, when its binding changed, or preserved, and cosmetic changes are preserved keys
  under another label. A difference that reports nothing means that the entries, the facts, the revision and the
  reason are the same.\<close>

theorem impact_partition:
  assumes "config_ok new" "config_ok old"
  shows "im_added (impact_from new old) = bt_dom (ef_entries new) - bt_dom (ef_entries old) \<and>
    im_removed (impact_from new old) = bt_dom (ef_entries old) - bt_dom (ef_entries new) \<and>
    im_invalidated (impact_from new old) \<union> im_preserved (impact_from new old) = bt_dom (ef_entries new) \<inter> bt_dom (ef_entries old) \<and>
    im_invalidated (impact_from new old) \<inter> im_preserved (impact_from new old) = {} \<and>
    im_cosmetic (impact_from new old) \<subseteq> im_preserved (impact_from new old) \<and>
    (im_added (impact_from new old) = {} \<and> im_removed (impact_from new old) = {} \<and> im_invalidated (impact_from new old) = {} \<and>
       im_cosmetic (impact_from new old) = {} \<and> \<not> im_provenance (impact_from new old) \<longleftrightarrow>
     new\<lparr>ef_scope := ef_scope old\<rparr> = old)"
proof -
  have ok: "bt_ok (ef_entries new)" "bt_ok (ef_entries old)" using assms by (simp_all add: config_ok_def)
  note f = impact_fields [OF ok(1), where old = old]
  have parts: "im_invalidated (impact_from new old) \<union> im_preserved (impact_from new old) = bt_dom (ef_entries new) \<inter> bt_dom (ef_entries old)"
      "im_invalidated (impact_from new old) \<inter> im_preserved (impact_from new old) = {}"
      "im_cosmetic (impact_from new old) \<subseteq> im_preserved (impact_from new old)"
    by (auto simp: f(3-5) in_bt_dom)
  have nothing: "new\<lparr>ef_scope := ef_scope old\<rparr> = old"
    if n: "im_added (impact_from new old) = {}" "im_removed (impact_from new old) = {}" "im_invalidated (impact_from new old) = {}"
      "im_cosmetic (impact_from new old) = {}" "\<not> im_provenance (impact_from new old)"
  proof -
    have "bt_get (ef_entries new) k = bt_get (ef_entries old) k" for k
    proof (cases "bt_get (ef_entries new) k")
      case None
      then show ?thesis using n(1,2) unfolding f(1,2) by (metis DiffI bt_get_None_iff empty_iff)
    next
      case (Some e)
      moreover from this obtain p where p: "bt_get (ef_entries old) k = Some p" using n(1) unfolding f(1) by (metis DiffI empty_iff in_bt_dom)
      moreover have "ce_binding e = ce_binding p" "ce_label e = ce_label p" using f(3,5) [of k] n(3,4) Some p by auto
      moreover have "ce_source e = ce_source p"
        using n(5) Some p by (auto simp: impact_from_def Let_def list_ex_iff in_bt_get [OF ok(1), symmetric] split: option.splits)
      moreover have "ce_key e = k" "ce_key p = k"
        using Some p assms by (auto simp: config_ok_def in_bt_get [OF ok(1), symmetric] in_bt_get [OF ok(2), symmetric])
      ultimately show ?thesis by simp
    qed
    then have "ef_entries new = ef_entries old" using ok bt_extensional by blast
    then show ?thesis using n(5) by (cases new; cases old) (simp add: impact_from_def Let_def)
  qed
  moreover have "im_added (impact_from new old) = {} \<and> im_removed (impact_from new old) = {} \<and> im_invalidated (impact_from new old) = {} \<and>
      im_cosmetic (impact_from new old) = {} \<and> \<not> im_provenance (impact_from new old)" if "new\<lparr>ef_scope := ef_scope old\<rparr> = old"
  proof -
    have e: "ef_entries old = ef_entries new" "ef_reason old = ef_reason new" "ef_facts old = ef_facts new" "ef_revision old = ef_revision new"
      using that by (cases new; cases old; simp)+
    then have "im_invalidated (impact_from new old) = {}" "im_cosmetic (impact_from new old) = {}" using f(3,5) by auto
    moreover have "\<not> im_provenance (impact_from new old)"
      using e by (auto simp: impact_from_def Let_def list_ex_iff in_bt_get [OF ok(1)])
    ultimately show ?thesis using f(1,2) e by simp
  qed
  ultimately show ?thesis using f(1,2) parts by blast
qed

theorem impact_partition_witness:
  "\<exists>new old. ef_revision new \<noteq> ef_revision old \<and> im_removed (impact_from new old) = {} \<and>
     im_invalidated (impact_from new old) \<union> im_preserved (impact_from new old) = {''ahu-1''}"
proof -
  let ?c = "\<lambda>n :: u32. \<lparr>ef_scope = example_scope, ef_revision = n, ef_reason = ''install'', ef_entries = [(''ahu-1'', example_meaning)], ef_facts = []\<rparr>"
  have "config_entry_ok example_scope example_meaning"
    using example_meaning_ok(1) by (simp add: example_meaning_def)
  moreover have "length (config_bytes (?c n)) \<le> 16384" for n
    using example_meaning_length [of SkDomain] length_frame_1000 [of "config_entry_encode example_meaning"]
      length_frame_1000 [of "frame (config_entry_encode example_meaning)"] length_frame_1000 [of "show_word n"] show_u32_short [of n]
      length_frame_1000 [of "''verdant-effective-v1''"] length_frame_1000 [of "''scope-a''"] length_frame_1000 [of "''install''"]
      length_frame_1000 [of "[]"]
    by (simp add: config_bytes_def example_meaning_def)
  ultimately have "config_ok (?c n)" for n
    by (simp add: config_ok_def plain_utf8 plain_def verdant_defs) (simp add: example_meaning_def)
  from impact_partition [OF this [of 1] this [of 0]] show ?thesis by (intro exI [of _ "?c 1"] exI [of _ "?c 0"]) simp
qed

section \<open>Histories\<close>

lemma accept_event_rows_append:
  assumes "accept_event_rows scope k (xs @ ys) operations = Inr as" "accept_event_rows scope k xs operations = Inr bs"
  shows "\<exists>cs. as = bs @ cs"
  using assms
proof (induction xs arbitrary: k operations as bs)
  case (Cons x xs)
  then obtain a as' bs' where a: "accept_event_row scope k x operations = Inr a" "as = a # as'" "bs = a # bs'"
      "accept_event_rows scope (Suc k) (xs @ ys) (insert (aq_operation (ad_request a)) operations) = Inr as'"
      "accept_event_rows scope (Suc k) xs (insert (aq_operation (ad_request a)) operations) = Inr bs'"
    by (auto simp: map_ok_eq_Inr)
  from Cons.IH [OF a(4,5)] a show ?case by auto
qed simp

lemma active_event_rows_append:
  assumes "active_event_rows scope accepted k (xs @ ys) operations revision = Inr as" "active_event_rows scope accepted k xs operations revision = Inr bs"
  shows "\<exists>cs. as = bs @ cs"
  using assms
proof (induction xs arbitrary: k operations revision as bs)
  case (Cons x xs)
  then obtain a as' bs' where a: "active_event_row scope accepted k x operations revision = Inr a" "as = a # as'" "bs = a # bs'"
      "active_event_rows scope accepted (Suc k) (xs @ ys) (insert (vq_operation (vd_request a)) operations) (vd_revision a) = Inr as'"
      "active_event_rows scope accepted (Suc k) xs (insert (vq_operation (vd_request a)) operations) (vd_revision a) = Inr bs'"
    by (auto simp: map_ok_eq_Inr)
  from Cons.IH [OF a(4,5)] a show ?case by auto
qed simp

lemma histories_grow:
  assumes "control_events (wd_data w) = control_events (wd_data v) @ ms" "accepted_in scope w as" "activated_in scope w as vs"
    "accepted_in scope v as0" "activated_in scope v as0 vs0"
  shows "(\<exists>cs. as = as0 @ cs) \<and> (\<exists>cs. vs = vs0 @ cs)"
proof
  have acc: "accept_rows scope (wd_data w) = accept_rows scope (wd_data v) @ filter (accept_where scope) ms"
    and act: "active_rows scope (wd_data w) = active_rows scope (wd_data v) @ filter (active_where scope) ms"
    by (simp_all add: accept_rows_def active_rows_def assms(1))
  show p: "\<exists>cs. as = as0 @ cs"
    using accept_event_rows_append [of scope 0 "map event_columns (accept_rows scope (wd_data v))"] assms(2,4)
    by (auto simp: accepted_in_def acc)
  then have "set as0 \<subseteq> set as" by auto
  then have "active_event_rows scope as 0 (map event_columns (active_rows scope (wd_data v))) {} 0 = Inr vs0"
    using assms(5) active_event_rows_mono unfolding activated_in_def by blast
  then show "\<exists>cs. vs = vs0 @ cs"
    using active_event_rows_append [of scope as 0 "map event_columns (active_rows scope (wd_data v))"] assms(3)
    by (auto simp: activated_in_def act)
qed

lemma rows_ascend:
  assumes "ids_ok d" shows "sorted_wrt (<) (map tr_id (accept_rows scope d))" "sorted_wrt (<) (map tr_id (active_rows scope d))"
  using assms sorted_wrt_filter [of "\<lambda>a b. tr_id a < tr_id b" "od_rows d"]
  by (auto simp: ids_ok_def rows_events sorted_wrt_map)

text \<open>C3: Whatever the processes of a node do to the shared outbox, in any order, over any failures and retries,
  the histories of every scope stay readable and only grow: acceptances are numbered one after the other, each event
  answers its own operation, rows ascend; every activation follows an acceptance of the same request with a smaller
  row, generations are numbered one after the other and the activated revisions strictly increase.\<close>

theorem control_histories:
  assumes "node_trace identity (w # ws)" "v \<in> set (w # ws)" "healthy se" "healthy se0"
  shows "\<exists>as vs as0 vs0. accept_history se scope w = Inr (as0 @ as) \<and> active_history se scope w w = Inr (vs0 @ vs) \<and>
    accept_history se0 scope v = Inr as0 \<and> active_history se0 scope v v = Inr vs0 \<and>
    (\<forall>i < length (as0 @ as). unat (ad_revision ((as0 @ as) ! i)) = i + 1 \<and> unat (aq_expected (ad_request ((as0 @ as) ! i))) = i \<and>
       aq_scope (ad_request ((as0 @ as) ! i)) = scope) \<and>
    distinct (map (aq_operation \<circ> ad_request) (as0 @ as)) \<and> sorted_wrt (<) (map ad_row (as0 @ as)) \<and>
    (\<forall>i < length (vs0 @ vs). unat (vd_generation ((vs0 @ vs) ! i)) = i + 1 \<and> unat (vq_expected (vd_request ((vs0 @ vs) ! i))) = i) \<and>
    distinct (map (vq_operation \<circ> vd_request) (vs0 @ vs)) \<and> sorted_wrt (<) (map vd_row (vs0 @ vs)) \<and>
    sorted_wrt (<) (map (unat \<circ> vd_revision) (vs0 @ vs)) \<and>
    (\<forall>x \<in> set (vs0 @ vs). \<exists>a \<in> set (as0 @ as). ad_request a = vq_acceptance (vd_request x) \<and> ad_revision a = vd_revision x \<and> ad_row a < vd_row x)"
proof -
  have t: "trace_ok (w # ws)" by (rule trace_sound [OF assms(1)])
  then have h: "histories_ok w" "histories_ok v" using assms(2) unfolding trace_ok_def by auto
  obtain ms where ms: "control_events (wd_data w) = control_events (wd_data v) @ ms"
    using t assms(2) unfolding trace_ok_def by force
  obtain as vs where s: "accepted_in scope w as" "activated_in scope w as vs" using h(1) unfolding histories_ok_def by blast
  obtain as0 vs0 where s0: "accepted_in scope v as0" "activated_in scope v as0 vs0" using h(2) unfolding histories_ok_def by blast
  obtain as1 vs1 where grow: "as = as0 @ as1" "vs = vs0 @ vs1" using histories_grow [OF ms s s0] by blast
  note c = accepted_chain [OF s(1)] and d = activated_chain [OF s(2)]
  have reads: "accept_history se scope w = Inr as" "active_history se scope w w = Inr vs"
      "accept_history se0 scope v = Inr as0" "active_history se0 scope v v = Inr vs0"
    using accept_history_reads [OF s(1) assms(3)] active_history_reads [OF s assms(3)] accept_history_reads [OF s0(1) assms(4)]
      active_history_reads [OF s0 assms(4)] by blast+
  have rows: "map ad_row as = map tr_id (accept_rows scope (wd_data w))" "map vd_row vs = map tr_id (active_rows scope (wd_data w))"
    using c d unfolding accept_chain_def active_chain_def by blast+
  have ids: "ids_ok (wd_data w)" using h(1) by (simp add: histories_ok_def)
  have acc: "\<forall>i < length as. unat (ad_revision (as ! i)) = i + 1 \<and> unat (aq_expected (ad_request (as ! i))) = i \<and> aq_scope (ad_request (as ! i)) = scope"
      "distinct (map (aq_operation \<circ> ad_request) as)" "sorted_wrt (<) (map ad_row as)"
    using c rows_ascend(1) [OF ids] unfolding rows accept_chain_def by simp_all
  have act: "\<forall>i < length vs. unat (vd_generation (vs ! i)) = i + 1 \<and> unat (vq_expected (vd_request (vs ! i))) = i"
      "distinct (map (vq_operation \<circ> vd_request) vs)" "sorted_wrt (<) (map vd_row vs)" "sorted_wrt (<) (map (unat \<circ> vd_revision) vs)"
    using d rows_ascend(2) [OF ids] unfolding rows active_chain_def by simp_all
  have join: "\<exists>a \<in> set as. ad_request a = vq_acceptance (vd_request x) \<and> ad_revision a = vd_revision x \<and> ad_row a < vd_row x"
    if "x \<in> set vs" for x
  proof -
    have j: "joined as x" "unat (vd_revision x) = unat (aq_expected (vq_acceptance (vd_request x))) + 1"
      using d that unfolding active_chain_def by blast+
    obtain a where a: "a \<in> set as" "ad_request a = vq_acceptance (vd_request x)" "ad_row a < vd_row x"
      using j(1) unfolding joined_def by blast
    have "ad_revision a = vd_revision x" using chain_revision [OF c a(1)] a(2) j(2) by (simp add: word_unat_eq_iff)
    with a show ?thesis by blast
  qed
  show ?thesis
    by (rule exI [of _ as1], rule exI [of _ vs1], rule exI [of _ as0], rule exI [of _ vs0], fold grow)
      (intro conjI reads acc act ballI join)
qed

section \<open>A trace\<close>

definition example_staged :: staged where
  "example_staged = \<lparr>st_operation = ''accept-stage-1'', st_config = \<lparr>ef_scope = example_scope, ef_revision = 0, ef_reason = ''install'',
     ef_entries = [(''ahu-1'', example_meaning)], ef_facts = []\<rparr>, st_value = ''staged''\<rparr>"

definition example_sealed :: sealed where
  "example_sealed = \<lparr>sd_staged = example_staged, sd_identity = example_digest, sd_manifest = example_manifest\<rparr>"

definition example_published :: outbox_db where
  "example_published = \<lparr>od_rows = [staged_row example_staged 1,
     control_row op_seal_text ''seal'' ''seal'' (seal_row_json example_digest example_manifest) 1 2], od_last = 2, od_marks = []\<rparr>"

definition example_request :: acceptance_request where
  "example_request = \<lparr>aq_operation = ''op-accept'', aq_expected = 0, aq_scope = example_scope, aq_staged = ''accept-stage-1'', aq_seal = example_digest\<rparr>"

definition example_activation :: activation_request where
  "example_activation = \<lparr>vq_operation = ''op-active'', vq_expected = 0, vq_acceptance = example_request\<rparr>"

definition example_prepare_view :: prepare_view where
  "example_prepare_view = \<lparr>vw_store_path = Inr ''a.db'', vw_registry_path = Inr ''a.db'', vw_scan = Inr [], vw_gate = example_empty,
     vw_authority = \<lparr>av_store_path = Inr ''a.db'', av_gate_path = Inr ''a.db'', av_rows = Inr [], av_gate = example_empty\<rparr>,
     vw_sql = (\<lambda>_ _. True), vw_live = (\<lambda>_. True)\<rparr>"

definition example_authorized :: authority where
  "example_authorized = \<lparr>au_report = example_report, au_guard = ''1''\<rparr>"

lemma example_control_ids: "id_ok ''op-accept''" "id_ok ''op-active''" "id_ok ''accept-stage-1''"
  by (simp_all add: id_ok_def max_id_len_def id_char_def is_ascii_alphanumeric_def is_ascii_digit_def)

lemma example_request_ok: "acceptance_ok example_request"
  using example_control_ids by (simp add: acceptance_ok_def example_request_def)

lemma show_one: "show_nat (Suc 0) = ''1''"
  by code_simp

lemma example_started: "ids_ok example_published" "control_events example_published = []" "gd_holds (sealed_guard example_sealed) example_published"
  by (simp_all add: ids_ok_def example_published_def control_events_def control_event_def staged_row_def control_row_def example_staged_def
      accept_event_def active_event_def op_seal_text_def op_release_text_def max_rowid_def sealed_guard_def staged_guard_def rows_of_def
      count_rows_def example_sealed_def show_one)

lemma example_actor_short: "accept_event_bytes example_request (actor_fields example_report) = Inr raw \<Longrightarrow> length raw \<le> 8192"
proof -
  let ?a = "actor_fields example_report"
  assume "accept_event_bytes example_request ?a = Inr raw"
  then obtain target where raw: "raw = frames_encode [''verdant-accepted-v1'', ''op-accept'', show_word (0 :: u32), show_word (target :: u32), ''scope-a'',
      ''accept-stage-1'', example_digest, ?a, ''accepted'']"
    by (auto simp: accept_event_bytes_def map_ok_eq_Inr example_request_def simp del: frames_encode_simps)
  have f: "length (frame f) \<le> 400" if "length f \<le> 300" for f using length_frame_1000 [of f] that by simp
  have "length example_digest = 64" by (simp add: example_digest_def)
  then show ?thesis unfolding raw
    using f [of "''verdant-accepted-v1''"] f [of "''op-accept''"] f [of "show_word (0 :: u32)"] f [of "show_word target"] show_u32_short [of 0]
      show_u32_short [of target] f [of "''scope-a''"] f [of "''accept-stage-1''"] f [of example_digest] f [of ?a] f [of "''accepted''"] example_actor_length
    by simp
qed

text \<open>An acceptance and its activation, the one after the other.\<close>

lemma accepted_example:
  obtains raw p1 w1 out1 where "accept_event_bytes example_request (actor_fields example_report) = Inr raw" "length raw \<le> 8192"
    "submit_mutation (example_environment CommitDone) (accept_ticket example_prepare_view ''store-a'' ''op-x'' example_authorized ''1'' example_sealed
       example_request (value_to_json (VText raw))) (opened example_published) = (p1, w1, out1)"
    "wd_data w1 \<noteq> example_published" "keys w1 = {''op-accept''}" "od_last (wd_data w1) = 3" "gd_holds (sealed_guard example_sealed) (wd_data w1)"
    "od_rows (wd_data w1) = od_rows example_published @ [accept_row example_request (value_to_json (VText raw)) 3]"
proof -
  obtain raw where raw: "accept_event_bytes example_request (actor_fields example_report) = Inr raw"
    by (auto simp: accept_event_bytes_def example_request_def accepted_revision_next_def accepted_revision_new_def checked_add_def)
  have o: "wd_data (opened example_published) = example_published" "keys (opened example_published) = {}" "od_last example_published = 2"
    by (simp_all add: opened_def keys_def example_published_def)
  have c: "count_rows (accept_where (aq_scope example_request)) example_published = unat (aq_expected example_request)"
    using example_started(2) by (simp add: count_events accept_rows_def example_request_def)
  obtain p1 w1 out1 where w1: "submit_mutation (example_environment CommitDone) (accept_ticket example_prepare_view ''store-a'' ''op-x'' example_authorized
      ''1'' example_sealed example_request (value_to_json (VText raw))) (opened example_published) = (p1, w1, out1)"
      "od_rows (wd_data w1) = od_rows example_published @ [accept_row example_request (value_to_json (VText raw)) 3]"
      "od_last (wd_data w1) = 3" "keys w1 = {''op-accept''}"
    using accept_undisturbed [OF raw example_actor_short [OF raw], of "opened example_published" example_prepare_view example_authorized "''1''"
        example_sealed "''op-x''"] o c example_started
    by (auto simp: example_prepare_view_def authority_expiry_def example_authorized_def example_request_def policy_entry_only_def max_rowid_def)
  have n: "wd_data w1 \<noteq> example_published" using w1(2) by auto
  have g: "gd_holds (sealed_guard example_sealed) (wd_data w1)"
    using example_started(3)
    by (simp add: sealed_guard_def staged_guard_def rows_of_def count_rows_def w1(2) accept_row_def control_row_def accept_event_def
        op_seal_text_def op_release_text_def example_sealed_def example_staged_def)
  show thesis by (rule that [OF raw example_actor_short [OF raw] w1(1) n w1(4,3) g w1(2)])
qed

section \<open>Admission\<close>

text \<open>C5: An acceptance that changes the shared tables was admitted by everything it was decided under, at the moment
  of its commit: the authority has not expired and its condition holds, so does the one of the registry; the staged
  configuration is the only one of its operation, its seal is published once and not released; and the scope has as
  many acceptances as the request expects. The event is then the next of its scope, and no other scope sees it.\<close>

theorem acceptance_is_guarded:
  assumes "node_trace identity (w # ws)" "acceptance_ok q" "accept_event_bytes q (actor_fields report) = Inr raw" "length raw \<le> 8192"
    and "submit_mutation se (accept_ticket pv identity generated auth registry_guard sd q (value_to_json (VText raw))) w = (p', w', out)"
    and "wd_data w' \<noteq> wd_data w" "healthy e"
  shows "(case authority_expiry auth of None \<Rightarrow> True | Some t \<Rightarrow> vw_live pv t) \<and> vw_sql pv (au_guard auth) (wd_data w) \<and>
    vw_sql pv registry_guard (wd_data w) \<and> length (rows_of (st_operation (sd_staged sd)) (wd_data w)) = 1 \<and>
    count_rows (\<lambda>r. tr_operation r = op_seal_text \<and> tr_value r = seal_row_json (sd_identity sd) (sd_manifest sd)) (wd_data w) = 1 \<and>
    count_rows (\<lambda>r. tr_operation r = op_release_text \<and> tr_value r = release_row_json (sd_identity sd)) (wd_data w) = 0 \<and>
    (\<exists>as. accept_history e (aq_scope q) w = Inr as \<and> length as = unat (aq_expected q) \<and>
       accept_history e (aq_scope q) w' = Inr (as @ [\<lparr>ad_row = od_last (wd_data w) + 1, ad_revision = aq_expected q + 1, ad_request = q,
         ad_actor = actor_fields report, ad_reconciled = False\<rparr>])) \<and>
    (\<forall>s. s \<noteq> aq_scope q \<longrightarrow> accept_history e s w' = accept_history e s w)"
proof -
  obtain d rows where d: "map_of (wd_receipts w) (aq_operation q) = None"
      "bd_run (pm_body (accept_ticket pv identity generated auth registry_guard sd q (value_to_json (VText raw)))) (wd_data w) = Inr (d, rows)"
      "w' = \<lparr>wd_data = d, wd_receipts = (aq_operation q, request_of (accept_ticket pv identity generated auth registry_guard sd q (value_to_json (VText raw))),
         encode_response rows) # wd_receipts w\<rparr>"
    using submit_changes [OF assms(5,6)] unfolding ticket_operation by blast
  note run = accept_ticket_run [OF d(2)]
  have h: "histories_ok w" using trace_sound [OF assms(1)] by (simp add: trace_ok_def)
  have new: "aq_operation q \<notin> keys w" using d(1) by (simp add: fresh_key)
  note kept = accept_keeps [OF h assms(2) actor_fields_utf8 assms(3,4) run(1,2) new d(3)]
  obtain as where as: "accepted_in (aq_scope q) w as" using h unfolding histories_ok_def by blast
  have n: "length as = unat (aq_expected q)"
    using accepted_chain [OF as] run(2) by (metis accept_chain_def count_events(1) length_map)
  have others: "accept_history e s w' = accept_history e s w" if "s \<noteq> aq_scope q" for s
  proof -
    obtain bs where bs: "accepted_in s w bs" using h unfolding histories_ok_def by blast
    have "accept_rows s (wd_data w') = accept_rows s (wd_data w)" using that by (simp add: accept_rows_def kept(2))
    moreover have "keys w \<subseteq> keys w'" by (auto simp: keys_def d(3))
    ultimately have "accepted_in s w' bs" by (rule accepted_in_mono [OF bs])
    then show ?thesis using accept_history_reads [OF bs assms(7)] accept_history_reads [OF _ assms(7)] by simp
  qed
  have live: "case authority_expiry auth of None \<Rightarrow> True | Some t \<Rightarrow> vw_live pv t" by (rule accept_ticket_live [OF d(2)])
  have g: "length (rows_of (st_operation (sd_staged sd)) (wd_data w)) = 1"
      "count_rows (\<lambda>r. tr_operation r = op_seal_text \<and> tr_value r = seal_row_json (sd_identity sd) (sd_manifest sd)) (wd_data w) = 1"
      "count_rows (\<lambda>r. tr_operation r = op_release_text \<and> tr_value r = release_row_json (sd_identity sd)) (wd_data w) = 0"
    using run(5) by (simp_all add: sealed_guard_def staged_guard_def)
  show ?thesis
    using live run(3,4) g accept_history_reads [OF as assms(7)] n accept_history_reads [OF kept(3) [OF as] assms(7)] others by blast
qed

theorem acceptance_is_guarded_witness:
  "\<exists>w w' a. node_trace ''store-a'' [w', w] \<and> accept_history (example_environment CommitDone) example_scope w' = Inr [a] \<and> ad_request a = example_request"
proof -
  have e: "healthy (example_environment CommitDone)" "se_identity (example_environment CommitDone) = ''store-a''"
    by (simp_all add: healthy_def example_environment_def)
  obtain raw p1 w1 out1 where x: "accept_event_bytes example_request (actor_fields example_report) = Inr raw" "length raw \<le> 8192"
      "submit_mutation (example_environment CommitDone) (accept_ticket example_prepare_view ''store-a'' ''op-x'' example_authorized ''1'' example_sealed
         example_request (value_to_json (VText raw))) (opened example_published) = (p1, w1, out1)"
      "wd_data w1 \<noteq> example_published"
    by (rule accepted_example)
  have t: "node_trace ''store-a'' [opened example_published]" by (rule begin_trace [OF example_started(1,2)])
  have "wd_data w1 \<noteq> wd_data (opened example_published)" using x(4) by (simp add: opened_def)
  from acceptance_is_guarded [OF t example_request_ok x(1,2,3) this e(1)]
  have "\<exists>a. accept_history (example_environment CommitDone) example_scope w1 = Inr [a] \<and> ad_request a = example_request"
    by (auto simp: example_request_def)
  moreover have "node_trace ''store-a'' [w1, opened example_published]" by (rule accepting [OF t e(2) example_request_ok x(1,2,3)])
  ultimately show ?thesis by blast
qed

lemma ordered_from:
  assumes "node_trace identity (w # ws)" "v0 \<in> set (w # ws)" "check_activation_order se0 v None v0 = Inr current"
    and "count_rows (active_where (aq_scope (vq_acceptance v))) (wd_data w) = unat (vq_expected v)"
      "count_rows (accept_where (aq_scope (vq_acceptance v))) (wd_data w) = unat (ad_revision current)"
  shows "histories_ok w \<and> ordered_in w v current"
proof -
  have t: "trace_ok (w # ws)" by (rule trace_sound [OF assms(1)])
  then have h: "histories_ok w" "histories_ok v0" using assms(2) unfolding trace_ok_def by auto
  obtain ms where "control_events (wd_data w) = control_events (wd_data v0) @ ms" using t assms(2) unfolding trace_ok_def by force
  from ordered_now [OF h(1) order_checked [OF h(2) assms(3)] this assms(4,5)] h(1) show ?thesis by blast
qed

text \<open>C7: An activation that was prepared in any earlier state of the shared outbox and changes the tables now
  activates the acceptance that is current now: the current one is the one that was requested, the scope has as many
  activations as the request expects, the publication still holds and is not released; the event is the next
  generation of its scope and is what the scope reads as active from then on.\<close>

theorem activation_follows_the_current:
  assumes "node_trace identity (w # ws)" "v0 \<in> set (w # ws)" "acceptance_ok (vq_acceptance v)" "id_ok (vq_operation v)"
    and "check_activation_order se0 v None v0 = Inr current" "active_generation_next (vq_expected v) = Inr generation" "active_event_bytes v = Inr raw"
    and "submit_mutation se (active_ticket identity generated v generation (value_to_json (VText raw)) current accepted_json sd) w = (p', w', out)"
    and "wd_data w' \<noteq> wd_data w" "healthy e"
  shows "accept_current e (aq_scope (vq_acceptance v)) w = Inr (Some current) \<and> ad_request current = vq_acceptance v \<and>
    length (rows_of (st_operation (sd_staged sd)) (wd_data w)) = 1 \<and>
    count_rows (\<lambda>r. tr_operation r = op_release_text \<and> tr_value r = release_row_json (sd_identity sd)) (wd_data w) = 0 \<and>
    (\<exists>vs. active_history e (aq_scope (vq_acceptance v)) w w = Inr vs \<and> length vs = unat (vq_expected v)) \<and>
    active_now e (aq_scope (vq_acceptance v)) w' w' = Inr (Some \<lparr>vd_row = od_last (wd_data w) + 1, vd_generation = vq_expected v + 1,
      vd_revision = ad_revision current, vd_request = v, vd_reconciled = False\<rparr>)"
proof -
  let ?t = "active_ticket identity generated v generation (value_to_json (VText raw)) current accepted_json sd" and ?s = "aq_scope (vq_acceptance v)"
  obtain d rows where d: "map_of (wd_receipts w) (vq_operation v) = None" "bd_run (pm_body ?t) (wd_data w) = Inr (d, rows)"
      "w' = \<lparr>wd_data = d, wd_receipts = (vq_operation v, request_of ?t, encode_response rows) # wd_receipts w\<rparr>"
    using submit_changes [OF assms(8,9)] unfolding ticket_operation by blast
  note run = active_ticket_run [OF d(2)]
  have h: "histories_ok w" "ordered_in w v current" using ordered_from [OF assms(1,2,5) run(2,3)] by simp_all
  have new: "vq_operation v \<notin> keys w" using d(1) by (simp add: fresh_key)
  obtain as vs where s: "accepted_in ?s w as" "activated_in ?s w as vs" "as \<noteq> []" "last as = current" "ad_request current = vq_acceptance v"
      "unat (vq_expected v) = length vs" "accepted_in ?s w' as"
      "activated_in ?s w' as (vs @ [\<lparr>vd_row = od_last (wd_data w) + 1, vd_generation = generation, vd_revision = ad_revision current,
         vd_request = v, vd_reconciled = False\<rparr>])"
    using active_keeps(3) [OF h(1) assms(3,4,7) active_bytes_short [OF assms(7,3,4)] assms(6) run(1) h(2) new d(3)] by blast
  have "generation = vq_expected v + 1" using revision_next(2) [OF assms(6)] by simp
  moreover have "accept_current e ?s w = Inr (Some current)"
    using accept_history_reads [OF s(1) assms(10)] s(3,4) by (simp add: accept_current_def last_of_def)
  moreover have "active_now e ?s w' w' = Inr (Some \<lparr>vd_row = od_last (wd_data w) + 1, vd_generation = generation,
      vd_revision = ad_revision current, vd_request = v, vd_reconciled = False\<rparr>)"
    using active_history_reads [OF s(7,8) assms(10)] by (simp add: active_now_def last_of_def)
  moreover have "length (rows_of (st_operation (sd_staged sd)) (wd_data w)) = 1"
      "count_rows (\<lambda>r. tr_operation r = op_release_text \<and> tr_value r = release_row_json (sd_identity sd)) (wd_data w) = 0"
    using run(5) by (simp_all add: sealed_guard_def staged_guard_def)
  ultimately show ?thesis using active_history_reads [OF s(1,2) assms(10)] s(5,6) by auto
qed

text \<open>The example: the acceptance of before, read and activated.\<close>

lemma activated_example:
  obtains raw raw' p1 w1 out1 p2 w2 out2 current accepted_json where "accept_event_bytes example_request (actor_fields example_report) = Inr raw'"
    "active_event_bytes example_activation = Inr raw" "ad_request current = example_request"
    "node_trace ''store-a'' [w1, opened example_published]" "check_activation_order (example_environment CommitDone) example_activation None w1 = Inr current"
    "submit_mutation (example_environment CommitDone) (active_ticket ''store-a'' ''op-y'' example_activation 1 (value_to_json (VText raw)) current
       accepted_json example_sealed) w1 = (p2, w2, out2)" "wd_data w2 \<noteq> wd_data w1" "node_trace ''store-a'' [w2, w1, opened example_published]"
proof -
  have e: "healthy (example_environment CommitDone)" "se_identity (example_environment CommitDone) = ''store-a''"
    by (simp_all add: healthy_def example_environment_def)
  obtain raw' p1 w1 out1 where x: "accept_event_bytes example_request (actor_fields example_report) = Inr raw'" "length raw' \<le> 8192"
      "submit_mutation (example_environment CommitDone) (accept_ticket example_prepare_view ''store-a'' ''op-x'' example_authorized ''1'' example_sealed
         example_request (value_to_json (VText raw'))) (opened example_published) = (p1, w1, out1)"
      "wd_data w1 \<noteq> example_published" "keys w1 = {''op-accept''}" "od_last (wd_data w1) = 3" "gd_holds (sealed_guard example_sealed) (wd_data w1)"
      "od_rows (wd_data w1) = od_rows example_published @ [accept_row example_request (value_to_json (VText raw')) 3]"
    by (rule accepted_example)
  have t: "node_trace ''store-a'' [w1, opened example_published]"
    by (rule accepting [OF begin_trace [OF example_started(1,2)] e(2) example_request_ok x(1,2,3)])
  then have h: "histories_ok w1" using trace_sound by (simp add: trace_ok_def)
  let ?scope = "aq_scope example_request"
  have rows: "accept_rows s (wd_data w1) = (if s = ?scope then [accept_row example_request (value_to_json (VText raw')) 3] else [])"
      "active_rows s (wd_data w1) = []" for s
    using example_started(2) by (auto simp: accept_rows_def active_rows_def control_events_def x(8))
  obtain as vs where s: "accepted_in ?scope w1 as" "activated_in ?scope w1 as vs" using h unfolding histories_ok_def by blast
  have vs: "vs = []" using s(2) by (simp add: activated_in_def rows)
  have "map ad_row as = [3]" using accepted_chain [OF s(1)] by (simp add: accept_chain_def rows(1))
  then obtain current where as: "as = [current]" by auto
  have "accept_event_row ?scope 0 (event_columns (accept_row example_request (value_to_json (VText raw')) 3)) {} = Inr current"
    using s(1) by (auto simp: accepted_in_def rows as map_ok_eq_Inr)
  then have cur: "ad_request current = example_request" "ad_row current = 3" "ad_revision current = 1"
    using accept_row_reads [OF example_request_ok actor_fields_utf8 x(1,2), of 3 "{}"] by (auto simp: in_i64_def example_request_def)
  have q: "vq_acceptance example_activation = example_request" "vq_expected example_activation = 0" by (simp_all add: example_activation_def)
  have check: "check_activation_order (example_environment CommitDone) example_activation None w1 = Inr current"
    using accept_history_reads [OF s(1) e(1)] active_history_reads [OF s e(1)] cur(1)
    by (simp add: check_activation_order_def activation_order_def active_now_def accept_current_def last_of_def vs as q generation_of_def)
  obtain raw where raw: "active_event_bytes example_activation = Inr raw"
    by (auto simp: active_event_bytes_def example_activation_def example_request_def accepted_revision_next_def accepted_revision_new_def
        active_generation_next_def active_generation_new_def checked_add_def)
  have ids: "id_ok (vq_operation example_activation)" "acceptance_ok (vq_acceptance example_activation)"
    using example_control_ids(2) example_request_ok by (simp_all add: example_activation_def)
  have c: "count_rows (active_where (aq_scope (vq_acceptance example_activation))) (wd_data w1) = unat (vq_expected example_activation)"
      "count_rows (accept_where (aq_scope (vq_acceptance example_activation))) (wd_data w1) = unat (ad_revision current)"
    by (simp_all add: count_events rows q cur)
  have r: "\<exists>r \<in> set (od_rows (wd_data w1)). tr_id r = ad_row current \<and> tr_value r = value_to_json (VText raw')"
    by (auto simp: x(8) cur accept_row_def control_row_def)
  have n: "vq_operation example_activation \<notin> keys w1" "ids_ok (wd_data w1)" "od_last (wd_data w1) < max_rowid"
    using h by (simp_all add: x(5,6) example_activation_def max_rowid_def histories_ok_def)
  obtain p2 w2 out2 where y: "submit_mutation (example_environment CommitDone) (active_ticket ''store-a'' ''op-y'' example_activation 1
      (value_to_json (VText raw)) current (value_to_json (VText raw')) example_sealed) w1 = (p2, w2, out2)"
      "od_rows (wd_data w2) = od_rows (wd_data w1) @ [active_row example_activation 1 (value_to_json (VText raw)) (od_last (wd_data w1) + 1)]"
    using active_undisturbed [OF raw active_bytes_short [OF raw ids(2,1)] n c r x(7), of "''op-y''" 1] by blast
  have g: "active_generation_next (vq_expected example_activation) = Inr 1"
    by (simp add: q active_generation_next_def active_generation_new_def checked_add_def)
  have "node_trace ''store-a'' [w2, w1, opened example_published]"
    by (rule activating [OF t e(2) ids(2,1) _ check g raw y(1)]) simp
  moreover have "wd_data w2 \<noteq> wd_data w1" using y(2) by auto
  ultimately show thesis using that [OF x(1) raw cur(1) t check y(1)] by blast
qed

theorem activation_follows_the_current_witness:
  "\<exists>w w' a. node_trace ''store-a'' [w', w, opened example_published] \<and>
     active_now (example_environment CommitDone) example_scope w' w' = Inr (Some a) \<and> vd_request a = example_activation \<and> vd_generation a = 1"
proof -
  have e: "healthy (example_environment CommitDone)" by (simp add: healthy_def example_environment_def)
  obtain raw raw' p1 w1 out1 p2 w2 out2 current accepted_json where x: "active_event_bytes example_activation = Inr raw"
      "node_trace ''store-a'' [w1, opened example_published]" "check_activation_order (example_environment CommitDone) example_activation None w1 = Inr current"
      "submit_mutation (example_environment CommitDone) (active_ticket ''store-a'' ''op-y'' example_activation 1 (value_to_json (VText raw)) current
         accepted_json example_sealed) w1 = (p2, w2, out2)" "wd_data w2 \<noteq> wd_data w1" "node_trace ''store-a'' [w2, w1, opened example_published]"
    by (rule activated_example)
  have ids: "id_ok (vq_operation example_activation)" "acceptance_ok (vq_acceptance example_activation)"
    using example_control_ids(2) example_request_ok by (simp_all add: example_activation_def)
  have g: "active_generation_next (vq_expected example_activation) = Inr 1"
    by (simp add: example_activation_def active_generation_next_def active_generation_new_def checked_add_def)
  have "w1 \<in> set [w1, opened example_published]" by simp
  from activation_follows_the_current [OF x(2) this ids(2,1) x(3) g x(1,4,5) e] x(6) show ?thesis
    by (intro exI [of _ w1] exI [of _ w2]) (simp add: example_activation_def example_request_def)
qed

theorem control_histories_witness:
  "\<exists>w v as vs. node_trace ''store-a'' [w, v, opened example_published] \<and>
     accept_history (example_environment CommitDone) example_scope w = Inr as \<and> active_history (example_environment CommitDone) example_scope w w = Inr vs \<and>
     (\<forall>x \<in> set vs. \<exists>a \<in> set as. ad_request a = vq_acceptance (vd_request x) \<and> ad_row a < vd_row x)"
proof -
  have e: "healthy (example_environment CommitDone)" by (simp add: healthy_def example_environment_def)
  obtain w v where t: "node_trace ''store-a'' [w, v, opened example_published]" by (rule activated_example)
  have "v \<in> set [w, v, opened example_published]" by simp
  note main = control_histories [OF t this e e, of example_scope]
  obtain as vs as0 vs0 where "accept_history (example_environment CommitDone) example_scope w = Inr (as0 @ as)"
      "active_history (example_environment CommitDone) example_scope w w = Inr (vs0 @ vs)"
      "\<forall>x \<in> set (vs0 @ vs). \<exists>a \<in> set (as0 @ as). ad_request a = vq_acceptance (vd_request x) \<and> ad_revision a = vd_revision x \<and> ad_row a < vd_row x"
    using main by (elim exE conjE) (rule that)
  then show ?thesis using t by (intro exI [of _ w] exI [of _ v] exI [of _ "as0 @ as"] exI [of _ "vs0 @ vs"] conjI) (assumption | blast)+
qed

end
