(* ===== verification/Float_Convert.thy ===== *)
theory Float_Convert
  imports Float_Text
begin

text \<open>
  Conversions of floating point numbers that \<open>src/src/action_preview/mod.rs\<close> uses: \<open>as f32\<close> and
  \<open>f64::from\<close>, the comparison of finite values, the magnitude of a difference and the text with a fixed number of
  decimals. A value is its bits; a finite one is an integer multiple of the least positive value, so that
  all of them are computed on integers and rounded once, to nearest with ties to even.
\<close>

section \<open>Exact values\<close>

definition float_bias :: "float_format \<Rightarrow> int" where
  "float_bias ff = 2 ^ (ff_exp_bits ff - 1) - 1"

definition float_mantissa :: "float_format \<Rightarrow> int \<Rightarrow> int" where
  "float_mantissa ff bits =
     (if float_exponent ff bits = 0 then float_fraction ff bits else float_fraction ff bits + 2 ^ ff_frac_bits ff)"

text \<open>The value in units of the least positive one, which is \<open>2 ^ float_least ff\<close>.\<close>

definition float_least :: "float_format \<Rightarrow> int" where
  "float_least ff = 1 - float_bias ff - int (ff_frac_bits ff)"

definition float_units :: "float_format \<Rightarrow> int \<Rightarrow> int" where
  "float_units ff bits =
     (let m = float_mantissa ff bits * 2 ^ (nat (float_exponent ff bits) - 1)
      in if float_negative ff bits then - m else m)"

section \<open>Rounding\<close>

text \<open>The quotient to nearest, ties to even.\<close>

definition half_even :: "int \<Rightarrow> int \<Rightarrow> int" where
  "half_even a b =
     (let d = a div b; r = a mod b
      in if 2 * r > b \<or> (2 * r = b \<and> d mod 2 = 1) then d + 1 else d)"

function bit_length :: "int \<Rightarrow> nat" where
  "bit_length m = (if m \<le> 0 then 0 else Suc (bit_length (m div 2)))"
  by pat_completeness auto
termination by (relation "measure nat") auto

declare bit_length.simps [simp del]

text \<open>The bits of the value nearest to \<open>m * 2 ^ e\<close>, which overflows to infinity.\<close>

definition float_round :: "float_format \<Rightarrow> bool \<Rightarrow> int \<Rightarrow> int \<Rightarrow> int" where
  "float_round ff negative m e =
     (let q = max (int (bit_length m) + e - (int (ff_frac_bits ff) + 1)) (float_least ff);
          n = (if q \<le> e then m * 2 ^ nat (e - q) else half_even m (2 ^ nat (q - e)));
          infinite = (2 ^ ff_exp_bits ff - 1) * 2 ^ ff_frac_bits ff;
          bits = (q - float_least ff) * 2 ^ ff_frac_bits ff + n
      in (if negative then 2 ^ (ff_frac_bits ff + ff_exp_bits ff) else 0) + (if m = 0 then 0 else min bits infinite))"

text \<open>\<open>as f32\<close> and \<open>f64::from\<close>; a NaN becomes the quiet one of its sign.\<close>

definition float_convert :: "float_format \<Rightarrow> float_format \<Rightarrow> int \<Rightarrow> int" where
  "float_convert from into bits =
     (let negative = float_negative from bits
      in if float_finite from bits
         then float_round into negative \<bar>float_units from bits\<bar> (float_least from)
         else (if negative then 2 ^ (ff_frac_bits into + ff_exp_bits into) else 0) +
              (2 ^ ff_exp_bits into - 1) * 2 ^ ff_frac_bits into +
              (if float_nan from bits then 2 ^ (ff_frac_bits into - 1) else 0))"

text \<open>\<open>(a - b).abs()\<close> of finite values.\<close>

definition float_distance :: "float_format \<Rightarrow> int \<Rightarrow> int \<Rightarrow> int" where
  "float_distance ff a b = float_round ff False \<bar>float_units ff a - float_units ff b\<bar> (float_least ff)"

definition float_le :: "float_format \<Rightarrow> int \<Rightarrow> int \<Rightarrow> bool" where
  "float_le ff a b \<longleftrightarrow> float_units ff a \<le> float_units ff b"

text \<open>\<open>{:.n}\<close> of a finite value.\<close>

definition show_fixed :: "float_format \<Rightarrow> nat \<Rightarrow> int \<Rightarrow> string" where
  "show_fixed ff n bits =
     (let v = nat (half_even (\<bar>float_units ff bits\<bar> * 10 ^ n) (2 ^ nat (- float_least ff)))
      in (if float_negative ff bits then ''-'' else []) @ show_nat (v div 10 ^ n) @ ''.'' @ pad_zeros n (show_nat (v mod 10 ^ n)))"

end
