(* ===== verification/Preview.thy ===== *)
theory Preview
  imports Float_Convert Normalize Effective
begin

text \<open>
  The preview of an action (\<open>src/src/action_preview/mod.rs\<close>, \<open>preview.rs\<close>, \<open>seal_subject.rs\<close>): the bounded
  parts a preview is made of, each with its own refusals, the order in which a seal is taken into custody,
  decoded and reconstructed, and the preview with the texts that identify it. The sealed profile of the
  semantics is a type parameter, with its checks in a record.
\<close>

section \<open>Vocabulary\<close>

definition preview_format :: string where "preview_format = ''verdant-preview-v1''"
definition commissioned_priority :: u8 where "commissioned_priority = 8"
definition protected_max :: u8 where "protected_max = 3"
definition max_priority :: u8 where "max_priority = 16"
definition range_min_c :: int where "range_min_c = 0x4034000000000000"
definition range_max_c :: int where "range_max_c = 0x4038000000000000"
definition tolerance_c :: int where "tolerance_c = 0x3FB999999999999A"
definition duration_secs :: u64 where "duration_secs = 900"
definition deadline_secs :: u64 where "deadline_secs = 5"
definition rate_max_per_hour :: u32 where "rate_max_per_hour = 6"
definition precondition_max_age_secs :: nat where "precondition_max_age_secs = 300"
definition object_analog_value :: u16 where "object_analog_value = 2"
definition prop_present_value :: u32 where "prop_present_value = 85"
definition feedback_unavailable :: string where "feedback_unavailable = ''unavailable-feedback''"
definition mask_note :: string where "mask_note = ''priority-8-masks-9-16-masked-by-1-7''"
definition timeout_policy :: string where "timeout_policy = ''uncertain-not-resend''"
definition apdu_retries :: u8 where "apdu_retries = 0"

datatype preview_error =
    PvInvalid string
  | PvAssistanceCeiling u8 u8
  | PvProtectedPriority u8
  | PvUnallocatedPriority u8
  | PvNoncommandable string
  | PvAmbiguousArray u32
  | PvStalePrecondition
  | PvWrongUnit string string
  | PvWireRange string string
  | PvDuplicateAlias string
  | PvRevisionMismatch string
  | PvNullNotAdmitted
  | PvRateExceeded u32 u32
  | PvSealOrder string
  | PvSealed string string

fun preview_error_code :: "preview_error \<Rightarrow> string" where
  "preview_error_code (PvInvalid _) = ''preview-invalid''"
| "preview_error_code (PvAssistanceCeiling _ _) = ''ceiling-exceeded''"
| "preview_error_code (PvProtectedPriority _) = ''preview-protected-priority''"
| "preview_error_code (PvUnallocatedPriority _) = ''preview-unallocated-priority''"
| "preview_error_code (PvNoncommandable _) = ''preview-noncommandable''"
| "preview_error_code (PvAmbiguousArray _) = ''preview-ambiguous-array''"
| "preview_error_code PvStalePrecondition = ''preview-stale-precondition''"
| "preview_error_code (PvWrongUnit _ _) = ''wrong-unit''"
| "preview_error_code (PvWireRange _ _) = ''preview-wire-range''"
| "preview_error_code (PvDuplicateAlias _) = ''duplicate-identity''"
| "preview_error_code (PvRevisionMismatch _) = ''preview-revision-mismatch''"
| "preview_error_code PvNullNotAdmitted = ''preview-null-not-admitted''"
| "preview_error_code (PvRateExceeded _ _) = ''preview-rate-exceeded''"
| "preview_error_code (PvSealOrder _) = ''preview-seal-order''"
| "preview_error_code (PvSealed code _) = code"

fun preview_error_display :: "preview_error \<Rightarrow> string" where
  "preview_error_display (PvInvalid detail) = ''preview invalid: '' @ detail"
| "preview_error_display (PvAssistanceCeiling have_c required) =
     ''assistance ceiling '' @ show_word have_c @ '' below required '' @ show_word required"
| "preview_error_display (PvProtectedPriority priority) = ''protected priority '' @ show_word priority @ '' reserved (1-3)''"
| "preview_error_display (PvUnallocatedPriority priority) =
     ''unallocated priority '' @ show_word priority @ ''; commissioned is 8''"
| "preview_error_display (PvNoncommandable detail) = ''noncommandable target: '' @ detail"
| "preview_error_display (PvAmbiguousArray index) =
     ''ambiguous array index '' @ show_word index @ ''; presentValue is scalar''"
| "preview_error_display PvStalePrecondition = ''stale precondition''"
| "preview_error_display (PvWrongUnit expected presented) =
     ''wrong unit: expects '' @ quoted expected @ '', presents '' @ quoted presented"
| "preview_error_display (PvWireRange requested wire) =
     ''wire value '' @ wire @ '' leaves range (requested '' @ requested @ '')''"
| "preview_error_display (PvDuplicateAlias alias) = ''duplicate alias '' @ quoted alias"
| "preview_error_display (PvRevisionMismatch detail) = ''revision mismatch: '' @ detail"
| "preview_error_display PvNullNotAdmitted = ''encoded null only for admitted release''"
| "preview_error_display (PvRateExceeded used limit) =
     ''rate exceeded: '' @ show_word used @ '' >= '' @ show_word limit @ ''/hour''"
| "preview_error_display (PvSealOrder detail) = ''seal order refused: '' @ detail"
| "preview_error_display (PvSealed code detail) = ''seal '' @ code @ '': '' @ detail"

section \<open>Priority, target and object\<close>

definition priority_new :: "u8 \<Rightarrow> preview_error + u8" where
  "priority_new v = (if v = 0 \<or> v > max_priority then Inl (PvInvalid ''priority 1..=16'') else Inr v)"

definition priority_from_option :: "u8 option \<Rightarrow> preview_error + u8" where
  "priority_from_option v = (case v of Some p \<Rightarrow> priority_new p | None \<Rightarrow> Inl (PvInvalid ''empty priority slot''))"

definition check_commissioned :: "u8 \<Rightarrow> preview_error + u8" where
  "check_commissioned p =
     (if p \<le> protected_max then Inl (PvProtectedPriority p)
      else if p \<noteq> commissioned_priority then Inl (PvUnallocatedPriority p)
      else Inr p)"

record accepted_target =
  at_scope :: trusted_scope
  at_equipment :: installed_id
  at_binding :: binding_revision
  at_accepted :: accepted_revision

definition accepted_target_new :: "trusted_scope \<Rightarrow> installed_id \<Rightarrow> binding_revision \<Rightarrow> accepted_revision \<Rightarrow> preview_error + accepted_target" where
  "accepted_target_new scope equipment b a =
     (if scope_text scope \<noteq> ''scope-a'' then Inl (PvInvalid ''synthetic scope-a only'')
      else if equipment \<noteq> ''ahu-1'' \<and> equipment \<noteq> ''vav-101'' then Inl (PvInvalid ''synthetic ahu-1/vav-101 only'')
      else Inr \<lparr>at_scope = scope, at_equipment = equipment, at_binding = b, at_accepted = a\<rparr>)"

definition require_current :: "accepted_target \<Rightarrow> binding_revision \<Rightarrow> accepted_revision \<Rightarrow> preview_error + unit" where
  "require_current t b a =
     (if b \<noteq> at_binding t \<or> a \<noteq> at_accepted t
      then Inl (PvRevisionMismatch ''preview revision-bound; re-preview at the new revision'')
      else Inr ())"

definition require_finding :: "accepted_target \<Rightarrow> finding \<Rightarrow> preview_error + unit" where
  "require_finding t f =
     (if fi_revision f \<noteq> at_binding t
      then Inl (PvRevisionMismatch ''finding revision does not match preview target'')
      else Inr ())"

record target_object =
  ob_type :: u16
  ob_property :: u32
  ob_array :: "u32 option"

definition check_commandable :: "target_object \<Rightarrow> preview_error + target_object" where
  "check_commandable x =
     (if ob_type x \<noteq> object_analog_value then Inl (PvNoncommandable ''synthetic Analog Value only'')
      else if ob_property x \<noteq> prop_present_value then Inl (PvNoncommandable ''synthetic presentValue only'')
      else Inr x)"

definition check_scalar :: "target_object \<Rightarrow> preview_error + target_object" where
  "check_scalar x = (case ob_array x of None \<Rightarrow> Inr x | Some i \<Rightarrow> Inl (PvAmbiguousArray i))"

definition check_unit :: "unit_of_measure \<Rightarrow> preview_error + unit" where
  "check_unit u = (if unit_as_str u = ''degC'' then Inr () else Inl (PvWrongUnit ''degC'' (unit_as_str u)))"

section \<open>Setpoint\<close>

record encoded_setpoint =
  es_requested :: int
  es_wire_bits :: int
  es_wire :: int
  es_rounding :: int
  es_note :: string

definition in_range_c :: "int \<Rightarrow> bool" where
  "in_range_c x \<longleftrightarrow> float_le f64 range_min_c x \<and> float_le f64 x range_max_c"

definition wire_range :: "int \<Rightarrow> int \<Rightarrow> preview_error" where
  "wire_range requested wire = PvWireRange (show_fixed f64 4 requested) (show_fixed f64 4 wire)"

definition setpoint_build :: "int \<Rightarrow> int \<Rightarrow> preview_error + encoded_setpoint" where
  "setpoint_build requested wire =
     (if \<not> float_finite f64 requested \<or> \<not> float_finite f64 wire then Inl (PvInvalid ''finite setpoint'')
      else if \<not> in_range_c requested then Inl (wire_range requested wire)
      else if \<not> in_range_c wire then Inl (wire_range requested wire)
      else let rounding = float_distance f64 wire requested
           in if \<not> float_le f64 rounding tolerance_c then Inl (wire_range requested wire)
              else Inr \<lparr>es_requested = requested, es_wire_bits = float_convert f64 f32 wire, es_wire = wire,
                        es_rounding = rounding, es_note = mask_note\<rparr>)"

definition setpoint_new :: "int \<Rightarrow> preview_error + encoded_setpoint" where
  "setpoint_new requested = setpoint_build requested (float_convert f32 f64 (float_convert f64 f32 requested))"

definition setpoint_from_decoded :: "int \<Rightarrow> int \<Rightarrow> preview_error + encoded_setpoint" where
  "setpoint_from_decoded requested wire = setpoint_build requested wire"

text \<open>The set of aliases is kept in the order of their texts.\<close>

fun alias_seen :: "string list \<Rightarrow> string list \<Rightarrow> preview_error + string list" where
  "alias_seen seen [] = Inr seen"
| "alias_seen seen (a # as) =
     (if a = [] then Inl (PvInvalid ''empty alias'')
      else if a \<in> set seen then Inl (PvDuplicateAlias a)
      else alias_seen (a # seen) as)"

definition alias_set_new :: "string list \<Rightarrow> preview_error + string list" where
  "alias_set_new as = map_ok sort (alias_seen [] as)"

definition preview_check_access :: "u8 \<Rightarrow> role_kind \<Rightarrow> preview_error + unit" where
  "preview_check_access ceiling role =
     (case role of
        Publisher \<Rightarrow>
          if ceiling < required_publish_ceiling then Inl (PvAssistanceCeiling ceiling required_publish_ceiling) else Inr ()
      | Reviewer \<Rightarrow> Inl (PvAssistanceCeiling ceiling required_publish_ceiling))"

section \<open>Precondition, feedback, release and timing\<close>

record precondition =
  pc_observed :: system_time
  pc_now :: system_time

definition precondition_new :: "system_time \<Rightarrow> system_time \<Rightarrow> preview_error + precondition" where
  "precondition_new observed now =
     (if now < observed then Inl (PvInvalid ''precondition clock order'')
      else Inr \<lparr>pc_observed = observed, pc_now = now\<rparr>)"

definition age_secs :: "precondition \<Rightarrow> nat" where
  "age_secs p = (if pc_now p < pc_observed p then 0 else nat ((pc_now p - pc_observed p) div 1000000000))"

definition check_fresh :: "precondition \<Rightarrow> preview_error + precondition" where
  "check_fresh p = (if age_secs p > precondition_max_age_secs then Inl PvStalePrecondition else Inr p)"

definition check_freshness :: "freshness_policy \<Rightarrow> time_evidence \<Rightarrow> clock_reading \<Rightarrow> preview_error + freshness" where
  "check_freshness policy evidence now =
     (case assess policy evidence now of
        Fresh \<Rightarrow> Inr Fresh
      | Stale \<Rightarrow> Inl PvStalePrecondition
      | UnknownFreshness \<Rightarrow> Inl PvStalePrecondition)"

fun check_suitability :: "suitability \<Rightarrow> preview_error + suitability" where
  "check_suitability SyntheticValueOnly = Inr SyntheticValueOnly"
| "check_suitability (SuitabilityRefused reason) =
     (case reason of
        RefusedWrongUnit \<Rightarrow> Inl (PvWrongUnit ''degC'' ''refused-unit'')
      | _ \<Rightarrow> Inl (PvInvalid ''unsuitable value''))"

record feedback_plan =
  fp_property :: string
  fp_status :: string
  fp_source_time :: "system_time option"

definition pv_readback :: feedback_plan where
  "pv_readback = \<lparr>fp_property = ''presentValue'', fp_status = feedback_unavailable, fp_source_time = None\<rparr>"

record priority_array_view =
  pa_priority :: u8
  pa_present :: "int option"
  pa_relinquish :: int

record release_plan =
  rp_target :: installed_id
  rp_admitted :: bool

definition release_on_expiry :: string where "release_on_expiry = ''null-relinquish''"

definition null_wire :: "release_plan \<Rightarrow> preview_error + string" where
  "null_wire r = (if rp_admitted r then Inr [CHR 0x00] else Inl PvNullNotAdmitted)"

record timing =
  tg_duration :: u64
  tg_deadline :: u64
  tg_retries :: u8
  tg_rate :: u32

definition timing_new :: "u64 \<Rightarrow> u64 \<Rightarrow> u8 \<Rightarrow> u32 \<Rightarrow> preview_error + timing" where
  "timing_new duration deadline retries rate =
     (if duration \<noteq> duration_secs then Inl (PvInvalid ''duration 15min'')
      else if deadline \<noteq> deadline_secs then Inl (PvInvalid ''deadline 5s'')
      else if retries \<noteq> apdu_retries then Inl (PvInvalid ''apdu_retries frozen'')
      else if rate = 0 \<or> rate > rate_max_per_hour then Inl (PvInvalid ''rate bound'')
      else Inr \<lparr>tg_duration = duration, tg_deadline = deadline, tg_retries = retries, tg_rate = rate\<rparr>)"

definition timing_synthetic :: timing where
  "timing_synthetic =
     \<lparr>tg_duration = duration_secs, tg_deadline = deadline_secs, tg_retries = apdu_retries, tg_rate = rate_max_per_hour\<rparr>"

definition check_rate :: "timing \<Rightarrow> u32 \<Rightarrow> preview_error + unit" where
  "check_rate t used = (if used \<ge> tg_rate t then Inl (PvRateExceeded used (tg_rate t)) else Inr ())"

section \<open>The order of a seal\<close>

text \<open>
  The checks of a sealed profile: of the ledger's bytes, of the payloads it is decoded from, and of a report with its
  plan; a failed check carries the error of the profile.
\<close>

record ('p, 'r) profile_ops =
  po_ledger :: "'p \<Rightarrow> string \<Rightarrow> preview_error + unit"
  po_parse :: "string list \<Rightarrow> preview_error + 'p"
  po_verify :: "'p \<Rightarrow> 'r \<Rightarrow> preview_error + unit"
  po_digest :: "'p \<Rightarrow> string"

record 'p seal_order =
  so_custody :: bool
  so_decoded :: bool
  so_reconstructed :: bool
  so_profile :: "'p option"
  so_ledger :: "string option"
  so_verified :: bool

definition seal_order_new :: "'p seal_order" where
  "seal_order_new =
     \<lparr>so_custody = False, so_decoded = False, so_reconstructed = False, so_profile = None, so_ledger = None, so_verified = False\<rparr>"

definition so_check_custody :: "'p seal_order \<Rightarrow> 'p seal_order \<times> (preview_error + unit)" where
  "so_check_custody s = (s\<lparr>so_custody := True\<rparr>, Inr ())"

definition so_decode :: "'p seal_order \<Rightarrow> 'p seal_order \<times> (preview_error + unit)" where
  "so_decode s =
     (if \<not> so_custody s then (s, Inl (PvSealOrder ''decode before custody'')) else (s\<lparr>so_decoded := True\<rparr>, Inr ()))"

definition so_reconstruct :: "'p seal_order \<Rightarrow> 'p seal_order \<times> (preview_error + unit)" where
  "so_reconstruct s =
     (if \<not> so_custody s \<or> \<not> so_decoded s then (s, Inl (PvSealOrder ''reconstruct before decode''))
      else (s\<lparr>so_reconstructed := True\<rparr>, Inr ()))"

definition subject_changed :: "'p option \<Rightarrow> 'p \<Rightarrow> bool" where
  "subject_changed held incoming \<longleftrightarrow> held \<noteq> Some incoming"

definition rebind_custody :: "'p \<Rightarrow> string \<Rightarrow> 'p seal_order \<Rightarrow> 'p seal_order" where
  "rebind_custody incoming ledger s =
     (let s' = (if subject_changed (so_profile s) incoming
                then s\<lparr>so_decoded := False, so_reconstructed := False, so_verified := False\<rparr> else s)
      in s'\<lparr>so_custody := True, so_profile := Some incoming, so_ledger := Some ledger\<rparr>)"

definition so_check_custody_with :: "('p, 'r) profile_ops \<Rightarrow> 'p \<Rightarrow> string \<Rightarrow> 'p seal_order \<Rightarrow> 'p seal_order \<times> (preview_error + unit)" where
  "so_check_custody_with po p ledger s =
     (case po_ledger po p ledger of
        Inl e \<Rightarrow> (s, Inl e)
      | Inr _ \<Rightarrow> (rebind_custody p ledger s, Inr ()))"

definition so_decode_with :: "('p, 'r) profile_ops \<Rightarrow> string list \<Rightarrow> 'p seal_order \<Rightarrow> 'p seal_order \<times> (preview_error + unit)" where
  "so_decode_with po payloads s =
     (if \<not> so_custody s then (s, Inl (PvSealOrder ''decode requires real custody''))
      else case so_profile s of
        None \<Rightarrow> (s, Inl (PvSealOrder ''decode requires real custody''))
      | Some held \<Rightarrow>
          (case po_parse po payloads of
             Inl e \<Rightarrow> (s, Inl e)
           | Inr decoded \<Rightarrow>
               if held = decoded then (s\<lparr>so_decoded := True\<rparr>, Inr ())
               else (s, Inl (PvSealed ''s03-ledger-digest-mismatch'' ''LedgerDigestMismatch''))))"

definition so_reconstruct_with :: "('p, 'r) profile_ops \<Rightarrow> 'r \<Rightarrow> 'p seal_order \<Rightarrow> 'p seal_order \<times> (preview_error + unit)" where
  "so_reconstruct_with po report s =
     (if \<not> so_custody s \<or> \<not> so_decoded s then (s, Inl (PvSealOrder ''reconstruct before decode''))
      else case so_profile s of
        None \<Rightarrow> (s, Inl (PvSealOrder ''reconstruct requires decoded profile''))
      | Some p \<Rightarrow>
          (case po_verify po p report of
             Inl e \<Rightarrow> (s, Inl e)
           | Inr _ \<Rightarrow> (s\<lparr>so_reconstructed := True, so_verified := True\<rparr>, Inr ())))"

definition so_is_verified :: "'p seal_order \<Rightarrow> bool" where
  "so_is_verified s \<longleftrightarrow> so_verified s \<and> so_custody s \<and> so_decoded s \<and> so_reconstructed s \<and> so_ledger s \<noteq> None"

definition so_ledger_digest :: "('p, 'r) profile_ops \<Rightarrow> 'p seal_order \<Rightarrow> string option" where
  "so_ledger_digest po s = map_option (po_digest po) (so_profile s)"

definition so_availability :: "'p seal_order \<Rightarrow> preview_error + unit" where
  "so_availability s =
     (if so_custody s \<and> so_decoded s \<and> so_reconstructed s then Inr ()
      else Inl (PvSealOrder ''seal-custody/decode/reconstruct order required''))"

definition so_verified_availability :: "'p seal_order \<Rightarrow> preview_error + unit" where
  "so_verified_availability s =
     and_then (so_availability s) (\<lambda>_.
       if so_is_verified s then Inr ()
       else Inl (PvSealOrder ''marker seal without real S03 custody/decode/reconstruct proof; joined handoff refused''))"

definition so_ledger_only :: "'p seal_order \<Rightarrow> preview_error + unit" where
  "so_ledger_only s = Inl (PvSealOrder ''ledger_status alone is insufficient'')"

section \<open>The preview\<close>

record preview =
  pw_target :: accepted_target
  pw_priority :: u8
  pw_object :: target_object
  pw_unit :: unit_of_measure
  pw_encoded :: encoded_setpoint
  pw_timing :: timing
  pw_age :: nat
  pw_feedback :: feedback_plan
  pw_array :: priority_array_view
  pw_release :: release_plan
  pw_seal_verified :: bool
  pw_seal_digest :: "string option"

text \<open>The arguments of \<open>preview\<close>, without the seal.\<close>

record preview_call =
  pq_scope :: trusted_scope
  pq_equipment :: installed_id
  pq_binding :: binding_revision
  pq_accepted :: accepted_revision
  pq_status :: binding_status
  pq_ceiling :: u8
  pq_role :: role_kind
  pq_priority :: "u8 option"
  pq_object :: target_object
  pq_unit :: unit_of_measure
  pq_requested :: int
  pq_wire :: "int option"
  pq_aliases :: "string list"
  pq_precondition :: precondition
  pq_release_target :: installed_id
  pq_release_admitted :: bool

definition make_preview :: "('p, 'r) profile_ops \<Rightarrow> preview_call \<Rightarrow> 'p seal_order \<Rightarrow> preview_error + preview" where
  "make_preview po q s =
     and_then (preview_check_access (pq_ceiling q) (pq_role q)) (\<lambda>_.
     and_then (accepted_target_new (pq_scope q) (pq_equipment q) (pq_binding q) (pq_accepted q)) (\<lambda>target.
     and_then (case pq_status q of
         Imported \<Rightarrow> Inr ()
       | Valid \<Rightarrow> Inr ()
       | ObservedQualified \<Rightarrow> Inl (PvInvalid ''no observed qualification here'')) (\<lambda>_.
     and_then (priority_from_option (pq_priority q)) (\<lambda>p0.
     and_then (check_commissioned p0) (\<lambda>priority.
     and_then (check_commandable (pq_object q)) (\<lambda>o1.
     and_then (check_scalar o1) (\<lambda>object.
     and_then (check_unit (pq_unit q)) (\<lambda>_.
     and_then (case pq_wire q of
         None \<Rightarrow> setpoint_new (pq_requested q)
       | Some wire \<Rightarrow> setpoint_from_decoded (pq_requested q) wire) (\<lambda>encoded.
     and_then (alias_set_new (pq_aliases q)) (\<lambda>_.
     and_then (check_fresh (pq_precondition q)) (\<lambda>_.
     and_then (so_availability s) (\<lambda>_.
       Inr \<lparr>pw_target = target, pw_priority = priority, pw_object = object, pw_unit = pq_unit q, pw_encoded = encoded,
            pw_timing = timing_synthetic, pw_age = age_secs (pq_precondition q), pw_feedback = pv_readback,
            pw_array = \<lparr>pa_priority = priority, pa_present = Some (es_wire encoded), pa_relinquish = es_wire encoded\<rparr>,
            pw_release = \<lparr>rp_target = pq_release_target q, rp_admitted = pq_release_admitted q\<rparr>,
            pw_seal_verified = so_is_verified s,
            pw_seal_digest = (if so_ledger s \<noteq> None then so_ledger_digest po s else None)\<rparr>))))))))))))"

definition preview_bytes :: "preview \<Rightarrow> string" where
  "preview_bytes v =
     preview_format @ ''|'' @ scope_text (at_scope (pw_target v)) @ ''|'' @ at_equipment (pw_target v) @ ''|'' @
     show_word (at_binding (pw_target v)) @ ''|'' @ show_word (at_accepted (pw_target v)) @ ''|p'' @ show_word (pw_priority v) @
     ''|av'' @ show_word (ob_type (pw_object v)) @ '':pv'' @ show_word (ob_property (pw_object v)) @ ''|'' @
     unit_as_str (pw_unit v) @ ''|'' @ show_fixed f64 4 (es_wire (pw_encoded v)) @ ''|'' @ mask_note @ ''|'' @
     show_word (tg_duration (pw_timing v)) @ ''s|'' @ show_word (tg_deadline (pw_timing v)) @ ''s|r'' @
     show_word (tg_retries (pw_timing v)) @ ''|age'' @ show_nat (pw_age v) @ ''|'' @ fp_status (pw_feedback v) @ ''|'' @
     release_on_expiry"

definition preview_action_kind :: "preview \<Rightarrow> string" where
  "preview_action_kind v = (if rp_admitted (pw_release v) then ''release'' else ''set'')"

text \<open>\<open>{:08X}\<close>.\<close>

definition show_hex8 :: "int \<Rightarrow> string" where
  "show_hex8 bits = map (\<lambda>i. upper_hex_digit (nat (bits div 16 ^ i mod 16))) [7, 6, 5, 4, 3, 2, 1, 0]"

definition preview_identity_bytes :: "preview \<Rightarrow> string" where
  "preview_identity_bytes v =
     preview_format @ ''|bits'' @ show_hex8 (es_wire_bits (pw_encoded v)) @ ''|kind:'' @ preview_action_kind v @ ''|rel:'' @
     (if rp_admitted (pw_release v) then ''1'' else ''0'') @ '':'' @ rp_target (pw_release v) @ ''|'' @ preview_bytes v"

definition synthetic_time :: "int \<Rightarrow> system_time" where
  "synthetic_time ms = ms * nanos_per_milli"

end
