(* ===== verification/Preview_Facts.thy ===== *)
theory Preview_Facts
  imports Preview
begin

text \<open>
  Facts of previews: how a temperature in the admitted range is rounded to single precision, that the difference of two of
  them is exact, and what a sealed order of checks stands on.
\<close>

section \<open>Rounding\<close>

lemma half_even_between: "0 < b \<Longrightarrow> lo * b \<le> a \<Longrightarrow> a \<le> hi * b \<Longrightarrow> lo \<le> half_even a b \<and> half_even a b \<le> hi"
proof -
  assume b: "0 < b" and lo: "lo * b \<le> a" and hi: "a \<le> hi * b"
  have d: "lo \<le> a div b" using b lo by (metis nonzero_mult_div_cancel_right order_less_irrefl zdiv_mono1)
  have u: "a div b \<le> hi" using b hi by (metis nonzero_mult_div_cancel_right order_less_irrefl zdiv_mono1)
  have "a div b < hi" if "a mod b \<noteq> 0"
  proof (rule ccontr)
    assume "\<not> a div b < hi"
    then have "a div b = hi" using u by simp
    then have "a = hi * b + a mod b" by (metis div_mult_mod_eq)
    moreover have "0 < a mod b" using that pos_mod_sign [OF b, of a] by linarith
    ultimately show False using hi by simp
  qed
  then show ?thesis using d u b by (auto simp: half_even_def Let_def)
qed

lemma half_even_close: "0 < b \<Longrightarrow> 2 * \<bar>half_even a b * b - a\<bar> \<le> b"
proof -
  assume b: "0 < b"
  have a: "a div b * b = a - a mod b" by (simp add: minus_mod_eq_div_mult)
  have r: "0 \<le> a mod b" "a mod b < b" using b by simp_all
  show ?thesis
  proof (cases "2 * (a mod b) > b \<or> (2 * (a mod b) = b \<and> a div b mod 2 = 1)")
    case True
    then have "half_even a b = a div b + 1" by (simp add: half_even_def Let_def)
    then have "half_even a b * b - a = b - a mod b" using a by (simp only: distrib_right)
    then show ?thesis using True r by auto
  next
    case False
    then have "half_even a b = a div b" by (simp add: half_even_def Let_def)
    then have "half_even a b * b - a = - (a mod b)" using a by simp
    then show ?thesis using False r by auto
  qed
qed

lemma half_even_scale: "0 < c \<Longrightarrow> 0 < b \<Longrightarrow> half_even (a * c) (b * c) = half_even a b"
proof -
  assume c: "0 < c"
  have "b * c < 2 * (a mod b * c) \<longleftrightarrow> b < 2 * (a mod b)" "2 * (a mod b * c) = b * c \<longleftrightarrow> 2 * (a mod b) = b"
    using c mult_less_cancel_right_pos [of c b "2 * (a mod b)"] by (auto simp flip: mult.assoc)
  then show ?thesis using c by (simp add: half_even_def Let_def mult_mod_left)
qed

lemma half_even_dvd: "0 < b \<Longrightarrow> b dvd a \<Longrightarrow> half_even a b = a div b"
  by (auto simp: half_even_def Let_def)

lemma bit_length_eq: "2 ^ k \<le> m \<Longrightarrow> m < 2 ^ Suc k \<Longrightarrow> bit_length m = Suc k"
proof (induction k arbitrary: m)
  case 0
  then have "m = 1" by simp
  then show ?case by (simp add: bit_length.simps)
next
  case (Suc k)
  have "2 ^ k \<le> m div 2" "m div 2 < 2 ^ Suc k" using Suc.prems by auto
  with Suc.IH have "bit_length (m div 2) = Suc k" .
  moreover have "0 < m" using Suc.prems(1) by (meson less_le_trans zero_less_numeral zero_less_power)
  ultimately show ?case by (subst bit_length.simps) simp
qed

lemma bit_length_bounds: "0 < m \<Longrightarrow> \<exists>k. bit_length m = Suc k \<and> 2 ^ k \<le> m \<and> m < 2 ^ Suc k"
proof (induction m rule: bit_length.induct)
  case (1 m)
  show ?case
  proof (cases "m = 1")
    case True
    then show ?thesis by (intro exI [of _ 0]) (simp add: bit_length.simps)
  next
    case False
    then have "0 < m div 2" using 1(2) by auto
    then obtain k where k: "bit_length (m div 2) = Suc k" "2 ^ k \<le> m div 2" "m div 2 < 2 ^ Suc k" using 1 by auto
    then show ?thesis using 1(2) by (intro exI [of _ "Suc k"]) (subst bit_length.simps, auto)
  qed
qed

lemma bit_length_shift: "0 < m \<Longrightarrow> bit_length (m * 2 ^ j) = bit_length m + j"
proof -
  assume "0 < m"
  then obtain k where k: "bit_length m = Suc k" "2 ^ k \<le> m" "m < 2 ^ Suc k" using bit_length_bounds by blast
  have "2 ^ (k + j) \<le> m * 2 ^ j" "m * 2 ^ j < 2 ^ Suc (k + j)" using k by (simp_all add: power_add)
  from bit_length_eq [OF this] show ?thesis by (simp add: k(1))
qed

section \<open>Values of a format\<close>

text \<open>The bits made of a biased exponent and a mantissa with its leading one.\<close>

lemma float_units_made:
  assumes "2 ^ ff_frac_bits ff \<le> n" "n < 2 ^ Suc (ff_frac_bits ff)" "e + 1 < 2 ^ ff_exp_bits ff"
  shows "float_units ff (int e * 2 ^ ff_frac_bits ff + n) = n * 2 ^ e"
proof -
  let ?F = "ff_frac_bits ff" let ?x = "int e * 2 ^ ?F + n"
  have x: "?x = (int e + 1) * 2 ^ ?F + (n - 2 ^ ?F)" by (simp add: distrib_right)
  have r: "0 \<le> n - 2 ^ ?F" "n - 2 ^ ?F < 2 ^ ?F" using assms(1,2) by auto
  have d: "?x div 2 ^ ?F = int e + 1" unfolding x using r by (simp add: div_pos_pos_trivial)
  have m: "float_fraction ff ?x = n - 2 ^ ?F" unfolding float_fraction_def x mod_mult_self3 by (rule mod_pos_pos_trivial) (use r in auto)
  have ebound: "int e + 1 < 2 ^ ff_exp_bits ff" using assms(3) by (metis of_nat_1 of_nat_add of_nat_less_numeral_power_cancel_iff)
  have ex: "float_exponent ff ?x = int e + 1" unfolding float_exponent_def d using ebound by simp
  have "?x div 2 ^ (?F + ff_exp_bits ff) = (?x div 2 ^ ?F) div 2 ^ ff_exp_bits ff" by (simp add: power_add div_mult2_eq')
     (simp add: zdiv_zmult2_eq)
  then have "\<not> float_negative ff ?x" unfolding float_negative_def d using ebound by simp
  moreover have "float_mantissa ff ?x = n" by (simp add: float_mantissa_def ex m)
  moreover have "nat (float_exponent ff ?x) - 1 = e" using ex by simp
  ultimately show ?thesis by (simp add: float_units_def Let_def)
qed

lemma mantissa_bounds:
  "0 \<le> float_mantissa ff x \<and> float_mantissa ff x < 2 ^ Suc (ff_frac_bits ff)"
  "float_exponent ff x \<noteq> 0 \<Longrightarrow> 2 ^ ff_frac_bits ff \<le> float_mantissa ff x"
proof -
  define f where "f = x mod 2 ^ ff_frac_bits ff"
  define p :: int where "p = 2 ^ ff_frac_bits ff"
  have f: "0 \<le> f" "f < p" and p: "2 ^ Suc (ff_frac_bits ff) = 2 * p" by (simp_all add: f_def p_def)
  have m: "float_mantissa ff x = (if float_exponent ff x = 0 then f else f + p)"
    by (simp add: float_mantissa_def float_fraction_def f_def p_def)
  show "0 \<le> float_mantissa ff x \<and> float_mantissa ff x < 2 ^ Suc (ff_frac_bits ff)"
    unfolding m p using f by (simp split: if_split)
  show "float_exponent ff x \<noteq> 0 \<Longrightarrow> 2 ^ ff_frac_bits ff \<le> float_mantissa ff x"
    unfolding m using f by (simp add: p_def)
qed

lemma f64_least: "float_least f64 = - 1074" "ff_frac_bits f64 = 52" "ff_exp_bits f64 = 11"
  by (simp_all add: float_least_def float_bias_def f64_def)

lemma f32_least: "float_least f32 = - 149" "ff_frac_bits f32 = 23" "ff_exp_bits f32 = 8"
  by (simp_all add: float_least_def float_bias_def f32_def)

text \<open>A value from sixteen up to thirty-two, in its units: the exponent is fixed.\<close>

lemma f64_band:
  assumes "2 ^ 1078 \<le> float_units f64 x" "float_units f64 x < 2 ^ 1079"
  shows "float_units f64 x = float_mantissa f64 x * 2 ^ 1026"
proof -
  let ?m = "float_mantissa f64 x" let ?e = "nat (float_exponent f64 x) - 1"
  have pos: "0 < float_units f64 x" using assms(1) by (rule order_less_le_trans [OF zero_less_power, rotated]) simp
  have "0 \<le> ?m * 2 ^ ?e" using mantissa_bounds(1) [of f64 x] by simp
  then have neg: "\<not> float_negative f64 x" using pos unfolding float_units_def Let_def by (metis neg_0_less_iff_less not_le)
  then have u: "float_units f64 x = ?m * 2 ^ ?e" by (simp add: float_units_def)
  have m: "0 \<le> ?m" "?m < 2 ^ 53" using mantissa_bounds(1) [of f64 x] by (auto simp: f64_least)
  have "\<not> ?e \<le> 1025"
  proof
    assume "?e \<le> 1025"
    then have "?m * 2 ^ ?e \<le> ?m * 2 ^ 1025" using m(1) by (intro mult_left_mono power_increasing) auto
    also have "\<dots> < 2 ^ 53 * 2 ^ 1025" using m(2) by (intro mult_strict_right_mono) auto
    also have "(2::int) ^ 53 * 2 ^ 1025 = 2 ^ 1078" by (simp only: power_add [symmetric]) simp
    finally show False using assms(1) u by simp
  qed
  moreover have "\<not> 1027 \<le> ?e"
  proof
    assume e: "1027 \<le> ?e"
    then have "float_exponent f64 x \<noteq> 0" by auto
    then have "2 ^ 52 \<le> ?m" using mantissa_bounds(2) [of f64 x] by (simp add: f64_least)
    then have "2 ^ 52 * 2 ^ 1027 \<le> ?m * 2 ^ ?e" using e by (intro mult_mono power_increasing) auto
    moreover have "(2::int) ^ 52 * 2 ^ 1027 = 2 ^ 1079" by (simp only: power_add [symmetric]) simp
    ultimately show False using assms(2) u by simp
  qed
  ultimately have "?e = 1026" by simp
  with u show ?thesis by simp
qed

text \<open>Single precision of such a value.\<close>

lemma f32_of_band:
  assumes "2 ^ 52 \<le> m" "m < 2 ^ 53"
  shows "float_round f32 False (m * 2 ^ 1026) (- 1074) = 130 * 2 ^ 23 + half_even m (2 ^ 29)"
proof -
  have len: "bit_length (m * 2 ^ 1026) = 1079"
    using bit_length_eq [of 52 m] assms by (subst bit_length_shift) auto
  have h: "half_even (m * 2 ^ 1026) (2 ^ 1055) = half_even m (2 ^ 29)"
    using half_even_scale [of "2 ^ 1026" "2 ^ 29" m] by (simp only: power_add [symmetric]) simp
  have b: "half_even m (2 ^ 29) \<le> 2 ^ 24" using half_even_between [of "2 ^ 29" 0 m "2 ^ 24"] assms by simp
  have q: "max (int 1079 + - 1074 - (int 23 + 1)) (- 149) = - 19" by simp
  have n: "nat (- 19 - - 1074) = 1055" by simp
  have z: "m * 2 ^ 1026 \<noteq> 0" using assms(1) by auto
  show ?thesis unfolding float_round_def len f32_least Let_def q n h using z b by simp
qed

lemma f32_units: "2 ^ 23 \<le> n \<Longrightarrow> n < 2 ^ 24 \<Longrightarrow> float_units f32 (130 * 2 ^ 23 + n) = n * 2 ^ 130"
  using float_units_made [of f32 n 130] by (simp add: f32_least)

text \<open>A multiple of the band's unit that is small enough is not rounded.\<close>

lemma f64_exact:
  assumes "0 \<le> k" "k \<le> 2 ^ 50"
  shows "float_units f64 (float_round f64 False (k * 2 ^ 1026) (- 1074)) = k * 2 ^ 1026"
proof (cases "k = 0")
  case True
  then have "float_round f64 False (k * 2 ^ 1026) (- 1074) = 0" by (simp add: float_round_def Let_def)
  then show ?thesis using True by (simp add: float_units_def float_mantissa_def float_exponent_def float_fraction_def float_negative_def)
next
  case False
  then have k: "0 < k" using assms(1) by simp
  then obtain l where l: "bit_length k = Suc l" "2 ^ l \<le> k" "k < 2 ^ Suc l" using bit_length_bounds by blast
  have l50: "l \<le> 50"
  proof (rule ccontr)
    assume "\<not> l \<le> 50"
    then have "(2::int) ^ 51 \<le> 2 ^ l" by (intro power_increasing) auto
    then show False using l(2) assms(2) by simp
  qed
  have len: "bit_length (k * 2 ^ 1026) = l + 1027" unfolding bit_length_shift [OF k] l(1) by simp
  let ?n = "k * 2 ^ (52 - l)"
  have split: "(2::int) ^ 1026 = 2 ^ (52 - l) * 2 ^ (974 + l)" using l50 by (simp only: power_add [symmetric]) simp
  have dvd: "half_even (k * 2 ^ 1026) (2 ^ (974 + l)) = ?n"
    unfolding split by (subst half_even_dvd) (simp_all flip: mult.assoc)
  have q: "max (int (l + 1027) + - 1074 - (int 52 + 1)) (- 1074) = int l - 100" by simp
  have le: "\<not> int l - 100 \<le> - 1074" by simp
  have sh: "nat (int l - 100 - - 1074) = 974 + l" by simp
  have n: "2 ^ 52 \<le> ?n" "?n < 2 ^ 53"
  proof -
    have a: "(2::int) ^ 52 = 2 ^ l * 2 ^ (52 - l)" and b: "(2::int) ^ 53 = 2 ^ Suc l * 2 ^ (52 - l)"
      using l50 by (simp_all only: power_add [symmetric]) simp_all
    show "2 ^ 52 \<le> ?n" unfolding a by (rule mult_right_mono [OF l(2)]) simp
    show "?n < 2 ^ 53" unfolding b by (rule mult_strict_right_mono [OF l(3)]) simp
  qed
  let ?bits = "int (l + 974) * 2 ^ 52 + ?n"
  have "?bits \<le> (2 ^ 11 - 1) * 2 ^ 52"
  proof -
    have "?bits \<le> 1024 * 2 ^ 52 + 2 ^ 53" using l50 n(2) by (intro add_mono mult_right_mono) auto
    then show ?thesis by simp
  qed
  moreover have "k * 2 ^ 1026 \<noteq> 0" using k by simp
  ultimately have "float_round f64 False (k * 2 ^ 1026) (- 1074) = ?bits"
    unfolding float_round_def len f64_least Let_def q sh using le by (simp only: if_False dvd) (simp add: min_def)
  also have "float_units f64 ?bits = ?n * 2 ^ (l + 974)"
    using float_units_made [of f64 ?n "l + 974"] n l50 by (simp add: f64_least)
  also have "\<dots> = k * 2 ^ 1026" unfolding split by (simp add: add.commute)
  finally show ?thesis .
qed

section \<open>Setpoints\<close>

lemma range_units: "float_units f64 range_min_c = 20 * 2 ^ 1074" "float_units f64 range_max_c = 24 * 2 ^ 1074"
  by code_simp+

text \<open>A value of the admitted range is a multiple of the band's unit.\<close>

lemma in_range_band:
  assumes "in_range_c x"
  obtains m where "float_units f64 x = m * 2 ^ 1026" "20 * 2 ^ 48 \<le> m" "m \<le> 24 * 2 ^ 48"
proof -
  have u: "20 * 2 ^ 1074 \<le> float_units f64 x" "float_units f64 x \<le> 24 * 2 ^ 1074"
    using assms by (simp_all only: in_range_c_def float_le_def range_units)
  have p: "(2::int) ^ 1078 = 16 * 2 ^ 1074" "(2::int) ^ 1079 = 32 * 2 ^ 1074" "(2::int) ^ 1074 = 2 ^ 48 * 2 ^ 1026"
    using power_add [of "2::int" 4 1074] power_add [of "2::int" 5 1074] power_add [of "2::int" 48 1026] by (simp_all only: numeral_plus_numeral semiring_norm) simp_all
  define P :: int where "P = 2 ^ 1074"
  define Q :: int where "Q = 2 ^ 1026"
  have pos: "0 < P" "0 < Q" by (simp_all only: P_def Q_def zero_less_power zero_less_numeral)
  have "2 ^ 1078 \<le> float_units f64 x" "float_units f64 x < 2 ^ 1079"
    using u pos(1) unfolding p(1,2) P_def [symmetric] by linarith+
  then have m: "float_units f64 x = float_mantissa f64 x * Q" unfolding Q_def by (rule f64_band)
  have "20 * 2 ^ 48 * Q \<le> float_mantissa f64 x * Q" "float_mantissa f64 x * Q \<le> 24 * 2 ^ 48 * Q"
    using u unfolding m p(3) Q_def [symmetric] by (simp_all only: mult.assoc)
  then have "20 * 2 ^ 48 \<le> float_mantissa f64 x" "float_mantissa f64 x \<le> 24 * 2 ^ 48" using pos(2) by (simp_all only: mult_le_cancel_right_pos)
  with m show thesis unfolding Q_def by (rule that)
qed

lemma setpoint_built:
  assumes "setpoint_build requested wire = Inr e"
  shows "\<exists>n. 20 * 2 ^ 19 \<le> n \<and> n \<le> 24 * 2 ^ 19 \<and> es_wire_bits e = 130 * 2 ^ 23 + n \<and>
    float_units f32 (es_wire_bits e) = n * 2 ^ 130 \<and> es_wire e = wire \<and> es_requested e = requested \<and>
    \<bar>n * 2 ^ 1055 - float_units f64 wire\<bar> \<le> 2 ^ 1054 \<and>
    \<bar>float_units f64 wire - float_units f64 requested\<bar> \<le> float_units f64 tolerance_c"
proof -
  have a: "float_finite f64 wire" "in_range_c requested" "in_range_c wire"
      "float_le f64 (float_distance f64 wire requested) tolerance_c" "es_wire_bits e = float_convert f64 f32 wire"
      "es_wire e = wire" "es_requested e = requested"
    using assms by (auto simp: setpoint_build_def Let_def split: if_splits)
  obtain m where m: "float_units f64 wire = m * 2 ^ 1026" "20 * 2 ^ 48 \<le> m" "m \<le> 24 * 2 ^ 48" by (rule in_range_band [OF a(3)])
  obtain r where r: "float_units f64 requested = r * 2 ^ 1026" "20 * 2 ^ 48 \<le> r" "r \<le> 24 * 2 ^ 48" by (rule in_range_band [OF a(2)])
  define Q :: int where "Q = 2 ^ 1026"
  have Q: "0 < Q" by (simp only: Q_def zero_less_power zero_less_numeral)
  let ?n = "half_even m (2 ^ 29)"
  have n: "20 * 2 ^ 19 \<le> ?n" "?n \<le> 24 * 2 ^ 19" using half_even_between [of "2 ^ 29" "20 * 2 ^ 19" m "24 * 2 ^ 19"] m by auto
  have pos: "\<not> float_negative f64 wire" "\<bar>float_units f64 wire\<bar> = m * 2 ^ 1026"
  proof -
    have "0 < m * Q" using m(2) Q by simp
    then have g: "0 < float_units f64 wire" unfolding m(1) Q_def [symmetric] .
    then show "\<bar>float_units f64 wire\<bar> = m * 2 ^ 1026" using m(1) by simp
    have "0 \<le> float_mantissa f64 wire * 2 ^ (nat (float_exponent f64 wire) - 1)" using mantissa_bounds(1) [of f64 wire] by simp
    then show "\<not> float_negative f64 wire" using g unfolding float_units_def Let_def by (metis neg_0_less_iff_less not_le)
  qed
  have "float_convert f64 f32 wire = float_round f32 False (m * 2 ^ 1026) (- 1074)"
    unfolding float_convert_def Let_def pos(2) using a(1) pos(1) by (simp only: if_True f64_least not_False_eq_True)
  also have "\<dots> = 130 * 2 ^ 23 + ?n" by (rule f32_of_band) (use m in auto)
  finally have bits: "es_wire_bits e = 130 * 2 ^ 23 + ?n" using a(5) by simp
  have units: "float_units f32 (es_wire_bits e) = ?n * 2 ^ 130" unfolding bits by (rule f32_units) (use n in auto)
  have close: "\<bar>?n * 2 ^ 1055 - float_units f64 wire\<bar> \<le> 2 ^ 1054"
  proof -
    have p: "(2::int) ^ 1055 = 2 ^ 29 * Q" "(2::int) ^ 1054 = 2 ^ 28 * Q" unfolding Q_def by (simp_all only: power_add [symmetric]) simp_all
    have "2 * \<bar>?n * 2 ^ 29 - m\<bar> \<le> 2 ^ 29" by (rule half_even_close) simp
    then have "\<bar>?n * 2 ^ 29 - m\<bar> * Q \<le> 2 ^ 28 * Q" using Q by (intro mult_right_mono) auto
    moreover have "?n * (2 ^ 29 * Q) - m * Q = (?n * 2 ^ 29 - m) * Q" by (simp only: left_diff_distrib mult.assoc)
    then have "\<bar>?n * (2 ^ 29 * Q) - m * Q\<bar> = \<bar>?n * 2 ^ 29 - m\<bar> * Q" by (simp only: abs_mult abs_of_pos [OF Q])
    ultimately show ?thesis unfolding m(1) p Q_def [symmetric] by simp
  qed
  have tol: "\<bar>float_units f64 wire - float_units f64 requested\<bar> \<le> float_units f64 tolerance_c"
  proof -
    have d: "\<bar>float_units f64 wire - float_units f64 requested\<bar> = \<bar>m - r\<bar> * 2 ^ 1026"
      unfolding m(1) r(1) left_diff_distrib [symmetric] abs_mult by (simp only: abs_power2 power_abs abs_numeral)
    have "\<bar>m - r\<bar> \<le> 2 ^ 50" using m r by auto
    then have "float_units f64 (float_distance f64 wire requested) = \<bar>m - r\<bar> * 2 ^ 1026"
      unfolding float_distance_def d f64_least by (intro f64_exact) auto
    then show ?thesis using a(4) unfolding float_le_def d by simp
  qed
  show ?thesis by (intro exI [of _ ?n] conjI n bits units a(6,7) close tol)
qed

section \<open>Orders of seals\<close>

datatype ('p, 'r) seal_op =
    SoCustody
  | SoDecode
  | SoReconstruct
  | SoCustodyWith 'p string
  | SoDecodeWith "string list"
  | SoReconstructWith 'r

fun so_apply :: "('p, 'r) profile_ops \<Rightarrow> ('p, 'r) seal_op \<Rightarrow> 'p seal_order \<Rightarrow> 'p seal_order \<times> (preview_error + unit)" where
  "so_apply po SoCustody s = so_check_custody s"
| "so_apply po SoDecode s = so_decode s"
| "so_apply po SoReconstruct s = so_reconstruct s"
| "so_apply po (SoCustodyWith p ledger) s = so_check_custody_with po p ledger s"
| "so_apply po (SoDecodeWith payloads) s = so_decode_with po payloads s"
| "so_apply po (SoReconstructWith report) s = so_reconstruct_with po report s"

fun so_run :: "('p, 'r) profile_ops \<Rightarrow> ('p, 'r) seal_op list \<Rightarrow> 'p seal_order \<Rightarrow> 'p seal_order" where
  "so_run po [] s = s"
| "so_run po (x # xs) s = so_run po xs (fst (so_apply po x s))"

lemma so_run_append: "so_run po (xs @ ys) s = so_run po ys (so_run po xs s)"
  by (induction xs arbitrary: s) auto

text \<open>The steps that count for a profile: a decoding is a mark or payloads that are the profile's, a reconstruction is a
  mark or a report that the profile verifies.\<close>

definition so_decodes :: "('p, 'r) profile_ops \<Rightarrow> 'p \<Rightarrow> ('p, 'r) seal_op \<Rightarrow> bool" where
  "so_decodes po p x \<longleftrightarrow> x = SoDecode \<or> (\<exists>payloads. x = SoDecodeWith payloads \<and> po_parse po payloads = Inr p)"

definition so_verifies :: "('p, 'r) profile_ops \<Rightarrow> 'p \<Rightarrow> ('p, 'r) seal_op \<Rightarrow> bool" where
  "so_verifies po p x \<longleftrightarrow> (\<exists>report. x = SoReconstructWith report \<and> po_verify po p report = Inr ())"

definition so_reconstructs :: "('p, 'r) profile_ops \<Rightarrow> 'p \<Rightarrow> ('p, 'r) seal_op \<Rightarrow> bool" where
  "so_reconstructs po p x \<longleftrightarrow> x = SoReconstruct \<or> so_verifies po p x"

definition in_turn :: "('a \<Rightarrow> bool) \<Rightarrow> ('a \<Rightarrow> bool) \<Rightarrow> 'a list \<Rightarrow> bool" where
  "in_turn P Q xs \<longleftrightarrow> (\<exists>as bs. xs = as @ bs \<and> (\<exists>x \<in> set as. P x) \<and> (\<exists>y \<in> set bs. Q y))"

lemma in_turn_more: "in_turn P Q xs \<Longrightarrow> in_turn P Q (xs @ [x])"
  unfolding in_turn_def by (elim exE conjE) (rule exI, rule exI, intro conjI, erule ssubst, rule append_assoc, auto)

lemma in_turn_last: "x \<in> set xs \<Longrightarrow> P x \<Longrightarrow> Q y \<Longrightarrow> in_turn P Q (xs @ [y])"
  unfolding in_turn_def by (intro exI [of _ xs] exI [of _ "[y]"]) auto

text \<open>
  What the flags of a held profile stand for: all of it happened after the profile was taken into custody, with no other
  profile taken since.
\<close>

definition so_since :: "('p, 'r) profile_ops \<Rightarrow> 'p \<Rightarrow> ('p, 'r) seal_op list \<Rightarrow> 'p seal_order \<Rightarrow> bool" where
  "so_since po p after s \<longleftrightarrow>
     (\<forall>q ledger. SoCustodyWith q ledger \<in> set after \<longrightarrow> po_ledger po q ledger = Inr () \<longrightarrow> q = p) \<and>
     (so_decoded s \<longrightarrow> (\<exists>x \<in> set after. so_decodes po p x)) \<and>
     (so_reconstructed s \<longrightarrow> in_turn (so_decodes po p) (so_reconstructs po p) after) \<and>
     (so_verified s \<longrightarrow> in_turn (so_decodes po p) (so_verifies po p) after)"

definition so_backed :: "('p, 'r) profile_ops \<Rightarrow> ('p, 'r) seal_op list \<Rightarrow> 'p seal_order \<Rightarrow> bool" where
  "so_backed po ops s \<longleftrightarrow> (so_ledger s = None \<longleftrightarrow> so_profile s = None) \<and>
     (\<forall>p. so_profile s = Some p \<longrightarrow>
        (\<exists>before ledger after. ops = before @ SoCustodyWith p ledger # after \<and> po_ledger po p ledger = Inr () \<and> so_since po p after s))"

lemma so_backed_same:
  assumes "so_backed po ops s" "so_profile s' = so_profile s" "so_ledger s' = so_ledger s"
    and "\<And>p after. so_profile s = Some p \<Longrightarrow> so_since po p after s \<Longrightarrow> so_since po p (after @ [x]) s'"
  shows "so_backed po (ops @ [x]) s'"
  unfolding so_backed_def
proof (intro conjI allI impI)
  show "so_ledger s' = None \<longleftrightarrow> so_profile s' = None" using assms(1-3) by (simp add: so_backed_def)
  fix p assume "so_profile s' = Some p"
  then have p: "so_profile s = Some p" using assms(2) by simp
  then obtain before ledger after where "ops = before @ SoCustodyWith p ledger # after" "po_ledger po p ledger = Inr ()"
      "so_since po p after s"
    using assms(1) unfolding so_backed_def by blast
  with assms(4) [OF p] show "\<exists>before ledger after. ops @ [x] = before @ SoCustodyWith p ledger # after \<and>
      po_ledger po p ledger = Inr () \<and> so_since po p after s'"
    by (intro exI [of _ before] exI [of _ ledger] exI [of _ "after @ [x]"]) simp
qed

lemma so_since_more:
  assumes "so_since po p after s" "so_decoded s' \<longrightarrow> so_decoded s" "so_reconstructed s' \<longrightarrow> so_reconstructed s"
    and "so_verified s' \<longrightarrow> so_verified s" "\<forall>q ledger. x = SoCustodyWith q ledger \<longrightarrow> po_ledger po q ledger = Inr () \<longrightarrow> q = p"
  shows "so_since po p (after @ [x]) s'"
  using assms by (auto simp: so_since_def intro: in_turn_more)

lemma so_since_decode:
  assumes "so_since po p after s" "so_decodes po p x"
  shows "so_since po p (after @ [x]) (s\<lparr>so_decoded := True\<rparr>)"
  using assms by (auto simp: so_since_def so_decodes_def intro: in_turn_more)

lemma so_since_reconstruct:
  assumes "so_since po p after s" "so_decoded s" "so_reconstructs po p x"
  shows "so_since po p (after @ [x]) (s\<lparr>so_reconstructed := True\<rparr>)"
    "so_verifies po p x \<Longrightarrow> so_since po p (after @ [x]) (s\<lparr>so_reconstructed := True, so_verified := True\<rparr>)"
  using assms by (auto simp: so_since_def so_reconstructs_def so_verifies_def intro: in_turn_more in_turn_last)

lemma so_apply_backed:
  assumes b: "so_backed po ops s"
  shows "so_backed po (ops @ [x]) (fst (so_apply po x s))"
proof -
  have keep: "so_backed po (ops @ [x]) s" if "\<forall>q ledger. x = SoCustodyWith q ledger \<longrightarrow> po_ledger po q ledger \<noteq> Inr ()"
    by (rule so_backed_same [OF b]) (use that in \<open>auto intro: so_since_more\<close>)
  show ?thesis
  proof (cases x)
    case SoCustody
    show ?thesis unfolding SoCustody by (rule so_backed_same [OF b]) (auto simp: so_check_custody_def intro: so_since_more)
  next
    case SoDecode
    show ?thesis unfolding SoDecode
      by (rule so_backed_same [OF b])
        (auto simp: so_decode_def so_decodes_def intro: so_since_more so_since_decode split: if_splits)
  next
    case SoReconstruct
    show ?thesis unfolding SoReconstruct
      by (rule so_backed_same [OF b])
        (auto simp: so_reconstruct_def so_reconstructs_def intro: so_since_more so_since_reconstruct(1) split: if_splits)
  next
    case (SoDecodeWith payloads)
    show ?thesis unfolding SoDecodeWith
      by (rule so_backed_same [OF b])
        (auto simp: so_decode_with_def so_decodes_def intro: so_since_more so_since_decode split: if_splits option.splits sum.splits)
  next
    case (SoReconstructWith report)
    show ?thesis unfolding SoReconstructWith
      by (rule so_backed_same [OF b])
        (auto simp: so_reconstruct_with_def so_reconstructs_def so_verifies_def
          intro: so_since_more so_since_reconstruct(2) split: if_splits option.splits sum.splits)
  next
    case (SoCustodyWith q ledger)
    show ?thesis
    proof (cases "po_ledger po q ledger")
      case (Inl e)
      then show ?thesis using keep by (simp add: SoCustodyWith so_check_custody_with_def)
    next
      case (Inr u)
      then have a: "fst (so_apply po x s) = rebind_custody q ledger s" "po_ledger po q ledger = Inr ()"
        by (simp_all add: SoCustodyWith so_check_custody_with_def)
      show ?thesis
      proof (cases "so_profile s = Some q")
        case True
        then obtain before l after where o: "ops = before @ SoCustodyWith q l # after" "po_ledger po q l = Inr ()" "so_since po q after s"
          using b unfolding so_backed_def by blast
        have "so_since po q (after @ [x]) (rebind_custody q ledger s)"
          by (rule so_since_more [OF o(3)]) (auto simp: rebind_custody_def subject_changed_def True SoCustodyWith)
        moreover have "so_profile (rebind_custody q ledger s) = Some q" "so_ledger (rebind_custody q ledger s) = Some ledger"
          by (simp_all add: rebind_custody_def Let_def)
        moreover have "ops @ [x] = before @ SoCustodyWith q l # (after @ [x])" by (simp add: o(1))
        ultimately show ?thesis unfolding a(1) so_backed_def using o(2) by (simp only: option.simps) blast
      next
        case False
        have "so_since po q [] (rebind_custody q ledger s)"
          by (simp add: so_since_def rebind_custody_def subject_changed_def False)
        moreover have "so_profile (rebind_custody q ledger s) = Some q" "so_ledger (rebind_custody q ledger s) = Some ledger"
          by (simp_all add: rebind_custody_def Let_def)
        moreover have "ops @ [x] = ops @ SoCustodyWith q ledger # []" by (simp add: SoCustodyWith)
        ultimately show ?thesis unfolding a(1) so_backed_def using a(2) by (simp only: option.simps) blast
      qed
    qed
  qed
qed

lemma so_run_backed: "so_backed po ops (so_run po ops seal_order_new)"
proof (induction ops rule: rev_induct)
  case Nil
  then show ?case by (simp add: so_backed_def seal_order_new_def)
next
  case (snoc x ops)
  then show ?case using so_apply_backed by (simp add: so_run_append)
qed

end
