(* ===== verification/Journal.thy ===== *)
theory Journal
  imports Preview Publication
begin

text \<open>
  The action journal (\<open>src/src/action_journal/mod.rs\<close>, \<open>identity.rs\<close>, \<open>lifecycle.rs\<close>, \<open>rate.rs\<close>): its
  tables and the statements over them, the row that is read back, the admission of a preview under the guards of
  its generation and rate, and the lifecycle of what was admitted. What the engine's clock answers to the successive
  statements of a batch is part of its data, as each statement reads it anew; other processes may act before each request of an operation.
\<close>

section \<open>Errors\<close>

definition journal_format :: string where "journal_format = ''verdant-action-journal-v1''"
definition history_capacity :: nat where "history_capacity = 1"

datatype writer_error =
    WrInvalid string
  | WrInvalidDetail string string
  | WrCeiling u8 u8
  | WrScopeDenied string string
  | WrConflict string
  | WrStaleGeneration u32 u32
  | WrStalePayload string
  | WrNotFound string
  | WrUnknown operation_id string
  | WrRateExceeded u32 u32
  | WrDeadlineExceeded u64 u64
  | WrRateIndeterminate string
  | WrStorage storage_error

fun writer_error_code :: "writer_error \<Rightarrow> string" where
  "writer_error_code (WrInvalid _) = ''admission-invalid''"
| "writer_error_code (WrInvalidDetail _ _) = ''admission-invalid''"
| "writer_error_code (WrCeiling _ _) = ''ceiling-exceeded''"
| "writer_error_code (WrScopeDenied _ _) = ''admission-scope-denied''"
| "writer_error_code (WrConflict _) = ''admission-conflict''"
| "writer_error_code (WrStaleGeneration _ _) = ''admission-stale-generation''"
| "writer_error_code (WrStalePayload _) = ''admission-stale-payload''"
| "writer_error_code (WrNotFound _) = ''admission-not-found''"
| "writer_error_code (WrUnknown _ _) = ''admission-unknown''"
| "writer_error_code (WrRateExceeded _ _) = ''admission-rate-exceeded''"
| "writer_error_code (WrDeadlineExceeded _ _) = ''admission-deadline-exceeded''"
| "writer_error_code (WrRateIndeterminate _) = ''admission-indeterminate''"
| "writer_error_code (WrStorage e) = storage_error_code e"

fun writer_error_display :: "writer_error \<Rightarrow> string" where
  "writer_error_display (WrInvalid detail) = ''admission invalid: '' @ detail"
| "writer_error_display (WrInvalidDetail what detail) = ''admission invalid '' @ what @ '': '' @ detail"
| "writer_error_display (WrCeiling c required) =
     ''assistance ceiling '' @ show_word c @ '' below required '' @ show_word required"
| "writer_error_display (WrScopeDenied expected presented) =
     ''admission scope denied: '' @ quoted expected @ '' does not cover '' @ quoted presented"
| "writer_error_display (WrConflict detail) = ''admission conflict: '' @ detail"
| "writer_error_display (WrStaleGeneration expected current) =
     ''admission stale generation: expected '' @ show_word expected @ '', current is '' @ show_word current"
| "writer_error_display (WrStalePayload detail) =
     ''admission stale payload (0004 rounded, lossless required): '' @ detail"
| "writer_error_display (WrNotFound operation) = ''admission not found for '' @ quoted operation @ '' in this scope''"
| "writer_error_display (WrUnknown operation detail) =
     ''admission outcome UNKNOWN for '' @ operation @ ''; reconcile this identity: '' @ detail"
| "writer_error_display (WrRateExceeded used limit) =
     ''admission rate exceeded: '' @ show_word used @ '' >= '' @ show_word limit @ ''/hour per scope-equipment wall-hour''"
| "writer_error_display (WrDeadlineExceeded elapsed deadline) =
     ''admission deadline exceeded: elapsed '' @ show_word elapsed @ ''s >= deadline '' @ show_word deadline @
     ''s; fresh Instant cannot renew durable wall anchor''"
| "writer_error_display (WrRateIndeterminate reason) =
     ''admission time indeterminate ('' @ reason @ ''): refuse new SET, allow only explicit cancel or admitted-NULL release''"
| "writer_error_display (WrStorage e) = storage_error_display e"

fun writer_storage :: "storage_error \<Rightarrow> writer_error" where
  "writer_storage (StoreConflict detail) = WrConflict detail"
| "writer_storage e = WrStorage e"

fun map_submit_error :: "storage_error \<Rightarrow> writer_error" where
  "map_submit_error (SqliteFailure detail) =
     (if contains_text ''UNIQUE constraint failed: action_journal.operation'' detail
      then WrConflict ''journal operation already recorded with this store'' else WrStorage (SqliteFailure detail))"
| "map_submit_error (StoreConflict detail) = WrConflict detail"
| "map_submit_error e = WrStorage e"

section \<open>Identity of an action\<close>

datatype action_kind = SetAction | ReleaseAction

fun action_kind_as_str :: "action_kind \<Rightarrow> string" where
  "action_kind_as_str SetAction = ''set''"
| "action_kind_as_str ReleaseAction = ''release''"

definition action_kind_parse :: "string \<Rightarrow> action_kind option" where
  "action_kind_parse raw =
     (if raw = ''set'' then Some SetAction else if raw = ''release'' then Some ReleaseAction else None)"

definition action_kind_of :: "preview \<Rightarrow> action_kind" where
  "action_kind_of v = (if rp_admitted (pw_release v) then ReleaseAction else SetAction)"

record action_identity =
  ai_wire_bits :: u32
  ai_kind :: action_kind
  ai_release :: bool
  ai_target :: installed_id

definition identity_of_preview :: "preview \<Rightarrow> action_identity" where
  "identity_of_preview v =
     \<lparr>ai_wire_bits = of_int (es_wire_bits (pw_encoded v)), ai_kind = action_kind_of v,
      ai_release = rp_admitted (pw_release v), ai_target = rp_target (pw_release v)\<rparr>"

definition writer_check_ceiling :: "u8 \<Rightarrow> role_kind \<Rightarrow> writer_error + unit" where
  "writer_check_ceiling ceiling role =
     (case role of
        Publisher \<Rightarrow> if ceiling < required_publish_ceiling then Inl (WrCeiling ceiling required_publish_ceiling) else Inr ()
      | Reviewer \<Rightarrow> Inl (WrCeiling ceiling required_publish_ceiling))"

definition actor_char :: "char \<Rightarrow> bool" where
  "actor_char c \<longleftrightarrow> is_ascii_alphanumeric c \<or> c \<in> set ''-_.:/''"

definition writer_check_actor :: "string \<Rightarrow> writer_error + string" where
  "writer_check_actor raw =
     (if raw = [] then Inl (WrInvalid ''empty actor'')
      else if length raw > 128 then Inl (WrInvalid ''actor too long'')
      else if \<not> list_all actor_char raw then Inl (WrInvalid ''actor characters'')
      else if CHR 0x1F \<in> set raw \<or> CHR 0x0A \<in> set raw \<or> CHR 0x0D \<in> set raw then Inl (WrInvalid ''actor framing'')
      else if raw = ''VERDANT_BEGIN'' \<or> raw = ''VERDANT_DATA'' \<or> raw = ''VERDANT_END'' then Inl (WrInvalid ''actor sentinel'')
      else Inr raw)"

text \<open>The format of a preview is constant, and a preview is never a reservation, dispatch or qualification.\<close>

definition check_preview :: "preview \<Rightarrow> writer_error + unit" where
  "check_preview v =
     (if tg_retries (pw_timing v) \<noteq> apdu_retries then Inl (WrInvalid ''apdu_retries frozen'')
      else if tg_duration (pw_timing v) \<noteq> duration_secs then Inl (WrInvalid ''duration 15min'')
      else if tg_deadline (pw_timing v) \<noteq> deadline_secs then Inl (WrInvalid ''deadline 5s'')
      else if tg_rate (pw_timing v) \<noteq> rate_max_per_hour then Inl (WrInvalid ''rate bound'')
      else if rp_admitted (pw_release v) \<noteq> (action_kind_of v = ReleaseAction)
      then Inl (WrInvalid ''release admission/kind mismatch'')
      else Inr ())"

section \<open>Lifecycle\<close>

datatype lifecycle_state = LAdmitted | LDispatched | LTerminal | LUnresolved

fun lifecycle_as_str :: "lifecycle_state \<Rightarrow> string" where
  "lifecycle_as_str LAdmitted = ''admitted''"
| "lifecycle_as_str LDispatched = ''dispatched''"
| "lifecycle_as_str LTerminal = ''terminal''"
| "lifecycle_as_str LUnresolved = ''unresolved''"

definition lifecycle_parse :: "string \<Rightarrow> lifecycle_state option" where
  "lifecycle_parse raw =
     (if raw = ''admitted'' then Some LAdmitted
      else if raw = ''dispatched'' then Some LDispatched
      else if raw = ''terminal'' then Some LTerminal
      else if raw = ''unresolved'' then Some LUnresolved
      else None)"

definition is_outstanding :: "lifecycle_state \<Rightarrow> bool" where
  "is_outstanding s \<longleftrightarrow> s \<noteq> LTerminal"

text \<open>\<open>replace("''", "'")\<close> goes from left to right without overlap.\<close>

fun halve_quotes :: "string \<Rightarrow> string" where
  "halve_quotes (a # b # s) =
     (if a = squote \<and> b = squote then squote # halve_quotes s else a # halve_quotes (b # s))"
| "halve_quotes s = s"

definition sql_unquote :: "string \<Rightarrow> string" where
  "sql_unquote raw =
     (if 2 \<le> length raw \<and> hd raw = squote \<and> last raw = squote then halve_quotes (butlast (tl raw)) else raw)"

definition parse_nullable :: "string \<Rightarrow> string option" where
  "parse_nullable raw = (if raw = ''NULL'' \<or> raw = [] then None else Some (sql_unquote raw))"

definition decode_lifecycle :: "string option \<Rightarrow> writer_error + lifecycle_state" where
  "decode_lifecycle raw =
     (case raw of None \<Rightarrow> Inr LAdmitted | Some t \<Rightarrow> ok_or (WrInvalid ''lifecycle state'') (lifecycle_parse t))"

section \<open>Tables\<close>

text \<open>
  The columns of \<open>action_journal\<close> that a migration added may be NULL in rows from before it. The state of a journal
  row is always \<open>admitted\<close>. Rows are never deleted; targets keep the current generation of a scope and equipment.
  The clock gives the readings of the next batch or query: a batch whose statements read the clock one after the
  other takes them in that order, and nothing says that a later reading is not an earlier time.
\<close>

record journal_row =
  jr_operation :: string
  jr_scope :: string
  jr_equipment :: string
  jr_binding :: u32
  jr_accepted :: u32
  jr_expected :: u32
  jr_target :: u32
  jr_payload :: string
  jr_deadline :: u64
  jr_ceiling :: u8
  jr_actor :: string
  jr_attempt :: string
  jr_created :: int
  jr_wire :: "u32 option"
  jr_kind :: "action_kind option"
  jr_release :: "bool option"
  jr_release_target :: "string option"

record lifecycle_row =
  lc_operation :: string
  lc_attempt :: string
  lc_state :: lifecycle_state
  lc_updated :: int
  lc_predecessor :: "string option"

record journal_db =
  jd_rows :: "journal_row list"
  jd_targets :: "((string \<times> string) \<times> u32) list"
  jd_lifecycle :: "lifecycle_row list"
  jd_ledger :: "string list"
  jd_clock :: "nat \<Rightarrow> int"

definition target_generation_of :: "string \<Rightarrow> string \<Rightarrow> journal_db \<Rightarrow> u32" where
  "target_generation_of scope equipment d = (case map_of (jd_targets d) (scope, equipment) of Some g \<Rightarrow> g | None \<Rightarrow> 0)"

definition journal_of :: "string \<Rightarrow> journal_db \<Rightarrow> journal_row option" where
  "journal_of operation d = find (\<lambda>r. jr_operation r = operation) (jd_rows d)"

definition lifecycle_of :: "string \<Rightarrow> journal_db \<Rightarrow> lifecycle_row option" where
  "lifecycle_of operation d = find (\<lambda>l. lc_operation l = operation) (jd_lifecycle d)"

definition row_state :: "string \<Rightarrow> journal_db \<Rightarrow> lifecycle_state" where
  "row_state operation d = (case lifecycle_of operation d of Some l \<Rightarrow> lc_state l | None \<Rightarrow> LAdmitted)"

section \<open>Rate\<close>

definition rate_window_secs :: int where "rate_window_secs = 3600"

definition rate_counted :: "string \<Rightarrow> string \<Rightarrow> int \<Rightarrow> journal_row \<Rightarrow> bool" where
  "rate_counted scope equipment now r \<longleftrightarrow>
     jr_scope r = scope \<and> jr_equipment r = equipment \<and> jr_created r \<ge> now - rate_window_secs \<and>
     (jr_kind r = Some SetAction \<or> jr_kind r = None)"

definition rate_count :: "string \<Rightarrow> string \<Rightarrow> journal_db \<Rightarrow> nat" where
  "rate_count scope equipment d = length (filter (rate_counted scope equipment (jd_clock d 0)) (jd_rows d))"

definition rate_guard_sql :: "string \<Rightarrow> string \<Rightarrow> string" where
  "rate_guard_sql scope equipment =
     ''CREATE TEMP TABLE admission_rate(ok INTEGER NOT NULL CONSTRAINT admission_rate CHECK(ok=1)); INSERT INTO admission_rate VALUES(CASE WHEN ((SELECT COUNT(*) FROM action_journal WHERE scope='' @
     sql_quote scope @ '' AND equipment='' @ sql_quote equipment @
     '' AND created >= CAST(strftime('' @ sql_quote ''%s'' @ '','' @ sql_quote ''now'' @ '') AS INTEGER)-'' @ show_int rate_window_secs @
     '' AND (action_kind='' @ sql_quote ''set'' @ '' OR action_kind IS NULL))) < '' @ show_word rate_max_per_hour @ '' THEN 1 ELSE 0 END);''"

definition is_rate_guard_failure :: "string \<Rightarrow> bool" where
  "is_rate_guard_failure detail \<longleftrightarrow> contains_text ''admission_rate'' detail"

definition rate_exceeded :: "u32 \<Rightarrow> writer_error" where
  "rate_exceeded used = WrRateExceeded used rate_max_per_hour"

definition check_deadline_wall :: "int \<Rightarrow> int \<Rightarrow> writer_error + unit" where
  "check_deadline_wall created now =
     (case checked_sub_i64 now created of
        None \<Rightarrow> Inl (WrRateIndeterminate ''wall-rollback'')
      | Some elapsed \<Rightarrow>
          if elapsed < 0 then Inl (WrRateIndeterminate ''wall-rollback'')
          else if of_int elapsed \<ge> deadline_secs
          then Inl (WrDeadlineExceeded (of_int elapsed) deadline_secs)
          else Inr ())"

section \<open>Statements\<close>

definition journal_now_sql :: string where
  "journal_now_sql = ''CAST(strftime('' @ sql_quote ''%s'' @ '','' @ sql_quote ''now'' @ '') AS INTEGER)''"

definition lifecycle_insert_sql :: "string \<Rightarrow> string \<Rightarrow> string option \<Rightarrow> string" where
  "lifecycle_insert_sql operation attempt predecessor =
     ''INSERT INTO action_lifecycle(operation, attempt, state, updated, predecessor) VALUES ('' @ sql_quote operation @ '', '' @
     sql_quote attempt @ '', '' @ sql_quote ''admitted'' @ '', '' @ journal_now_sql @ '', '' @ quote_column predecessor @ '');''"

text \<open>The rows an admission writes, given the clock.\<close>

definition admission_row :: "operation_id \<Rightarrow> trusted_scope \<Rightarrow> preview \<Rightarrow> u32 \<Rightarrow> u32 \<Rightarrow> string \<Rightarrow> u8 \<Rightarrow> string \<Rightarrow> action_identity \<Rightarrow> int \<Rightarrow> journal_row" where
  "admission_row operation scope v expected target payload ceiling actor i now =
     \<lparr>jr_operation = operation, jr_scope = scope_text scope, jr_equipment = at_equipment (pw_target v),
      jr_binding = at_binding (pw_target v), jr_accepted = at_accepted (pw_target v), jr_expected = expected, jr_target = target,
      jr_payload = payload, jr_deadline = tg_deadline (pw_timing v), jr_ceiling = ceiling, jr_actor = actor,
      jr_attempt = operation, jr_created = now, jr_wire = Some (ai_wire_bits i), jr_kind = Some (ai_kind i),
      jr_release = Some (ai_release i), jr_release_target = Some (ai_target i)\<rparr>"

definition admission_sql :: "journal_row \<Rightarrow> action_identity \<Rightarrow> string option \<Rightarrow> string" where
  "admission_sql r i predecessor =
     ''CREATE TEMP TABLE admission_generation(ok INTEGER NOT NULL CONSTRAINT admission_generation CHECK(ok=1)); INSERT INTO admission_generation VALUES(CASE WHEN ((SELECT COALESCE((SELECT current_generation FROM action_targets WHERE scope='' @
     sql_quote (jr_scope r) @ '' AND equipment='' @ sql_quote (jr_equipment r) @ ''), 0)) = '' @ show_word (jr_expected r) @
     '') THEN 1 ELSE 0 END);'' @
     (if ai_kind i = SetAction then rate_guard_sql (jr_scope r) (jr_equipment r) else []) @
     ''INSERT INTO action_journal(operation, scope, equipment, binding_revision, accepted_revision, expected_generation, target_generation, payload, deadline_secs, ceiling, actor, attempt, state, created, wire_bits, action_kind, release_admitted, release_target) VALUES ('' @
     join_with '', '' [sql_quote (jr_operation r), sql_quote (jr_scope r), sql_quote (jr_equipment r), show_word (jr_binding r),
       show_word (jr_accepted r), show_word (jr_expected r), show_word (jr_target r), sql_quote (jr_payload r),
       show_word (jr_deadline r), show_word (jr_ceiling r), sql_quote (jr_actor r), sql_quote (jr_attempt r), sql_quote ''admitted'',
       journal_now_sql, show_word (ai_wire_bits i), sql_quote (action_kind_as_str (ai_kind i)), (if ai_release i then ''1'' else ''0''),
       sql_quote (ai_target i)] @ '');'' @
     ''INSERT INTO action_targets(scope, equipment, current_generation) VALUES ('' @ sql_quote (jr_scope r) @ '', '' @
     sql_quote (jr_equipment r) @ '', '' @ show_word (jr_target r) @
     '') ON CONFLICT(scope, equipment) DO UPDATE SET current_generation=excluded.current_generation;'' @
     lifecycle_insert_sql (jr_operation r) (jr_attempt r) predecessor"

definition upsert_target :: "string \<Rightarrow> string \<Rightarrow> u32 \<Rightarrow> ((string \<times> string) \<times> u32) list \<Rightarrow> ((string \<times> string) \<times> u32) list" where
  "upsert_target scope equipment g ts =
     (if map_of ts (scope, equipment) = None then ts @ [((scope, equipment), g)]
      else map (\<lambda>(k, h). if k = (scope, equipment) then (k, g) else (k, h)) ts)"

text \<open>
  What the engine makes of it, statement by statement: the two temporary constraints, the primary key and the
  checks of the journal, the target, and the row of the lifecycle with its foreign keys. The guard of the rate, the row
  of the journal and the row of the lifecycle are three statements, each with a reading of the clock of its own.
\<close>

definition admission_run :: "(int \<Rightarrow> journal_row) \<Rightarrow> string option \<Rightarrow> journal_db \<Rightarrow> storage_error + journal_db \<times> string list list" where
  "admission_run row predecessor d =
     (let r = row (jd_clock d 1); rows = jd_rows d @ [r]
      in if target_generation_of (jr_scope r) (jr_equipment r) d \<noteq> jr_expected r then Inl (constraint_failed ''admission_generation'')
         else if jr_kind r = Some SetAction \<and> rate_count (jr_scope r) (jr_equipment r) d \<ge> unat rate_max_per_hour
         then Inl (constraint_failed ''admission_rate'')
         else if journal_of (jr_operation r) d \<noteq> None
         then Inl (sql_failure ''UNIQUE constraint failed: action_journal.operation'')
         else if jr_target r \<le> jr_expected r then Inl (constraint_failed ''target_generation > expected_generation'')
         else if jr_deadline r \<noteq> 5 then Inl (constraint_failed ''deadline_secs = 5'')
         else if lifecycle_of (jr_operation r) d \<noteq> None
         then Inl (sql_failure ''UNIQUE constraint failed: action_lifecycle.operation'')
         else if jd_clock d 2 < 0 then Inl (constraint_failed ''updated >= 0'')
         else if (case predecessor of None \<Rightarrow> False | Some p \<Rightarrow> find (\<lambda>x. jr_operation x = p) rows = None)
         then Inl (sql_failure ''FOREIGN KEY constraint failed'')
         else Inr (d\<lparr>jd_rows := rows,
                     jd_targets := upsert_target (jr_scope r) (jr_equipment r) (jr_target r) (jd_targets d),
                     jd_lifecycle := jd_lifecycle d @ [\<lparr>lc_operation = jr_operation r, lc_attempt = jr_attempt r,
                       lc_state = LAdmitted, lc_updated = jd_clock d 2, lc_predecessor = predecessor\<rparr>]\<rparr>,
                   [[show_int (int (length (jd_lifecycle d)) + 1)], [''1'']]))"

text \<open>The condition of every batch of the journal is the constant \<open>1\<close>.\<close>

definition open_batch :: "'d body \<Rightarrow> 'd body" where
  "open_batch b =
     \<lparr>bd_text = ''CREATE TEMP TABLE access_guard(ok INTEGER NOT NULL CONSTRAINT access_guard_unchanged CHECK(ok=1)); INSERT INTO access_guard VALUES(CASE WHEN (1) THEN 1 ELSE 0 END); '' @
        bd_text b @ '' SELECT last_insert_rowid(); SELECT changes();'',
      bd_run = bd_run b\<rparr>"

definition prepare_open_batch :: "operation_id \<Rightarrow> string \<Rightarrow> 'd body \<Rightarrow> nat \<Rightarrow> 'd prepared" where
  "prepare_open_batch generated identity b payload =
     (prepared_new generated identity (open_batch b) ShapeInsert)\<lparr>pm_payload := payload\<rparr>"

definition admission_body :: "(int \<Rightarrow> journal_row) \<Rightarrow> action_identity \<Rightarrow> string option \<Rightarrow> journal_db body" where
  "admission_body row i predecessor =
     \<lparr>bd_text = admission_sql (row 0) i predecessor, bd_run = admission_run row predecessor\<rparr>"

definition transition_sql :: "string \<Rightarrow> lifecycle_state \<Rightarrow> string" where
  "transition_sql operation s =
     ''INSERT INTO action_lifecycle(operation, attempt, state, updated, predecessor) SELECT '' @ sql_quote operation @ '', attempt, '' @
     sql_quote (lifecycle_as_str s) @ '', '' @ journal_now_sql @ '', NULL FROM action_journal WHERE operation='' @ sql_quote operation @
     '' ON CONFLICT(operation) DO UPDATE SET state=excluded.state, updated=excluded.updated;''"

text \<open>
  The upsert writes nothing when the operation is not in the journal. An update leaves the last inserted row to be
  the one of the batch's guard.
\<close>

definition transition_run :: "string \<Rightarrow> lifecycle_state \<Rightarrow> journal_db \<Rightarrow> storage_error + journal_db \<times> string list list" where
  "transition_run operation s d =
     (case journal_of operation d of
        None \<Rightarrow> Inr (d, [[''1''], [''0'']])
      | Some r \<Rightarrow>
          if jd_clock d 0 < 0 then Inl (constraint_failed ''updated >= 0'')
          else if lifecycle_of operation d = None
          then Inr (d\<lparr>jd_lifecycle := jd_lifecycle d @ [\<lparr>lc_operation = operation, lc_attempt = jr_attempt r, lc_state = s,
                        lc_updated = jd_clock d 0, lc_predecessor = None\<rparr>]\<rparr>,
                    [[show_int (int (length (jd_lifecycle d)) + 1)], [''1'']])
          else Inr (d\<lparr>jd_lifecycle := map (\<lambda>l. if lc_operation l = operation
                        then l\<lparr>lc_state := s, lc_updated := jd_clock d 0\<rparr> else l) (jd_lifecycle d)\<rparr>,
                    [[''1''], [''1'']]))"

definition transition_body :: "string \<Rightarrow> lifecycle_state \<Rightarrow> journal_db body" where
  "transition_body operation s = \<lparr>bd_text = transition_sql operation s, bd_run = transition_run operation s\<rparr>"

section \<open>Migrations\<close>

text \<open>The texts of the migrations are given. A migration creates what a ledger that lists it already has.\<close>

definition migration_run :: "string \<Rightarrow> journal_db \<Rightarrow> storage_error + journal_db \<times> string list list" where
  "migration_run g d =
     (if g \<in> set (jd_ledger d) then Inl (sql_failure ''already exists'')
      else Inr (d\<lparr>jd_ledger := jd_ledger d @ [g]\<rparr>, [[g], [''1'']]))"

definition migration_body :: "string \<Rightarrow> string \<Rightarrow> journal_db body" where
  "migration_body sql g = \<lparr>bd_text = sql, bd_run = migration_run g\<rparr>"

section \<open>Rows read back\<close>

record admitted =
  am_row_id :: int
  am_operation :: operation_id
  am_scope :: trusted_scope
  am_equipment :: installed_id
  am_binding :: binding_revision
  am_accepted :: accepted_revision
  am_expected :: u32
  am_target :: u32
  am_payload :: string
  am_deadline :: u64
  am_ceiling :: u8
  am_actor :: string
  am_attempt :: operation_id
  am_reconciled :: bool
  am_wire :: "u32 option"
  am_kind :: "action_kind option"
  am_release :: "bool option"
  am_release_target :: "installed_id option"
  am_lifecycle :: lifecycle_state
  am_predecessor :: "operation_id option"
  am_created :: int

definition is_legacy :: "admitted \<Rightarrow> bool" where
  "is_legacy a \<longleftrightarrow> am_wire a = None \<or> am_kind a = None"

definition admitted_identity :: "admitted \<Rightarrow> string option" where
  "admitted_identity a =
     (case (am_kind a, am_wire a, am_release a, am_release_target a) of
        (Some k, Some w, Some r, Some t) \<Rightarrow>
          Some (''bits'' @ show_hex8 (uint w) @ ''|kind:'' @ action_kind_as_str k @ ''|rel:'' @ (if r then ''1'' else ''0'') @ '':'' @
                t @ ''|'' @ am_payload a)
      | _ \<Rightarrow> None)"

definition optional :: "('a \<Rightarrow> string) \<Rightarrow> 'a option \<Rightarrow> string" where
  "optional f x = (case x of None \<Rightarrow> [] | Some a \<Rightarrow> f a)"

definition row_texts :: "journal_row \<Rightarrow> string list" where
  "row_texts r =
     [jr_operation r, jr_scope r, jr_equipment r, show_word (jr_binding r), show_word (jr_accepted r), show_word (jr_expected r),
      show_word (jr_target r), jr_payload r, show_word (jr_deadline r), show_word (jr_ceiling r), jr_actor r, jr_attempt r, ''admitted'']"

definition identity_texts :: "journal_row \<Rightarrow> string list" where
  "identity_texts r =
     [optional show_word (jr_wire r), optional action_kind_as_str (jr_kind r), optional (\<lambda>b. if b then ''1'' else ''0'') (jr_release r),
      optional id (jr_release_target r)]"

definition lifecycle_texts :: "journal_row \<Rightarrow> journal_db \<Rightarrow> string list" where
  "lifecycle_texts r d =
     [show_int (jr_created r), lifecycle_as_str (row_state (jr_operation r) d),
      (case lifecycle_of (jr_operation r) d of None \<Rightarrow> [] | Some l \<Rightarrow> optional id (lc_predecessor l))]"

text \<open>The row in the scope, with the lifecycle joined to it, or as it was read before the later migrations.\<close>

definition scoped_rows :: "operation_id \<Rightarrow> trusted_scope \<Rightarrow> journal_db \<Rightarrow> journal_row list" where
  "scoped_rows operation scope d = filter (\<lambda>r. jr_operation r = operation \<and> jr_scope r = scope_text scope) (jd_rows d)"

definition read_query :: "operation_id \<Rightarrow> trusted_scope \<Rightarrow> journal_db \<Rightarrow> string list list" where
  "read_query operation scope d =
     map (\<lambda>r. row_texts r @ identity_texts r @ lifecycle_texts r d) (scoped_rows operation scope d)"

definition read_query_17 :: "operation_id \<Rightarrow> trusted_scope \<Rightarrow> journal_db \<Rightarrow> string list list" where
  "read_query_17 operation scope d = map (\<lambda>r. row_texts r @ identity_texts r) (scoped_rows operation scope d)"

definition read_query_13 :: "operation_id \<Rightarrow> trusted_scope \<Rightarrow> journal_db \<Rightarrow> string list list" where
  "read_query_13 operation scope d = map row_texts (scoped_rows operation scope d)"

definition wr_parse :: "string \<Rightarrow> (string \<Rightarrow> 'a option) \<Rightarrow> string \<Rightarrow> writer_error + 'a" where
  "wr_parse what f raw = ok_or (WrInvalid what) (f raw)"

definition wr_nullable :: "(string \<Rightarrow> writer_error + 'a) \<Rightarrow> string \<Rightarrow> writer_error + 'a option" where
  "wr_nullable f raw =
     (case parse_nullable raw of None \<Rightarrow> Inr None | Some t \<Rightarrow> map_ok Some (f t))"

definition wr_id :: "string \<Rightarrow> string \<Rightarrow> string \<Rightarrow> writer_error + string" where
  "wr_id kind what raw = map_err (\<lambda>_. WrInvalid what) (id_parse kind raw)"

definition release_flag :: "string \<Rightarrow> writer_error + bool" where
  "release_flag raw =
     (if raw = ''0'' then Inr False else if raw = ''1'' then Inr True else Inl (WrInvalid ''journal release admission''))"

text \<open>The thirteen columns of every shape.\<close>

definition decode_base :: "string list \<Rightarrow> trusted_scope \<Rightarrow> writer_error + admitted" where
  "decode_base row scope =
     and_then (wr_id operation_id_kind ''journal operation'' (row ! 0)) (\<lambda>operation.
       if row ! 1 \<noteq> scope_text scope then Inl (WrScopeDenied (scope_text scope) (row ! 1)) else
     and_then (wr_id installed_id_kind ''journal equipment'' (row ! 2)) (\<lambda>equipment.
     and_then (wr_parse ''journal binding revision'' parse_u32 (row ! 3)) (\<lambda>binding.
     and_then (wr_parse ''journal accepted revision'' parse_u32 (row ! 4)) (\<lambda>raw_accepted.
     and_then (map_err (\<lambda>_. WrInvalid ''journal accepted revision'') (accepted_revision_new raw_accepted)) (\<lambda>accepted.
     and_then (wr_parse ''journal expected generation'' parse_u32 (row ! 5)) (\<lambda>expected.
     and_then (wr_parse ''journal target generation'' parse_u32 (row ! 6)) (\<lambda>target.
     and_then (ok_or (WrInvalid ''journal generation order'') (checked_add expected 1)) (\<lambda>succ.
       if target \<noteq> succ then Inl (WrInvalid ''journal generation order'')
       else if row ! 7 = [] then Inl (WrInvalid ''journal payload'') else
     and_then (wr_parse ''journal deadline'' parse_u64 (row ! 8)) (\<lambda>deadline.
       if deadline \<noteq> deadline_secs then Inl (WrInvalid ''deadline 5s'') else
     and_then (wr_parse ''journal ceiling'' parse_u8 (row ! 9)) (\<lambda>ceiling.
     and_then (writer_check_actor (row ! 10)) (\<lambda>actor.
     and_then (wr_id operation_id_kind ''journal attempt'' (row ! 11)) (\<lambda>attempt.
       if row ! 12 \<noteq> ''admitted'' then Inl (WrInvalid ''journal state'')
       else Inr \<lparr>am_row_id = 0, am_operation = operation, am_scope = scope, am_equipment = equipment, am_binding = binding,
              am_accepted = accepted, am_expected = expected, am_target = target, am_payload = row ! 7, am_deadline = deadline,
              am_ceiling = ceiling, am_actor = actor, am_attempt = attempt, am_reconciled = False, am_wire = None, am_kind = None,
              am_release = None, am_release_target = None, am_lifecycle = LAdmitted, am_predecessor = None, am_created = 0\<rparr>))))))))))))"

definition decode_identity :: "string list \<Rightarrow> admitted \<Rightarrow> writer_error + admitted" where
  "decode_identity row a =
     and_then (wr_nullable (wr_parse ''journal wire_bits'' parse_u32) (row ! 13)) (\<lambda>wire.
     and_then (wr_nullable (wr_parse ''journal action kind'' action_kind_parse) (row ! 14)) (\<lambda>kind.
     and_then (wr_nullable release_flag (row ! 15)) (\<lambda>release.
     and_then (wr_nullable (wr_id installed_id_kind ''journal release target'') (row ! 16)) (\<lambda>target.
       let legacy = (wire = None \<or> kind = None \<or> release = None \<or> target = None);
           complete = (wire \<noteq> None \<and> kind \<noteq> None \<and> release \<noteq> None \<and> target \<noteq> None)
       in if \<not> legacy \<and> \<not> complete then Inl (WrInvalid ''journal identity partial'')
          else Inr (a\<lparr>am_wire := wire, am_kind := kind, am_release := release, am_release_target := target\<rparr>)))))"

definition decode_joined :: "string list \<Rightarrow> admitted \<Rightarrow> writer_error + admitted" where
  "decode_joined row a =
     and_then (wr_parse ''journal created'' parse_i64 (row ! 17)) (\<lambda>created.
     and_then (decode_lifecycle (parse_nullable (row ! 18))) (\<lambda>state.
     and_then (wr_nullable (\<lambda>raw. wr_id operation_id_kind ''lifecycle predecessor'' (sql_unquote raw)) (row ! 19)) (\<lambda>predecessor.
       Inr (a\<lparr>am_lifecycle := state, am_predecessor := predecessor, am_created := created\<rparr>))))"

definition journal_decode_row :: "string list \<Rightarrow> trusted_scope \<Rightarrow> writer_error + admitted" where
  "journal_decode_row row scope =
     (if length row \<noteq> 13 \<and> length row \<noteq> 17 \<and> length row \<noteq> 20 then Inl (WrInvalid ''journal row shape'')
      else
     and_then (decode_base row scope) (\<lambda>base.
       if length row = 13 then Inr base
       else and_then (decode_identity row base) (\<lambda>a.
         if length row = 17 then Inr a else decode_joined row a)))"

section \<open>Requests\<close>

text \<open>
  The environment of every request of an operation, and what other processes did before it. The first number counts the
  requests of an operation.
\<close>

record journal_moments =
  jm_env :: "nat \<Rightarrow> environment"
  jm_others :: "nat \<Rightarrow> journal_db world \<Rightarrow> journal_db world"

definition journal_query :: "journal_moments \<Rightarrow> nat \<Rightarrow> (journal_db \<Rightarrow> string list list) \<Rightarrow> journal_db world \<Rightarrow>
    journal_db world \<times> (storage_error + string list list)" where
  "journal_query jm k q w = (let v = jm_others jm k w in (v, query_rows (jm_env jm k) q v))"

definition missing_schema :: "storage_error \<Rightarrow> bool" where
  "missing_schema e =
     (case e of
        SqliteFailure detail \<Rightarrow> contains_text ''no such column'' detail \<or> contains_text ''no such table'' detail
      | _ \<Rightarrow> False)"

definition missing_column :: "storage_error \<Rightarrow> bool" where
  "missing_column e = (case e of SqliteFailure detail \<Rightarrow> contains_text ''no such column'' detail | _ \<Rightarrow> False)"

definition first_row :: "operation_id \<Rightarrow> trusted_scope \<Rightarrow> string list list \<Rightarrow> writer_error + admitted" where
  "first_row operation scope rows =
     (case rows of
        [] \<Rightarrow> Inl (WrNotFound operation)
      | row # _ \<Rightarrow>
          if length row \<noteq> 13 \<and> length row \<noteq> 17 \<and> length row \<noteq> 20 then Inl (WrInvalid ''journal row shape'')
          else journal_decode_row row scope)"

text \<open>\<open>journal_read_row\<close> asks for the joined columns, and for fewer where the schema misses them: up to three requests.\<close>

definition journal_read_row :: "journal_moments \<Rightarrow> nat \<Rightarrow> operation_id \<Rightarrow> trusted_scope \<Rightarrow> journal_db world \<Rightarrow>
    journal_db world \<times> (writer_error + admitted)" where
  "journal_read_row jm k operation scope w =
     (case journal_query jm k (read_query operation scope) w of
        (w1, Inr rows) \<Rightarrow> (w1, first_row operation scope rows)
      | (w1, Inl e) \<Rightarrow>
          if \<not> missing_schema e then (w1, Inl (writer_storage e))
          else (case journal_query jm (k + 1) (read_query_17 operation scope) w1 of
            (w2, Inr rows) \<Rightarrow> (w2, first_row operation scope rows)
          | (w2, Inl e2) \<Rightarrow>
              if \<not> missing_column e2 then (w2, Inl (writer_storage e2))
              else (case journal_query jm (k + 2) (read_query_13 operation scope) w2 of
                (w3, r) \<Rightarrow> (w3, and_then (map_err writer_storage r) (first_row operation scope)))))"

definition reconcile_admitted :: "journal_moments \<Rightarrow> nat \<Rightarrow> operation_id \<Rightarrow> trusted_scope \<Rightarrow> journal_db world \<Rightarrow>
    journal_db world \<times> (writer_error + admitted)" where
  "reconcile_admitted jm k operation scope w =
     (case journal_read_row jm k operation scope w of (w', r) \<Rightarrow> (w', map_ok (\<lambda>a. a\<lparr>am_reconciled := True\<rparr>) r))"

definition lifecycle_state_of :: "journal_moments \<Rightarrow> nat \<Rightarrow> operation_id \<Rightarrow> trusted_scope \<Rightarrow> journal_db world \<Rightarrow>
    journal_db world \<times> (writer_error + lifecycle_state)" where
  "lifecycle_state_of jm k operation scope w =
     (case journal_read_row jm k operation scope w of (w', r) \<Rightarrow> (w', map_ok am_lifecycle r))"

definition created_secs_of :: "journal_moments \<Rightarrow> nat \<Rightarrow> operation_id \<Rightarrow> trusted_scope \<Rightarrow> journal_db world \<Rightarrow>
    journal_db world \<times> (writer_error + int)" where
  "created_secs_of jm k operation scope w =
     (case journal_read_row jm k operation scope w of (w', r) \<Rightarrow> (w', map_ok am_created r))"

definition count_cell :: "string \<Rightarrow> string \<Rightarrow> string list list \<Rightarrow> writer_error + u32" where
  "count_cell what_parse what_shape rows =
     (case rows of
        [[c]] \<Rightarrow> ok_or (WrInvalid what_parse) (parse_u32 c)
      | _ \<Rightarrow> Inl (WrInvalid what_shape))"

definition rate_used :: "journal_moments \<Rightarrow> nat \<Rightarrow> trusted_scope \<Rightarrow> installed_id \<Rightarrow> journal_db world \<Rightarrow>
    journal_db world \<times> (writer_error + u32)" where
  "rate_used jm k scope equipment w =
     (case journal_query jm k (\<lambda>d. [[show_nat (rate_count (scope_text scope) equipment d)]]) w of
        (w', r) \<Rightarrow> (w', and_then (map_err writer_storage r) (count_cell ''rate count'' ''rate count shape'')))"

definition current_generation :: "journal_moments \<Rightarrow> nat \<Rightarrow> trusted_scope \<Rightarrow> installed_id \<Rightarrow> journal_db world \<Rightarrow>
    journal_db world \<times> (writer_error + u32)" where
  "current_generation jm k scope equipment w =
     (case journal_query jm k (\<lambda>d. case map_of (jd_targets d) (scope_text scope, equipment) of
            None \<Rightarrow> [] | Some g \<Rightarrow> [[show_word g]]) w of
        (w', r) \<Rightarrow> (w', and_then (map_err writer_storage r) (\<lambda>rows.
          if rows = [] then Inr 0 else count_cell ''target generation'' ''target generation shape'' rows)))"

section \<open>Admission\<close>

record pending_admission =
  pd_operation :: operation_id
  pd_scope :: trusted_scope
  pd_equipment :: installed_id
  pd_binding :: binding_revision
  pd_accepted :: accepted_revision
  pd_expected :: u32
  pd_target :: u32
  pd_payload :: string
  pd_identity :: action_identity
  pd_deadline :: u64
  pd_ceiling :: u8
  pd_actor :: string
  pd_predecessor :: "operation_id option"
  pd_ticket :: "journal_db prepared"

record action_journal =
  aj_identity :: string
  aj_bounds :: store_bounds
  aj_essential :: "admitted handoff"
  aj_history :: "string handoff"

definition admission_ticket :: "string \<Rightarrow> operation_id \<Rightarrow> operation_id \<Rightarrow> (int \<Rightarrow> journal_row) \<Rightarrow> action_identity \<Rightarrow>
    string option \<Rightarrow> string \<Rightarrow> journal_db prepared" where
  "admission_ticket identity generated operation row i predecessor payload =
     with_operation operation (prepare_open_batch generated identity (admission_body row i predecessor) (length payload))"

definition prepare_admission :: "action_journal \<Rightarrow> operation_id \<Rightarrow> operation_id \<Rightarrow> trusted_scope \<Rightarrow> u8 \<Rightarrow> role_kind \<Rightarrow> string \<Rightarrow>
    preview \<Rightarrow> u32 \<Rightarrow> operation_id option \<Rightarrow> writer_error + pending_admission" where
  "prepare_admission aj generated operation scope ceiling role actor v expected predecessor =
     and_then (writer_check_ceiling ceiling role) (\<lambda>_.
     and_then (writer_check_actor actor) (\<lambda>actor.
     and_then (check_preview v) (\<lambda>_.
       if at_scope (pw_target v) \<noteq> scope
       then Inl (WrScopeDenied (scope_text (at_scope (pw_target v))) (scope_text scope)) else
     and_then (ok_or (WrInvalid ''target generation overflow'') (checked_add expected 1)) (\<lambda>target.
       let payload = preview_bytes v; i = identity_of_preview v;
           row = admission_row operation scope v expected target payload ceiling actor i
       in if payload = [] \<or> length payload > max_value_bytes (aj_bounds aj)
          then Inl (WrInvalidDetail ''payload'' (''payload is '' @ show_nat (length payload) @ '' bytes''))
          else Inr \<lparr>pd_operation = operation, pd_scope = scope, pd_equipment = at_equipment (pw_target v),
                 pd_binding = at_binding (pw_target v), pd_accepted = at_accepted (pw_target v), pd_expected = expected,
                 pd_target = target, pd_payload = payload, pd_identity = i, pd_deadline = tg_deadline (pw_timing v),
                 pd_ceiling = ceiling, pd_actor = actor, pd_predecessor = predecessor,
                 pd_ticket = admission_ticket (aj_identity aj) generated operation row i predecessor payload\<rparr>))))"

definition require_identical :: "pending_admission \<Rightarrow> admitted \<Rightarrow> writer_error + unit" where
  "require_identical p a =
     (if am_payload a \<noteq> pd_payload p then Inl (WrConflict ''operation identity reused with different payload'')
      else case am_wire a of
        None \<Rightarrow> Inl (WrConflict ''operation identity reused: legacy rounded payload vs lossless identity'')
      | Some bits \<Rightarrow>
          if bits \<noteq> ai_wire_bits (pd_identity p) \<or> am_kind a \<noteq> Some (ai_kind (pd_identity p)) \<or>
             am_release a \<noteq> Some (ai_release (pd_identity p)) \<or> am_release_target a \<noteq> Some (ai_target (pd_identity p))
          then Inl (WrConflict ''operation identity reused with different lossless identity (bits/kind/target)'')
          else if am_predecessor a \<noteq> pd_predecessor p
          then Inl (WrConflict ''operation identity reused with different predecessor obligation link'')
          else Inr ())"

text \<open>A row that is read back for a pending admission must be the one that it asked for.\<close>

definition read_identical :: "journal_moments \<Rightarrow> nat \<Rightarrow> pending_admission \<Rightarrow> bool \<Rightarrow> journal_db world \<Rightarrow>
    journal_db world \<times> (writer_error + admitted)" where
  "read_identical jm k p reconciled w =
     (case journal_read_row jm k (pd_operation p) (pd_scope p) w of
        (w', r) \<Rightarrow> (w', and_then r (\<lambda>a. and_then (require_identical p (a\<lparr>am_reconciled := False\<rparr>)) (\<lambda>_.
          Inr (a\<lparr>am_reconciled := reconciled\<rparr>)))))"

definition try_reconcile_ticket :: "journal_moments \<Rightarrow> pending_admission \<Rightarrow> journal_db world \<Rightarrow>
    journal_db world \<times> (writer_error + admitted option)" where
  "try_reconcile_ticket jm p w =
     (let w0 = jm_others jm 0 w
      in case reconcile_mutation (jm_env jm 0) (pd_ticket p) w0 of
           MCommitted _ _ \<Rightarrow> (case read_identical jm 1 p True w0 of (w1, r) \<Rightarrow> (w1, map_ok Some r))
         | MNotCommitted _ _ \<Rightarrow> (w0, Inr None)
         | MConflict _ detail \<Rightarrow> (w0, Inl (WrConflict detail))
         | MUnknown operation detail \<Rightarrow> (w0, Inl (WrUnknown operation detail)))"

text \<open>
  The submission: a receipt of the ticket answers it, otherwise the batch runs and the row is read
  back; a failed guard is reported with the present generation or count. Reconciling takes the moments 0 to 3, the
  submission 4, and what is read after it starts at 5.
\<close>

definition submit_batch :: "journal_moments \<Rightarrow> pending_admission \<Rightarrow> journal_db world \<Rightarrow> journal_db world \<times> (writer_error + admitted)" where
  "submit_batch jm p w =
     (case submit_mutation (jm_env jm 4) (pd_ticket p) (jm_others jm 4 w) of
        (_, w', MCommitted _ _) \<Rightarrow> read_identical jm 5 p False w'
      | (_, w', MNotCommitted _ e) \<Rightarrow>
          (case e of
             SqliteFailure detail \<Rightarrow>
               if contains_text ''CHECK constraint failed: admission_generation'' detail
               then (case current_generation jm 5 (pd_scope p) (pd_equipment p) w' of
                       (w2, r) \<Rightarrow> (w2, and_then r (\<lambda>current. Inl (WrStaleGeneration (pd_expected p) current))))
               else if is_rate_guard_failure detail
               then (case rate_used jm 5 (pd_scope p) (pd_equipment p) w' of
                       (w2, r) \<Rightarrow> (w2, Inl (rate_exceeded (case r of Inl _ \<Rightarrow> rate_max_per_hour | Inr used \<Rightarrow> used))))
               else (w', Inl (map_submit_error e))
           | _ \<Rightarrow> (w', Inl (map_submit_error e)))
      | (_, w', MConflict _ detail) \<Rightarrow> (w', Inl (WrConflict detail))
      | (_, w', MUnknown operation detail) \<Rightarrow> (w', Inl (WrUnknown operation detail)))"

definition journal_note :: "admitted \<Rightarrow> string" where
  "journal_note a =
     ''journal '' @ am_operation a @ '' scope='' @ scope_text (am_scope a) @ '' target='' @ am_equipment a"

definition submit_admission :: "journal_moments \<Rightarrow> pending_admission \<Rightarrow> action_journal \<times> journal_db world \<Rightarrow>
    (action_journal \<times> journal_db world) \<times> (writer_error + admitted)" where
  "submit_admission jm p = (\<lambda>(aj, w).
     case try_reconcile_ticket jm p w of
       (w1, Inl e) \<Rightarrow> ((aj, w1), Inl e)
     | (w1, Inr (Some a)) \<Rightarrow> ((aj, w1), Inr a)
     | (w1, Inr None) \<Rightarrow>
         (case submit_batch jm p w1 of
            (w2, Inl e) \<Rightarrow> ((aj, w2), Inl e)
          | (w2, Inr a) \<Rightarrow>
              ((aj\<lparr>aj_essential := snd (announce a (aj_essential aj)), aj_history := snd (announce (journal_note a) (aj_history aj))\<rparr>, w2),
               Inr a)))"

definition admit :: "journal_moments \<Rightarrow> operation_id \<Rightarrow> operation_id \<Rightarrow> trusted_scope \<Rightarrow> u8 \<Rightarrow> role_kind \<Rightarrow> string \<Rightarrow> preview \<Rightarrow> u32 \<Rightarrow>
    operation_id option \<Rightarrow> action_journal \<times> journal_db world \<Rightarrow> (action_journal \<times> journal_db world) \<times> (writer_error + admitted)" where
  "admit jm generated operation scope ceiling role actor v expected predecessor st =
     (case prepare_admission (fst st) generated operation scope ceiling role actor v expected predecessor of
        Inl e \<Rightarrow> (st, Inl e)
      | Inr p \<Rightarrow> submit_admission jm p st)"

section \<open>Transitions and pages\<close>

text \<open>The current row takes the moments 0 to 2, the batch 3, and the row after it starts at 4.\<close>

definition transition_from :: "journal_moments \<Rightarrow> action_journal \<Rightarrow> operation_id \<Rightarrow> operation_id \<Rightarrow> trusted_scope \<Rightarrow> lifecycle_state \<Rightarrow>
    admitted \<Rightarrow> journal_db world \<Rightarrow> journal_db world \<times> (writer_error + admitted)" where
  "transition_from jm aj generated operation scope new current w =
     (if am_lifecycle current = LTerminal \<and> new \<noteq> LTerminal
      then (w, Inl (WrConflict ''lifecycle terminal is final; reconcile history, do not resend''))
      else if am_lifecycle current = new then (w, Inr current)
      else (let body = transition_body operation new;
                ticket = prepare_open_batch generated (aj_identity aj) body (length (bd_text body))
            in case submit_mutation (jm_env jm 3) ticket (jm_others jm 3 w) of
                 (_, w', MCommitted _ _) \<Rightarrow> journal_read_row jm 4 operation scope w'
               | (_, w', MNotCommitted _ e) \<Rightarrow> (w', Inl (map_submit_error e))
               | (_, w', MConflict _ detail) \<Rightarrow> (w', Inl (WrConflict detail))
               | (_, w', MUnknown o' detail) \<Rightarrow> (w', Inl (WrUnknown o' detail))))"

definition transition :: "journal_moments \<Rightarrow> action_journal \<Rightarrow> operation_id \<Rightarrow> operation_id \<Rightarrow> trusted_scope \<Rightarrow> lifecycle_state \<Rightarrow>
    journal_db world \<Rightarrow> journal_db world \<times> (writer_error + admitted)" where
  "transition jm aj generated operation scope new w =
     (case journal_read_row jm 0 operation scope w of
        (w1, Inl e) \<Rightarrow> (w1, Inl e)
      | (w1, Inr current) \<Rightarrow> transition_from jm aj generated operation scope new current w1)"

definition mark_dispatched :: "journal_moments \<Rightarrow> action_journal \<Rightarrow> operation_id \<Rightarrow> operation_id \<Rightarrow> trusted_scope \<Rightarrow> journal_db world \<Rightarrow>
    journal_db world \<times> (writer_error + admitted)" where
  "mark_dispatched jm aj generated operation scope = transition jm aj generated operation scope LDispatched"

definition mark_terminal :: "journal_moments \<Rightarrow> action_journal \<Rightarrow> operation_id \<Rightarrow> operation_id \<Rightarrow> trusted_scope \<Rightarrow> journal_db world \<Rightarrow>
    journal_db world \<times> (writer_error + admitted)" where
  "mark_terminal jm aj generated operation scope = transition jm aj generated operation scope LTerminal"

definition mark_unresolved :: "journal_moments \<Rightarrow> action_journal \<Rightarrow> operation_id \<Rightarrow> operation_id \<Rightarrow> trusted_scope \<Rightarrow> journal_db world \<Rightarrow>
    journal_db world \<times> (writer_error + admitted)" where
  "mark_unresolved jm aj generated operation scope = transition jm aj generated operation scope LUnresolved"

text \<open>A page in the order of the operations. Rows of a page are read one after the other.\<close>

definition page :: "nat \<Rightarrow> nat \<Rightarrow> 'a list \<Rightarrow> 'a list" where
  "page limit offset xs = take limit (drop offset xs)"

definition page_bound :: "u32 \<Rightarrow> store_bounds \<Rightarrow> u32" where
  "page_bound limit b = max (min limit (max_replay_rows b)) 1"

definition by_operation :: "journal_row list \<Rightarrow> journal_row list" where
  "by_operation rows = sort_key jr_operation rows"

definition outstanding_query :: "trusted_scope \<Rightarrow> u32 \<Rightarrow> u32 \<Rightarrow> journal_db \<Rightarrow> string list list" where
  "outstanding_query scope limit offset d =
     map (\<lambda>r. [jr_operation r, jr_scope r, jr_equipment r, show_word (jr_target r), jr_actor r, jr_attempt r,
                lifecycle_as_str (row_state (jr_operation r) d)])
       (page (unat limit) (unat offset) (by_operation
         (filter (\<lambda>r. jr_scope r = scope_text scope \<and> row_state (jr_operation r) d \<noteq> LTerminal) (jd_rows d))))"

fun read_page :: "(nat \<Rightarrow> journal_moments) \<Rightarrow> nat \<Rightarrow> trusted_scope \<Rightarrow> string list list \<Rightarrow> journal_db world \<Rightarrow>
    journal_db world \<times> (writer_error + admitted list)" where
  "read_page jms i scope [] w = (w, Inr [])"
| "read_page jms i scope (row # rows) w =
     (if length row \<noteq> 7 then (w, Inl (WrInvalid ''outstanding row shape''))
      else case wr_id operation_id_kind ''outstanding operation'' (row ! 0) of
        Inl e \<Rightarrow> (w, Inl e)
      | Inr operation \<Rightarrow>
          (case journal_read_row (jms i) 0 operation scope w of
             (w', Inl e) \<Rightarrow> (w', Inl e)
           | (w', Inr a) \<Rightarrow> (case read_page jms (i + 1) scope rows w' of (w2, r) \<Rightarrow> (w2, map_ok (\<lambda>as. a # as) r))))"

definition outstanding_page :: "(nat \<Rightarrow> journal_moments) \<Rightarrow> action_journal \<Rightarrow> trusted_scope \<Rightarrow> u32 \<Rightarrow> u32 \<Rightarrow> journal_db world \<Rightarrow>
    journal_db world \<times> (writer_error + admitted list)" where
  "outstanding_page jms aj scope limit offset w =
     (case journal_query (jms 0) 0 (outstanding_query scope (page_bound limit (aj_bounds aj)) offset) w of
        (w', Inl e) \<Rightarrow> (w', Inl (writer_storage e))
      | (w', Inr rows) \<Rightarrow> read_page jms 1 scope rows w')"

definition is_cleanup_due :: "int \<Rightarrow> int \<Rightarrow> u64 \<Rightarrow> bool" where
  "is_cleanup_due created now horizon =
     (case checked_sub_i64 now created of
        None \<Rightarrow> False
      | Some delta \<Rightarrow> 0 \<le> delta \<and> delta < min (uint horizon) (2 ^ 63 - 1))"

definition cleanup_horizon_secs :: u64 where "cleanup_horizon_secs = duration_secs"

definition cleanup_query :: "trusted_scope \<Rightarrow> u32 \<Rightarrow> u32 \<Rightarrow> int \<Rightarrow> u64 \<Rightarrow> journal_db \<Rightarrow> string list list" where
  "cleanup_query scope limit offset now horizon d =
     (let h = min (uint horizon) (2 ^ 63 - 1);
          cutoff = (case checked_sub_i64 now h of Some c \<Rightarrow> c | None \<Rightarrow> - (2 ^ 63))
      in map (\<lambda>r. [jr_operation r])
           (page (unat limit) (unat offset) (by_operation (filter (\<lambda>r. jr_scope r = scope_text scope \<and>
              (case lifecycle_of (jr_operation r) d of None \<Rightarrow> False | Some l \<Rightarrow> lc_state l = LTerminal) \<and>
              jr_kind r = Some SetAction \<and> jr_created r \<le> now \<and> jr_created r > cutoff) (jd_rows d)))))"

fun read_cleanup :: "(nat \<Rightarrow> journal_moments) \<Rightarrow> nat \<Rightarrow> trusted_scope \<Rightarrow> int \<Rightarrow> string list list \<Rightarrow> journal_db world \<Rightarrow>
    journal_db world \<times> (writer_error + admitted list)" where
  "read_cleanup jms i scope now [] w = (w, Inr [])"
| "read_cleanup jms i scope now (row # rows) w =
     (if length row \<noteq> 1 then (w, Inl (WrInvalid ''cleanup row shape''))
      else case wr_id operation_id_kind ''cleanup operation'' (row ! 0) of
        Inl e \<Rightarrow> (w, Inl e)
      | Inr operation \<Rightarrow>
          (case reconcile_admitted (jms i) 0 operation scope w of
             (w', Inl e) \<Rightarrow> (w', Inl e)
           | (w', Inr a) \<Rightarrow>
               if am_lifecycle a \<noteq> LTerminal \<or> am_kind a \<noteq> Some SetAction \<or>
                  \<not> is_cleanup_due (am_created a) now cleanup_horizon_secs
               then read_cleanup jms (i + 1) scope now rows w'
               else if scope_text (am_scope a) \<noteq> scope_text scope
               then (w', Inl (WrScopeDenied (scope_text scope) (scope_text (am_scope a))))
               else (case read_cleanup jms (i + 1) scope now rows w' of (w2, r) \<Rightarrow> (w2, map_ok (\<lambda>as. a # as) r))))"

definition cleanup_obligations :: "(nat \<Rightarrow> journal_moments) \<Rightarrow> action_journal \<Rightarrow> trusted_scope \<Rightarrow> u32 \<Rightarrow> u32 \<Rightarrow> int \<Rightarrow> journal_db world \<Rightarrow>
    journal_db world \<times> (writer_error + admitted list)" where
  "cleanup_obligations jms aj scope limit offset now w =
     (case journal_query (jms 0) 0
         (cleanup_query scope (page_bound limit (aj_bounds aj)) offset now cleanup_horizon_secs) w of
        (w', Inl e) \<Rightarrow> (w', Inl (writer_storage e))
      | (w', Inr rows) \<Rightarrow> read_cleanup jms 1 scope now rows w')"

section \<open>The ledger of migrations\<close>

definition ledger_query :: "journal_db \<Rightarrow> string list list" where
  "ledger_query d = map (\<lambda>g. [g]) (jd_ledger d)"

definition ledger_of_rows :: "string list list \<Rightarrow> string list" where
  "ledger_of_rows rows = map hd (filter (\<lambda>r. r \<noteq> []) rows)"

definition ledger_upto :: "nat \<Rightarrow> string list" where
  "ledger_upto n = map show_nat [1..<n + 1]"

text \<open>\<open>ensure_0004\<close>, \<open>ensure_0005\<close> and \<open>ensure_0006\<close> differ in the migration's number alone.\<close>

definition migrated :: "nat \<Rightarrow> string list \<Rightarrow> bool" where
  "migrated n ledger \<longleftrightarrow> (\<exists>m \<in> {n..6}. ledger = ledger_upto m)"

definition ensure_again :: "journal_moments \<Rightarrow> nat \<Rightarrow> writer_error \<Rightarrow> journal_db world \<Rightarrow> journal_db world \<times> (writer_error + unit)" where
  "ensure_again jm n e w =
     (case journal_query jm 2 ledger_query w of
        (w', Inl f) \<Rightarrow> (w', Inl (writer_storage f))
      | (w', Inr rows) \<Rightarrow> (w', if migrated n (ledger_of_rows rows) then Inr () else Inl e))"

definition ensure_migration :: "journal_moments \<Rightarrow> string \<Rightarrow> operation_id \<Rightarrow> nat \<Rightarrow> string \<Rightarrow> journal_db world \<Rightarrow>
    journal_db world \<times> (writer_error + unit)" where
  "ensure_migration jm identity generated n sql w =
     (case journal_query jm 0 ledger_query w of
        (w', Inl e) \<Rightarrow> (w', Inl (writer_storage e))
      | (w', Inr rows) \<Rightarrow>
          if migrated n (ledger_of_rows rows) then (w', Inr ())
          else if ledger_of_rows rows \<noteq> ledger_upto (n - 1)
          then (w', Inl (WrInvalid (''unsupported ledger for 000'' @ show_nat n @ '' upgrade'')))
          else (case submit_mutation (jm_env jm 1)
                    (prepare_open_batch generated identity (migration_body sql (show_nat n)) (length sql)) (jm_others jm 1 w') of
                  (_, w2, MCommitted _ _) \<Rightarrow> (w2, Inr ())
                | (_, w2, MNotCommitted _ e) \<Rightarrow> ensure_again jm n (map_submit_error e) w2
                | (_, w2, MConflict _ detail) \<Rightarrow> ensure_again jm n (WrConflict detail) w2
                | (_, w2, MUnknown operation detail) \<Rightarrow> (w2, Inl (WrUnknown operation detail))))"

definition journal_open :: "(nat \<Rightarrow> journal_moments) \<Rightarrow> string \<Rightarrow> (nat \<Rightarrow> operation_id) \<Rightarrow> (nat \<Rightarrow> string) \<Rightarrow> store_bounds \<Rightarrow> journal_db world \<Rightarrow>
    journal_db world \<times> (writer_error + action_journal)" where
  "journal_open jms identity generated sql bounds w =
     (case ensure_migration (jms 4) identity (generated 4) 4 (sql 4) w of
        (w4, Inl e) \<Rightarrow> (w4, Inl e)
      | (w4, Inr _) \<Rightarrow>
          (case ensure_migration (jms 5) identity (generated 5) 5 (sql 5) w4 of
             (w5, Inl e) \<Rightarrow> (w5, Inl e)
           | (w5, Inr _) \<Rightarrow>
               (case ensure_migration (jms 6) identity (generated 6) 6 (sql 6) w5 of
                  (w6, Inl e) \<Rightarrow> (w6, Inl e)
                | (w6, Inr _) \<Rightarrow> (w6, Inr \<lparr>aj_identity = identity, aj_bounds = bounds,
                    aj_essential = handoff_new (max_tasks bounds), aj_history = handoff_new history_capacity\<rparr>))))"

end
