(* ===== verification/Journal_Facts.thy ===== *)
theory Journal_Facts
  imports Journal Mutation_Facts
begin

text \<open>
  Facts of the action journal: stored rows are read back, the statements of the journal keep its generations
  consecutive and its hourly rate bounded, and every operation is a sequence of them.
\<close>

section \<open>Submissions of a store\<close>

context transactions
begin

lemma submit_keeps:
  assumes "submit_mutation se p w = (p', w', outcome)" "allowed p" "inv (wd_data w)"
  shows "inv (wd_data w') \<and> ext (wd_data w) (wd_data w')"
  using assms(1)
proof (cases rule: submit_cases)
  case same
  then show ?thesis using assms ext_refl by simp
next
  case (ran rows)
  then show ?thesis using keeps [OF assms(2,3)] by (auto simp: execute_def)
qed

end

section \<open>Texts of a row\<close>

lemma show_word_plain: "show_word w \<noteq> []" "show_word w \<noteq> ''NULL''" "hd (show_word w) \<noteq> squote"
proof -
  have ne: "show_word w \<noteq> []" by (simp add: show_word_def)
  then show "show_word w \<noteq> []" .
  have "\<not> is_ascii_digit (CHR ''N'')" by (simp add: is_ascii_digit_def)
  from show_word_clean [OF this, of w] show "show_word w \<noteq> ''NULL''" by auto
  have "\<not> is_ascii_digit squote" by (simp add: is_ascii_digit_def squote_def)
  from show_word_clean [OF this, of w] ne show "hd (show_word w) \<noteq> squote" by (metis list.set_sel(1))
qed

lemma id_ok_plain: "id_ok s \<Longrightarrow> s \<noteq> [] \<and> hd s \<noteq> squote"
  by (cases s) (auto simp: id_ok_def id_char_def squote_def is_ascii_alphanumeric_def is_ascii_digit_def)

lemma parse_nullable_word [simp]: "parse_nullable (show_word w) = Some (show_word w)"
  by (simp add: parse_nullable_def sql_unquote_def show_word_plain)

lemma parse_nullable_id [simp]: "id_ok s \<Longrightarrow> s \<noteq> ''NULL'' \<Longrightarrow> parse_nullable s = Some s"
  using id_ok_plain [of s] by (simp add: parse_nullable_def sql_unquote_def)

lemma sql_unquote_id [simp]: "id_ok s \<Longrightarrow> sql_unquote s = s"
  using id_ok_plain [of s] by (simp add: sql_unquote_def)

lemma parse_nullable_empty [simp]: "parse_nullable [] = None"
  by (simp add: parse_nullable_def)

lemma nullable_kind [simp]: "wr_nullable (wr_parse what action_kind_parse) (action_kind_as_str k) = Inr (Some k)"
  by (cases k) (simp_all add: wr_nullable_def parse_nullable_def sql_unquote_def wr_parse_def action_kind_parse_def squote_def)

lemma nullable_flag [simp]: "wr_nullable release_flag (if b then ''1'' else ''0'') = Inr (Some b)"
  by (simp add: wr_nullable_def parse_nullable_def sql_unquote_def release_flag_def squote_def)

lemma nullable_word [simp]: "wr_nullable (wr_parse what parse_u32) (show_word w) = Inr (Some w)" for w :: u32
  by (simp add: wr_nullable_def wr_parse_def)

lemma nullable_id [simp]: "id_ok s \<Longrightarrow> s \<noteq> ''NULL'' \<Longrightarrow> wr_nullable (wr_id kind what) s = Inr (Some s)"
  by (simp add: wr_nullable_def wr_id_def)

lemma lifecycle_text [simp]: "decode_lifecycle (parse_nullable (lifecycle_as_str s)) = Inr s"
  by (cases s) (simp_all add: decode_lifecycle_def parse_nullable_def sql_unquote_def lifecycle_parse_def squote_def)

lemma nullable_predecessor [simp]:
  "(\<And>p. x = Some p \<Longrightarrow> id_ok p \<and> p \<noteq> ''NULL'') \<Longrightarrow>
     wr_nullable (\<lambda>raw. wr_id kind what (sql_unquote raw)) (optional id x) = Inr x"
  by (cases x) (simp_all add: optional_def wr_nullable_def wr_id_def)

section \<open>Rows are read back\<close>

definition lifecycle_predecessor :: "string \<Rightarrow> journal_db \<Rightarrow> string option" where
  "lifecycle_predecessor operation d = (case lifecycle_of operation d of None \<Rightarrow> None | Some l \<Rightarrow> lc_predecessor l)"

definition journal_row_ok :: "journal_row \<Rightarrow> bool" where
  "journal_row_ok r \<longleftrightarrow> id_ok (jr_operation r) \<and> id_ok (jr_equipment r) \<and> id_ok (jr_attempt r) \<and>
     unat (jr_accepted r) \<le> unat max_accepted \<and> checked_add (jr_expected r) 1 = Some (jr_target r) \<and> jr_payload r \<noteq> [] \<and>
     jr_deadline r = deadline_secs \<and> writer_check_actor (jr_actor r) = Inr (jr_actor r) \<and> in_i64 (jr_created r) \<and>
     jr_wire r \<noteq> None \<and> jr_kind r \<noteq> None \<and> jr_release r \<noteq> None \<and>
     (\<exists>t. jr_release_target r = Some t \<and> id_ok t \<and> t \<noteq> ''NULL'')"

definition admitted_of :: "journal_row \<Rightarrow> journal_db \<Rightarrow> trusted_scope \<Rightarrow> admitted" where
  "admitted_of r d scope =
     \<lparr>am_row_id = 0, am_operation = jr_operation r, am_scope = scope, am_equipment = jr_equipment r, am_binding = jr_binding r,
      am_accepted = jr_accepted r, am_expected = jr_expected r, am_target = jr_target r, am_payload = jr_payload r,
      am_deadline = jr_deadline r, am_ceiling = jr_ceiling r, am_actor = jr_actor r, am_attempt = jr_attempt r,
      am_reconciled = False, am_wire = jr_wire r, am_kind = jr_kind r, am_release = jr_release r,
      am_release_target = jr_release_target r, am_lifecycle = row_state (jr_operation r) d,
      am_predecessor = lifecycle_predecessor (jr_operation r) d, am_created = jr_created r\<rparr>"

lemma decode_base_texts:
  assumes "journal_row_ok r" "jr_scope r = scope_text scope"
  shows "decode_base (row_texts r @ more_texts) scope =
    Inr \<lparr>am_row_id = 0, am_operation = jr_operation r, am_scope = scope, am_equipment = jr_equipment r, am_binding = jr_binding r,
      am_accepted = jr_accepted r, am_expected = jr_expected r, am_target = jr_target r, am_payload = jr_payload r,
      am_deadline = jr_deadline r, am_ceiling = jr_ceiling r, am_actor = jr_actor r, am_attempt = jr_attempt r,
      am_reconciled = False, am_wire = None, am_kind = None, am_release = None, am_release_target = None,
      am_lifecycle = LAdmitted, am_predecessor = None, am_created = 0\<rparr>"
  using assms by (simp add: decode_base_def row_texts_def journal_row_ok_def wr_id_def wr_parse_def accepted_revision_new_def ok_or_def map_err_def)

lemma journal_row_reads_back:
  assumes "journal_row_ok r" "jr_scope r = scope_text scope"
    and "\<And>p. lifecycle_predecessor (jr_operation r) d = Some p \<Longrightarrow> id_ok p \<and> p \<noteq> ''NULL''"
  shows "journal_decode_row (row_texts r @ identity_texts r @ lifecycle_texts r d) scope = Inr (admitted_of r d scope)"
proof -
  obtain w k b t where o: "jr_wire r = Some w" "jr_kind r = Some k" "jr_release r = Some b" "jr_release_target r = Some t"
      "id_ok t" "t \<noteq> ''NULL''"
    using assms(1) by (auto simp: journal_row_ok_def)
  have len: "length (row_texts r) = 13" "length (identity_texts r) = 4" "length (lifecycle_texts r d) = 3"
    by (simp_all add: row_texts_def identity_texts_def lifecycle_texts_def)
  have n: "(row_texts r @ identity_texts r @ lifecycle_texts r d) ! (13 + i) = identity_texts r ! i" if "i < 4" for i
    using that len by (simp add: nth_append)
  have l: "(row_texts r @ identity_texts r @ lifecycle_texts r d) ! (17 + i) = lifecycle_texts r d ! i" for i
    using len by (simp add: nth_append)
  have ns: "(row_texts r @ identity_texts r @ lifecycle_texts r d) ! 13 = show_word w"
      "(row_texts r @ identity_texts r @ lifecycle_texts r d) ! 14 = action_kind_as_str k"
      "(row_texts r @ identity_texts r @ lifecycle_texts r d) ! 15 = (if b then ''1'' else ''0'')"
      "(row_texts r @ identity_texts r @ lifecycle_texts r d) ! 16 = t"
    using n [of 0] n [of 1] n [of 2] n [of 3] o by (simp_all add: identity_texts_def optional_def)
  have ls: "(row_texts r @ identity_texts r @ lifecycle_texts r d) ! 17 = show_int (jr_created r)"
      "(row_texts r @ identity_texts r @ lifecycle_texts r d) ! 18 = lifecycle_as_str (row_state (jr_operation r) d)"
      "(row_texts r @ identity_texts r @ lifecycle_texts r d) ! 19 = optional id (lifecycle_predecessor (jr_operation r) d)"
    using l [of 0] l [of 1] l [of 2]
    by (simp_all add: lifecycle_texts_def lifecycle_predecessor_def optional_def split: option.splits)
  have flag: "wr_nullable release_flag (if b then ''1'' else ''0'') = Inr (Some b)" by simp
  have i64: "in_i64 (jr_created r)" using assms(1) by (simp add: journal_row_ok_def)
  have pred: "wr_nullable (\<lambda>raw. wr_id operation_id_kind ''lifecycle predecessor'' (sql_unquote raw))
      (optional id (lifecycle_predecessor (jr_operation r) d)) = Inr (lifecycle_predecessor (jr_operation r) d)"
    by (rule nullable_predecessor) (rule assms(3))
  show ?thesis
    unfolding journal_decode_row_def decode_base_texts [OF assms(1,2)] decode_identity_def decode_joined_def ns ls pred flag
    using o len i64 by (simp add: wr_parse_def ok_or_def admitted_of_def del: append_assoc)
qed

section \<open>Generations and rates\<close>

definition at_target :: "string \<Rightarrow> string \<Rightarrow> journal_row \<Rightarrow> bool" where
  "at_target scope equipment r \<longleftrightarrow> jr_scope r = scope \<and> jr_equipment r = equipment"

definition generations :: "string \<Rightarrow> string \<Rightarrow> journal_db \<Rightarrow> nat list" where
  "generations scope equipment d = map (\<lambda>r. unat (jr_target r)) (filter (at_target scope equipment) (jd_rows d))"

definition generations_ok :: "journal_db \<Rightarrow> bool" where
  "generations_ok d \<longleftrightarrow>
     (\<forall>scope equipment. generations scope equipment d = [1..<Suc (unat (target_generation_of scope equipment d))])"

text \<open>Operations are unique, and every row of the lifecycle belongs to a row of the journal.\<close>

definition keys_ok :: "journal_db \<Rightarrow> bool" where
  "keys_ok d \<longleftrightarrow> distinct (map jr_operation (jd_rows d)) \<and> distinct (map lc_operation (jd_lifecycle d)) \<and>
     set (map lc_operation (jd_lifecycle d)) \<subseteq> set (map jr_operation (jd_rows d)) \<and>
     (\<forall>r \<in> set (jd_rows d). checked_add (jr_expected r) 1 = Some (jr_target r))"

definition journal_ok :: "journal_db \<Rightarrow> bool" where
  "journal_ok d \<longleftrightarrow> generations_ok d \<and> keys_ok d"

definition lifecycle_keys :: "journal_db \<Rightarrow> (string \<times> string \<times> string option) list" where
  "lifecycle_keys d = map (\<lambda>l. (lc_operation l, lc_attempt l, lc_predecessor l)) (jd_lifecycle d)"

definition journal_extends :: "journal_db \<Rightarrow> journal_db \<Rightarrow> bool" where
  "journal_extends d d' \<longleftrightarrow> (\<exists>new. jd_rows d' = jd_rows d @ new) \<and>
     (\<forall>scope equipment. target_generation_of scope equipment d \<le> target_generation_of scope equipment d') \<and>
     (\<exists>new. lifecycle_keys d' = lifecycle_keys d @ new)"

text \<open>A row that an admission writes is fixed but for its clock, and is one generation further.\<close>

definition admits :: "(int \<Rightarrow> journal_row) \<Rightarrow> bool" where
  "admits row \<longleftrightarrow> (\<exists>r. row = (\<lambda>now. r\<lparr>jr_created := now\<rparr>) \<and> checked_add (jr_expected r) 1 = Some (jr_target r))"

definition journal_statement :: "journal_db prepared \<Rightarrow> bool" where
  "journal_statement p \<longleftrightarrow>
     (\<exists>row i predecessor. pm_body p = open_batch (admission_body row i predecessor) \<and> admits row) \<or>
     (\<exists>operation s. pm_body p = open_batch (transition_body operation s)) \<or>
     (\<exists>sql g. pm_body p = open_batch (migration_body sql g))"

lemma upsert_target_get:
  "map_of (upsert_target scope equipment g ts) k = (if k = (scope, equipment) then Some g else map_of ts k)"
proof -
  have "map_of (map (\<lambda>(k', h). if k' = key then (k', g) else (k', h)) ts) k =
      (if k = key \<and> map_of ts key \<noteq> None then Some g else map_of ts k)" for key
    by (induction ts) auto
  then show ?thesis by (cases "map_of ts k") (auto simp: upsert_target_def map_add_def)
qed

lemma find_None_iff': "find P xs = None \<longleftrightarrow> (\<forall>x \<in> set xs. \<not> P x)"
  by (auto simp: find_None_iff)

lemma find_snoc: "find P xs = None \<Longrightarrow> find P (xs @ [x]) = (if P x then Some x else None)"
  by (induction xs) (auto split: if_splits)

lemma checked_add_succ: "checked_add x 1 = Some y \<Longrightarrow> unat y = unat x + 1" for x :: "'a::len word"
  by (auto simp: checked_add_def unat_word_ariths split: if_splits)

text \<open>What an admission adds, and what it checked before it did.\<close>

lemma admission_run_cases:
  assumes "admission_run row predecessor d = Inr (d', rows)"
  obtains r where "r = row (jd_clock d 1)" "jd_rows d' = jd_rows d @ [r]"
    "target_generation_of (jr_scope r) (jr_equipment r) d = jr_expected r"
    "jr_kind r = Some SetAction \<Longrightarrow> rate_count (jr_scope r) (jr_equipment r) d < unat rate_max_per_hour"
    "journal_of (jr_operation r) d = None" "lifecycle_of (jr_operation r) d = None" "jr_deadline r = 5"
    "jd_targets d' = upsert_target (jr_scope r) (jr_equipment r) (jr_target r) (jd_targets d)"
    "jd_lifecycle d' = jd_lifecycle d @ [\<lparr>lc_operation = jr_operation r, lc_attempt = jr_attempt r,
       lc_state = LAdmitted, lc_updated = jd_clock d 2, lc_predecessor = predecessor\<rparr>]"
    "jd_clock d' = jd_clock d" "jd_ledger d' = jd_ledger d"
    "\<And>p. predecessor = Some p \<Longrightarrow> p \<in> set (map jr_operation (jd_rows d'))"
    "rows = [[show_int (int (length (jd_lifecycle d)) + 1)], [''1'']]"
proof -
  let ?r = "row (jd_clock d 1)"
  have f: "\<not> (case predecessor of None \<Rightarrow> False | Some p \<Rightarrow> find (\<lambda>x. jr_operation x = p) (jd_rows d @ [?r]) = None)"
    using assms by (auto simp: admission_run_def Let_def simp del: One_nat_def split: if_splits)
  have p: "p \<in> set (map jr_operation (jd_rows d @ [?r]))" if "predecessor = Some p" for p
    using f that by (auto simp: find_None_iff')
  show thesis
    by (rule that [of ?r]) (use assms p in \<open>auto simp: admission_run_def Let_def not_le simp del: One_nat_def split: if_splits\<close>)
qed

lemma admission_keeps:
  assumes run: "admission_run row predecessor d = Inr (d', rows)" and a: "admits row" and ok: "journal_ok d"
  shows "journal_ok d' \<and> journal_extends d d'"
proof -
  obtain r where r: "r = row (jd_clock d 1)" "jd_rows d' = jd_rows d @ [r]"
      "target_generation_of (jr_scope r) (jr_equipment r) d = jr_expected r"
      "jr_kind r = Some SetAction \<Longrightarrow> rate_count (jr_scope r) (jr_equipment r) d < unat rate_max_per_hour"
      "journal_of (jr_operation r) d = None" "lifecycle_of (jr_operation r) d = None"
      "jd_targets d' = upsert_target (jr_scope r) (jr_equipment r) (jr_target r) (jd_targets d)"
      "jd_lifecycle d' = jd_lifecycle d @ [\<lparr>lc_operation = jr_operation r, lc_attempt = jr_attempt r,
        lc_state = LAdmitted, lc_updated = jd_clock d 2, lc_predecessor = predecessor\<rparr>]"
    by (rule admission_run_cases [OF run]) (rule that; assumption)
  have add: "checked_add (jr_expected r) 1 = Some (jr_target r)" using a r(1) by (auto simp: admits_def)
  then have succ: "unat (jr_target r) = unat (jr_expected r) + 1" using checked_add_succ by blast
  have gen: "target_generation_of s e d' = (if (s, e) = (jr_scope r, jr_equipment r) then jr_target r else target_generation_of s e d)" for s e
    by (simp add: target_generation_of_def r(7) upsert_target_get)
  have "generations s e d' = [1..<Suc (unat (target_generation_of s e d'))]" for s e
  proof (cases "at_target s e r")
    case True
    then have "generations s e d' = generations s e d @ [unat (jr_target r)]" by (simp add: generations_def r(2))
    also have "generations s e d = [1..<Suc (unat (jr_expected r))]"
      using ok True r(3) by (simp add: journal_ok_def generations_ok_def at_target_def)
    finally show ?thesis using True gen succ by (simp add: at_target_def)
  next
    case False
    then have "generations s e d' = generations s e d" by (simp add: generations_def r(2))
    then show ?thesis using False ok by (auto simp: gen at_target_def journal_ok_def generations_ok_def)
  qed
  then have g: "generations_ok d'" by (simp add: generations_ok_def)
  have k: "keys_ok d'" using ok r(5,6) add by (auto simp: keys_ok_def journal_ok_def r(2,8) journal_of_def lifecycle_of_def find_None_iff')
  have "target_generation_of s e d \<le> target_generation_of s e d'" for s e
    using r(3) succ by (auto simp: gen word_le_nat_alt)
  then have "journal_extends d d'" by (auto simp: journal_extends_def lifecycle_keys_def r(2,8))
  with g k show ?thesis by (simp add: journal_ok_def)
qed

text \<open>A transition leaves the journal, and the keys of the lifecycle but for one that it may append.\<close>

lemma lifecycle_keys_operations: "map lc_operation (jd_lifecycle d) = map fst (lifecycle_keys d)"
  by (simp add: lifecycle_keys_def)

lemma transition_run_cases:
  assumes "transition_run operation s d = Inr (d', rows)"
  obtains (absent) "d' = d" "journal_of operation d = None" "rows = [[''1''], [''0'']]"
  | (added) r where "journal_of operation d = Some r" "lifecycle_of operation d = None"
      "d' = d\<lparr>jd_lifecycle := jd_lifecycle d @ [\<lparr>lc_operation = operation, lc_attempt = jr_attempt r, lc_state = s,
         lc_updated = jd_clock d 0, lc_predecessor = None\<rparr>]\<rparr>"
  | (moved) "journal_of operation d \<noteq> None" "lifecycle_of operation d \<noteq> None"
      "d' = d\<lparr>jd_lifecycle := map (\<lambda>l. if lc_operation l = operation then l\<lparr>lc_state := s, lc_updated := jd_clock d 0\<rparr> else l)
         (jd_lifecycle d)\<rparr>"
  using assms by (auto simp: transition_run_def split: option.splits if_splits)

lemma journal_ok_same:
  assumes "jd_rows d' = jd_rows d" "jd_targets d' = jd_targets d" "map lc_operation (jd_lifecycle d') = map lc_operation (jd_lifecycle d)"
  shows "journal_ok d' \<longleftrightarrow> journal_ok d"
  by (simp only: journal_ok_def generations_ok_def generations_def target_generation_of_def keys_ok_def assms)

lemma transition_keeps:
  assumes run: "transition_run operation s d = Inr (d', rows)" and ok: "journal_ok d"
  shows "journal_ok d' \<and> journal_extends d d'"
  using run
proof (cases rule: transition_run_cases)
  case absent
  then show ?thesis using ok by (simp add: journal_extends_def)
next
  case (added r)
  have "operation \<in> set (map jr_operation (jd_rows d))" "operation \<notin> set (map lc_operation (jd_lifecycle d))"
    using added(1,2) by (auto simp: journal_of_def lifecycle_of_def find_None_iff' find_Some_iff)
  then show ?thesis using ok
    by (auto simp: added(3) journal_ok_def journal_extends_def lifecycle_keys_def generations_ok_def generations_def target_generation_of_def keys_ok_def)
next
  case moved
  have "lifecycle_keys d' = lifecycle_keys d" by (simp add: moved(3) lifecycle_keys_def)
  then have keys: "lifecycle_keys d' = lifecycle_keys d" .
  then have "map lc_operation (jd_lifecycle d') = map lc_operation (jd_lifecycle d)"
    by (simp only: lifecycle_keys_operations)
  moreover have same: "jd_rows d' = jd_rows d" "jd_targets d' = jd_targets d" by (simp_all add: moved(3))
  ultimately have "journal_ok d'" using ok journal_ok_same by blast
  with same keys show ?thesis by (simp add: journal_extends_def target_generation_of_def)
qed

lemma journal_keeps:
  assumes "journal_statement p" "journal_ok d" "bd_run (pm_body p) d = Inr (d', rows)"
  shows "journal_ok d' \<and> journal_extends d d'"
proof -
  have m: "journal_ok d' \<and> journal_extends d d'" if "migration_run g d = Inr (d', rows)" for g
    using that assms(2) journal_ok_same [of d' d]
    by (auto simp: migration_run_def journal_extends_def target_generation_of_def lifecycle_keys_def split: if_splits)
  from assms(1) consider row i predecessor where "pm_body p = open_batch (admission_body row i predecessor)" "admits row"
    | operation s where "pm_body p = open_batch (transition_body operation s)"
    | sql g where "pm_body p = open_batch (migration_body sql g)"
    unfolding journal_statement_def by blast
  then show ?thesis
  proof cases
    case (1 row i predecessor)
    then have "admission_run row predecessor d = Inr (d', rows)" using assms(3) by (simp add: open_batch_def admission_body_def)
    then show ?thesis by (rule admission_keeps [OF _ 1(2) assms(2)])
  next
    case (2 operation s)
    then have "transition_run operation s d = Inr (d', rows)" using assms(3) by (simp add: open_batch_def transition_body_def)
    then show ?thesis by (rule transition_keeps [OF _ assms(2)])
  next
    case (3 sql g)
    then have "migration_run g d = Inr (d', rows)" using assms(3) by (simp add: open_batch_def migration_body_def)
    then show ?thesis by (rule m)
  qed
qed

lemma journal_extends_refl: "journal_extends d d"
  by (simp add: journal_extends_def)

lemma journal_extends_trans: "journal_extends a b \<Longrightarrow> journal_extends b c \<Longrightarrow> journal_extends a c"
proof -
  assume ab: "journal_extends a b" and bc: "journal_extends b c"
  from ab obtain r1 l1 where 1: "jd_rows b = jd_rows a @ r1" "lifecycle_keys b = lifecycle_keys a @ l1"
    by (auto simp: journal_extends_def)
  from bc obtain r2 l2 where 2: "jd_rows c = jd_rows b @ r2" "lifecycle_keys c = lifecycle_keys b @ l2"
    by (auto simp: journal_extends_def)
  have "target_generation_of s e a \<le> target_generation_of s e b" "target_generation_of s e b \<le> target_generation_of s e c" for s e
    using ab bc by (simp_all add: journal_extends_def)
  then have "target_generation_of s e a \<le> target_generation_of s e c" for s e by (rule order_trans)
  with 1 2 show ?thesis by (simp add: journal_extends_def)
qed

interpretation actions: transactions journal_statement journal_ok journal_extends
proof unfold_locales
  show "journal_ok d' \<and> journal_extends d d'"
    if "journal_statement p" "journal_ok d" "bd_run (pm_body p) d = Inr (d', rows)" for p d d' rows
    using that by (rule journal_keeps)
qed (rule journal_extends_refl, rule journal_extends_trans)

section \<open>Runs\<close>

text \<open>
  What any number of processes do to a journal: requests of its statements, in any environment, while the engine's clock
  moves as it likes.
\<close>

inductive journal_step :: "journal_db world \<Rightarrow> journal_db world \<Rightarrow> bool" where
  request: "journal_statement p \<Longrightarrow> submit_mutation se p w = (p', w', outcome) \<Longrightarrow> journal_step w w'"
| tick: "journal_step w (w\<lparr>wd_data := (wd_data w)\<lparr>jd_clock := c\<rparr>\<rparr>)"

abbreviation journal_run :: "journal_db world \<Rightarrow> journal_db world \<Rightarrow> bool" where
  "journal_run \<equiv> journal_step\<^sup>*\<^sup>*"

lemma journal_step_keeps:
  "journal_step w w' \<Longrightarrow> journal_ok (wd_data w) \<Longrightarrow> journal_ok (wd_data w') \<and> journal_extends (wd_data w) (wd_data w')"
proof (induction rule: journal_step.induct)
  case (request p se w p' w' outcome)
  then show ?case using actions.submit_keeps by blast
next
  case (tick w c)
  then show ?case using journal_ok_same [of "(wd_data w)\<lparr>jd_clock := c\<rparr>" "wd_data w"]
    by (simp add: journal_extends_def target_generation_of_def lifecycle_keys_def)
qed

lemma journal_run_keeps:
  "journal_run w w' \<Longrightarrow> journal_ok (wd_data w) \<Longrightarrow> journal_ok (wd_data w') \<and> journal_extends (wd_data w) (wd_data w')"
proof (induction rule: rtranclp_induct)
  case base
  then show ?case by (simp add: journal_extends_refl)
next
  case (step u v)
  then show ?case using journal_step_keeps journal_extends_trans by blast
qed

definition journal_empty :: "(nat \<Rightarrow> int) \<Rightarrow> journal_db" where
  "journal_empty clock = \<lparr>jd_rows = [], jd_targets = [], jd_lifecycle = [], jd_ledger = ledger_upto 6, jd_clock = clock\<rparr>"

lemma journal_empty_ok: "journal_ok (journal_empty c)"
  by (simp add: journal_ok_def journal_empty_def generations_ok_def generations_def target_generation_of_def keys_ok_def)

lemma journal_reached_ok: "journal_run \<lparr>wd_data = journal_empty c, wd_receipts = []\<rparr> w \<Longrightarrow> journal_ok (wd_data w)"
  using journal_run_keeps journal_empty_ok by fastforce

section \<open>Rates\<close>

text \<open>The rows of set actions of one target that a span of so many seconds up to a time holds.\<close>

definition set_within :: "string \<Rightarrow> string \<Rightarrow> int \<Rightarrow> int \<Rightarrow> journal_row \<Rightarrow> bool" where
  "set_within scope equipment span until r \<longleftrightarrow>
     at_target scope equipment r \<and> jr_kind r = Some SetAction \<and> until - span \<le> jr_created r \<and> jr_created r \<le> until"

definition rates_within :: "int \<Rightarrow> journal_db \<Rightarrow> bool" where
  "rates_within slip d \<longleftrightarrow>
     (\<forall>scope equipment until. length (filter (set_within scope equipment (rate_window_secs - slip) until) (jd_rows d)) \<le> unat rate_max_per_hour)"

text \<open>Between the guard of a batch and its row the clock steps back by no more than so many seconds.\<close>

definition slips_within :: "int \<Rightarrow> journal_db \<Rightarrow> bool" where
  "slips_within slip d \<longleftrightarrow> jd_clock d 0 \<le> jd_clock d 1 + slip"

definition rated :: "int \<Rightarrow> journal_db \<Rightarrow> bool" where
  "rated slip d \<longleftrightarrow> slips_within slip d \<and> rates_within slip d"

lemma admission_rated:
  assumes run: "admission_run row predecessor d = Inr (d', rows)" and a: "admits row" and ok: "rated slip d"
  shows "rated slip d'"
proof -
  obtain r where r: "r = row (jd_clock d 1)" "jd_rows d' = jd_rows d @ [r]" "jd_clock d' = jd_clock d"
      "jr_kind r = Some SetAction \<Longrightarrow> rate_count (jr_scope r) (jr_equipment r) d < unat rate_max_per_hour"
    by (rule admission_run_cases [OF run]) (rule that; assumption)
  have created: "jr_created r = jd_clock d 1" using a r(1) by (auto simp: admits_def)
  have slip: "jd_clock d 0 \<le> jd_clock d 1 + slip" using ok by (simp add: rated_def slips_within_def)
  have "length (filter (set_within s e (rate_window_secs - slip) u) (jd_rows d')) \<le> unat rate_max_per_hour" for s e u
  proof (cases "set_within s e (rate_window_secs - slip) u r")
    case True
    then have t: "s = jr_scope r" "e = jr_equipment r" "jr_kind r = Some SetAction" "jd_clock d 1 \<le> u"
      by (auto simp: set_within_def at_target_def created)
    have "length (filter (set_within s e (rate_window_secs - slip) u) (jd_rows d)) \<le> rate_count (jr_scope r) (jr_equipment r) d"
      unfolding rate_count_def by (rule length_filter_conv_card [THEN eq_refl, THEN order_trans],
        subst length_filter_conv_card, rule card_mono)
        (use t(4) slip in \<open>auto simp: set_within_def at_target_def rate_counted_def t(1-3)\<close>)
    then show ?thesis using r(4) t(3) True by (simp add: r(2))
  next
    case False
    then show ?thesis using ok by (simp add: r(2) rated_def rates_within_def)
  qed
  then show ?thesis using ok by (simp add: rated_def rates_within_def slips_within_def r(3))
qed

lemma rated_same: "jd_rows d' = jd_rows d \<Longrightarrow> jd_clock d' = jd_clock d \<Longrightarrow> rated slip d' \<longleftrightarrow> rated slip d"
  by (simp add: rated_def rates_within_def slips_within_def)

lemma statement_rated:
  assumes "journal_statement p" "rated slip d" "bd_run (pm_body p) d = Inr (d', rows)"
  shows "rated slip d'"
proof -
  from assms(1) consider row i predecessor where "pm_body p = open_batch (admission_body row i predecessor)" "admits row"
    | operation s where "pm_body p = open_batch (transition_body operation s)"
    | sql g where "pm_body p = open_batch (migration_body sql g)"
    unfolding journal_statement_def by blast
  then show ?thesis
  proof cases
    case (1 row i predecessor)
    then have "admission_run row predecessor d = Inr (d', rows)" using assms(3) by (simp add: open_batch_def admission_body_def)
    then show ?thesis by (rule admission_rated [OF _ 1(2) assms(2)])
  next
    case (2 operation s)
    then have "transition_run operation s d = Inr (d', rows)" using assms(3) by (simp add: open_batch_def transition_body_def)
    then have "jd_rows d' = jd_rows d" "jd_clock d' = jd_clock d" by (cases rule: transition_run_cases; simp)+
    then show ?thesis using assms(2) rated_same by blast
  next
    case (3 sql g)
    then have "jd_rows d' = jd_rows d" "jd_clock d' = jd_clock d"
      using assms(3) by (auto simp: open_batch_def migration_body_def migration_run_def split: if_splits)
    then show ?thesis using assms(2) rated_same by blast
  qed
qed

interpretation pace: transactions journal_statement "rated slip" "\<lambda>_ _. True" for slip
  by unfold_locales (auto intro: statement_rated)

text \<open>Runs in which every batch meets a clock that steps back by no more than so many seconds inside the batch.\<close>

abbreviation slipping_run :: "int \<Rightarrow> journal_db world \<Rightarrow> journal_db world \<Rightarrow> bool" where
  "slipping_run slip \<equiv> (\<lambda>w w'. journal_step w w' \<and> slips_within slip (wd_data w'))\<^sup>*\<^sup>*"

lemma slipping_run_rated: "slipping_run slip w w' \<Longrightarrow> rated slip (wd_data w) \<Longrightarrow> rated slip (wd_data w')"
proof (induction rule: rtranclp_induct)
  case (step u v)
  from step(2) have "journal_step u v" "slips_within slip (wd_data v)" by auto
  then show ?case using step(3,4)
  proof (cases rule: journal_step.cases)
    case (request p se p' outcome)
    then show ?thesis using pace.submit_keeps step(3,4) by blast
  next
    case (tick c)
    then show ?thesis using step(2-4) by (simp add: rated_def rates_within_def)
  qed
qed

lemma journal_empty_rated: "slips_within slip (journal_empty c) \<Longrightarrow> rated slip (journal_empty c)"
  by (simp add: rated_def rates_within_def journal_empty_def)

section \<open>Operations are runs\<close>

text \<open>Other processes only do what a journal allows.\<close>

definition others_run :: "journal_moments \<Rightarrow> bool" where
  "others_run jm \<longleftrightarrow> (\<forall>k w. journal_run w (jm_others jm k w))"

lemma journal_query_run: "others_run jm \<Longrightarrow> journal_query jm k q w = (w', r) \<Longrightarrow> journal_run w w'"
  by (auto simp: journal_query_def others_run_def Let_def)

lemma journal_read_row_run: "others_run jm \<Longrightarrow> journal_read_row jm k operation scope w = (w', r) \<Longrightarrow> journal_run w w'"
proof -
  assume o: "others_run jm" and r: "journal_read_row jm k operation scope w = (w', r)"
  obtain w1 r1 where 1: "journal_query jm k (read_query operation scope) w = (w1, r1)" by fastforce
  obtain w2 r2 where 2: "journal_query jm (k + 1) (read_query_17 operation scope) w1 = (w2, r2)" by fastforce
  obtain w3 r3 where 3: "journal_query jm (k + 2) (read_query_13 operation scope) w2 = (w3, r3)" by fastforce
  have "journal_run w w1" "journal_run w1 w2" "journal_run w2 w3"
    using journal_query_run [OF o 1] journal_query_run [OF o 2] journal_query_run [OF o 3] by auto
  then have "journal_run w w1" "journal_run w w2" "journal_run w w3" by (auto intro: rtranclp_trans)
  then show ?thesis using r 1 2 3 by (auto simp: journal_read_row_def split: sum.splits if_splits)
qed

lemma read_identical_run: "others_run jm \<Longrightarrow> read_identical jm k p b w = (w', r) \<Longrightarrow> journal_run w w'"
  by (auto simp: read_identical_def split: prod.splits dest: journal_read_row_run)

lemma current_generation_run: "others_run jm \<Longrightarrow> current_generation jm k scope equipment w = (w', r) \<Longrightarrow> journal_run w w'"
  by (auto simp: current_generation_def split: prod.splits dest: journal_query_run)

lemma rate_used_run: "others_run jm \<Longrightarrow> rate_used jm k scope equipment w = (w', r) \<Longrightarrow> journal_run w w'"
  by (auto simp: rate_used_def split: prod.splits dest: journal_query_run)

lemma submit_run:
  assumes "others_run jm" "journal_statement p" "submit_mutation (jm_env jm k) p (jm_others jm k w) = (p', w', outcome)"
  shows "journal_run w w'"
proof -
  have "journal_run w (jm_others jm k w)" using assms(1) by (simp add: others_run_def)
  also have "journal_step (jm_others jm k w) w'" by (rule journal_step.request [OF assms(2,3)])
  finally show ?thesis .
qed

lemma prepared_ticket:
  assumes "prepare_admission aj generated operation scope ceiling role actor v expected predecessor = Inr p"
  obtains target where
    "checked_add expected 1 = Some target"
    "pm_body (pd_ticket p) = open_batch (admission_body
       (admission_row operation scope v expected target (preview_bytes v) ceiling actor (identity_of_preview v)) (identity_of_preview v) predecessor)"
    "pm_operation (pd_ticket p) = operation" "pm_shape (pd_ticket p) = ShapeInsert" "pm_store (pd_ticket p) = aj_identity aj"
    "role = Publisher" "required_publish_ceiling \<le> ceiling" "writer_check_actor actor = Inr actor" "check_preview v = Inr ()"
    "at_scope (pw_target v) = scope" "preview_bytes v \<noteq> []"
    "pd_operation p = operation" "pd_scope p = scope" "pd_equipment p = at_equipment (pw_target v)" "pd_expected p = expected"
    "pd_payload p = preview_bytes v" "pd_identity p = identity_of_preview v" "pd_predecessor p = predecessor"
proof -
  have actor: "writer_check_actor actor = Inr x \<Longrightarrow> x = actor" for x by (auto simp: writer_check_actor_def split: if_splits)
  obtain target x where t: "checked_add expected 1 = Some target" "writer_check_actor actor = Inr x"
    using assms by (auto simp: prepare_admission_def split: if_splits)
  then have x: "x = actor" using actor by blast
  show thesis
    by (rule that [of target]) (use assms t x in \<open>auto simp: prepare_admission_def writer_check_ceiling_def Let_def admission_ticket_def
        with_operation_def prepare_open_batch_def prepared_new_def not_less split: role_kind.splits if_splits\<close>)
qed

lemma admission_row_admits:
  "checked_add expected 1 = Some target \<Longrightarrow> admits (admission_row operation scope v expected target payload ceiling actor i)"
  unfolding admits_def
  by (intro exI [of _ "admission_row operation scope v expected target payload ceiling actor i 0"]) (auto simp: admission_row_def)

lemma prepared_is_statement:
  assumes "prepare_admission aj generated operation scope ceiling role actor v expected predecessor = Inr p"
  shows "journal_statement (pd_ticket p)"
proof (rule prepared_ticket [OF assms])
  fix target
  assume a: "checked_add expected 1 = Some target"
    "pm_body (pd_ticket p) = open_batch (admission_body
       (admission_row operation scope v expected target (preview_bytes v) ceiling actor (identity_of_preview v)) (identity_of_preview v) predecessor)"
  show ?thesis unfolding journal_statement_def by (intro disjI1 exI conjI, rule a(2), rule admission_row_admits [OF a(1)])
qed

lemma transition_is_statement: "journal_statement (prepare_open_batch generated identity (transition_body operation s) n)"
  by (auto simp: journal_statement_def prepare_open_batch_def prepared_new_def)

lemma submit_batch_run:
  assumes o: "others_run jm" and s: "journal_statement (pd_ticket p)" and r: "submit_batch jm p w = (w', res)"
  shows "journal_run w w'"
proof -
  obtain p' v out where m: "submit_mutation (jm_env jm 4) (pd_ticket p) (jm_others jm 4 w) = (p', v, out)" by (metis prod_cases3)
  have v: "journal_run w v" by (rule submit_run [OF o s m])
  have "journal_run v w'" using r m
    by (auto simp: submit_batch_def split: mutation_outcome.splits storage_error.splits if_splits prod.splits
      dest: read_identical_run [OF o] current_generation_run [OF o] rate_used_run [OF o])
  with v show ?thesis by (rule rtranclp_trans)
qed

lemma try_reconcile_run:
  assumes o: "others_run jm" and r: "try_reconcile_ticket jm p w = (w', res)"
  shows "journal_run w w'"
proof -
  have v: "journal_run w (jm_others jm 0 w)" using o by (simp add: others_run_def)
  have "journal_run (jm_others jm 0 w) w'" using r
    by (auto simp: try_reconcile_ticket_def Let_def split: mutation_outcome.splits prod.splits dest: read_identical_run [OF o])
  with v show ?thesis by (rule rtranclp_trans)
qed

lemma submit_admission_run:
  assumes o: "others_run jm" and s: "journal_statement (pd_ticket p)" and r: "submit_admission jm p (aj, w) = ((aj', w'), res)"
  shows "journal_run w w'"
proof -
  obtain w1 r1 where 1: "try_reconcile_ticket jm p w = (w1, r1)" by fastforce
  obtain w2 r2 where 2: "submit_batch jm p w1 = (w2, r2)" by fastforce
  have runs: "journal_run w w1" "journal_run w1 w2" using try_reconcile_run [OF o 1] submit_batch_run [OF o s 2] by auto
  then have "journal_run w w2" by (rule rtranclp_trans)
  with runs show ?thesis using r 1 2 by (auto simp: submit_admission_def split: sum.splits option.splits)
qed

lemma transition_from_run:
  assumes o: "others_run jm" and r: "transition_from jm aj generated operation scope new a w = (w', res)"
  shows "journal_run w w'"
proof -
  let ?p = "prepare_open_batch generated (aj_identity aj) (transition_body operation new) (length (bd_text (transition_body operation new)))"
  obtain p' v out where m: "submit_mutation (jm_env jm 3) ?p (jm_others jm 3 w) = (p', v, out)" by (metis prod_cases3)
  have v: "journal_run w v" by (rule submit_run [OF o transition_is_statement m])
  have "journal_run v w'" if "\<not> (am_lifecycle a = LTerminal \<and> new \<noteq> LTerminal)" "am_lifecycle a \<noteq> new"
    using r m that by (auto simp: transition_from_def Let_def split: mutation_outcome.splits dest: journal_read_row_run [OF o])
  with v have "\<not> (am_lifecycle a = LTerminal \<and> new \<noteq> LTerminal) \<Longrightarrow> am_lifecycle a \<noteq> new \<Longrightarrow> journal_run w w'"
    by (meson rtranclp_trans)
  then show ?thesis using r by (auto simp: transition_from_def split: if_splits)
qed

lemma transition_run_of:
  assumes o: "others_run jm" and r: "transition jm aj generated operation scope new w = (w', res)"
  shows "journal_run w w'"
proof -
  obtain w1 r1 where 1: "journal_read_row jm 0 operation scope w = (w1, r1)" by fastforce
  have "journal_run w w1" by (rule journal_read_row_run [OF o 1])
  moreover have "journal_run w1 w'" using r 1
    by (auto simp: transition_def split: sum.splits dest: transition_from_run [OF o])
  ultimately show ?thesis by (rule rtranclp_trans)
qed

end
