(* ===== verification/Journal_Examples.thy ===== *)
theory Journal_Examples
  imports Journal_Facts Accept_Tickets
begin

text \<open>
  A preview of twenty-one degrees for one air handler, made through the ordered checks of a seal, and the
  journal it is admitted to.
\<close>

definition action_example_scope :: trusted_scope where "action_example_scope = \<lparr>scope_text = ''scope-a''\<rparr>"

definition action_example_ops :: "(nat, nat) profile_ops" where
  "action_example_ops = \<lparr>po_ledger = (\<lambda>p l. Inr ()), po_parse = (\<lambda>ps. Inr (length ps)), po_verify = (\<lambda>p r. Inr ()), po_digest = show_nat\<rparr>"

definition action_example_sealed :: "nat seal_order" where
  "action_example_sealed = \<lparr>so_custody = True, so_decoded = True, so_reconstructed = True, so_profile = Some 1, so_ledger = Some ''ledger'',
     so_verified = True\<rparr>"

definition action_example_call :: "installed_id \<Rightarrow> preview_call" where
  "action_example_call target =
     \<lparr>pq_scope = action_example_scope, pq_equipment = ''ahu-1'', pq_binding = 1, pq_accepted = 1, pq_status = Valid, pq_ceiling = 2,
      pq_role = Publisher, pq_priority = Some 8, pq_object = \<lparr>ob_type = 2, ob_property = 85, ob_array = None\<rparr>,
      pq_unit = Known DegC, pq_requested = 0x4035000000000000, pq_wire = None, pq_aliases = [''sat''],
      pq_precondition = \<lparr>pc_observed = 0, pc_now = 0\<rparr>, pq_release_target = target, pq_release_admitted = False\<rparr>"

definition action_example_setpoint :: encoded_setpoint where
  "action_example_setpoint = \<lparr>es_requested = 0x4035000000000000, es_wire_bits = 0x41A80000, es_wire = 0x4035000000000000, es_rounding = 0,
     es_note = mask_note\<rparr>"

definition action_example_preview :: "installed_id \<Rightarrow> preview" where
  "action_example_preview target =
     \<lparr>pw_target = \<lparr>at_scope = action_example_scope, at_equipment = ''ahu-1'', at_binding = 1, at_accepted = 1\<rparr>, pw_priority = 8,
      pw_object = \<lparr>ob_type = 2, ob_property = 85, ob_array = None\<rparr>, pw_unit = Known DegC, pw_encoded = action_example_setpoint,
      pw_timing = timing_synthetic, pw_age = 0, pw_feedback = pv_readback,
      pw_array = \<lparr>pa_priority = 8, pa_present = Some 0x4035000000000000, pa_relinquish = 0x4035000000000000\<rparr>,
      pw_release = \<lparr>rp_target = target, rp_admitted = False\<rparr>, pw_seal_verified = True, pw_seal_digest = Some ''1''\<rparr>"

lemma action_example_encoded: "setpoint_new 0x4035000000000000 = Inr action_example_setpoint"
proof -
  have c: "float_convert f64 f32 0x4035000000000000 = 0x41A80000" "float_convert f32 f64 0x41A80000 = 0x4035000000000000"
      "float_distance f64 0x4035000000000000 0x4035000000000000 = 0"
    by code_simp+
  have b: "float_finite f64 0x4035000000000000" "in_range_c 0x4035000000000000" "float_le f64 0 tolerance_c"
    by code_simp+
  show ?thesis by (simp add: setpoint_new_def setpoint_build_def Let_def c b action_example_setpoint_def)
qed

lemma action_example_numbers: "show_word (1 :: u32) = ''1''" "show_word (8 :: u8) = ''8''" "show_word (2 :: u16) = ''2''" "show_word (85 :: u32) = ''85''"
    "show_word (900 :: u64) = ''900''" "show_word (5 :: u64) = ''5''" "show_word (0 :: u8) = ''0''" "show_nat 0 = ''0''"
    "show_nat 21 = ''21''"
  by code_simp+

lemma action_example_decimals: "show_fixed f64 4 0x4035000000000000 = ''21.0000''"
proof -
  have v: "half_even (\<bar>float_units f64 0x4035000000000000\<bar> * 10 ^ 4) (2 ^ nat (- float_least f64)) = 210000" by code_simp
  have n: "\<not> float_negative f64 0x4035000000000000" by code_simp
  have z: "replicate 3 (CHR ''0'') = ''000''" by (simp add: numeral_3_eq_3)
  show ?thesis unfolding show_fixed_def v using n z by (simp add: Let_def action_example_numbers pad_zeros_def)
qed

lemma action_example_one: "show_nat (Suc 0) = ''1''"
  by code_simp

lemma action_example_previews: "make_preview action_example_ops (action_example_call target) action_example_sealed = Inr (action_example_preview target)"
  by (simp add: make_preview_def action_example_call_def action_example_preview_def action_example_encoded preview_check_access_def required_publish_ceiling_def
      accepted_target_new_def action_example_scope_def priority_from_option_def priority_new_def max_priority_def check_commissioned_def
      protected_max_def commissioned_priority_def check_commandable_def object_analog_value_def prop_present_value_def check_scalar_def
      check_unit_def alias_set_new_def check_fresh_def age_secs_def precondition_max_age_secs_def so_availability_def action_example_sealed_def
      so_is_verified_def so_ledger_digest_def action_example_ops_def action_example_setpoint_def action_example_one)

definition action_example_payload :: string where
  "action_example_payload = ''verdant-preview-v1|scope-a|ahu-1|1|1|p8|av2:pv85|degC|21.0000|priority-8-masks-9-16-masked-by-1-7|900s|5s|r0|age0|unavailable-feedback|null-relinquish''"

lemma action_example_bytes: "preview_bytes (action_example_preview target) = action_example_payload"
  by (simp add: preview_bytes_def action_example_preview_def action_example_payload_def preview_format_def action_example_scope_def
      action_example_setpoint_def mask_note_def timing_synthetic_def duration_secs_def deadline_secs_def apdu_retries_def pv_readback_def
      feedback_unavailable_def release_on_expiry_def action_example_numbers action_example_decimals)

definition example_action_journal :: action_journal where
  "example_action_journal = \<lparr>aj_identity = ''store-a'', aj_bounds = store_bounds_tiny, aj_essential = handoff_new 64, aj_history = handoff_new 1\<rparr>"

definition action_example_identity :: "installed_id \<Rightarrow> action_identity" where
  "action_example_identity target = \<lparr>ai_wire_bits = 0x41A80000, ai_kind = SetAction, ai_release = False, ai_target = target\<rparr>"

lemma action_example_identity_of: "identity_of_preview (action_example_preview target) = action_example_identity target"
  by (simp add: identity_of_preview_def action_example_preview_def action_example_setpoint_def action_example_identity_def action_kind_of_def)

definition example_admitted_row :: "operation_id \<Rightarrow> installed_id \<Rightarrow> int \<Rightarrow> journal_row" where
  "example_admitted_row operation target now =
     \<lparr>jr_operation = operation, jr_scope = ''scope-a'', jr_equipment = ''ahu-1'', jr_binding = 1, jr_accepted = 1, jr_expected = 0,
      jr_target = 1, jr_payload = action_example_payload, jr_deadline = 5, jr_ceiling = 2, jr_actor = ''operator-a'', jr_attempt = operation,
      jr_created = now, jr_wire = Some 0x41A80000, jr_kind = Some SetAction, jr_release = Some False, jr_release_target = Some target\<rparr>"

definition action_example_ticket :: "operation_id \<Rightarrow> installed_id \<Rightarrow> journal_db prepared" where
  "action_example_ticket operation target =
     admission_ticket ''store-a'' ''generated-1'' operation (example_admitted_row operation target) (action_example_identity target) None action_example_payload"

definition action_example_pending :: "operation_id \<Rightarrow> installed_id \<Rightarrow> pending_admission" where
  "action_example_pending operation target =
     \<lparr>pd_operation = operation, pd_scope = action_example_scope, pd_equipment = ''ahu-1'', pd_binding = 1, pd_accepted = 1, pd_expected = 0,
      pd_target = 1, pd_payload = action_example_payload, pd_identity = action_example_identity target, pd_deadline = 5, pd_ceiling = 2,
      pd_actor = ''operator-a'', pd_predecessor = None, pd_ticket = action_example_ticket operation target\<rparr>"

lemma action_example_actor: "writer_check_actor ''operator-a'' = Inr ''operator-a''"
  by (simp add: writer_check_actor_def actor_char_def is_ascii_alphanumeric_def is_ascii_digit_def)

lemma action_example_payload_length: "0 < length action_example_payload" "length action_example_payload \<le> 256"
  by (simp_all add: action_example_payload_def)

lemma action_example_prepared:
  "prepare_admission example_action_journal ''generated-1'' operation action_example_scope 2 Publisher ''operator-a'' (action_example_preview target) 0 None =
     Inr (action_example_pending operation target)"
proof -
  have row: "admission_row operation action_example_scope (action_example_preview target) 0 1 action_example_payload 2 ''operator-a'' (action_example_identity target) =
      example_admitted_row operation target"
    by (rule ext) (simp add: admission_row_def action_example_preview_def action_example_scope_def example_admitted_row_def action_example_identity_def
        timing_synthetic_def deadline_secs_def)
  have check: "check_preview (action_example_preview target) = Inr ()"
    by (simp add: check_preview_def action_example_preview_def timing_synthetic_def action_kind_of_def)
  have "action_example_payload \<noteq> []" using action_example_payload_length(1) by auto
  then show ?thesis using action_example_payload_length(2)
    by (simp add: prepare_admission_def writer_check_ceiling_def required_publish_ceiling_def action_example_actor check action_example_bytes
        action_example_identity_of checked_add_def row Let_def action_example_pending_def action_example_ticket_def example_action_journal_def
        store_bounds_tiny_def not_less)
      (simp add: action_example_preview_def timing_synthetic_def deadline_secs_def)
qed

definition example_journal_db :: "operation_id \<Rightarrow> installed_id \<Rightarrow> journal_db" where
  "example_journal_db operation target =
     (journal_empty (\<lambda>_. 1000))\<lparr>jd_rows := [example_admitted_row operation target 1000], jd_targets := [((''scope-a'', ''ahu-1''), 1)],
        jd_lifecycle := [\<lparr>lc_operation = operation, lc_attempt = operation, lc_state = LAdmitted, lc_updated = 1000, lc_predecessor = None\<rparr>]\<rparr>"

lemma example_admission_runs:
  "bd_run (pm_body (action_example_ticket operation target)) (journal_empty (\<lambda>_. 1000)) = Inr (example_journal_db operation target, [[show_int 1], [''1'']])"
  by (simp add: action_example_ticket_def admission_ticket_def with_operation_def prepare_open_batch_def prepared_new_def open_batch_def
      admission_body_def admission_run_def Let_def example_admitted_row_def journal_empty_def target_generation_of_def rate_count_def
      rate_max_per_hour_def journal_of_def lifecycle_of_def upsert_target_def example_journal_db_def)

definition example_journal_world :: "operation_id \<Rightarrow> installed_id \<Rightarrow> journal_db world" where
  "example_journal_world operation target =
     \<lparr>wd_data = example_journal_db operation target,
      wd_receipts = [(operation, request_of (action_example_ticket operation target), encode_response [[show_int 1], [''1'']])]\<rparr>"

definition action_example_start :: "journal_db world" where
  "action_example_start = \<lparr>wd_data = journal_empty (\<lambda>_. 1000), wd_receipts = []\<rparr>"

lemma action_example_submits:
  "submit_mutation (example_environment CommitDone) (action_example_ticket operation target) action_example_start =
     ((action_example_ticket operation target)\<lparr>pm_attempted := True\<rparr>, example_journal_world operation target,
      MCommitted operation [[show_int 1], [''1'']])"
proof -
  have p: "pm_store (action_example_ticket operation target) = ''store-a''" "pm_shape (action_example_ticket operation target) = ShapeInsert"
      "pm_payload (action_example_ticket operation target) \<le> 65536" "pm_operation (action_example_ticket operation target) = operation"
    using action_example_payload_length(2)
    by (simp_all add: action_example_ticket_def admission_ticket_def with_operation_def prepare_open_batch_def prepared_new_def)
  show ?thesis
    using undisturbed_submits [OF p(1-3), of action_example_start "example_journal_db operation target" 1] example_admission_runs p(4)
    by (simp add: action_example_start_def example_journal_world_def in_i64_def)
qed

lemma example_admits_row: "admits (example_admitted_row operation target)"
  unfolding admits_def
  by (intro exI [of _ "example_admitted_row operation target 0"]) (auto simp: example_admitted_row_def checked_add_def)

lemma example_statement_ok: "journal_statement (action_example_ticket operation target)"
  unfolding journal_statement_def
  by (rule disjI1) (auto simp: action_example_ticket_def admission_ticket_def with_operation_def prepare_open_batch_def prepared_new_def
      intro: example_admits_row)

lemma example_journal_run: "journal_run action_example_start (example_journal_world operation target)"
  by (rule r_into_rtranclp, rule journal_step.request [OF example_statement_ok action_example_submits])

section \<open>An admission that nothing disturbs\<close>

definition calm_moments :: journal_moments where
  "calm_moments = \<lparr>jm_env = (\<lambda>_. example_environment CommitDone), jm_others = (\<lambda>_ w. w)\<rparr>"

lemma calm_others: "others_run calm_moments"
  by (simp add: others_run_def calm_moments_def)

lemma calm_query: "journal_query calm_moments k q w = (w, Inr (q (wd_data w)))"
  by (simp add: journal_query_def calm_moments_def query_rows_def example_environment_def failing_def Let_def)

lemma example_row_reads:
  assumes "id_ok operation" "id_ok target" "target \<noteq> ''NULL''"
  shows "journal_read_row calm_moments k operation action_example_scope (example_journal_world operation target) =
    (example_journal_world operation target,
     Inr (admitted_of (example_admitted_row operation target 1000) (example_journal_db operation target) action_example_scope))"
proof -
  let ?r = "example_admitted_row operation target 1000" let ?d = "example_journal_db operation target"
  have "id_ok ''ahu-1''" by (simp add: id_ok_def max_id_len_def id_char_def is_ascii_alphanumeric_def is_ascii_digit_def)
  moreover have "action_example_payload \<noteq> []" using action_example_payload_length(1) by auto
  ultimately have "journal_row_ok ?r" using assms
    by (simp add: journal_row_ok_def example_admitted_row_def max_accepted_def checked_add_def deadline_secs_def action_example_actor in_i64_def)
  moreover have "lifecycle_predecessor operation ?d = None"
    by (simp add: lifecycle_predecessor_def lifecycle_of_def example_journal_db_def)
  ultimately have d: "journal_decode_row (row_texts ?r @ identity_texts ?r @ lifecycle_texts ?r ?d) action_example_scope =
      Inr (admitted_of ?r ?d action_example_scope)"
    by (intro journal_row_reads_back) (simp_all add: example_admitted_row_def action_example_scope_def)
  have q: "read_query operation action_example_scope ?d = [row_texts ?r @ identity_texts ?r @ lifecycle_texts ?r ?d]"
    by (simp add: read_query_def scoped_rows_def example_journal_db_def example_admitted_row_def action_example_scope_def)
  have "length (row_texts ?r @ identity_texts ?r @ lifecycle_texts ?r ?d) = 20"
    by (simp add: row_texts_def identity_texts_def lifecycle_texts_def)
  then show ?thesis
    by (simp only: journal_read_row_def calm_query example_journal_world_def world.simps q prod.case sum.case first_row_def list.case d) simp
qed

lemma example_admits:
  assumes "id_ok operation" "id_ok target" "target \<noteq> ''NULL''"
  obtains aj where "admit calm_moments ''generated-1'' operation action_example_scope 2 Publisher ''operator-a'' (action_example_preview target) 0 None
      (example_action_journal, action_example_start) =
    ((aj, example_journal_world operation target),
     Inr (admitted_of (example_admitted_row operation target 1000) (example_journal_db operation target) action_example_scope))"
    "aj_essential aj = snd (announce (admitted_of (example_admitted_row operation target 1000) (example_journal_db operation target)
       action_example_scope) (handoff_new 64))"
proof -
  let ?p = "action_example_pending operation target"
  let ?a = "admitted_of (example_admitted_row operation target 1000) (example_journal_db operation target) action_example_scope"
  have queues: "aj_essential example_action_journal = handoff_new 64" "aj_history example_action_journal = handoff_new 1"
    by (simp_all add: example_action_journal_def)
  have store: "pm_store (action_example_ticket operation target) = ''store-a''" "pm_operation (action_example_ticket operation target) = operation"
    by (simp_all add: action_example_ticket_def admission_ticket_def with_operation_def prepare_open_batch_def prepared_new_def)
  have "reconcile_mutation (example_environment CommitDone) (action_example_ticket operation target) action_example_start =
      MNotCommitted operation no_receipt"
    by (simp add: reconcile_mutation_def receipt_of_def failing_def Let_def example_environment_def action_example_start_def store)
  then have "try_reconcile_ticket calm_moments ?p action_example_start = (action_example_start, Inr None)"
    by (simp add: try_reconcile_ticket_def calm_moments_def action_example_pending_def)
  moreover have "require_identical ?p (?a\<lparr>am_reconciled := False\<rparr>) = Inr ()" "?a\<lparr>am_reconciled := False\<rparr> = ?a"
    by (simp_all add: require_identical_def admitted_of_def action_example_pending_def example_admitted_row_def action_example_identity_def
        lifecycle_predecessor_def lifecycle_of_def example_journal_db_def)
  then have "read_identical calm_moments 5 ?p False (example_journal_world operation target) = (example_journal_world operation target, Inr ?a)"
    using example_row_reads [OF assms, of 5]
    by (simp add: read_identical_def action_example_pending_def)
  then have "submit_batch calm_moments ?p action_example_start = (example_journal_world operation target, Inr ?a)"
    using action_example_submits [of operation target]
    by (simp add: submit_batch_def calm_moments_def action_example_pending_def)
  ultimately show thesis
    by (intro that [of "example_action_journal\<lparr>aj_essential := snd (announce ?a (handoff_new 64)), aj_history := snd (announce (journal_note ?a) (handoff_new 1))\<rparr>"])
      (simp_all add: admit_def action_example_prepared submit_admission_def queues)
qed

end
