(* ===== verification/Preview_Properties.thy ===== *)
theory Preview_Properties
  imports Preview_Facts Journal_Examples
begin

text \<open>
  What a preview promises: its setpoint, what its seal stands on, and that its identity determines the action.
\<close>

section \<open>Bounds\<close>

lemma made_parts:
  assumes "make_preview po q s = Inr v"
  shows "pq_role q = Publisher \<and> required_publish_ceiling \<le> pq_ceiling q \<and> pw_priority v = 8 \<and>
    scope_text (at_scope (pw_target v)) = ''scope-a'' \<and> at_equipment (pw_target v) \<in> {''ahu-1'', ''vav-101''} \<and>
    pw_object v = \<lparr>ob_type = 2, ob_property = 85, ob_array = None\<rparr> \<and> unit_as_str (pw_unit v) = ''degC'' \<and> pw_age v \<le> 300 \<and>
    so_custody s \<and> so_decoded s \<and> so_reconstructed s"
    "pw_timing v = timing_synthetic" "pw_feedback v = pv_readback" "rp_target (pw_release v) = pq_release_target q"
  using assms by (cases "pq_object q",
      auto simp: make_preview_def preview_check_access_def accepted_target_new_def priority_from_option_def priority_new_def
        check_commissioned_def commissioned_priority_def check_commandable_def object_analog_value_def prop_present_value_def
        check_scalar_def check_unit_def check_fresh_def precondition_max_age_secs_def so_availability_def not_less
        split: role_kind.splits if_splits option.splits)+

lemma made_setpoint:
  assumes "make_preview po q s = Inr v"
  obtains wire where "setpoint_build (pq_requested q) wire = Inr (pw_encoded v)"
  using assms by (auto simp: make_preview_def setpoint_new_def setpoint_from_decoded_def split: option.splits)

text \<open>C8: A preview is only made for a publisher with a sufficient ceiling, at priority eight, on the scalar present value of an
  analog value in degrees, from a precondition of at most three hundred seconds and a seal that went through its
  order; the bits it puts on the wire are a single precision number from twenty to twenty-four, within half a unit in the last
  place of the wire value, which is within the tolerance of what was requested.\<close>

theorem preview_is_bounded:
  assumes "make_preview po q s = Inr v"
  shows "pq_role q = Publisher \<and> required_publish_ceiling \<le> pq_ceiling q \<and> pw_priority v = 8 \<and>
    scope_text (at_scope (pw_target v)) = ''scope-a'' \<and> at_equipment (pw_target v) \<in> {''ahu-1'', ''vav-101''} \<and>
    pw_object v = \<lparr>ob_type = 2, ob_property = 85, ob_array = None\<rparr> \<and> unit_as_str (pw_unit v) = ''degC'' \<and> pw_age v \<le> 300 \<and>
    so_custody s \<and> so_decoded s \<and> so_reconstructed s \<and>
    (\<exists>n. 20 * 2 ^ 19 \<le> n \<and> n \<le> 24 * 2 ^ 19 \<and> es_wire_bits (pw_encoded v) = 130 * 2 ^ 23 + n \<and>
       float_units f32 (es_wire_bits (pw_encoded v)) = n * 2 ^ 130 \<and>
       \<bar>n * 2 ^ 1055 - float_units f64 (es_wire (pw_encoded v))\<bar> \<le> 2 ^ 1054 \<and>
       \<bar>float_units f64 (es_wire (pw_encoded v)) - float_units f64 (pq_requested q)\<bar> \<le> float_units f64 tolerance_c)"
proof -
  obtain wire where w: "setpoint_build (pq_requested q) wire = Inr (pw_encoded v)" by (rule made_setpoint [OF assms])
  obtain n where n: "20 * 2 ^ 19 \<le> n \<and> n \<le> 24 * 2 ^ 19 \<and> es_wire_bits (pw_encoded v) = 130 * 2 ^ 23 + n \<and>
      float_units f32 (es_wire_bits (pw_encoded v)) = n * 2 ^ 130 \<and> es_wire (pw_encoded v) = wire \<and>
      es_requested (pw_encoded v) = pq_requested q \<and> \<bar>n * 2 ^ 1055 - float_units f64 wire\<bar> \<le> 2 ^ 1054 \<and>
      \<bar>float_units f64 wire - float_units f64 (pq_requested q)\<bar> \<le> float_units f64 tolerance_c"
    using setpoint_built [OF w] by blast
  have "\<exists>n. 20 * 2 ^ 19 \<le> n \<and> n \<le> 24 * 2 ^ 19 \<and> es_wire_bits (pw_encoded v) = 130 * 2 ^ 23 + n \<and>
       float_units f32 (es_wire_bits (pw_encoded v)) = n * 2 ^ 130 \<and>
       \<bar>n * 2 ^ 1055 - float_units f64 (es_wire (pw_encoded v))\<bar> \<le> 2 ^ 1054 \<and>
       \<bar>float_units f64 (es_wire (pw_encoded v)) - float_units f64 (pq_requested q)\<bar> \<le> float_units f64 tolerance_c"
    using n by (intro exI [of _ n]) (elim conjE, simp only: simp_thms)
  then show ?thesis using made_parts(1) [OF assms] by simp
qed

theorem preview_is_bounded_witness:
  "\<exists>v n. make_preview action_example_ops (action_example_call ''ahu-1'') action_example_sealed = Inr v \<and> pw_priority v = 8 \<and>
     es_wire_bits (pw_encoded v) = 130 * 2 ^ 23 + n \<and> 20 * 2 ^ 19 \<le> n \<and> n \<le> 24 * 2 ^ 19"
  using preview_is_bounded [OF action_example_previews [of "''ahu-1''"]] action_example_previews [of "''ahu-1''"] by blast

section \<open>Seals\<close>

text \<open>C9: The order of a seal, after any sequence of checks in any order: when it is available and holds a profile, that profile
  was taken into custody with a ledger it accepts, and after that, with no other profile taken since, there were a
  decoding and then a reconstruction of this very profile, each as a mark or as a check that it passed; when the seal counts
  as verified, it holds a profile, and the reconstruction was a report that this profile verified. No step that was made for
  an earlier profile, or before any was held, is carried over.\<close>

theorem seal_order_evidence:
  assumes "so_availability (so_run po ops seal_order_new) = Inr ()"
  shows "(so_is_verified (so_run po ops seal_order_new) \<longrightarrow> so_profile (so_run po ops seal_order_new) \<noteq> None) \<and>
    (\<forall>p. so_profile (so_run po ops seal_order_new) = Some p \<longrightarrow>
       (\<exists>before ledger after. ops = before @ SoCustodyWith p ledger # after \<and> po_ledger po p ledger = Inr () \<and>
          (\<forall>q ledger'. SoCustodyWith q ledger' \<in> set after \<longrightarrow> po_ledger po q ledger' = Inr () \<longrightarrow> q = p) \<and>
          in_turn (so_decodes po p) (so_reconstructs po p) after \<and>
          (so_is_verified (so_run po ops seal_order_new) \<longrightarrow> in_turn (so_decodes po p) (so_verifies po p) after)))"
proof -
  let ?s = "so_run po ops seal_order_new"
  have b: "so_backed po ops ?s" by (rule so_run_backed)
  have f: "so_decoded ?s" "so_reconstructed ?s" using assms by (auto simp: so_availability_def split: if_splits)
  have v: "so_is_verified ?s \<Longrightarrow> so_verified ?s \<and> so_profile ?s \<noteq> None" using b by (auto simp: so_is_verified_def so_backed_def)
  show ?thesis
  proof (intro conjI allI impI)
    show "so_profile ?s \<noteq> None" if "so_is_verified ?s" using v [OF that] by blast
    fix p assume "so_profile ?s = Some p"
    with b obtain before ledger after where "ops = before @ SoCustodyWith p ledger # after" "po_ledger po p ledger = Inr ()"
        "so_since po p after ?s"
      unfolding so_backed_def by blast
    with f v show "\<exists>before ledger after. ops = before @ SoCustodyWith p ledger # after \<and> po_ledger po p ledger = Inr () \<and>
          (\<forall>q ledger'. SoCustodyWith q ledger' \<in> set after \<longrightarrow> po_ledger po q ledger' = Inr () \<longrightarrow> q = p) \<and>
          in_turn (so_decodes po p) (so_reconstructs po p) after \<and>
          (so_is_verified ?s \<longrightarrow> in_turn (so_decodes po p) (so_verifies po p) after)"
      unfolding so_since_def by blast
  qed
qed

theorem seal_order_evidence_witness:
  "\<exists>p after. so_profile (so_run action_example_ops [SoCustodyWith 1 ''ledger'', SoDecodeWith [''payload''], SoReconstructWith 7] seal_order_new) = Some p \<and>
     in_turn (so_decodes action_example_ops p) (so_verifies action_example_ops p) after"
proof -
  let ?ops = "[SoCustodyWith 1 ''ledger'', SoDecodeWith [''payload''], SoReconstructWith 7]"
  let ?s = "so_run action_example_ops ?ops seal_order_new"
  have s: "so_availability ?s = Inr ()" "so_is_verified ?s"
    by (simp_all add: so_availability_def so_is_verified_def so_check_custody_with_def so_decode_with_def so_reconstruct_with_def rebind_custody_def
        subject_changed_def seal_order_new_def action_example_ops_def Let_def)
  from seal_order_evidence [OF s(1)] s(2) show ?thesis by blast
qed

text \<open>
  The mark that stands for a decoding is enough between the other two checks: a seal whose payloads were never decoded
  counts as verified, although the code's documentation says that only the three checks yield it.
\<close>

lemma marker_decode_is_verified:
  assumes "po_ledger po p ledger = Inr ()" "po_verify po p report = Inr ()"
  shows "so_is_verified (so_run po [SoCustodyWith p ledger, SoDecode, SoReconstructWith report] seal_order_new)"
  using assms by (simp add: so_is_verified_def so_check_custody_with_def so_decode_def so_reconstruct_with_def rebind_custody_def
      subject_changed_def seal_order_new_def Let_def)

section \<open>Identity\<close>

lemma made_wire:
  assumes "make_preview po q s = Inr v"
  shows "0 \<le> es_wire_bits (pw_encoded v)" "es_wire_bits (pw_encoded v) < 2 ^ 32"
proof -
  obtain w where "setpoint_build (pq_requested q) w = Inr (pw_encoded v)" by (rule made_setpoint [OF assms])
  from setpoint_built [OF this] show "0 \<le> es_wire_bits (pw_encoded v)" "es_wire_bits (pw_encoded v) < 2 ^ 32" by auto
qed

definition bar :: char where "bar = CHR 0x7C"

text \<open>The identity is its fields between bars.\<close>

definition identity_fields :: "preview \<Rightarrow> string list" where
  "identity_fields v =
     [preview_format, ''bits'' @ show_hex8 (es_wire_bits (pw_encoded v)), ''kind:'' @ preview_action_kind v,
      ''rel:'' @ (if rp_admitted (pw_release v) then ''1'' else ''0'') @ '':'' @ rp_target (pw_release v), preview_format,
      scope_text (at_scope (pw_target v)), at_equipment (pw_target v), show_word (at_binding (pw_target v)),
      show_word (at_accepted (pw_target v)), ''p'' @ show_word (pw_priority v),
      ''av'' @ show_word (ob_type (pw_object v)) @ '':pv'' @ show_word (ob_property (pw_object v)), unit_as_str (pw_unit v),
      show_fixed f64 4 (es_wire (pw_encoded v)), mask_note, show_word (tg_duration (pw_timing v)) @ ''s'',
      show_word (tg_deadline (pw_timing v)) @ ''s'', ''r'' @ show_word (tg_retries (pw_timing v)), ''age'' @ show_nat (pw_age v),
      fp_status (pw_feedback v), release_on_expiry]"

lemma identity_joined: "preview_identity_bytes v = join_on bar (identity_fields v)"
  by (simp add: preview_identity_bytes_def preview_bytes_def identity_fields_def bar_def)

lemma upper_hex_bar: "d < 16 \<Longrightarrow> upper_hex_digit d \<noteq> bar" for d :: nat
  by (auto simp: upper_hex_digit_def byte_char_of bar_def simp flip: byte_eq_iff)

lemma upper_hex_inj: "d < 16 \<Longrightarrow> e < 16 \<Longrightarrow> upper_hex_digit d = upper_hex_digit e \<Longrightarrow> d = e" for d e :: nat
proof -
  assume d: "d < 16" "e < 16" "upper_hex_digit d = upper_hex_digit e"
  have b: "byte (upper_hex_digit x) = (if x < 10 then 48 + x else 55 + x)" if "x < 16" for x
    using that by (simp add: upper_hex_digit_def byte_char_of)
  have "(if d < 10 then 48 + d else 55 + d) = (if e < 10 then 48 + e else 55 + e)"
    using b [OF d(1)] b [OF d(2)] d(3) by argo
  then show ?thesis using d(1,2) by (cases "d < 10"; cases "e < 10") auto
qed

lemma show_word_inj: "show_word a = show_word b \<longleftrightarrow> a = b"
  by (simp add: show_word_def word_unat_eq_iff)

lemma hex8_plain [simp]: "bar \<notin> set (show_hex8 b)"
proof
  assume "bar \<in> set (show_hex8 b)"
  then obtain i where "bar = upper_hex_digit (nat (b div 16 ^ i mod 16))" unfolding show_hex8_def set_map by blast
  moreover have "upper_hex_digit (nat (b div 16 ^ i mod 16)) \<noteq> bar" by (rule upper_hex_bar) simp
  ultimately show False by simp
qed

lemma digits_determine:
  "(\<And>i. i < k \<Longrightarrow> a div 16 ^ i mod 16 = b div 16 ^ i mod 16) \<Longrightarrow> a mod 16 ^ k = b mod 16 ^ k" for a b :: int
proof (induction k)
  case (Suc k)
  have s: "x mod 16 ^ Suc k = 16 ^ k * (x div 16 ^ k mod 16) + x mod 16 ^ k" for x :: int
    using mod_mult2_eq' [of x "16 ^ k" 16] by (simp add: zmod_zmult2_eq mult.commute)
  show ?case unfolding s using Suc.IH Suc.prems less_SucI by (metis lessI)
qed simp

lemma hex8_inj:
  assumes "show_hex8 a = show_hex8 b" "0 \<le> a" "a < 2 ^ 32" "0 \<le> b" "b < 2 ^ 32"
  shows "a = b"
proof -
  have "a div 16 ^ i mod 16 = b div 16 ^ i mod 16" if "i < 8" for i
  proof -
    have "i \<in> set [7, 6, 5, 4, 3, 2, 1, 0]" using that by auto
    then have "upper_hex_digit (nat (a div 16 ^ i mod 16)) = upper_hex_digit (nat (b div 16 ^ i mod 16))"
      using assms(1) unfolding show_hex8_def map_eq_conv by blast
    moreover have "nat (x div 16 ^ i mod 16) < 16" for x :: int by simp
    ultimately have "nat (a div 16 ^ i mod 16) = nat (b div 16 ^ i mod 16)" using upper_hex_inj by blast
    then show ?thesis by (simp add: nat_eq_iff)
  qed
  then have "a mod 16 ^ 8 = b mod 16 ^ 8" by (rule digits_determine)
  then show ?thesis using assms(2-5) by simp
qed

lemma fixed_plain [simp]: "bar \<notin> set (show_fixed ff n bits)"
  by (auto simp: show_fixed_def Let_def pad_zeros_def bar_def is_ascii_digit_def)

lemma id_ok_bar: "id_ok s \<Longrightarrow> bar \<notin> set s"
  by (auto simp: id_ok_def list_all_iff id_char_def bar_def is_ascii_alphanumeric_def is_ascii_digit_def)

lemma number_plain [simp]: "bar \<notin> set (show_word w)" "bar \<notin> set (show_nat n)"
  by (simp_all add: bar_def is_ascii_digit_def)

lemma fields_plain:
  assumes "make_preview po q s = Inr v" "id_ok (pq_release_target q)"
  shows "\<forall>f \<in> set (identity_fields v). bar \<notin> set f"
proof -
  have plain: "bar \<notin> set preview_format" "bar \<notin> set mask_note" "bar \<notin> set feedback_unavailable" "bar \<notin> set release_on_expiry"
      "bar \<notin> set (preview_action_kind v)" "bar \<notin> set (at_equipment (pw_target v))"
    using made_parts(1) [OF assms(1)]
    by (auto simp: bar_def preview_format_def mask_note_def feedback_unavailable_def release_on_expiry_def preview_action_kind_def)
  have chars: "bar \<notin> set ''bits''" "bar \<notin> set ''kind:''" "bar \<notin> set ''rel:''" "bar \<notin> set ''0''" "bar \<notin> set ''1''" "bar \<notin> set '':''"
      "bar \<notin> set ''scope-a''" "bar \<notin> set ''p''" "bar \<notin> set ''av''" "bar \<notin> set '':pv''" "bar \<notin> set ''degC''" "bar \<notin> set ''s''"
      "bar \<notin> set ''r''" "bar \<notin> set ''age''"
    by (simp_all add: bar_def)
  have parts: "scope_text (at_scope (pw_target v)) = ''scope-a''" "unit_as_str (pw_unit v) = ''degC''" "fp_status (pw_feedback v) = feedback_unavailable"
      "rp_target (pw_release v) = pq_release_target q"
    using made_parts [OF assms(1)] by (simp_all add: pv_readback_def)
  have flag: "bar \<notin> set (if b then ''1'' else ''0'')" for b using chars(4,5) by (cases b) simp_all
  have all: "set (x # xs) = insert x (set xs)" for x and xs :: "string list" by simp
  show ?thesis unfolding identity_fields_def parts all ball_simps list.set(1)
    by (intro conjI TrueI) (simp_all only: set_append Un_iff plain chars flag hex8_plain number_plain fixed_plain id_ok_bar [OF assms(2)]
      HOL.simp_thms not_False_eq_True)
qed

text \<open>C40: The identity of a preview determines the action: two previews with the same identity put the same bits on the wire, are
  both sets or both releases of the same target, at the same revisions of the same equipment, and of the same age.\<close>

theorem preview_identity_determines:
  assumes "make_preview po q s = Inr v" "make_preview po' q' s' = Inr v'"
    and "id_ok (pq_release_target q)" "id_ok (pq_release_target q')" "preview_identity_bytes v = preview_identity_bytes v'"
  shows "es_wire_bits (pw_encoded v) = es_wire_bits (pw_encoded v') \<and> pw_release v = pw_release v' \<and> pw_target v = pw_target v' \<and>
    pw_age v = pw_age v' \<and> action_kind_of v = action_kind_of v'"
proof -
  have ne: "identity_fields v \<noteq> []" "identity_fields v' \<noteq> []" by (simp_all add: identity_fields_def)
  have "split_on bar (join_on bar (identity_fields v)) = split_on bar (join_on bar (identity_fields v'))"
    using assms(5) by (simp add: identity_joined)
  then have f: "identity_fields v = identity_fields v'"
    unfolding split_on_join [OF ne(1) fields_plain [OF assms(1,3)]] split_on_join [OF ne(2) fields_plain [OF assms(2,4)]] .
  then have i: "identity_fields v ! k = identity_fields v' ! k" for k by simp
  have "show_hex8 (es_wire_bits (pw_encoded v)) = show_hex8 (es_wire_bits (pw_encoded v'))" using i [of 1] by (simp add: identity_fields_def)
  then have bits: "es_wire_bits (pw_encoded v) = es_wire_bits (pw_encoded v')"
    by (rule hex8_inj) (simp_all only: made_wire [OF assms(1)] made_wire [OF assms(2)])
  have "rp_admitted (pw_release v) = rp_admitted (pw_release v') \<and> rp_target (pw_release v) = rp_target (pw_release v')"
    using i [of 3] by (simp add: identity_fields_def split: if_splits)
  then have rel: "pw_release v = pw_release v'" by simp
  have "scope_text (at_scope (pw_target v)) = scope_text (at_scope (pw_target v'))"
      "at_equipment (pw_target v) = at_equipment (pw_target v')" "at_binding (pw_target v) = at_binding (pw_target v')"
      "at_accepted (pw_target v) = at_accepted (pw_target v')" "pw_age v = pw_age v'"
    using i [of 5] i [of 6] i [of 7] i [of 8] i [of 17] by (simp_all add: identity_fields_def show_word_inj)
  then show ?thesis using bits rel by (simp add: action_kind_of_def)
qed

theorem preview_identity_determines_witness:
  "\<exists>v. make_preview action_example_ops (action_example_call ''ahu-1'') action_example_sealed = Inr v \<and>
     preview_identity_bytes v = preview_identity_bytes (action_example_preview ''ahu-1'') \<and>
     es_wire_bits (pw_encoded v) = es_wire_bits (pw_encoded (action_example_preview ''ahu-1''))"
proof -
  have "id_ok (pq_release_target (action_example_call ''ahu-1''))"
    by (simp add: action_example_call_def id_ok_def max_id_len_def id_char_def is_ascii_alphanumeric_def is_ascii_digit_def)
  from preview_identity_determines [OF action_example_previews action_example_previews this this refl] action_example_previews [of "''ahu-1''"]
  show ?thesis by blast
qed

end
