(* ===== verification/Journal_Properties.thy ===== *)
theory Journal_Properties
  imports Journal_Examples
begin

text \<open>
  What the action journal promises: generations of a target advance by one with each admission, an hour holds at most
  six set actions of a target, an admission that is reported is in the journal as it was asked for, and a
  terminal action stays terminal; and where the code falls short of what it means to do.
\<close>

section \<open>Histories\<close>

text \<open>C4: Whatever processes do with a journal, in any environment and at any clock, the admissions of a target
  carry the generations one, two, three and so on up to the current one, each admitted against the one before
  it, and no two admissions share an operation or a generation of their target.\<close>

theorem journal_generations:
  assumes "journal_run \<lparr>wd_data = journal_empty c, wd_receipts = []\<rparr> w"
  shows "map (\<lambda>r. unat (jr_target r)) (filter (at_target scope equipment) (jd_rows (wd_data w))) =
      [1..<Suc (unat (target_generation_of scope equipment (wd_data w)))] \<and>
    distinct (map jr_operation (jd_rows (wd_data w))) \<and>
    (\<forall>r \<in> set (jd_rows (wd_data w)). unat (jr_target r) = unat (jr_expected r) + 1) \<and>
    (\<forall>r \<in> set (jd_rows (wd_data w)). \<forall>r' \<in> set (jd_rows (wd_data w)).
       at_target scope equipment r \<and> at_target scope equipment r' \<and> jr_expected r = jr_expected r' \<longrightarrow> r = r')"
proof -
  have ok: "generations_ok (wd_data w)" "keys_ok (wd_data w)"
    using journal_reached_ok [OF assms] by (simp_all add: journal_ok_def)
  let ?rows = "filter (at_target scope equipment) (jd_rows (wd_data w))"
  have g: "map (\<lambda>r. unat (jr_target r)) ?rows = [1..<Suc (unat (target_generation_of scope equipment (wd_data w)))]"
    using ok(1) unfolding generations_ok_def generations_def by blast
  have step: "\<forall>r \<in> set (jd_rows (wd_data w)). unat (jr_target r) = unat (jr_expected r) + 1"
    using ok(2) checked_add_succ unfolding keys_ok_def by blast
  have "distinct (map (\<lambda>r. unat (jr_target r)) ?rows)" unfolding g by simp
  then have inj: "inj_on (\<lambda>r. unat (jr_target r)) (set ?rows)" by (simp only: distinct_map)
  have "r = r'" if "r \<in> set (jd_rows (wd_data w))" "r' \<in> set (jd_rows (wd_data w))" "at_target scope equipment r"
      "at_target scope equipment r'" "jr_expected r = jr_expected r'" for r r'
  proof (rule inj_onD [OF inj])
    show "unat (jr_target r) = unat (jr_target r')" using step that(1,2,5) by simp
  qed (use that in simp_all)
  with g step ok(2) show ?thesis unfolding keys_ok_def by blast
qed

theorem journal_generations_witness:
  "\<exists>w :: journal_db world. length (jd_rows (wd_data w)) = 1 \<and> map (\<lambda>r. unat (jr_target r)) (filter (at_target ''scope-a'' ''ahu-1'') (jd_rows (wd_data w))) =
     [1..<Suc (unat (target_generation_of ''scope-a'' ''ahu-1'' (wd_data w)))]"
proof -
  have run: "journal_run \<lparr>wd_data = journal_empty (\<lambda>_. 1000), wd_receipts = []\<rparr> (example_journal_world ''op-1'' ''ahu-1'')"
    using example_journal_run by (simp add: action_example_start_def)
  have "length (jd_rows (wd_data (example_journal_world ''op-1'' ''ahu-1''))) = 1"
    by (simp add: example_journal_world_def example_journal_db_def)
  with journal_generations [OF run, of "''scope-a''" "''ahu-1''"] show ?thesis by blast
qed

text \<open>C12: The hourly limit: no more than six set actions of one target are within any span of an hour less slip seconds,
  whatever processes do with the journal, in any environment and however the clock moves between their batches, as
  long as it steps back by no more than slip seconds between the two readings that one batch takes for its guard and
  for its row. With no such step the span is the full hour of the limit; the batch does not exclude such steps.\<close>

theorem set_rate_is_bounded:
  assumes "slips_within slip (journal_empty c)" "slipping_run slip \<lparr>wd_data = journal_empty c, wd_receipts = []\<rparr> w"
  shows "length (filter (set_within scope equipment (3600 - slip) until) (jd_rows (wd_data w))) \<le> 6"
  using slipping_run_rated [OF assms(2)] journal_empty_rated [OF assms(1)]
  by (auto simp: rated_def rates_within_def rate_max_per_hour_def rate_window_secs_def)

theorem set_rate_is_bounded_witness:
  "\<exists>w :: journal_db world. filter (set_within ''scope-a'' ''ahu-1'' 3600 1000) (jd_rows (wd_data w)) \<noteq> [] \<and>
     length (filter (set_within ''scope-a'' ''ahu-1'' 3600 1000) (jd_rows (wd_data w))) \<le> 6"
proof -
  let ?w = "example_journal_world ''op-1'' ''ahu-1''"
  have c: "slips_within 0 (journal_empty (\<lambda>_. 1000))" "slips_within 0 (wd_data ?w)"
    by (simp_all add: slips_within_def journal_empty_def example_journal_world_def example_journal_db_def)
  have "journal_step \<lparr>wd_data = journal_empty (\<lambda>_. 1000), wd_receipts = []\<rparr> ?w"
    by (rule journal_step.request [OF example_statement_ok action_example_submits [unfolded action_example_start_def]])
  with c(2) have run: "slipping_run 0 \<lparr>wd_data = journal_empty (\<lambda>_. 1000), wd_receipts = []\<rparr> ?w" by (intro r_into_rtranclp conjI)
  have "filter (set_within ''scope-a'' ''ahu-1'' 3600 1000) (jd_rows (wd_data ?w)) \<noteq> []"
    by (simp add: example_journal_world_def example_journal_db_def example_admitted_row_def set_within_def at_target_def)
  with set_rate_is_bounded [OF c(1) run, of "''scope-a''" "''ahu-1''" 1000] show ?thesis by (auto simp only: diff_zero)
qed

section \<open>Admissions\<close>

text \<open>What is read back as an admission is the row of its operation and scope.\<close>

lemma wr_id_Inr [simp]: "wr_id kind what raw = Inr s \<longleftrightarrow> s = raw \<and> id_ok raw"
  by (auto simp: wr_id_def map_err_def split: sum.splits)

lemma decoded_parts:
  assumes "journal_decode_row row scope = Inr a"
  shows "am_payload a = row ! 7 \<and> am_operation a = row ! 0 \<and> row ! 1 = scope_text scope \<and> \<not> am_reconciled a"
proof -
  have base: "am_payload b = row ! 7 \<and> am_operation b = row ! 0 \<and> row ! 1 = scope_text scope \<and> \<not> am_reconciled b"
    if "decode_base row scope = Inr b" for b
    using that by (auto simp: decode_base_def split: if_splits)
  have ident: "am_payload c = am_payload b \<and> am_operation c = am_operation b \<and> am_reconciled c = am_reconciled b"
    if "decode_identity row b = Inr c" for b c
    using that by (auto simp: decode_identity_def Let_def split: if_splits)
  have joined: "am_payload c = am_payload b \<and> am_operation c = am_operation b \<and> am_reconciled c = am_reconciled b"
    if "decode_joined row b = Inr c" for b c
    using that by (auto simp: decode_joined_def)
  obtain b where b: "decode_base row scope = Inr b" "a = b \<or> (\<exists>c. decode_identity row b = Inr c \<and> (a = c \<or> decode_joined row c = Inr a))"
    using assms by (auto simp: journal_decode_row_def split: if_splits)
  from b(2) have "am_payload a = am_payload b \<and> am_operation a = am_operation b \<and> am_reconciled a = am_reconciled b"
    using ident joined by metis
  with base [OF b(1)] show ?thesis by simp
qed

lemma decoded_twenty:
  assumes "length row = 20" "journal_decode_row row scope = Inr a"
  obtains b c where "decode_identity row b = Inr c" "decode_joined row c = Inr a"
  using assms by (auto simp: journal_decode_row_def)

lemma query_texts:
  assumes "row \<in> set (read_query operation scope d) \<union> set (read_query_17 operation scope d) \<union> set (read_query_13 operation scope d)"
  obtains r where "r \<in> set (jd_rows d)" "jr_operation r = operation" "jr_scope r = scope_text scope" "row ! 7 = jr_payload r"
  using assms by (auto simp: read_query_def read_query_17_def read_query_13_def scoped_rows_def row_texts_def)

lemma first_row_source:
  assumes "first_row operation scope rows = Inr a"
  obtains row where "row \<in> set rows" "journal_decode_row row scope = Inr a"
  using assms by (auto simp: first_row_def split: list.splits if_splits)

lemma read_row_source:
  assumes o: "others_run jm" and r: "journal_read_row jm k operation scope w = (w', Inr a)" and ok: "journal_ok (wd_data w)"
  obtains r where "r \<in> set (jd_rows (wd_data w'))" "jr_operation r = operation" "jr_scope r = scope_text scope"
    "am_payload a = jr_payload r" "\<not> am_reconciled a"
proof -
  obtain v rows where v: "w' = v" "first_row operation scope rows = Inr a"
      "rows = read_query operation scope (wd_data v) \<or> rows = read_query_17 operation scope (wd_data v) \<or> rows = read_query_13 operation scope (wd_data v)"
    using r by (auto simp: journal_read_row_def journal_query_def query_rows_def Let_def split: sum.splits if_splits prod.splits)
  obtain row where row: "row \<in> set rows" "journal_decode_row row scope = Inr a" by (rule first_row_source [OF v(2)])
  from decoded_parts [OF row(2)] have p: "am_payload a = row ! 7" "\<not> am_reconciled a" by auto
  have "row \<in> set (read_query operation scope (wd_data v)) \<union> set (read_query_17 operation scope (wd_data v)) \<union>
      set (read_query_13 operation scope (wd_data v))"
    using row(1) v(3) by auto
  then show thesis by (rule query_texts) (use that p v(1) in auto)
qed

lemma require_identical_ok:
  "require_identical p a = Inr () \<Longrightarrow> am_payload a = pd_payload p \<and> am_wire a = Some (ai_wire_bits (pd_identity p)) \<and>
     am_kind a = Some (ai_kind (pd_identity p)) \<and> am_release a = Some (ai_release (pd_identity p)) \<and>
     am_release_target a = Some (ai_target (pd_identity p)) \<and> am_predecessor a = pd_predecessor p"
  by (auto simp: require_identical_def split: if_splits option.splits)

lemma read_identical_source:
  assumes o: "others_run jm" and r: "read_identical jm k p b w = (w', Inr a)" and ok: "journal_ok (wd_data w)"
  obtains r where "r \<in> set (jd_rows (wd_data w'))" "jr_operation r = pd_operation p" "jr_scope r = scope_text (pd_scope p)"
    "jr_payload r = pd_payload p" "am_payload a = pd_payload p" "am_wire a = Some (ai_wire_bits (pd_identity p))"
    "am_kind a = Some (ai_kind (pd_identity p))" "am_release_target a = Some (ai_target (pd_identity p))"
    "am_predecessor a = pd_predecessor p" "am_reconciled a = b"
proof -
  obtain c where c: "journal_read_row jm k (pd_operation p) (pd_scope p) w = (w', Inr c)" "require_identical p (c\<lparr>am_reconciled := False\<rparr>) = Inr ()"
      "a = c\<lparr>am_reconciled := b\<rparr>"
    using r by (auto simp: read_identical_def split: prod.splits)
  obtain r where r: "r \<in> set (jd_rows (wd_data w'))" "jr_operation r = pd_operation p" "jr_scope r = scope_text (pd_scope p)"
      "am_payload c = jr_payload r" "\<not> am_reconciled c"
    by (rule read_row_source [OF o c(1) ok])
  from require_identical_ok [OF c(2)] show thesis by (intro that [of r]) (simp_all add: r(1-3) r(4) [symmetric] c(3))
qed

lemma submitted_source:
  assumes o: "others_run jm" and s: "journal_statement (pd_ticket p)" and ok: "journal_ok (wd_data w)"
    and r: "submit_admission jm p (aj, w) = ((aj', w'), Inr a)"
  obtains k b v where "journal_run w v" "journal_ok (wd_data v)" "read_identical jm k p b v = (w', Inr a)" "b \<longrightarrow> aj' = aj"
proof -
  obtain w1 r1 where 1: "try_reconcile_ticket jm p w = (w1, r1)" by fastforce
  have w0: "journal_run w (jm_others jm 0 w)" using o by (simp add: others_run_def)
  have ok0: "journal_ok (wd_data (jm_others jm 0 w))" using journal_run_keeps [OF w0 ok] by simp
  have run1: "journal_run w w1" by (rule try_reconcile_run [OF o 1])
  have ok1: "journal_ok (wd_data w1)" using journal_run_keeps [OF run1 ok] by simp
  show thesis
  proof (cases r1)
    case (Inl e)
    then show thesis using r 1 by (simp add: submit_admission_def)
  next
    case (Inr x)
    show thesis
    proof (cases x)
      case None
      obtain w2 r2 where 2: "submit_batch jm p w1 = (w2, r2)" by fastforce
      have res: "w' = w2" "r2 = Inr a" using r 1 2 Inr None by (auto simp: submit_admission_def split: sum.splits)
      obtain p' v out where m: "submit_mutation (jm_env jm 4) (pd_ticket p) (jm_others jm 4 w1) = (p', v, out)" by (metis prod_cases3)
      have runv: "journal_run w1 v" by (rule submit_run [OF o s m])
      have "read_identical jm 5 p False v = (w', Inr a)" using 2 m res
        by (auto simp: submit_batch_def split: mutation_outcome.splits storage_error.splits if_splits prod.splits sum.splits)
      moreover have "journal_run w v" using run1 runv by (rule rtranclp_trans)
      moreover have "journal_ok (wd_data v)" using journal_run_keeps [OF runv ok1] by simp
      ultimately show thesis using that by blast
    next
      case (Some y)
      have res: "w' = w1" "y = a" "aj' = aj" using r 1 Inr Some by (auto simp: submit_admission_def)
      have "read_identical jm 1 p True (jm_others jm 0 w) = (w', Inr a)" using 1 Inr Some res
        by (auto simp: try_reconcile_ticket_def Let_def split: mutation_outcome.splits prod.splits)
      then show thesis using that w0 ok0 res(3) by blast
    qed
  qed
qed

text \<open>C10: An admission that is reported, whatever other processes do meanwhile, was asked for by a publisher with a
  sufficient ceiling in the scope of the preview, is in the journal under its operation with the bytes of the
  preview, and is returned with exactly its wire bits, kind, release target and predecessor; a retry that finds it
  there announces nothing.\<close>

theorem admission_is_journalled:
  assumes "admit jm generated operation scope ceiling role actor v expected predecessor (aj, w) = ((aj', w'), Inr a)"
    and "others_run jm" "journal_ok (wd_data w)"
  shows "journal_run w w' \<and> role = Publisher \<and> required_publish_ceiling \<le> ceiling \<and> at_scope (pw_target v) = scope \<and>
    (\<exists>r \<in> set (jd_rows (wd_data w')). jr_operation r = operation \<and> jr_scope r = scope_text scope \<and>
       jr_payload r = preview_bytes v \<and> unat (jr_target r) = unat (jr_expected r) + 1) \<and>
    am_payload a = preview_bytes v \<and> am_wire a = Some (of_int (es_wire_bits (pw_encoded v))) \<and> am_kind a = Some (action_kind_of v) \<and>
    am_release_target a = Some (rp_target (pw_release v)) \<and> am_predecessor a = predecessor \<and> (am_reconciled a \<longrightarrow> aj' = aj)"
proof -
  obtain p where p: "prepare_admission aj generated operation scope ceiling role actor v expected predecessor = Inr p"
      "submit_admission jm p (aj, w) = ((aj', w'), Inr a)"
    using assms(1) by (auto simp: admit_def split: sum.splits)
  have s: "journal_statement (pd_ticket p)" by (rule prepared_is_statement [OF p(1)])
  have run: "journal_run w w'" by (rule submit_admission_run [OF assms(2) s p(2)])
  have keys: "keys_ok (wd_data w')" using journal_run_keeps [OF run assms(3)] by (simp add: journal_ok_def)
  obtain k b u where u: "journal_ok (wd_data u)" "read_identical jm k p b u = (w', Inr a)" "b \<longrightarrow> aj' = aj"
    by (rule submitted_source [OF assms(2) s assms(3) p(2)])
  obtain r where r: "r \<in> set (jd_rows (wd_data w'))" "jr_operation r = pd_operation p" "jr_scope r = scope_text (pd_scope p)"
    "jr_payload r = pd_payload p" "am_payload a = pd_payload p" "am_wire a = Some (ai_wire_bits (pd_identity p))"
    "am_kind a = Some (ai_kind (pd_identity p))" "am_release_target a = Some (ai_target (pd_identity p))"
    "am_predecessor a = pd_predecessor p" "am_reconciled a = b"
    by (rule read_identical_source [OF assms(2) u(2,1)])
  have step: "unat (jr_target r) = unat (jr_expected r) + 1" using keys r(1) checked_add_succ unfolding keys_ok_def by blast
  obtain target where t: "role = Publisher" "required_publish_ceiling \<le> ceiling" "at_scope (pw_target v) = scope"
      "pd_operation p = operation" "pd_scope p = scope" "pd_payload p = preview_bytes v" "pd_identity p = identity_of_preview v"
      "pd_predecessor p = predecessor"
    by (rule prepared_ticket [OF p(1)]) (rule that; assumption)
  show ?thesis using run t r step u(3) by (auto simp: identity_of_preview_def intro!: bexI [OF _ r(1)])
qed

theorem admission_is_journalled_witness:
  "\<exists>aj' w' a. admit calm_moments ''generated-1'' ''op-1'' action_example_scope 2 Publisher ''operator-a'' (action_example_preview ''ahu-1'') 0 None
      (example_action_journal, action_example_start) = ((aj', w'), Inr a) \<and> am_wire a = Some 0x41A80000 \<and> am_kind a = Some SetAction"
proof -
  have ids: "id_ok ''op-1''" "id_ok ''ahu-1''"
    by (simp_all add: id_ok_def max_id_len_def id_char_def is_ascii_alphanumeric_def is_ascii_digit_def)
  obtain aj where a: "admit calm_moments ''generated-1'' ''op-1'' action_example_scope 2 Publisher ''operator-a'' (action_example_preview ''ahu-1'') 0 None
      (example_action_journal, action_example_start) = ((aj, example_journal_world ''op-1'' ''ahu-1''),
     Inr (admitted_of (example_admitted_row ''op-1'' ''ahu-1'' 1000) (example_journal_db ''op-1'' ''ahu-1'') action_example_scope))"
    by (rule example_admits [OF ids]) auto
  have "journal_ok (wd_data action_example_start)" by (simp add: action_example_start_def journal_empty_ok)
  from admission_is_journalled [OF a calm_others this]
  have "am_wire (admitted_of (example_admitted_row ''op-1'' ''ahu-1'' 1000) (example_journal_db ''op-1'' ''ahu-1'') action_example_scope) = Some 0x41A80000"
    "am_kind (admitted_of (example_admitted_row ''op-1'' ''ahu-1'' 1000) (example_journal_db ''op-1'' ''ahu-1'') action_example_scope) = Some SetAction"
    by (simp_all add: action_example_preview_def action_example_setpoint_def action_kind_of_def)
  with a show ?thesis by blast
qed

text \<open>C39: What an admission writes is read back, when its identities are in form and neither its release target nor its
  predecessor is the text NULL (which reads back as no value): after the statement of a prepared admission ran, the
  row of its operation decodes into the admission with every field as it was prepared, in the state admitted, at the
  time that the engine's clock gave to the statement of the row.\<close>

theorem admission_reads_back:
  assumes "prepare_admission aj generated operation scope ceiling role actor v expected predecessor = Inr p"
    and "bd_run (pm_body (pd_ticket p)) d = Inr (d', rows)" "in_i64 (jd_clock d 1)"
    and "id_ok operation" "id_ok (at_equipment (pw_target v))" "at_accepted (pw_target v) \<le> max_accepted"
    and "id_ok (rp_target (pw_release v))" "rp_target (pw_release v) \<noteq> ''NULL''"
    and "predecessor = None \<or> (\<exists>o'. predecessor = Some o' \<and> id_ok o' \<and> o' \<noteq> ''NULL'')"
  shows "first_row operation scope (read_query operation scope d') =
    Inr \<lparr>am_row_id = 0, am_operation = operation, am_scope = scope, am_equipment = at_equipment (pw_target v),
      am_binding = at_binding (pw_target v), am_accepted = at_accepted (pw_target v), am_expected = expected, am_target = expected + 1,
      am_payload = preview_bytes v, am_deadline = 5, am_ceiling = ceiling, am_actor = actor, am_attempt = operation,
      am_reconciled = False, am_wire = Some (of_int (es_wire_bits (pw_encoded v))), am_kind = Some (action_kind_of v),
      am_release = Some (rp_admitted (pw_release v)), am_release_target = Some (rp_target (pw_release v)), am_lifecycle = LAdmitted,
      am_predecessor = predecessor, am_created = jd_clock d 1\<rparr>"
proof -
  obtain target where t: "checked_add expected 1 = Some target"
    "pm_body (pd_ticket p) = open_batch (admission_body
       (admission_row operation scope v expected target (preview_bytes v) ceiling actor (identity_of_preview v)) (identity_of_preview v) predecessor)"
    "writer_check_actor actor = Inr actor" "check_preview v = Inr ()" "preview_bytes v \<noteq> []"
    by (rule prepared_ticket [OF assms(1)]) (rule that; assumption)
  let ?row = "admission_row operation scope v expected target (preview_bytes v) ceiling actor (identity_of_preview v)"
  have "admission_run ?row predecessor d = Inr (d', rows)" using assms(2) t(2) by (simp add: open_batch_def admission_body_def)
  then obtain r where r: "r = ?row (jd_clock d 1)" "jd_rows d' = jd_rows d @ [r]" "journal_of (jr_operation r) d = None"
      "lifecycle_of (jr_operation r) d = None" "jr_deadline r = 5"
      "jd_lifecycle d' = jd_lifecycle d @ [\<lparr>lc_operation = jr_operation r, lc_attempt = jr_attempt r,
        lc_state = LAdmitted, lc_updated = jd_clock d 2, lc_predecessor = predecessor\<rparr>]"
    by (rule admission_run_cases) (rule that; assumption)
  have op: "jr_operation r = operation" "jr_scope r = scope_text scope" by (simp_all add: r(1) admission_row_def)
  have q: "read_query operation scope d' = [row_texts r @ identity_texts r @ lifecycle_texts r d']"
    using r(2,3) op by (auto simp: read_query_def scoped_rows_def journal_of_def find_None_iff' filter_empty_conv)
  have l: "lifecycle_of operation d' = Some \<lparr>lc_operation = operation, lc_attempt = jr_attempt r,
        lc_state = LAdmitted, lc_updated = jd_clock d 2, lc_predecessor = predecessor\<rparr>"
    using r(4,6) op by (simp add: lifecycle_of_def find_snoc)
  have pred: "lifecycle_predecessor operation d' = predecessor" "row_state operation d' = LAdmitted"
    by (simp_all add: lifecycle_predecessor_def row_state_def l)
  have dl: "tg_deadline (pw_timing v) = deadline_secs" using t(4) by (auto simp: check_preview_def split: if_splits)
  have "journal_row_ok r" using assms(3-8) t dl
    by (simp add: journal_row_ok_def r(1) admission_row_def identity_of_preview_def word_le_nat_alt)
  then have "journal_decode_row (row_texts r @ identity_texts r @ lifecycle_texts r d') scope = Inr (admitted_of r d' scope)"
    using assms(9) op pred by (intro journal_row_reads_back) auto
  moreover have "length (row_texts r @ identity_texts r @ lifecycle_texts r d') = 20"
    by (simp add: row_texts_def identity_texts_def lifecycle_texts_def)
  moreover have "target = expected + 1" using t(1) by (auto simp: checked_add_def split: if_splits)
  ultimately show ?thesis using pred r(5) op
    by (simp add: first_row_def q admitted_of_def r(1) admission_row_def identity_of_preview_def dl deadline_secs_def)
qed

theorem admission_reads_back_witness:
  "\<exists>d' rows. bd_run (pm_body (action_example_ticket ''op-1'' ''ahu-1'')) (journal_empty (\<lambda>_. 1000)) = Inr (d', rows) \<and>
     map_ok am_release_target (first_row ''op-1'' action_example_scope (read_query ''op-1'' action_example_scope d')) = Inr (Some ''ahu-1'')"
proof -
  have ids: "id_ok ''op-1''" "id_ok ''ahu-1''"
    by (simp_all add: id_ok_def max_id_len_def id_char_def is_ascii_alphanumeric_def is_ascii_digit_def)
  let ?v = "action_example_preview ''ahu-1''"
  have e: "at_equipment (pw_target ?v) = ''ahu-1''" "at_accepted (pw_target ?v) \<le> max_accepted" "rp_target (pw_release ?v) = ''ahu-1''"
    by (simp_all add: action_example_preview_def max_accepted_def)
  have b: "bd_run (pm_body (pd_ticket (action_example_pending ''op-1'' ''ahu-1''))) (journal_empty (\<lambda>_. 1000)) =
      Inr (example_journal_db ''op-1'' ''ahu-1'', [[show_int 1], [''1'']])"
    using example_admission_runs by (simp add: action_example_pending_def)
  have c: "in_i64 (jd_clock (journal_empty (\<lambda>_. 1000)) 1)" by (simp add: journal_empty_def in_i64_def)
  have "first_row ''op-1'' action_example_scope (read_query ''op-1'' action_example_scope (example_journal_db ''op-1'' ''ahu-1'')) = Inr
      \<lparr>am_row_id = 0, am_operation = ''op-1'', am_scope = action_example_scope, am_equipment = at_equipment (pw_target ?v),
      am_binding = at_binding (pw_target ?v), am_accepted = at_accepted (pw_target ?v), am_expected = 0, am_target = 0 + 1,
      am_payload = preview_bytes ?v, am_deadline = 5, am_ceiling = 2, am_actor = ''operator-a'', am_attempt = ''op-1'',
      am_reconciled = False, am_wire = Some (of_int (es_wire_bits (pw_encoded ?v))), am_kind = Some (action_kind_of ?v),
      am_release = Some (rp_admitted (pw_release ?v)), am_release_target = Some (rp_target (pw_release ?v)), am_lifecycle = LAdmitted,
      am_predecessor = None, am_created = jd_clock (journal_empty (\<lambda>_. 1000)) 1\<rparr>"
    by (rule admission_reads_back [OF action_example_prepared b c ids(1)]) (use ids e in simp_all)
  then show ?thesis using b e(3) by (simp add: action_example_pending_def)
qed

section \<open>Transitions\<close>

lemma joined_lifecycle: "decode_joined row b = Inr a \<Longrightarrow> decode_lifecycle (parse_nullable (row ! 18)) = Inr (am_lifecycle a)"
  by (auto simp: decode_joined_def)

lemma query_state:
  assumes "row \<in> set (read_query operation scope d)" "journal_decode_row row scope = Inr a"
  shows "am_lifecycle a = row_state operation d"
proof -
  obtain r where r: "row = row_texts r @ identity_texts r @ lifecycle_texts r d" "jr_operation r = operation"
    using assms(1) by (auto simp: read_query_def scoped_rows_def)
  have len: "length row = 20" by (simp add: r(1) row_texts_def identity_texts_def lifecycle_texts_def)
  then obtain b where "decode_joined row b = Inr a" using assms(2) by (auto simp: journal_decode_row_def)
  then have "decode_lifecycle (parse_nullable (row ! 18)) = Inr (am_lifecycle a)" by (rule joined_lifecycle)
  moreover have "row ! 18 = lifecycle_as_str (row_state operation d)"
    by (simp add: r row_texts_def identity_texts_def lifecycle_texts_def)
  ultimately show ?thesis by simp
qed

lemma read_row_state:
  assumes r: "journal_read_row jm k operation scope w = (w', Inr a)"
    and e: "\<And>k e. se_query (jm_env jm k) = Some e \<or> se_admission (jm_env jm k) = Some e \<Longrightarrow> \<not> missing_schema e"
  shows "w' = jm_others jm k w" "am_lifecycle a = row_state operation (wd_data w')"
proof -
  have schema: "\<not> missing_schema f" if "journal_query jm k q v = (v', Inl f)" for q v v' f
    using that e by (auto simp: journal_query_def query_rows_def failing_def Let_def split: option.splits)
  have q: "journal_query jm k (read_query operation scope) w = (w', Inr (read_query operation scope (wd_data w')))"
      "first_row operation scope (read_query operation scope (wd_data w')) = Inr a" "w' = jm_others jm k w"
    using r schema by (auto simp: journal_read_row_def journal_query_def query_rows_def Let_def split: sum.splits prod.splits if_splits)
  then show "w' = jm_others jm k w" by simp
  obtain row where "row \<in> set (read_query operation scope (wd_data w'))" "journal_decode_row row scope = Inr a"
    by (rule first_row_source [OF q(2)])
  then show "am_lifecycle a = row_state operation (wd_data w')" by (rule query_state)
qed

text \<open>C6: While no other process moves its row and the store has its schema, an action that is terminal stays terminal
  under every transition, and only the transition to terminal itself is answered.\<close>

theorem terminal_is_final:
  assumes "transition jm aj generated operation scope new w = (w', res)" "row_state operation (wd_data w) = LTerminal"
    and others: "\<And>k v. row_state operation (wd_data (jm_others jm k v)) = row_state operation (wd_data v)"
    and schema: "\<And>k e. se_query (jm_env jm k) = Some e \<or> se_admission (jm_env jm k) = Some e \<Longrightarrow> \<not> missing_schema e"
  shows "row_state operation (wd_data w') = LTerminal \<and> (\<forall>a. res = Inr a \<longrightarrow> new = LTerminal \<and> am_lifecycle a = LTerminal)"
proof -
  obtain w1 r1 where 1: "journal_read_row jm 0 operation scope w = (w1, r1)" by fastforce
  show ?thesis
  proof (cases r1)
    case (Inl e)
    have "row_state operation (wd_data w1) = row_state operation (wd_data w)"
      using 1 others by (auto simp: journal_read_row_def journal_query_def Let_def split: sum.splits prod.splits if_splits)
    with Inl show ?thesis using assms(1,2) 1 by (auto simp: transition_def)
  next
    case (Inr a)
    have s: "w1 = jm_others jm 0 w" "am_lifecycle a = row_state operation (wd_data w1)"
      using read_row_state [OF _ schema] 1 Inr by auto
    have "row_state operation (wd_data w1) = LTerminal" using s(1) others assms(2) by simp
    with s(2) show ?thesis using assms(1) 1 Inr by (auto simp: transition_def transition_from_def split: if_splits)
  qed
qed

definition example_terminal_world :: "journal_db world" where
  "example_terminal_world =
     \<lparr>wd_data = (example_journal_db ''op-1'' ''ahu-1'')\<lparr>jd_lifecycle := [\<lparr>lc_operation = ''op-1'', lc_attempt = ''op-1'', lc_state = LTerminal,
        lc_updated = 1000, lc_predecessor = None\<rparr>]\<rparr>, wd_receipts = []\<rparr>"

lemma example_terminal: "row_state ''op-1'' (wd_data example_terminal_world) = LTerminal"
  by (simp add: row_state_def lifecycle_of_def example_terminal_world_def)

theorem terminal_is_final_witness:
  "\<exists>w' res. transition calm_moments example_action_journal ''generated-2'' ''op-1'' action_example_scope LDispatched example_terminal_world = (w', res) \<and>
     row_state ''op-1'' (wd_data w') = LTerminal \<and> \<not> is_ok res"
proof -
  obtain w' res where t: "transition calm_moments example_action_journal ''generated-2'' ''op-1'' action_example_scope LDispatched
      example_terminal_world = (w', res)" by fastforce
  have "row_state ''op-1'' (wd_data w') = LTerminal \<and> (\<forall>a. res = Inr a \<longrightarrow> LDispatched = LTerminal \<and> am_lifecycle a = LTerminal)"
    by (rule terminal_is_final [OF t example_terminal]) (auto simp: calm_moments_def example_environment_def)
  with t show ?thesis by (auto simp: is_ok_iff)
qed

section \<open>Where the code falls short\<close>

text \<open>The batch of a transition carries no guard: it moves a row whatever state the row is in when the batch runs, a terminal one too.\<close>

lemma transition_is_unguarded:
  assumes "journal_of operation d \<noteq> None" "lifecycle_of operation d = Some l" "0 \<le> jd_clock d 0"
  shows "\<exists>d'. bd_run (pm_body (prepare_open_batch generated identity (transition_body operation new) n)) d = Inr (d', [[''1''], [''1'']]) \<and>
    row_state operation d' = new"
proof -
  have "find (\<lambda>l. lc_operation l = operation) (map (\<lambda>l. if lc_operation l = operation then l\<lparr>lc_state := new, lc_updated := c\<rparr> else l) ls) =
      map_option (\<lambda>l. l\<lparr>lc_state := new, lc_updated := c\<rparr>) (find (\<lambda>l. lc_operation l = operation) ls)" for c and ls :: "lifecycle_row list"
    by (induction ls) auto
  then show ?thesis using assms
    by (auto simp: prepare_open_batch_def prepared_new_def open_batch_def transition_body_def transition_run_def row_state_def lifecycle_of_def)
qed

text \<open>The guard of the rate and the row that it admits take their times from separate readings of the clock: when the clock
  steps back between them, the guard forgets rows that the hour of the new row still holds, and a seventh is admitted.\<close>

definition rate_example_db :: journal_db where
  "rate_example_db = (journal_empty (\<lambda>k. if k = 0 then 8601 else 5000))
     \<lparr>jd_rows := map (\<lambda>(operation, g). (example_admitted_row operation ''ahu-1'' 5000)\<lparr>jr_expected := g, jr_target := g + 1\<rparr>)
        [(''a'', 0), (''b'', 1), (''c'', 2), (''d'', 3), (''e'', 4), (''f'', 5)],
      jd_targets := [((''scope-a'', ''ahu-1''), 6)]\<rparr>"

lemma rate_reads_two_clocks:
  "rates_within 0 rate_example_db \<and>
   (\<exists>row d' rows. admits row \<and> admission_run row None rate_example_db = Inr (d', rows) \<and>
      length (filter (set_within ''scope-a'' ''ahu-1'' 3600 5000) (jd_rows d')) = 7)"
proof -
  let ?d = rate_example_db
  let ?row = "\<lambda>now. (example_admitted_row ''g'' ''ahu-1'' now)\<lparr>jr_expected := 6, jr_target := 7\<rparr>"
  let ?d' = "?d\<lparr>jd_rows := jd_rows ?d @ [?row 5000], jd_targets := upsert_target ''scope-a'' ''ahu-1'' 7 (jd_targets ?d),
     jd_lifecycle := jd_lifecycle ?d @ [\<lparr>lc_operation = ''g'', lc_attempt = ''g'', lc_state = LAdmitted, lc_updated = 5000, lc_predecessor = None\<rparr>]\<rparr>"
  have len: "length (jd_rows ?d) = 6" and row: "\<forall>r \<in> set (jd_rows ?d). jr_scope r = ''scope-a'' \<and> jr_equipment r = ''ahu-1'' \<and>
      jr_kind r = Some SetAction \<and> jr_created r = 5000 \<and> jr_operation r \<noteq> ''g''"
    by (simp_all add: rate_example_db_def example_admitted_row_def)
  have clock: "jd_clock ?d 0 = 8601" "jd_clock ?d 1 = 5000" "jd_clock ?d 2 = 5000" by (simp_all add: rate_example_db_def journal_empty_def)
  have new: "jr_scope (?row 5000) = ''scope-a''" "jr_equipment (?row 5000) = ''ahu-1''" "jr_kind (?row 5000) = Some SetAction"
      "jr_created (?row 5000) = 5000" "jr_operation (?row 5000) = ''g''" "jr_attempt (?row 5000) = ''g''" "jr_expected (?row 5000) = 6"
      "jr_target (?row 5000) = 7" "jr_deadline (?row 5000) = 5"
    by (simp_all add: example_admitted_row_def)
  have "rates_within 0 ?d" using len length_filter_le [of _ "jd_rows ?d"] by (simp add: rates_within_def rate_max_per_hour_def)
  moreover have "admits ?row"
    unfolding admits_def by (intro exI [of _ "?row 0"]) (auto simp: example_admitted_row_def checked_add_def)
  moreover have guards: "rate_count ''scope-a'' ''ahu-1'' ?d = 0" "journal_of ''g'' ?d = None" "lifecycle_of ''g'' ?d = None"
      "target_generation_of ''scope-a'' ''ahu-1'' ?d = 6"
    using row by (auto simp: rate_count_def rate_counted_def filter_empty_conv clock rate_window_secs_def journal_of_def find_None_iff'
      lifecycle_of_def target_generation_of_def)
      (simp_all add: rate_example_db_def journal_empty_def)
  have "admission_run ?row None ?d = Inr (?d', [[show_int (int (length (jd_lifecycle ?d)) + 1)], [''1'']])"
    unfolding admission_run_def Let_def clock new guards by (simp add: rate_max_per_hour_def)
  moreover have "length (filter (set_within ''scope-a'' ''ahu-1'' 3600 5000) (jd_rows ?d')) = 7"
    using row new by (subst filter_True) (auto simp: set_within_def at_target_def len)
  ultimately show ?thesis by blast
qed

text \<open>The identity \<open>NULL\<close> is an identity like any other, but a column that holds it reads back as no value: an action released on
  such a target is committed, and never accepted as its own.\<close>

lemma null_target_is_lost:
  assumes "prepare_admission aj generated operation scope ceiling role actor v expected predecessor = Inr p"
    and "bd_run (pm_body (pd_ticket p)) d = Inr (d', rows)" "rp_target (pw_release v) = ''NULL''"
  shows "(\<exists>r \<in> set (jd_rows d'). jr_operation r = operation \<and> jr_scope r = scope_text scope) \<and>
    (\<forall>a. first_row operation scope (read_query operation scope d') = Inr a \<longrightarrow> require_identical p a \<noteq> Inr ())"
proof -
  obtain target where t: "pm_body (pd_ticket p) = open_batch (admission_body
       (admission_row operation scope v expected target (preview_bytes v) ceiling actor (identity_of_preview v)) (identity_of_preview v) predecessor)"
    "pd_identity p = identity_of_preview v"
    by (rule prepared_ticket [OF assms(1)]) (rule that; assumption)
  let ?row = "admission_row operation scope v expected target (preview_bytes v) ceiling actor (identity_of_preview v)"
  have "admission_run ?row predecessor d = Inr (d', rows)" using assms(2) t(1) by (simp add: open_batch_def admission_body_def)
  then obtain r where r: "r = ?row (jd_clock d 1)" "jd_rows d' = jd_rows d @ [r]" "journal_of (jr_operation r) d = None"
    by (rule admission_run_cases) (rule that; assumption)
  have op: "jr_operation r = operation" "jr_scope r = scope_text scope" "jr_release_target r = Some ''NULL''"
    using assms(3) by (simp_all add: r(1) admission_row_def identity_of_preview_def)
  have q: "read_query operation scope d' = [row_texts r @ identity_texts r @ lifecycle_texts r d']"
    using r(2,3) op by (auto simp: read_query_def scoped_rows_def journal_of_def find_None_iff' filter_empty_conv)
  have "am_release_target a = None" if "first_row operation scope (read_query operation scope d') = Inr a" for a
  proof -
    let ?texts = "row_texts r @ identity_texts r @ lifecycle_texts r d'"
    have n: "?texts ! 16 = ''NULL''" by (simp add: row_texts_def identity_texts_def optional_def op(3))
    have "length ?texts = 20" by (simp add: row_texts_def identity_texts_def lifecycle_texts_def)
    moreover have "journal_decode_row ?texts scope = Inr a" using that unfolding q first_row_def by (simp only: list.case) (simp split: if_splits)
    ultimately obtain b c where "decode_identity ?texts b = Inr c" "decode_joined ?texts c = Inr a" using decoded_twenty by blast
    moreover from this(1) have "am_release_target c = None"
      unfolding decode_identity_def n by (auto simp: wr_nullable_def parse_nullable_def Let_def split: if_splits)
    ultimately show ?thesis by (auto simp: decode_joined_def)
  qed
  moreover have "require_identical p a = Inr () \<Longrightarrow> am_release_target a = Some ''NULL''" for a
    using require_identical_ok [of p a] assms(3) t(2) by (simp add: identity_of_preview_def)
  ultimately show ?thesis using r(2) op by fastforce
qed

text \<open>The refusal of a partial identity never happens: one column that is missing makes the row one from before the columns.\<close>

lemma partial_identity_is_accepted: "decode_identity row a \<noteq> Inl (WrInvalid ''journal identity partial'')"
  by (auto simp: decode_identity_def and_then_def wr_nullable_def wr_parse_def wr_id_def ok_or_def map_err_def map_ok_def release_flag_def
      Let_def split: option.splits sum.splits if_splits)

end
