(* ===== verification/Spec2Isabelle.thy ===== *)
theory Spec2Isabelle
  imports Seal_Properties Normalize Store_Properties Accept_Properties Preview_Properties Journal_Properties
begin

text \<open>
  Verification development for Verdant, a local store of building models, observations, findings and
  actions written in Rust (\<open>src/src\<close>).

  \<^bold>\<open>The program.\<close> Verdant keeps its knowledge in rows. Two stores hold them: the native graph store, whose
  entries carry an identity, a kind and a descriptor text, and an outbox of SQLite tables. Every part of the
  program states what may be written there and reads its own state back by replaying the rows in order, so the
  histories are the state and each component is a replay together with operations that append to it. The access
  gate admits or refuses every call. The binding registry proposes and accepts what a point means. The seal
  store closes a set of rows under their references and keeps a manifest with its digest. The outbox runs each
  operation exactly once, by its identity. Acceptance and activation put a published configuration
  in force, and write their control events into the outbox under the guards of the other components.

  \<^bold>\<open>Theories and sources.\<close> In the order in which they build on each other:
  \<^item> \<open>Prelude\<close>, \<open>Text\<close>, \<open>Utf8\<close>: \<open>Result\<close> as a sum, the ordered maps of the standard library, text as a list of
    characters with the splitting, trimming, number and UTF-8 routines that the code calls.
  \<^item> \<open>Domain\<close>, \<open>Json\<close>, \<open>Ids\<close>, \<open>Values\<close>, \<open>Clock\<close>, \<open>Outcomes\<close> (\<open>domain/\<close>): errors, the JSON parser and printer,
    identities and scopes, semantic values, clock values, the outcome of an operation; \<open>Json_Facts\<close> has their facts.
  \<^item> \<open>Storage\<close> (\<open>storage/mod.rs\<close>): the store's errors, the prepared ticket and the reconciliation vocabulary.
  \<^item> \<open>Access_Codec\<close>, \<open>Access_Rows\<close>, \<open>Access\<close> (\<open>access/\<close>): descriptors, policies and rows, the replayed state, the
    check of a credential, and the four operations that write; \<open>Access_Facts\<close>.
  \<^item> \<open>Obs_Time\<close>, \<open>Float_Text\<close>, \<open>Normalize\<close> (\<open>observation/time.rs\<close>, \<open>normalize.rs\<close>): evidence of time and freshness,
    the shortest decimal text of a float, and the decoding of one BACnet property.
  \<^item> \<open>Framing\<close> (\<open>accept/codec.rs\<close>): length prefixed texts.
  \<^item> \<open>Binding_Records\<close>, \<open>Binding_Proposal\<close>, \<open>Registry\<close>, \<open>Registry_Writer\<close> (\<open>binding/\<close>): points and their bindings,
    proposals and findings, the replay of the registry and its commands; \<open>Registry_Facts\<close>, \<open>Proposal_Facts\<close>,
    \<open>Finding_Facts\<close>, \<open>Binding_Examples\<close>.
  \<^item> \<open>Seal_Records\<close>, \<open>Seal_Closure\<close>, \<open>Seal_Manifest\<close>, \<open>Seal_Store\<close> (\<open>seal/\<close>): references, the closure walk, the
    manifest, the store of seals and releases; \<open>Closure_Facts\<close>, \<open>Seal_Facts\<close>, \<open>Seal_Examples\<close>, \<open>Seal_Properties\<close>.
  \<^item> \<open>Outbox\<close>, \<open>Mutation\<close>, \<open>Outbox_Store\<close> (\<open>storage/sqlite/\<close>): rows and columns, the exactly once discipline over any
    transaction body, and the outbox's own bodies; \<open>Mutation_Facts\<close>, \<open>Outbox_Facts\<close>, \<open>Envelope_Facts\<close>, \<open>Store_Facts\<close>,
    \<open>Store_Properties\<close>.
  \<^item> \<open>Effective\<close>, \<open>Publication\<close>, \<open>Acceptance\<close>, \<open>Activation\<close> (\<open>accept/\<close>): the effective configuration, its publication,
    the accepted revision of a scope and the stages of its activation; \<open>Effective_Facts\<close>, \<open>Accept_Facts\<close>,
    \<open>Accept_Trace\<close>, \<open>Accept_Tickets\<close>, \<open>Accept_Properties\<close>.
  \<^item> \<open>Float_Convert\<close>, \<open>Preview\<close> (\<open>action_preview/\<close>): conversion and comparison of floats, the bounded parts of a
    preview, the order of a seal, the identity of an action; \<open>Preview_Facts\<close>, \<open>Preview_Properties\<close>.
  \<^item> \<open>Journal\<close> (\<open>action_journal/\<close>): the tables and statements of the action journal, admission, lifecycle, pages and
    migrations; \<open>Journal_Facts\<close>, \<open>Journal_Examples\<close>, \<open>Journal_Properties\<close>.

  \<^bold>\<open>Correspondence.\<close> A struct is a record and an enum a datatype with the source's constructors. A machine
  integer is a natural number or an integer with its bound checked where the code checks it and its
  wrap-around or saturation written out where the code wraps or saturates. A \<open>Result\<close> is a sum with the error on
  the left, so that every early return is a branch. An operation takes the state and what it reads of the
  outside, which a view record holds (the rows a scan returns, the clock, the random bytes, the digest), and
  returns the new state with the result. Where another process may act between two requests of an
  operation, the worlds before each request are separate arguments, and a step relation (\<open>node_trace\<close>) puts the
  submissions of many processes in any order. A mutex is modelled by the single step it protects, and a
  poisoned one is the error that the code returns.

  \<^bold>\<open>What is shown.\<close> Of codecs: that what is written reads back and that what is read was so written. Of the
  gate: what an admitted caller must have presented, that a revocation is final, that delegation never
  widens authority, and that the rows an operation appends are those its own replay accepts. Of the registry: that
  the commands refine the replay of their rows, what a committed proposal was checked against, and that a mode
  with a separator makes the history unreadable. Of seals: that a closure is closed and well founded,
  that a seal stands on what was checked, and that a sealed simulation is kept until it is released. Of the outbox: that every
  identity runs at most once, that a retry has the answer of the first attempt, that every
  uncertainty ends, that rows are well typed and only move forward, and which rows a claim takes. Of
  acceptance: that the histories of every scope stay chained in every interleaving, and what an event is guarded by. Of
  actions: the bounds of a preview down to the bits on the wire, which checks an available and a verified seal stand on, that
  an identity determines its action, that the generations of a target are consecutive over every run of any number of
  processes and its hourly rate bounded as far as the clock does not step back inside a batch, that a reported admission is in the journal as it was asked for, and that terminal is
  final.

  \<^bold>\<open>Interfaces.\<close> The locale \<open>ordered_map\<close> states the laws of the standard library's ordered map, and the
  interpretation \<open>bt\<close> gives them for the association lists the model uses. The locale \<open>transactions\<close> states
  what the mutation discipline asks of a transaction body, proves its consequences for the log of the bodies
  that ran, and is interpreted as \<open>outbox\<close> on the statements of the outbox and as \<open>actions\<close> on those of the action
  journal.

  \<^bold>\<open>Bounds and fuel.\<close> The JSON parser bounds its depth at \<open>max_depth\<close> as the code does, and its two loops carry
  the length of the input as fuel; every turn consumes a character, and the property of the parser shows that
  the fuel is never used up. The decoder of frames and the splitting of texts recurse on what is left of the input. The closure
  walk carries the number of rows that are not visited yet; a row is entered once. All other loops
  of the code walk a list.

  \<^bold>\<open>Parameters.\<close> The digest of the seal store is computed by the external \<open>shasum\<close> and is a function of the
  model, as are the sealed profile of the semantics in a preview, the texts of the migrations, the clock, the identifiers made from the process and a counter, the answers of the
  native store (a third-party crate), and the text that the \<open>sqlite3\<close> process answers with. No law of them is
  assumed except where a theorem names it.

  \<^bold>\<open>Not modelled.\<close> The pipeline of actions beyond its preview and journal, the semantic exchange
  formats, the site configuration file and the command line, the receiver of observations and the
  runtime with its transports are left out; the process handling of \<open>sqlite3\<close> and \<open>shasum\<close> (pipes, deadlines,
  killed children) and the facade over the native store only call the operating system and a
  third-party crate. The harnesses and fixtures under \<open>src/src\<close> exist for tests. The list of components in the
  manifest gives the reason for each.
\<close>

section \<open>Access\<close>

text \<open>C1: Whoever the gate lets in presented a named credential that an admission row issued for exactly that
  scope with that key, that no row revoked, whose generation is the capability's newest, that has not
  expired, and whose role and ceiling suffice; without a credential nobody enters.\<close>

theorem access_admission:
  assumes "enter g c scope required = Inr rep"
  shows "\<exists>cred st row role t. c = Some cred \<and> read_state (gv_horizon g) (gv_scan g) = Inr st \<and>
    require_bootstrapped st = Inr () \<and> admitted_row st cred row \<and> ir_scope row = scope_text scope \<and>
    gv_now g = Inr t \<and> (case cp_expires (ir_policy row) of None \<Rightarrow> True | Some e \<Rightarrow> t < e) \<and>
    role_kind_parse (ir_role row) = Inr role \<and> \<not> (role = Reviewer \<and> required = Publisher) \<and>
    required_level required \<le> ir_ceiling row \<and> er_capability rep = ir_cap row"
  using assms by (rule enter_sound)

theorem access_admission_witness:
  "\<exists>(g :: gate_view) cred st row. read_state (gv_horizon g) (gv_scan g) = Inr st \<and> length (as_issues st) = 2 \<and>
     admitted_row st cred row \<and> ir_scope row = ''scope-a'' \<and> required_level Reviewer \<le> ir_ceiling row"
proof -
  obtain rc pc b where boot: "bootstrap example_empty 1 0 ''install'' = Inr (rc, pc, b)" using example_bootstrap by blast
  let ?v = "\<lparr>gv_horizon = 64, gv_scan = Inr (written [1, 2, 3] b), gv_now = Inr 5\<rparr>"
  obtain rep where "enter ?v (Some rc) \<lparr>scope_text = ''scope-a''\<rparr> Reviewer = Inr rep"
    using bootstrap_effect_gen [OF boot example_made _ refl, where h = 64 and t = 5 and pid' = 0 and uniq' = 0 and reason' = "[]"] by (auto simp: is_ok_iff enter_review_def)
  from access_admission [OF this] obtain st row where st: "read_state (gv_horizon ?v) (gv_scan ?v) = Inr st"
    "admitted_row st rc row" "ir_scope row = ''scope-a''" "required_level Reviewer \<le> ir_ceiling row" by auto
  moreover have "length (as_issues st) = 2"
    by (rule bootstrap_core [OF boot example_made, of 64]) (use st(1) in \<open>auto simp: core_def\<close>)
  ultimately show ?thesis by blast
qed

text \<open>C11: A revocation is final: once a replayed history revokes a key, no later history that continues it, at any
  time and for any purpose, accepts that key again.\<close>

theorem revocation_permanent:
  assumes "read_state h (Inr rows) = Inr st" "revoked st (cred_capability cred) (cred_key_id cred)"
    and "read_state h' (Inr (rows @ later)) = Inr st'"
  shows "\<not> is_ok (checked st' now cred scope rotating)"
  using assms by (rule revocation_permanent_gen)

theorem revocation_permanent_witness:
  "\<exists>rows st. length rows = 1 \<and> read_state 64 (Inr rows) = Inr st \<and>
     \<not> is_ok (checked st (Inr 0) \<lparr>cred_capability = ''cap'', cred_key_id = ''key'', cred_key = ''synthetic-k''\<rparr> None False)"
proof -
  obtain rows st where r: "length rows = 1" "read_state 64 (Inr rows) = Inr st" "revoked st ''cap'' ''key''"
    by (rule example_revoked)
  let ?cred = "\<lparr>cred_capability = ''cap'', cred_key_id = ''key'', cred_key = ''synthetic-k''\<rparr>"
  have "\<not> is_ok (checked st (Inr 0) ?cred None False)"
    by (rule revocation_permanent [where h = 64 and rows = rows and later = "[]" and h' = 64]) (use r in simp_all)
  with r show ?thesis by blast
qed

text \<open>C14: Every history the gate writes, by any sequence of bootstraps, issues, rotations and revocations, is read
  back within the horizon: the gate never locks itself out, each key and generation names one row, and
  every revocation names a key that was issued.\<close>

theorem gate_reads_its_history:
  assumes "gate_history rows" "length rows \<le> unat h"
  shows "\<exists>st. read_state h (Inr rows) = Inr st \<and> issues_ok st \<and> revokes_issued (core st)"
  using readableD [OF gate_history_readable [OF assms(1)] assms(2)] read_state_issues_ok by blast

theorem gate_reads_its_history_witness:
  "\<exists>rows st. length rows = 3 \<and> read_state 64 (Inr rows) = Inr st \<and> issues_ok st"
proof -
  obtain rc pc b where boot: "bootstrap example_empty 1 0 ''install'' = Inr (rc, pc, b)" using example_bootstrap by blast
  note len = written_bootstrap_length [OF boot, of 1 2 3]
  from gate_reads_its_history [OF example_gate_history [OF boot], of 64] len show ?thesis by auto
qed

text \<open>C22: A rotation in such a history moves the authority: after its two rows are committed the new key is checked
  successfully in the old row's scope while the old row's policy lives, as a row that has the old one's scope, policy,
  role and ceiling; and the old key is refused by every history that continues this one.\<close>

theorem rotation_moves_authority:
  assumes "gate_history rows" "gv_scan g = Inr rows" "rotate g cur kid key reason = Inr (cred', b)"
    and "token_ok kid" "reason_made reason" "in_i64 i" "in_i64 j" "length rows + 2 \<le> unat h"
    and "length rows \<le> unat (gv_horizon g)"
  shows "\<exists>st row row' st'. read_state (gv_horizon g) (gv_scan g) = Inr st \<and> admitted_row st cur row \<and>
    cred' = \<lparr>cred_capability = cred_capability cur, cred_key_id = kid, cred_key = key\<rparr> \<and>
    ir_scope row' = ir_scope row \<and> ir_policy row' = ir_policy row \<and> ir_role row' = ir_role row \<and> ir_ceiling row' = ir_ceiling row \<and>
    read_state h (Inr (rows @ written [i, j] b)) = Inr st' \<and>
    (\<forall>t. (\<forall>e. cp_expires (ir_policy row) = Some e \<longrightarrow> t < e) \<longrightarrow>
       checked st' (Inr t) cred' (Some \<lparr>scope_text = ir_scope row\<rparr>) False = Inr row') \<and>
    (\<forall>h' later st2 now scope rotating. read_state h' (Inr (rows @ written [i, j] b @ later)) = Inr st2 \<longrightarrow>
       \<not> is_ok (checked st2 now cur scope rotating))"
proof -
  have "reason \<noteq> []" "utf8_valid reason" using assms(5) by (simp_all add: reason_made_def)
  then show ?thesis by (rule rotation_gen [OF assms(3,2,4) _ _ assms(6,7,8) gate_history_fresh [OF assms(1,2,3,9)]])
qed

theorem rotation_moves_authority_witness:
  "\<exists>rows cur st'. length rows = 5 \<and> read_state 64 (Inr rows) = Inr st' \<and>
     cred_capability cur = publisher_cap_text \<and> \<not> is_ok (checked st' (Inr 0) cur None False)"
proof -
  obtain rc pc b where boot: "bootstrap example_empty 1 0 ''install'' = Inr (rc, pc, b)" using example_bootstrap by blast
  note len = written_bootstrap_length [OF boot, of 1 2 3]
  let ?v = "example_empty\<lparr>gv_scan := Inr (written [1, 2, 3] b)\<rparr>"
  obtain c b' where rot: "rotate ?v pc ''key-2'' ''synthetic-2'' ''renewal'' = Inr (c, b')"
    using example_rotate [OF boot refl] by blast
  let ?rows = "written [1, 2, 3] b"
  have pre: "gv_scan ?v = Inr ?rows" "token_ok ''key-2''" "reason_made ''renewal''" "in_i64 4" "in_i64 5"
      "length ?rows + 2 \<le> unat (64 :: u32)" "length ?rows \<le> unat (gv_horizon ?v)"
    by (simp_all add: len example_empty_def token_ok_def id_char_def is_ascii_alphanumeric_def is_ascii_digit_def
        reason_made_def in_i64_def plain_utf8 plain_def verdant_defs)
  obtain st' where st': "read_state 64 (Inr (?rows @ written [4, 5] b')) = Inr st'"
    and no: "\<forall>h' later st2 now scope rotating. read_state h' (Inr (?rows @ written [4, 5] b' @ later)) = Inr st2 \<longrightarrow>
      \<not> is_ok (checked st2 now pc scope rotating)"
    using rotation_moves_authority [OF example_gate_history [OF boot] pre(1) rot pre(2-)] by blast
  have "\<not> is_ok (checked st' (Inr 0) pc None False)" using no [rule_format, of 64 "[]" st'] st' by simp
  moreover have "length (written [4, 5] b') = 2" by (rule rotate_written [OF rot])
  moreover have "cred_capability pc = publisher_cap_text" by (rule bootstrap_cases [OF boot])
  ultimately show ?thesis using len st' by (intro exI [of _ "written [1, 2, 3] b @ written [4, 5] b'"] exI [of _ pc]) auto
qed

text \<open>C23: Authority only shrinks when it is delegated: what a delegate's policy can authorise, the delegator's policy
  can, for every chain of delegations.\<close>

theorem delegation_transitive:
  assumes "policy_authorize p bound child = Inr ()" "policy_authorize child bound' grandchild = Inr ()"
  shows "policy_authorize p bound' grandchild = Inr () \<and> ceiling_level bound' \<le> ceiling_level bound"
  using assms by (rule policy_authorize_trans_gen)

theorem delegation_transitive_witness:
  "policy_authorize \<lparr>cp_scopes = [\<lparr>scope_text = ''a''\<rparr>, \<lparr>scope_text = ''b''\<rparr>], cp_admin_ceiling = Some 3, cp_expires = Some 9\<rparr>
     \<lparr>ceiling_scope = \<lparr>scope_text = ''a''\<rparr>, ceiling_level = 1\<rparr>
     \<lparr>cp_scopes = [], cp_admin_ceiling = None, cp_expires = Some 7\<rparr> = Inr ()"
proof -
  have 1: "policy_authorize \<lparr>cp_scopes = [\<lparr>scope_text = ''a''\<rparr>, \<lparr>scope_text = ''b''\<rparr>], cp_admin_ceiling = Some 3, cp_expires = Some 9\<rparr>
     \<lparr>ceiling_scope = \<lparr>scope_text = ''b''\<rparr>, ceiling_level = 2\<rparr>
     \<lparr>cp_scopes = [\<lparr>scope_text = ''a''\<rparr>], cp_admin_ceiling = Some 2, cp_expires = Some 8\<rparr> = Inr ()"
    by (simp add: policy_authorize_def)
  have 2: "policy_authorize \<lparr>cp_scopes = [\<lparr>scope_text = ''a''\<rparr>], cp_admin_ceiling = Some 2, cp_expires = Some 8\<rparr>
     \<lparr>ceiling_scope = \<lparr>scope_text = ''a''\<rparr>, ceiling_level = 1\<rparr>
     \<lparr>cp_scopes = [], cp_admin_ceiling = None, cp_expires = Some 7\<rparr> = Inr ()"
    by (simp add: policy_authorize_def)
  from delegation_transitive [OF 1 2] show ?thesis by blast
qed

text \<open>The bootstrap separates the roles: its reviewer enters reviews and is refused publication, its publisher
  enters both, and a second bootstrap on the rows it wrote is refused.\<close>

theorem bootstrap_effect:
  assumes "bootstrap g pid uniq reason = Inr (rc, pc, b)" "reason_made reason" "list_all in_i64 [i, j, k]" "3 \<le> unat h"
    and "view = \<lparr>gv_horizon = h, gv_scan = Inr (written [i, j, k] b), gv_now = Inr t\<rparr>"
  shows "is_ok (enter_review view (Some rc) \<lparr>scope_text = ''scope-a''\<rparr>) \<and>
    enter_publish view (Some rc) \<lparr>scope_text = ''scope-a''\<rparr> = Inl (CeilingExceeded 1 2) \<and>
    is_ok (enter_review view (Some pc) \<lparr>scope_text = ''scope-a''\<rparr>) \<and>
    is_ok (enter_publish view (Some pc) \<lparr>scope_text = ''scope-a''\<rparr>) \<and>
    bootstrap view pid' uniq' reason' = Inl already_bootstrapped"
  using assms by (rule bootstrap_effect_gen)

theorem bootstrap_effect_witness:
  "\<exists>view rc. enter_publish view (Some rc) \<lparr>scope_text = ''scope-a''\<rparr> = Inl (CeilingExceeded 1 2) \<and>
     is_ok (enter_review view (Some rc) \<lparr>scope_text = ''scope-a''\<rparr>)"
proof -
  obtain rc pc b where boot: "bootstrap example_empty 1 0 ''install'' = Inr (rc, pc, b)" using example_bootstrap by blast
  from bootstrap_effect [OF boot example_made _ refl, where h = 64 and t = 5 and pid' = 0 and uniq' = 0 and reason' = "[]"] show ?thesis by (auto intro!: exI)
qed

text \<open>Every admission row in shape is read back from its stored descriptor exactly, for the three kinds of rows.\<close>

theorem descriptors_round_trip:
  assumes "issue_ok ir" "revoke_ok rr" "bootstrap_ok br"
  shows "(\<exists>m. decode_descriptor (encode_issue ir) = Inr (''issue'', m) \<and> decode_issue m = Inr ir) \<and>
    (\<exists>m. decode_descriptor (encode_revoke rr) = Inr (''revoke'', m) \<and> decode_revoke m = Inr rr) \<and>
    (\<exists>m. decode_descriptor (encode_bootstrap br) = Inr (''bootstrap'', m) \<and> decode_bootstrap m = Inr br)"
  using assms issue_round_trip revoke_round_trip bootstrap_round_trip by blast

theorem descriptors_round_trip_witness:
  "\<exists>m. decode_descriptor (encode_revoke \<lparr>rr_cap = ''cap'', rr_key_id = ''key'', rr_capgen = 1, rr_issuer = ''issuer'',
       rr_reason = ''a;b=c%''\<rparr>) = Inr (''revoke'', m) \<and> bt_get m ''reason'' = Some ''a;b=c%''"
proof -
  let ?r = "\<lparr>rr_cap = ''cap'', rr_key_id = ''key'', rr_capgen = 1, rr_issuer = ''issuer'', rr_reason = ''a;b=c%''\<rparr>"
  have 1: "revoke_ok ?r"
    by (simp add: revoke_ok_def token_ok_def id_char_def is_ascii_alphanumeric_def is_ascii_digit_def plain_utf8 plain_def verdant_defs)
  from bootstrap_rows_ok [of "''why''" example_reviewer example_publisher]
  have 2: "bootstrap_ok (bootstrap_marker ''why'')"
    "issue_ok (issue_row_of example_reviewer \<lparr>scope_text = ''scope-a''\<rparr> 1 Reviewer ''why'' synthetic_label_text (policy_entry_only None))"
    by (simp_all add: reason_made_def example_reviewer_def example_publisher_def reviewer_cap_text_def reviewer_key_text_def
        publisher_cap_text_def publisher_key_text_def plain_utf8 plain_def verdant_defs)
  from descriptors_round_trip [OF 2(2) 1 2(1)] show ?thesis
    by (auto simp: decode_revoke_def require_field_def)
qed

section \<open>The domain\<close>

text \<open>C20: Every JSON value whose texts are UTF-8, whose numbers are lexical and whose objects have sorted
  distinct keys, nested at most 16 deep, is read back from its canonical text exactly.\<close>

theorem json_round_trip:
  "wf_json v \<Longrightarrow> json_depth v \<le> max_depth \<Longrightarrow> parse (stringify v) = Inr v"
  by (rule parse_stringify_gen)

theorem json_round_trip_witness:
  "parse (stringify (JObject [(''a'', JArray [JNull, JStr [dquote]]), (''b'', JBool True)])) =
     Inr (JObject [(''a'', JArray [JNull, JStr [dquote]]), (''b'', JBool True)])"
  by (rule json_round_trip)
    (simp_all add: max_depth_def json_depth_array json_depth_object plain_utf8 plain_def verdant_defs)

text \<open>Whatever the parser accepts is well formed and within the nesting bound, and its canonical text is
  read back to the same value: one reading canonicalises.\<close>

theorem json_canonical:
  "utf8_valid s \<Longrightarrow> parse s = Inr v \<Longrightarrow>
     wf_json v \<and> json_depth v \<le> max_depth \<and> parse (stringify v) = Inr v"
  using parse_wf parse_stringify_gen by blast

theorem json_canonical_witness:
  "parse (stringify (JArray [JBool True, JNull])) = Inr (JArray [JBool True, JNull])"
proof -
  have "parse ''[ true , null ]'' = Inr (JArray [JBool True, JNull])" by code_simp
  from json_canonical [OF _ this] show ?thesis by (simp add: plain_utf8 plain_def verdant_defs)
qed

text \<open>C21: The parser of values returns a value or a refusal of the input on every text: the fuel of its loops
  is never spent.\<close>

theorem json_parser_returns: "parse_value (Suc max_depth) s \<noteq> Inl OutOfFuel"
  using fuelled_parse_value [of "Suc max_depth"] unfolding fuelled_def by (rule spec)

text \<open>Every well-formed semantic value is read back from its JSON form exactly, diagnostics and unknown
  modes included.\<close>

theorem values_round_trip: "value_ok v \<Longrightarrow> value_from_json (value_to_json v) = Inr v"
  by (rule value_round_trip_gen)

theorem values_round_trip_witness:
  "value_from_json (value_to_json (Diag (Invalid ''sensor''))) = Inr (Diag (Invalid ''sensor''))"
  by (rule values_round_trip) (simp add: plain_utf8 plain_def verdant_defs)

text \<open>Outcomes, releases, record identities, monotonic marks and time triples that satisfy their
  constructors' invariants are read back from their JSON forms exactly.\<close>

theorem records_round_trip:
  assumes "outcome_ok out" "release_ok r" "record_identity_ok i" "mark_ok m" "time_triple_ok t"
  shows "outcome_from_json (outcome_to_json out) = Inr out \<and>
    release_from_json (release_to_json r) = Inr r \<and>
    record_identity_from_json (record_identity_to_json i) = Inr i \<and>
    mark_from_json (mark_to_json m) = Inr m \<and>
    time_triple_from_json (time_triple_to_json t) = Inr t"
  using assms by (simp add: outcome_round_trip_gen release_round_trip_gen record_identity_round_trip_gen
    mark_round_trip_gen time_triple_round_trip_gen)

theorem records_round_trip_witness:
  "outcome_from_json (outcome_to_json (Unresolved ''op-1'' ''lost'')) = Inr (Unresolved ''op-1'' ''lost'')"
  by (rule records_round_trip [
      where r = "\<lparr>release_operation = ''op-1'', release_target = ''ahu-1''\<rparr>"
        and i = "\<lparr>ri_generation = ''gen-1'', ri_seq = 7\<rparr>" and m = "\<lparr>mark_boot = ''b'', mark_nanos = 0\<rparr>"
        and t = "\<lparr>tt_source = 1, tt_receipt = 2, tt_ingestion = 2\<rparr>", THEN conjunct1])
    (simp_all add: outcome_ok_def release_ok_def record_identity_ok_def mark_ok_def time_triple_ok_def
      in_i64_def id_ok_def max_id_len_def id_char_def is_ascii_alphanumeric_def is_ascii_digit_def
      plain_utf8 plain_def verdant_defs)

section \<open>Bindings\<close>

text \<open>C15: The registry in memory refines its history: after a recording or a retirement commits, replaying the
  stored rows with the one it committed succeeds from any registry and gives the registry the operation left.\<close>

theorem registry_refines_history:
  assumes "run_command rv cmd r0 = (r', Inr ())" "command_ok cmd" "rv_scan rv = Inr cols"
    and "\<forall>operation. rv_operation rv = Inr operation \<longrightarrow> id_ok operation"
  shows "\<exists>p n. pr_kind p = command_kind cmd \<and> submitted (rv_submit rv p) = Inr n \<and>
    (\<forall>r1. \<exists>r2. replay (Inr (cols @ [stored_columns n p])) r1 = (r2, Inr ()) \<and> reg_core r2 = reg_core r' \<and>
       rg_sequence r2 = rg_sequence r')"
proof -
  obtain rows where "read_descriptors (Inr cols) = Inr rows" "commits rv rows (command_kind cmd) r'"
    using command_commits_gen [OF assms(1,2,4)] assms(3) by metis
  then show ?thesis by (rule commit_replays)
qed

theorem registry_refines_history_witness:
  "\<exists>p n r2. replay (Inr [stored_columns n p]) (cleared_registry 0) = (r2, Inr ()) \<and>
     rg_points r2 = [(''ahu-1:sat'', example_point)]"
proof -
  obtain r' where r': "run_command (example_store []) example_point_command (cleared_registry 0) = (r', Inr ())"
      "rg_points r' = [(''ahu-1:sat'', example_point)]"
    using example_records_point by blast
  have st: "rv_scan (example_store []) = Inr []" "\<forall>operation. rv_operation (example_store []) = Inr operation \<longrightarrow> id_ok operation"
    by (simp_all add: example_store_def)
  obtain p n r2 where "replay (Inr ([] @ [stored_columns n p])) (cleared_registry 0) = (r2, Inr ())" "reg_core r2 = reg_core r'"
    using registry_refines_history [OF r'(1) example_command_ok st] by blast
  moreover from arg_cong [OF this(2), of rg_points] r' have "rg_points r2 = [(''ahu-1:sat'', example_point)]" by simp
  ultimately show ?thesis by auto
qed

text \<open>C24: Retirement is final: when a history retires a unit, no proposal for it without a receipt of its own is
  accepted over any history that continues it, whoever proposes it and whatever the store answers.\<close>

theorem retired_never_bound:
  assumes "replay (Inr cols) a = (r, Inr ())" "pb_equipment (pp_binding pending) \<in> rg_retired r"
    and "rv_scan (pv_base pv) = Inr (cols @ later)" "pv_reconcile pv = MNotCommitted operation e"
  shows "\<not> is_ok (snd (submit_proposal pv credential pending r0))"
proof
  assume "is_ok (snd (submit_proposal pv credential pending r0))"
  then obtain r' commit where ok: "submit_proposal pv credential pending r0 = (r', Inr commit)"
    by (cases "submit_proposal pv credential pending r0") (auto simp: is_ok_iff)
  obtain rr where "replay (Inr (cols @ later)) r0 = (rr, Inr ())" "resolve rr (pp_binding pending) = Inr ()"
    by (rule submit_proposal_cases [OF ok assms(4)]) (simp add: assms(3))
  with replay_extend [OF assms(1) _ assms(2)] resolve_retired show False by (metis is_ok_simps(2))
qed

theorem retired_never_bound_witness:
  "\<exists>cols r. replay (Inr cols) (cleared_registry 0) = (r, Inr ()) \<and> ''ahu-1'' \<in> rg_retired r \<and>
     \<not> is_ok (snd (submit_proposal (example_proposal_view cols example_empty) None example_pending (cleared_registry 0)))"
proof -
  obtain cols r where r: "replay (Inr cols) (cleared_registry 0) = (r, Inr ())" "''ahu-1'' \<in> rg_retired r" by (rule example_retired)
  have "\<not> is_ok (snd (submit_proposal (example_proposal_view cols example_empty) None example_pending (cleared_registry 0)))"
    by (rule retired_never_bound [OF r(1), where later = "[]"])
      (use r(2) in \<open>simp_all add: example_pending_def example_binding_def example_proposal_view_def example_store_def\<close>)
  with r show ?thesis by blast
qed

text \<open>C25: A proposal is accepted in two ways. Either the store holds a receipt of its operation, and the row that it names is
  a proposal of the same binding at the same revision; then it is the answer to a retry, whoever presents it. Or there is no
  receipt, and it is accepted only against the current registry, whose revision it names, for a known point of
  the same scope, class and unit on a unit neither retired nor awaiting reassessment, and only with the
  gate's admission: a review for a sensing role, a publication for a driving one.\<close>

theorem proposal_needs_authority:
  assumes "submit_proposal pv credential pending r0 = (r', Inr commit)"
  shows "pc_binding commit = pp_binding pending \<and> unat (pc_revision commit) = unat (pp_revision pending) + 1 \<and>
   ((\<exists>m. submitted (pv_reconcile pv) = Inr (pc_row_id commit) \<and>
       committed_descriptor (pv_committed pv) (pc_row_id commit) (pp_operation pending) op_propose_text = Inr m \<and>
       decode_propose m = Inr (pp_binding pending) \<and> stored_revision m = Inr (pp_revision pending)) \<or>
    (\<exists>operation e r point report. pv_reconcile pv = MNotCommitted operation e \<and>
       replay (rv_scan (pv_base pv)) r0 = (r, Inr ()) \<and> rg_revision r = pp_revision pending \<and>
       fits_point r (pp_binding pending) point \<and>
       (pb_requested (pp_binding pending) = Sense \<longrightarrow>
          enter_review (av_gate (pv_authority pv)) credential (pb_point_scope (pp_binding pending)) = Inr report) \<and>
       (pb_requested (pp_binding pending) = Drive \<longrightarrow>
          enter_publish (av_gate (pv_authority pv)) credential (pb_point_scope (pp_binding pending)) = Inr report)))"
proof (cases "\<exists>operation e. pv_reconcile pv = MNotCommitted operation e")
  case True
  then obtain operation e where n: "pv_reconcile pv = MNotCommitted operation e" by blast
  show ?thesis
  proof (rule submit_proposal_cases [OF assms n])
    fix r auth row m
    assume a: "replay (rv_scan (pv_base pv)) r0 = (r, Inr ())" "rg_revision r = pp_revision pending"
      "resolve r (pp_binding pending) = Inr ()"
      "authority_of (pv_authority pv) credential (pb_point_scope (pp_binding pending)) (pb_requested (pp_binding pending)) = Inr auth"
      "prepare_row (pv_base pv) r (pp_operation pending) op_propose_text (pb_equipment (pp_binding pending))
         (stored_proposal pending (au_report auth)) (Some auth) = Inr row"
      "commit = \<lparr>pc_operation = pp_operation pending, pc_row_id = m, pc_revision = pp_revision pending + 1,
         pc_binding = pp_binding pending\<rparr>"
    have "pp_revision pending \<noteq> - 1" using prepare_row_cases [OF a(5)] a(2) by (simp add: binding_op_texts)
    from checked_add_Some [OF checked_add_one [OF this]]
    have "unat (pp_revision pending + 1) = unat (pp_revision pending) + 1" by simp
    moreover obtain point where "fits_point r (pp_binding pending) point" using a(3) by (auto simp: resolve_Inr)
    ultimately show ?thesis using a(1,2,6) authority_of_Inr [OF a(4)] n
      by (intro conjI disjI2 exI [of _ operation] exI [of _ e] exI [of _ r] exI [of _ point] exI [of _ "au_report auth"]) simp_all
  qed
next
  case False
  obtain m where "submitted (pv_reconcile pv) = Inr (pc_row_id commit)"
      "committed_descriptor (pv_committed pv) (pc_row_id commit) (pp_operation pending) op_propose_text = Inr m"
      "decode_propose m = Inr (pp_binding pending)" "stored_revision m = Inr (pp_revision pending)"
      "pc_binding commit = pp_binding pending" "checked_add (pp_revision pending) 1 = Some (pc_revision commit)"
    by (rule retried_proposal_cases [OF assms False])
  moreover from checked_add_Some [OF this(6)] have "unat (pc_revision commit) = unat (pp_revision pending) + 1" by simp
  ultimately show ?thesis by blast
qed

theorem proposal_needs_authority_witness:
  "\<exists>(g :: gate_view) cred report. enter_review g (Some cred) example_scope = Inr report"
proof -
  obtain cols g cred r' where "submit_proposal (example_proposal_view cols g) (Some cred) example_pending (cleared_registry 0) =
       (r', Inr \<lparr>pc_operation = ''op-1'', pc_row_id = 1, pc_revision = 2, pc_binding = example_binding\<rparr>)"
    by (rule example_submits)
  from proposal_needs_authority [OF this] show ?thesis
    by (auto simp: example_proposal_view_def example_pending_def example_binding_def)
qed

text \<open>C26: A committed proposal without an earlier receipt, of a binding and an operation in form and whose mode, if it has
  one, needs no encoding (it is not a dash and has no percent sign or semicolon: what a semicolon does is a property of its own),
  is durable: its row replays to the registry with the binding appended, and once the store holds the operation's
  receipt and that row, submitting the same proposal again returns the same commit, with any credential and whatever the
  store would answer to a new row.\<close>

theorem proposal_is_durable:
  assumes "submit_proposal pv credential pending r0 = (r', Inr commit)" "pv_reconcile pv = MNotCommitted operation e"
    and "binding_ok (pp_binding pending)" "mode_plain (pb_mode (pp_binding pending))" "id_ok (pp_operation pending)"
  shows "\<exists>r rows p row q. replay (rv_scan (pv_base pv)) r0 = (r, Inr ()) \<and> read_descriptors (rv_scan (pv_base pv)) = Inr rows \<and>
    submitted (rv_submit (pv_base pv) p) = Inr (pc_row_id commit) \<and>
    decode_row (stored_columns (pc_row_id commit) p) = Inr row \<and>
    replays (rows @ [row]) q \<and> rg_bindings q = rg_bindings r @ [pp_binding pending] \<and>
    (\<forall>pv2 credential2 r2 r3. pv_reconcile pv2 = MCommitted (pp_operation pending) [[show_int (pc_row_id commit)]] \<longrightarrow>
       pv_committed pv2 (pc_row_id commit) op_propose_text = Inr [[sql_quote (pr_value p)]] \<longrightarrow>
       replay (rv_scan (pv_base pv2)) r2 = (r3, Inr ()) \<longrightarrow>
       submit_proposal pv2 credential2 pending r2 = (r3, Inr commit))"
proof (rule submit_proposal_cases [OF assms(1,2)])
  fix r auth p n
  assume a: "replay (rv_scan (pv_base pv)) r0 = (r, Inr ())" "rg_revision r = pp_revision pending"
    "authority_of (pv_authority pv) credential (pb_point_scope (pp_binding pending)) (pb_requested (pp_binding pending)) = Inr auth"
    "prepare_row (pv_base pv) r (pp_operation pending) op_propose_text (pb_equipment (pp_binding pending))
       (stored_proposal pending (au_report auth)) (Some auth) = Inr p"
    "submitted (rv_submit (pv_base pv) p) = Inr n"
    and commit: "commit = \<lparr>pc_operation = pp_operation pending, pc_row_id = n, pc_revision = pp_revision pending + 1,
       pc_binding = pp_binding pending\<rparr>"
  note report = authority_report_ok [OF a(3)] and n = submitted_range [OF a(5)] and p = prepare_row_cases [OF a(4)]
  obtain rows where rows: "read_descriptors (rv_scan (pv_base pv)) = Inr rows" "replays rows r" by (rule replay_sound [OF a(1)])
  obtain row q where "decode_row (stored_columns n p) = Inr row" "replays (rows @ [row]) q"
      "rg_bindings q = rg_bindings r @ [pp_binding pending]"
    by (rule proposal_row_replays [OF assms(3-5) report, of p n rows r]) (use p n rows a in auto)
  moreover have "pp_revision pending \<noteq> - 1" using p a(2) by (simp add: binding_op_texts)
  ultimately show ?thesis
    using a(1,5) rows(1) p n reconcile_finds [OF assms(3-5) report] by (auto simp: commit intro!: exI)
qed

theorem proposal_is_durable_witness:
  "\<exists>rows row q. replays (rows @ [row]) q \<and> example_binding \<in> set (rg_bindings q)"
proof -
  obtain cols g cred r' where s: "submit_proposal (example_proposal_view cols g) (Some cred) example_pending (cleared_registry 0) =
       (r', Inr \<lparr>pc_operation = ''op-1'', pc_row_id = 1, pc_revision = 2, pc_binding = example_binding\<rparr>)"
    by (rule example_submits)
  have "pv_reconcile (example_proposal_view cols g) = MNotCommitted ''op-1'' (SqliteFailure ''no receipt'')"
    by (simp add: example_proposal_view_def)
  from proposal_is_durable [OF s this example_pending_ok] show ?thesis
    by (elim exE conjE, intro exI conjI) (assumption, simp add: example_pending_def)
qed

text \<open>C38: The mode of a proposal is stored without encoding: a mode with a semicolon and no equals sign, which the
  mode parser and the proposal accept, makes every history that holds the stored row unreadable.\<close>

theorem separated_mode_blocks_history:
  assumes "op_mode_parse mode = Inr m" "utf8_valid mode" "CHR '';'' \<in> set mode" "CHR ''='' \<notin> set mode"
    and "pb_mode (pp_binding pending) = Some m"
    and "prepare_row rv r (pp_operation pending) op_propose_text equipment (stored_proposal pending report) auth = Inr p"
  shows "\<not> is_ok (snd (replay (Inr (cols @ stored_columns n p # later)) r0))"
proof (rule unreadable_row_blocks)
  have m: "m = UnknownMode mode" "op_mode_ok m"
    using assms(1-3) by (auto simp: op_mode_parse_def split: if_splits)
  show "pr_value p = value_to_json (VText (stored_proposal pending report))" using prepare_row_cases [OF assms(6)] by simp
  show "utf8_valid (stored_proposal pending report)" using assms(5) m(2) by (intro stored_proposal_utf8) simp
  show "\<not> is_ok (b_split_descriptor (stored_proposal pending report))"
    using assms(3-5) m(1) by (intro separated_mode_unreadable) simp_all
qed

theorem separated_mode_blocks_history_witness:
  "\<exists>b p. propose ''dev-1'' Service example_scope ''ahu-1'' ''sat'' example_scope ''src-1'' (Known DegC) Service (Known DegC)
       (Some (UnknownMode ''day;night'')) Sense Sense (FeedbackSingle Sense) = Inr b \<and>
     op_mode_parse ''day;night'' = Inr (UnknownMode ''day;night'') \<and>
     \<not> is_ok (snd (replay (Inr [stored_columns 1 p]) (cleared_registry 0)))"
proof -
  let ?b = "example_binding\<lparr>pb_mode := Some (UnknownMode ''day;night'')\<rparr>"
  let ?p = "example_pending\<lparr>pp_binding := ?b\<rparr>"
  have pr: "propose ''dev-1'' Service example_scope ''ahu-1'' ''sat'' example_scope ''src-1'' (Known DegC) Service (Known DegC)
       (Some (UnknownMode ''day;night'')) Sense Sense (FeedbackSingle Sense) = Inr ?b"
    by (simp add: propose_def example_binding_def)
  have mode: "op_mode_parse ''day;night'' = Inr (UnknownMode ''day;night'')" by (simp add: op_mode_parse_def)
  have u: "utf8_valid ''day;night''" by (simp add: plain_utf8 plain_def verdant_defs)
  obtain cols g cred r' where s: "submit_proposal (example_proposal_view cols g) (Some cred) example_pending (cleared_registry 0) =
       (r', Inr \<lparr>pc_operation = ''op-1'', pc_row_id = 1, pc_revision = 2, pc_binding = example_binding\<rparr>)"
    by (rule example_submits)
  obtain auth where "authority_of (pv_authority (example_proposal_view cols g)) (Some cred) (pb_point_scope example_binding)
      (pb_requested example_binding) = Inr auth"
    by (rule submit_proposal_cases [OF s]) (auto simp: example_proposal_view_def example_pending_def)
  have "is_ok (prepare_row (example_store []) (cleared_registry 0) (pp_operation ?p) op_propose_text ''ahu-1''
      (stored_proposal ?p (au_report auth)) None)"
    by (rule example_prepare) (simp_all add: cleared_registry_def)
  then obtain p where "prepare_row (example_store []) (cleared_registry 0) (pp_operation ?p) op_propose_text ''ahu-1''
      (stored_proposal ?p (au_report auth)) None = Inr p"
    by (auto simp: is_ok_iff)
  from separated_mode_blocks_history [OF mode u _ _ _ this, of "[]" 1 "[]"] pr mode show ?thesis by auto
qed

section \<open>Observations\<close>

text \<open>A decoded property is suitable as a synthetic value only when the service returned between 1 and 512
  bytes that decode to a boolean, an integer of 64 bits or a decimal within its bounds, and the unit of
  the point is known; no text and no transport failure is ever suitable.\<close>

theorem suitable_decodes:
  assumes "dc_suitability (decode outcome units cd) = SyntheticValueOnly"
  shows "\<exists>bytes. outcome = ValueBytes bytes \<and> bytes \<noteq> [] \<and> length bytes \<le> 512 \<and>
    scalar bytes cd = (dc_value (decode outcome units cd), QValid) \<and> reading_ok (dc_value (decode outcome units cd)) \<and>
    (\<forall>s. dc_value (decode outcome units cd) \<noteq> VText s) \<and> \<not> unit_is_unknown (dc_unit (decode outcome units cd))"
proof (rule decode_suitable [OF assms])
  fix bytes v
  assume "outcome = ValueBytes bytes" "scalar bytes cd = (v, QValid)" "dc_value (decode outcome units cd) = v"
    "dc_unit (decode outcome units cd) = provenance_unit units" "\<not> unit_is_unknown (provenance_unit units)" "\<forall>s. v \<noteq> VText s"
  then show ?thesis using scalar_valid [of bytes cd v] by (auto simp: bacnet_value_bytes_def)
qed

theorem suitable_decodes_witness:
  "\<exists>bytes. reading_ok (dc_value (decode (ValueBytes bytes) (SyntheticBinding (Known DegC)) Scalar)) \<and>
     dc_value (decode (ValueBytes bytes) (SyntheticBinding (Known DegC)) Scalar) = Integer (- 5)"
proof -
  let ?d = "decode (ValueBytes (encode_integer True 2 (- 5))) (SyntheticBinding (Known DegC)) Scalar"
  have s: "scalar (encode_integer True 2 (- 5)) Scalar = (Integer (- 5), QValid)" by (rule integer_decodes) simp_all
  have "dc_suitability ?d = SyntheticValueOnly" by (simp add: decode_value [OF s])
  from suitable_decodes [OF this] have "reading_ok (dc_value ?d)" by blast
  then show ?thesis by (intro exI [of _ "encode_integer True 2 (- 5)"]) (simp add: decode_value [OF s])
qed

text \<open>Integers of one to eight bytes, unsigned or in two's complement, are decoded exactly from the protocol's
  encoding, in its short and in its extended length form.\<close>

theorem integers_decode:
  assumes "1 \<le> k" "k \<le> 8"
    and "if sg then - (128 * 256 ^ (k - 1)) \<le> n \<and> n < 128 * 256 ^ (k - 1) else 0 \<le> n \<and> n < 256 ^ k"
  shows "scalar (encode_integer sg k n) Scalar = (Integer n, QValid)"
  using assms by (rule integer_decodes)

theorem integers_decode_witness:
  "scalar (encode_integer True 8 (- 9223372036854775808)) Scalar = (Integer (- 9223372036854775808), QValid) \<and>
   scalar (encode_integer False 8 18446744073709551615) Scalar = (Integer 18446744073709551615, QValid)"
  using integers_decode [of 8 True "- 9223372036854775808"] integers_decode [of 8 False 18446744073709551615] by simp

text \<open>C27: Staleness does not heal: evidence assessed as stale is not assessed as fresh at any later reading of a
  clock that ran forward.\<close>

theorem stale_persists:
  assumes "assess p ev now = Stale" "mark_nanos (cr_monotonic now) \<le> mark_nanos (cr_monotonic later)"
    and "cr_wall now \<le> cr_wall later"
  shows "assess p ev later \<noteq> Fresh"
  using assms by (rule stale_persists_gen)

theorem stale_persists_witness:
  "\<exists>p ev now later. assess p ev now = Stale \<and> assess p ev later \<noteq> Fresh"
proof -
  let ?c = "\<lambda>w m. \<lparr>cr_wall = w, cr_monotonic = \<lparr>mark_boot = ''b'', mark_nanos = m\<rparr>, cr_continuity = Confirmed\<rparr>"
  let ?ev = "\<lparr>te_times = SourceAbsent 0 0, te_receipt_origin = InertAdapterReturn,
     te_receipt_mark = \<lparr>mark_boot = ''b'', mark_nanos = 0\<rparr>, te_ingestion = ?c 0 0\<rparr>"
  let ?p = "\<lparr>fp_max_age = 1000000, fp_max_wall_skew = 0\<rparr>"
  have "assess ?p ?ev (?c 2000000 2000000) = Stale"
    by (simp add: assess_def is_wall_ambiguous_def elapsed_since_def checked_sub_def millis_floor nanos_per_milli_def in_i64_def
        checked_sub_i64_def duration_of_millis_def from_nanos_def)
  from this stale_persists [OF this, of "?c 3000000 3000000"] show ?thesis by auto
qed

section \<open>Framed texts\<close>

text \<open>The framing of texts is canonical: texts within the limits are read back from their frames exactly, and
  every text that is read is the one framing of what was read.\<close>

theorem frames_round_trip:
  assumes "\<forall>f \<in> set fs. utf8_valid f" "length fs \<le> n" "length (frames_encode fs) \<le> m" "m < 2 ^ 64"
  shows "frames_decode (frames_encode fs) m n = Inr fs \<and>
    (\<forall>raw m' n'. frames_decode raw m' n' = Inr fs \<longrightarrow> raw = frames_encode fs \<and> length fs \<le> n' \<and> length raw \<le> m')"
  using assms by (auto simp: frames_decode_encode dest: frames_decode_sound)

theorem frames_round_trip_witness:
  "frames_decode (frames_encode [''accepted'', [], ''1:2'']) 100 3 = Inr [''accepted'', [], ''1:2'']"
  by (rule frames_round_trip [THEN conjunct1])
    (simp_all add: frames_encode_def frame_def show_nat.simps plain_utf8 plain_def verdant_defs)

end
